(* ===== verification/Prelude.thy ===== *)
theory Prelude
  imports Complex_Main "HOL-Library.Word"
begin

text \<open>
  Shared vocabulary of the development: the model's basic types, the named collections the
  component proofs feed to the simplifier, and generic facts on lists, integer rounding and
  decimal digits that several components use.
\<close>

subsection \<open>Collections and basic types\<close>

named_theorems frame \<open>which operations leave the committed database alone, and which are atomic\<close>
named_theorems op_defs \<open>definitions of the small store operations\<close>
named_theorems ieee \<open>evaluation of floating point comparisons and arithmetic\<close>

text \<open>Go's \<open>time.Time\<close>, in microseconds since the epoch (the resolution of a Postgres TIMESTAMP).\<close>
type_synonym gotime = int

text \<open>A UUID is its 128 bits; \<open>uuid.Nil\<close> is zero.\<close>
type_synonym uuid = "128 word"

abbreviation uuid_nil :: uuid where "uuid_nil \<equiv> 0"

subsection \<open>Integer division rounded half away from zero\<close>

text \<open>\<open>div_half_away n d\<close> is \<open>n / d\<close> rounded to the nearest integer, ties away from zero.\<close>

definition div_half_away :: "int \<Rightarrow> int \<Rightarrow> int" where
  "div_half_away n d = (if 0 \<le> n then (2 * n + d) div (2 * d) else - ((2 * (- n) + d) div (2 * d)))"

lemma div_half_away_mult [simp]: "0 < d \<Longrightarrow> div_half_away (k * d) d = k"
proof -
  assume d: "0 < d"
  have pos: "(2 * (m * d) + d) div (2 * d) = m" for m :: int
  proof -
    have "2 * (m * d) + d = d + m * (2 * d)" by simp
    then have "(2 * (m * d) + d) div (2 * d) = d div (2 * d) + m"
      using d by (metis div_mult_self1 mult_eq_0_iff order_less_irrefl zero_neq_numeral add.commute)
    then show ?thesis using d by simp
  qed
  show ?thesis
    using pos [of k] pos [of "- k"] by (simp add: div_half_away_def)
qed

lemma div_half_away_one [simp]: "div_half_away k 1 = k"
  using div_half_away_mult [of 1 k] by simp

lemma div_half_away_zero [simp]: "0 < d \<Longrightarrow> div_half_away 0 d = 0"
  by (simp add: div_half_away_def)

lemma div_half_away_minus: "0 < d \<Longrightarrow> div_half_away (- n) d = - div_half_away n d"
  by (auto simp: div_half_away_def)

lemma div_half_away_nonneg: "0 < d \<Longrightarrow> 0 \<le> n \<Longrightarrow> 0 \<le> div_half_away n d"
  by (simp add: div_half_away_def pos_imp_zdiv_nonneg_iff)

lemma div_half_away_mono:
  assumes "0 < d" and "m \<le> n"
  shows "div_half_away m d \<le> div_half_away n d"
proof -
  have up: "(2 * a + d) div (2 * d) \<le> (2 * b + d) div (2 * d)" if "a \<le> b" for a b
    using that assms(1) by (simp add: zdiv_mono1)
  consider "0 \<le> m" | "m < 0" "0 \<le> n" | "n < 0" by linarith
  then show ?thesis
  proof cases
    case 1
    then show ?thesis using up [OF assms(2)] assms(2) by (simp add: div_half_away_def)
  next
    case 2
    have "div_half_away m d \<le> 0"
      using 2 assms(1) by (simp add: div_half_away_def pos_imp_zdiv_nonneg_iff)
    moreover have "0 \<le> div_half_away n d"
      using 2 assms(1) by (simp add: div_half_away_nonneg)
    ultimately show ?thesis by simp
  next
    case 3
    then show ?thesis using up [of "- n" "- m"] assms(2) by (simp add: div_half_away_def)
  qed
qed

subsection \<open>Decimal digits\<close>

text \<open>\<open>utoa n\<close> is the decimal representation of a natural number without leading zeros.\<close>

definition digit_char :: "nat \<Rightarrow> char" where
  "digit_char d = char_of (48 + d)"

fun utoa :: "nat \<Rightarrow> string" where
  "utoa n = (if n < 10 then [digit_char n] else utoa (n div 10) @ [digit_char (n mod 10)])"

declare utoa.simps [simp del]

definition is_digit :: "char \<Rightarrow> bool" where
  "is_digit c \<longleftrightarrow> 48 \<le> (of_char c :: nat) \<and> (of_char c :: nat) \<le> 57"

definition digit_val :: "char \<Rightarrow> nat" where
  "digit_val c = of_char c - 48"

fun digits_val :: "nat \<Rightarrow> string \<Rightarrow> nat" where
  "digits_val acc [] = acc"
| "digits_val acc (c # cs) = digits_val (10 * acc + digit_val c) cs"

definition atou :: "string \<Rightarrow> nat" where
  "atou s = digits_val 0 s"

text \<open>The last \<open>k\<close> decimal digits of \<open>n\<close>, with leading zeros.\<close>

fun pad_digits :: "nat \<Rightarrow> nat \<Rightarrow> string" where
  "pad_digits 0 n = []"
| "pad_digits (Suc k) n = pad_digits k (n div 10) @ [digit_char (n mod 10)]"

lemma of_char_digit_char: "d < 10 \<Longrightarrow> (of_char (digit_char d) :: nat) = 48 + d"
  by (simp add: digit_char_def)

lemma is_digit_digit_char [simp]: "d < 10 \<Longrightarrow> is_digit (digit_char d)"
  by (simp add: is_digit_def of_char_digit_char)

lemma digit_val_digit_char [simp]: "d < 10 \<Longrightarrow> digit_val (digit_char d) = d"
  by (simp add: digit_val_def of_char_digit_char)

lemma digits_val_append: "digits_val acc (xs @ ys) = digits_val (digits_val acc xs) ys"
  by (induction xs arbitrary: acc) auto

lemma digits_val_acc: "digits_val acc xs = acc * 10 ^ length xs + digits_val 0 xs"
proof (induction xs arbitrary: acc)
  case Nil
  then show ?case by simp
next
  case (Cons c xs)
  show ?case
    using Cons [of "10 * acc + digit_val c"] Cons [of "digit_val c"] by (simp add: algebra_simps)
qed

lemma atou_append: "atou (xs @ ys) = atou xs * 10 ^ length ys + atou ys"
  unfolding atou_def by (simp add: digits_val_append digits_val_acc [of "digits_val 0 xs" ys])

lemma atou_single [simp]: "d < 10 \<Longrightarrow> atou [digit_char d] = d"
  by (simp add: atou_def)

lemma atou_Nil [simp]: "atou [] = 0"
  by (simp add: atou_def)

lemma utoa_digits: "\<forall>c \<in> set (utoa n). is_digit c"
proof (induction n rule: utoa.induct)
  case (1 n)
  then show ?case by (subst utoa.simps) auto
qed

lemma utoa_not_Nil [simp]: "utoa n \<noteq> []"
  by (subst utoa.simps) simp

lemma atou_utoa [simp]: "atou (utoa n) = n"
proof (induction n rule: utoa.induct)
  case (1 n)
  show ?case
  proof (cases "n < 10")
    case True
    then show ?thesis by (simp add: utoa.simps [of n])
  next
    case False
    then show ?thesis using 1 by (simp add: utoa.simps [of n] atou_append)
  qed
qed

lemma length_pad_digits [simp]: "length (pad_digits k n) = k"
  by (induction k arbitrary: n) auto

lemma pad_digits_digits: "\<forall>c \<in> set (pad_digits k n). is_digit c"
  by (induction k arbitrary: n) auto

lemma atou_pad_digits: "n < 10 ^ k \<Longrightarrow> atou (pad_digits k n) = n"
proof (induction k arbitrary: n)
  case 0
  then show ?case by simp
next
  case (Suc k)
  then have "n div 10 < 10 ^ k" by (simp add: less_mult_imp_div_less mult.commute)
  then show ?case by (simp add: atou_append Suc.IH)
qed

subsection \<open>Lists\<close>

lemma sum_list_map_filter_append:
  "sum_list (map f (filter P (xs @ ys))) = sum_list (map f (filter P xs)) + sum_list (map f (filter P ys))"
  for f :: "'a \<Rightarrow> int"
  by simp

end
