(* ===== verification/Float64.thy ===== *)
theory Float64
  imports Prelude
begin

text \<open>
  Go's \<open>float64\<close> (IEEE 754 binary64), executable. A finite value is an integer multiple of
  \<open>2^-1074\<close>, the smallest positive float64, so \<open>FFin k\<close> stands for \<open>k * 2^-1074\<close>: comparisons
  are comparisons of integers, and an operation computes exactly and then rounds to 53 significant
  bits, ties to even, overflowing to an infinity from \<open>2^1024\<close> on. Gradual underflow needs no case
  of its own. The sign of a zero is not represented: the modelled code never divides by a float
  that can be zero and otherwise observes zeros by comparison only.
\<close>

datatype f64 = FNaN | FInf bool | FFin int

abbreviation f64_zero :: f64 where "f64_zero \<equiv> FFin 0"

text \<open>\<open>FInf True\<close> is \<open>+Inf\<close>. The exponent of the unit and the overflow bound, in units.\<close>

abbreviation f64_one_units :: int where "f64_one_units \<equiv> 2 ^ 1074"
definition f64_overflow :: int where "f64_overflow = 2 ^ 2098"

lemma f64_overflow_pos [simp]: "0 < f64_overflow"
  by (simp add: f64_overflow_def)

subsection \<open>Rounding\<close>

text \<open>How many low bits must go for \<open>n\<close> to have at most 53 significant bits.\<close>

fun sig_shift :: "nat \<Rightarrow> nat" where
  "sig_shift n = (if n < 9007199254740992 then 0 else Suc (sig_shift (n div 2)))"

declare sig_shift.simps [simp del]

text \<open>\<open>n / d\<close> rounded to the nearest integer, ties to even (\<open>0 \<le> n\<close>, \<open>0 < d\<close>).\<close>

definition div_half_even :: "int \<Rightarrow> int \<Rightarrow> int" where
  "div_half_even n d =
     (let q = n div d; r = n mod d in
      if 2 * r < d then q else if d < 2 * r then q + 1 else if even q then q else q + 1)"

text \<open>The magnitude \<open>n / d\<close> (in units) rounded to 53 significant bits, as an integer of units.\<close>

definition round53 :: "int \<Rightarrow> int \<Rightarrow> int" where
  "round53 n d = (let s = 2 ^ sig_shift (nat (n div d)) in div_half_even n (d * s) * s)"

definition mk_f64 :: "int \<Rightarrow> int \<Rightarrow> f64" where
  "mk_f64 n d =
     (let r = round53 \<bar>n\<bar> d in
      if r < f64_overflow then FFin (sgn n * r) else FInf (0 < n))"

text \<open>The values a float64 can hold.\<close>

fun is_f64 :: "f64 \<Rightarrow> bool" where
  "is_f64 (FFin k) = (round53 \<bar>k\<bar> 1 = \<bar>k\<bar> \<and> \<bar>k\<bar> < f64_overflow)"
| "is_f64 _ = True"

fun finite_f64 :: "f64 \<Rightarrow> bool" where
  "finite_f64 (FFin _) = True"
| "finite_f64 _ = False"

subsection \<open>Comparison and arithmetic\<close>

text \<open>Go's \<open><\<close>, \<open>==\<close>: every comparison with a NaN is false.\<close>

fun flt :: "f64 \<Rightarrow> f64 \<Rightarrow> bool" where
  "flt FNaN _ = False"
| "flt _ FNaN = False"
| "flt (FInf s) (FInf t) = (\<not> s \<and> t)"
| "flt (FInf s) (FFin _) = (\<not> s)"
| "flt (FFin _) (FInf t) = t"
| "flt (FFin a) (FFin b) = (a < b)"

fun feq :: "f64 \<Rightarrow> f64 \<Rightarrow> bool" where
  "feq FNaN _ = False"
| "feq _ FNaN = False"
| "feq a b = (a = b)"

definition fle :: "f64 \<Rightarrow> f64 \<Rightarrow> bool" where
  "fle a b \<longleftrightarrow> flt a b \<or> feq a b"

fun fneg :: "f64 \<Rightarrow> f64" where
  "fneg FNaN = FNaN"
| "fneg (FInf s) = FInf (\<not> s)"
| "fneg (FFin k) = FFin (- k)"

fun fadd :: "f64 \<Rightarrow> f64 \<Rightarrow> f64" where
  "fadd FNaN _ = FNaN"
| "fadd _ FNaN = FNaN"
| "fadd (FInf s) (FInf t) = (if s = t then FInf s else FNaN)"
| "fadd (FInf s) (FFin _) = FInf s"
| "fadd (FFin _) (FInf t) = FInf t"
| "fadd (FFin a) (FFin b) = mk_f64 (a + b) 1"

definition fsub :: "f64 \<Rightarrow> f64 \<Rightarrow> f64" where
  "fsub a b = fadd a (fneg b)"

definition f64_of_int :: "int \<Rightarrow> f64" where
  "f64_of_int n = mk_f64 (n * f64_one_units) 1"

subsection \<open>Rounding lemmas\<close>

lemma div_half_even_bounds:
  assumes "0 < d"
  shows "n div d \<le> div_half_even n d" and "div_half_even n d \<le> n div d + 1"
  by (simp_all add: div_half_even_def Let_def)

lemma div_half_even_mult [simp]: "0 < d \<Longrightarrow> div_half_even (k * d) d = k"
  by (simp add: div_half_even_def)

lemma div_half_even_one [simp]: "div_half_even n 1 = n"
  by (simp add: div_half_even_def)

lemma div_half_even_le:
  assumes "0 < d" and "n \<le> m * d"
  shows "div_half_even n d \<le> m"
proof (cases "n mod d = 0")
  case True
  then obtain q where n: "n = q * d" by (metis mod_0_imp_dvd dvd_def mult.commute)
  then show ?thesis using assms by simp
next
  case False
  have "n div d < m"
  proof (rule ccontr)
    assume "\<not> n div d < m"
    then have "m * d \<le> n div d * d" using assms(1) by simp
    moreover have "n div d * d + n mod d = n" by simp
    moreover have "0 \<le> n mod d" using assms(1) by simp
    ultimately show False using False assms(2) by linarith
  qed
  then show ?thesis using div_half_even_bounds(2) [OF assms(1), of n] by linarith
qed

lemma sig_shift_small: "n < 9007199254740992 \<Longrightarrow> sig_shift n = 0"
  by (simp add: sig_shift.simps [of n])

lemma sig_shift_mono: "m \<le> n \<Longrightarrow> sig_shift m \<le> sig_shift n"
proof (induction n arbitrary: m rule: sig_shift.induct)
  case (1 n)
  show ?case
  proof (cases "n < 9007199254740992")
    case True
    then show ?thesis using 1(2) by (simp add: sig_shift.simps [of m])
  next
    case False
    then show ?thesis
      using "1.IH" [OF False, of "m div 2"] 1(2)
      by (simp add: sig_shift.simps [of m] sig_shift.simps [of n] div_le_mono)
  qed
qed

lemma sig_shift_pow: "0 < sig_shift n \<Longrightarrow> 2 ^ sig_shift n \<le> n"
proof (induction n rule: sig_shift.induct)
  case (1 n)
  show ?case
  proof (cases "n < 9007199254740992")
    case True
    then show ?thesis using "1.prems" by (simp add: sig_shift.simps [of n])
  next
    case False
    have "2 ^ sig_shift (n div 2) \<le> n div 2"
    proof (cases "0 < sig_shift (n div 2)")
      case True
      then show ?thesis using "1.IH" [OF False] by simp
    next
      case eq: False
      then show ?thesis using False by simp
    qed
    then have "2 * 2 ^ sig_shift (n div 2) \<le> n" by linarith
    then show ?thesis using False by (simp add: sig_shift.simps [of n])
  qed
qed

lemma round53_small: "0 \<le> k \<Longrightarrow> k < 9007199254740992 \<Longrightarrow> round53 k 1 = k"
  by (simp add: round53_def sig_shift_small Let_def)

lemma round53_0 [simp]: "round53 0 1 = 0"
  by (simp add: round53_small)

lemma round53_nonneg: "0 \<le> k \<Longrightarrow> 0 \<le> round53 k 1"
proof -
  assume k: "0 \<le> k"
  let ?s = "(2::int) ^ sig_shift (nat k)"
  have "0 \<le> k div ?s" using k by (simp add: pos_imp_zdiv_nonneg_iff)
  then have "0 \<le> div_half_even k ?s" using div_half_even_bounds(1) [of ?s k] by simp
  then show ?thesis by (simp add: round53_def Let_def)
qed

text \<open>Gradual underflow: a positive exact result never rounds to zero.\<close>

lemma round53_pos: "0 < k \<Longrightarrow> 0 < round53 k 1"
proof -
  assume k: "0 < k"
  let ?s = "(2::int) ^ sig_shift (nat k)"
  have "?s \<le> k"
  proof (cases "0 < sig_shift (nat k)")
    case True
    then have "2 ^ sig_shift (nat k) \<le> nat k" by (rule sig_shift_pow)
    then have "int (2 ^ sig_shift (nat k)) \<le> int (nat k)" by (simp only: of_nat_le_iff)
    then show ?thesis using k by simp
  next
    case False
    then show ?thesis using k by simp
  qed
  then have "1 \<le> k div ?s" by (simp add: pos_imp_zdiv_pos_iff int_one_le_iff_zero_less)
  moreover have "k div ?s \<le> div_half_even k ?s" by (rule div_half_even_bounds(1)) simp
  ultimately have "1 \<le> div_half_even k ?s" by linarith
  then show ?thesis by (simp add: round53_def Let_def)
qed

lemma round53_multiple: "\<exists>m. round53 k 1 = m * 2 ^ sig_shift (nat k)"
  by (auto simp: round53_def Let_def)

text \<open>Rounding never passes a representable value.\<close>

lemma round53_le:
  assumes "0 \<le> k" and "k \<le> x" and "round53 x 1 = x"
  shows "round53 k 1 \<le> x"
proof -
  let ?s = "(2::int) ^ sig_shift (nat k)"
  obtain m where "x = m * 2 ^ sig_shift (nat x)"
    using round53_multiple [of x] assms(3) by metis
  moreover have "sig_shift (nat k) \<le> sig_shift (nat x)"
    using assms(2) by (simp add: sig_shift_mono nat_mono)
  ultimately have "?s dvd x"
    by (metis dvd_triv_right dvd_trans le_imp_power_dvd)
  then obtain q where x: "x = q * ?s" by (metis dvd_def mult.commute)
  have "div_half_even k ?s \<le> q"
    using assms(2) x by (intro div_half_even_le) auto
  then show ?thesis by (simp add: round53_def Let_def x)
qed

lemma sig_shift_le: "n < 9007199254740992 * 2 ^ s \<Longrightarrow> sig_shift n \<le> s"
proof (induction s arbitrary: n)
  case 0
  then show ?case by (simp add: sig_shift_small)
next
  case (Suc s)
  then have "n div 2 < 9007199254740992 * 2 ^ s" by simp
  then have "sig_shift (n div 2) \<le> s" by (rule Suc.IH)
  then show ?case by (simp add: sig_shift.simps [of n])
qed

lemma sig_shift_div: "n div 2 ^ sig_shift n < 9007199254740992"
proof (induction n rule: sig_shift.induct)
  case (1 n)
  then show ?case
    by (cases "n < 9007199254740992")
      (simp_all add: sig_shift.simps [of n] div_mult2_eq [symmetric] mult.commute)
qed

text \<open>An integer of units is exact when it is a multiple of the spacing of its binade.\<close>

lemma round53_dvd:
  assumes "2 ^ sig_shift (nat k) dvd k"
  shows "round53 k 1 = k"
proof -
  obtain q where "k = q * 2 ^ sig_shift (nat k)"
    using assms by (metis dvd_def mult.commute)
  then have "div_half_even k (2 ^ sig_shift (nat k)) = q"
    by (metis div_half_even_mult zero_less_numeral zero_less_power)
  then show ?thesis
    using \<open>k = q * _\<close> by (simp add: round53_def Let_def)
qed

text \<open>Every multiple of \<open>2^g\<close> below \<open>2^53 * 2^g\<close> is exact.\<close>

lemma round53_grid:
  assumes "0 \<le> j" and "j \<le> 9007199254740992"
  shows "round53 (j * 2 ^ g) 1 = j * 2 ^ g"
proof (cases "j = 9007199254740992")
  case False
  then have "nat (j * 2 ^ g) < 9007199254740992 * 2 ^ g"
    using assms by (simp add: nat_less_iff)
  then have "sig_shift (nat (j * 2 ^ g)) \<le> g" by (rule sig_shift_le)
  then show ?thesis using assms by (intro round53_dvd) (auto intro: dvd_mult le_imp_power_dvd)
next
  case True
  have "nat (j * 2 ^ g) < 9007199254740992 * 2 ^ Suc g"
    using True by (simp add: nat_less_iff)
  then have "sig_shift (nat (j * 2 ^ g)) \<le> Suc g" by (rule sig_shift_le)
  then have "(2::int) ^ sig_shift (nat (j * 2 ^ g)) dvd 2 ^ Suc g" by (rule le_imp_power_dvd)
  moreover have "(2::int) ^ Suc g dvd j * 2 ^ g" using True by simp
  ultimately show ?thesis using assms by (intro round53_dvd) (auto intro: dvd_trans)
qed

lemma round53_form:
  assumes "0 \<le> k"
  shows "\<exists>j. 0 \<le> j \<and> j \<le> 9007199254740992 \<and> round53 k 1 = j * 2 ^ sig_shift (nat k)"
proof -
  let ?s = "(2::int) ^ sig_shift (nat k)"
  have "int (nat k div 2 ^ sig_shift (nat k)) < 9007199254740992"
    using sig_shift_div [of "nat k"] by linarith
  then have "k div ?s < 9007199254740992" using assms by (simp add: zdiv_int)
  moreover have "0 \<le> k div ?s" using assms by (simp add: pos_imp_zdiv_nonneg_iff)
  moreover have "k div ?s \<le> div_half_even k ?s" "div_half_even k ?s \<le> k div ?s + 1"
    by (rule div_half_even_bounds; simp)+
  ultimately show ?thesis
    by (intro exI [of _ "div_half_even k ?s"]) (simp add: round53_def Let_def)
qed

lemma round53_idem [simp]: "0 \<le> k \<Longrightarrow> round53 (round53 k 1) 1 = round53 k 1"
  using round53_form [of k] by (metis round53_grid)

subsection \<open>Arithmetic lemmas\<close>

lemma feq_FFin [simp]: "feq x (FFin k) \<longleftrightarrow> x = FFin k"
  by (cases x) auto

lemma mk_f64_0 [simp]: "mk_f64 0 1 = FFin 0"
  by (simp add: mk_f64_def Let_def f64_overflow_def)

lemma is_f64_mk [simp]: "is_f64 (mk_f64 k 1)"
proof -
  have "0 \<le> round53 \<bar>k\<bar> 1" by (simp add: round53_nonneg)
  then show ?thesis
    by (auto simp: mk_f64_def Let_def abs_mult sgn_if)
qed

lemma is_f64_fsub [simp]: "is_f64 a \<Longrightarrow> is_f64 b \<Longrightarrow> is_f64 (fsub a b)"
  by (cases a; cases b) (auto simp: fsub_def)

lemma fsub_FFin [simp]: "fsub (FFin a) (FFin b) = mk_f64 (a - b) 1"
  by (simp add: fsub_def)

lemma fsub_NaN [simp]: "fsub FNaN b = FNaN" "fsub a FNaN = FNaN"
  by (cases a; simp add: fsub_def)+

lemma fsub_Inf [simp]:
  "fsub (FInf s) (FInf t) = (if s \<noteq> t then FInf s else FNaN)"
  "fsub (FInf s) (FFin b) = FInf s"
  "fsub (FFin a) (FInf t) = FInf (\<not> t)"
  by (auto simp: fsub_def)

text \<open>Subtracting less than all of a representable quantity leaves a smaller positive quantity.\<close>

lemma fsub_pos:
  assumes "is_f64 (FFin a)" and "0 \<le> b" and "b < a"
  obtains c where "fsub (FFin a) (FFin b) = FFin c" and "0 < c" and "c \<le> a" and "is_f64 (FFin c)"
proof -
  let ?r = "round53 (a - b) 1"
  have "0 < ?r" using assms(3) by (simp add: round53_pos)
  moreover have "?r \<le> a" using assms by (intro round53_le) auto
  moreover from this have "?r < f64_overflow" using assms by simp
  ultimately show thesis
    using assms by (intro that [of ?r]) (simp_all add: mk_f64_def Let_def)
qed

text \<open>On a common grid, subtraction is exact.\<close>

lemma fsub_exact:
  assumes "a = i * 2 ^ g" and "b = j * 2 ^ g" and "0 \<le> j" and "j \<le> i"
    and "i \<le> 9007199254740992" and "a < f64_overflow"
  shows "fsub (FFin a) (FFin b) = FFin (a - b)"
proof -
  have eq: "a - b = (i - j) * 2 ^ g" using assms by (simp add: left_diff_distrib)
  have nn: "0 \<le> a - b" using eq assms by simp
  have "round53 (a - b) 1 = a - b" unfolding eq using assms by (intro round53_grid) auto
  moreover have "a - b < f64_overflow"
    using assms(2,3,6) by (smt (verit) mult_nonneg_nonneg zero_le_power)
  ultimately show ?thesis using nn by (simp add: mk_f64_def Let_def sgn_if)
qed

end
