(* ===== verification/Shared.thy ===== *)
theory Shared
  imports Float64
begin

text \<open>
  internal/shared: the sentinel errors and how handlers map them to HTTP responses, and pagination.
  A Go error is a sentinel, an error of another package (its text), or a wrapped error
  \<open>fmt.Errorf("pre%wpost", err)\<close>, through which \<open>errors.Is\<close> looks.
\<close>

subsection \<open>Errors (errors.go)\<close>

datatype sentinel =
    ErrNotFound | ErrDuplicateIdempotencyKey | ErrInsufficientFunds | ErrInvalidStateTransition
  | ErrBadRequest | ErrUnauthorized | ErrForbidden | ErrConflict | ErrValidation
  | ErrRateLimitExceeded
  | ErrServiceUnavailable | ErrNotImplemented

fun sentinel_text :: "sentinel \<Rightarrow> string" where
  "sentinel_text ErrNotFound = ''not found''"
| "sentinel_text ErrDuplicateIdempotencyKey = ''duplicate idempotency key''"
| "sentinel_text ErrInsufficientFunds = ''insufficient funds''"
| "sentinel_text ErrInvalidStateTransition = ''invalid state transition''"
| "sentinel_text ErrBadRequest = ''bad request''"
| "sentinel_text ErrUnauthorized = ''unauthorized''"
| "sentinel_text ErrForbidden = ''forbidden''"
| "sentinel_text ErrConflict = ''conflict''"
| "sentinel_text ErrValidation = ''validation error''"
| "sentinel_text ErrRateLimitExceeded = ''rate limit exceeded''"
| "sentinel_text ErrServiceUnavailable = ''service unavailable''"
| "sentinel_text ErrNotImplemented = ''not implemented''"

datatype gerr = Sentinel sentinel | Opaque string | Wrapped string gerr string

fun error_text :: "gerr \<Rightarrow> string" where
  "error_text (Sentinel s) = sentinel_text s"
| "error_text (Opaque t) = t"
| "error_text (Wrapped pre e post) = pre @ error_text e @ post"

fun errors_is :: "gerr \<Rightarrow> sentinel \<Rightarrow> bool" where
  "errors_is (Sentinel s) t = (s = t)"
| "errors_is (Opaque _) t = False"
| "errors_is (Wrapped _ e _) t = errors_is e t"

text \<open>The \<open>%q\<close> verb, for the plain ASCII text the messages carry.\<close>

definition go_quote :: "string \<Rightarrow> string" where
  "go_quote s = ''\"'' @ s @ ''\"''"

text \<open>An error is (wraps) at most one sentinel.\<close>

lemma errors_is_unique: "errors_is e s \<Longrightarrow> errors_is e t \<Longrightarrow> s = t"
  by (induction e) auto

subsection \<open>HTTP responses (response.go)\<close>

datatype json =
    JNull | JBool bool | JNum f64 | JInt int | JStr string | JArr "json list"
  | JObj "(string \<times> json) list"

record http_response =
  rs_status :: nat
  rs_body :: "json option"

definition ErrorResponse :: "string \<Rightarrow> json" where
  "ErrorResponse msg = JObj [(''error'', JStr msg)]"

definition HTTPError :: "nat \<Rightarrow> string \<Rightarrow> http_response" where
  "HTTPError status msg = \<lparr>rs_status = status, rs_body = Some (ErrorResponse msg)\<rparr>"

definition WriteJSON :: "nat \<Rightarrow> json \<Rightarrow> http_response" where
  "WriteJSON status v = \<lparr>rs_status = status, rs_body = Some v\<rparr>"

definition service_error_status :: "gerr \<Rightarrow> nat" where
  "service_error_status err =
     (if errors_is err ErrNotFound then 404
      else if errors_is err ErrUnauthorized then 401
      else if errors_is err ErrForbidden then 403
      else if errors_is err ErrBadRequest then 400
      else if errors_is err ErrValidation then 422
      else if errors_is err ErrInsufficientFunds then 422
      else if errors_is err ErrConflict \<or> errors_is err ErrInvalidStateTransition then 409
      else if errors_is err ErrDuplicateIdempotencyKey then 200
      else if errors_is err ErrRateLimitExceeded then 429
      else if errors_is err ErrServiceUnavailable then 503
      else if errors_is err ErrNotImplemented then 501
      else 500)"

definition HandleServiceError :: "gerr \<Rightarrow> http_response" where
  "HandleServiceError err =
     (let status = service_error_status err in
      if status = 200 then \<lparr>rs_status = 200, rs_body = None\<rparr>
      else \<lparr>rs_status = status, rs_body = Some (ErrorResponse (error_text err))\<rparr>)"

text \<open>The table of the README: the status of each sentinel.\<close>

fun sentinel_status :: "sentinel \<Rightarrow> nat" where
  "sentinel_status ErrNotFound = 404"
| "sentinel_status ErrUnauthorized = 401"
| "sentinel_status ErrForbidden = 403"
| "sentinel_status ErrBadRequest = 400"
| "sentinel_status ErrValidation = 422"
| "sentinel_status ErrInsufficientFunds = 422"
| "sentinel_status ErrConflict = 409"
| "sentinel_status ErrInvalidStateTransition = 409"
| "sentinel_status ErrDuplicateIdempotencyKey = 200"
| "sentinel_status ErrRateLimitExceeded = 429"
| "sentinel_status ErrServiceUnavailable = 503"
| "sentinel_status ErrNotImplemented = 501"

lemma errors_is_iff_unique:
  assumes "errors_is e s"
  shows "errors_is e t \<longleftrightarrow> t = s"
  using assms errors_is_unique by blast

lemma service_error_status_sentinel:
  "errors_is err s \<Longrightarrow> service_error_status err = sentinel_status s"
  by (cases s) (simp_all add: service_error_status_def errors_is_iff_unique)

lemma service_error_status_unknown:
  "(\<And>s. \<not> errors_is err s) \<Longrightarrow> service_error_status err = 500"
  by (simp add: service_error_status_def)

subsection \<open>Pagination\<close>

text \<open>\<open>strconv.Atoi\<close>: an optional sign and decimal digits, in the range of a 64-bit int.\<close>

definition atoi :: "string \<Rightarrow> int option" where
  "atoi s =
     (let neg = (s \<noteq> [] \<and> hd s = CHR ''-'');
          ds = (if s \<noteq> [] \<and> (hd s = CHR ''-'' \<or> hd s = CHR ''+'') then tl s else s);
          v = (if neg then - int (atou ds) else int (atou ds)) in
      if ds \<noteq> [] \<and> list_all is_digit ds \<and> - (2 ^ 63) \<le> v \<and> v < 2 ^ 63 then Some v else None)"

text \<open>\<open>r.URL.Query().Get\<close> returns the empty string for a missing key.\<close>

type_synonym url_query = "string \<Rightarrow> string"

definition ParsePagination :: "url_query \<Rightarrow> int \<times> int" where
  "ParsePagination q =
     (let limit = (case atoi (q ''limit'') of Some v \<Rightarrow> if 0 < v \<and> v \<le> 100 then v else 50 | None \<Rightarrow> 50);
          offset = (case atoi (q ''offset'') of Some v \<Rightarrow> if 0 \<le> v then v else 0 | None \<Rightarrow> 0) in
      (limit, offset))"

lemma ParsePagination_bounds:
  "ParsePagination q = (limit, offset) \<Longrightarrow> 1 \<le> limit \<and> limit \<le> 100 \<and> 0 \<le> offset \<and> offset < 2 ^ 63"
  by (auto simp: ParsePagination_def Let_def atoi_def split: option.splits if_splits)

end
