(* ===== verification/Numeric.thy ===== *)
theory Numeric
  imports Shared
begin

text \<open>
  pkg/numeric: exact decimal arithmetic on \<open>pgtype.Numeric\<close> through \<open>math/big.Rat\<close>.
  A \<open>big.Rat\<close> is a rational. \<open>pgtype.Numeric\<close> is pgx's struct; its text parser
  (\<open>Numeric.Scan\<close>) belongs to pgx and is the parameter \<open>scan\<close> of the operations, of which the
  lemmas use the hypothesis \<open>scans_decimals\<close>: plain decimal text is read as its value.
\<close>

record pgnumeric =
  num_Int :: "int option"
  num_Exp :: "32 word"
  num_NaN :: bool
  num_Inf :: int
  num_Valid :: bool

definition numeric_zero_value :: pgnumeric where
  "numeric_zero_value = \<lparr>num_Int = None, num_Exp = 0, num_NaN = False, num_Inf = 0, num_Valid = False\<rparr>"

definition Scale :: nat where "Scale = 10"

subsection \<open>Conversion to and from rationals\<close>

text \<open>\<open>big.Int.Exp(10, y, nil)\<close> is 1 for \<open>y \<le> 0\<close>.\<close>

definition big_pow10 :: "int \<Rightarrow> int" where
  "big_pow10 y = (if y \<le> 0 then 1 else 10 ^ nat y)"

definition toRat :: "pgnumeric \<Rightarrow> rat" where
  "toRat n =
     (case num_Int n of None \<Rightarrow> 0
      | Some i \<Rightarrow>
         if \<not> num_Valid n then 0
         else if num_Exp n = 0 then of_int i
         else if 0 < sint (num_Exp n) then of_int i * of_int (big_pow10 (sint (num_Exp n)))
         else of_int i / of_int (big_pow10 (sint (- num_Exp n))))"

text \<open>
  \<open>big.Rat.FloatString\<close>: \<open>prec\<close> digits after the point, the last one rounded half away from
  zero; the sign is that of the rational even when the digits are all zero.
\<close>

definition float_string :: "rat \<Rightarrow> nat \<Rightarrow> string" where
  "float_string x prec =
     (let a = fst (quotient_of x); b = snd (quotient_of x);
          u = nat (div_half_away (\<bar>a\<bar> * 10 ^ prec) b) in
      (if a < 0 then ''-'' else []) @ utoa (u div 10 ^ prec) @
      (if prec = 0 then [] else ''.'' @ pad_digits prec (u mod 10 ^ prec)))"

definition num_Parse :: "(string \<Rightarrow> pgnumeric option) \<Rightarrow> string \<Rightarrow> gerr + pgnumeric" where
  "num_Parse scan s =
     (case scan s of
        None \<Rightarrow> Inl (Wrapped (''numeric.Parse('' @ go_quote s @ ''): '') (Opaque ''cannot scan'') [])
      | Some n \<Rightarrow>
         if \<not> num_Valid n then Inl (Opaque (''numeric.Parse('' @ go_quote s @ ''): not a valid number''))
         else Inr n)"

text \<open>The pattern \<open>n, _ := Parse(s)\<close>: the zero value on an error.\<close>

definition parse_or_zero :: "(string \<Rightarrow> pgnumeric option) \<Rightarrow> string \<Rightarrow> pgnumeric" where
  "parse_or_zero scan s = (case num_Parse scan s of Inl _ \<Rightarrow> numeric_zero_value | Inr n \<Rightarrow> n)"

definition num_Zero :: "(string \<Rightarrow> pgnumeric option) \<Rightarrow> pgnumeric" where
  "num_Zero scan = parse_or_zero scan ''0''"

definition num_String :: "pgnumeric \<Rightarrow> string" where
  "num_String n = (if \<not> num_Valid n then ''0'' else float_string (toRat n) Scale)"

definition fromRat :: "(string \<Rightarrow> pgnumeric option) \<Rightarrow> rat \<Rightarrow> pgnumeric" where
  "fromRat scan r = parse_or_zero scan (float_string r Scale)"

subsection \<open>Operations\<close>

definition num_Mul :: "(string \<Rightarrow> pgnumeric option) \<Rightarrow> pgnumeric \<Rightarrow> pgnumeric \<Rightarrow> pgnumeric" where
  "num_Mul scan a b = fromRat scan (toRat a * toRat b)"

definition num_Sub :: "(string \<Rightarrow> pgnumeric option) \<Rightarrow> pgnumeric \<Rightarrow> pgnumeric \<Rightarrow> pgnumeric" where
  "num_Sub scan a b = fromRat scan (toRat a - toRat b)"

definition num_Add :: "(string \<Rightarrow> pgnumeric option) \<Rightarrow> pgnumeric \<Rightarrow> pgnumeric \<Rightarrow> pgnumeric" where
  "num_Add scan a b = fromRat scan (toRat a + toRat b)"

definition num_Neg :: "(string \<Rightarrow> pgnumeric option) \<Rightarrow> pgnumeric \<Rightarrow> pgnumeric" where
  "num_Neg scan n = fromRat scan (- toRat n)"

definition num_Cmp :: "pgnumeric \<Rightarrow> pgnumeric \<Rightarrow> int" where
  "num_Cmp a b = (if toRat a < toRat b then -1 else if toRat a = toRat b then 0 else 1)"

definition num_CmpString :: "(string \<Rightarrow> pgnumeric option) \<Rightarrow> pgnumeric \<Rightarrow> string \<Rightarrow> gerr + int" where
  "num_CmpString scan a s =
     (case num_Parse scan s of Inl e \<Rightarrow> Inl e | Inr other \<Rightarrow> Inr (num_Cmp a other))"

subsection \<open>What the operations rely on: reading decimal text\<close>

definition decimal_text :: "bool \<Rightarrow> string \<Rightarrow> string \<Rightarrow> string" where
  "decimal_text neg ip fp =
     (if neg then ''-'' else []) @ ip @ (if fp = [] then [] else ''.'' @ fp)"

definition decimal_val :: "bool \<Rightarrow> string \<Rightarrow> string \<Rightarrow> rat" where
  "decimal_val neg ip fp =
     (if neg then -1 else 1) * (of_nat (atou (ip @ fp)) / 10 ^ length fp)"

text \<open>A plain number: valid, finite, with a coefficient.\<close>

definition plain_num :: "pgnumeric \<Rightarrow> bool" where
  "plain_num n \<longleftrightarrow> num_Valid n \<and> \<not> num_NaN n \<and> num_Inf n = 0 \<and> num_Int n \<noteq> None"

definition scans_decimals :: "(string \<Rightarrow> pgnumeric option) \<Rightarrow> bool" where
  "scans_decimals scan \<longleftrightarrow>
     (\<forall>neg ip fp. ip \<noteq> [] \<and> length fp \<le> 1000 \<and> list_all is_digit ip \<and> list_all is_digit fp \<longrightarrow>
        (\<exists>n. scan (decimal_text neg ip fp) = Some n \<and> plain_num n \<and> toRat n = decimal_val neg ip fp))"

lemma scans_decimalsE:
  assumes "scans_decimals scan" and "ip \<noteq> []" and "length fp \<le> 1000"
    and "list_all is_digit ip" and "list_all is_digit fp"
  obtains n where "scan (decimal_text neg ip fp) = Some n" and "plain_num n"
    and "toRat n = decimal_val neg ip fp"
  using assms unfolding scans_decimals_def by blast

subsection \<open>Decimal units\<close>

text \<open>The value in units of \<open>10^-10\<close>, rounded half away from zero: what ten decimals can hold.\<close>

definition dec_units :: "rat \<Rightarrow> int" where
  "dec_units r = div_half_away (fst (quotient_of r) * 10 ^ 10) (snd (quotient_of r))"

definition of_units :: "int \<Rightarrow> rat" where
  "of_units k = of_int k / 10 ^ 10"

lemma div_half_away_scale: "0 < c \<Longrightarrow> 0 < d \<Longrightarrow> div_half_away (c * n) (c * d) = div_half_away n d"
proof -
  assume c: "0 < c" and d: "0 < d"
  have "(2 * (c * m) + c * d) div (2 * (c * d)) = (2 * m + d) div (2 * d)" for m
  proof -
    have "(2 * (c * m) + c * d) div (2 * (c * d)) = (c * (2 * m + d)) div (c * (2 * d))"
      by (simp add: algebra_simps)
    then show ?thesis using c by simp
  qed
  from this [of n] this [of "- n"] show ?thesis
    using c by (simp add: div_half_away_def zero_le_mult_iff)
qed

lemma dec_units_frac:
  assumes "0 < b"
  shows "dec_units (of_int a / of_int b) = div_half_away (a * 10 ^ 10) b"
proof -
  obtain p q where pq: "quotient_of (of_int a / of_int b) = (p, q)" by force
  then have q: "0 < q" by (rule quotient_of_denom_pos)
  have "of_int a / of_int b = (of_int p / of_int q :: rat)"
    using quotient_of_div [OF pq] .
  then have "(of_int (a * q) :: rat) = of_int (p * b)"
    using assms q by (simp add: field_simps)
  then have eq: "a * q = p * b" by (simp only: of_int_eq_iff)
  have "div_half_away (a * 10 ^ 10) b = div_half_away (q * (a * 10 ^ 10)) (q * b)"
    using q assms by (simp only: div_half_away_scale)
  also have "q * (a * 10 ^ 10) = b * (p * 10 ^ 10)"
  proof -
    have "q * (a * 10 ^ 10) = (a * q) * 10 ^ 10" by simp
    then show ?thesis by (simp add: eq)
  qed
  also have "div_half_away (b * (p * 10 ^ 10)) (q * b) = div_half_away (b * (p * 10 ^ 10)) (b * q)"
    by (simp add: mult.commute)
  also have "\<dots> = div_half_away (p * 10 ^ 10) q"
    using q assms by (simp only: div_half_away_scale)
  finally show ?thesis using pq by (simp add: dec_units_def)
qed

lemma dec_units_of_units [simp]: "dec_units (of_units k) = k"
  using dec_units_frac [of "10 ^ 10" k] by (simp add: of_units_def)

lemma rat_frac_cases:
  obtains a b where "0 < b" and "r = (of_int a / of_int b :: rat)" and "quotient_of r = (a, b)"
proof -
  obtain p q where pq: "quotient_of r = (p, q)" by force
  show thesis using that [OF quotient_of_denom_pos [OF pq] quotient_of_div [OF pq] pq] .
qed

lemma dec_units_minus: "dec_units (- r) = - dec_units r"
proof -
  obtain a b where ab: "0 < b" "r = of_int a / of_int b" by (rule rat_frac_cases)
  have "- r = of_int (- a) / of_int b" using ab by simp
  then show ?thesis
    using ab dec_units_frac [of b "- a"] dec_units_frac [of b a] div_half_away_minus [of b "a * 10 ^ 10"]
    by simp
qed

lemma dec_units_mono: "r \<le> s \<Longrightarrow> dec_units r \<le> dec_units s"
proof -
  assume le: "r \<le> s"
  obtain a b where ab: "0 < b" "r = of_int a / of_int b" by (rule rat_frac_cases)
  obtain c d where cd: "0 < d" "s = of_int c / of_int d" by (rule rat_frac_cases)
  have "(of_int (a * d) :: rat) \<le> of_int (c * b)"
    using le ab cd by (simp add: field_simps)
  then have "a * d \<le> c * b" by (simp only: of_int_le_iff)
  then have "div_half_away (d * (a * 10 ^ 10)) (d * b) \<le> div_half_away (b * (c * 10 ^ 10)) (d * b)"
    using ab cd by (intro div_half_away_mono) (auto simp: algebra_simps)
  moreover have "div_half_away (b * (c * 10 ^ 10)) (d * b) = div_half_away (c * 10 ^ 10) d"
    using div_half_away_scale [of b d "c * 10 ^ 10"] ab cd by (simp add: mult.commute)
  moreover have "div_half_away (d * (a * 10 ^ 10)) (d * b) = div_half_away (a * 10 ^ 10) b"
    using div_half_away_scale [of d b "a * 10 ^ 10"] ab cd by simp
  ultimately show ?thesis using dec_units_frac [OF ab(1)] dec_units_frac [OF cd(1)] ab cd by simp
qed

lemma of_units_add [simp]: "of_units a + of_units b = of_units (a + b)"
  by (simp add: of_units_def add_divide_distrib)

lemma of_units_minus [simp]: "- of_units a = of_units (- a)"
  by (simp add: of_units_def)

lemma of_units_diff [simp]: "of_units a - of_units b = of_units (a - b)"
  by (simp add: of_units_def diff_divide_distrib)

lemma of_units_less [simp]: "of_units a < of_units b \<longleftrightarrow> a < b"
  by (simp add: of_units_def divide_less_cancel)

lemma of_units_eq [simp]: "of_units a = of_units b \<longleftrightarrow> a = b"
  by (simp add: of_units_def)

lemma of_units_0 [simp]: "of_units 0 = 0"
  by (simp add: of_units_def)

lemma dec_units_0 [simp]: "dec_units 0 = 0"
  using dec_units_of_units [of 0] by simp

lemma dec_units_nonneg: "0 \<le> r \<Longrightarrow> 0 \<le> dec_units r"
  using dec_units_mono [of 0 r] by simp

subsection \<open>Text and value\<close>

lemma float_string_text:
  "float_string r 10 =
     decimal_text (r < 0) (utoa (nat \<bar>dec_units r\<bar> div 10 ^ 10)) (pad_digits 10 (nat \<bar>dec_units r\<bar> mod 10 ^ 10))"
proof -
  obtain a b where ab: "0 < b" "r = of_int a / of_int b" "quotient_of r = (a, b)"
    by (rule rat_frac_cases)
  have neg: "r < 0 \<longleftrightarrow> a < 0" using ab by (simp add: divide_less_0_iff)
  have u: "div_half_away (\<bar>a\<bar> * 10 ^ 10) b = \<bar>dec_units r\<bar>"
  proof (cases "a < 0")
    case True
    then have "div_half_away (\<bar>a\<bar> * 10 ^ 10) b = - div_half_away (a * 10 ^ 10) b"
      using ab div_half_away_minus [of b "a * 10 ^ 10"] by simp
    moreover have "0 \<le> div_half_away (\<bar>a\<bar> * 10 ^ 10) b" using ab by (simp add: div_half_away_nonneg)
    ultimately show ?thesis using ab by (simp add: dec_units_def)
  next
    case False
    then show ?thesis using ab div_half_away_nonneg [of b "a * 10 ^ 10"] by (simp add: dec_units_def)
  qed
  have "pad_digits 10 n \<noteq> []" for n by (metis length_pad_digits list.size(3) zero_neq_numeral)
  then show ?thesis
    unfolding float_string_def Let_def ab(3) fst_conv snd_conv u
    by (simp add: decimal_text_def neg)
qed

lemma decimal_val_units:
  "decimal_val (r < 0) (utoa (nat \<bar>dec_units r\<bar> div 10 ^ 10)) (pad_digits 10 (nat \<bar>dec_units r\<bar> mod 10 ^ 10))
   = of_units (dec_units r)"
proof -
  let ?u = "nat \<bar>dec_units r\<bar>"
  have "atou (utoa (?u div 10 ^ 10) @ pad_digits 10 (?u mod 10 ^ 10)) = ?u"
    by (simp add: atou_append atou_pad_digits)
  then have "decimal_val (r < 0) (utoa (?u div 10 ^ 10)) (pad_digits 10 (?u mod 10 ^ 10))
      = (if r < 0 then -1 else 1) * of_units \<bar>dec_units r\<bar>"
    by (simp add: decimal_val_def of_units_def)
  moreover have "r < 0 \<Longrightarrow> dec_units r \<le> 0" using dec_units_mono [of r 0] by simp
  moreover have "\<not> r < 0 \<Longrightarrow> 0 \<le> dec_units r" by (simp add: dec_units_nonneg)
  ultimately show ?thesis by auto
qed

lemma scan_float_string:
  assumes "scans_decimals scan"
  obtains n where "scan (float_string r 10) = Some n" and "plain_num n"
    and "toRat n = of_units (dec_units r)"
proof -
  let ?u = "nat \<bar>dec_units r\<bar>"
  have "list_all is_digit (utoa (?u div 10 ^ 10))" "list_all is_digit (pad_digits 10 (?u mod 10 ^ 10))"
    using utoa_digits pad_digits_digits by (auto simp: list_all_iff)
  then obtain n where "scan (float_string r 10) = Some n" "plain_num n"
      "toRat n = decimal_val (r < 0) (utoa (?u div 10 ^ 10)) (pad_digits 10 (?u mod 10 ^ 10))"
    using scans_decimalsE [OF assms, of "utoa (?u div 10 ^ 10)" "pad_digits 10 (?u mod 10 ^ 10)" "r < 0"]
    by (auto simp: float_string_text)
  then show thesis using that decimal_val_units by simp
qed

lemma plain_num_Valid: "plain_num n \<Longrightarrow> num_Valid n"
  by (simp add: plain_num_def)

text \<open>The result of an operation is the exact result rounded to ten decimals, a plain number.\<close>

lemma fromRat_value:
  assumes "scans_decimals scan"
  shows "toRat (fromRat scan r) = of_units (dec_units r)" and "plain_num (fromRat scan r)"
proof -
  obtain n where "scan (float_string r 10) = Some n" "plain_num n" "toRat n = of_units (dec_units r)"
    using assms by (rule scan_float_string)
  then show "toRat (fromRat scan r) = of_units (dec_units r)" "plain_num (fromRat scan r)"
    by (simp_all add: fromRat_def parse_or_zero_def num_Parse_def Scale_def plain_num_Valid)
qed

lemma num_op_values:
  assumes "scans_decimals scan"
  shows num_Mul_value: "toRat (num_Mul scan a b) = of_units (dec_units (toRat a * toRat b))"
    and num_Add_value: "toRat (num_Add scan a b) = of_units (dec_units (toRat a + toRat b))"
    and num_Sub_value: "toRat (num_Sub scan a b) = of_units (dec_units (toRat a - toRat b))"
    and num_Neg_value: "toRat (num_Neg scan a) = of_units (- dec_units (toRat a))"
  using assms
  by (simp_all add: num_Mul_def num_Add_def num_Sub_def num_Neg_def fromRat_value dec_units_minus)

lemma num_op_plain:
  assumes "scans_decimals scan"
  shows "plain_num (num_Mul scan a b)" and "plain_num (num_Add scan a b)"
    and "plain_num (num_Sub scan a b)" and "plain_num (num_Neg scan a)"
  using assms by (simp_all add: num_Mul_def num_Add_def num_Sub_def num_Neg_def fromRat_value)

lemma scan_int_text:
  assumes "scans_decimals scan"
  obtains n where "scan (utoa k) = Some n" and "plain_num n" and "toRat n = of_nat k"
proof -
  have "list_all is_digit (utoa k)" using utoa_digits by (auto simp: list_all_iff)
  then show thesis
    using scans_decimalsE [OF assms, of "utoa k" "[]" False] that
    by (auto simp: decimal_text_def decimal_val_def)
qed

lemma utoa_0: "utoa 0 = ''0''"
  by code_simp

lemma num_Zero_value:
  assumes "scans_decimals scan"
  shows "toRat (num_Zero scan) = 0" and "plain_num (num_Zero scan)"
proof -
  obtain n where "scan ''0'' = Some n" "plain_num n" "toRat n = 0"
    using scan_int_text [OF assms, of 0] by (auto simp: utoa_0)
  then show "toRat (num_Zero scan) = 0" "plain_num (num_Zero scan)"
    by (simp_all add: num_Zero_def parse_or_zero_def num_Parse_def plain_num_Valid)
qed

lemma num_Parse_String:
  assumes "scans_decimals scan" and "num_Valid n"
  shows "\<exists>m. num_Parse scan (num_String n) = Inr m \<and> toRat m = of_units (dec_units (toRat n)) \<and> plain_num m"
proof -
  obtain m where "scan (float_string (toRat n) 10) = Some m" "plain_num m"
      "toRat m = of_units (dec_units (toRat n))"
    using assms(1) by (rule scan_float_string)
  then show ?thesis
    using assms(2) by (simp add: num_Parse_def num_String_def Scale_def plain_num_Valid)
qed

lemma num_Cmp_simps:
  "num_Cmp a b = 0 \<longleftrightarrow> toRat a = toRat b"
  "0 < num_Cmp a b \<longleftrightarrow> toRat b < toRat a"
  "num_Cmp a b \<le> 0 \<longleftrightarrow> toRat a \<le> toRat b"
  "0 \<le> num_Cmp a b \<longleftrightarrow> toRat b \<le> toRat a"
  by (auto simp: num_Cmp_def)

subsection \<open>A concrete reader\<close>

text \<open>
  A parser of plain decimal text that meets \<open>scans_decimals\<close>. It is not the code's parser (that is
  pgx's): the theorems' witnesses instantiate the parameter with it.
\<close>

definition split_point :: "string \<Rightarrow> string \<times> string" where
  "split_point s = (takeWhile (\<lambda>c. c \<noteq> CHR ''.'') s, drop 1 (dropWhile (\<lambda>c. c \<noteq> CHR ''.'') s))"

definition ref_scan :: "string \<Rightarrow> pgnumeric option" where
  "ref_scan s =
     (let neg = (s \<noteq> [] \<and> hd s = CHR ''-''); body = (if neg then tl s else s);
          (ip, fp) = split_point body; v = int (atou (ip @ fp)) in
      if ip \<noteq> [] \<and> list_all is_digit ip \<and> list_all is_digit fp
      then Some \<lparr>num_Int = Some (if neg then - v else v), num_Exp = - of_nat (length fp),
                 num_NaN = False, num_Inf = 0, num_Valid = True\<rparr>
      else None)"

lemma not_digit [simp]: "\<not> is_digit CHR ''.''" "\<not> is_digit CHR ''-''"
  by (simp_all add: is_digit_def)

lemma split_point_decimal:
  assumes "list_all is_digit ip" and "list_all is_digit fp"
  shows "split_point (ip @ (if fp = [] then [] else ''.'' @ fp)) = (ip, fp)"
proof -
  have "\<forall>c \<in> set ip. c \<noteq> CHR ''.''" using assms(1) by (auto simp: list_all_iff)
  then show ?thesis by (simp add: split_point_def takeWhile_append2 dropWhile_append2)
qed

lemma sint_small: "n \<le> 1000 \<Longrightarrow> sint (of_nat n :: 32 word) = int n"
  by (simp add: signed_of_nat signed_take_bit_int_eq_self)

lemma toRat_neg_exp:
  assumes "n \<le> 1000"
  shows "toRat \<lparr>num_Int = Some i, num_Exp = - of_nat n, num_NaN = False, num_Inf = 0, num_Valid = True\<rparr>
    = of_int i / 10 ^ n"
proof (cases "n = 0")
  case True
  then show ?thesis by (simp add: toRat_def)
next
  case False
  have pos: "sint (- (- of_nat n) :: 32 word) = int n" using assms by (simp add: sint_small)
  have "sint (- of_nat n :: 32 word) = - int n"
  proof -
    have "(- of_nat n :: 32 word) = of_int (- int n)" by simp
    moreover have "sint (word_of_int (- int n) :: 32 word) = - int n"
      unfolding int_word_sint using assms by simp
    ultimately show ?thesis by metis
  qed
  moreover from this have "(- of_nat n :: 32 word) \<noteq> 0" using False by (metis neg_equal_0_iff_equal of_nat_eq_0_iff signed_0)
  ultimately show ?thesis using pos False by (simp add: toRat_def big_pow10_def)
qed

lemma scans_decimals_ref_scan: "scans_decimals ref_scan"
  unfolding scans_decimals_def
proof (intro allI impI)
  fix neg ip fp
  assume a: "ip \<noteq> [] \<and> length fp \<le> 1000 \<and> list_all is_digit ip \<and> list_all is_digit fp"
  have hd: "hd ip \<noteq> CHR ''-''" using a by (cases ip) auto
  let ?n = "\<lparr>num_Int = Some (if neg then - int (atou (ip @ fp)) else int (atou (ip @ fp))),
    num_Exp = - of_nat (length fp), num_NaN = False, num_Inf = 0, num_Valid = True\<rparr>"
  have "ref_scan (decimal_text neg ip fp) = Some ?n"
    using a hd split_point_decimal [of ip fp]
    by (auto simp: ref_scan_def decimal_text_def Let_def)
  moreover have "plain_num ?n" by (simp add: plain_num_def)
  moreover have "toRat ?n = decimal_val neg ip fp"
    using a by (simp add: toRat_neg_exp decimal_val_def)
  ultimately show "\<exists>n. ref_scan (decimal_text neg ip fp) = Some n \<and> plain_num n \<and> toRat n = decimal_val neg ip fp"
    by blast
qed

end
