(* ===== verification/Domain.thy ===== *)
theory Domain
  imports Numeric
begin

text \<open>
  The data of the services: the structs of the domain.go files and, with the column types of the
  migrations, the rows of the tables. A struct with \<open>pgtype.Numeric\<close> fields and its row differ only in
  those fields, so both are one record type over the type \<open>'n\<close> of the numbers: \<open>pgnumeric\<close> in Go,
  \<open>sqlnum\<close> in a \<open>NUMERIC(30,10)\<close> column. A \<open>*time.Time\<close> that the code always sets is a time.
\<close>

subsection \<open>Numbers in SQL\<close>

text \<open>A value of a \<open>NUMERIC(30,10)\<close> column: NaN, or a multiple of \<open>10^-10\<close>.\<close>

datatype sqlnum = QNaN | QNum int

text \<open>A numeric parameter of a statement; a numeric that is not valid is sent as NULL.\<close>

datatype sqlparam = PNaN | PInf | PRat rat

definition num_param :: "pgnumeric \<Rightarrow> sqlparam option" where
  "num_param n =
     (if \<not> num_Valid n then None
      else if num_NaN n then Some PNaN
      else if num_Inf n \<noteq> 0 then Some PInf
      else Some (PRat (toRat n)))"

text \<open>Errors of a statement: a unique violation (SQLSTATE 23505), no row for a single-row read, any other.\<close>

datatype db_error = DbUnique | DbNoRows | DbFail string

fun db_gerr :: "db_error \<Rightarrow> gerr" where
  "db_gerr DbUnique = Opaque ''duplicate key value violates unique constraint''"
| "db_gerr DbNoRows = Opaque ''no rows in result set''"
| "db_gerr (DbFail t) = Opaque t"

text \<open>
  Storing into a \<open>NUMERIC(30,10) NOT NULL\<close> column: rounded to ten decimals, half away from zero, at
  most twenty digits before the point, no infinity.
\<close>

fun numeric_30_10 :: "sqlparam option \<Rightarrow> db_error + sqlnum" where
  "numeric_30_10 None = Inl (DbFail ''null value violates not-null constraint'')"
| "numeric_30_10 (Some PNaN) = Inr QNaN"
| "numeric_30_10 (Some PInf) = Inl (DbFail ''numeric field overflow'')"
| "numeric_30_10 (Some (PRat r)) =
     (let k = dec_units r in
      if \<bar>k\<bar> < 10 ^ 30 then Inr (QNum k) else Inl (DbFail ''numeric field overflow''))"

fun sql_plus :: "sqlnum \<Rightarrow> sqlparam option \<Rightarrow> sqlparam option" where
  "sql_plus _ None = None"
| "sql_plus QNaN (Some _) = Some PNaN"
| "sql_plus (QNum k) (Some PNaN) = Some PNaN"
| "sql_plus (QNum k) (Some PInf) = Some PInf"
| "sql_plus (QNum k) (Some (PRat r)) = Some (PRat (of_units k + r))"

fun sql_add :: "sqlnum \<Rightarrow> sqlnum \<Rightarrow> sqlnum" where
  "sql_add (QNum a) (QNum b) = QNum (a + b)"
| "sql_add _ _ = QNaN"

definition sql_sum :: "sqlnum list \<Rightarrow> sqlnum" where
  "sql_sum xs = foldr sql_add xs (QNum 0)"

definition varchar :: "nat \<Rightarrow> string \<Rightarrow> bool" where
  "varchar n s \<longleftrightarrow> length s \<le> n"

subsection \<open>ledger/domain.go\<close>

definition EntryTypeReserve :: string where "EntryTypeReserve = ''RESERVE''"
definition EntryTypeRelease :: string where "EntryTypeRelease = ''RELEASE''"
definition EntryTypeTrade :: string where "EntryTypeTrade = ''TRADE''"
definition EntryTypeDeposit :: string where "EntryTypeDeposit = ''DEPOSIT''"
definition EntryTypeWithdraw :: string where "EntryTypeWithdraw = ''WITHDRAW''"
definition RefTypeOrder :: string where "RefTypeOrder = ''ORDER''"
definition RefTypeTrade :: string where "RefTypeTrade = ''TRADE''"
definition RefTypeDeposit :: string where "RefTypeDeposit = ''DEPOSIT''"
definition RefTypeWithdraw :: string where "RefTypeWithdraw = ''WITHDRAW''"

record 'n ledger_entry =
  le_ID :: uuid
  le_UserID :: uuid
  le_AccountID :: uuid
  le_Asset :: string
  le_Amount :: 'n
  le_EntryType :: string
  le_RefType :: string
  le_RefID :: uuid
  le_CreatedAt :: gotime

subsection \<open>order/domain.go\<close>

definition StatusOpen :: string where "StatusOpen = ''OPEN''"
definition StatusPartial :: string where "StatusPartial = ''PARTIAL''"
definition StatusFilled :: string where "StatusFilled = ''FILLED''"
definition StatusCancelled :: string where "StatusCancelled = ''CANCELLED''"

record 'n order_rec =
  o_ID :: uuid
  o_UserID :: uuid
  o_Symbol :: string
  o_Side :: string
  o_Price :: 'n
  o_Quantity :: 'n
  o_FilledQuantity :: 'n
  o_Status :: string
  o_CreatedAt :: gotime
  o_UpdatedAt :: gotime

subsection \<open>trade/domain.go\<close>

record 'n trade_rec =
  t_ID :: uuid
  t_Symbol :: string
  t_BuyOrderID :: uuid
  t_SellOrderID :: uuid
  t_BuyUserID :: uuid
  t_SellUserID :: uuid
  t_Price :: 'n
  t_Quantity :: 'n
  t_CreatedAt :: gotime

record 'n user_trade =
  ut_ID :: uuid
  ut_Symbol :: string
  ut_Side :: string
  ut_Price :: 'n
  ut_Quantity :: 'n
  ut_CounterpartyUserID :: uuid
  ut_CreatedAt :: gotime

subsection \<open>account/domain.go, idempotency/domain.go\<close>

record account_rec =
  a_ID :: uuid
  a_UserID :: uuid
  a_Asset :: string
  a_CreatedAt :: gotime

definition ScopeOrder :: string where "ScopeOrder = ''ORDER''"
definition ScopeTrade :: string where "ScopeTrade = ''TRADE''"
definition ScopeWithdraw :: string where "ScopeWithdraw = ''WITHDRAW''"

record idem_key =
  ik_ID :: uuid
  ik_Key :: string
  ik_Scope :: string
  ik_CreatedAt :: gotime

subsection \<open>outbox/domain.go\<close>

definition StatusPending :: string where "StatusPending = ''PENDING''"
definition StatusProcessed :: string where "StatusProcessed = ''PROCESSED''"
definition EventTypeOrderPlaced :: string where "EventTypeOrderPlaced = ''ORDER_PLACED''"
definition OutboxOrderCancelled :: string where "OutboxOrderCancelled = ''ORDER_CANCELLED''"
definition EventTypeTradeExecuted :: string where "EventTypeTradeExecuted = ''TRADE_EXECUTED''"

record outbox_event =
  ev_ID :: uuid
  ev_EventType :: string
  ev_Payload :: json
  ev_Status :: string
  ev_Retries :: int
  ev_ProcessedAt :: "gotime option"
  ev_CreatedAt :: gotime

subsection \<open>user/domain.go\<close>

definition RoleUser :: string where "RoleUser = ''USER''"
definition RoleAdmin :: string where "RoleAdmin = ''ADMIN''"
definition RoleSystem :: string where "RoleSystem = ''SYSTEM''"

text \<open>\<open>MarketUserID\<close>, the UUID 00000000-0000-0000-0000-000000000001.\<close>

definition MarketUserID :: uuid where "MarketUserID = 1"

record user_rec =
  u_ID :: uuid
  u_Email :: string
  u_Username :: string
  u_FullName :: string
  u_PasswordHash :: string
  u_Status :: string
  u_Role :: string
  u_DeletedAt :: "gotime option"
  u_CreatedAt :: gotime
  u_UpdatedAt :: gotime

subsection \<open>asset/domain.go\<close>

text \<open>The Go struct has the numbers as text (\<open>::text\<close> in the queries), NULL text as the empty string.\<close>

record 'n asset_rec =
  as_Symbol :: string
  as_Name :: string
  as_Decimals :: int
  as_MinDeposit :: 'n
  as_MinWithdrawal :: 'n
  as_Enabled :: bool
  as_CreatedAt :: gotime

record 'n network_rec =
  n_ID :: uuid
  n_AssetSymbol :: string
  n_Name :: string
  n_ChainID :: string
  n_AddressPattern :: string
  n_WithdrawalFee :: 'n
  n_MinConfirmations :: int
  n_Enabled :: bool
  n_CreatedAt :: gotime

subsection \<open>wallet/domain.go, deposit/domain.go, withdrawal/domain.go\<close>

record wallet_address =
  wa_ID :: uuid
  wa_UserID :: uuid
  wa_Asset :: string
  wa_NetworkID :: uuid
  wa_Address :: string
  wa_CreatedAt :: gotime

definition DepositPending :: string where "DepositPending = ''PENDING''"
definition DepositConfirmed :: string where "DepositConfirmed = ''CONFIRMED''"
definition DepositRejected :: string where "DepositRejected = ''REJECTED''"

record 'n deposit_rec =
  d_ID :: uuid
  d_UserID :: uuid
  d_Asset :: string
  d_NetworkID :: uuid
  d_Address :: string
  d_Amount :: 'n
  d_TxHash :: string
  d_Status :: string
  d_CreatedAt :: gotime
  d_ConfirmedAt :: "gotime option"

definition StatusCompleted :: string where "StatusCompleted = ''COMPLETED''"

record 'n withdrawal_rec =
  wd_ID :: uuid
  wd_UserID :: uuid
  wd_AccountID :: uuid
  wd_Asset :: string
  wd_NetworkID :: uuid
  wd_DestinationAddress :: string
  wd_Amount :: 'n
  wd_Status :: string
  wd_IdempotencyKey :: string
  wd_CreatedAt :: gotime

subsection \<open>Facts\<close>

lemma sql_sum_simps [simp]: "sql_sum [] = QNum 0" "sql_sum (x # xs) = sql_add x (sql_sum xs)"
  by (simp_all add: sql_sum_def)

lemma sql_add_assoc: "sql_add (sql_add a b) c = sql_add a (sql_add b c)"
  by (cases a; cases b; cases c) simp_all

lemma sql_add_0 [simp]: "sql_add (QNum 0) a = a" "sql_add a (QNum 0) = a"
  by (cases a; simp)+

lemma sql_add_comm: "sql_add a b = sql_add b a"
  by (cases a; cases b) simp_all

lemma sql_sum_append [simp]: "sql_sum (xs @ ys) = sql_add (sql_sum xs) (sql_sum ys)"
  by (induction xs) (simp_all add: sql_add_assoc)

end
