(* ===== verification/Book.thy ===== *)
theory Book
  imports Float64
begin

text \<open>
  internal/engine/book.go: the price-time priority order book. Prices and quantities are float64.
  A book side is a list of price levels, best first; a level is the FIFO list of its orders. The Go
  code mutates orders through pointers; here an operation returns the new order and the new book.
  \<open>time.Now()\<close> is the parameter \<open>now\<close>: \<open>now n\<close> is the timestamp of the n-th trade of a match.
\<close>

subsection \<open>Data\<close>

definition SideBuy :: string where "SideBuy = ''BUY''"
definition SideSell :: string where "SideSell = ''SELL''"

record eorder =
  eo_ID :: string
  eo_UserID :: string
  eo_Symbol :: string
  eo_Side :: string
  eo_Price :: f64
  eo_Quantity :: f64
  eo_Remaining :: f64
  eo_Timestamp :: gotime

record etrade =
  et_BuyOrderID :: string
  et_SellOrderID :: string
  et_BuyUserID :: string
  et_SellUserID :: string
  et_Symbol :: string
  et_Price :: f64
  et_Quantity :: f64
  et_Timestamp :: gotime

record price_level =
  pl_Price :: f64
  pl_Orders :: "eorder list"

definition pl_Add :: "price_level \<Rightarrow> eorder \<Rightarrow> price_level" where
  "pl_Add pl o1 = pl\<lparr>pl_Orders := pl_Orders pl @ [o1]\<rparr>"

record order_book =
  ob_Symbol :: string
  ob_Bids :: "price_level list"
  ob_Asks :: "price_level list"

definition NewOrderBook :: "string \<Rightarrow> order_book" where
  "NewOrderBook symbol = \<lparr>ob_Symbol = symbol, ob_Bids = [], ob_Asks = []\<rparr>"

definition new_level :: "eorder \<Rightarrow> price_level" where
  "new_level o1 = \<lparr>pl_Price = eo_Price o1, pl_Orders = [o1]\<rparr>"

subsection \<open>Resting an order\<close>

fun bid_levels :: "eorder \<Rightarrow> price_level list \<Rightarrow> price_level list" where
  "bid_levels o1 [] = [new_level o1]"
| "bid_levels o1 (l # ls) =
     (if feq (pl_Price l) (eo_Price o1) then pl_Add l o1 # ls
      else if flt (pl_Price l) (eo_Price o1) then new_level o1 # l # ls
      else l # bid_levels o1 ls)"

fun ask_levels :: "eorder \<Rightarrow> price_level list \<Rightarrow> price_level list" where
  "ask_levels o1 [] = [new_level o1]"
| "ask_levels o1 (l # ls) =
     (if feq (pl_Price l) (eo_Price o1) then pl_Add l o1 # ls
      else if flt (eo_Price o1) (pl_Price l) then new_level o1 # l # ls
      else l # ask_levels o1 ls)"

definition addBid :: "order_book \<Rightarrow> eorder \<Rightarrow> order_book" where
  "addBid ob o1 = ob\<lparr>ob_Bids := bid_levels o1 (ob_Bids ob)\<rparr>"

definition addAsk :: "order_book \<Rightarrow> eorder \<Rightarrow> order_book" where
  "addAsk ob o1 = ob\<lparr>ob_Asks := ask_levels o1 (ob_Asks ob)\<rparr>"

subsection \<open>Matching\<close>

definition fmin :: "f64 \<Rightarrow> f64 \<Rightarrow> f64" where
  "fmin a b = (if flt a b then a else b)"

abbreviation positive :: "f64 \<Rightarrow> bool" where "positive x \<equiv> flt f64_zero x"

definition mk_trade :: "string \<Rightarrow> eorder \<Rightarrow> eorder \<Rightarrow> f64 \<Rightarrow> f64 \<Rightarrow> gotime \<Rightarrow> etrade" where
  "mk_trade sy buy sell price qty t =
     \<lparr>et_BuyOrderID = eo_ID buy, et_SellOrderID = eo_ID sell,
      et_BuyUserID = eo_UserID buy, et_SellUserID = eo_UserID sell,
      et_Symbol = sy, et_Price = price, et_Quantity = qty, et_Timestamp = t\<rparr>"

definition take_qty :: "eorder \<Rightarrow> f64 \<Rightarrow> eorder" where
  "take_qty o1 q = o1\<lparr>eo_Remaining := fsub (eo_Remaining o1) q\<rparr>"

text \<open>
  Every iteration of the inner loop empties the resting order (and pops it) or uses up the incoming
  one; only a resting \<open>-Inf\<close> takes one extra iteration. This is why the loops end, whatever the
  floats are.
\<close>

lemma fill_progress:
  assumes "positive b" and "s \<noteq> FInf False" and "\<not> feq (fsub s (fmin b s)) f64_zero"
  shows "\<not> positive (fsub b (fmin b s))"
  using assms by (cases b; cases s) (auto simp: fmin_def split: if_splits)

lemma fsub_neg_inf: "s = FInf False \<Longrightarrow> positive b \<Longrightarrow> fsub s (fmin b s) = FNaN"
  by (cases b) (auto simp: fmin_def)

definition fill_measure :: "eorder \<Rightarrow> eorder list \<Rightarrow> nat" where
  "fill_measure o1 rs = 3 * length rs + (if positive (eo_Remaining o1) then 1 else 0)
     + (case rs of [] \<Rightarrow> 0 | r # _ \<Rightarrow> if eo_Remaining r = FInf False then 1 else 0)"

lemma fill_measure_pop: "fill_measure o2 rs < fill_measure o1 (r # rs)"
  by (auto simp: fill_measure_def split: list.splits)

lemma fill_measure_stay:
  assumes "positive (eo_Remaining o1)" and "q = fmin (eo_Remaining o1) (eo_Remaining r)"
    and "\<not> feq (eo_Remaining (take_qty r q)) f64_zero"
  shows "fill_measure (take_qty o1 q) (take_qty r q # rs) < fill_measure o1 (r # rs)"
proof (cases "eo_Remaining r = FInf False")
  case True
  then show ?thesis
    using assms fsub_neg_inf [OF True assms(1)] by (simp add: fill_measure_def take_qty_def)
next
  case False
  have "eo_Remaining (take_qty r q) \<noteq> FInf False"
    using assms False
    by (cases "eo_Remaining o1"; cases "eo_Remaining r")
      (auto simp: take_qty_def fmin_def mk_f64_def Let_def split: if_splits)
  moreover have "\<not> positive (eo_Remaining (take_qty o1 q))"
    using fill_progress [OF assms(1) False] assms by (simp add: take_qty_def)
  ultimately show ?thesis using assms False by (simp add: fill_measure_def)
qed

text \<open>The inner loop of \<open>matchBuy\<close>: the incoming buy against the orders of the best ask level.\<close>

function fill_buy ::
  "string \<Rightarrow> (nat \<Rightarrow> gotime) \<Rightarrow> f64 \<Rightarrow> nat \<Rightarrow> eorder \<Rightarrow> eorder list \<Rightarrow> eorder \<times> eorder list \<times> etrade list" where
  "fill_buy sy now price n buy [] = (buy, [], [])"
| "fill_buy sy now price n buy (sell # rest) =
     (if positive (eo_Remaining buy) then
        (let tradeQty = fmin (eo_Remaining buy) (eo_Remaining sell);
             t = mk_trade sy buy sell price tradeQty (now n);
             buy' = take_qty buy tradeQty;
             sell' = take_qty sell tradeQty;
             (b, os, ts) = (if feq (eo_Remaining sell') f64_zero
                            then fill_buy sy now price (Suc n) buy' rest
                            else fill_buy sy now price (Suc n) buy' (sell' # rest))
         in (b, os, t # ts))
      else (buy, sell # rest, []))"
  by pat_completeness auto
termination
  by (relation "measure (\<lambda>(sy, now, price, n, o1, rs). fill_measure o1 rs)")
    (auto simp: fill_measure_pop fill_measure_stay)

text \<open>The inner loop of \<open>matchSell\<close>.\<close>

function fill_sell ::
  "string \<Rightarrow> (nat \<Rightarrow> gotime) \<Rightarrow> f64 \<Rightarrow> nat \<Rightarrow> eorder \<Rightarrow> eorder list \<Rightarrow> eorder \<times> eorder list \<times> etrade list" where
  "fill_sell sy now price n sell [] = (sell, [], [])"
| "fill_sell sy now price n sell (buy # rest) =
     (if positive (eo_Remaining sell) then
        (let tradeQty = fmin (eo_Remaining sell) (eo_Remaining buy);
             t = mk_trade sy buy sell price tradeQty (now n);
             sell' = take_qty sell tradeQty;
             buy' = take_qty buy tradeQty;
             (s, os, ts) = (if feq (eo_Remaining buy') f64_zero
                            then fill_sell sy now price (Suc n) sell' rest
                            else fill_sell sy now price (Suc n) sell' (buy' # rest))
         in (s, os, t # ts))
      else (sell, buy # rest, []))"
  by pat_completeness auto
termination
  by (relation "measure (\<lambda>(sy, now, price, n, o1, rs). fill_measure o1 rs)")
    (auto simp: fill_measure_pop fill_measure_stay)

declare fill_buy.simps(2) [simp del] fill_sell.simps(2) [simp del]

lemma fill_buy_exit:
  "fill_buy sy now price n buy rs = (b, os, ts) \<Longrightarrow> os = [] \<or> \<not> positive (eo_Remaining b)"
proof (induction sy now price n buy rs arbitrary: b os ts rule: fill_buy.induct)
  case (1 sy now price n buy)
  then show ?case by simp
next
  case (2 sy now price n buy sell rest)
  show ?case
    using 2(3) 2(1) [OF _ refl refl refl refl] 2(2) [OF _ refl refl refl refl]
    unfolding fill_buy.simps(2) [of sy now price n buy sell rest] Let_def
    by (fastforce split: if_splits prod.splits)
qed

lemma fill_sell_exit:
  "fill_sell sy now price n sell rs = (s, os, ts) \<Longrightarrow> os = [] \<or> \<not> positive (eo_Remaining s)"
proof (induction sy now price n sell rs arbitrary: s os ts rule: fill_sell.induct)
  case (1 sy now price n sell)
  then show ?case by simp
next
  case (2 sy now price n sell buy rest)
  show ?case
    using 2(3) 2(1) [OF _ refl refl refl refl] 2(2) [OF _ refl refl refl refl]
    unfolding fill_sell.simps(2) [of sy now price n sell buy rest] Let_def
    by (fastforce split: if_splits prod.splits)
qed

text \<open>The outer loop of \<open>matchBuy\<close> over the ask levels; the third result is the trades.\<close>

function match_asks ::
  "string \<Rightarrow> (nat \<Rightarrow> gotime) \<Rightarrow> nat \<Rightarrow> eorder \<Rightarrow> price_level list \<Rightarrow> eorder \<times> price_level list \<times> etrade list" where
  "match_asks sy now n buy [] = (buy, [], [])"
| "match_asks sy now n buy (bestAsk # rest) =
     (if \<not> positive (eo_Remaining buy) then (buy, bestAsk # rest, [])
      else if flt (eo_Price buy) (pl_Price bestAsk) then (buy, bestAsk # rest, [])
      else
        (let (buy', os, ts) = fill_buy sy now (pl_Price bestAsk) n buy (pl_Orders bestAsk);
             (b, asks, ts') =
               (if os = [] then match_asks sy now (n + length ts) buy' rest
                else match_asks sy now (n + length ts) buy' (bestAsk\<lparr>pl_Orders := os\<rparr> # rest))
         in (b, asks, ts @ ts')))"
  by pat_completeness auto
termination
  by (relation "measure (\<lambda>(sy, now, n, buy, asks). 2 * length asks + (if positive (eo_Remaining buy) then 1 else 0))")
    (auto dest!: fill_buy_exit [OF sym])

function match_bids ::
  "string \<Rightarrow> (nat \<Rightarrow> gotime) \<Rightarrow> nat \<Rightarrow> eorder \<Rightarrow> price_level list \<Rightarrow> eorder \<times> price_level list \<times> etrade list" where
  "match_bids sy now n sell [] = (sell, [], [])"
| "match_bids sy now n sell (bestBid # rest) =
     (if \<not> positive (eo_Remaining sell) then (sell, bestBid # rest, [])
      else if flt (pl_Price bestBid) (eo_Price sell) then (sell, bestBid # rest, [])
      else
        (let (sell', os, ts) = fill_sell sy now (pl_Price bestBid) n sell (pl_Orders bestBid);
             (s, bids, ts') =
               (if os = [] then match_bids sy now (n + length ts) sell' rest
                else match_bids sy now (n + length ts) sell' (bestBid\<lparr>pl_Orders := os\<rparr> # rest))
         in (s, bids, ts @ ts')))"
  by pat_completeness auto
termination
  by (relation "measure (\<lambda>(sy, now, n, sell, bids). 2 * length bids + (if positive (eo_Remaining sell) then 1 else 0))")
    (auto dest!: fill_sell_exit [OF sym])

declare match_asks.simps(2) [simp del] match_bids.simps(2) [simp del]

definition matchBuy ::
  "(nat \<Rightarrow> gotime) \<Rightarrow> order_book \<Rightarrow> eorder \<Rightarrow> etrade list \<times> eorder \<times> order_book" where
  "matchBuy now ob buy =
     (let (b, asks, ts) = match_asks (ob_Symbol ob) now 0 buy (ob_Asks ob);
          ob' = ob\<lparr>ob_Asks := asks\<rparr> in
      (ts, b, if positive (eo_Remaining b) then addBid ob' b else ob'))"

definition matchSell ::
  "(nat \<Rightarrow> gotime) \<Rightarrow> order_book \<Rightarrow> eorder \<Rightarrow> etrade list \<times> eorder \<times> order_book" where
  "matchSell now ob sell =
     (let (s, bids, ts) = match_bids (ob_Symbol ob) now 0 sell (ob_Bids ob);
          ob' = ob\<lparr>ob_Bids := bids\<rparr> in
      (ts, s, if positive (eo_Remaining s) then addAsk ob' s else ob'))"

definition Match ::
  "(nat \<Rightarrow> gotime) \<Rightarrow> order_book \<Rightarrow> eorder \<Rightarrow> etrade list \<times> eorder \<times> order_book" where
  "Match now ob incoming =
     (if eo_Side incoming = SideBuy then matchBuy now ob incoming else matchSell now ob incoming)"

subsection \<open>Cancelling\<close>

record cancel_result =
  cr_Side :: string
  cr_Price :: f64
  cr_Remaining :: f64

fun remove_order :: "string \<Rightarrow> eorder list \<Rightarrow> (eorder \<times> eorder list) option" where
  "remove_order oid [] = None"
| "remove_order oid (o1 # os) =
     (if eo_ID o1 = oid then Some (o1, os)
      else map_option (\<lambda>(r, os'). (r, o1 # os')) (remove_order oid os))"

definition removeFromLevel :: "price_level \<Rightarrow> string \<Rightarrow> (eorder \<times> price_level) option" where
  "removeFromLevel level oid =
     map_option (\<lambda>(r, os). (r, level\<lparr>pl_Orders := os\<rparr>)) (remove_order oid (pl_Orders level))"

text \<open>The scan over one side: the price and order found, and the side with an emptied level dropped.\<close>

fun cancel_side :: "string \<Rightarrow> price_level list \<Rightarrow> (f64 \<times> eorder \<times> price_level list) option" where
  "cancel_side oid [] = None"
| "cancel_side oid (level # rest) =
     (case removeFromLevel level oid of
        Some (o1, level') \<Rightarrow>
          Some (pl_Price level, o1, if pl_Orders level' = [] then rest else level' # rest)
      | None \<Rightarrow> map_option (\<lambda>(p, o1, ls). (p, o1, level # ls)) (cancel_side oid rest))"

definition Cancel :: "order_book \<Rightarrow> string \<Rightarrow> cancel_result option \<times> order_book" where
  "Cancel ob oid =
     (case cancel_side oid (ob_Bids ob) of
        Some (p, o1, ls) \<Rightarrow>
          (Some \<lparr>cr_Side = SideBuy, cr_Price = p, cr_Remaining = eo_Remaining o1\<rparr>, ob\<lparr>ob_Bids := ls\<rparr>)
      | None \<Rightarrow>
          (case cancel_side oid (ob_Asks ob) of
             Some (p, o1, ls) \<Rightarrow>
               (Some \<lparr>cr_Side = SideSell, cr_Price = p, cr_Remaining = eo_Remaining o1\<rparr>, ob\<lparr>ob_Asks := ls\<rparr>)
           | None \<Rightarrow> (None, ob)))"

end
