(* ===== verification/Book_Spec.thy ===== *)
theory Book_Spec
  imports Book
begin

text \<open>
  What the order book promises. A side flattened is the queue of its orders, best price first and
  oldest first within a price; \<open>flat_match\<close> is price-time priority on that queue, and both nested
  loops of book.go implement it (locale \<open>match_side\<close>, interpreted on the buy and on the sell
  loops). The book invariant \<open>book_ok\<close> says that the sides are strictly sorted, have no empty level
  and do not cross.
\<close>

subsection \<open>Price-time priority on a flat queue\<close>

type_synonym queue = "(f64 \<times> eorder) list"

definition flatten :: "price_level list \<Rightarrow> queue" where
  "flatten ls = concat (map (\<lambda>l. map (Pair (pl_Price l)) (pl_Orders l)) ls)"

text \<open>
  \<open>beyond limit p\<close>: the incoming order's limit does not accept price \<open>p\<close>;
  \<open>tr\<close> builds the trade from the incoming and the resting order.
\<close>

fun flat_match ::
  "(f64 \<Rightarrow> f64 \<Rightarrow> bool) \<Rightarrow> (string \<Rightarrow> eorder \<Rightarrow> eorder \<Rightarrow> f64 \<Rightarrow> f64 \<Rightarrow> gotime \<Rightarrow> etrade)
   \<Rightarrow> string \<Rightarrow> (nat \<Rightarrow> gotime) \<Rightarrow> nat \<Rightarrow> eorder \<Rightarrow> queue \<Rightarrow> eorder \<times> queue \<times> etrade list" where
  "flat_match beyond tr sy now n inc [] = (inc, [], [])"
| "flat_match beyond tr sy now n inc ((p, r) # q) =
     (if \<not> positive (eo_Remaining inc) \<or> beyond (eo_Price inc) p then (inc, (p, r) # q, [])
      else
        (let qty = fmin (eo_Remaining inc) (eo_Remaining r);
             t = tr sy inc r p qty (now n);
             inc' = take_qty inc qty;
             r' = take_qty r qty in
         if feq (eo_Remaining r') f64_zero
         then (let (i, q', ts) = flat_match beyond tr sy now (Suc n) inc' q in (i, q', t # ts))
         else (inc', (p, r') # q, [t])))"

text \<open>A resting order has a positive quantity; an incoming one a non-negative quantity.\<close>

definition resting_ok :: "eorder \<Rightarrow> bool" where
  "resting_ok r \<longleftrightarrow> is_f64 (eo_Remaining r) \<and> finite_f64 (eo_Remaining r) \<and> positive (eo_Remaining r)"

definition incoming_ok :: "eorder \<Rightarrow> bool" where
  "incoming_ok r \<longleftrightarrow> is_f64 (eo_Remaining r) \<and> finite_f64 (eo_Remaining r) \<and> fle f64_zero (eo_Remaining r)"

lemma take_qty_simps [simp]:
  "eo_ID (take_qty r q) = eo_ID r" "eo_UserID (take_qty r q) = eo_UserID r"
  "eo_Symbol (take_qty r q) = eo_Symbol r" "eo_Side (take_qty r q) = eo_Side r"
  "eo_Price (take_qty r q) = eo_Price r" "eo_Quantity (take_qty r q) = eo_Quantity r"
  "eo_Remaining (take_qty r q) = fsub (eo_Remaining r) q"
  by (simp_all add: take_qty_def)

lemma resting_okE:
  assumes "resting_ok r"
  obtains k where "eo_Remaining r = FFin k" and "0 < k" and "is_f64 (FFin k)"
  using assms by (cases "eo_Remaining r") (auto simp: resting_ok_def)

lemma incoming_okE:
  assumes "incoming_ok r"
  obtains k where "eo_Remaining r = FFin k" and "0 \<le> k" and "is_f64 (FFin k)"
  using assms by (cases "eo_Remaining r") (auto simp: incoming_ok_def fle_def)

lemma resting_incoming: "resting_ok r \<Longrightarrow> incoming_ok r"
  by (auto simp: resting_ok_def incoming_ok_def fle_def)

lemma incoming_resting: "incoming_ok r \<Longrightarrow> positive (eo_Remaining r) \<Longrightarrow> resting_ok r"
  by (auto simp: resting_ok_def incoming_ok_def)

text \<open>One step of the matching: either the resting order is used up, or the incoming one is.\<close>

lemma step_cases:
  assumes "incoming_ok inc" and "positive (eo_Remaining inc)" and "resting_ok r"
    and "q = fmin (eo_Remaining inc) (eo_Remaining r)"
  shows "(q = eo_Remaining r \<and> eo_Remaining (take_qty r q) = f64_zero \<and> incoming_ok (take_qty inc q)
            \<and> fle (eo_Remaining (take_qty inc q)) (eo_Remaining inc))
       \<or> (q = eo_Remaining inc \<and> eo_Remaining (take_qty inc q) = f64_zero \<and> resting_ok (take_qty r q)
            \<and> flt q (eo_Remaining r) \<and> fle (eo_Remaining (take_qty r q)) (eo_Remaining r))"
proof -
  obtain a where a: "eo_Remaining inc = FFin a" "0 \<le> a" "is_f64 (FFin a)"
    using assms(1) by (rule incoming_okE)
  obtain b where b: "eo_Remaining r = FFin b" "0 < b" "is_f64 (FFin b)"
    using assms(3) by (rule resting_okE)
  have pos: "0 < a" using assms(2) a by simp
  consider "a < b" | "a = b" | "b < a" by linarith
  then show ?thesis
  proof cases
    case 1
    have q: "q = FFin a" using 1 assms(4) a b by (simp add: fmin_def)
    obtain c where "fsub (FFin b) (FFin a) = FFin c" "0 < c" "c \<le> b" "is_f64 (FFin c)"
      using b(3) a(2) 1 by (rule fsub_pos)
    then show ?thesis using q a b 1 by (auto simp: resting_ok_def fle_def)
  next
    case 2
    then show ?thesis using assms(4) a b by (simp add: fmin_def incoming_ok_def fle_def)
  next
    case 3
    have q: "q = FFin b" using 3 assms(4) a b by (simp add: fmin_def)
    obtain c where "fsub (FFin a) (FFin b) = FFin c" "0 < c" "c \<le> a" "is_f64 (FFin c)"
      using a(3) order_less_imp_le [OF b(2)] 3 by (rule fsub_pos)
    then show ?thesis using q a b by (auto simp: incoming_ok_def fle_def)
  qed
qed

lemma flat_match_stop: "\<not> positive (eo_Remaining inc) \<Longrightarrow> flat_match beyond tr sy now n inc q = (inc, q, [])"
  by (cases q) auto

declare flat_match.simps(2) [simp del]

lemma flat_match_append:
  "flat_match beyond tr sy now n inc xs = (i, q', ts) \<Longrightarrow>
   (\<forall>(p, r) \<in> set xs. resting_ok r) \<Longrightarrow> incoming_ok inc \<Longrightarrow>
   flat_match beyond tr sy now n inc (xs @ ys) =
     (if q' = [] then (let (i2, q2, ts2) = flat_match beyond tr sy now (n + length ts) i ys in (i2, q2, ts @ ts2))
      else (i, q' @ ys, ts))"
proof (induction xs arbitrary: n inc i q' ts)
  case Nil
  then show ?case by (auto split: prod.splits)
next
  case (Cons pr xs)
  obtain p r where pr: "pr = (p, r)" by force
  show ?case
  proof (cases "\<not> positive (eo_Remaining inc) \<or> beyond (eo_Price inc) p")
    case True
    then show ?thesis using Cons.prems by (auto simp: pr flat_match.simps(2))
  next
    case False
    let ?q = "fmin (eo_Remaining inc) (eo_Remaining r)"
    have r: "resting_ok r" using Cons.prems(2) pr by auto
    show ?thesis
    proof (cases "feq (eo_Remaining (take_qty r ?q)) f64_zero")
      case popped: True
      obtain i1 q1 ts1 where rec: "flat_match beyond tr sy now (Suc n) (take_qty inc ?q) xs = (i1, q1, ts1)"
        by (metis prod_cases3)
      have inc': "incoming_ok (take_qty inc ?q)"
        using step_cases [OF Cons.prems(3) _ r refl] False popped
        by (auto simp: resting_ok_def)
      have "flat_match beyond tr sy now (Suc n) (take_qty inc ?q) (xs @ ys) =
          (if q1 = [] then (let (i2, q2, ts2) = flat_match beyond tr sy now (Suc n + length ts1) i1 ys in (i2, q2, ts1 @ ts2))
           else (i1, q1 @ ys, ts1))"
        using Cons.IH [OF rec _ inc'] Cons.prems(2) by auto
      then show ?thesis
        using False popped rec Cons.prems(1)
        by (auto simp: pr flat_match.simps(2) Let_def split: prod.splits)
    next
      case stays: False
      then show ?thesis
        using False Cons.prems(1) by (auto simp: pr flat_match.simps(2) Let_def)
    qed
  qed
qed

subsection \<open>Well-formed levels\<close>

definition level_ok :: "bool \<Rightarrow> price_level \<Rightarrow> bool" where
  "level_ok bid l \<longleftrightarrow> finite_f64 (pl_Price l) \<and> pl_Orders l \<noteq> [] \<and>
     (\<forall>r \<in> set (pl_Orders l). resting_ok r \<and> eo_Price r = pl_Price l \<and> (eo_Side r = SideBuy \<longleftrightarrow> bid))"

lemma level_ok_resting: "level_ok bid l \<Longrightarrow> \<forall>r \<in> set (pl_Orders l). resting_ok r"
  by (simp add: level_ok_def)

lemma flatten_Nil [simp]: "flatten [] = []"
  by (simp add: flatten_def)

lemma flatten_Cons [simp]: "flatten (l # ls) = map (Pair (pl_Price l)) (pl_Orders l) @ flatten ls"
  by (simp add: flatten_def)

lemma flatten_resting: "\<forall>l \<in> set ls. level_ok bid l \<Longrightarrow> \<forall>(p, r) \<in> set (flatten ls). resting_ok r"
  by (induction ls) (auto simp: level_ok_def)

subsection \<open>The interface of a matching side\<close>

text \<open>
  The laws the nested loops of one side satisfy (they are the loops' own equations), and what the
  builder of trades records. The lemmas below are proved once, for both sides.
\<close>

locale match_side =
  fixes fill :: "string \<Rightarrow> (nat \<Rightarrow> gotime) \<Rightarrow> f64 \<Rightarrow> nat \<Rightarrow> eorder \<Rightarrow> eorder list \<Rightarrow> eorder \<times> eorder list \<times> etrade list"
    and sweep :: "string \<Rightarrow> (nat \<Rightarrow> gotime) \<Rightarrow> nat \<Rightarrow> eorder \<Rightarrow> price_level list \<Rightarrow> eorder \<times> price_level list \<times> etrade list"
    and beyond :: "f64 \<Rightarrow> f64 \<Rightarrow> bool"
    and tr :: "string \<Rightarrow> eorder \<Rightarrow> eorder \<Rightarrow> f64 \<Rightarrow> f64 \<Rightarrow> gotime \<Rightarrow> etrade"
    and maker taker :: "etrade \<Rightarrow> string"
  assumes fill_Nil: "fill sy now p n inc [] = (inc, [], [])"
    and fill_Cons: "fill sy now p n inc (r # rs) =
       (if positive (eo_Remaining inc) then
          (let q = fmin (eo_Remaining inc) (eo_Remaining r);
               t = tr sy inc r p q (now n);
               inc' = take_qty inc q;
               r' = take_qty r q;
               (i, os, ts) = (if feq (eo_Remaining r') f64_zero
                              then fill sy now p (Suc n) inc' rs
                              else fill sy now p (Suc n) inc' (r' # rs))
           in (i, os, t # ts))
        else (inc, r # rs, []))"
    and sweep_Nil: "sweep sy now n inc [] = (inc, [], [])"
    and sweep_Cons: "sweep sy now n inc (best # rest) =
       (if \<not> positive (eo_Remaining inc) then (inc, best # rest, [])
        else if beyond (eo_Price inc) (pl_Price best) then (inc, best # rest, [])
        else
          (let (inc', os, ts) = fill sy now (pl_Price best) n inc (pl_Orders best);
               (i, ls, ts') =
                 (if os = [] then sweep sy now (n + length ts) inc' rest
                  else sweep sy now (n + length ts) inc' (best\<lparr>pl_Orders := os\<rparr> # rest))
           in (i, ls, ts @ ts')))"
    and tr_fields: "maker (tr sy inc r p q t) = eo_ID r" "taker (tr sy inc r p q t) = eo_ID inc"
      "et_Price (tr sy inc r p q t) = p" "et_Quantity (tr sy inc r p q t) = q"
      "et_Timestamp (tr sy inc r p q t) = t" "et_Symbol (tr sy inc r p q t) = sy"
begin

lemma fill_flat:
  "\<forall>r \<in> set rs. resting_ok r \<Longrightarrow> incoming_ok inc \<Longrightarrow> \<not> beyond (eo_Price inc) p \<Longrightarrow>
   fill sy now p n inc rs = (i, os, ts) \<Longrightarrow>
   flat_match beyond tr sy now n inc (map (Pair p) rs) = (i, map (Pair p) os, ts)"
proof (induction rs arbitrary: n inc i os ts)
  case Nil
  then show ?case by (simp add: fill_Nil)
next
  case (Cons r rs)
  let ?q = "fmin (eo_Remaining inc) (eo_Remaining r)"
  let ?inc = "take_qty inc ?q" and ?r = "take_qty r ?q"
  show ?case
  proof (cases "positive (eo_Remaining inc)")
    case False
    then show ?thesis using Cons.prems by (simp add: fill_Cons flat_match_stop)
  next
    case pos: True
    have r: "resting_ok r" using Cons.prems(1) by simp
    show ?thesis
    proof (cases "feq (eo_Remaining ?r) f64_zero")
      case True
      then have inc': "incoming_ok ?inc"
        using step_cases [OF Cons.prems(2) pos r refl] by (auto simp: resting_ok_def)
      obtain i1 os1 ts1 where rec: "fill sy now p (Suc n) ?inc rs = (i1, os1, ts1)" by (metis prod_cases3)
      have "flat_match beyond tr sy now (Suc n) ?inc (map (Pair p) rs) = (i1, map (Pair p) os1, ts1)"
        using Cons.IH [OF _ inc' _ rec] Cons.prems by auto
      then show ?thesis
        using Cons.prems pos True rec by (auto simp: fill_Cons flat_match.simps(2) Let_def)
    next
      case False
      then have "\<not> positive (eo_Remaining ?inc)"
        using step_cases [OF Cons.prems(2) pos r refl] by auto
      then show ?thesis
        using Cons.prems pos False by (auto simp: fill_Cons flat_match.simps(2) Let_def)
    qed
  qed
qed

lemma fill_exit:
  "\<forall>r \<in> set rs. resting_ok r \<Longrightarrow> incoming_ok inc \<Longrightarrow> fill sy now p n inc rs = (i, os, ts) \<Longrightarrow>
   (os = [] \<or> \<not> positive (eo_Remaining i)) \<and> incoming_ok i \<and> eo_Price i = eo_Price inc \<and>
   eo_Side i = eo_Side inc \<and> eo_ID i = eo_ID inc \<and> (\<forall>r \<in> set os. resting_ok r)
   \<and> (\<forall>r' \<in> set os. \<exists>r \<in> set rs. eo_Price r' = eo_Price r \<and> eo_Side r' = eo_Side r \<and> eo_ID r' = eo_ID r)"
proof (induction rs arbitrary: n inc i os ts)
  case Nil
  then show ?case by (simp add: fill_Nil)
next
  case (Cons r rs)
  let ?q = "fmin (eo_Remaining inc) (eo_Remaining r)"
  let ?inc = "take_qty inc ?q" and ?r = "take_qty r ?q"
  show ?case
  proof (cases "positive (eo_Remaining inc)")
    case False
    then show ?thesis using Cons.prems by (auto simp: fill_Cons)
  next
    case pos: True
    have r: "resting_ok r" using Cons.prems(1) by simp
    show ?thesis
    proof (cases "feq (eo_Remaining ?r) f64_zero")
      case True
      then have inc': "incoming_ok ?inc"
        using step_cases [OF Cons.prems(2) pos r refl] by (auto simp: resting_ok_def)
      obtain i1 os1 ts1 where rec: "fill sy now p (Suc n) ?inc rs = (i1, os1, ts1)" by (metis prod_cases3)
      then have "i = i1" "os = os1"
        using Cons.prems(3) pos True by (auto simp: fill_Cons Let_def)
      then show ?thesis using Cons.IH [OF _ inc' rec] Cons.prems(1) by auto
    next
      case False
      then have s: "\<not> positive (eo_Remaining ?inc)" "eo_Remaining ?inc = f64_zero" "resting_ok ?r"
        using step_cases [OF Cons.prems(2) pos r refl] by auto
      then have "i = ?inc" "os = ?r # rs"
        using Cons.prems(3) pos False by (auto simp: fill_Cons Let_def)
      then show ?thesis using s Cons.prems(1) by (auto simp: incoming_ok_def fle_def)
    qed
  qed
qed

lemma sweep_flat:
  "\<forall>l \<in> set ls. level_ok bid l \<Longrightarrow> incoming_ok inc \<Longrightarrow> sweep sy now n inc ls = (i, ls', ts) \<Longrightarrow>
   flat_match beyond tr sy now n inc (flatten ls) = (i, flatten ls', ts)"
proof (induction ls arbitrary: n inc i ls' ts)
  case Nil
  then show ?case by (simp add: sweep_Nil)
next
  case (Cons l ls)
  have l: "level_ok bid l" using Cons.prems(1) by simp
  consider "\<not> positive (eo_Remaining inc)" | "positive (eo_Remaining inc)" "beyond (eo_Price inc) (pl_Price l)"
    | (go) "positive (eo_Remaining inc)" "\<not> beyond (eo_Price inc) (pl_Price l)" by blast
  then show ?case
  proof cases
    case 1
    then show ?thesis using Cons.prems(3) by (simp add: sweep_Cons flat_match_stop)
  next
    case 2
    then show ?thesis using Cons.prems(3) l
      by (cases "pl_Orders l") (auto simp: sweep_Cons level_ok_def flat_match.simps(2))
  next
    case go
    obtain i1 os ts1 where f: "fill sy now (pl_Price l) n inc (pl_Orders l) = (i1, os, ts1)" by (metis prod_cases3)
    note ex = fill_exit [OF level_ok_resting [OF l] Cons.prems(2) f]
    have flat: "flat_match beyond tr sy now n inc (map (Pair (pl_Price l)) (pl_Orders l)) = (i1, map (Pair (pl_Price l)) os, ts1)"
      using fill_flat [OF level_ok_resting [OF l] Cons.prems(2) go(2) f] .
    have app: "flat_match beyond tr sy now n inc (flatten (l # ls)) =
        (if os = [] then (let (i2, q2, ts2) = flat_match beyond tr sy now (n + length ts1) i1 (flatten ls) in (i2, q2, ts1 @ ts2))
         else (i1, map (Pair (pl_Price l)) os @ flatten ls, ts1))"
      using flat_match_append [OF flat _ Cons.prems(2), of "flatten ls"] level_ok_resting [OF l] by auto
    show ?thesis
    proof (cases "os = []")
      case True
      obtain i2 ls2 ts2 where rec: "sweep sy now (n + length ts1) i1 ls = (i2, ls2, ts2)" by (metis prod_cases3)
      have "flat_match beyond tr sy now (n + length ts1) i1 (flatten ls) = (i2, flatten ls2, ts2)"
        using Cons.IH [OF _ _ rec] Cons.prems(1) ex by auto
      then show ?thesis using app True f rec Cons.prems(3) go by (auto simp: sweep_Cons)
    next
      case False
      then show ?thesis using app f Cons.prems(3) go ex by (auto simp: sweep_Cons)
    qed
  qed
qed

text \<open>
  The levels left after a sweep: a suffix of the levels, with orders of the same side and price, and
  either the incoming order is used up or the best level left is beyond its limit.
\<close>

lemma sweep_levels:
  "\<forall>l \<in> set ls. level_ok bid l \<Longrightarrow> incoming_ok inc \<Longrightarrow> sweep sy now n inc ls = (i, ls', ts) \<Longrightarrow>
   (\<forall>l \<in> set ls'. level_ok bid l) \<and> (\<exists>k. map pl_Price ls' = drop k (map pl_Price ls)) \<and> incoming_ok i \<and>
   eo_Price i = eo_Price inc \<and> eo_Side i = eo_Side inc \<and> eo_ID i = eo_ID inc \<and>
   (positive (eo_Remaining i) \<longrightarrow> ls' = [] \<or> beyond (eo_Price inc) (pl_Price (hd ls')))"
proof (induction ls arbitrary: n inc i ls' ts)
  case Nil
  then show ?case by (simp add: sweep_Nil)
next
  case (Cons l ls)
  have l: "level_ok bid l" using Cons.prems(1) by simp
  have id: "\<exists>k. map pl_Price (l # ls) = drop k (map pl_Price (l # ls))" by (rule exI [of _ 0]) simp
  consider (stop) "\<not> positive (eo_Remaining inc) \<or> beyond (eo_Price inc) (pl_Price l)"
    | (go) "positive (eo_Remaining inc)" "\<not> beyond (eo_Price inc) (pl_Price l)" by blast
  then show ?case
  proof cases
    case stop
    then have "i = inc" "ls' = l # ls" using Cons.prems(3) by (auto simp: sweep_Cons split: if_splits)
    then show ?thesis using stop Cons.prems(1,2) id by auto
  next
    case go
    obtain i1 os ts1 where f: "fill sy now (pl_Price l) n inc (pl_Orders l) = (i1, os, ts1)" by (metis prod_cases3)
    note ex = fill_exit [OF level_ok_resting [OF l] Cons.prems(2) f]
    show ?thesis
    proof (cases "os = []")
      case True
      obtain i2 ls2 ts2 where rec: "sweep sy now (n + length ts1) i1 ls = (i2, ls2, ts2)" by (metis prod_cases3)
      have eq: "i = i2" "ls' = ls2" using True f rec Cons.prems(3) go by (auto simp: sweep_Cons)
      have IH: "(\<forall>l \<in> set ls2. level_ok bid l) \<and> (\<exists>k. map pl_Price ls2 = drop k (map pl_Price ls)) \<and> incoming_ok i2 \<and>
          eo_Price i2 = eo_Price i1 \<and> eo_Side i2 = eo_Side i1 \<and> eo_ID i2 = eo_ID i1 \<and> (positive (eo_Remaining i2) \<longrightarrow> ls2 = [] \<or> beyond (eo_Price i1) (pl_Price (hd ls2)))"
        using Cons.IH [OF _ _ rec] Cons.prems(1) ex by auto
      then obtain k where "map pl_Price ls2 = drop k (map pl_Price ls)" by blast
      then have "map pl_Price ls2 = drop (Suc k) (map pl_Price (l # ls))" by simp
      then show ?thesis using IH eq ex by metis
    next
      case False
      then have eq: "i = i1" "ls' = l\<lparr>pl_Orders := os\<rparr> # ls"
        using f Cons.prems(3) go ex by (auto simp: sweep_Cons)
      have "level_ok bid (l\<lparr>pl_Orders := os\<rparr>)"
        using l ex False unfolding level_ok_def by fastforce
      then show ?thesis using eq ex False Cons.prems(1) id by auto
    qed
  qed
qed

text \<open>
  The trades of a match: the makers are a prefix of the queue, in its order, each trade is at its
  maker's price, and every maker but possibly the last is used up.
\<close>

lemma flat_trades:
  "\<forall>(p, r) \<in> set q. resting_ok r \<Longrightarrow> incoming_ok inc \<Longrightarrow>
   flat_match beyond tr sy now n inc q = (i, q', ts) \<Longrightarrow>
   length ts \<le> length q \<and>
   map maker ts = map (\<lambda>(p, r). eo_ID r) (take (length ts) q) \<and>
   map et_Price ts = map fst (take (length ts) q) \<and>
   map et_Timestamp ts = map now [n..<n + length ts] \<and>
   (\<forall>t \<in> set ts. taker t = eo_ID inc \<and> et_Symbol t = sy \<and> positive (et_Quantity t) \<and> \<not> beyond (eo_Price inc) (et_Price t)) \<and>
   map et_Quantity (butlast ts) = map (\<lambda>(p, r). eo_Remaining r) (take (length ts - 1) q)"
proof (induction q arbitrary: n inc i q' ts)
  case Nil
  then show ?case by simp
next
  case (Cons pr q)
  obtain p r where pr: "pr = (p, r)" by force
  show ?case
  proof (cases "\<not> positive (eo_Remaining inc) \<or> beyond (eo_Price inc) p")
    case True
    then show ?thesis using Cons.prems(3) by (auto simp: pr flat_match.simps(2))
  next
    case False
    let ?q = "fmin (eo_Remaining inc) (eo_Remaining r)"
    have r: "resting_ok r" using Cons.prems(1) pr by auto
    have pos: "positive ?q" using False r by (auto simp: fmin_def resting_ok_def)
    show ?thesis
    proof (cases "feq (eo_Remaining (take_qty r ?q)) f64_zero")
      case popped: True
      obtain i1 q1 ts1 where rec: "flat_match beyond tr sy now (Suc n) (take_qty inc ?q) q = (i1, q1, ts1)"
        by (metis prod_cases3)
      have inc': "incoming_ok (take_qty inc ?q)" and qr: "?q = eo_Remaining r"
        using step_cases [OF Cons.prems(2) _ r refl] False popped by (auto simp: resting_ok_def)
      have ts: "ts = tr sy inc r p ?q (now n) # ts1"
        using False popped rec Cons.prems(3) by (auto simp: pr flat_match.simps(2) Let_def)
      have IH: "length ts1 \<le> length q" "map maker ts1 = map (\<lambda>(p, r). eo_ID r) (take (length ts1) q)"
        "map et_Price ts1 = map fst (take (length ts1) q)"
        "map et_Timestamp ts1 = map now [Suc n..<Suc n + length ts1]"
        "\<forall>t \<in> set ts1. taker t = eo_ID inc \<and> et_Symbol t = sy \<and> positive (et_Quantity t) \<and> \<not> beyond (eo_Price inc) (et_Price t)"
        "map et_Quantity (butlast ts1) = map (\<lambda>(p, r). eo_Remaining r) (take (length ts1 - 1) q)"
        using Cons.IH [OF _ inc' rec] Cons.prems(1) by auto
      have "map et_Quantity (butlast ts) = map (\<lambda>(p, r). eo_Remaining r) (take (length ts - 1) (pr # q))"
        using IH(6) by (cases ts1) (auto simp: ts pr tr_fields qr)
      moreover have "map et_Timestamp ts = map now [n..<n + length ts]"
        using IH(4) by (simp add: ts tr_fields upt_conv_Cons del: upt_Suc)
      ultimately show ?thesis
        using IH(1,2,3,5) pos False by (simp add: ts pr tr_fields)
    next
      case stays: False
      then have "ts = [tr sy inc r p ?q (now n)]"
        using False Cons.prems(3) by (auto simp: pr flat_match.simps(2) Let_def)
      then show ?thesis using pos False by (simp add: pr tr_fields)
    qed
  qed
qed

end

subsection \<open>The two sides of the code\<close>

definition crosses_ask :: "f64 \<Rightarrow> f64 \<Rightarrow> bool" where "crosses_ask limit p = flt limit p"
definition crosses_bid :: "f64 \<Rightarrow> f64 \<Rightarrow> bool" where "crosses_bid limit p = flt p limit"
definition trade_of_sell :: "string \<Rightarrow> eorder \<Rightarrow> eorder \<Rightarrow> f64 \<Rightarrow> f64 \<Rightarrow> gotime \<Rightarrow> etrade" where
  "trade_of_sell sy inc r = mk_trade sy r inc"

interpretation buys: match_side fill_buy match_asks crosses_ask mk_trade et_SellOrderID et_BuyOrderID
  by unfold_locales
    (simp_all add: fill_buy.simps(2) match_asks.simps(2) crosses_ask_def mk_trade_def)

interpretation sells: match_side fill_sell match_bids crosses_bid trade_of_sell et_BuyOrderID et_SellOrderID
  by unfold_locales
    (simp_all add: fill_sell.simps(2) match_bids.simps(2) crosses_bid_def trade_of_sell_def mk_trade_def)

end
