(* ===== verification/Book_Invariant.thy ===== *)
theory Book_Invariant
  imports Book_Spec
begin

text \<open>
  Resting an order (locale \<open>rest_side\<close>, interpreted on both sides), the invariant of a whole book
  under \<open>Match\<close> and \<open>Cancel\<close>, conservation of quantity, and what cancelling removes.
\<close>

subsection \<open>Resting an order\<close>

text \<open>Stable insertion: behind every order at a better or equal price.\<close>

definition queue_insert :: "(f64 \<Rightarrow> f64 \<Rightarrow> bool) \<Rightarrow> eorder \<Rightarrow> queue \<Rightarrow> queue" where
  "queue_insert better o1 q =
     (let keep = (\<lambda>(p, r). better p (eo_Price o1) \<or> p = eo_Price o1) in
      takeWhile keep q @ (eo_Price o1, o1) # dropWhile keep q)"

locale rest_side =
  fixes ins :: "eorder \<Rightarrow> price_level list \<Rightarrow> price_level list"
    and better :: "f64 \<Rightarrow> f64 \<Rightarrow> bool"
  assumes ins_Nil: "ins o1 [] = [new_level o1]"
    and ins_Cons: "ins o1 (l # ls) =
       (if feq (pl_Price l) (eo_Price o1) then pl_Add l o1 # ls
        else if better (eo_Price o1) (pl_Price l) then new_level o1 # l # ls
        else l # ins o1 ls)"
    and better_irrefl: "\<not> better p p"
    and better_trans: "better p q \<Longrightarrow> better q r \<Longrightarrow> better p r"
    and better_total: "finite_f64 p \<Longrightarrow> finite_f64 q \<Longrightarrow> p \<noteq> q \<Longrightarrow> better p q \<or> better q p"
begin

abbreviation sorted_levels :: "price_level list \<Rightarrow> bool" where
  "sorted_levels ls \<equiv> sorted_wrt better (map pl_Price ls)"

lemma ins_prices: "set (map pl_Price (ins o1 ls)) \<subseteq> insert (eo_Price o1) (set (map pl_Price ls))"
  by (induction ls) (auto simp: ins_Nil ins_Cons new_level_def pl_Add_def)

lemma feq_finite: "finite_f64 p \<Longrightarrow> feq p q \<longleftrightarrow> p = q"
  by (cases p; cases q) auto

lemma ins_sorted:
  "sorted_levels ls \<Longrightarrow> \<forall>l \<in> set ls. finite_f64 (pl_Price l) \<Longrightarrow> finite_f64 (eo_Price o1) \<Longrightarrow>
   sorted_levels (ins o1 ls)"
proof (induction ls)
  case Nil
  then show ?case by (simp add: ins_Nil new_level_def)
next
  case (Cons l ls)
  have IH: "sorted_levels (ins o1 ls)" using Cons by auto
  have above: "better (pl_Price l) p" if "p \<in> set (map pl_Price ls)" for p
    using Cons.prems(1) that by auto
  consider "pl_Price l = eo_Price o1" | "pl_Price l \<noteq> eo_Price o1" "better (eo_Price o1) (pl_Price l)"
    | (behind) "pl_Price l \<noteq> eo_Price o1" "\<not> better (eo_Price o1) (pl_Price l)" by blast
  then show ?case
  proof cases
    case 1
    then show ?thesis using Cons.prems feq_finite [of "pl_Price l"] by (simp add: ins_Cons pl_Add_def)
  next
    case 2
    then show ?thesis
      using Cons.prems feq_finite [of "pl_Price l" "eo_Price o1"] above better_trans
      by (auto simp: ins_Cons new_level_def)
  next
    case behind
    then have b: "better (pl_Price l) (eo_Price o1)"
      using better_total Cons.prems(2,3) by auto
    then have "\<forall>p \<in> set (map pl_Price (ins o1 ls)). better (pl_Price l) p"
      using ins_prices [of o1 ls] above by blast
    then show ?thesis
      using behind Cons.prems feq_finite [of "pl_Price l" "eo_Price o1"] IH by (simp add: ins_Cons)
  qed
qed

lemma ins_level_ok:
  "\<forall>l \<in> set ls. level_ok bid l \<Longrightarrow> resting_ok o1 \<Longrightarrow> finite_f64 (eo_Price o1) \<Longrightarrow>
   (eo_Side o1 = SideBuy \<longleftrightarrow> bid) \<Longrightarrow> \<forall>l \<in> set (ins o1 ls). level_ok bid l"
proof (induction ls)
  case Nil
  then show ?case by (auto simp: ins_Nil new_level_def level_ok_def)
next
  case (Cons l ls)
  have l: "level_ok bid l" and IH: "\<forall>l \<in> set (ins o1 ls). level_ok bid l"
    using Cons by auto
  have "pl_Price l = eo_Price o1 \<Longrightarrow> level_ok bid (pl_Add l o1)"
    using l Cons.prems(2,4) by (auto simp: level_ok_def pl_Add_def)
  moreover have "level_ok bid (new_level o1)"
    using Cons.prems(2-4) by (simp add: level_ok_def new_level_def)
  moreover have "feq (pl_Price l) (eo_Price o1) \<longleftrightarrow> pl_Price l = eo_Price o1"
    using l by (intro feq_finite) (simp add: level_ok_def)
  ultimately show ?case using l IH Cons.prems(1) by (simp add: ins_Cons)
qed

lemma flatten_behind:
  assumes "sorted_levels (l # ls)" and "p = pl_Price l \<or> better p (pl_Price l)"
  shows "\<forall>(p', r) \<in> set (flatten ls). \<not> (better p' p \<or> p' = p)"
proof -
  have "\<And>p' r. (p', r) \<in> set (flatten ls) \<Longrightarrow> p' \<in> set (map pl_Price ls)"
    by (auto simp: flatten_def)
  then have "\<And>p' r. (p', r) \<in> set (flatten ls) \<Longrightarrow> better (pl_Price l) p'"
    using assms(1) by auto
  then show ?thesis using assms(2) better_irrefl better_trans by blast
qed

lemma takeWhile_none:
  "\<forall>x \<in> set xs. \<not> P x \<Longrightarrow> takeWhile P xs = []" "\<forall>x \<in> set xs. \<not> P x \<Longrightarrow> dropWhile P xs = xs"
  by (cases xs; simp)+

lemma while_split:
  assumes "\<forall>x \<in> set xs. P x" and "\<forall>x \<in> set ys. \<not> P x"
  shows "takeWhile P (xs @ ys) = xs" and "dropWhile P (xs @ ys) = ys"
  using assms by (induction xs) (auto simp: takeWhile_none)

lemma while_prefix:
  assumes "\<forall>x \<in> set xs. P x"
  shows "takeWhile P (xs @ ys) = xs @ takeWhile P ys" and "dropWhile P (xs @ ys) = dropWhile P ys"
  using assms by (induction xs) auto

text \<open>Time priority: the new order goes behind every order at its price, before any worse price.\<close>

lemma ins_flatten:
  "sorted_levels ls \<Longrightarrow> \<forall>l \<in> set ls. level_ok bid l \<Longrightarrow> finite_f64 (eo_Price o1) \<Longrightarrow>
   flatten (ins o1 ls) = queue_insert better o1 (flatten ls)"
proof (induction ls)
  case Nil
  then show ?case by (simp add: ins_Nil new_level_def queue_insert_def)
next
  case (Cons l ls)
  let ?keep = "\<lambda>(p, r). better p (eo_Price o1) \<or> p = eo_Price o1"
  let ?os = "map (Pair (pl_Price l)) (pl_Orders l)"
  have fin: "finite_f64 (pl_Price l)" "pl_Orders l \<noteq> []" using Cons.prems(2) by (auto simp: level_ok_def)
  note fe = feq_finite [OF fin(1), of "eo_Price o1"]
  consider (same) "pl_Price l = eo_Price o1" | (front) "pl_Price l \<noteq> eo_Price o1" "better (eo_Price o1) (pl_Price l)"
    | (behind) "pl_Price l \<noteq> eo_Price o1" "\<not> better (eo_Price o1) (pl_Price l)" by blast
  then show ?case
  proof cases
    case same
    have none: "\<forall>x \<in> set (flatten ls). \<not> ?keep x"
      using flatten_behind [OF Cons.prems(1), of "eo_Price o1"] same by auto
    have "\<forall>x \<in> set ?os. ?keep x" using same by auto
    from while_split [OF this none]
    have "takeWhile ?keep (?os @ flatten ls) = ?os" "dropWhile ?keep (?os @ flatten ls) = flatten ls" .
    then have "queue_insert better o1 (?os @ flatten ls) = ?os @ (eo_Price o1, o1) # flatten ls"
      by (simp only: queue_insert_def Let_def append_assoc)
    then show ?thesis using same fe by (simp add: ins_Cons pl_Add_def)
  next
    case front
    then have "\<forall>x \<in> set ?os. \<not> ?keep x" using better_irrefl better_trans by (auto dest: better_trans)
    moreover have "\<forall>x \<in> set (flatten ls). \<not> ?keep x"
      using flatten_behind [OF Cons.prems(1), of "eo_Price o1"] front by auto
    ultimately have "\<forall>x \<in> set (?os @ flatten ls). \<not> ?keep x" by auto
    then have "takeWhile ?keep (?os @ flatten ls) = []" "dropWhile ?keep (?os @ flatten ls) = ?os @ flatten ls"
      by (rule takeWhile_none)+
    then show ?thesis using front fe by (simp add: ins_Cons queue_insert_def new_level_def Let_def)
  next
    case behind
    then have all: "\<forall>x \<in> set ?os. ?keep x" using better_total [OF fin(1) Cons.prems(3)] by auto
    have "queue_insert better o1 (?os @ flatten ls) = ?os @ queue_insert better o1 (flatten ls)"
      unfolding queue_insert_def Let_def while_prefix [OF all] by simp
    then show ?thesis using Cons behind fe by (simp add: ins_Cons)
  qed
qed

end

definition better_bid :: "f64 \<Rightarrow> f64 \<Rightarrow> bool" where "better_bid p q = flt q p"
definition better_ask :: "f64 \<Rightarrow> f64 \<Rightarrow> bool" where "better_ask p q = flt p q"

lemma flt_irrefl [simp]: "\<not> flt p p"
  by (cases p) auto

lemma flt_trans: "flt p q \<Longrightarrow> flt q r \<Longrightarrow> flt p r"
  by (cases p; cases q; cases r) auto

lemma flt_total: "finite_f64 p \<Longrightarrow> finite_f64 q \<Longrightarrow> p \<noteq> q \<Longrightarrow> flt p q \<or> flt q p"
  by (cases p; cases q) auto

interpretation bids: rest_side bid_levels better_bid
  by unfold_locales (auto simp: better_bid_def dest: flt_trans flt_total)

interpretation asks: rest_side ask_levels better_ask
  by unfold_locales (auto simp: better_ask_def dest: flt_trans flt_total)

subsection \<open>The invariant of a book\<close>

definition uncrossed :: "order_book \<Rightarrow> bool" where
  "uncrossed ob \<longleftrightarrow> (\<forall>b \<in> set (ob_Bids ob). \<forall>a \<in> set (ob_Asks ob). flt (pl_Price b) (pl_Price a))"

definition sides_ok :: "order_book \<Rightarrow> bool" where
  "sides_ok ob \<longleftrightarrow>
     (\<forall>l \<in> set (ob_Bids ob). level_ok True l) \<and> (\<forall>l \<in> set (ob_Asks ob). level_ok False l) \<and>
     sorted_wrt better_bid (map pl_Price (ob_Bids ob)) \<and> sorted_wrt better_ask (map pl_Price (ob_Asks ob))"

definition book_ok :: "order_book \<Rightarrow> bool" where
  "book_ok ob \<longleftrightarrow> sides_ok ob \<and> uncrossed ob"

text \<open>
  An incoming order the matching theorems are about: a finite price and a finite, non-negative remaining
  quantity. The services submit negative quantities too, which \<open>Match\<close> leaves alone
  (\<open>Match_idle\<close> of Engine).
\<close>

definition order_ok :: "eorder \<Rightarrow> bool" where
  "order_ok o1 \<longleftrightarrow> incoming_ok o1 \<and> finite_f64 (eo_Price o1)"

lemma book_ok_new: "book_ok (NewOrderBook s)"
  by (simp add: book_ok_def sides_ok_def uncrossed_def NewOrderBook_def)

lemma prices_drop:
  assumes "map pl_Price ls' = drop k (map pl_Price ls)"
  shows "set (map pl_Price ls') \<subseteq> set (map pl_Price ls)"
    and "sorted_wrt R (map pl_Price ls) \<Longrightarrow> sorted_wrt R (map pl_Price ls')"
  using assms by (auto simp: set_drop_subset sorted_wrt_drop dest: in_set_dropD)

lemma uncrossed_prices:
  "uncrossed ob \<longleftrightarrow> (\<forall>b \<in> set (map pl_Price (ob_Bids ob)). \<forall>a \<in> set (map pl_Price (ob_Asks ob)). flt b a)"
  by (simp add: uncrossed_def)

lemma sorted_hd: "sorted_wrt R (x # xs) \<Longrightarrow> y \<in> set (x # xs) \<Longrightarrow> y = x \<or> R x y"
  by auto


lemma matchBuy_ok:
  assumes ok: "sides_ok ob" and inc: "order_ok o1" and side: "eo_Side o1 = SideBuy"
    and m: "matchBuy now ob o1 = (ts, o2, ob')"
  shows "sides_ok ob'" and "uncrossed ob \<Longrightarrow> uncrossed ob'"
proof -
  obtain b as ts' where sw: "match_asks (ob_Symbol ob) now 0 o1 (ob_Asks ob) = (b, as, ts')"
    by (metis prod_cases3)
  have lev: "\<forall>l \<in> set (ob_Asks ob). level_ok False l" "incoming_ok o1"
    using ok inc by (auto simp: sides_ok_def order_ok_def)
  note sl = buys.sweep_levels [OF lev sw]
  then obtain k where k: "map pl_Price as = drop k (map pl_Price (ob_Asks ob))" by blast
  note pd = prices_drop [OF k]
  let ?ob = "ob\<lparr>ob_Asks := as\<rparr>"
  have ob': "ob' = (if positive (eo_Remaining b) then addBid ?ob b else ?ob)"
    using m sw by (auto simp: matchBuy_def Let_def)
  have so: "sides_ok ?ob" using ok sl pd(2) by (auto simp: sides_ok_def)
  have fin: "finite_f64 (eo_Price b)" using sl inc by (simp add: order_ok_def)
  show "sides_ok ob'"
  proof (cases "positive (eo_Remaining b)")
    case True
    then have r: "resting_ok b" using sl by (blast intro: incoming_resting)
    have "\<forall>l \<in> set (bid_levels b (ob_Bids ob)). level_ok True l"
      using ok sl r fin side by (intro bids.ins_level_ok) (auto simp: sides_ok_def)
    moreover have "sorted_wrt better_bid (map pl_Price (bid_levels b (ob_Bids ob)))"
      using ok fin by (intro bids.ins_sorted) (auto simp: sides_ok_def level_ok_def)
    ultimately show ?thesis using ob' so True by (simp add: addBid_def sides_ok_def)
  next
    case False
    then show ?thesis using ob' so by simp
  qed
  assume un: "uncrossed ob"
  have un1: "\<forall>p \<in> set (map pl_Price (ob_Bids ob)). \<forall>q \<in> set (map pl_Price as). flt p q"
    using un pd(1) unfolding uncrossed_prices by blast
  show "uncrossed ob'"
  proof (cases "positive (eo_Remaining b)")
    case True
    have "\<forall>q \<in> set (map pl_Price as). flt (eo_Price b) q"
    proof (cases as)
      case Nil
      then show ?thesis by simp
    next
      case (Cons a as')
      have "flt (eo_Price b) (pl_Price a)" using sl True Cons by (simp add: crosses_ask_def)
      moreover have "sorted_wrt better_ask (map pl_Price as)" using so by (simp add: sides_ok_def)
      ultimately show ?thesis using Cons flt_trans by (auto simp: better_ask_def)
    qed
    then have "\<forall>p \<in> set (map pl_Price (bid_levels b (ob_Bids ob))). \<forall>q \<in> set (map pl_Price as). flt p q"
      using un1 bids.ins_prices [of b "ob_Bids ob"] by blast
    then show ?thesis using ob' True unfolding uncrossed_prices by (simp add: addBid_def)
  next
    case False
    then show ?thesis using ob' un1 unfolding uncrossed_prices by simp
  qed
qed

lemma matchSell_ok:
  assumes ok: "sides_ok ob" and inc: "order_ok o1" and side: "eo_Side o1 \<noteq> SideBuy"
    and m: "matchSell now ob o1 = (ts, o2, ob')"
  shows "sides_ok ob'" and "uncrossed ob \<Longrightarrow> uncrossed ob'"
proof -
  obtain s bs ts' where sw: "match_bids (ob_Symbol ob) now 0 o1 (ob_Bids ob) = (s, bs, ts')"
    by (metis prod_cases3)
  have lev: "\<forall>l \<in> set (ob_Bids ob). level_ok True l" "incoming_ok o1"
    using ok inc by (auto simp: sides_ok_def order_ok_def)
  note sl = sells.sweep_levels [OF lev sw]
  then obtain k where k: "map pl_Price bs = drop k (map pl_Price (ob_Bids ob))" by blast
  note pd = prices_drop [OF k]
  let ?ob = "ob\<lparr>ob_Bids := bs\<rparr>"
  have ob': "ob' = (if positive (eo_Remaining s) then addAsk ?ob s else ?ob)"
    using m sw by (auto simp: matchSell_def Let_def)
  have so: "sides_ok ?ob" using ok sl pd(2) by (auto simp: sides_ok_def)
  have fin: "finite_f64 (eo_Price s)" using sl inc by (simp add: order_ok_def)
  show "sides_ok ob'"
  proof (cases "positive (eo_Remaining s)")
    case True
    then have r: "resting_ok s" using sl by (blast intro: incoming_resting)
    have "\<forall>l \<in> set (ask_levels s (ob_Asks ob)). level_ok False l"
      using ok sl r fin side by (intro asks.ins_level_ok) (auto simp: sides_ok_def)
    moreover have "sorted_wrt better_ask (map pl_Price (ask_levels s (ob_Asks ob)))"
      using ok fin by (intro asks.ins_sorted) (auto simp: sides_ok_def level_ok_def)
    ultimately show ?thesis using ob' so True by (simp add: addAsk_def sides_ok_def)
  next
    case False
    then show ?thesis using ob' so by simp
  qed
  assume un: "uncrossed ob"
  have un1: "\<forall>p \<in> set (map pl_Price bs). \<forall>q \<in> set (map pl_Price (ob_Asks ob)). flt p q"
    using un pd(1) unfolding uncrossed_prices by blast
  show "uncrossed ob'"
  proof (cases "positive (eo_Remaining s)")
    case True
    have "\<forall>p \<in> set (map pl_Price bs). flt p (eo_Price s)"
    proof (cases bs)
      case Nil
      then show ?thesis by simp
    next
      case (Cons b bs')
      have "flt (pl_Price b) (eo_Price s)" using sl True Cons by (simp add: crosses_bid_def)
      moreover have "sorted_wrt better_bid (map pl_Price bs)" using so by (simp add: sides_ok_def)
      ultimately show ?thesis using Cons flt_trans by (auto simp: better_bid_def)
    qed
    then have "\<forall>p \<in> set (map pl_Price bs). \<forall>q \<in> set (map pl_Price (ask_levels s (ob_Asks ob))). flt p q"
      using un1 asks.ins_prices [of s "ob_Asks ob"] by blast
    then show ?thesis using ob' True unfolding uncrossed_prices by (simp add: addAsk_def)
  next
    case False
    then show ?thesis using ob' un1 unfolding uncrossed_prices by simp
  qed
qed

subsection \<open>Conservation of quantity\<close>

text \<open>
  Float subtraction rounds, so quantity is conserved exactly only where every quantity is a multiple
  of a common \<open>2^g\<close> units and at most \<open>2^53\<close> of them, which subtraction then stays inside.
\<close>

fun f_units :: "f64 \<Rightarrow> int" where
  "f_units (FFin k) = k"
| "f_units _ = 0"

fun on_grid :: "nat \<Rightarrow> f64 \<Rightarrow> bool" where
  "on_grid g (FFin k) \<longleftrightarrow> 0 \<le> k \<and> k mod 2 ^ g = 0 \<and> k \<le> 9007199254740992 * 2 ^ g \<and> k < f64_overflow"
| "on_grid g _ \<longleftrightarrow> False"

lemma on_gridE:
  assumes "on_grid g x"
  obtains j where "x = FFin (j * 2 ^ g)" and "0 \<le> j" and "j \<le> 9007199254740992" and "j * 2 ^ g < f64_overflow"
proof -
  obtain k where k: "x = FFin k" "0 \<le> k" "k mod 2 ^ g = 0" "k \<le> 9007199254740992 * 2 ^ g" "k < f64_overflow"
    using assms by (cases x) auto
  then obtain j where j: "k = j * 2 ^ g" by (metis mod_0_imp_dvd dvd_def mult.commute)
  have "0 \<le> j" using k(2) j by (simp add: zero_le_mult_iff)
  moreover have "j \<le> 9007199254740992" using k(4) j by simp
  ultimately show thesis using that j k by blast
qed

lemma on_grid_is_f64: "on_grid g x \<Longrightarrow> is_f64 x \<and> finite_f64 x \<and> fle f64_zero x"
  by (elim on_gridE) (auto simp: round53_grid fle_def abs_mult mult_less_0_iff order_le_less)

lemma on_grid_sub:
  assumes "on_grid g (FFin a)" and "on_grid g (FFin b)" and "b \<le> a"
  shows "fsub (FFin a) (FFin b) = FFin (a - b)" and "on_grid g (FFin (a - b))"
proof -
  obtain i where i: "a = i * 2 ^ g" "0 \<le> i" "i \<le> 9007199254740992" "i * 2 ^ g < f64_overflow"
    using assms(1) by (elim on_gridE) auto
  obtain j where j: "b = j * 2 ^ g" "0 \<le> j"
    using assms(2) by (elim on_gridE) auto
  have "j \<le> i" using assms(3) i j by simp
  then show "fsub (FFin a) (FFin b) = FFin (a - b)" using i j by (intro fsub_exact) auto
  show "on_grid g (FFin (a - b))" using assms by (auto simp: mod_diff_eq [symmetric])
qed

definition queue_units :: "queue \<Rightarrow> int" where
  "queue_units q = sum_list (map (\<lambda>(p, r). f_units (eo_Remaining r)) q)"

definition trade_units :: "etrade list \<Rightarrow> int" where
  "trade_units ts = sum_list (map (\<lambda>t. f_units (et_Quantity t)) ts)"

lemma queue_units_simps [simp]:
  "queue_units [] = 0" "queue_units ((p, r) # q) = f_units (eo_Remaining r) + queue_units q"
  "queue_units (q @ q2) = queue_units q + queue_units q2"
  by (simp_all add: queue_units_def)

lemma trade_units_simps [simp]:
  "trade_units [] = 0" "trade_units (t # ts) = f_units (et_Quantity t) + trade_units ts"
  by (simp_all add: trade_units_def)

lemma flat_conserves:
  assumes qty: "\<And>sy inc r p q t. et_Quantity (tr sy inc r p q t) = q"
  shows "\<forall>(p, r) \<in> set q. on_grid g (eo_Remaining r) \<and> positive (eo_Remaining r) \<Longrightarrow> on_grid g (eo_Remaining inc) \<Longrightarrow>
    flat_match beyond tr sy now n inc q = (i, q', ts) \<Longrightarrow>
    on_grid g (eo_Remaining i) \<and>
    f_units (eo_Remaining inc) = f_units (eo_Remaining i) + trade_units ts \<and>
    queue_units q = queue_units q' + trade_units ts"
proof (induction q arbitrary: n inc i q' ts)
  case Nil
  then show ?case by simp
next
  case (Cons pr q)
  obtain p r where pr: "pr = (p, r)" by force
  show ?case
  proof (cases "\<not> positive (eo_Remaining inc) \<or> beyond (eo_Price inc) p")
    case True
    then show ?thesis using Cons.prems by (auto simp: pr flat_match.simps(2))
  next
    case False
    obtain a b where a: "eo_Remaining inc = FFin a" and b: "eo_Remaining r = FFin b"
      using Cons.prems(1,2) pr by (cases "eo_Remaining inc"; cases "eo_Remaining r") auto
    have g: "on_grid g (FFin a)" "on_grid g (FFin b)" "0 < b" using Cons.prems a b pr by auto
    show ?thesis
    proof (cases "a < b")
      case True
      have s: "fsub (FFin b) (FFin a) = FFin (b - a)" using on_grid_sub [OF g(2) g(1)] True by simp
      then have "i = take_qty inc (FFin a)" "q' = (p, take_qty r (FFin a)) # q"
          "ts = [tr sy inc r p (FFin a) (now n)]"
        using False True Cons.prems(3) by (auto simp: pr flat_match.simps(2) Let_def fmin_def a b simp del: fsub_FFin)
      then show ?thesis using s a b by (simp add: pr qty del: fsub_FFin) (simp add: f64_overflow_def)
    next
      case ge: False
      then have s: "fsub (FFin a) (FFin b) = FFin (a - b)" "on_grid g (FFin (a - b))"
        using on_grid_sub [OF g(1) g(2)] by auto
      obtain i1 q1 ts1 where rec: "flat_match beyond tr sy now (Suc n) (take_qty inc (FFin b)) q = (i1, q1, ts1)"
        by (metis prod_cases3)
      have "i = i1" "q' = q1" "ts = tr sy inc r p (FFin b) (now n) # ts1"
        using False ge rec Cons.prems(3) by (auto simp: pr flat_match.simps(2) Let_def fmin_def a b)
      moreover have "on_grid g (eo_Remaining i1) \<and>
          f_units (eo_Remaining (take_qty inc (FFin b))) = f_units (eo_Remaining i1) + trade_units ts1 \<and>
          queue_units q = queue_units q1 + trade_units ts1"
        using Cons.IH [OF _ _ rec] Cons.prems(1) s a by (simp del: fsub_FFin)
      ultimately show ?thesis using s a b by (simp add: pr qty del: fsub_FFin)
    qed
  qed
qed

lemma queue_units_insert: "queue_units (queue_insert better o1 q) = f_units (eo_Remaining o1) + queue_units q"
proof -
  have "queue_units q = queue_units (takeWhile keep q) + queue_units (dropWhile keep q)" for keep
    by (metis queue_units_simps(3) takeWhile_dropWhile_id)
  then show ?thesis by (simp add: queue_insert_def Let_def)
qed

subsection \<open>Cancelling\<close>

definition queue_ids :: "queue \<Rightarrow> string list" where
  "queue_ids q = map (\<lambda>(p, r). eo_ID r) q"

lemma remove_order_None: "remove_order oid os = None \<longleftrightarrow> oid \<notin> set (map eo_ID os)"
  by (induction os) auto

lemma remove_order_Some:
  "remove_order oid os = Some (r, os') \<Longrightarrow>
   \<exists>xs ys. os = xs @ r # ys \<and> os' = xs @ ys \<and> eo_ID r = oid \<and> oid \<notin> set (map eo_ID xs)"
proof (induction os arbitrary: os')
  case Nil
  then show ?case by simp
next
  case (Cons o1 os)
  show ?case
  proof (cases "eo_ID o1 = oid")
    case True
    then show ?thesis using Cons.prems by (intro exI [of _ "[]"] exI [of _ os]) simp
  next
    case False
    then obtain os1 where "remove_order oid os = Some (r, os1)" "os' = o1 # os1"
      using Cons.prems by auto
    then obtain xs ys where "os = xs @ r # ys" "os1 = xs @ ys" "eo_ID r = oid" "oid \<notin> set (map eo_ID xs)"
      using Cons.IH by blast
    then show ?thesis using False \<open>os' = _\<close> by (intro exI [of _ "o1 # xs"] exI [of _ ys]) simp
  qed
qed

lemma remove_order_found: "remove_order oid os = Some x \<Longrightarrow> oid \<in> eo_ID ` set os"
  using remove_order_None [of oid os] by auto

text \<open>Cancelling on a side removes the first entry of the queue with that ID, and nothing else.\<close>

lemma cancel_side_None: "cancel_side oid ls = None \<longleftrightarrow> oid \<notin> set (queue_ids (flatten ls))"
  by (induction ls)
    (auto simp: queue_ids_def removeFromLevel_def remove_order_None dest: remove_order_found split: option.splits)

lemma cancel_side_Some:
  "cancel_side oid ls = Some (p, r, ls') \<Longrightarrow>
   \<exists>xs ys. flatten ls = xs @ (p, r) # ys \<and> flatten ls' = xs @ ys \<and> eo_ID r = oid \<and> oid \<notin> set (queue_ids xs)"
proof (induction ls arbitrary: ls')
  case Nil
  then show ?case by simp
next
  case (Cons l ls)
  show ?case
  proof (cases "removeFromLevel l oid")
    case None
    then obtain ls1 where c: "cancel_side oid ls = Some (p, r, ls1)" "ls' = l # ls1"
      using Cons.prems by auto
    then obtain xs ys where x: "flatten ls = xs @ (p, r) # ys" "flatten ls1 = xs @ ys" "eo_ID r = oid" "oid \<notin> set (queue_ids xs)"
      using Cons.IH by blast
    have "oid \<notin> set (map eo_ID (pl_Orders l))"
      using None by (simp add: removeFromLevel_def remove_order_None)
    then show ?thesis using x c
      by (intro exI [of _ "map (Pair (pl_Price l)) (pl_Orders l) @ xs"] exI [of _ ys]) (auto simp: queue_ids_def)
  next
    case (Some a)
    obtain o1 l' where a: "a = (o1, l')" by force
    then obtain os' where os': "remove_order oid (pl_Orders l) = Some (o1, os')" "l' = l\<lparr>pl_Orders := os'\<rparr>"
      using Some by (auto simp: removeFromLevel_def)
    have eq: "p = pl_Price l" "r = o1" "ls' = (if os' = [] then ls else l' # ls)"
      using Cons.prems Some a os' by auto
    obtain xs ys where "pl_Orders l = xs @ o1 # ys" "os' = xs @ ys" "eo_ID o1 = oid" "oid \<notin> set (map eo_ID xs)"
      using remove_order_Some [OF os'(1)] by blast
    then show ?thesis using eq os'(2)
      by (intro exI [of _ "map (Pair (pl_Price l)) xs"] exI [of _ "map (Pair (pl_Price l)) ys @ flatten ls"])
        (auto simp: queue_ids_def)
  qed
qed

lemma cancel_side_ok:
  "cancel_side oid ls = Some (p, r, ls') \<Longrightarrow> \<forall>l \<in> set ls. level_ok bid l \<Longrightarrow>
   (\<forall>l \<in> set ls'. level_ok bid l) \<and> set (map pl_Price ls') \<subseteq> set (map pl_Price ls) \<and>
   (sorted_wrt R (map pl_Price ls) \<longrightarrow> sorted_wrt R (map pl_Price ls'))"
proof (induction ls arbitrary: ls')
  case Nil
  then show ?case by simp
next
  case (Cons l ls)
  show ?case
  proof (cases "removeFromLevel l oid")
    case None
    then obtain ls1 where c: "cancel_side oid ls = Some (p, r, ls1)" "ls' = l # ls1"
      using Cons.prems by auto
    then show ?thesis using Cons.IH [OF c(1)] Cons.prems(2) by auto
  next
    case (Some a)
    then obtain o1 os' where os': "remove_order oid (pl_Orders l) = Some (o1, os')" "a = (o1, l\<lparr>pl_Orders := os'\<rparr>)"
      by (auto simp: removeFromLevel_def)
    have "set os' \<subseteq> set (pl_Orders l)" using remove_order_Some [OF os'(1)] by auto
    then have "os' \<noteq> [] \<Longrightarrow> level_ok bid (l\<lparr>pl_Orders := os'\<rparr>)"
      using Cons.prems(2) by (auto simp: level_ok_def)
    then show ?thesis using Cons.prems Some os' by (auto split: if_splits)
  qed
qed

end
