(* ===== verification/Book_Properties.thy ===== *)
theory Book_Properties
  imports Book_Invariant
begin

text \<open>
  The properties of the order book of internal/engine/book.go, over whole books: \<open>Match\<close> refines
  price-time priority on the flattened sides, keeps the book sorted and uncrossed, respects the
  limit of the incoming order, conserves quantity, and \<open>Cancel\<close> removes one order.
\<close>

subsection \<open>Matching as a refinement of the flat queue\<close>

lemma matchBuy_flat:
  assumes ok: "sides_ok ob" and inc: "order_ok o1" and m: "matchBuy now ob o1 = (ts, o2, ob')"
  shows "flat_match crosses_ask mk_trade (ob_Symbol ob) now 0 o1 (flatten (ob_Asks ob)) = (o2, flatten (ob_Asks ob'), ts)"
    and "flatten (ob_Bids ob') =
           (if positive (eo_Remaining o2) then queue_insert better_bid o2 (flatten (ob_Bids ob)) else flatten (ob_Bids ob))"
    and "ob_Symbol ob' = ob_Symbol ob"
    and "eo_Price o2 = eo_Price o1" and "eo_ID o2 = eo_ID o1" and "incoming_ok o2"
proof -
  obtain b as ts' where sw: "match_asks (ob_Symbol ob) now 0 o1 (ob_Asks ob) = (b, as, ts')"
    by (metis prod_cases3)
  have lev: "\<forall>l \<in> set (ob_Asks ob). level_ok False l" "incoming_ok o1"
    using ok inc by (auto simp: sides_ok_def order_ok_def)
  note sl = buys.sweep_levels [OF lev sw]
  have m': "o2 = b" "ts = ts'" "ob' = (if positive (eo_Remaining b) then addBid (ob\<lparr>ob_Asks := as\<rparr>) b else ob\<lparr>ob_Asks := as\<rparr>)"
    using m sw by (auto simp: matchBuy_def Let_def)
  show "flat_match crosses_ask mk_trade (ob_Symbol ob) now 0 o1 (flatten (ob_Asks ob)) = (o2, flatten (ob_Asks ob'), ts)"
    using buys.sweep_flat [OF lev sw] m' by (simp add: addBid_def)
  have "flatten (bid_levels b (ob_Bids ob)) = queue_insert better_bid b (flatten (ob_Bids ob))"
    using ok inc sl by (intro bids.ins_flatten) (auto simp: sides_ok_def order_ok_def)
  then show "flatten (ob_Bids ob') =
      (if positive (eo_Remaining o2) then queue_insert better_bid o2 (flatten (ob_Bids ob)) else flatten (ob_Bids ob))"
    using m' by (simp add: addBid_def)
  show "ob_Symbol ob' = ob_Symbol ob" using m' by (simp add: addBid_def)
  show "eo_Price o2 = eo_Price o1" "eo_ID o2 = eo_ID o1" "incoming_ok o2" using sl m' by auto
qed

lemma matchSell_flat:
  assumes ok: "sides_ok ob" and inc: "order_ok o1" and m: "matchSell now ob o1 = (ts, o2, ob')"
  shows "flat_match crosses_bid trade_of_sell (ob_Symbol ob) now 0 o1 (flatten (ob_Bids ob)) = (o2, flatten (ob_Bids ob'), ts)"
    and "flatten (ob_Asks ob') =
           (if positive (eo_Remaining o2) then queue_insert better_ask o2 (flatten (ob_Asks ob)) else flatten (ob_Asks ob))"
    and "ob_Symbol ob' = ob_Symbol ob"
    and "eo_Price o2 = eo_Price o1" and "eo_ID o2 = eo_ID o1" and "incoming_ok o2"
proof -
  obtain s bs ts' where sw: "match_bids (ob_Symbol ob) now 0 o1 (ob_Bids ob) = (s, bs, ts')"
    by (metis prod_cases3)
  have lev: "\<forall>l \<in> set (ob_Bids ob). level_ok True l" "incoming_ok o1"
    using ok inc by (auto simp: sides_ok_def order_ok_def)
  note sl = sells.sweep_levels [OF lev sw]
  have m': "o2 = s" "ts = ts'" "ob' = (if positive (eo_Remaining s) then addAsk (ob\<lparr>ob_Bids := bs\<rparr>) s else ob\<lparr>ob_Bids := bs\<rparr>)"
    using m sw by (auto simp: matchSell_def Let_def)
  show "flat_match crosses_bid trade_of_sell (ob_Symbol ob) now 0 o1 (flatten (ob_Bids ob)) = (o2, flatten (ob_Bids ob'), ts)"
    using sells.sweep_flat [OF lev sw] m' by (simp add: addAsk_def)
  have "flatten (ask_levels s (ob_Asks ob)) = queue_insert better_ask s (flatten (ob_Asks ob))"
    using ok inc sl by (intro asks.ins_flatten) (auto simp: sides_ok_def order_ok_def)
  then show "flatten (ob_Asks ob') =
      (if positive (eo_Remaining o2) then queue_insert better_ask o2 (flatten (ob_Asks ob)) else flatten (ob_Asks ob))"
    using m' by (simp add: addAsk_def)
  show "ob_Symbol ob' = ob_Symbol ob" using m' by (simp add: addAsk_def)
  show "eo_Price o2 = eo_Price o1" "eo_ID o2 = eo_ID o1" "incoming_ok o2" using sl m' by auto
qed

text \<open>The queue an incoming order is matched against, and the one its remainder joins.\<close>

definition opposite_queue :: "eorder \<Rightarrow> order_book \<Rightarrow> queue" where
  "opposite_queue o1 ob = flatten (if eo_Side o1 = SideBuy then ob_Asks ob else ob_Bids ob)"

definition own_queue :: "eorder \<Rightarrow> order_book \<Rightarrow> queue" where
  "own_queue o1 ob = flatten (if eo_Side o1 = SideBuy then ob_Bids ob else ob_Asks ob)"

definition beyond_limit :: "string \<Rightarrow> f64 \<Rightarrow> f64 \<Rightarrow> bool" where
  "beyond_limit side = (if side = SideBuy then crosses_ask else crosses_bid)"

definition trade_of :: "string \<Rightarrow> string \<Rightarrow> eorder \<Rightarrow> eorder \<Rightarrow> f64 \<Rightarrow> f64 \<Rightarrow> gotime \<Rightarrow> etrade" where
  "trade_of side = (if side = SideBuy then mk_trade else trade_of_sell)"

definition better_price :: "string \<Rightarrow> f64 \<Rightarrow> f64 \<Rightarrow> bool" where
  "better_price side = (if side = SideBuy then better_bid else better_ask)"

definition maker_id :: "string \<Rightarrow> etrade \<Rightarrow> string" where
  "maker_id side t = (if side = SideBuy then et_SellOrderID t else et_BuyOrderID t)"

definition taker_id :: "string \<Rightarrow> etrade \<Rightarrow> string" where
  "taker_id side t = (if side = SideBuy then et_BuyOrderID t else et_SellOrderID t)"

lemmas side_defs = opposite_queue_def own_queue_def beyond_limit_def trade_of_def better_price_def
  maker_id_def taker_id_def

lemma maker_id_side: "maker_id SideBuy = et_SellOrderID" "side \<noteq> SideBuy \<Longrightarrow> maker_id side = et_BuyOrderID"
  "taker_id SideBuy = et_BuyOrderID" "side \<noteq> SideBuy \<Longrightarrow> taker_id side = et_SellOrderID"
  by (auto simp: maker_id_def taker_id_def fun_eq_iff)

lemma Match_flat:
  assumes "sides_ok ob" and "order_ok o1" and "Match now ob o1 = (ts, o2, ob')"
  shows "flat_match (beyond_limit (eo_Side o1)) (trade_of (eo_Side o1)) (ob_Symbol ob) now 0 o1 (opposite_queue o1 ob)
           = (o2, opposite_queue o1 ob', ts)"
    and "own_queue o1 ob' =
           (if positive (eo_Remaining o2) then queue_insert (better_price (eo_Side o1)) o2 (own_queue o1 ob)
            else own_queue o1 ob)"
  using matchBuy_flat [OF assms(1,2), of now ts o2 ob'] matchSell_flat [OF assms(1,2), of now ts o2 ob'] assms(3)
  by (auto simp: Match_def side_defs split: if_splits)

lemma level_flatten:
  assumes "\<forall>l \<in> set ls. level_ok bid l" and "(p, r) \<in> set (flatten ls)"
  shows "resting_ok r" and "eo_Price r = p" and "finite_f64 p" and "eo_Side r = SideBuy \<longleftrightarrow> bid"
  using assms by (fastforce simp: flatten_def level_ok_def)+

lemma opposite_resting:
  assumes "sides_ok ob"
  shows "\<forall>(p, r) \<in> set (opposite_queue o1 ob). resting_ok r"
  using assms level_flatten(1) by (auto simp: sides_ok_def side_defs)

lemma Match_ok:
  assumes "sides_ok ob" and "order_ok o1" and "Match now ob o1 = (ts, o2, ob')"
  shows "sides_ok ob'" and "uncrossed ob \<Longrightarrow> uncrossed ob'" and "ob_Symbol ob' = ob_Symbol ob"
  using assms matchBuy_ok [of ob o1 now ts o2 ob'] matchSell_ok [of ob o1 now ts o2 ob']
    matchBuy_flat(3) [of ob o1 now ts o2 ob'] matchSell_flat(3) [of ob o1 now ts o2 ob']
  by (auto simp: Match_def split: if_splits)

lemma Match_symbols:
  assumes "sides_ok ob" and "order_ok o1" and "Match now ob o1 = (ts, o2, ob')"
  shows "\<forall>t \<in> set ts. et_Symbol t = ob_Symbol ob"
proof -
  have inc: "incoming_ok o1" using assms(2) by (simp add: order_ok_def)
  note q = opposite_resting [OF assms(1), of o1]
  show ?thesis
    using buys.flat_trades [OF q inc, of "ob_Symbol ob" now 0 o2 "opposite_queue o1 ob'" ts]
      sells.flat_trades [OF q inc, of "ob_Symbol ob" now 0 o2 "opposite_queue o1 ob'" ts] Match_flat(1) [OF assms]
    by (auto simp: beyond_limit_def trade_of_def split: if_splits)
qed

text \<open>Cancelling keeps a side, and the invariant of the book.\<close>

lemma Cancel_ok:
  assumes "sides_ok ob" and "Cancel ob oid = (res, ob')"
  shows "sides_ok ob'" and "uncrossed ob \<Longrightarrow> uncrossed ob'" and "ob_Symbol ob' = ob_Symbol ob"
proof -
  have lev: "\<forall>l \<in> set (ob_Bids ob). level_ok True l" "\<forall>l \<in> set (ob_Asks ob). level_ok False l"
    using assms(1) by (simp_all add: sides_ok_def)
  show "sides_ok ob'" "uncrossed ob \<Longrightarrow> uncrossed ob'" "ob_Symbol ob' = ob_Symbol ob"
    using assms cancel_side_ok [OF _ lev(1), of oid _ _ _ better_bid] cancel_side_ok [OF _ lev(2), of oid _ _ _ better_ask]
    unfolding sides_ok_def uncrossed_prices Cancel_def
    by (fastforce split: option.splits)+
qed

subsection \<open>A concrete book for the witnesses\<close>

definition ex_order :: "string \<Rightarrow> string \<Rightarrow> int \<Rightarrow> int \<Rightarrow> eorder" where
  "ex_order oid side p q =
     \<lparr>eo_ID = oid, eo_UserID = ''u'' @ oid, eo_Symbol = ''BTCUSDT'', eo_Side = side, eo_Price = FFin p,
      eo_Quantity = FFin q, eo_Remaining = FFin q, eo_Timestamp = 0\<rparr>"

definition ex_book :: order_book where
  "ex_book =
     \<lparr>ob_Symbol = ''BTCUSDT'',
      ob_Bids = [\<lparr>pl_Price = FFin 9, pl_Orders = [ex_order ''b1'' SideBuy 9 4, ex_order ''b2'' SideBuy 9 1]\<rparr>],
      ob_Asks = [\<lparr>pl_Price = FFin 10, pl_Orders = [ex_order ''a1'' SideSell 10 2, ex_order ''a2'' SideSell 10 3]\<rparr>,
                 \<lparr>pl_Price = FFin 12, pl_Orders = [ex_order ''a3'' SideSell 12 5]\<rparr>]\<rparr>"

lemma f64_overflow_big: "k < 2 ^ 53 \<Longrightarrow> k < f64_overflow"
proof -
  assume "k < 2 ^ 53"
  also have "(2::int) ^ 53 \<le> 2 ^ 2098" by (rule power_increasing) simp_all
  finally show ?thesis by (simp add: f64_overflow_def)
qed

lemma small_f64 [simp]: "0 \<le> k \<Longrightarrow> k < 9007199254740992 \<Longrightarrow> is_f64 (FFin k)"
  using f64_overflow_big [of k] by (simp add: round53_small)

lemma mk_small: "0 \<le> k \<Longrightarrow> k < 9007199254740992 \<Longrightarrow> mk_f64 k 1 = FFin k"
  using f64_overflow_big [of k] by (simp add: mk_f64_def Let_def round53_small sgn_if)

lemma ex_order_ok [simp]: "0 \<le> q \<Longrightarrow> q < 9007199254740992 \<Longrightarrow> order_ok (ex_order oid side p q)"
  by (simp add: order_ok_def incoming_ok_def ex_order_def fle_def del: is_f64.simps) linarith

lemma ex_book_ok: "book_ok ex_book"
  by (simp add: book_ok_def sides_ok_def uncrossed_def ex_book_def level_ok_def resting_ok_def ex_order_def
      better_bid_def better_ask_def SideBuy_def SideSell_def del: is_f64.simps)

subsection \<open>Properties\<close>

text \<open>
  C1. Price-time priority: on a well-formed book, \<open>Match\<close> of any acceptable order does exactly what
  the reference matcher does on the flattened opposite side (best price first, oldest first within
  a price), and what is left of the order joins its own side behind every better or equal price.
\<close>
theorem Match_price_time:
  assumes "sides_ok ob" and "order_ok o1" and "Match now ob o1 = (ts, o2, ob')"
  shows "flat_match (beyond_limit (eo_Side o1)) (trade_of (eo_Side o1)) (ob_Symbol ob) now 0 o1 (opposite_queue o1 ob)
           = (o2, opposite_queue o1 ob', ts)
       \<and> own_queue o1 ob' =
           (if positive (eo_Remaining o2) then queue_insert (better_price (eo_Side o1)) o2 (own_queue o1 ob)
            else own_queue o1 ob)"
  using Match_flat [OF assms] by blast

lemma ex_match:
  "Match (\<lambda>n. int n) ex_book (ex_order ''x'' SideBuy 11 6) =
     ([mk_trade ''BTCUSDT'' (ex_order ''x'' SideBuy 11 6) (ex_order ''a1'' SideSell 10 2) (FFin 10) (FFin 2) 0,
       mk_trade ''BTCUSDT'' (ex_order ''x'' SideBuy 11 6) (ex_order ''a2'' SideSell 10 3) (FFin 10) (FFin 3) 1],
      (ex_order ''x'' SideBuy 11 6)\<lparr>eo_Remaining := FFin 1\<rparr>,
      \<lparr>ob_Symbol = ''BTCUSDT'',
       ob_Bids = [\<lparr>pl_Price = FFin 11, pl_Orders = [(ex_order ''x'' SideBuy 11 6)\<lparr>eo_Remaining := FFin 1\<rparr>]\<rparr>,
                  \<lparr>pl_Price = FFin 9, pl_Orders = [ex_order ''b1'' SideBuy 9 4, ex_order ''b2'' SideBuy 9 1]\<rparr>],
       ob_Asks = [\<lparr>pl_Price = FFin 12, pl_Orders = [ex_order ''a3'' SideSell 12 5]\<rparr>]\<rparr>)"
  by (simp add: Match_def matchBuy_def ex_book_def ex_order_def match_asks.simps(2) fill_buy.simps(2) fmin_def
      take_qty_def mk_trade_def addBid_def new_level_def SideBuy_def SideSell_def Let_def mk_small)

lemma Match_price_time_witness:
  "flat_match (beyond_limit SideBuy) (trade_of SideBuy) ''BTCUSDT'' (\<lambda>n. int n) 0 (ex_order ''x'' SideBuy 11 6)
     (opposite_queue (ex_order ''x'' SideBuy 11 6) ex_book) =
   ((ex_order ''x'' SideBuy 11 6)\<lparr>eo_Remaining := FFin 1\<rparr>, [(FFin 12, ex_order ''a3'' SideSell 12 5)],
    [mk_trade ''BTCUSDT'' (ex_order ''x'' SideBuy 11 6) (ex_order ''a1'' SideSell 10 2) (FFin 10) (FFin 2) 0,
     mk_trade ''BTCUSDT'' (ex_order ''x'' SideBuy 11 6) (ex_order ''a2'' SideSell 10 3) (FFin 10) (FFin 3) 1])"
  using Match_price_time [OF conjunct1 [OF ex_book_ok [unfolded book_ok_def]] _ ex_match]
  by (simp add: opposite_queue_def) (simp add: ex_book_def ex_order_def)

text \<open>
  \<open>Match\<close> keeps the invariant of a book: each side strictly sorted with the best price first,
  no empty level, every resting order at its level's price with a positive quantity, and the best
  bid below the best ask.
\<close>
theorem Match_keeps_book_ok:
  assumes "book_ok ob" and "order_ok o1" and "Match now ob o1 = (ts, o2, ob')"
  shows "book_ok ob'"
  using assms Match_ok [OF _ assms(2,3)] by (simp add: book_ok_def)

lemma Match_keeps_book_ok_witness:
  "book_ok (snd (snd (Match (\<lambda>n. int n) ex_book (ex_order ''x'' SideBuy 11 6))))"
  using Match_keeps_book_ok [OF ex_book_ok _ ex_match] by (simp add: ex_match)

text \<open>
  The trades of a match: there are as many as makers touched, the makers are a prefix of the
  opposite queue in its order, each trade is at its maker's price (never the taker's) and inside the
  taker's limit, with a positive quantity, and every maker but the last is used up completely.
\<close>
theorem Match_trades:
  assumes "sides_ok ob" and "order_ok o1" and "Match now ob o1 = (ts, o2, ob')"
  shows "map (maker_id (eo_Side o1)) ts = map (\<lambda>(p, r). eo_ID r) (take (length ts) (opposite_queue o1 ob))
       \<and> length ts \<le> length (opposite_queue o1 ob)
       \<and> map et_Price ts = map fst (take (length ts) (opposite_queue o1 ob))
       \<and> map et_Timestamp ts = map now [0..<length ts]
       \<and> (\<forall>t \<in> set ts. taker_id (eo_Side o1) t = eo_ID o1 \<and> et_Symbol t = ob_Symbol ob \<and> positive (et_Quantity t)
             \<and> \<not> beyond_limit (eo_Side o1) (eo_Price o1) (et_Price t))
       \<and> map et_Quantity (butlast ts) = map (\<lambda>(p, r). eo_Remaining r) (take (length ts - 1) (opposite_queue o1 ob))"
proof -
  have inc: "incoming_ok o1" using assms(2) by (simp add: order_ok_def)
  note fl = Match_flat(1) [OF assms]
  note q = opposite_resting [OF assms(1), of o1]
  show ?thesis
  proof (cases "eo_Side o1 = SideBuy")
    case True
    then show ?thesis
      using buys.flat_trades [OF q inc, of "ob_Symbol ob" now 0 o2 "opposite_queue o1 ob'" ts] fl
      by (simp add: beyond_limit_def trade_of_def maker_id_side)
  next
    case False
    then show ?thesis
      using sells.flat_trades [OF q inc, of "ob_Symbol ob" now 0 o2 "opposite_queue o1 ob'" ts] fl
      by (simp add: beyond_limit_def trade_of_def maker_id_side)
  qed
qed

lemma Match_trades_witness:
  "map et_SellOrderID (fst (Match (\<lambda>n. int n) ex_book (ex_order ''x'' SideBuy 11 6))) = [''a1'', ''a2'']"
  using Match_trades [OF conjunct1 [OF ex_book_ok [unfolded book_ok_def]] _ ex_match]
  by (simp add: ex_match) (simp add: maker_id_def opposite_queue_def ex_book_def ex_order_def)

definition book_units :: "order_book \<Rightarrow> int" where
  "book_units ob = queue_units (flatten (ob_Bids ob)) + queue_units (flatten (ob_Asks ob))"

definition book_on_grid :: "nat \<Rightarrow> order_book \<Rightarrow> bool" where
  "book_on_grid g ob \<longleftrightarrow> (\<forall>(p, r) \<in> set (flatten (ob_Bids ob) @ flatten (ob_Asks ob)). on_grid g (eo_Remaining r))"

lemma book_units_side:
  "book_units ob = queue_units (own_queue o1 ob) + queue_units (opposite_queue o1 ob)"
  by (simp add: book_units_def side_defs)

lemma trade_of_qty: "et_Quantity (trade_of side sy inc r p q t) = q"
  by (simp add: trade_of_def mk_trade_def trade_of_sell_def)

lemma incoming_ok_units: "incoming_ok r \<Longrightarrow> \<not> positive (eo_Remaining r) \<Longrightarrow> f_units (eo_Remaining r) = 0"
  by (elim incoming_okE) simp

lemma Match_units:
  assumes ok: "sides_ok ob" and o1: "order_ok o1" and m: "Match now ob o1 = (ts, o2, ob')"
    and g: "book_on_grid g ob" "on_grid g (eo_Remaining o1)"
  shows "book_units ob + f_units (eo_Remaining o1) = book_units ob' + 2 * trade_units ts
       \<and> f_units (eo_Remaining o1) = f_units (eo_Remaining o2) + trade_units ts"
proof -
  have gq: "\<forall>(p, r) \<in> set (opposite_queue o1 ob). on_grid g (eo_Remaining r) \<and> positive (eo_Remaining r)"
    using opposite_resting [OF ok, of o1] g(1)
    by (auto simp: book_on_grid_def resting_ok_def opposite_queue_def split: if_splits)
  note con = flat_conserves [OF trade_of_qty gq g(2) Match_flat(1) [OF ok o1 m]]
  have o2: "incoming_ok o2"
    using matchBuy_flat(6) [OF ok o1] matchSell_flat(6) [OF ok o1] m by (auto simp: Match_def split: if_splits)
  have "queue_units (own_queue o1 ob') = f_units (eo_Remaining o2) + queue_units (own_queue o1 ob)"
    using Match_flat(2) [OF ok o1 m] incoming_ok_units [OF o2] by (simp add: queue_units_insert)
  then show ?thesis using con by (simp add: book_units_side [of _ o1])
qed

text \<open>
  C35. Conservation: when every quantity is a multiple of a common \<open>2^g\<close> units of the last place of
  float64 and at most \<open>2^53\<close> of them (so that subtraction is exact), what rests on the book after
  \<open>Match\<close> plus twice what traded is what rested before plus what came in: no quantity is created or
  lost, and each trade takes the same quantity from both orders.
\<close>
theorem Match_conserves:
  assumes ok: "sides_ok ob" and o1: "order_ok o1" and m: "Match now ob o1 = (ts, o2, ob')"
    and g: "book_on_grid g ob" "on_grid g (eo_Remaining o1)"
  shows "book_units ob + f_units (eo_Remaining o1) = book_units ob' + 2 * trade_units ts
       \<and> f_units (eo_Remaining o1) = f_units (eo_Remaining o2) + trade_units ts"
  by (rule Match_units [OF assms])

lemma Match_conserves_witness:
  "trade_units (fst (Match (\<lambda>n. int n) ex_book (ex_order ''x'' SideBuy 11 6))) = 5"
proof -
  have "book_on_grid 0 ex_book"
    using f64_overflow_big [of 5] by (simp add: book_on_grid_def ex_book_def ex_order_def)
  moreover have "on_grid 0 (eo_Remaining (ex_order ''x'' SideBuy 11 6))"
    using f64_overflow_big [of 6] by (simp add: ex_order_def)
  ultimately show ?thesis
    using conjunct2 [OF Match_conserves [OF conjunct1 [OF ex_book_ok [unfolded book_ok_def]] _ ex_match, of 0]]
    by (simp add: ex_match) (simp add: ex_order_def mk_trade_def)
qed

definition queue_drop :: "string \<Rightarrow> queue \<Rightarrow> queue \<Rightarrow> f64 \<Rightarrow> f64 \<Rightarrow> bool" where
  "queue_drop oid q q' p rem \<longleftrightarrow>
     (\<exists>xs r ys. q = xs @ (p, r) # ys \<and> q' = xs @ ys \<and> eo_ID r = oid \<and> eo_Remaining r = rem \<and> oid \<notin> set (queue_ids xs))"

lemma Cancel_removed:
  assumes ok: "book_ok ob" and c: "Cancel ob oid = (res, ob')"
  shows "book_ok ob' \<and>
    (case res of
       None \<Rightarrow> ob' = ob \<and> oid \<notin> set (queue_ids (flatten (ob_Bids ob) @ flatten (ob_Asks ob)))
     | Some cr \<Rightarrow>
         if oid \<in> set (queue_ids (flatten (ob_Bids ob)))
         then cr_Side cr = SideBuy \<and> ob_Asks ob' = ob_Asks ob
              \<and> queue_drop oid (flatten (ob_Bids ob)) (flatten (ob_Bids ob')) (cr_Price cr) (cr_Remaining cr)
         else cr_Side cr = SideSell \<and> ob_Bids ob' = ob_Bids ob
              \<and> queue_drop oid (flatten (ob_Asks ob)) (flatten (ob_Asks ob')) (cr_Price cr) (cr_Remaining cr))"
proof (cases "cancel_side oid (ob_Bids ob)")
  have book: "book_ok ob'" using ok Cancel_ok [OF _ c] by (simp add: book_ok_def)
  case (Some x)
  obtain p r ls where x: "x = (p, r, ls)" by (metis prod_cases3)
  note cs = cancel_side_Some [OF Some [unfolded x]]
  have eqs: "res = Some \<lparr>cr_Side = SideBuy, cr_Price = p, cr_Remaining = eo_Remaining r\<rparr>" "ob' = ob\<lparr>ob_Bids := ls\<rparr>"
    using c Some x by (auto simp: Cancel_def)
  have "oid \<in> set (queue_ids (flatten (ob_Bids ob)))" using Some cancel_side_None [of oid "ob_Bids ob"] by auto
  moreover have "queue_drop oid (flatten (ob_Bids ob)) (flatten ls) p (eo_Remaining r)"
    using cs by (auto simp: queue_drop_def)
  ultimately show ?thesis using eqs book by simp
next
  have book: "book_ok ob'" using ok Cancel_ok [OF _ c] by (simp add: book_ok_def)
  case None
  note nb = None [unfolded cancel_side_None]
  show ?thesis
  proof (cases "cancel_side oid (ob_Asks ob)")
    case (Some x)
    obtain p r ls where x: "x = (p, r, ls)" by (metis prod_cases3)
    note cs = cancel_side_Some [OF Some [unfolded x]]
    have eqs: "res = Some \<lparr>cr_Side = SideSell, cr_Price = p, cr_Remaining = eo_Remaining r\<rparr>" "ob' = ob\<lparr>ob_Asks := ls\<rparr>"
      using c None Some x by (auto simp: Cancel_def)
    have "queue_drop oid (flatten (ob_Asks ob)) (flatten ls) p (eo_Remaining r)"
      using cs by (auto simp: queue_drop_def)
    then show ?thesis using eqs nb book by simp
  next
    case none: None
    then have "res = None" "ob' = ob" using c None by (auto simp: Cancel_def)
    then show ?thesis using ok nb none [unfolded cancel_side_None] by (simp add: queue_ids_def)
  qed
qed

text \<open>
  \<open>Cancel\<close> keeps the book's invariant and removes exactly the first resting order with the given
  ID, bids before asks: the result reports its side, price and remaining quantity, the other orders
  keep their places, and with no such order the result is \<open>nil\<close> and the book is untouched.
\<close>
theorem Cancel_removes:
  assumes ok: "book_ok ob" and c: "Cancel ob oid = (res, ob')"
  shows "book_ok ob' \<and>
    (case res of
       None \<Rightarrow> ob' = ob \<and> oid \<notin> set (queue_ids (flatten (ob_Bids ob) @ flatten (ob_Asks ob)))
     | Some cr \<Rightarrow>
         if oid \<in> set (queue_ids (flatten (ob_Bids ob)))
         then cr_Side cr = SideBuy \<and> ob_Asks ob' = ob_Asks ob
              \<and> queue_drop oid (flatten (ob_Bids ob)) (flatten (ob_Bids ob')) (cr_Price cr) (cr_Remaining cr)
         else cr_Side cr = SideSell \<and> ob_Bids ob' = ob_Bids ob
              \<and> queue_drop oid (flatten (ob_Asks ob)) (flatten (ob_Asks ob')) (cr_Price cr) (cr_Remaining cr))"
  by (rule Cancel_removed [OF ok c])

lemma Cancel_removes_witness:
  "book_ok (snd (Cancel ex_book ''a2'')) \<and>
   fst (Cancel ex_book ''a2'') = Some \<lparr>cr_Side = SideSell, cr_Price = FFin 10, cr_Remaining = FFin 3\<rparr>"
proof -
  have eval: "fst (Cancel ex_book ''a2'') = Some \<lparr>cr_Side = SideSell, cr_Price = FFin 10, cr_Remaining = FFin 3\<rparr>"
    by (simp add: Cancel_def ex_book_def ex_order_def removeFromLevel_def)
  then show ?thesis using Cancel_removes [OF ex_book_ok, of "''a2''"] by (metis prod.collapse)
qed

text \<open>
  An incoming order whose remaining quantity is not positive, a NaN included, makes no trade,
  rests nowhere and leaves every book as it was.
\<close>
theorem Match_without_quantity:
  assumes "\<not> positive (eo_Remaining o1)"
  shows "Match now ob o1 = ([], o1, ob)"
  using assms by (cases "ob_Asks ob"; cases "ob_Bids ob")
    (simp_all add: Match_def matchBuy_def matchSell_def match_asks.simps(2) match_bids.simps(2) Let_def)

lemma Match_without_quantity_witness:
  "Match (\<lambda>n. 0) ex_book ((ex_order ''x'' SideBuy 11 6)\<lparr>eo_Remaining := FNaN\<rparr>) =
     ([], (ex_order ''x'' SideBuy 11 6)\<lparr>eo_Remaining := FNaN\<rparr>, ex_book)"
  by (rule Match_without_quantity) simp

end
