(* ===== verification/Eventbus.thy ===== *)
theory Eventbus
  imports Float64
begin

text \<open>
  internal/eventbus: the events of the engine and the bus that hands them to subscribers. A handler is
  whatever name the model gives it (type \<open>'h\<close>). \<open>Publish\<close> starts one goroutine per subscriber and
  returns, so it is modelled by the list of the goroutines started; they may run in any order.
\<close>

definition EventTypeOrderRested :: string where "EventTypeOrderRested = ''ORDER_RESTED''"
definition EventTypeOrderCancelled :: string where "EventTypeOrderCancelled = ''ORDER_CANCELLED''"
definition EventTypeTradeMatched :: string where "EventTypeTradeMatched = ''TRADE_MATCHED''"

record order_rested =
  or_OrderID :: string
  or_UserID :: string
  or_Symbol :: string
  or_Side :: string
  or_Price :: f64
  or_Remaining :: f64
  or_Timestamp :: gotime

record order_cancelled =
  oc_OrderID :: string
  oc_Symbol :: string
  oc_Side :: string
  oc_Price :: f64
  oc_Remaining :: f64
  oc_Timestamp :: gotime

record trade_matched =
  tm_Seq :: nat
  tm_Symbol :: string
  tm_BuyOrderID :: string
  tm_SellOrderID :: string
  tm_BuyUserID :: string
  tm_SellUserID :: string
  tm_Price :: f64
  tm_Quantity :: f64
  tm_Timestamp :: gotime

datatype event =
    OrderRestedEvent order_rested
  | OrderCancelledEvent order_cancelled
  | TradeMatchedEvent trade_matched

fun event_Type :: "event \<Rightarrow> string" where
  "event_Type (OrderRestedEvent _) = EventTypeOrderRested"
| "event_Type (OrderCancelledEvent _) = EventTypeOrderCancelled"
| "event_Type (TradeMatchedEvent _) = EventTypeTradeMatched"

record 'h bus =
  bus_handlers :: "string \<rightharpoonup> 'h list"

definition Bus_New :: "'h bus" where
  "Bus_New = \<lparr>bus_handlers = (\<lambda>_. None)\<rparr>"

text \<open>Reading a Go map at a missing key gives the empty slice.\<close>

definition handlers_of :: "'h bus \<Rightarrow> string \<Rightarrow> 'h list" where
  "handlers_of b t = (case bus_handlers b t of None \<Rightarrow> [] | Some hs \<Rightarrow> hs)"

definition Subscribe :: "string \<Rightarrow> 'h \<Rightarrow> 'h bus \<Rightarrow> 'h bus" where
  "Subscribe t h b = b\<lparr>bus_handlers := (bus_handlers b)(t \<mapsto> handlers_of b t @ [h])\<rparr>"

definition Publish :: "'h bus \<Rightarrow> event \<Rightarrow> ('h \<times> event) list" where
  "Publish b e = map (\<lambda>h. (h, e)) (handlers_of b (event_Type e))"

text \<open>
  The body of a goroutine: it runs the handler and recovers from a panic, which is logged. A run of
  a handler is \<open>(panicked, state after)\<close>. \<open>run_tasks\<close> runs goroutines in the order of the list.
\<close>

definition run_task :: "('h \<Rightarrow> event \<Rightarrow> 's \<Rightarrow> bool \<times> 's) \<Rightarrow> 'h \<times> event \<Rightarrow> 's \<Rightarrow> 's" where
  "run_task run t s = (case t of (h, e) \<Rightarrow> snd (run h e s))"

definition run_tasks :: "('h \<Rightarrow> event \<Rightarrow> 's \<Rightarrow> bool \<times> 's) \<Rightarrow> ('h \<times> event) list \<Rightarrow> 's \<Rightarrow> 's" where
  "run_tasks run ts s = fold (run_task run) ts s"

definition publish_all :: "'h bus \<Rightarrow> event list \<Rightarrow> ('h \<times> event) list" where
  "publish_all b es = concat (map (Publish b) es)"

lemma handlers_of_New [simp]: "handlers_of Bus_New t = []"
  by (simp add: handlers_of_def Bus_New_def)

lemma handlers_of_Subscribe [simp]:
  "handlers_of (Subscribe t h b) t' = handlers_of b t' @ (if t' = t then [h] else [])"
  by (simp add: handlers_of_def Subscribe_def split: option.splits)

lemma event_types_distinct [simp]:
  "EventTypeOrderRested \<noteq> EventTypeOrderCancelled" "EventTypeOrderRested \<noteq> EventTypeTradeMatched"
  "EventTypeOrderCancelled \<noteq> EventTypeTradeMatched" "EventTypeOrderCancelled \<noteq> EventTypeOrderRested"
  "EventTypeTradeMatched \<noteq> EventTypeOrderRested" "EventTypeTradeMatched \<noteq> EventTypeOrderCancelled"
  by (simp_all add: EventTypeOrderRested_def EventTypeOrderCancelled_def EventTypeTradeMatched_def)

lemma publish_all_append [simp]: "publish_all b (es @ es') = publish_all b es @ publish_all b es'"
  by (simp add: publish_all_def)

text \<open>
  Every subscriber of an event's type gets the event once, in the order of subscription among the
  goroutines started, and nobody else gets it.
\<close>

lemma Publish_Subscribe:
  "Publish (Subscribe t h b) e = Publish b e @ (if event_Type e = t then [(h, e)] else [])"
  by (simp add: Publish_def)

text \<open>A panic in a handler is the same, for what the other handlers see, as a normal return.\<close>

lemma run_tasks_panic:
  assumes "\<And>h e s. snd (run h e s) = snd (run' h e s)"
  shows "run_tasks run ts s = run_tasks run' ts s"
proof -
  have "run_task run = run_task run'" using assms by (auto simp: run_task_def fun_eq_iff)
  then show ?thesis by (simp add: run_tasks_def)
qed

end
