(* ===== verification/Engine.thy ===== *)
theory Engine
  imports Book_Properties Eventbus Shared
begin

text \<open>
  internal/engine/engine.go: one order book per symbol, each owned by a worker fed by a bounded FIFO
  channel. The workers interleave freely (\<open>engine_step\<close>); what they publish is kept in a log in the
  order of the calls to \<open>Publish\<close>.
\<close>

subsection \<open>State\<close>

record cancel_info =
  ci_OrderID :: string
  ci_Symbol :: string

definition CommandPlaceOrder :: int where "CommandPlaceOrder = 0"
definition CommandCancelOrder :: int where "CommandCancelOrder = 1"

record command =
  cmd_Kind :: int
  cmd_Order :: "eorder option"
  cmd_Cancel :: "cancel_info option"

text \<open>A shard; \<open>sh_seq\<close> is the counter local to the shard's worker.\<close>

record shard =
  sh_book :: order_book
  sh_cmdCh :: "command list"
  sh_cap :: nat
  sh_seq :: nat

record engine =
  eng_shards :: "string \<rightharpoonup> shard"
  eng_started :: bool

definition ErrSubmitChannelFull :: gerr where
  "ErrSubmitChannelFull = Opaque ''engine submit channel full''"

definition ErrUnknownSymbol :: gerr where
  "ErrUnknownSymbol = Opaque ''engine unknown symbol''"

subsection \<open>Operations\<close>

definition Engine_New :: "string list \<Rightarrow> int \<Rightarrow> engine" where
  "Engine_New symbols bufferSize =
     (let bufferSize = (if bufferSize \<le> 0 then 1024 else bufferSize) in
      \<lparr>eng_shards = (\<lambda>sy. if sy \<in> set symbols
         then Some \<lparr>sh_book = NewOrderBook sy, sh_cmdCh = [], sh_cap = nat bufferSize, sh_seq = 0\<rparr> else None),
       eng_started = False\<rparr>)"

definition LoadOrder :: "engine \<Rightarrow> eorder \<Rightarrow> engine" where
  "LoadOrder e o1 =
     (if eng_started e then e
      else case eng_shards e (eo_Symbol o1) of
        None \<Rightarrow> e
      | Some sh \<Rightarrow>
          let book = (if eo_Side o1 = SideBuy then addBid (sh_book sh) o1 else addAsk (sh_book sh) o1)
          in e\<lparr>eng_shards := (eng_shards e)(eo_Symbol o1 \<mapsto> sh\<lparr>sh_book := book\<rparr>)\<rparr>)"

definition commandSymbol :: "command \<Rightarrow> string" where
  "commandSymbol cmd =
     (if cmd_Kind cmd = CommandPlaceOrder then
        (case cmd_Order cmd of Some o1 \<Rightarrow> eo_Symbol o1 | None \<Rightarrow> [])
      else if cmd_Kind cmd = CommandCancelOrder then
        (case cmd_Cancel cmd of Some c \<Rightarrow> ci_Symbol c | None \<Rightarrow> [])
      else [])"

definition Submit :: "engine \<Rightarrow> command \<Rightarrow> gerr option \<times> engine" where
  "Submit e cmd =
     (case eng_shards e (commandSymbol cmd) of
        None \<Rightarrow> (Some ErrUnknownSymbol, e)
      | Some sh \<Rightarrow>
          if length (sh_cmdCh sh) < sh_cap sh
          then (None, e\<lparr>eng_shards := (eng_shards e)(commandSymbol cmd \<mapsto> sh\<lparr>sh_cmdCh := sh_cmdCh sh @ [cmd]\<rparr>)\<rparr>)
          else (Some ErrSubmitChannelFull, e))"

definition Start :: "engine \<Rightarrow> engine" where
  "Start e = e\<lparr>eng_started := True\<rparr>"

fun trade_events :: "nat \<Rightarrow> etrade list \<Rightarrow> event list" where
  "trade_events s [] = []"
| "trade_events s (t # ts) =
     TradeMatchedEvent
       \<lparr>tm_Seq = s + 1, tm_Symbol = et_Symbol t, tm_BuyOrderID = et_BuyOrderID t,
        tm_SellOrderID = et_SellOrderID t, tm_BuyUserID = et_BuyUserID t, tm_SellUserID = et_SellUserID t,
        tm_Price = et_Price t, tm_Quantity = et_Quantity t, tm_Timestamp = et_Timestamp t\<rparr>
     # trade_events (s + 1) ts"

text \<open>The book, the counter and the events published; \<open>now\<close> gives the times read, \<open>t\<close> the last one.\<close>

definition handlePlace ::
  "(nat \<Rightarrow> gotime) \<Rightarrow> gotime \<Rightarrow> order_book \<Rightarrow> nat \<Rightarrow> eorder option \<Rightarrow> order_book \<times> nat \<times> event list" where
  "handlePlace now t book s mo =
     (case mo of
        None \<Rightarrow> (book, s, [])
      | Some o1 \<Rightarrow>
          let (trades, o2, book') = Match now book o1 in
          (book', s + length trades,
           trade_events s trades @
           (if positive (eo_Remaining o2)
            then [OrderRestedEvent \<lparr>or_OrderID = eo_ID o2, or_UserID = eo_UserID o2, or_Symbol = eo_Symbol o2,
                    or_Side = eo_Side o2, or_Price = eo_Price o2, or_Remaining = eo_Remaining o2, or_Timestamp = t\<rparr>]
            else [])))"

definition handleCancel :: "gotime \<Rightarrow> order_book \<Rightarrow> cancel_info option \<Rightarrow> order_book \<times> event list" where
  "handleCancel t book mc =
     (case mc of
        None \<Rightarrow> (book, [])
      | Some c \<Rightarrow>
          (case Cancel book (ci_OrderID c) of
             (None, book') \<Rightarrow> (book', [])
           | (Some res, book') \<Rightarrow>
               (book', [OrderCancelledEvent \<lparr>oc_OrderID = ci_OrderID c, oc_Symbol = ci_Symbol c,
                          oc_Side = cr_Side res, oc_Price = cr_Price res, oc_Remaining = cr_Remaining res,
                          oc_Timestamp = t\<rparr>])))"

definition handle :: "(nat \<Rightarrow> gotime) \<Rightarrow> gotime \<Rightarrow> order_book \<Rightarrow> nat \<Rightarrow> command \<Rightarrow> order_book \<times> nat \<times> event list" where
  "handle now t book s cmd =
     (if cmd_Kind cmd = CommandPlaceOrder then handlePlace now t book s (cmd_Order cmd)
      else if cmd_Kind cmd = CommandCancelOrder
      then (let (book', es) = handleCancel t book (cmd_Cancel cmd) in (book', s, es))
      else (book, s, []))"

text \<open>One iteration of \<open>runWorker\<close> for the shard of \<open>sy\<close>: receive, handle, publish.\<close>

definition runWorker_step ::
  "(nat \<Rightarrow> gotime) \<Rightarrow> gotime \<Rightarrow> string \<Rightarrow> engine \<Rightarrow> (engine \<times> event list) option" where
  "runWorker_step now t sy e =
     (case eng_shards e sy of
        None \<Rightarrow> None
      | Some sh \<Rightarrow>
          (case sh_cmdCh sh of
             [] \<Rightarrow> None
           | cmd # rest \<Rightarrow>
               (let (book', s', es) = handle now t (sh_book sh) (sh_seq sh) cmd in
                Some (e\<lparr>eng_shards := (eng_shards e)(sy \<mapsto> sh\<lparr>sh_book := book', sh_cmdCh := rest, sh_seq := s'\<rparr>)\<rparr>, es))))"

subsection \<open>Interleaved execution\<close>

text \<open>
  A step of the running system: some client submits a command of a set \<open>admit\<close>, or the worker of some
  symbol handles its next command. The log grows at the end. With \<open>any_command\<close> nothing is required
  of what is submitted; \<open>finite_command\<close> are the commands whose order has a finite price and a finite
  remaining quantity, of either sign. The order service submits no other
  (\<open>PlaceOrder_submits\<close> and \<open>CancelOrder_submits\<close> of Submissions).
\<close>

abbreviation any_command :: "command \<Rightarrow> bool" where "any_command \<equiv> (\<lambda>_. True)"

definition finite_order :: "eorder \<Rightarrow> bool" where
  "finite_order o1 \<longleftrightarrow> is_f64 (eo_Remaining o1) \<and> finite_f64 (eo_Remaining o1) \<and> finite_f64 (eo_Price o1)"

fun finite_command :: "command \<Rightarrow> bool" where
  "finite_command cmd = (case cmd_Order cmd of Some o1 \<Rightarrow> finite_order o1 | None \<Rightarrow> True)"

inductive engine_step :: "(command \<Rightarrow> bool) \<Rightarrow> engine \<times> event list \<Rightarrow> engine \<times> event list \<Rightarrow> bool" for admit where
  submit: "admit cmd \<Longrightarrow> engine_step admit (e, lg) (snd (Submit e cmd), lg)"
| work: "eng_started e \<Longrightarrow> runWorker_step now t sy e = Some (e', es) \<Longrightarrow> engine_step admit (e, lg) (e', lg @ es)"

inductive_cases engine_step_cases: "engine_step admit (e, lg) (e', lg')"

inductive engine_reachable :: "(command \<Rightarrow> bool) \<Rightarrow> engine \<times> event list \<Rightarrow> engine \<times> event list \<Rightarrow> bool" for admit c where
  refl: "engine_reachable admit c c"
| step: "engine_reachable admit c c' \<Longrightarrow> engine_step admit c' c'' \<Longrightarrow> engine_reachable admit c c''"

subsection \<open>What a match leaves as it was\<close>

text \<open>The trades of a book are of its symbol, whatever the numbers are.\<close>

lemma fill_buy_symbols: "fill_buy sy now p n buy rs = (b, os, ts) \<Longrightarrow> \<forall>t \<in> set ts. et_Symbol t = sy"
proof (induction sy now p n buy rs arbitrary: b os ts rule: fill_buy.induct)
  case (2 sy now p n buy sell rest)
  show ?case
    using 2(3) 2(1) [OF _ HOL.refl HOL.refl HOL.refl HOL.refl] 2(2) [OF _ HOL.refl HOL.refl HOL.refl HOL.refl]
    unfolding fill_buy.simps(2) [of sy now p n buy sell rest] Let_def
    by (fastforce simp: mk_trade_def split: if_splits prod.splits)
qed simp

lemma fill_sell_symbols: "fill_sell sy now p n sell rs = (s, os, ts) \<Longrightarrow> \<forall>t \<in> set ts. et_Symbol t = sy"
proof (induction sy now p n sell rs arbitrary: s os ts rule: fill_sell.induct)
  case (2 sy now p n sell buy rest)
  show ?case
    using 2(3) 2(1) [OF _ HOL.refl HOL.refl HOL.refl HOL.refl] 2(2) [OF _ HOL.refl HOL.refl HOL.refl HOL.refl]
    unfolding fill_sell.simps(2) [of sy now p n sell buy rest] Let_def
    by (fastforce simp: mk_trade_def split: if_splits prod.splits)
qed simp

lemma match_asks_symbols: "match_asks sy now n buy ls = (b, as, ts) \<Longrightarrow> \<forall>t \<in> set ts. et_Symbol t = sy"
proof (induction sy now n buy ls arbitrary: b as ts rule: match_asks.induct)
  case (2 sy now n buy best rest)
  show ?case
  proof (cases "\<not> positive (eo_Remaining buy) \<or> flt (eo_Price buy) (pl_Price best)")
    case True
    then show ?thesis using 2(3) by (auto simp: match_asks.simps(2) split: if_splits)
  next
    case False
    obtain buy' os ts1 where f: "fill_buy sy now (pl_Price best) n buy (pl_Orders best) = (buy', os, ts1)" by (metis prod_cases3)
    let ?ls = "if os = [] then rest else best\<lparr>pl_Orders := os\<rparr> # rest"
    obtain b2 as2 ts2 where r: "match_asks sy now (n + length ts1) buy' ?ls = (b2, as2, ts2)" by (metis prod_cases3)
    have "ts = ts1 @ ts2" using 2(3) False f r by (auto simp: match_asks.simps(2) split: if_splits)
    moreover have "\<forall>t \<in> set ts2. et_Symbol t = sy"
      using 2(1,2) False f r by (cases "os = []") auto
    ultimately show ?thesis using fill_buy_symbols [OF f] by auto
  qed
qed simp

lemma match_bids_symbols: "match_bids sy now n sell ls = (s, bs, ts) \<Longrightarrow> \<forall>t \<in> set ts. et_Symbol t = sy"
proof (induction sy now n sell ls arbitrary: s bs ts rule: match_bids.induct)
  case (2 sy now n sell best rest)
  show ?case
  proof (cases "\<not> positive (eo_Remaining sell) \<or> flt (pl_Price best) (eo_Price sell)")
    case True
    then show ?thesis using 2(3) by (auto simp: match_bids.simps(2) split: if_splits)
  next
    case False
    obtain sell' os ts1 where f: "fill_sell sy now (pl_Price best) n sell (pl_Orders best) = (sell', os, ts1)" by (metis prod_cases3)
    let ?ls = "if os = [] then rest else best\<lparr>pl_Orders := os\<rparr> # rest"
    obtain s2 bs2 ts2 where r: "match_bids sy now (n + length ts1) sell' ?ls = (s2, bs2, ts2)" by (metis prod_cases3)
    have "ts = ts1 @ ts2" using 2(3) False f r by (auto simp: match_bids.simps(2) split: if_splits)
    moreover have "\<forall>t \<in> set ts2. et_Symbol t = sy"
      using 2(1,2) False f r by (cases "os = []") auto
    ultimately show ?thesis using fill_sell_symbols [OF f] by auto
  qed
qed simp

lemma Match_symbol:
  assumes "Match now ob o1 = (ts, o2, ob')"
  shows "ob_Symbol ob' = ob_Symbol ob" and "\<forall>t \<in> set ts. et_Symbol t = ob_Symbol ob"
  using assms
  by (auto simp: Match_def matchBuy_def matchSell_def addBid_def addAsk_def Let_def split: if_splits prod.splits
      dest: match_asks_symbols match_bids_symbols)

lemma Cancel_symbol: "ob_Symbol (snd (Cancel ob oid)) = ob_Symbol ob"
  by (simp add: Cancel_def split: option.splits)

text \<open>An order with nothing positive to trade, as a negative quantity, is not matched and does not rest.\<close>

lemma Match_idle:
  assumes "\<not> positive (eo_Remaining o1)"
  shows "Match now ob o1 = ([], o1, ob)"
proof -
  have "match_asks (ob_Symbol ob) now 0 o1 (ob_Asks ob) = (o1, ob_Asks ob, [])"
    using assms by (cases "ob_Asks ob") (simp_all add: match_asks.simps(2))
  moreover have "match_bids (ob_Symbol ob) now 0 o1 (ob_Bids ob) = (o1, ob_Bids ob, [])"
    using assms by (cases "ob_Bids ob") (simp_all add: match_bids.simps(2))
  ultimately show ?thesis using assms by (simp add: Match_def matchBuy_def matchSell_def)
qed

lemma finite_order_ok: "finite_order o1 \<Longrightarrow> positive (eo_Remaining o1) \<Longrightarrow> order_ok o1"
  by (auto simp: finite_order_def order_ok_def incoming_ok_def fle_def)

lemma Match_finite:
  assumes "sides_ok ob" and "finite_order o1" and "Match now ob o1 = (ts, o2, ob')"
  shows "sides_ok ob'" and "uncrossed ob \<Longrightarrow> uncrossed ob'"
  using assms Match_idle [of o1 now ob] Match_ok [OF assms(1) finite_order_ok assms(3)]
  by (cases "positive (eo_Remaining o1)"; auto)+

subsection \<open>Invariants\<close>

text \<open>
  What holds of a shard whatever is submitted: its book and its queue are of its symbol, and the queue
  is within its capacity; and what holds as long as the numbers submitted are finite: its book is well-formed.
\<close>

definition shard_routed :: "string \<Rightarrow> shard \<Rightarrow> bool" where
  "shard_routed sy sh \<longleftrightarrow>
     ob_Symbol (sh_book sh) = sy \<and> length (sh_cmdCh sh) \<le> sh_cap sh \<and> (\<forall>cmd \<in> set (sh_cmdCh sh). commandSymbol cmd = sy)"

definition shard_ok :: "string \<Rightarrow> shard \<Rightarrow> bool" where
  "shard_ok sy sh \<longleftrightarrow> shard_routed sy sh \<and> sides_ok (sh_book sh) \<and> (\<forall>cmd \<in> set (sh_cmdCh sh). finite_command cmd)"

definition engine_routed :: "engine \<Rightarrow> bool" where
  "engine_routed e \<longleftrightarrow> (\<forall>sy sh. eng_shards e sy = Some sh \<longrightarrow> shard_routed sy sh)"

definition engine_ok :: "engine \<Rightarrow> bool" where
  "engine_ok e \<longleftrightarrow> (\<forall>sy sh. eng_shards e sy = Some sh \<longrightarrow> shard_ok sy sh)"

lemma engine_ok_routed: "engine_ok e \<Longrightarrow> engine_routed e"
  by (simp add: engine_ok_def engine_routed_def shard_ok_def)

definition books_uncrossed :: "engine \<Rightarrow> bool" where
  "books_uncrossed e \<longleftrightarrow> (\<forall>sy sh. eng_shards e sy = Some sh \<longrightarrow> uncrossed (sh_book sh))"

lemma engine_upd:
  "engine_ok e \<Longrightarrow> shard_ok sy sh \<Longrightarrow> engine_ok (e\<lparr>eng_shards := (eng_shards e)(sy \<mapsto> sh)\<rparr>)"
  "engine_routed e \<Longrightarrow> shard_routed sy sh \<Longrightarrow> engine_routed (e\<lparr>eng_shards := (eng_shards e)(sy \<mapsto> sh)\<rparr>)"
  by (simp_all add: engine_ok_def engine_routed_def)

text \<open>The sequence numbers of the trades of a symbol, in the order of their publication.\<close>

fun trade_seq :: "string \<Rightarrow> event \<Rightarrow> nat list" where
  "trade_seq sy (TradeMatchedEvent t) = (if tm_Symbol t = sy then [tm_Seq t] else [])"
| "trade_seq sy _ = []"

definition trade_seqs :: "string \<Rightarrow> event list \<Rightarrow> nat list" where
  "trade_seqs sy es = concat (map (trade_seq sy) es)"

lemma trade_seqs_simps [simp]:
  "trade_seqs sy [] = []" "trade_seqs sy (e # es) = trade_seq sy e @ trade_seqs sy es"
  "trade_seqs sy (es @ es') = trade_seqs sy es @ trade_seqs sy es'"
  by (simp_all add: trade_seqs_def)

lemma trade_seqs_events:
  "\<forall>t \<in> set ts. et_Symbol t = sy \<Longrightarrow>
   trade_seqs sy' (trade_events s ts) = (if sy' = sy then [s + 1..<s + 1 + length ts] else [])"
proof (induction ts arbitrary: s)
  case Nil
  then show ?case by simp
next
  case (Cons t ts)
  then show ?case by (simp add: upt_conv_Cons del: upt_Suc)
qed

lemma handlePlace_routed:
  assumes h: "handlePlace now t book s mo = (book', s', es)"
  shows "ob_Symbol book' = ob_Symbol book \<and> s \<le> s' \<and> trade_seqs sy es = (if sy = ob_Symbol book then [s + 1..<s' + 1] else [])"
proof (cases mo)
  case None
  then show ?thesis using h by (auto simp: handlePlace_def)
next
  case (Some o1)
  obtain ts o2 bk where m: "Match now book o1 = (ts, o2, bk)" by (metis prod_cases3)
  have "book' = bk" "s' = s + length ts" "trade_seqs sy es = trade_seqs sy (trade_events s ts)"
    using h Some m by (auto simp: handlePlace_def)
  then show ?thesis
    using Match_symbol(1) [OF m] trade_seqs_events [OF Match_symbol(2) [OF m], of sy s] by (simp add: add.commute)
qed

lemma handle_routed:
  assumes "handle now t book s cmd = (book', s', es)"
  shows "ob_Symbol book' = ob_Symbol book" and "s \<le> s'"
    and "trade_seqs sy es = (if sy = ob_Symbol book then [s + 1..<s' + 1] else [])"
proof -
  have c: "handleCancel t book mc = (book1, es1) \<Longrightarrow> ob_Symbol book1 = ob_Symbol book \<and> trade_seqs sy es1 = []" for mc book1 es1
    using Cancel_symbol [of book] by (auto simp: handleCancel_def split: option.splits prod.splits) (metis snd_conv)+
  show "ob_Symbol book' = ob_Symbol book" "s \<le> s'" "trade_seqs sy es = (if sy = ob_Symbol book then [s + 1..<s' + 1] else [])"
    using assms handlePlace_routed [where now = now and t = t and book = book and s = s and book' = book' and s' = s' and es = es] c
    unfolding handle_def by (force split: if_splits prod.splits)+
qed

lemma handle_ok:
  assumes ok: "sides_ok book" and cmd: "finite_command cmd" and h: "handle now t book s cmd = (book', s', es)"
  shows "sides_ok book'" and "uncrossed book \<Longrightarrow> uncrossed book'"
proof -
  have p: "sides_ok book' \<and> (uncrossed book \<longrightarrow> uncrossed book')" if "handlePlace now t book s (cmd_Order cmd) = (book', s', es)"
  proof (cases "cmd_Order cmd")
    case None
    then show ?thesis using that ok by (auto simp: handlePlace_def)
  next
    case (Some o1)
    obtain ts o2 bk where m: "Match now book o1 = (ts, o2, bk)" by (metis prod_cases3)
    have "book' = bk" using that Some m by (auto simp: handlePlace_def)
    then show ?thesis using Match_finite [OF ok _ m] cmd Some by auto
  qed
  have c: "sides_ok book' \<and> (uncrossed book \<longrightarrow> uncrossed book')" if "handleCancel t book (cmd_Cancel cmd) = (book', es)"
    using that ok Cancel_ok(1,2) [OF ok] by (auto simp: handleCancel_def split: option.splits prod.splits)
  show "sides_ok book'" "uncrossed book \<Longrightarrow> uncrossed book'"
    using h p c ok unfolding handle_def by (auto split: if_splits prod.splits)
qed

text \<open>What one step of the worker of \<open>sy\<close> does: to its own shard only, the head of its own queue.\<close>

lemma runWorker_stepE:
  assumes "runWorker_step now t sy e = Some (e', es)"
  obtains sh cmd rest book' s' where "eng_shards e sy = Some sh" and "sh_cmdCh sh = cmd # rest"
    and "handle now t (sh_book sh) (sh_seq sh) cmd = (book', s', es)"
    and "e' = e\<lparr>eng_shards := (eng_shards e)(sy \<mapsto> sh\<lparr>sh_book := book', sh_cmdCh := rest, sh_seq := s'\<rparr>)\<rparr>"
  using assms unfolding runWorker_step_def by (auto split: option.splits list.splits prod.splits)

lemma SubmitE:
  obtains (unknown) "eng_shards e (commandSymbol cmd) = None" "Submit e cmd = (Some ErrUnknownSymbol, e)"
  | (full) sh where "eng_shards e (commandSymbol cmd) = Some sh" "\<not> length (sh_cmdCh sh) < sh_cap sh"
      "Submit e cmd = (Some ErrSubmitChannelFull, e)"
  | (accepted) sh where "eng_shards e (commandSymbol cmd) = Some sh" "length (sh_cmdCh sh) < sh_cap sh"
      "Submit e cmd = (None, e\<lparr>eng_shards := (eng_shards e)(commandSymbol cmd \<mapsto> sh\<lparr>sh_cmdCh := sh_cmdCh sh @ [cmd]\<rparr>)\<rparr>)"
  by (cases "eng_shards e (commandSymbol cmd)") (auto simp: Submit_def split: if_splits)

text \<open>The invariant of the running engine, with the log it has published.\<close>

definition log_ok :: "engine \<Rightarrow> event list \<Rightarrow> bool" where
  "log_ok e lg \<longleftrightarrow> (\<forall>sy sh. eng_shards e sy = Some sh \<longrightarrow> trade_seqs sy lg = [1..<sh_seq sh + 1])"

lemma work_routed:
  assumes ok: "engine_routed e" and w: "runWorker_step now t sy e = Some (e', es)"
  shows "engine_routed e'" and "log_ok e lg \<Longrightarrow> log_ok e' (lg @ es)" and "dom (eng_shards e') = dom (eng_shards e)"
proof -
  obtain sh cmd rest book' s' where sh: "eng_shards e sy = Some sh" "sh_cmdCh sh = cmd # rest"
    and h: "handle now t (sh_book sh) (sh_seq sh) cmd = (book', s', es)"
    and e': "e' = e\<lparr>eng_shards := (eng_shards e)(sy \<mapsto> sh\<lparr>sh_book := book', sh_cmdCh := rest, sh_seq := s'\<rparr>)\<rparr>"
    using w by (rule runWorker_stepE)
  have sho: "shard_routed sy sh" using ok sh by (simp add: engine_routed_def)
  then have sy: "ob_Symbol (sh_book sh) = sy" by (simp add: shard_routed_def)
  note hf = handle_routed [OF h]
  have "shard_routed sy (sh\<lparr>sh_book := book', sh_cmdCh := rest, sh_seq := s'\<rparr>)"
    using sho sh hf(1) by (auto simp: shard_routed_def)
  then show "engine_routed e'" unfolding e' using ok by (intro engine_upd)
  show "dom (eng_shards e') = dom (eng_shards e)" using sh by (auto simp: e')
  assume lg: "log_ok e lg"
  obtain k where "s' = sh_seq sh + k" using hf(2) le_Suc_ex by blast
  then have app: "[1..<sh_seq sh + 1] @ [sh_seq sh + 1..<s' + 1] = [1..<s' + 1]"
    using upt_add_eq_append [of 1 "sh_seq sh + 1" k] by (simp add: add.assoc add.commute del: upt_Suc)
  show "log_ok e' (lg @ es)"
    using lg sh app unfolding log_ok_def e' by (auto simp: hf(3) sy simp del: upt_Suc)
qed

lemma work_ok:
  assumes ok: "engine_ok e" and w: "runWorker_step now t sy e = Some (e', es)"
  shows "engine_ok e'" and "books_uncrossed e \<Longrightarrow> books_uncrossed e'"
proof -
  obtain sh cmd rest book' s' where sh: "eng_shards e sy = Some sh" "sh_cmdCh sh = cmd # rest"
    and h: "handle now t (sh_book sh) (sh_seq sh) cmd = (book', s', es)"
    and e': "e' = e\<lparr>eng_shards := (eng_shards e)(sy \<mapsto> sh\<lparr>sh_book := book', sh_cmdCh := rest, sh_seq := s'\<rparr>)\<rparr>"
    using w by (rule runWorker_stepE)
  have sho: "shard_ok sy sh" using ok sh by (simp add: engine_ok_def)
  then have b: "sides_ok (sh_book sh)" "finite_command cmd" using sh by (auto simp: shard_ok_def)
  have "shard_routed sy (sh\<lparr>sh_book := book', sh_cmdCh := rest, sh_seq := s'\<rparr>)"
    using sho sh handle_routed(1) [OF h] by (auto simp: shard_ok_def shard_routed_def)
  then have "shard_ok sy (sh\<lparr>sh_book := book', sh_cmdCh := rest, sh_seq := s'\<rparr>)"
    using sho sh handle_ok(1) [OF b h] by (simp add: shard_ok_def)
  then show "engine_ok e'" unfolding e' using ok by (intro engine_upd)
  show "books_uncrossed e'" if "books_uncrossed e"
    using that sh handle_ok(2) [OF b h] by (simp add: e' books_uncrossed_def)
qed

lemma Submit_routed:
  shows "engine_routed e \<Longrightarrow> engine_routed (snd (Submit e cmd))" and "log_ok e lg \<Longrightarrow> log_ok (snd (Submit e cmd)) lg"
    and "dom (eng_shards (snd (Submit e cmd))) = dom (eng_shards e)" and "books_uncrossed e \<Longrightarrow> books_uncrossed (snd (Submit e cmd))"
  by (cases rule: SubmitE [of e cmd]; auto simp: engine_routed_def shard_routed_def log_ok_def books_uncrossed_def)+

lemma Submit_ok: "engine_ok e \<Longrightarrow> finite_command cmd \<Longrightarrow> engine_ok (snd (Submit e cmd))"
  by (cases rule: SubmitE [of e cmd]) (auto simp: engine_ok_def shard_ok_def shard_routed_def simp del: finite_command.simps)

lemma reachable_routed:
  assumes "engine_reachable admit (e, lg) c'" and "engine_routed e"
  shows "engine_routed (fst c') \<and> (log_ok e lg \<longrightarrow> log_ok (fst c') (snd c')) \<and> dom (eng_shards (fst c')) = dom (eng_shards e)"
  using assms
proof (induction rule: engine_reachable.induct)
  case (step c' c'')
  note IH = step.IH [OF step.prems]
  from step.hyps(2) show ?case
  proof (cases rule: engine_step.cases)
    case (submit cmd e1 lg1)
    then show ?thesis using IH Submit_routed(1) [of e1 cmd] Submit_routed(2) [of e1 lg1 cmd] Submit_routed(3) [of e1 cmd] by simp
  next
    case (work e1 now t sy e2 es lg1)
    then show ?thesis using IH work_routed(1,3) [of e1 now t sy e2 es] work_routed(2) [of e1 now t sy e2 es lg1] by simp
  qed
qed simp

lemma reachable_ok:
  assumes "engine_reachable admit (e, lg) c'" and "\<And>cmd. admit cmd \<Longrightarrow> finite_command cmd" and "engine_ok e"
  shows "engine_ok (fst c') \<and> (books_uncrossed e \<longrightarrow> books_uncrossed (fst c'))"
  using assms
proof (induction rule: engine_reachable.induct)
  case (step c' c'')
  note IH = step.IH [OF step.prems]
  from step.hyps(2) show ?case
  proof (cases rule: engine_step.cases)
    case (submit cmd e1 lg1)
    then show ?thesis using IH Submit_ok [of e1 cmd] Submit_routed(4) [of e1 cmd] step.prems(1) by simp
  next
    case (work e1 now t sy e2 es lg1)
    then show ?thesis using IH work_ok [of e1 now t sy e2 es] by simp
  qed
qed simp

lemma Engine_New_ok: "engine_ok (Engine_New symbols n)" "log_ok (Engine_New symbols n) []"
  "books_uncrossed (Engine_New symbols n)"
  using book_ok_new
  by (auto simp: engine_ok_def Engine_New_def shard_ok_def shard_routed_def log_ok_def books_uncrossed_def book_ok_def NewOrderBook_def)

lemma LoadOrder_ok:
  assumes ok: "engine_ok e" and o1: "resting_ok o1" "finite_f64 (eo_Price o1)"
  shows "engine_ok (LoadOrder e o1)" and "log_ok e lg \<Longrightarrow> log_ok (LoadOrder e o1) lg"
proof -
  have "engine_ok (LoadOrder e o1) \<and> (log_ok e lg \<longrightarrow> log_ok (LoadOrder e o1) lg)"
  proof (cases "\<not> eng_started e \<and> eng_shards e (eo_Symbol o1) \<noteq> None")
    case True
    then obtain sh where sh: "\<not> eng_started e" "eng_shards e (eo_Symbol o1) = Some sh" by blast
    let ?bk = "if eo_Side o1 = SideBuy then addBid (sh_book sh) o1 else addAsk (sh_book sh) o1"
    have s: "shard_ok (eo_Symbol o1) sh" using ok sh by (simp add: engine_ok_def)
    then have lv: "\<forall>l \<in> set (ob_Bids (sh_book sh)). level_ok True l" "\<forall>l \<in> set (ob_Asks (sh_book sh)). level_ok False l"
      "sorted_wrt better_bid (map pl_Price (ob_Bids (sh_book sh)))" "sorted_wrt better_ask (map pl_Price (ob_Asks (sh_book sh)))"
      by (auto simp: shard_ok_def sides_ok_def)
    have fin: "\<forall>l \<in> set (ob_Bids (sh_book sh)). finite_f64 (pl_Price l)" "\<forall>l \<in> set (ob_Asks (sh_book sh)). finite_f64 (pl_Price l)"
      using lv(1,2) by (simp_all add: level_ok_def)
    have "sides_ok ?bk"
    proof (cases "eo_Side o1 = SideBuy")
      case True
      then show ?thesis
        using lv bids.ins_sorted [OF lv(3) fin(1) o1(2)] bids.ins_level_ok [OF lv(1) o1]
        by (simp add: sides_ok_def addBid_def)
    next
      case False
      then show ?thesis
        using lv asks.ins_sorted [OF lv(4) fin(2) o1(2)] asks.ins_level_ok [OF lv(2) o1]
        by (simp add: sides_ok_def addAsk_def)
    qed
    then have "shard_ok (eo_Symbol o1) (sh\<lparr>sh_book := ?bk\<rparr>)" using s by (auto simp: shard_ok_def shard_routed_def addBid_def addAsk_def)
    then show ?thesis
      using sh ok engine_upd by (auto simp: LoadOrder_def log_ok_def Let_def)
  qed (use ok in \<open>auto simp: LoadOrder_def\<close>)
  then show "engine_ok (LoadOrder e o1)" "log_ok e lg \<Longrightarrow> log_ok (LoadOrder e o1) lg" by blast+
qed

subsection \<open>Properties\<close>

definition ex_place :: "eorder \<Rightarrow> command" where
  "ex_place o1 = \<lparr>cmd_Kind = CommandPlaceOrder, cmd_Order = Some o1, cmd_Cancel = None\<rparr>"

definition ex_engine :: engine where
  "ex_engine = Start (Engine_New [''BTCUSDT'', ''ETHUSDT''] 2)"

text \<open>
  An engine of one symbol with room for three commands, in any state; a run on it: a SELL of 2, a SELL of
  minus 3 and a BUY of 3, all at 10, are submitted and then handled.
\<close>

definition ex_with :: "order_book \<Rightarrow> command list \<Rightarrow> nat \<Rightarrow> engine" where
  "ex_with bk q s =
     \<lparr>eng_shards = (\<lambda>sy. if sy = ''BTCUSDT'' then Some \<lparr>sh_book = bk, sh_cmdCh = q, sh_cap = 3, sh_seq = s\<rparr> else None),
      eng_started = True\<rparr>"

definition ex_commands :: "command list" where
  "ex_commands = map ex_place [ex_order ''s'' SideSell 10 2, ex_order ''n'' SideSell 10 (- 3), ex_order ''b'' SideBuy 10 3]"

definition ex_book1 :: order_book where
  "ex_book1 = addAsk (NewOrderBook ''BTCUSDT'') (ex_order ''s'' SideSell 10 2)"

definition ex_book2 :: order_book where
  "ex_book2 = addBid (NewOrderBook ''BTCUSDT'') ((ex_order ''b'' SideBuy 10 3)\<lparr>eo_Remaining := FFin 1\<rparr>)"

definition ex_trade_event :: event where
  "ex_trade_event = TradeMatchedEvent
     \<lparr>tm_Seq = 1, tm_Symbol = ''BTCUSDT'', tm_BuyOrderID = ''b'', tm_SellOrderID = ''s'', tm_BuyUserID = ''ub'', tm_SellUserID = ''us'',
      tm_Price = FFin 10, tm_Quantity = FFin 2, tm_Timestamp = 0\<rparr>"

definition ex_rested :: "eorder \<Rightarrow> event" where
  "ex_rested o1 = OrderRestedEvent \<lparr>or_OrderID = eo_ID o1, or_UserID = eo_UserID o1, or_Symbol = eo_Symbol o1,
     or_Side = eo_Side o1, or_Price = eo_Price o1, or_Remaining = eo_Remaining o1, or_Timestamp = 0\<rparr>"

definition ex_log :: "event list" where
  "ex_log = [ex_rested (ex_order ''s'' SideSell 10 2), ex_trade_event, ex_rested ((ex_order ''b'' SideBuy 10 3)\<lparr>eo_Remaining := FFin 1\<rparr>)]"

lemma ex_with_start: "Start (Engine_New [''BTCUSDT''] 3) = ex_with (NewOrderBook ''BTCUSDT'') [] 0"
  by (simp add: Start_def Engine_New_def ex_with_def fun_eq_iff)

lemma ex_with_submit:
  "finite_command cmd \<Longrightarrow> commandSymbol cmd = ''BTCUSDT'' \<Longrightarrow> length q < 3 \<Longrightarrow>
   engine_step finite_command (ex_with bk q s, lg) (ex_with bk (q @ [cmd]) s, lg)"
  using engine_step.submit [of finite_command cmd "ex_with bk q s" lg] by (simp add: Submit_def ex_with_def fun_upd_def cong: if_cong)

lemma ex_with_work:
  assumes "handle (\<lambda>_. 0) 0 bk s cmd = (bk', s', es)"
  shows "engine_step finite_command (ex_with bk (cmd # q) s, lg) (ex_with bk' q s', lg @ es)"
proof (rule engine_step.work)
  show "runWorker_step (\<lambda>_. 0) 0 ''BTCUSDT'' (ex_with bk (cmd # q) s) = Some (ex_with bk' q s', es)"
    using assms by (simp add: runWorker_step_def ex_with_def fun_eq_iff)
qed (simp add: ex_with_def)

lemma ex_commands_finite: "cmd \<in> set ex_commands \<Longrightarrow> finite_command cmd \<and> commandSymbol cmd = ''BTCUSDT''"
proof -
  have "is_f64 (FFin 2)" "is_f64 (FFin 3)" using small_f64 [of 2] small_f64 [of 3] by (simp_all del: is_f64.simps)
  moreover from this(2) have "is_f64 (FFin (- 3))" by simp
  ultimately show "cmd \<in> set ex_commands \<Longrightarrow> finite_command cmd \<and> commandSymbol cmd = ''BTCUSDT''"
    by (auto simp: ex_commands_def ex_place_def ex_order_def finite_order_def commandSymbol_def simp del: is_f64.simps)
qed

lemma ex_handled:
  "handle (\<lambda>_. 0) 0 (NewOrderBook ''BTCUSDT'') 0 (ex_commands ! 0) = (ex_book1, 0, [ex_rested (ex_order ''s'' SideSell 10 2)])"
  "handle (\<lambda>_. 0) 0 ex_book1 0 (ex_commands ! 1) = (ex_book1, 0, [])"
  "handle (\<lambda>_. 0) 0 ex_book1 0 (ex_commands ! 2) =
     (ex_book2, 1, [ex_trade_event, ex_rested ((ex_order ''b'' SideBuy 10 3)\<lparr>eo_Remaining := FFin 1\<rparr>)])"
  by (simp_all add: ex_commands_def ex_place_def handle_def handlePlace_def Match_def matchBuy_def matchSell_def ex_book1_def ex_book2_def
      ex_order_def ex_rested_def ex_trade_event_def NewOrderBook_def addBid_def addAsk_def new_level_def match_asks.simps(2)
      fill_buy.simps(2) fmin_def take_qty_def mk_trade_def SideBuy_def SideSell_def Let_def mk_small)

lemma ex_run: "engine_reachable finite_command (Start (Engine_New [''BTCUSDT''] 3), []) (ex_with ex_book2 [] 1, ex_log)"
proof -
  let ?c = "\<lambda>i. ex_commands ! i" and ?e = "ex_with (NewOrderBook ''BTCUSDT'')"
  have cs: "finite_command (?c i)" "commandSymbol (?c i) = ''BTCUSDT''" if "i < 3" for i
    using ex_commands_finite [OF nth_mem [of i ex_commands]] that by (simp_all add: ex_commands_def del: finite_command.simps)
  note steps = engine_reachable.step [OF engine_reachable.step [OF engine_reachable.step [OF engine_reachable.step [OF
    engine_reachable.step [OF engine_reachable.step [OF engine_reachable.refl]]]]]]
  have s: "engine_step finite_command (?e [] 0, []) (?e [?c 0] 0, [])"
    "engine_step finite_command (?e [?c 0] 0, []) (?e [?c 0, ?c 1] 0, [])"
    "engine_step finite_command (?e [?c 0, ?c 1] 0, []) (?e [?c 0, ?c 1, ?c 2] 0, [])"
    using ex_with_submit [OF cs [of 0], of "[]"] ex_with_submit [OF cs [of 1], of "[?c 0]"] ex_with_submit [OF cs [of 2], of "[?c 0, ?c 1]"]
    by (simp_all del: finite_command.simps)
  note w = ex_with_work [OF ex_handled(1), of "[?c 1, ?c 2]" "[]"] ex_with_work [OF ex_handled(2), of "[?c 2]"] ex_with_work [OF ex_handled(3), of "[]"]
  show ?thesis unfolding ex_with_start ex_log_def
    using steps [OF s w(1) w(2) w(3)] by simp
qed

text \<open>What a start of the process leaves: a new engine, the orders of the table loaded, the workers started.\<close>

definition start_engine :: "string list \<Rightarrow> int \<Rightarrow> eorder list \<Rightarrow> engine" where
  "start_engine symbols n os = Start (fold (\<lambda>o1 e. LoadOrder e o1) os (Engine_New symbols n))"

lemma LoadOrder_routed:
  "engine_routed e \<Longrightarrow> engine_routed (LoadOrder e o1)" "log_ok e lg \<Longrightarrow> log_ok (LoadOrder e o1) lg"
  by (auto simp: LoadOrder_def engine_routed_def shard_routed_def log_ok_def addBid_def addAsk_def Let_def split: option.splits)

lemma start_engine_routed: "engine_routed (start_engine symbols n os)" "log_ok (start_engine symbols n os) []"
proof -
  let ?e = "Engine_New symbols n" and ?load = "fold (\<lambda>o1 e. LoadOrder e o1) os"
  have "engine_routed e \<Longrightarrow> log_ok e [] \<Longrightarrow> engine_routed (?load e) \<and> log_ok (?load e) []" for e
    by (induction os arbitrary: e) (simp_all add: LoadOrder_routed)
  then have "engine_routed (?load ?e) \<and> log_ok (?load ?e) []"
    using Engine_New_ok(1,2) [of symbols n] engine_ok_routed by blast
  then show "engine_routed (start_engine symbols n os)" "log_ok (start_engine symbols n os) []"
    by (simp_all add: start_engine_def Start_def engine_routed_def log_ok_def del: upt_Suc)
qed

text \<open>
  C23. In every state a running engine reaches, whatever is submitted and however the submissions and the
  workers interleave: each book belongs to its shard's symbol, no channel holds more commands than its
  capacity, every queued command is routed to its own symbol, and the set of symbols never changes. As long
  as the prices and quantities submitted are finite, of either sign (those of the order service are,
  by \<open>PlaceOrder_submits\<close>), the books stay well-formed too (sides strictly sorted, no empty
  level, positive quantities at their level's price), and uncrossed if they were at the start.
\<close>
theorem engine_invariant:
  assumes "engine_reachable admit (e, lg) (e', lg')" and "engine_routed e"
  shows "engine_routed e' \<and> dom (eng_shards e') = dom (eng_shards e) \<and>
    ((\<forall>cmd. admit cmd \<longrightarrow> finite_command cmd) \<and> engine_ok e \<longrightarrow> engine_ok e' \<and> (books_uncrossed e \<longrightarrow> books_uncrossed e'))"
  using reachable_routed [OF assms] reachable_ok [OF assms(1)] by auto

lemma engine_invariant_witness:
  "engine_ok (ex_with ex_book2 [] 1) \<and> books_uncrossed (ex_with ex_book2 [] 1)"
proof -
  have e: "engine_ok (Start (Engine_New [''BTCUSDT''] 3))" "books_uncrossed (Start (Engine_New [''BTCUSDT''] 3))"
    using Engine_New_ok(1,3) [of "[''BTCUSDT'']" 3] by (simp_all add: Start_def engine_ok_def books_uncrossed_def)
  show ?thesis using engine_invariant [OF ex_run engine_ok_routed [OF e(1)]] e by blast
qed

text \<open>
  C24. From the start of the process on, after any rehydration, and whatever is submitted, the sequence
  numbers of the trades of a symbol are 1, 2, 3, ... in the order the engine publishes them, with no
  gap and no repetition, however the workers of the symbols interleave; the worker's counter is their
  number. They start again at 1 with the next process.
\<close>
theorem engine_trade_sequence:
  assumes "engine_reachable any_command (start_engine symbols n os, []) (e, lg)" and "eng_shards e sy = Some sh"
  shows "trade_seqs sy lg = [1..<sh_seq sh + 1]"
  using reachable_routed [OF assms(1) start_engine_routed(1)] start_engine_routed(2) [of symbols n os] assms(2) by (simp add: log_ok_def)

lemma engine_reachable_mono:
  "engine_reachable admit c c' \<Longrightarrow> engine_reachable any_command c c'"
proof (induction rule: engine_reachable.induct)
  case (step c' c'')
  from step.hyps(2) have "engine_step any_command c' c''" by (cases rule: engine_step.cases) (auto intro: engine_step.intros)
  then show ?case using step.IH engine_reachable.step by blast
qed (rule engine_reachable.refl)

text \<open>One trade on a rehydrated engine: a SELL of 2 at 10 of the table meets a new BUY of 3.\<close>

definition ex_reloaded :: engine where
  "ex_reloaded = start_engine [''BTCUSDT''] 3 [ex_order ''s'' SideSell 10 2]"

lemma ex_reloaded_run:
  "engine_reachable any_command (ex_reloaded, [])
     (ex_with ex_book2 [] 1, [ex_trade_event, ex_rested ((ex_order ''b'' SideBuy 10 3)\<lparr>eo_Remaining := FFin 1\<rparr>)])"
proof -
  let ?c = "ex_commands ! 2"
  have e: "ex_reloaded = ex_with ex_book1 [] 0"
    by (simp add: ex_reloaded_def start_engine_def LoadOrder_def Start_def Engine_New_def ex_with_def ex_book1_def ex_order_def
        SideBuy_def SideSell_def Let_def fun_eq_iff)
  have c: "finite_command ?c" "commandSymbol ?c = ''BTCUSDT''"
    using ex_commands_finite [OF nth_mem [of 2 ex_commands]] by (simp_all add: ex_commands_def del: finite_command.simps)
  have "engine_reachable finite_command (ex_with ex_book1 [] 0, []) (ex_with ex_book1 ([] @ [?c]) 0, [])"
    by (rule engine_reachable.step [OF engine_reachable.refl ex_with_submit [OF c]]) simp
  from engine_reachable.step [OF this [unfolded append_Nil] ex_with_work [OF ex_handled(3)]] show ?thesis
    unfolding e by (simp add: engine_reachable_mono)
qed

lemma engine_trade_sequence_witness:
  "\<exists>lg. engine_reachable any_command (ex_reloaded, []) (ex_with ex_book2 [] 1, lg) \<and> trade_seqs ''BTCUSDT'' lg = [1]"
  using engine_trade_sequence [OF ex_reloaded_run [unfolded ex_reloaded_def], of "''BTCUSDT''"] ex_reloaded_run
  by (intro exI conjI) (assumption, simp add: ex_with_def)

text \<open>
  Workers of different symbols are independent: if two of them can take a step, they can take
  the two steps in either order, with the same events and the same resulting engine.
\<close>
theorem workers_commute:
  assumes "runWorker_step now t sy e = Some (e1, es1)" and "runWorker_step now' t' sy' e = Some (e2, es2)"
    and "sy \<noteq> sy'"
  shows "\<exists>e'. runWorker_step now' t' sy' e1 = Some (e', es2) \<and> runWorker_step now t sy e2 = Some (e', es1)"
proof -
  obtain sh cmd rest bk s where a: "eng_shards e sy = Some sh" "sh_cmdCh sh = cmd # rest"
    "handle now t (sh_book sh) (sh_seq sh) cmd = (bk, s, es1)"
    "e1 = e\<lparr>eng_shards := (eng_shards e)(sy \<mapsto> sh\<lparr>sh_book := bk, sh_cmdCh := rest, sh_seq := s\<rparr>)\<rparr>"
    using assms(1) by (rule runWorker_stepE)
  obtain sh' cmd' rest' bk' s' where b: "eng_shards e sy' = Some sh'" "sh_cmdCh sh' = cmd' # rest'"
    "handle now' t' (sh_book sh') (sh_seq sh') cmd' = (bk', s', es2)"
    "e2 = e\<lparr>eng_shards := (eng_shards e)(sy' \<mapsto> sh'\<lparr>sh_book := bk', sh_cmdCh := rest', sh_seq := s'\<rparr>)\<rparr>"
    using assms(2) by (rule runWorker_stepE)
  show ?thesis using a b assms(3) by (simp add: runWorker_step_def fun_upd_twist)
qed

lemma ex_worker_idle: "runWorker_step (\<lambda>n. 0) 0 ''BTCUSDT'' ex_engine = None"
  by (simp add: runWorker_step_def ex_engine_def Start_def Engine_New_def)

definition ex_engine2 :: engine where
  "ex_engine2 = snd (Submit (snd (Submit ex_engine (ex_place (ex_order ''s'' SideSell 10 2))))
                       (ex_place ((ex_order ''b'' SideBuy 10 3)\<lparr>eo_Symbol := ''ETHUSDT''\<rparr>)))"

lemmas ex_engine_eval = ex_engine2_def ex_engine_def Engine_New_def Start_def Submit_def ex_place_def commandSymbol_def
  ex_order_def runWorker_step_def handle_def CommandPlaceOrder_def CommandCancelOrder_def

lemma workers_commute_witness:
  "\<exists>e'. runWorker_step (\<lambda>n. 1) 1 ''ETHUSDT'' (fst (the (runWorker_step (\<lambda>n. 0) 0 ''BTCUSDT'' ex_engine2))) =
     Some (e', snd (the (runWorker_step (\<lambda>n. 1) 1 ''ETHUSDT'' ex_engine2)))"
proof -
  have "runWorker_step (\<lambda>n. 0) 0 ''BTCUSDT'' ex_engine2 \<noteq> None" "runWorker_step (\<lambda>n. 1) 1 ''ETHUSDT'' ex_engine2 \<noteq> None"
    by (simp_all add: ex_engine_eval split: prod.splits)
  then show ?thesis using workers_commute [of "\<lambda>n. 0" 0 "''BTCUSDT''" ex_engine2 _ _ "\<lambda>n. 1" 1 "''ETHUSDT''"] by fastforce
qed

text \<open>
  \<open>Submit\<close> either appends the command at the end of the channel of its symbol's shard, and
  changes no other shard, or reports which limit it hit (no such symbol, channel full) and leaves
  the engine as it was. In particular a command without its payload is never accepted when no symbol
  is the empty string.
\<close>
theorem Submit_spec:
  "case Submit e cmd of
     (None, e') \<Rightarrow>
       (\<exists>sh. eng_shards e (commandSymbol cmd) = Some sh \<and> length (sh_cmdCh sh) < sh_cap sh \<and>
          eng_shards e' = (eng_shards e)(commandSymbol cmd \<mapsto> sh\<lparr>sh_cmdCh := sh_cmdCh sh @ [cmd]\<rparr>) \<and>
          eng_started e' = eng_started e)
   | (Some err, e') \<Rightarrow> e' = e \<and>
       (err = ErrUnknownSymbol \<and> eng_shards e (commandSymbol cmd) = None \<or>
        err = ErrSubmitChannelFull \<and> (\<exists>sh. eng_shards e (commandSymbol cmd) = Some sh \<and> sh_cap sh \<le> length (sh_cmdCh sh)))"
  by (cases rule: SubmitE [of e cmd]) auto

text \<open>
  Rehydration: \<open>LoadOrder\<close> of a resting order keeps the engine well-formed, puts the order on the
  book without matching, and does nothing once the engine is started or for a symbol without a shard.
\<close>
theorem LoadOrder_spec:
  assumes "engine_ok e" and "resting_ok o1" and "finite_f64 (eo_Price o1)"
  shows "engine_ok (LoadOrder e o1) \<and>
     (case eng_shards e (eo_Symbol o1) of
        Some sh \<Rightarrow>
          if eng_started e then LoadOrder e o1 = e
          else (\<exists>bk. eng_shards (LoadOrder e o1) = (eng_shards e)(eo_Symbol o1 \<mapsto> sh\<lparr>sh_book := bk\<rparr>)
                 \<and> own_queue o1 bk = queue_insert (better_price (eo_Side o1)) o1 (own_queue o1 (sh_book sh))
                 \<and> opposite_queue o1 bk = opposite_queue o1 (sh_book sh))
      | None \<Rightarrow> LoadOrder e o1 = e)"
proof (cases "eng_shards e (eo_Symbol o1)")
  case None
  then show ?thesis using assms(1) by (simp add: LoadOrder_def)
next
  case (Some sh)
  let ?bk = "if eo_Side o1 = SideBuy then addBid (sh_book sh) o1 else addAsk (sh_book sh) o1"
  have so: "sides_ok (sh_book sh)" using assms(1) Some by (simp add: engine_ok_def shard_ok_def)
  have "flatten (bid_levels o1 (ob_Bids (sh_book sh))) = queue_insert better_bid o1 (flatten (ob_Bids (sh_book sh)))"
    using so assms(3) by (intro bids.ins_flatten) (auto simp: sides_ok_def)
  moreover have "flatten (ask_levels o1 (ob_Asks (sh_book sh))) = queue_insert better_ask o1 (flatten (ob_Asks (sh_book sh)))"
    using so assms(3) by (intro asks.ins_flatten) (auto simp: sides_ok_def)
  ultimately have q: "own_queue o1 ?bk = queue_insert (better_price (eo_Side o1)) o1 (own_queue o1 (sh_book sh))"
    "opposite_queue o1 ?bk = opposite_queue o1 (sh_book sh)"
    by (simp_all add: side_defs addBid_def addAsk_def)
  have "\<not> eng_started e \<Longrightarrow> eng_shards (LoadOrder e o1) = (eng_shards e)(eo_Symbol o1 \<mapsto> sh\<lparr>sh_book := ?bk\<rparr>)"
    using Some by (simp add: LoadOrder_def)
  then show ?thesis
    using LoadOrder_ok(1) [OF assms] Some q by (auto simp: LoadOrder_def)
qed

lemma LoadOrder_spec_witness:
  "engine_ok (LoadOrder (Engine_New [''BTCUSDT''] 2) (ex_order ''s'' SideSell 10 2))"
  using LoadOrder_spec [OF Engine_New_ok(1), of "ex_order ''s'' SideSell 10 2" "[''BTCUSDT'']" 2]
  by (simp add: resting_ok_def ex_order_def del: is_f64.simps)

text \<open>
  Rehydration can leave a crossed book: \<open>LoadOrder\<close> compares a loaded order with its own side
  only, so a bid at 12 and an ask at 10 loaded from the table rest beside each other unmatched.
\<close>
theorem LoadOrder_can_cross:
  "\<not> books_uncrossed (LoadOrder (LoadOrder (Engine_New [''BTCUSDT''] 2) (ex_order ''s'' SideSell 10 2))
        (ex_order ''b'' SideBuy 12 2))"
  by (simp add: books_uncrossed_def LoadOrder_def Engine_New_def ex_order_def SideBuy_def SideSell_def
      NewOrderBook_def addBid_def addAsk_def new_level_def uncrossed_def Let_def)

end
