(* ===== verification/Database.thy ===== *)
theory Database
  imports Domain Engine
begin

text \<open>
  The database and the world a service call runs in. A table is the list of its rows, in insertion
  order. The world holds the committed database, the working copy of the open transaction and
  whether Postgres has aborted it, the engine commands are submitted to, and the environment: which
  database calls fail for infrastructure reasons, what \<open>uuid.NewV7\<close> and the clock return. Each of these
  is asked for the number of calls made so far (\<open>w_tick\<close>), so any behaviour over time is possible.

  A service call is an action from a world to an error or a result and the world after. Calls are
  run one at a time: other sessions change the committed database only between the calls.
\<close>

subsection \<open>Tables\<close>

record db =
  db_users :: "user_rec list"
  db_accounts :: "account_rec list"
  db_ledger :: "sqlnum ledger_entry list"
  db_idem :: "idem_key list"
  db_outbox :: "outbox_event list"
  db_orders :: "sqlnum order_rec list"
  db_trades :: "sqlnum trade_rec list"
  db_wallets :: "wallet_address list"
  db_deposits :: "sqlnum deposit_rec list"
  db_withdrawals :: "sqlnum withdrawal_rec list"
  db_assets :: "sqlnum asset_rec list"
  db_networks :: "sqlnum network_rec list"

record env =
  e_fault :: "nat \<Rightarrow> bool"
  e_uuid :: "nat \<Rightarrow> uuid option"
  e_now :: "nat \<Rightarrow> gotime"

record world =
  w_db :: db
  w_tx :: "db option"
  w_abort :: bool
  w_tick :: nat
  w_env :: env
  w_engine :: "engine option"

type_synonym ('e, 'a) act = "world \<Rightarrow> ('e + 'a) \<times> world"

subsection \<open>Actions\<close>

definition returnE :: "'a \<Rightarrow> ('e, 'a) act" where "returnE a w = (Inr a, w)"
definition throwE :: "'e \<Rightarrow> ('e, 'a) act" where "throwE e w = (Inl e, w)"

definition bindE :: "('e, 'a) act \<Rightarrow> ('a \<Rightarrow> ('e, 'b) act) \<Rightarrow> ('e, 'b) act" where
  "bindE m f w = (case m w of (Inl e, w') \<Rightarrow> (Inl e, w') | (Inr a, w') \<Rightarrow> f a w')"

text \<open>Rewriting the error, as \<open>fmt.Errorf("...: %w", err)\<close> and the tests on \<open>err\<close> do.\<close>

definition mapE :: "('e \<Rightarrow> 'f) \<Rightarrow> ('e, 'a) act \<Rightarrow> ('f, 'a) act" where
  "mapE g m w = (case m w of (Inl e, w') \<Rightarrow> (Inl (g e), w') | (Inr a, w') \<Rightarrow> (Inr a, w'))"

definition wrapE :: "string \<Rightarrow> (gerr, 'a) act \<Rightarrow> (gerr, 'a) act" where
  "wrapE pre m = mapE (\<lambda>e. Wrapped pre e []) m"

text \<open>Giving the error to the rest of the code, as \<open>x, err := m()\<close> does.\<close>

definition tryE :: "('e, 'a) act \<Rightarrow> ('f, 'e + 'a) act" where
  "tryE m w = (case m w of (r, w') \<Rightarrow> (Inr r, w'))"

definition liftE :: "'e + 'a \<Rightarrow> ('e, 'a) act" where
  "liftE r w = (r, w)"

definition guardE :: "bool \<Rightarrow> 'e \<Rightarrow> ('e, unit) act" where
  "guardE b e = (if b then returnE () else throwE e)"

fun mapM_E :: "('a \<Rightarrow> ('e, unit) act) \<Rightarrow> 'a list \<Rightarrow> ('e, unit) act" where
  "mapM_E f [] = returnE ()"
| "mapM_E f (x # xs) = bindE (f x) (\<lambda>_. mapM_E f xs)"

subsection \<open>The environment\<close>

definition tick :: "world \<Rightarrow> world" where
  "tick w = w\<lparr>w_tick := Suc (w_tick w)\<rparr>"

definition NewV7 :: "(gerr, uuid) act" where
  "NewV7 w =
     (case e_uuid (w_env w) (w_tick w) of
        None \<Rightarrow> (Inl (Opaque ''uuid: random source failed''), tick w)
      | Some u \<Rightarrow> (Inr u, tick w))"

definition Now :: "('e, gotime) act" where
  "Now w = (Inr (e_now (w_env w) (w_tick w)), tick w)"

definition faulty :: "world \<Rightarrow> bool" where
  "faulty w = e_fault (w_env w) (w_tick w)"

abbreviation db_down :: db_error where "db_down \<equiv> DbFail ''connection failure''"

subsection \<open>Transactions\<close>

definition Begin :: "(db_error, unit) act" where
  "Begin w =
     (if faulty w then (Inl db_down, tick w)
      else (Inr (), (tick w)\<lparr>w_tx := Some (w_db w), w_abort := False\<rparr>))"

definition Rollback :: "world \<Rightarrow> world" where
  "Rollback w = w\<lparr>w_tx := None, w_abort := False\<rparr>"

text \<open>
  Committing an aborted transaction rolls it back and is an error of \<open>Commit\<close> in pgx. A commit that
  fails for an infrastructure reason is taken not to have happened.
\<close>

definition Commit :: "(db_error, unit) act" where
  "Commit w =
     (case w_tx w of
        None \<Rightarrow> (Inl (DbFail ''tx is closed''), w)
      | Some d \<Rightarrow>
          if faulty w then (Inl db_down, Rollback (tick w))
          else if w_abort w then (Inl (DbFail ''commit unexpectedly resulted in rollback''), Rollback (tick w))
          else (Inr (), Rollback ((tick w)\<lparr>w_db := d\<rparr>)))"

text \<open>A statement in the transaction. An error aborts the transaction: every later statement fails.\<close>

definition tx_exec :: "(db \<Rightarrow> gotime \<Rightarrow> db_error + 'a \<times> db) \<Rightarrow> (db_error, 'a) act" where
  "tx_exec f w =
     (case w_tx w of
        None \<Rightarrow> (Inl (DbFail ''tx is closed''), w)
      | Some d \<Rightarrow>
          if faulty w then (Inl db_down, (tick w)\<lparr>w_abort := True\<rparr>)
          else if w_abort w then (Inl (DbFail ''current transaction is aborted''), tick w)
          else (case f d (e_now (w_env w) (w_tick w)) of
                  Inl e \<Rightarrow> (Inl e, (tick w)\<lparr>w_abort := True\<rparr>)
                | Inr (a, d') \<Rightarrow> (Inr a, (tick w)\<lparr>w_tx := Some d'\<rparr>)))"

text \<open>A query on the pool reads the committed database, also while a transaction is open.\<close>

definition pool_query :: "(db \<Rightarrow> 'a) \<Rightarrow> (db_error, 'a) act" where
  "pool_query f w = (if faulty w then (Inl db_down, tick w) else (Inr (f (w_db w)), tick w))"

text \<open>\<open>QueryRow(...).Scan\<close>: the first row, or \<open>pgx.ErrNoRows\<close> (which does not abort a transaction).\<close>

definition first_row :: "'a list \<Rightarrow> (db_error, 'a) act" where
  "first_row rows = (case rows of [] \<Rightarrow> throwE DbNoRows | r # _ \<Rightarrow> returnE r)"

definition tx_query_row :: "(db \<Rightarrow> 'a list) \<Rightarrow> (db_error, 'a) act" where
  "tx_query_row f = bindE (tx_exec (\<lambda>d now. Inr (f d, d))) first_row"

definition pool_query_row :: "(db \<Rightarrow> 'a list) \<Rightarrow> (db_error, 'a) act" where
  "pool_query_row f = bindE (pool_query f) first_row"

text \<open>\<open>tx, err := Begin(); defer tx.Rollback()\<close>: the body runs in the transaction, and what it leaves is rolled back.\<close>

definition with_tx :: "(gerr, unit) act \<Rightarrow> (gerr, 'a) act \<Rightarrow> (gerr, 'a) act" where
  "with_tx begin_tx body = bindE begin_tx (\<lambda>_ w. case body w of (r, w') \<Rightarrow> (r, Rollback w'))"

definition in_tx :: "string \<Rightarrow> (gerr, 'a) act \<Rightarrow> (gerr, 'a) act" where
  "in_tx pre body = with_tx (wrapE pre (mapE db_gerr Begin)) body"

definition commit_tx :: "string \<Rightarrow> (gerr, unit) act" where
  "commit_tx pre = wrapE pre (mapE db_gerr Commit)"

subsection \<open>Statements\<close>

text \<open>INSERT with the checks of the table, in the order: value errors, CHECK, then uniqueness.\<close>

definition sql_insert :: "bool \<Rightarrow> ('r \<Rightarrow> 'r \<Rightarrow> bool) \<Rightarrow> 'r \<Rightarrow> 'r list \<Rightarrow> db_error + 'r list" where
  "sql_insert checks clash r rows =
     (if \<not> checks then Inl (DbFail ''check or length constraint violated'')
      else if list_ex (clash r) rows then Inl DbUnique
      else Inr (rows @ [r]))"

text \<open>LIMIT and OFFSET; a negative one is an error of the statement.\<close>

definition sql_page :: "int \<Rightarrow> int \<Rightarrow> 'a list \<Rightarrow> db_error + 'a list" where
  "sql_page limit offset xs =
     (if limit < 0 \<or> offset < 0 then Inl (DbFail ''LIMIT or OFFSET must not be negative'')
      else Inr (take (nat limit) (drop (nat offset) xs)))"

text \<open>ORDER BY \<open>key\<close> descending, rows with the same key in insertion order.\<close>

definition order_desc :: "('a \<Rightarrow> int) \<Rightarrow> 'a list \<Rightarrow> 'a list" where
  "order_desc key xs = sort_key (\<lambda>x. - key x) xs"

definition pool_list :: "(db \<Rightarrow> db_error + 'a list) \<Rightarrow> (db_error, 'a list) act" where
  "pool_list f = bindE (pool_query f) liftE"

end
