(* ===== verification/Frames.thy ===== *)
theory Frames
  imports Database
begin

text \<open>
  How actions are reasoned about. Inversion rules (\<open>ok_simps\<close>) take apart a call that returned a
  result; \<open>quiet\<close> actions leave the committed database and the engine alone, and \<open>atomic\<close> ones leave
  them alone when they fail, under any environment. The rules of \<open>frame\<close> follow the structure of the
  code, so that each service call is one application of them.
\<close>

named_theorems ok_simps \<open>a call that returned a result, taken apart\<close>

subsection \<open>Fields of the world\<close>

lemma tick_simps [simp]:
  "w_db (tick w) = w_db w" "w_tx (tick w) = w_tx w" "w_abort (tick w) = w_abort w"
  "w_env (tick w) = w_env w" "w_engine (tick w) = w_engine w" "w_tick (tick w) = Suc (w_tick w)"
  by (simp_all add: tick_def)

lemma Rollback_simps [simp]:
  "w_db (Rollback w) = w_db w" "w_tx (Rollback w) = None" "w_abort (Rollback w) = False"
  "w_env (Rollback w) = w_env w" "w_engine (Rollback w) = w_engine w" "w_tick (Rollback w) = w_tick w"
  by (simp_all add: Rollback_def)

subsection \<open>Calls that return a result\<close>

lemma bindE_Inr [ok_simps]:
  "bindE m f w = (Inr b, w') \<longleftrightarrow> (\<exists>a w1. m w = (Inr a, w1) \<and> f a w1 = (Inr b, w'))"
  by (auto simp: bindE_def split: prod.splits sum.splits)

lemma bindE_Inl: "bindE m f w = (Inl e, w') \<longleftrightarrow> m w = (Inl e, w') \<or> (\<exists>a w1. m w = (Inr a, w1) \<and> f a w1 = (Inl e, w'))"
  by (auto simp: bindE_def split: prod.splits sum.splits)

lemma bindE_run: "m w = (Inr a, w1) \<Longrightarrow> bindE m f w = f a w1"
  by (simp add: bindE_def)

lemma bindE_fail: "m w = (Inl e, w1) \<Longrightarrow> bindE m f w = (Inl e, w1)"
  by (simp add: bindE_def)

lemma mapE_Inr [ok_simps]: "mapE g m w = (Inr a, w') \<longleftrightarrow> m w = (Inr a, w')"
  by (auto simp: mapE_def split: prod.splits sum.splits)

lemma mapE_Inl: "mapE g m w = (Inl e, w') \<longleftrightarrow> (\<exists>e0. m w = (Inl e0, w') \<and> e = g e0)"
  by (auto simp: mapE_def split: prod.splits sum.splits)

lemma wrapE_Inr [ok_simps]: "wrapE pre m w = (Inr a, w') \<longleftrightarrow> m w = (Inr a, w')"
  by (simp add: wrapE_def mapE_Inr)

lemma mapE_mapE: "mapE f (mapE g m) = mapE (\<lambda>e. f (g e)) m"
  by (auto simp: mapE_def fun_eq_iff split: prod.splits sum.splits)

lemma returnE_Inr [ok_simps]: "returnE a w = (Inr b, w') \<longleftrightarrow> b = a \<and> w' = w"
  by (auto simp: returnE_def)

lemma throwE_Inr [ok_simps]: "throwE e w = (Inr b, w') \<longleftrightarrow> False"
  by (simp add: throwE_def)

lemma if_throw_Inr [ok_simps]:
  "(if c then throwE e else m) w = (Inr b, w') \<longleftrightarrow> \<not> c \<and> m w = (Inr b, w')"
  by (simp add: throwE_def)

lemma liftE_Inr [ok_simps]: "liftE r w = (Inr b, w') \<longleftrightarrow> r = Inr b \<and> w' = w"
  by (auto simp: liftE_def)

lemma guardE_Inr [ok_simps]: "guardE c e w = (Inr b, w') \<longleftrightarrow> c \<and> w' = w"
  by (auto simp: guardE_def returnE_def throwE_def)

lemma tryE_Inr [ok_simps]: "tryE m w = (Inr r, w') \<longleftrightarrow> m w = (r, w')"
  by (auto simp: tryE_def split: prod.splits)

lemma NewV7_Inr [ok_simps]:
  "NewV7 w = (Inr u, w') \<longleftrightarrow> e_uuid (w_env w) (w_tick w) = Some u \<and> w' = tick w"
  by (auto simp: NewV7_def split: option.splits)

lemma Now_Inr [ok_simps]: "Now w = (Inr t, w') \<longleftrightarrow> t = e_now (w_env w) (w_tick w) \<and> w' = tick w"
  by (auto simp: Now_def)

lemma Begin_Inr [ok_simps]:
  "Begin w = (Inr u, w') \<longleftrightarrow> \<not> faulty w \<and> w' = (tick w)\<lparr>w_tx := Some (w_db w), w_abort := False\<rparr>"
  by (auto simp: Begin_def)

lemma Commit_Inr [ok_simps]:
  "Commit w = (Inr u, w') \<longleftrightarrow>
     (\<exists>d. w_tx w = Some d \<and> \<not> faulty w \<and> \<not> w_abort w \<and> w' = Rollback ((tick w)\<lparr>w_db := d\<rparr>))"
  by (auto simp: Commit_def split: option.splits)

lemma tx_exec_Inr [ok_simps]:
  "tx_exec f w = (Inr a, w') \<longleftrightarrow>
     (\<exists>d d'. w_tx w = Some d \<and> \<not> faulty w \<and> \<not> w_abort w \<and> f d (e_now (w_env w) (w_tick w)) = Inr (a, d')
        \<and> w' = (tick w)\<lparr>w_tx := Some d'\<rparr>)"
  by (auto simp: tx_exec_def split: option.splits sum.splits prod.splits)

lemma pool_query_Inr [ok_simps]:
  "pool_query f w = (Inr a, w') \<longleftrightarrow> \<not> faulty w \<and> a = f (w_db w) \<and> w' = tick w"
  by (auto simp: pool_query_def)

lemma first_row_Inr [ok_simps]: "first_row rows w = (Inr r, w') \<longleftrightarrow> (\<exists>rs. rows = r # rs) \<and> w' = w"
  by (auto simp: first_row_def throwE_def returnE_def split: list.splits)

lemma with_tx_Inr [ok_simps]:
  "with_tx (mapE g Begin) body w = (Inr a, w') \<longleftrightarrow>
     (\<exists>w1. \<not> faulty w \<and> body ((tick w)\<lparr>w_tx := Some (w_db w), w_abort := False\<rparr>) = (Inr a, w1) \<and> w' = Rollback w1)"
  by (auto simp: with_tx_def bindE_Inr mapE_Inr Begin_Inr split: prod.splits)

lemma in_tx_Inr [ok_simps]:
  "in_tx pre body w = (Inr a, w') \<longleftrightarrow>
     (\<exists>w1. \<not> faulty w \<and> body ((tick w)\<lparr>w_tx := Some (w_db w), w_abort := False\<rparr>) = (Inr a, w1) \<and> w' = Rollback w1)"
  by (simp add: in_tx_def wrapE_def mapE_mapE with_tx_Inr)

lemma commit_tx_Inr [ok_simps]: "commit_tx pre w = (Inr u, w') \<longleftrightarrow> Commit w = (Inr u, w')"
  by (simp add: commit_tx_def wrapE_Inr mapE_Inr)

lemma sql_insert_Inr [ok_simps]:
  "sql_insert c clash r rows = Inr rows' \<longleftrightarrow> c \<and> (\<forall>x \<in> set rows. \<not> clash r x) \<and> rows' = rows @ [r]"
  by (auto simp: sql_insert_def list_ex_iff)

lemma sql_insert_case [ok_simps]:
  "(case sql_insert c clash r rows of Inl e \<Rightarrow> Inl e | Inr rows' \<Rightarrow> Inr ((), k rows')) = Inr (u, d') \<longleftrightarrow>
     c \<and> (\<forall>x \<in> set rows. \<not> clash r x) \<and> d' = k (rows @ [r])"
  by (auto simp: sql_insert_def list_ex_iff)

lemma mapM_E_Cons_Inr [ok_simps]:
  "mapM_E f (x # xs) w = (Inr u, w') \<longleftrightarrow> (\<exists>w1. f x w = (Inr (), w1) \<and> mapM_E f xs w1 = (Inr u, w'))"
  by (auto simp: bindE_Inr)

subsection \<open>Frames and atomicity\<close>

definition same_store :: "world \<Rightarrow> world \<Rightarrow> bool" where
  "same_store w w' \<longleftrightarrow> w_db w' = w_db w \<and> w_engine w' = w_engine w"

definition quiet :: "('e, 'a) act \<Rightarrow> bool" where
  "quiet m \<longleftrightarrow> (\<forall>w. same_store w (snd (m w)))"

definition atomic :: "('e, 'a) act \<Rightarrow> bool" where
  "atomic m \<longleftrightarrow> (\<forall>w e w'. m w = (Inl e, w') \<longrightarrow> same_store w w')"

definition never_fails :: "('e, 'a) act \<Rightarrow> bool" where
  "never_fails m \<longleftrightarrow> (\<forall>w. \<exists>a w'. m w = (Inr a, w'))"

lemma same_store_refl [simp]: "same_store w w"
  by (simp add: same_store_def)

lemma same_store_trans: "same_store w w1 \<Longrightarrow> same_store w1 w2 \<Longrightarrow> same_store w w2"
  by (simp add: same_store_def)

lemma same_store_simps [simp]:
  "same_store w (tick w1) = same_store w w1" "same_store w (Rollback w1) = same_store w w1"
  "same_store w (w1\<lparr>w_tx := t\<rparr>) = same_store w w1" "same_store w (w1\<lparr>w_abort := b\<rparr>) = same_store w w1"
  "same_store (tick w) w1 = same_store w w1" "same_store (w\<lparr>w_tx := t\<rparr>) w1 = same_store w w1"
  "same_store (w\<lparr>w_abort := b\<rparr>) w1 = same_store w w1"
  by (simp_all add: same_store_def)

lemma quietD: "quiet m \<Longrightarrow> m w = (r, w') \<Longrightarrow> same_store w w'"
  unfolding quiet_def by (metis snd_conv)

lemma quiet_bindE [frame]: "quiet m \<Longrightarrow> (\<And>a. quiet (f a)) \<Longrightarrow> quiet (bindE m f)"
proof -
  assume m: "quiet m" and f: "\<And>a. quiet (f a)"
  have "same_store w (snd (bindE m f w))" for w
  proof (cases "m w")
    case (Pair r w1)
    have 1: "same_store w w1" using quietD [OF m Pair] .
    show ?thesis
    proof (cases r)
      case (Inl e)
      then show ?thesis using Pair 1 by (simp add: bindE_def)
    next
      case (Inr a)
      have "same_store w1 (snd (f a w1))" using f [of a] by (simp add: quiet_def)
      then show ?thesis using Pair Inr same_store_trans [OF 1] by (simp add: bindE_def)
    qed
  qed
  then show ?thesis by (simp add: quiet_def)
qed

lemma quiet_mapE [frame]: "quiet m \<Longrightarrow> quiet (mapE g m)"
  unfolding quiet_def mapE_def by (auto split: prod.splits sum.splits) (metis snd_conv)+

lemma quiet_wrapE [frame]: "quiet m \<Longrightarrow> quiet (wrapE pre m)"
  by (simp add: wrapE_def quiet_mapE)

lemma quiet_tryE [frame]: "quiet m \<Longrightarrow> quiet (tryE m)"
  unfolding quiet_def tryE_def by (auto split: prod.splits) (metis snd_conv)

lemma quiet_basic [frame]:
  "quiet (returnE a)" "quiet (throwE e)" "quiet (liftE r)" "quiet (guardE c e)" "quiet NewV7" "quiet Now"
  "quiet Begin" "quiet (first_row rows)" "quiet (pool_query q)" "quiet (tx_exec f)"
  by (auto simp: quiet_def returnE_def throwE_def liftE_def guardE_def NewV7_def Now_def Begin_def first_row_def
      pool_query_def tx_exec_def split: option.splits list.splits sum.splits)

lemma quiet_queries [frame]: "quiet (tx_query_row q)" "quiet (pool_query_row q)" "quiet (pool_list l)"
  by (auto simp: tx_query_row_def pool_query_row_def pool_list_def intro!: frame)

lemma quiet_cases [frame]:
  "(c \<Longrightarrow> quiet m) \<Longrightarrow> (\<not> c \<Longrightarrow> quiet m') \<Longrightarrow> quiet (if c then m else m')"
  "(x = None \<Longrightarrow> quiet m) \<Longrightarrow> (\<And>a. x = Some a \<Longrightarrow> quiet (g a)) \<Longrightarrow> quiet (case x of None \<Rightarrow> m | Some a \<Rightarrow> g a)"
  "(\<And>a b. p = (a, b) \<Longrightarrow> quiet (k a b)) \<Longrightarrow> quiet (case p of (a, b) \<Rightarrow> k a b)"
  "(\<And>e. s = Inl e \<Longrightarrow> quiet (h e)) \<Longrightarrow> (\<And>a. s = Inr a \<Longrightarrow> quiet (h' a)) \<Longrightarrow> quiet (case s of Inl e \<Rightarrow> h e | Inr a \<Rightarrow> h' a)"
  by (auto split: option.splits prod.splits sum.splits)

lemma quiet_Let [frame]: "(\<And>x. quiet (f x)) \<Longrightarrow> quiet (let x = v in f x)"
  by simp

lemma quiet_mapM_E [frame]: "(\<And>x. quiet (f x)) \<Longrightarrow> quiet (mapM_E f xs)"
  by (induction xs) (auto intro!: frame)

lemma quiet_atomic: "quiet m \<Longrightarrow> atomic m"
  unfolding atomic_def using quietD by blast

lemma atomic_Commit: "atomic (commit_tx pre)"
  by (auto simp: atomic_def commit_tx_def wrapE_def mapE_Inl Commit_def split: option.splits if_splits)

text \<open>Sequencing: what comes before the failing part is quiet, what comes after a commit cannot fail.\<close>

lemma atomic_bind: "quiet m \<Longrightarrow> (\<And>a. atomic (f a)) \<Longrightarrow> atomic (bindE m f)"
proof -
  assume m: "quiet m" and f: "\<And>a. atomic (f a)"
  have "same_store w w'" if "bindE m f w = (Inl e, w')" for w e w'
    using that unfolding bindE_Inl
  proof
    assume "m w = (Inl e, w')"
    then show ?thesis by (rule quietD [OF m])
  next
    assume "\<exists>a w1. m w = (Inr a, w1) \<and> f a w1 = (Inl e, w')"
    then obtain a w1 where "m w = (Inr a, w1)" and "f a w1 = (Inl e, w')" by blast
    then have "same_store w w1" "same_store w1 w'"
      using quietD [OF m] f [of a] by (auto simp: atomic_def)
    then show ?thesis by (rule same_store_trans)
  qed
  then show ?thesis by (simp add: atomic_def)
qed

lemma atomic_bind_after: "atomic m \<Longrightarrow> (\<And>a. never_fails (f a)) \<Longrightarrow> atomic (bindE m f)"
proof -
  assume m: "atomic m" and f: "\<And>a. never_fails (f a)"
  have "m w = (Inl e, w')" if "bindE m f w = (Inl e, w')" for w e w'
  proof -
    have "f a w1 \<noteq> (Inl e, w')" for a w1
    proof -
      obtain b w2 where "f a w1 = (Inr b, w2)" using f [of a] unfolding never_fails_def by blast
      then show ?thesis by simp
    qed
    then show ?thesis using that by (auto simp: bindE_Inl)
  qed
  then show ?thesis using m by (auto simp: atomic_def)
qed

lemma atomic_commit_bind: "(\<And>a. never_fails (f a)) \<Longrightarrow> atomic (bindE (commit_tx pre) f)"
  by (rule atomic_bind_after [OF atomic_Commit])

lemma atomic_mapE: "atomic m \<Longrightarrow> atomic (mapE g m)"
  unfolding atomic_def by (auto simp: mapE_Inl)

lemma atomic_wrapE: "atomic m \<Longrightarrow> atomic (wrapE pre m)"
  by (simp add: wrapE_def atomic_mapE)

lemma atomic_with_tx: "quiet b \<Longrightarrow> atomic body \<Longrightarrow> atomic (with_tx b body)"
proof -
  assume b: "quiet b" and "atomic body"
  then have "atomic (\<lambda>w. case body w of (r, w') \<Rightarrow> (r, Rollback w'))"
    unfolding atomic_def by (auto split: prod.splits)
  then show ?thesis unfolding with_tx_def by (intro atomic_bind b)
qed

lemma quiet_with_tx [frame]: "quiet b \<Longrightarrow> quiet body \<Longrightarrow> quiet (with_tx b body)"
proof -
  assume b: "quiet b" and q: "quiet body"
  then have "quiet (\<lambda>w. case body w of (r, w') \<Rightarrow> (r, Rollback w'))"
    unfolding quiet_def by (auto split: prod.splits) (metis snd_conv)
  then show ?thesis unfolding with_tx_def by (intro quiet_bindE b)
qed

lemma atomic_in_tx: "atomic body \<Longrightarrow> atomic (in_tx pre body)"
  unfolding in_tx_def by (intro atomic_with_tx frame)

lemma quiet_in_tx [frame]: "quiet body \<Longrightarrow> quiet (in_tx pre body)"
  unfolding in_tx_def by (intro frame)

lemma atomic_cases:
  "(c \<Longrightarrow> atomic m) \<Longrightarrow> (\<not> c \<Longrightarrow> atomic m') \<Longrightarrow> atomic (if c then m else m')"
  "(x = None \<Longrightarrow> atomic m) \<Longrightarrow> (\<And>a. x = Some a \<Longrightarrow> atomic (g a)) \<Longrightarrow> atomic (case x of None \<Rightarrow> m | Some a \<Rightarrow> g a)"
  "(\<And>a b. p = (a, b) \<Longrightarrow> atomic (k a b)) \<Longrightarrow> atomic (case p of (a, b) \<Rightarrow> k a b)"
  "(\<And>e. s = Inl e \<Longrightarrow> atomic (h e)) \<Longrightarrow> (\<And>a. s = Inr a \<Longrightarrow> atomic (h' a)) \<Longrightarrow> atomic (case s of Inl e \<Rightarrow> h e | Inr a \<Rightarrow> h' a)"
  by (auto split: option.splits prod.splits sum.splits)

lemma atomic_Let: "(\<And>x. atomic (f x)) \<Longrightarrow> atomic (let x = v in f x)"
  by simp

lemma never_fails_basic: "never_fails (returnE a)" "never_fails Now" "never_fails (tryE m)"
  by (auto simp: never_fails_def returnE_def Now_def tryE_def split: prod.splits)

lemma never_fails_bind: "never_fails m \<Longrightarrow> (\<And>a. never_fails (f a)) \<Longrightarrow> never_fails (bindE m f)"
  unfolding never_fails_def by (meson bindE_Inr)

lemma atomic_failed: "atomic m \<Longrightarrow> m w = (Inl e, w') \<Longrightarrow> w_db w' = w_db w \<and> w_engine w' = w_engine w"
  by (auto simp: atomic_def same_store_def)

lemmas atomic_rules = atomic_in_tx atomic_wrapE atomic_mapE atomic_cases atomic_Let quiet_atomic [OF quiet_basic(2)]
  quiet_atomic [OF quiet_basic(3)]

lemmas after_commit = never_fails_basic never_fails_bind

end
