(* ===== verification/Deps.thy ===== *)
theory Deps
  imports Frames
begin

text \<open>
  The third-party functions the services call, as one parameter, with what the code relies on:
  pgx reads a NUMERIC column as its value, prints it as text that reads back, and google/uuid prints
  a UUID as text that parses back. \<open>ref_deps\<close> is a concrete instance for the witnesses.
\<close>

record deps =
  dp_scan :: "string \<Rightarrow> pgnumeric option"
  dp_num :: "sqlnum \<Rightarrow> pgnumeric"
  dp_value :: "pgnumeric \<Rightarrow> gerr + string option"
  dp_uuid_str :: "uuid \<Rightarrow> string"
  dp_uuid_parse :: "string \<Rightarrow> uuid option"

text \<open>A NUMERIC value read into \<open>pgtype.Numeric\<close>; a NaN has no coefficient.\<close>

definition reads_numerics :: "deps \<Rightarrow> bool" where
  "reads_numerics dp \<longleftrightarrow>
     (\<forall>k. plain_num (dp_num dp (QNum k)) \<and> toRat (dp_num dp (QNum k)) = of_units k) \<and>
     num_Valid (dp_num dp QNaN) \<and> num_NaN (dp_num dp QNaN) \<and> toRat (dp_num dp QNaN) = 0"

text \<open>The text of \<open>Numeric.Value\<close> parses back to the value.\<close>

definition prints_numerics :: "deps \<Rightarrow> bool" where
  "prints_numerics dp \<longleftrightarrow>
     (\<forall>k. \<exists>t n. dp_value dp (dp_num dp (QNum k)) = Inr (Some t) \<and> num_Parse (dp_scan dp) t = Inr n
        \<and> toRat n = of_units k)"

definition deps_ok :: "deps \<Rightarrow> bool" where
  "deps_ok dp \<longleftrightarrow> scans_decimals (dp_scan dp) \<and> reads_numerics dp \<and> prints_numerics dp \<and>
     (\<forall>u. dp_uuid_parse dp (dp_uuid_str dp u) = Some u)"

definition ref_num :: "sqlnum \<Rightarrow> pgnumeric" where
  "ref_num q =
     (case q of
        QNum k \<Rightarrow> \<lparr>num_Int = Some k, num_Exp = - 10, num_NaN = False, num_Inf = 0, num_Valid = True\<rparr>
      | QNaN \<Rightarrow> \<lparr>num_Int = None, num_Exp = 0, num_NaN = True, num_Inf = 0, num_Valid = True\<rparr>)"

definition ref_deps :: deps where
  "ref_deps =
     \<lparr>dp_scan = ref_scan, dp_num = ref_num, dp_value = (\<lambda>n. Inr (Some (num_String n))),
      dp_uuid_str = (\<lambda>u. utoa (unat u)),
      dp_uuid_parse = (\<lambda>s. Some (of_nat (atou s)))\<rparr>"

lemma ref_num_plain: "plain_num (ref_num (QNum k))" "toRat (ref_num (QNum k)) = of_units k"
  by (simp_all add: ref_num_def plain_num_def toRat_def of_units_def big_pow10_def)

lemma deps_ok_ref_deps: "deps_ok ref_deps"
proof -
  have s: "scans_decimals (dp_scan ref_deps)" by (simp add: ref_deps_def scans_decimals_ref_scan)
  moreover have "reads_numerics ref_deps"
    by (simp add: reads_numerics_def ref_deps_def ref_num_plain) (simp add: ref_num_def toRat_def)
  moreover have "prints_numerics ref_deps"
    unfolding prints_numerics_def
  proof
    fix k
    show "\<exists>t n. dp_value ref_deps (dp_num ref_deps (QNum k)) = Inr (Some t) \<and>
        num_Parse (dp_scan ref_deps) t = Inr n \<and> toRat n = of_units k"
      using num_Parse_String [OF s, of "ref_num (QNum k)"] ref_num_plain [of k]
      by (fastforce simp: ref_deps_def plain_num_def)
  qed
  moreover have "dp_uuid_parse ref_deps (dp_uuid_str ref_deps u) = Some u" for u
    by (simp add: ref_deps_def atou_utoa)
  ultimately show ?thesis by (simp add: deps_ok_def)
qed

lemma deps_okD:
  assumes "deps_ok dp"
  shows "scans_decimals (dp_scan dp)" and "plain_num (dp_num dp (QNum k))"
    and "toRat (dp_num dp (QNum k)) = of_units k" and "dp_uuid_parse dp (dp_uuid_str dp u) = Some u"
  using assms by (simp_all add: deps_ok_def reads_numerics_def)

lemma num_param_plain: "plain_num n \<Longrightarrow> num_param n = Some (PRat (toRat n))"
  by (simp add: num_param_def plain_num_def)

end
