(* ===== verification/Ledger.thy ===== *)
theory Ledger
  imports Deps
begin

text \<open>
  internal/ledger: the append-only ledger, its store and service. Balances are sums over the entries.
\<close>

subsection \<open>Store (ledger/store.go)\<close>

definition num_row :: "pgnumeric \<Rightarrow> db_error + sqlnum" where
  "num_row n = numeric_30_10 (num_param n)"

definition insert_ledger :: "pgnumeric ledger_entry \<Rightarrow> db \<Rightarrow> db_error + unit \<times> db" where
  "insert_ledger e d =
     (case num_row (le_Amount e) of
        Inl err \<Rightarrow> Inl err
      | Inr amt \<Rightarrow>
          (case sql_insert (varchar 20 (le_Asset e) \<and> varchar 20 (le_EntryType e) \<and> varchar 20 (le_RefType e))
                  (\<lambda>a b. le_ID a = le_ID b)
                  \<lparr>le_ID = le_ID e, le_UserID = le_UserID e, le_AccountID = le_AccountID e, le_Asset = le_Asset e,
                   le_Amount = amt, le_EntryType = le_EntryType e, le_RefType = le_RefType e, le_RefID = le_RefID e,
                   le_CreatedAt = le_CreatedAt e\<rparr>
                  (db_ledger d) of
             Inl err \<Rightarrow> Inl err
           | Inr rows \<Rightarrow> Inr ((), d\<lparr>db_ledger := rows\<rparr>)))"

definition ledgerStore_Insert :: "pgnumeric ledger_entry \<Rightarrow> (gerr, unit) act" where
  "ledgerStore_Insert e = wrapE ''ledgerStore.Insert: '' (mapE db_gerr (tx_exec (\<lambda>d now. insert_ledger e d)))"

record list_filter =
  lf_UserID :: uuid
  lf_Asset :: string
  lf_EntryTypes :: "string list"
  lf_From :: "gotime option"
  lf_To :: "gotime option"
  lf_Limit :: int
  lf_Offset :: int

datatype sqlarg = ArgUUID uuid | ArgText string | ArgTexts "string list" | ArgTime gotime | ArgInt int

text \<open>
  The conditions \<open>buildWhere\<close> puts together, by the number of the placeholder each refers to.
\<close>

datatype cond = CUser nat | CAsset nat | CTypes nat | CFrom nat | CTo nat

fun cond_sql :: "cond \<Rightarrow> string" where
  "cond_sql (CUser i) = ''user_id = $'' @ utoa i"
| "cond_sql (CAsset i) = ''asset = $'' @ utoa i"
| "cond_sql (CTypes i) = ''entry_type = ANY($'' @ utoa i @ '')''"
| "cond_sql (CFrom i) = ''created_at >= $'' @ utoa i"
| "cond_sql (CTo i) = ''created_at < $'' @ utoa i"

definition buildWhere :: "list_filter \<Rightarrow> cond list \<times> sqlarg list \<times> nat" where
  "buildWhere f =
     (let conds = [CUser 1]; args = [ArgUUID (lf_UserID f)]; idx = 2;
          (conds, args, idx) =
            (if lf_Asset f \<noteq> [] then (conds @ [CAsset idx], args @ [ArgText (lf_Asset f)], idx + 1) else (conds, args, idx));
          (conds, args, idx) =
            (if 0 < length (lf_EntryTypes f)
             then (conds @ [CTypes idx], args @ [ArgTexts (lf_EntryTypes f)], idx + 1) else (conds, args, idx));
          (conds, args, idx) =
            (case lf_From f of Some t \<Rightarrow> (conds @ [CFrom idx], args @ [ArgTime t], idx + 1) | None \<Rightarrow> (conds, args, idx));
          (conds, args, idx) =
            (case lf_To f of Some t \<Rightarrow> (conds @ [CTo idx], args @ [ArgTime t], idx + 1) | None \<Rightarrow> (conds, args, idx)) in
      (conds, args, idx))"

text \<open>The text of the clause, and its meaning with the arguments: placeholder \<open>i\<close> is the i-th argument.\<close>

fun join_and :: "string list \<Rightarrow> string" where
  "join_and [] = []"
| "join_and [s] = s"
| "join_and (s # ss) = s @ '' AND '' @ join_and ss"

definition where_sql :: "cond list \<Rightarrow> string" where
  "where_sql cs = join_and (map cond_sql cs)"

definition sql_arg :: "sqlarg list \<Rightarrow> nat \<Rightarrow> sqlarg option" where
  "sql_arg args i = (if 1 \<le> i \<and> i \<le> length args then Some (args ! (i - 1)) else None)"

fun cond_holds :: "sqlarg list \<Rightarrow> cond \<Rightarrow> 'n ledger_entry \<Rightarrow> bool" where
  "cond_holds args (CUser i) r = (sql_arg args i = Some (ArgUUID (le_UserID r)))"
| "cond_holds args (CAsset i) r = (sql_arg args i = Some (ArgText (le_Asset r)))"
| "cond_holds args (CTypes i) r =
     (case sql_arg args i of Some (ArgTexts ts) \<Rightarrow> le_EntryType r \<in> set ts | _ \<Rightarrow> False)"
| "cond_holds args (CFrom i) r = (case sql_arg args i of Some (ArgTime t) \<Rightarrow> t \<le> le_CreatedAt r | _ \<Rightarrow> False)"
| "cond_holds args (CTo i) r = (case sql_arg args i of Some (ArgTime t) \<Rightarrow> le_CreatedAt r < t | _ \<Rightarrow> False)"

definition where_holds :: "cond list \<Rightarrow> sqlarg list \<Rightarrow> 'n ledger_entry \<Rightarrow> bool" where
  "where_holds cs args r = list_all (\<lambda>c. cond_holds args c r) cs"

fun arg_int :: "sqlarg option \<Rightarrow> int" where
  "arg_int (Some (ArgInt k)) = k"
| "arg_int _ = -1"

definition read_entry :: "deps \<Rightarrow> sqlnum ledger_entry \<Rightarrow> pgnumeric ledger_entry" where
  "read_entry dp r =
     \<lparr>le_ID = le_ID r, le_UserID = le_UserID r, le_AccountID = le_AccountID r, le_Asset = le_Asset r,
      le_Amount = dp_num dp (le_Amount r), le_EntryType = le_EntryType r, le_RefType = le_RefType r,
      le_RefID = le_RefID r, le_CreatedAt = le_CreatedAt r\<rparr>"

definition ledgerStore_ListByUser :: "deps \<Rightarrow> list_filter \<Rightarrow> (gerr, pgnumeric ledger_entry list) act" where
  "ledgerStore_ListByUser dp f =
     (let (cs, args, idx) = buildWhere f;
          args = args @ [ArgInt (lf_Limit f), ArgInt (lf_Offset f)] in
      wrapE ''ledgerStore.ListByUser: '' (mapE db_gerr (bindE
        (pool_list (\<lambda>d. sql_page (arg_int (sql_arg args idx)) (arg_int (sql_arg args (idx + 1)))
           (order_desc le_CreatedAt (order_desc (\<lambda>r. uint (le_ID r)) (filter (where_holds cs args) (db_ledger d))))))
        (\<lambda>rows. returnE (map (read_entry dp) rows)))))"

definition ledgerStore_CountByUser :: "list_filter \<Rightarrow> (gerr, int) act" where
  "ledgerStore_CountByUser f =
     (let (cs, args, _) = buildWhere f in
      wrapE ''ledgerStore.CountByUser: '' (mapE db_gerr
        (pool_query (\<lambda>d. int (length (filter (where_holds cs args) (db_ledger d)))))))"

text \<open>\<open>COALESCE(SUM(amount), 0)\<close>; a NaN entry makes the sum NaN.\<close>

definition balance :: "uuid \<Rightarrow> string \<Rightarrow> db \<Rightarrow> sqlnum" where
  "balance u asset d =
     sql_sum (map le_Amount (filter (\<lambda>r. le_UserID r = u \<and> le_Asset r = asset) (db_ledger d)))"

definition ledgerStore_SumByUserAsset :: "deps \<Rightarrow> uuid \<Rightarrow> string \<Rightarrow> (gerr, string) act" where
  "ledgerStore_SumByUserAsset dp u asset =
     bindE (wrapE ''ledgerStore.SumByUserAsset: '' (mapE db_gerr (pool_query (balance u asset))))
       (\<lambda>q. let sum = dp_num dp q in
          if \<not> num_Valid sum then returnE ''0''
          else bindE (wrapE ''ledgerStore.SumByUserAsset numeric value: '' (liftE (dp_value dp sum)))
            (\<lambda>text. returnE (case text of None \<Rightarrow> ''0'' | Some t \<Rightarrow> t)))"

subsection \<open>Service (ledger/service.go)\<close>

definition ledgerService_Insert :: "pgnumeric ledger_entry \<Rightarrow> (gerr, unit) act" where
  "ledgerService_Insert e = wrapE ''ledgerService.Insert: '' (ledgerStore_Insert e)"

definition ledgerService_SumByUserAsset :: "deps \<Rightarrow> uuid \<Rightarrow> string \<Rightarrow> (gerr, string) act" where
  "ledgerService_SumByUserAsset dp u asset =
     wrapE ''ledgerService.SumByUserAsset: '' (ledgerStore_SumByUserAsset dp u asset)"

definition ledgerService_ListByUser :: "deps \<Rightarrow> list_filter \<Rightarrow> (gerr, pgnumeric ledger_entry list) act" where
  "ledgerService_ListByUser dp f = wrapE ''ledgerService.ListByUser: '' (ledgerStore_ListByUser dp f)"

definition ledgerService_CountByUser :: "list_filter \<Rightarrow> (gerr, int) act" where
  "ledgerService_CountByUser f = wrapE ''ledgerService.CountByUser: '' (ledgerStore_CountByUser f)"

subsection \<open>Facts\<close>

lemma quiet_ledger [frame]:
  "quiet (ledgerStore_Insert e)" "quiet (ledgerStore_SumByUserAsset dp u a)" "quiet (ledgerStore_ListByUser dp f)"
  "quiet (ledgerStore_CountByUser f)" "quiet (ledgerService_Insert e)" "quiet (ledgerService_SumByUserAsset dp u a)"
  "quiet (ledgerService_ListByUser dp f)" "quiet (ledgerService_CountByUser f)"
  by (auto simp: ledgerStore_Insert_def ledgerStore_SumByUserAsset_def ledgerStore_ListByUser_def
      ledgerStore_CountByUser_def ledgerService_Insert_def ledgerService_SumByUserAsset_def
      ledgerService_ListByUser_def ledgerService_CountByUser_def Let_def split_def intro!: frame)

definition ledger_row :: "pgnumeric ledger_entry \<Rightarrow> sqlnum \<Rightarrow> sqlnum ledger_entry" where
  "ledger_row e amt =
     \<lparr>le_ID = le_ID e, le_UserID = le_UserID e, le_AccountID = le_AccountID e, le_Asset = le_Asset e,
      le_Amount = amt, le_EntryType = le_EntryType e, le_RefType = le_RefType e, le_RefID = le_RefID e,
      le_CreatedAt = le_CreatedAt e\<rparr>"

lemma ledger_row_simps [simp]:
  "le_ID (ledger_row e amt) = le_ID e" "le_UserID (ledger_row e amt) = le_UserID e"
  "le_Asset (ledger_row e amt) = le_Asset e" "le_Amount (ledger_row e amt) = amt"
  "le_EntryType (ledger_row e amt) = le_EntryType e" "le_RefID (ledger_row e amt) = le_RefID e"
  "le_RefType (ledger_row e amt) = le_RefType e" "le_AccountID (ledger_row e amt) = le_AccountID e"
  by (simp_all add: ledger_row_def)

lemma insert_ledger_Inr [ok_simps]:
  "insert_ledger e d = Inr (u, d') \<longleftrightarrow>
     (\<exists>amt. num_row (le_Amount e) = Inr amt \<and> d' = d\<lparr>db_ledger := db_ledger d @ [ledger_row e amt]\<rparr> \<and>
        varchar 20 (le_Asset e) \<and> varchar 20 (le_EntryType e) \<and> varchar 20 (le_RefType e) \<and>
        (\<forall>r \<in> set (db_ledger d). le_ID e \<noteq> le_ID r))"
  by (cases "num_row (le_Amount e)") (auto simp: insert_ledger_def ledger_row_def sql_insert_case)

lemma balance_append:
  "db_ledger d' = db_ledger d @ es \<Longrightarrow>
   balance u a d' = sql_add (balance u a d) (sql_sum (map le_Amount (filter (\<lambda>r. le_UserID r = u \<and> le_Asset r = a) es)))"
  by (simp add: balance_def)

lemma balance_same: "db_ledger d' = db_ledger d \<Longrightarrow> balance u a d' = balance u a d"
  by (simp add: balance_def)

text \<open>The WHERE clause and its arguments select exactly the entries of the filter.\<close>

definition filter_matches :: "list_filter \<Rightarrow> 'n ledger_entry \<Rightarrow> bool" where
  "filter_matches f r \<longleftrightarrow>
     le_UserID r = lf_UserID f \<and> (lf_Asset f = [] \<or> le_Asset r = lf_Asset f) \<and>
     (lf_EntryTypes f = [] \<or> le_EntryType r \<in> set (lf_EntryTypes f)) \<and>
     (\<forall>t. lf_From f = Some t \<longrightarrow> t \<le> le_CreatedAt r) \<and> (\<forall>t. lf_To f = Some t \<longrightarrow> le_CreatedAt r < t)"

lemma buildWhere_filter:
  assumes "buildWhere f = (cs, args, idx)"
  shows "where_holds cs (args @ rest) r = filter_matches f r" and "idx = length args + 1"
  using assms
  by (cases "lf_From f"; cases "lf_To f";
      auto simp: buildWhere_def where_holds_def filter_matches_def sql_arg_def nth_append Let_def split: if_splits)+

lemma num_row_plain: "plain_num n \<Longrightarrow> \<bar>dec_units (toRat n)\<bar> < 10 ^ 30 \<Longrightarrow> num_row n = Inr (QNum (dec_units (toRat n)))"
  by (simp add: num_row_def num_param_plain)

lemma num_row_plainD: "plain_num n \<Longrightarrow> num_row n = Inr q \<Longrightarrow> q = QNum (dec_units (toRat n))"
  by (auto simp: num_row_def num_param_plain Let_def split: if_splits)

subsection \<open>The ledger as its clients see it\<close>

text \<open>
  What the services that post entries rely on: inserting an entry adds its amount, in units of the
  column, to the balance of its user and asset and to no other.
\<close>

definition entry_units :: "uuid \<Rightarrow> string \<Rightarrow> pgnumeric ledger_entry \<Rightarrow> int" where
  "entry_units u a e = (if le_UserID e = u \<and> le_Asset e = a then dec_units (toRat (le_Amount e)) else 0)"

locale ledger_contract =
  fixes ins :: "pgnumeric ledger_entry \<Rightarrow> 'd \<Rightarrow> 'err + unit \<times> 'd"
    and bal :: "uuid \<Rightarrow> string \<Rightarrow> 'd \<Rightarrow> sqlnum"
  assumes ins_bal: "ins e d = Inr (x, d') \<Longrightarrow> plain_num (le_Amount e) \<Longrightarrow>
      bal u a d' = sql_add (bal u a d) (QNum (entry_units u a e))"
begin

fun ins_all :: "pgnumeric ledger_entry list \<Rightarrow> 'd \<Rightarrow> 'err + unit \<times> 'd" where
  "ins_all [] d = Inr ((), d)"
| "ins_all (e # es) d = (case ins e d of Inl err \<Rightarrow> Inl err | Inr (_, d') \<Rightarrow> ins_all es d')"

lemma ins_all_bal:
  "ins_all es d = Inr (x, d') \<Longrightarrow> \<forall>e \<in> set es. plain_num (le_Amount e) \<Longrightarrow>
   bal u a d' = sql_add (bal u a d) (QNum (sum_list (map (entry_units u a) es)))"
proof (induction es arbitrary: d)
  case Nil
  then show ?case by simp
next
  case (Cons e es)
  obtain d1 where d1: "ins e d = Inr ((), d1)" "ins_all es d1 = Inr (x, d')"
    using Cons.prems(1) by (auto split: sum.splits)
  then have "bal u a d' = sql_add (bal u a d1) (QNum (sum_list (map (entry_units u a) es)))"
    using Cons by auto
  moreover have "bal u a d1 = sql_add (bal u a d) (QNum (entry_units u a e))"
    using ins_bal [OF d1(1)] Cons.prems(2) by simp
  ultimately show ?case by (simp add: sql_add_assoc)
qed

text \<open>Posting an entry and its reverse leaves every balance as it was.\<close>

lemma ins_reverse:
  assumes "ins e d = Inr (x, d1)" and "ins e' d1 = Inr (x', d2)" and "plain_num (le_Amount e)" "plain_num (le_Amount e')"
    and "le_UserID e' = le_UserID e" and "le_Asset e' = le_Asset e"
    and "dec_units (toRat (le_Amount e')) = - dec_units (toRat (le_Amount e))"
  shows "bal u a d2 = bal u a d"
  using ins_bal [OF assms(1,3)] ins_bal [OF assms(2,4)] assms(5-7)
  by (simp add: sql_add_assoc entry_units_def)

end

interpretation lg: ledger_contract insert_ledger balance
proof
  fix e :: "pgnumeric ledger_entry" and d d' :: db and x u a
  assume "insert_ledger e d = Inr (x, d')" and p: "plain_num (le_Amount e)"
  then obtain amt where amt: "num_row (le_Amount e) = Inr amt" "d' = d\<lparr>db_ledger := db_ledger d @ [ledger_row e amt]\<rparr>"
    by (auto simp: insert_ledger_Inr)
  then show "balance u a d' = sql_add (balance u a d) (QNum (entry_units u a e))"
    using num_row_plainD [OF p amt(1)]
    by (subst balance_append [of d' d "[ledger_row e amt]"]) (auto simp: entry_units_def)
qed

subsection \<open>Properties\<close>

text \<open>
  The dynamic WHERE clause: whatever combination of asset, entry types and time bounds a filter
  has, the placeholders and arguments \<open>buildWhere\<close> puts together line up, so that \<open>ListByUser\<close> returns
  exactly the requested page of the entries that satisfy the filter, newest first, and \<open>CountByUser\<close>
  their number over all pages.
\<close>
theorem ledger_list_count:
  assumes "\<not> faulty w" and "0 \<le> lf_Limit f" and "0 \<le> lf_Offset f"
  shows "fst (ledgerService_ListByUser dp f w) =
       Inr (map (read_entry dp) (take (nat (lf_Limit f)) (drop (nat (lf_Offset f))
         (order_desc le_CreatedAt (order_desc (\<lambda>r. uint (le_ID r)) (filter (filter_matches f) (db_ledger (w_db w))))))))
     \<and> fst (ledgerService_CountByUser f w) = Inr (int (length (filter (filter_matches f) (db_ledger (w_db w)))))"
proof -
  obtain cs args idx where bw: "buildWhere f = (cs, args, idx)" by (metis prod_cases3)
  have idx: "idx = length args + 1" using buildWhere_filter(2) [OF bw] .
  have "where_holds cs (args @ [ArgInt (lf_Limit f), ArgInt (lf_Offset f)]) = (filter_matches f :: sqlnum ledger_entry \<Rightarrow> bool)"
    "where_holds cs args = (filter_matches f :: sqlnum ledger_entry \<Rightarrow> bool)"
    using buildWhere_filter(1) [OF bw] buildWhere_filter(1) [OF bw, of "[]"] by (auto simp: fun_eq_iff)
  then show ?thesis
    using assms idx
    by (simp add: ledgerService_ListByUser_def ledgerStore_ListByUser_def ledgerService_CountByUser_def
        ledgerStore_CountByUser_def bw wrapE_def mapE_def bindE_def pool_list_def pool_query_def liftE_def returnE_def
        sql_arg_def nth_append sql_page_def)
qed

definition empty_db :: db where
  "empty_db =
     \<lparr>db_users = [], db_accounts = [], db_ledger = [], db_idem = [], db_outbox = [], db_orders = [], db_trades = [],
      db_wallets = [], db_deposits = [], db_withdrawals = [], db_assets = [], db_networks = []\<rparr>"

definition ex_env :: env where
  "ex_env = \<lparr>e_fault = (\<lambda>_. False), e_uuid = (\<lambda>n. Some (of_nat n + 1000)), e_now = (\<lambda>n. int n)\<rparr>"

definition ex_world :: "db \<Rightarrow> world" where
  "ex_world d = \<lparr>w_db = d, w_tx = None, w_abort = False, w_tick = 0, w_env = ex_env, w_engine = None\<rparr>"

definition ex_entry :: "uuid \<Rightarrow> uuid \<Rightarrow> string \<Rightarrow> int \<Rightarrow> string \<Rightarrow> gotime \<Rightarrow> sqlnum ledger_entry" where
  "ex_entry i u asset k ty t =
     \<lparr>le_ID = i, le_UserID = u, le_AccountID = 7, le_Asset = asset, le_Amount = QNum k, le_EntryType = ty,
      le_RefType = RefTypeOrder, le_RefID = 9, le_CreatedAt = t\<rparr>"

lemma ex_world_simps [simp]:
  "w_db (ex_world d) = d" "w_tx (ex_world d) = None" "w_abort (ex_world d) = False" "w_tick (ex_world d) = 0"
  "w_env (ex_world d) = ex_env" "w_engine (ex_world d) = None" "\<not> faulty (ex_world d)"
  "e_fault ex_env n = False" "e_uuid ex_env n = Some (of_nat n + 1000)" "e_now ex_env n = int n"
  by (simp_all add: ex_world_def faulty_def ex_env_def)

lemma ledger_list_count_witness:
  "fst (ledgerService_CountByUser
      \<lparr>lf_UserID = 5, lf_Asset = ''BTC'', lf_EntryTypes = [''TRADE''], lf_From = Some 3, lf_To = None, lf_Limit = 10, lf_Offset = 0\<rparr>
      (ex_world (empty_db\<lparr>db_ledger := [ex_entry 1 5 ''BTC'' 4 ''TRADE'' 2, ex_entry 2 5 ''BTC'' 4 ''TRADE'' 3,
         ex_entry 3 6 ''BTC'' 4 ''TRADE'' 3, ex_entry 4 5 ''ETH'' 4 ''TRADE'' 4]\<rparr>))) = Inr 1"
  using conjunct2 [OF ledger_list_count [of "ex_world (empty_db\<lparr>db_ledger := [ex_entry 1 5 ''BTC'' 4 ''TRADE'' 2,
      ex_entry 2 5 ''BTC'' 4 ''TRADE'' 3, ex_entry 3 6 ''BTC'' 4 ''TRADE'' 3, ex_entry 4 5 ''ETH'' 4 ''TRADE'' 4]\<rparr>)"
      "\<lparr>lf_UserID = 5, lf_Asset = ''BTC'', lf_EntryTypes = [''TRADE''], lf_From = Some 3, lf_To = None, lf_Limit = 10, lf_Offset = 0\<rparr>"
      ref_deps]]
  by (simp add: filter_matches_def ex_entry_def empty_db_def)

text \<open>A balance is read back as the exact sum of the entries.\<close>

lemma Sum_reads_balance:
  assumes "prints_numerics dp" and "reads_numerics dp" and "\<not> faulty w" and "balance u a (w_db w) = QNum k"
  shows "\<exists>t n. ledgerStore_SumByUserAsset dp u a w = (Inr t, tick w) \<and> num_Parse (dp_scan dp) t = Inr n \<and> toRat n = of_units k"
proof -
  obtain t n where t: "dp_value dp (dp_num dp (QNum k)) = Inr (Some t)" "num_Parse (dp_scan dp) t = Inr n" "toRat n = of_units k"
    using assms(1) unfolding prints_numerics_def by blast
  have "num_Valid (dp_num dp (QNum k))" using assms(2) by (simp add: reads_numerics_def plain_num_def)
  then have "ledgerStore_SumByUserAsset dp u a w = (Inr t, tick w)"
    using assms(3,4) t(1)
    by (simp add: ledgerStore_SumByUserAsset_def bindE_def wrapE_def mapE_def pool_query_def liftE_def returnE_def)
  then show ?thesis using t by blast
qed

end
