(* ===== verification/Outbox.thy ===== *)
theory Outbox
  imports Ledger
begin

text \<open>
  internal/outbox: events are inserted in the transaction of the change they announce, and a
  publisher hands the pending ones to a handler and marks them.
\<close>

subsection \<open>Store (outbox/store.go)\<close>

definition insert_outbox :: "uuid \<Rightarrow> string \<Rightarrow> json \<Rightarrow> gotime \<Rightarrow> db \<Rightarrow> db_error + unit \<times> db" where
  "insert_outbox i ty payload t d =
     (case sql_insert (varchar 50 ty) (\<lambda>a b. ev_ID a = ev_ID b)
             \<lparr>ev_ID = i, ev_EventType = ty, ev_Payload = payload, ev_Status = StatusPending, ev_Retries = 0,
              ev_ProcessedAt = None, ev_CreatedAt = t\<rparr> (db_outbox d) of
        Inl e \<Rightarrow> Inl e
      | Inr rows \<Rightarrow> Inr ((), d\<lparr>db_outbox := rows\<rparr>))"

definition outboxStore_Insert :: "uuid \<Rightarrow> string \<Rightarrow> json \<Rightarrow> gotime \<Rightarrow> (gerr, unit) act" where
  "outboxStore_Insert i ty payload t =
     wrapE ''outboxStore.Insert: '' (mapE db_gerr (tx_exec (\<lambda>d _. insert_outbox i ty payload t d)))"

text \<open>The \<open>insertOutbox\<close> helper every service has.\<close>

definition insertOutbox :: "string \<Rightarrow> json \<Rightarrow> (gerr, unit) act" where
  "insertOutbox ty payload = bindE NewV7 (\<lambda>i. bindE Now (\<lambda>now. outboxStore_Insert i ty payload now))"

definition pending :: "outbox_event list \<Rightarrow> outbox_event list" where
  "pending evs = sort_key ev_CreatedAt (filter (\<lambda>e. ev_Status e = StatusPending) evs)"

definition outboxStore_ListPending :: "int \<Rightarrow> (gerr, outbox_event list) act" where
  "outboxStore_ListPending limit =
     wrapE ''outboxStore.ListPending query: '' (mapE db_gerr
       (bindE (tx_exec (\<lambda>d _. Inr (sql_page limit 0 (pending (db_outbox d)), d))) liftE))"

definition update_rows :: "('r \<Rightarrow> bool) \<Rightarrow> ('r \<Rightarrow> 'r) \<Rightarrow> 'r list \<Rightarrow> 'r list" where
  "update_rows P f rows = map (\<lambda>r. if P r then f r else r) rows"

definition outboxStore_MarkProcessed :: "uuid \<Rightarrow> (gerr, unit) act" where
  "outboxStore_MarkProcessed i =
     bindE Now (\<lambda>now. wrapE ''outboxStore.MarkProcessed: '' (mapE db_gerr (tx_exec (\<lambda>d _.
       Inr ((), d\<lparr>db_outbox := update_rows (\<lambda>e. ev_ID e = i)
          (\<lambda>e. e\<lparr>ev_Status := StatusProcessed, ev_ProcessedAt := Some now\<rparr>) (db_outbox d)\<rparr>)))))"

text \<open>\<open>retries\<close> is a 32-bit INTEGER: incrementing its largest value is an error.\<close>

definition outboxStore_IncrementRetries :: "uuid \<Rightarrow> (gerr, unit) act" where
  "outboxStore_IncrementRetries i =
     wrapE ''outboxStore.IncrementRetries: '' (mapE db_gerr (tx_exec (\<lambda>d _.
       if \<exists>e \<in> set (db_outbox d). ev_ID e = i \<and> 2147483647 \<le> ev_Retries e
       then Inl (DbFail ''integer out of range'')
       else Inr ((), d\<lparr>db_outbox := update_rows (\<lambda>e. ev_ID e = i)
          (\<lambda>e. e\<lparr>ev_Retries := ev_Retries e + 1\<rparr>) (db_outbox d)\<rparr>))))"

subsection \<open>Publisher (outbox/publisher.go)\<close>

record publisher =
  pb_handler :: "outbox_event \<Rightarrow> gerr option"
  pb_interval :: int
  pb_batch :: int

definition noopHandler :: "outbox_event \<Rightarrow> gerr option" where
  "noopHandler e = None"

text \<open>The interval is in nanoseconds, as a \<open>time.Duration\<close>.\<close>

definition NewPublisher :: "(outbox_event \<Rightarrow> gerr option) option \<Rightarrow> int \<Rightarrow> publisher" where
  "NewPublisher handler interval =
     \<lparr>pb_handler = (case handler of None \<Rightarrow> noopHandler | Some h \<Rightarrow> h),
      pb_interval = (if interval \<le> 0 then 1000000000 else interval), pb_batch = 50\<rparr>"

definition publish_event :: "publisher \<Rightarrow> outbox_event \<Rightarrow> (gerr, unit) act" where
  "publish_event p e =
     (case pb_handler p e of
        Some err \<Rightarrow> outboxStore_IncrementRetries (ev_ID e)
      | None \<Rightarrow> outboxStore_MarkProcessed (ev_ID e))"

definition processBatch :: "publisher \<Rightarrow> (gerr, unit) act" where
  "processBatch p =
     with_tx (mapE db_gerr Begin)
       (bindE (outboxStore_ListPending (pb_batch p)) (\<lambda>events.
        if events = [] then mapE db_gerr Commit
        else bindE (mapM_E (publish_event p) events) (\<lambda>_. mapE db_gerr Commit)))"

subsection \<open>Facts\<close>

lemma quiet_outbox [frame]:
  "quiet (outboxStore_Insert i ty payload t)" "quiet (insertOutbox ty payload)" "quiet (outboxStore_ListPending n)"
  "quiet (outboxStore_MarkProcessed i)" "quiet (outboxStore_IncrementRetries i)" "quiet (publish_event p e)"
  by (auto simp: outboxStore_Insert_def insertOutbox_def outboxStore_ListPending_def outboxStore_MarkProcessed_def
      outboxStore_IncrementRetries_def publish_event_def intro!: frame)

lemma insert_outbox_Inr [ok_simps]:
  "insert_outbox i ty payload t d = Inr (u, d') \<longleftrightarrow>
     varchar 50 ty \<and> (\<forall>r \<in> set (db_outbox d). i \<noteq> ev_ID r) \<and>
     d' = d\<lparr>db_outbox := db_outbox d @ [\<lparr>ev_ID = i, ev_EventType = ty, ev_Payload = payload, ev_Status = StatusPending,
       ev_Retries = 0, ev_ProcessedAt = None, ev_CreatedAt = t\<rparr>]\<rparr>"
  unfolding insert_outbox_def sql_insert_case by auto

text \<open>The marks a batch puts on the table.\<close>

definition marked :: "publisher \<Rightarrow> outbox_event \<Rightarrow> outbox_event \<Rightarrow> bool" where
  "marked p e e' \<longleftrightarrow>
     (case pb_handler p e of
        None \<Rightarrow> (\<exists>t. e' = e\<lparr>ev_Status := StatusProcessed, ev_ProcessedAt := Some t\<rparr>)
      | Some err \<Rightarrow> e' = e\<lparr>ev_Retries := ev_Retries e + 1\<rparr>)"

definition distinct_ids :: "outbox_event list \<Rightarrow> bool" where
  "distinct_ids evs \<longleftrightarrow> distinct (map ev_ID evs)"

lemma publish_event_Inr:
  assumes "publish_event p e w = (Inr u, w')" and "w_tx w = Some d"
  shows "\<exists>f. w_tx w' = Some (d\<lparr>db_outbox := update_rows (\<lambda>r. ev_ID r = ev_ID e) f (db_outbox d)\<rparr>) \<and>
     w_db w' = w_db w \<and> w_engine w' = w_engine w \<and>
     (case pb_handler p e of None \<Rightarrow> \<exists>t. f = (\<lambda>r. r\<lparr>ev_Status := StatusProcessed, ev_ProcessedAt := Some t\<rparr>)
        | Some err \<Rightarrow> f = (\<lambda>r. r\<lparr>ev_Retries := ev_Retries r + 1\<rparr>))"
  using assms
  by (cases "pb_handler p e")
    (auto simp: publish_event_def outboxStore_IncrementRetries_def outboxStore_MarkProcessed_def ok_simps split: if_splits)

lemma update_rows_other: "(\<And>r. r \<in> set rows \<Longrightarrow> \<not> P r) \<Longrightarrow> update_rows P f rows = rows"
  by (induction rows) (auto simp: update_rows_def)

lemma update_rows_nth:
  "i < length rows \<Longrightarrow> update_rows P f rows ! i = (if P (rows ! i) then f (rows ! i) else rows ! i)"
  by (simp add: update_rows_def)

lemma length_update_rows [simp]: "length (update_rows P f rows) = length rows"
  by (simp add: update_rows_def)

text \<open>After the loop over a batch: its events carry their marks, the other rows are as they were.\<close>

lemma publish_all_Inr:
  assumes "mapM_E (publish_event p) evs w = (Inr u, w')" and "w_tx w = Some d"
    and "distinct_ids (db_outbox d)" and "distinct evs" and "set evs \<subseteq> set (db_outbox d)"
  shows "\<exists>rows. w_tx w' = Some (d\<lparr>db_outbox := rows\<rparr>) \<and> w_db w' = w_db w \<and> w_engine w' = w_engine w \<and>
     length rows = length (db_outbox d) \<and>
     (\<forall>i < length rows. if db_outbox d ! i \<in> set evs then marked p (db_outbox d ! i) (rows ! i)
        else rows ! i = db_outbox d ! i)"
  using assms
proof (induction evs arbitrary: w d)
  case Nil
  then show ?case by (auto simp: ok_simps intro!: exI [of _ "db_outbox d"])
next
  case (Cons e evs)
  obtain w1 where w1: "publish_event p e w = (Inr (), w1)" "mapM_E (publish_event p) evs w1 = (Inr u, w')"
    using Cons.prems(1) unfolding mapM_E_Cons_Inr by blast
  obtain f where f: "w_tx w1 = Some (d\<lparr>db_outbox := update_rows (\<lambda>r. ev_ID r = ev_ID e) f (db_outbox d)\<rparr>)"
    "w_db w1 = w_db w" "w_engine w1 = w_engine w"
    "case pb_handler p e of None \<Rightarrow> \<exists>t. f = (\<lambda>r. r\<lparr>ev_Status := StatusProcessed, ev_ProcessedAt := Some t\<rparr>)
        | Some err \<Rightarrow> f = (\<lambda>r. r\<lparr>ev_Retries := ev_Retries r + 1\<rparr>)"
    using publish_event_Inr [OF w1(1) Cons.prems(2)] by blast
  define rows1 where "rows1 = update_rows (\<lambda>r. ev_ID r = ev_ID e) f (db_outbox d)"
  have idf: "ev_ID (f r) = ev_ID r" for r using f(4) by (auto split: option.splits)
  have ids: "map ev_ID rows1 = map ev_ID (db_outbox d)"
    by (simp add: rows1_def update_rows_def idf comp_def)
  have same: "r = e" if "r \<in> set (db_outbox d)" "ev_ID r = ev_ID e" for r
    using that Cons.prems(3,5) by (auto simp: distinct_ids_def distinct_map inj_on_def)
  have r1: "i < length (db_outbox d) \<Longrightarrow> rows1 ! i = (if db_outbox d ! i = e then f e else db_outbox d ! i)" for i
    using same nth_mem unfolding rows1_def by (auto simp: update_rows_nth)
  have kept: "r \<in> set rows1" if "r \<in> set (db_outbox d)" "r \<noteq> e" for r
    using that same by (auto simp: rows1_def update_rows_def)
  have sub: "set evs \<subseteq> set rows1" using Cons.prems(4,5) kept by auto
  obtain rows where rows: "w_tx w' = Some ((d\<lparr>db_outbox := rows1\<rparr>)\<lparr>db_outbox := rows\<rparr>)" "w_db w' = w_db w1"
    "w_engine w' = w_engine w1" "length rows = length rows1"
    "\<forall>i < length rows. if rows1 ! i \<in> set evs then marked p (rows1 ! i) (rows ! i) else rows ! i = rows1 ! i"
    using Cons.IH [OF w1(2), of "d\<lparr>db_outbox := rows1\<rparr>"] f(1) Cons.prems(3,4) ids sub
    by (auto simp: rows1_def [symmetric] distinct_ids_def cong: if_cong)
  have fe: "marked p e (f e)" using f(4) by (auto simp: marked_def split: option.splits)
  have "if db_outbox d ! i \<in> set (e # evs) then marked p (db_outbox d ! i) (rows ! i) else rows ! i = db_outbox d ! i"
    if i: "i < length rows" for i
  proof (cases "db_outbox d ! i = e")
    case True
    have "f e \<notin> set evs"
    proof
      assume "f e \<in> set evs"
      then have "f e \<in> set (db_outbox d)" using Cons.prems(5) by auto
      then have "f e = e" using same idf by blast
      then show False using \<open>f e \<in> set evs\<close> Cons.prems(4) by simp
    qed
    moreover have "rows1 ! i = f e" using r1 [of i] rows(4) i True by (simp add: rows1_def)
    moreover have "if rows1 ! i \<in> set evs then marked p (rows1 ! i) (rows ! i) else rows ! i = rows1 ! i"
      using rows(5) i by blast
    ultimately show ?thesis using True fe by simp
  next
    case False
    then have eq: "rows1 ! i = db_outbox d ! i" using r1 [of i] rows(4) i by (simp add: rows1_def)
    have "if rows1 ! i \<in> set evs then marked p (rows1 ! i) (rows ! i) else rows ! i = rows1 ! i"
      using rows(5) i by blast
    then show ?thesis using False unfolding eq by auto
  qed
  then show ?case using rows f by (intro exI [of _ rows]) (auto simp: rows1_def)
qed

lemma pending_subset: "set (pending evs) \<subseteq> set evs"
  by (auto simp: pending_def)

lemma distinct_pending: "distinct_ids evs \<Longrightarrow> distinct (pending evs)"
  by (simp add: pending_def distinct_ids_def distinct_map)

lemma processBatch_rows:
  assumes "processBatch p w = (Inr u, w')" and "distinct_ids (db_outbox (w_db w))"
  shows "\<exists>rows. w_db w' = (w_db w)\<lparr>db_outbox := rows\<rparr> \<and> length rows = length (db_outbox (w_db w)) \<and>
     (\<forall>i < length rows.
        if db_outbox (w_db w) ! i \<in> set (take (nat (pb_batch p)) (pending (db_outbox (w_db w))))
        then marked p (db_outbox (w_db w) ! i) (rows ! i)
        else rows ! i = db_outbox (w_db w) ! i)"
proof -
  let ?evs = "take (nat (pb_batch p)) (pending (db_outbox (w_db w)))"
  obtain w1 where body: "bindE (outboxStore_ListPending (pb_batch p)) (\<lambda>events.
        if events = [] then mapE db_gerr Commit
        else bindE (mapM_E (publish_event p) events) (\<lambda>_. mapE db_gerr Commit))
        ((tick w)\<lparr>w_tx := Some (w_db w), w_abort := False\<rparr>) = (Inr u, w1)" and w': "w' = Rollback w1"
    using assms(1) unfolding processBatch_def with_tx_Inr by blast
  let ?k = "\<lambda>events. if events = [] then mapE db_gerr Commit
        else bindE (mapM_E (publish_event p) events) (\<lambda>_. mapE db_gerr Commit)"
  obtain events w2 where l: "outboxStore_ListPending (pb_batch p) ((tick w)\<lparr>w_tx := Some (w_db w), w_abort := False\<rparr>) = (Inr events, w2)"
    and k: "?k events w2 = (Inr u, w1)"
    using body unfolding bindE_Inr by blast
  have w2: "w_tx w2 = Some (w_db w)" "w_db w2 = w_db w" and evs: "events = ?evs"
    using l by (auto simp: outboxStore_ListPending_def ok_simps sql_page_def split: if_splits)
  have rest: "?k ?evs w2 = (Inr u, w1)" using k unfolding evs .
  show ?thesis
  proof (cases "?evs = []")
    case True
    then have "w_db w' = w_db w" using rest w2 w' by (auto simp: ok_simps)
    then show ?thesis unfolding True by (intro exI [of _ "db_outbox (w_db w)"]) simp
  next
    case False
    then obtain w3 where w3: "mapM_E (publish_event p) ?evs w2 = (Inr (), w3)" "Commit w3 = (Inr u, w1)"
      using rest by (auto simp: ok_simps)
    have ev: "distinct ?evs" "set ?evs \<subseteq> set (db_outbox (w_db w))"
      using distinct_pending [OF assms(2)] pending_subset set_take_subset by (auto simp: distinct_take) fastforce
    obtain rows where rows: "w_tx w3 = Some ((w_db w)\<lparr>db_outbox := rows\<rparr>)" "length rows = length (db_outbox (w_db w))"
      "\<forall>i < length rows. if db_outbox (w_db w) ! i \<in> set ?evs then marked p (db_outbox (w_db w) ! i) (rows ! i)
        else rows ! i = db_outbox (w_db w) ! i"
      using publish_all_Inr [OF w3(1) w2(1) assms(2) ev] by blast
    then show ?thesis using w3(2) w' by (intro exI [of _ rows]) (auto simp: ok_simps)
  qed
qed

subsection \<open>Properties\<close>

text \<open>
  A batch of the outbox publisher that returns without an error has, in one committed step,
  marked exactly the oldest pending events (at most the batch size): those the handler accepted are
  PROCESSED, those it refused stay PENDING with one more retry, and every other row is unchanged, so
  that no event is lost and a refused one is offered again.
\<close>
theorem processBatch_effect:
  assumes "processBatch p w = (Inr u, w')" and "distinct_ids (db_outbox (w_db w))"
  shows "\<exists>rows. w_db w' = (w_db w)\<lparr>db_outbox := rows\<rparr> \<and> length rows = length (db_outbox (w_db w)) \<and>
     (\<forall>i < length rows.
        if db_outbox (w_db w) ! i \<in> set (take (nat (pb_batch p)) (pending (db_outbox (w_db w))))
        then marked p (db_outbox (w_db w) ! i) (rows ! i)
        else rows ! i = db_outbox (w_db w) ! i)"
  using assms by (rule processBatch_rows)

definition ex_event :: "uuid \<Rightarrow> gotime \<Rightarrow> outbox_event" where
  "ex_event i t = \<lparr>ev_ID = i, ev_EventType = ''ORDER_PLACED'', ev_Payload = JNull, ev_Status = StatusPending,
     ev_Retries = 0, ev_ProcessedAt = None, ev_CreatedAt = t\<rparr>"

lemma processBatch_effect_witness:
  "\<exists>rows. w_db (snd (processBatch (NewPublisher None 0) (ex_world (empty_db\<lparr>db_outbox := [ex_event 1 5]\<rparr>)))) =
      empty_db\<lparr>db_outbox := rows\<rparr> \<and> length rows = 1"
proof -
  have "fst (processBatch (NewPublisher None 0) (ex_world (empty_db\<lparr>db_outbox := [ex_event 1 5]\<rparr>))) = Inr ()"
    by (simp add: processBatch_def with_tx_def bindE_def mapE_def Begin_def faulty_def outboxStore_ListPending_def wrapE_def
        tx_exec_def sql_page_def NewPublisher_def pending_def ex_event_def liftE_def publish_event_def noopHandler_def
        outboxStore_MarkProcessed_def Now_def Commit_def returnE_def)
  then have run: "processBatch (NewPublisher None 0) (ex_world (empty_db\<lparr>db_outbox := [ex_event 1 5]\<rparr>)) =
      (Inr (), snd (processBatch (NewPublisher None 0) (ex_world (empty_db\<lparr>db_outbox := [ex_event 1 5]\<rparr>))))"
    by (metis prod.collapse)
  have "distinct_ids (db_outbox (w_db (ex_world (empty_db\<lparr>db_outbox := [ex_event 1 5]\<rparr>))))"
    by (simp add: distinct_ids_def)
  from processBatch_effect [OF run this] show ?thesis by auto
qed

text \<open>A batch that fails, for whatever reason and at whatever point, leaves the database as it was.\<close>
theorem processBatch_atomic:
  assumes "processBatch p w = (Inl e, w')"
  shows "w_db w' = w_db w"
proof -
  have c: "atomic (mapE db_gerr Commit)"
    by (auto simp: atomic_def mapE_Inl Commit_def split: option.splits if_splits)
  have "atomic (processBatch p)"
    unfolding processBatch_def by (intro atomic_with_tx atomic_bind atomic_cases c frame)
  from atomic_failed [OF this assms] show ?thesis by simp
qed

lemma processBatch_atomic_witness:
  "w_db (snd (processBatch (NewPublisher None 0) ((ex_world empty_db)\<lparr>w_env := ex_env\<lparr>e_fault := (\<lambda>n. n = 0)\<rparr>\<rparr>))) = empty_db"
proof -
  let ?w = "(ex_world empty_db)\<lparr>w_env := ex_env\<lparr>e_fault := (\<lambda>n. n = 0)\<rparr>\<rparr>"
  have "faulty ?w" by (simp add: faulty_def)
  then have "processBatch (NewPublisher None 0) ?w = (Inl (db_gerr db_down), tick ?w)"
    by (simp only: processBatch_def with_tx_def bindE_def mapE_def Begin_def if_True prod.case sum.case)
  then show ?thesis using processBatch_atomic [of "NewPublisher None 0" ?w] by simp
qed

end
