(* ===== verification/Asset.thy ===== *)
theory Asset
  imports Outbox
begin

text \<open>
  internal/asset: the read-only catalog of assets and networks. Numbers are read as text
  (\<open>::text\<close>). The destination address of a withdrawal is checked against the network's pattern with
  Go's regexp package, whose matcher is the parameter \<open>regexp\<close>: the compiled predicate, if the pattern
  compiles.
\<close>

type_synonym regexp = "string \<Rightarrow> (string \<Rightarrow> bool) option"

text \<open>A NUMERIC(30,10) as text has all ten decimals.\<close>

definition num_text :: "sqlnum \<Rightarrow> string" where
  "num_text q = (case q of QNaN \<Rightarrow> ''NaN'' | QNum k \<Rightarrow> float_string (of_units k) 10)"

text \<open>The error of a single-row read: no row is \<open>ErrNotFound\<close>, the rest is wrapped.\<close>

definition row_err :: "string \<Rightarrow> db_error \<Rightarrow> gerr" where
  "row_err pre e = (if e = DbNoRows then Sentinel ErrNotFound else Wrapped pre (db_gerr e) [])"

subsection \<open>Store (asset/store.go)\<close>

definition scanAsset :: "sqlnum asset_rec \<Rightarrow> string asset_rec" where
  "scanAsset a =
     \<lparr>as_Symbol = as_Symbol a, as_Name = as_Name a, as_Decimals = as_Decimals a,
      as_MinDeposit = num_text (as_MinDeposit a), as_MinWithdrawal = num_text (as_MinWithdrawal a),
      as_Enabled = as_Enabled a, as_CreatedAt = as_CreatedAt a\<rparr>"

definition scanNetwork :: "sqlnum network_rec \<Rightarrow> string network_rec" where
  "scanNetwork n =
     \<lparr>n_ID = n_ID n, n_AssetSymbol = n_AssetSymbol n, n_Name = n_Name n, n_ChainID = n_ChainID n,
      n_AddressPattern = n_AddressPattern n, n_WithdrawalFee = num_text (n_WithdrawalFee n),
      n_MinConfirmations = n_MinConfirmations n, n_Enabled = n_Enabled n, n_CreatedAt = n_CreatedAt n\<rparr>"

text \<open>ORDER BY on text, by the code points of the characters (the order of the C collation).\<close>

definition text_key :: "string \<Rightarrow> nat list" where
  "text_key s = map of_char s"

fun lex_le :: "nat list \<Rightarrow> nat list \<Rightarrow> bool" where
  "lex_le [] _ = True"
| "lex_le (x # xs) [] = False"
| "lex_le (x # xs) (y # ys) = (x < y \<or> x = y \<and> lex_le xs ys)"

fun insert_text :: "('a \<Rightarrow> string) \<Rightarrow> 'a \<Rightarrow> 'a list \<Rightarrow> 'a list" where
  "insert_text key x [] = [x]"
| "insert_text key x (y # ys) =
     (if lex_le (text_key (key x)) (text_key (key y)) then x # y # ys else y # insert_text key x ys)"

definition order_text :: "('a \<Rightarrow> string) \<Rightarrow> 'a list \<Rightarrow> 'a list" where
  "order_text key xs = foldr (insert_text key) xs []"

definition assetStore_ListAssets :: "bool \<Rightarrow> (gerr, string asset_rec list) act" where
  "assetStore_ListAssets enabledOnly =
     wrapE ''assetStore.ListAssets: '' (mapE db_gerr (pool_query (\<lambda>d.
       map scanAsset (order_text as_Symbol (filter (\<lambda>a. enabledOnly \<longrightarrow> as_Enabled a) (db_assets d))))))"

definition assetStore_GetAsset :: "string \<Rightarrow> (gerr, string asset_rec) act" where
  "assetStore_GetAsset symbol =
     mapE (row_err ''assetStore.GetAsset: '')
       (pool_query_row (\<lambda>d. map scanAsset (filter (\<lambda>a. as_Symbol a = symbol) (db_assets d))))"

definition assetStore_ListNetworks :: "string \<Rightarrow> bool \<Rightarrow> (gerr, string network_rec list) act" where
  "assetStore_ListNetworks assetSymbol enabledOnly =
     wrapE ''assetStore.ListNetworks: '' (mapE db_gerr (pool_query (\<lambda>d.
       map scanNetwork (order_text n_Name
         (filter (\<lambda>n. n_AssetSymbol n = assetSymbol \<and> (enabledOnly \<longrightarrow> n_Enabled n)) (db_networks d))))))"

definition assetStore_GetNetwork :: "string \<Rightarrow> string \<Rightarrow> (gerr, string network_rec) act" where
  "assetStore_GetNetwork assetSymbol name =
     mapE (row_err ''assetStore.GetNetwork: '')
       (pool_query_row (\<lambda>d. map scanNetwork (filter (\<lambda>n. n_AssetSymbol n = assetSymbol \<and> n_Name n = name) (db_networks d))))"

definition assetStore_GetNetworkByID :: "uuid \<Rightarrow> (gerr, string network_rec) act" where
  "assetStore_GetNetworkByID i =
     mapE (row_err ''assetStore.GetNetworkByID: '')
       (pool_query_row (\<lambda>d. map scanNetwork (filter (\<lambda>n. n_ID n = i) (db_networks d))))"

subsection \<open>Service (asset/service.go)\<close>

definition asset_ListAssets :: "(gerr, string asset_rec list) act" where
  "asset_ListAssets = assetStore_ListAssets True"

definition EnabledSymbols :: "(gerr, string list) act" where
  "EnabledSymbols = bindE (assetStore_ListAssets True) (\<lambda>assets. returnE (map as_Symbol assets))"

definition asset_GetAsset :: "string \<Rightarrow> (gerr, string asset_rec) act" where
  "asset_GetAsset symbol =
     bindE (assetStore_GetAsset symbol) (\<lambda>a.
       if \<not> as_Enabled a then throwE (Sentinel ErrNotFound) else returnE a)"

definition asset_ListNetworks :: "string \<Rightarrow> (gerr, string network_rec list) act" where
  "asset_ListNetworks assetSymbol =
     bindE (asset_GetAsset assetSymbol) (\<lambda>_. assetStore_ListNetworks assetSymbol True)"

definition asset_GetNetwork :: "string \<Rightarrow> string \<Rightarrow> (gerr, string network_rec) act" where
  "asset_GetNetwork assetSymbol name =
     bindE (assetStore_GetNetwork assetSymbol name) (\<lambda>n.
       if \<not> n_Enabled n then throwE (Sentinel ErrNotFound) else returnE n)"

definition asset_GetNetworkByID :: "uuid \<Rightarrow> (gerr, string network_rec) act" where
  "asset_GetNetworkByID i = assetStore_GetNetworkByID i"

definition ValidateAddress :: "regexp \<Rightarrow> uuid \<Rightarrow> string \<Rightarrow> (gerr, unit) act" where
  "ValidateAddress regexp networkID address =
     bindE (mapE (\<lambda>e. if errors_is e ErrNotFound then Sentinel ErrValidation else Wrapped ''ValidateAddress lookup: '' e [])
              (assetStore_GetNetworkByID networkID)) (\<lambda>n.
       if n_AddressPattern n = [] then returnE ()
       else (case regexp (n_AddressPattern n) of
               None \<Rightarrow> throwE (Wrapped ''ValidateAddress compile pattern: '' (Opaque ''error parsing regexp'') [])
             | Some re \<Rightarrow> if \<not> re address then throwE (Sentinel ErrValidation) else returnE ()))"

text \<open>The adapter of cmd/server/main.go that wallet and withdrawal see.\<close>

definition catalog_NetworkID :: "string \<Rightarrow> string \<Rightarrow> (gerr, uuid) act" where
  "catalog_NetworkID assetSymbol networkName =
     bindE (asset_GetNetwork assetSymbol networkName) (\<lambda>n. returnE (n_ID n))"

lemma quiet_asset [frame]:
  "quiet (assetStore_ListAssets b)" "quiet (assetStore_GetAsset s)" "quiet (assetStore_ListNetworks s b)"
  "quiet (assetStore_GetNetwork s n)" "quiet (assetStore_GetNetworkByID i)" "quiet asset_ListAssets"
  "quiet EnabledSymbols" "quiet (asset_GetAsset s)" "quiet (asset_ListNetworks s)" "quiet (asset_GetNetwork s n)"
  "quiet (asset_GetNetworkByID i)" "quiet (ValidateAddress re i a)" "quiet (catalog_NetworkID s n)"
  by (auto simp: assetStore_ListAssets_def assetStore_GetAsset_def assetStore_ListNetworks_def
      assetStore_GetNetwork_def assetStore_GetNetworkByID_def asset_ListAssets_def EnabledSymbols_def
      asset_GetAsset_def asset_ListNetworks_def asset_GetNetwork_def asset_GetNetworkByID_def ValidateAddress_def
      catalog_NetworkID_def intro!: frame)

subsection \<open>Facts\<close>

lemma lex_le_refl: "lex_le xs xs"
  by (induction xs) auto

lemma lex_le_total: "lex_le xs ys \<or> lex_le ys xs"
  by (induction xs ys rule: lex_le.induct) auto

lemma lex_le_trans: "lex_le xs ys \<Longrightarrow> lex_le ys zs \<Longrightarrow> lex_le xs zs"
proof (induction xs ys arbitrary: zs rule: lex_le.induct)
  case (3 x xs y ys)
  then show ?case by (cases zs) auto
qed auto

lemma set_insert_text [simp]: "set (insert_text key x xs) = insert x (set xs)"
  by (induction xs) auto

lemma set_order_text [simp]: "set (order_text key xs) = set xs"
  by (induction xs) (auto simp: order_text_def)

abbreviation text_sorted :: "('a \<Rightarrow> string) \<Rightarrow> 'a list \<Rightarrow> bool" where
  "text_sorted key \<equiv> sorted_wrt (\<lambda>a b. lex_le (text_key (key a)) (text_key (key b)))"

lemma insert_text_sorted: "text_sorted key xs \<Longrightarrow> text_sorted key (insert_text key x xs)"
proof (induction xs)
  case Nil
  then show ?case by simp
next
  case (Cons y ys)
  show ?case
  proof (cases "lex_le (text_key (key x)) (text_key (key y))")
    case True
    then show ?thesis using Cons.prems lex_le_trans by fastforce
  next
    case False
    then show ?thesis using Cons lex_le_total by auto
  qed
qed

lemma order_text_sorted: "text_sorted key (order_text key xs)"
  by (induction xs) (auto simp: order_text_def insert_text_sorted)

end
