(* ===== verification/Account.thy ===== *)
theory Account
  imports Asset
begin

text \<open>
  internal/account: one account row per user and asset; store, service and the provisioner that
  creates the rows of a new user.
\<close>

subsection \<open>Store (account/store.go)\<close>

definition insert_account :: "account_rec \<Rightarrow> db \<Rightarrow> db_error + unit \<times> db" where
  "insert_account a d =
     (case sql_insert (varchar 20 (a_Asset a))
             (\<lambda>r s. a_ID r = a_ID s \<or> a_UserID r = a_UserID s \<and> a_Asset r = a_Asset s) a (db_accounts d) of
        Inl e \<Rightarrow> Inl e
      | Inr rows \<Rightarrow> Inr ((), d\<lparr>db_accounts := rows\<rparr>))"

text \<open>The error of an INSERT: a unique violation is \<open>ErrConflict\<close>, the rest is wrapped.\<close>

definition conflict_err :: "string \<Rightarrow> db_error \<Rightarrow> gerr" where
  "conflict_err pre e = (if e = DbUnique then Sentinel ErrConflict else Wrapped pre (db_gerr e) [])"

definition accountStore_Create :: "account_rec \<Rightarrow> (gerr, unit) act" where
  "accountStore_Create a = mapE (conflict_err ''accountStore.Create: '') (tx_exec (\<lambda>d _. insert_account a d))"

definition accountStore_GetByID :: "uuid \<Rightarrow> (gerr, account_rec) act" where
  "accountStore_GetByID i =
     mapE (row_err ''accountStore.GetByID: '') (pool_query_row (\<lambda>d. filter (\<lambda>a. a_ID a = i) (db_accounts d)))"

definition accountStore_GetByUserAndAsset :: "uuid \<Rightarrow> string \<Rightarrow> (gerr, account_rec) act" where
  "accountStore_GetByUserAndAsset u asset =
     mapE (row_err ''accountStore.GetByUserAndAsset: '')
       (pool_query_row (\<lambda>d. filter (\<lambda>a. a_UserID a = u \<and> a_Asset a = asset) (db_accounts d)))"

text \<open>The join with users whose role is not SYSTEM; user IDs are a primary key.\<close>

definition not_system :: "db \<Rightarrow> account_rec \<Rightarrow> bool" where
  "not_system d a \<longleftrightarrow> (\<exists>u \<in> set (db_users d). u_ID u = a_UserID a \<and> u_Role u \<noteq> RoleSystem)"

definition accountStore_List :: "int \<Rightarrow> int \<Rightarrow> (gerr, account_rec list) act" where
  "accountStore_List limit offset =
     wrapE ''accountStore.List: '' (mapE db_gerr (pool_list (\<lambda>d.
       sql_page limit offset (order_desc a_CreatedAt (filter (not_system d) (db_accounts d))))))"

definition accountStore_ListByUser :: "uuid \<Rightarrow> int \<Rightarrow> int \<Rightarrow> (gerr, account_rec list) act" where
  "accountStore_ListByUser u limit offset =
     wrapE ''accountStore.ListByUser: '' (mapE db_gerr (pool_list (\<lambda>d.
       sql_page limit offset (order_desc a_CreatedAt (filter (\<lambda>a. a_UserID a = u) (db_accounts d))))))"

text \<open>A statement that must touch a row: \<open>RowsAffected() == 0\<close> is \<open>ErrNotFound\<close>.\<close>

definition must_affect :: "string \<Rightarrow> (db \<Rightarrow> gotime \<Rightarrow> db_error + nat \<times> db) \<Rightarrow> (gerr, unit) act" where
  "must_affect pre f =
     bindE (wrapE pre (mapE db_gerr (tx_exec f)))
       (\<lambda>n. if n = 0 then throwE (Sentinel ErrNotFound) else returnE ())"

definition count_rows :: "('r \<Rightarrow> bool) \<Rightarrow> 'r list \<Rightarrow> nat" where
  "count_rows P rows = length (filter P rows)"

definition accountStore_Delete :: "uuid \<Rightarrow> (gerr, unit) act" where
  "accountStore_Delete i =
     must_affect ''accountStore.Delete: '' (\<lambda>d _.
       Inr (count_rows (\<lambda>a. a_ID a = i) (db_accounts d), d\<lparr>db_accounts := filter (\<lambda>a. a_ID a \<noteq> i) (db_accounts d)\<rparr>))"

subsection \<open>Service (account/service.go)\<close>

definition CreateAccount :: "uuid \<Rightarrow> string \<Rightarrow> (gerr, account_rec) act" where
  "CreateAccount u asset =
     bindE (wrapE ''CreateAccount generate id: '' NewV7) (\<lambda>i.
     in_tx ''CreateAccount begin: ''
       (bindE Now (\<lambda>now.
        let acct = \<lparr>a_ID = i, a_UserID = u, a_Asset = asset, a_CreatedAt = now\<rparr> in
        bindE (wrapE ''CreateAccount: '' (accountStore_Create acct)) (\<lambda>_.
        bindE (commit_tx ''CreateAccount commit: '') (\<lambda>_.
        returnE acct)))))"

definition GetAccount :: "uuid \<Rightarrow> (gerr, account_rec) act" where
  "GetAccount i = wrapE ''GetAccount: '' (accountStore_GetByID i)"

definition GetAccountByID :: "uuid \<Rightarrow> (gerr, account_rec) act" where
  "GetAccountByID i = GetAccount i"

definition ListAccounts :: "uuid option \<Rightarrow> int \<Rightarrow> int \<Rightarrow> (gerr, account_rec list) act" where
  "ListAccounts mu limit offset =
     (case mu of
        Some u \<Rightarrow> wrapE ''ListAccounts by user: '' (accountStore_ListByUser u limit offset)
      | None \<Rightarrow> wrapE ''ListAccounts: '' (accountStore_List limit offset))"

definition DeleteAccount :: "uuid \<Rightarrow> (gerr, unit) act" where
  "DeleteAccount i =
     in_tx ''DeleteAccount begin: ''
       (bindE (wrapE ''DeleteAccount: '' (accountStore_Delete i)) (\<lambda>_. commit_tx ''DeleteAccount commit: ''))"

definition AccountID :: "uuid \<Rightarrow> string \<Rightarrow> (gerr, uuid) act" where
  "AccountID u asset =
     bindE (wrapE ''AccountID: '' (accountStore_GetByUserAndAsset u asset)) (\<lambda>a. returnE (a_ID a))"

definition GetBalance :: "deps \<Rightarrow> uuid \<Rightarrow> string \<Rightarrow> (gerr, string) act" where
  "GetBalance dp u asset = wrapE ''GetBalance: '' (ledgerService_SumByUserAsset dp u asset)"

subsection \<open>Provisioner (account/provisioner.go)\<close>

fun provision_loop :: "uuid \<Rightarrow> gotime \<Rightarrow> string list \<Rightarrow> (gerr, unit) act" where
  "provision_loop u now [] = returnE ()"
| "provision_loop u now (symbol # symbols) =
     bindE (wrapE ''Provisioner: id: '' NewV7) (\<lambda>i.
     bindE (tryE (accountStore_Create \<lparr>a_ID = i, a_UserID = u, a_Asset = symbol, a_CreatedAt = now\<rparr>)) (\<lambda>r.
     case r of
       Inl err \<Rightarrow>
         if errors_is err ErrConflict then provision_loop u now symbols
         else throwE (Wrapped (''Provisioner: insert '' @ symbol @ '': '') err [])
     | Inr _ \<Rightarrow> provision_loop u now symbols))"

text \<open>The catalog is an interface; \<open>EnabledSymbols\<close> of the asset service is passed to it.\<close>

definition ProvisionAll :: "(gerr, string list) act \<Rightarrow> uuid \<Rightarrow> (gerr, unit) act" where
  "ProvisionAll catalog u =
     bindE (wrapE ''Provisioner: list assets: '' catalog) (\<lambda>symbols.
     bindE Now (\<lambda>now. provision_loop u now symbols))"

subsection \<open>Facts\<close>

lemma quiet_must_affect [frame]: "quiet (must_affect pre f)"
  by (auto simp: must_affect_def intro!: frame)

lemma quiet_account [frame]:
  "quiet (accountStore_Create a)" "quiet (accountStore_GetByID i)" "quiet (accountStore_GetByUserAndAsset u s)"
  "quiet (accountStore_List l m)" "quiet (accountStore_ListByUser u l m)" "quiet (accountStore_Delete i)"
  "quiet (GetAccount i)" "quiet (GetAccountByID i)" "quiet (ListAccounts mu l m)" "quiet (AccountID u s)" "quiet (GetBalance dp u s)"
  by (auto simp: accountStore_Create_def accountStore_GetByID_def accountStore_GetByUserAndAsset_def
      accountStore_List_def accountStore_ListByUser_def accountStore_Delete_def GetAccount_def GetAccountByID_def
      ListAccounts_def AccountID_def GetBalance_def intro!: frame)

lemma quiet_provision_loop [frame]: "quiet (provision_loop u now symbols)"
  by (induction symbols) (auto intro!: frame)

lemma quiet_ProvisionAll [frame]: "quiet catalog \<Longrightarrow> quiet (ProvisionAll catalog u)"
  by (auto simp: ProvisionAll_def intro!: frame)

lemma insert_account_Inr [ok_simps]:
  "insert_account a d = Inr (x, d') \<longleftrightarrow>
     varchar 20 (a_Asset a) \<and> (\<forall>r \<in> set (db_accounts d). a_ID a \<noteq> a_ID r \<and> \<not> (a_UserID a = a_UserID r \<and> a_Asset a = a_Asset r)) \<and>
     d' = d\<lparr>db_accounts := db_accounts d @ [a]\<rparr>"
  unfolding insert_account_def sql_insert_case by auto

lemma must_affect_Inr [ok_simps]:
  "must_affect pre f w = (Inr u, w') \<longleftrightarrow>
     (\<exists>d n d'. w_tx w = Some d \<and> \<not> faulty w \<and> \<not> w_abort w \<and> f d (e_now (w_env w) (w_tick w)) = Inr (n, d') \<and> n \<noteq> 0 \<and>
        w' = (tick w)\<lparr>w_tx := Some d'\<rparr>)"
  by (auto simp: must_affect_def bindE_Inr wrapE_Inr mapE_Inr tx_exec_Inr throwE_Inr returnE_Inr split: if_splits)

lemma pool_query_row_Inr [ok_simps]:
  "pool_query_row f w = (Inr r, w') \<longleftrightarrow> \<not> faulty w \<and> (\<exists>rs. f (w_db w) = r # rs) \<and> w' = tick w"
  by (auto simp: pool_query_row_def ok_simps)

lemma tx_query_row_Inr [ok_simps]:
  "tx_query_row f w = (Inr r, w') \<longleftrightarrow>
     (\<exists>d rs. w_tx w = Some d \<and> \<not> faulty w \<and> \<not> w_abort w \<and> f d = r # rs \<and> w' = (tick w)\<lparr>w_tx := Some d\<rparr>)"
  by (auto simp: tx_query_row_def ok_simps)

text \<open>The account ID of a user and asset: the first row, and there is at most one.\<close>

definition account_of :: "uuid \<Rightarrow> string \<Rightarrow> db \<Rightarrow> uuid option" where
  "account_of u asset d =
     (case filter (\<lambda>a. a_UserID a = u \<and> a_Asset a = asset) (db_accounts d) of [] \<Rightarrow> None | a # _ \<Rightarrow> Some (a_ID a))"

lemma AccountID_Inr [ok_simps]:
  "AccountID u asset w = (Inr i, w') \<longleftrightarrow> \<not> faulty w \<and> account_of u asset (w_db w) = Some i \<and> w' = tick w"
  by (auto simp: AccountID_def accountStore_GetByUserAndAsset_def ok_simps account_of_def split: list.splits)

lemma account_of_same: "db_accounts d' = db_accounts d \<Longrightarrow> account_of u s d' = account_of u s d"
  by (simp add: account_of_def)

text \<open>The table's unique index, as an invariant of the database.\<close>

definition accounts_unique :: "db \<Rightarrow> bool" where
  "accounts_unique d \<longleftrightarrow> distinct (map a_ID (db_accounts d)) \<and>
     distinct (map (\<lambda>a. (a_UserID a, a_Asset a)) (db_accounts d))"

lemma insert_account_unique: "insert_account a d = Inr (x, d') \<Longrightarrow> accounts_unique d \<Longrightarrow> accounts_unique d'"
  by (auto simp: insert_account_Inr accounts_unique_def)

text \<open>Creating a row in a transaction that is open: the cases.\<close>

lemma accountStore_Create_cases:
  assumes "w_tx w = Some d" and "accountStore_Create a w = (r, w')"
  obtains (down) e where "r = Inl e" "\<not> errors_is e ErrConflict" "w_abort w' \<or> w_abort w"
  | (clash) "r = Inl (Sentinel ErrConflict)" "w_abort w'" "w_tx w' = Some d"
  | (ok) d' where "r = Inr ()" "insert_account a d = Inr ((), d')" "w' = (tick w)\<lparr>w_tx := Some d'\<rparr>" "\<not> w_abort w"
proof -
  consider "faulty w" | "\<not> faulty w" "w_abort w" | (go) "\<not> faulty w" "\<not> w_abort w" by blast
  then show thesis
  proof cases
    case 1
    then show thesis using assms down [of "conflict_err ''accountStore.Create: '' db_down"]
      by (auto simp: accountStore_Create_def mapE_def tx_exec_def conflict_err_def)
  next
    case 2
    then show thesis using assms down [of "conflict_err ''accountStore.Create: '' (DbFail ''current transaction is aborted'')"]
      by (auto simp: accountStore_Create_def mapE_def tx_exec_def conflict_err_def)
  next
    case go
    show thesis
    proof (cases "insert_account a d")
      case (Inl e)
      have e: "r = Inl (conflict_err ''accountStore.Create: '' e)" "w_abort w'" "w_tx w' = Some d"
        using assms go Inl by (auto simp: accountStore_Create_def mapE_def tx_exec_def)
      show thesis
      proof (cases "e = DbUnique")
        case True
        then show thesis using e clash by (simp add: conflict_err_def)
      next
        case False
        then have "\<not> errors_is (conflict_err ''accountStore.Create: '' e) ErrConflict"
          by (cases e) (simp_all add: conflict_err_def)
        then show thesis using e down by blast
      qed
    next
      case (Inr y)
      obtain d' where "y = ((), d')" by (cases y) auto
      then show thesis using assms go Inr ok [of d'] by (auto simp: accountStore_Create_def mapE_def tx_exec_def)
    qed
  qed
qed

definition has_account :: "uuid \<Rightarrow> string \<Rightarrow> db \<Rightarrow> bool" where
  "has_account u asset d \<longleftrightarrow> (\<exists>a \<in> set (db_accounts d). a_UserID a = u \<and> a_Asset a = asset)"

lemma provision_clash:
  "provision_loop u now symbols w = (Inr x, w') \<Longrightarrow> w_tx w = Some d \<Longrightarrow>
   w_abort w \<or> (\<exists>s \<in> set symbols. has_account u s d) \<Longrightarrow> w_abort w'"
proof (induction symbols arbitrary: w d)
  case Nil
  then show ?case by (simp add: returnE_Inr)
next
  case (Cons s symbols)
  obtain i r w2 where run: "accountStore_Create \<lparr>a_ID = i, a_UserID = u, a_Asset = s, a_CreatedAt = now\<rparr> (tick w) = (r, w2)"
    and k: "(case r of Inl err \<Rightarrow> if errors_is err ErrConflict then provision_loop u now symbols
         else throwE (Wrapped (''Provisioner: insert '' @ s @ '': '') err [])
     | Inr _ \<Rightarrow> provision_loop u now symbols) w2 = (Inr x, w')"
    using Cons.prems(1) by (auto simp: ok_simps)
  have tx: "w_tx (tick w) = Some d" using Cons.prems(2) by simp
  from tx run show ?case
  proof (cases rule: accountStore_Create_cases)
    case (down e)
    then show ?thesis using k by (simp add: throwE_Inr)
  next
    case clash
    then show ?thesis using k Cons.IH [of w2 d] by simp
  next
    case (ok d')
    have "has_account u s' d'" if "has_account u s' d" for s'
      using that ok(2) by (auto simp: insert_account_Inr has_account_def)
    moreover have "\<not> has_account u s d" using ok(2) by (auto simp: insert_account_Inr has_account_def)
    ultimately have "\<exists>s' \<in> set symbols. has_account u s' d'" using Cons.prems(3) ok(4) by auto
    then show ?thesis using k ok(1,3) Cons.IH [of w2 d'] by simp
  qed
qed

text \<open>With no clash and no fault: one row per symbol, in the order of the catalog.\<close>

lemma provision_rows:
  "provision_loop u now symbols w = (Inr x, w') \<Longrightarrow> w_tx w = Some d \<Longrightarrow> \<not> w_abort w' \<Longrightarrow>
   \<exists>ids. length ids = length symbols \<and>
     w_tx w' = Some (d\<lparr>db_accounts := db_accounts d @ map2 (\<lambda>i s. \<lparr>a_ID = i, a_UserID = u, a_Asset = s, a_CreatedAt = now\<rparr>) ids symbols\<rparr>)"
proof (induction symbols arbitrary: w d)
  case Nil
  then show ?case by (simp add: returnE_Inr)
next
  case (Cons s symbols)
  obtain i r w2 where run: "accountStore_Create \<lparr>a_ID = i, a_UserID = u, a_Asset = s, a_CreatedAt = now\<rparr> (tick w) = (r, w2)"
    and k: "(case r of Inl err \<Rightarrow> if errors_is err ErrConflict then provision_loop u now symbols
         else throwE (Wrapped (''Provisioner: insert '' @ s @ '': '') err [])
     | Inr _ \<Rightarrow> provision_loop u now symbols) w2 = (Inr x, w')"
    using Cons.prems(1) by (auto simp: ok_simps)
  have tx: "w_tx (tick w) = Some d" using Cons.prems(2) by simp
  from tx run show ?case
  proof (cases rule: accountStore_Create_cases)
    case (down e)
    then show ?thesis using k by (simp add: throwE_Inr)
  next
    case clash
    then have "w_abort w'" using k provision_clash [of u now symbols w2 x w' d] by simp
    then show ?thesis using Cons.prems(3) by simp
  next
    case (ok d')
    let ?a = "\<lparr>a_ID = i, a_UserID = u, a_Asset = s, a_CreatedAt = now\<rparr>"
    have d': "d' = d\<lparr>db_accounts := db_accounts d @ [?a]\<rparr>" using ok(2) by (simp add: insert_account_Inr)
    have loop: "provision_loop u now symbols w2 = (Inr x, w')" and tx2: "w_tx w2 = Some d'" using k ok(1,3) by auto
    obtain ids where "length ids = length symbols" "w_tx w' = Some (d'\<lparr>db_accounts := db_accounts d' @
        map2 (\<lambda>i s. \<lparr>a_ID = i, a_UserID = u, a_Asset = s, a_CreatedAt = now\<rparr>) ids symbols\<rparr>)"
      using Cons.IH [OF loop tx2 Cons.prems(3)] by blast
    then show ?thesis using d' by (intro exI [of _ "i # ids"]) simp
  qed
qed

subsection \<open>Properties\<close>

text \<open>
  \<open>CreateAccount\<close> adds exactly one row, for the user and asset asked for, keeps the accounts
  unique per user and asset, and never creates a second account of a user for an asset.
\<close>
theorem CreateAccount_effect:
  assumes "CreateAccount u asset w = (Inr a, w')"
  shows "w_db w' = (w_db w)\<lparr>db_accounts := db_accounts (w_db w) @ [a]\<rparr> \<and> a_UserID a = u \<and> a_Asset a = asset
       \<and> \<not> has_account u asset (w_db w) \<and> (accounts_unique (w_db w) \<longrightarrow> accounts_unique (w_db w'))"
  using assms by (auto simp: CreateAccount_def accountStore_Create_def ok_simps Let_def has_account_def accounts_unique_def)

lemma CreateAccount_effect_witness:
  "db_accounts (w_db (snd (CreateAccount 5 ''BTC'' (ex_world empty_db)))) \<noteq> []"
proof -
  obtain a w' where run: "CreateAccount 5 ''BTC'' (ex_world empty_db) = (Inr a, w')"
    by (simp add: CreateAccount_def bindE_def wrapE_def mapE_def NewV7_def in_tx_def with_tx_def Begin_def faulty_def Now_def
        accountStore_Create_def tx_exec_def insert_account_def sql_insert_def varchar_def empty_db_def commit_tx_def
        Commit_def returnE_def Let_def)
  from CreateAccount_effect [OF this] show ?thesis by (simp add: run)
qed

text \<open>
  A failed \<open>CreateAccount\<close> or \<open>DeleteAccount\<close> leaves the database and the engine as they were,
  whichever of its calls failed.
\<close>
theorem account_writes_atomic:
  "(\<forall>e w'. CreateAccount u asset w = (Inl e, w') \<longrightarrow> w_db w' = w_db w \<and> w_engine w' = w_engine w) \<and>
   (\<forall>e w'. DeleteAccount i w = (Inl e, w') \<longrightarrow> w_db w' = w_db w \<and> w_engine w' = w_engine w)"
proof -
  have "atomic (CreateAccount u asset)"
    unfolding CreateAccount_def Let_def
    by (intro atomic_bind atomic_in_tx atomic_commit_bind frame after_commit)
  moreover have "atomic (DeleteAccount i)"
    unfolding DeleteAccount_def by (intro atomic_bind atomic_in_tx atomic_Commit frame)
  ultimately show ?thesis by (simp add: atomic_def same_store_def)
qed

lemma account_writes_atomic_witness:
  "w_db (snd (DeleteAccount 3 (ex_world empty_db))) = empty_db"
proof -
  obtain e w' where run: "DeleteAccount 3 (ex_world empty_db) = (Inl e, w')"
    by (simp add: DeleteAccount_def bindE_def wrapE_def mapE_def in_tx_def with_tx_def Begin_def faulty_def
        accountStore_Delete_def must_affect_def tx_exec_def count_rows_def empty_db_def throwE_def)
  then show ?thesis using account_writes_atomic [of 0 "[]" "ex_world empty_db" 3] by simp
qed

text \<open>
  A row that already exists is not skipped by the provisioner: its unique violation aborts the
  transaction, so provisioning a user who has an account for an enabled asset never commits.
\<close>
theorem ProvisionAll_existing_row:
  assumes "w_tx w = Some d" and "catalog w = (Inr symbols, w1)" and "w_tx w1 = Some d"
    and "s \<in> set symbols" and "has_account u s d"
  shows "\<not> isl (fst (ProvisionAll catalog u w)) \<Longrightarrow> w_abort (snd (ProvisionAll catalog u w))
       \<and> isl (fst (commit_tx pre (snd (ProvisionAll catalog u w))))"
proof -
  assume "\<not> isl (fst (ProvisionAll catalog u w))"
  then obtain x w' where run: "ProvisionAll catalog u w = (Inr x, w')"
    by (cases "ProvisionAll catalog u w"; cases "fst (ProvisionAll catalog u w)") auto
  then obtain now where "provision_loop u now symbols (tick w1) = (Inr x, w')"
    using assms(2) by (auto simp: ProvisionAll_def ok_simps)
  then have ab: "w_abort w'" using provision_clash [of u now symbols "tick w1" x w' d] assms(3-5) by auto
  then have "isl (fst (commit_tx pre w'))"
    by (auto simp: commit_tx_def wrapE_def mapE_def Commit_def split: option.splits)
  then show ?thesis using run ab by simp
qed

definition ex_account :: "uuid \<Rightarrow> uuid \<Rightarrow> string \<Rightarrow> account_rec" where
  "ex_account i u asset = \<lparr>a_ID = i, a_UserID = u, a_Asset = asset, a_CreatedAt = 0\<rparr>"

lemma ProvisionAll_existing_row_witness:
  "isl (fst (commit_tx ''commit: ''
     (snd (ProvisionAll (returnE [''BTC'']) 5
        ((ex_world empty_db)\<lparr>w_tx := Some (empty_db\<lparr>db_accounts := [ex_account 1 5 ''BTC'']\<rparr>)\<rparr>)))))"
proof -
  let ?d = "empty_db\<lparr>db_accounts := [ex_account 1 5 ''BTC'']\<rparr>"
  let ?w = "(ex_world empty_db)\<lparr>w_tx := Some ?d\<rparr>"
  have "\<not> isl (fst (ProvisionAll (returnE [''BTC'']) 5 ?w))"
    by (simp add: ProvisionAll_def bindE_def wrapE_def mapE_def returnE_def Now_def NewV7_def tryE_def accountStore_Create_def
        tx_exec_def faulty_def insert_account_def sql_insert_def varchar_def ex_account_def conflict_err_def)
  moreover have "has_account 5 ''BTC'' ?d" by (simp add: has_account_def ex_account_def)
  ultimately show ?thesis
    using ProvisionAll_existing_row [of ?w ?d "returnE [''BTC'']" "[''BTC'']" ?w "''BTC''" 5 "''commit: ''"]
    by (simp add: returnE_def)
qed

end
