(* ===== verification/Idempotency.thy ===== *)
theory Idempotency
  imports Ledger
begin

text \<open>
  internal/idempotency: a key is claimed by inserting it inside the caller's transaction; the unique
  index on (key, scope) turns a repetition into \<open>ErrDuplicateIdempotencyKey\<close>.
\<close>

definition insert_idem :: "uuid \<Rightarrow> string \<Rightarrow> string \<Rightarrow> gotime \<Rightarrow> db \<Rightarrow> db_error + unit \<times> db" where
  "insert_idem i key scope t d =
     (case sql_insert (varchar 255 key \<and> varchar 20 scope)
             (\<lambda>a b. ik_ID a = ik_ID b \<or> ik_Key a = ik_Key b \<and> ik_Scope a = ik_Scope b)
             \<lparr>ik_ID = i, ik_Key = key, ik_Scope = scope, ik_CreatedAt = t\<rparr> (db_idem d) of
        Inl e \<Rightarrow> Inl e
      | Inr rows \<Rightarrow> Inr ((), d\<lparr>db_idem := rows\<rparr>))"

definition idempotencyStore_Insert :: "string \<Rightarrow> string \<Rightarrow> (gerr, unit) act" where
  "idempotencyStore_Insert key scope =
     bindE (wrapE ''idempotencyStore.Insert id: '' NewV7) (\<lambda>i.
     bindE Now (\<lambda>now.
     mapE (\<lambda>e. if e = DbUnique then Sentinel ErrDuplicateIdempotencyKey
               else Wrapped ''idempotencyStore.Insert: '' (db_gerr e) [])
       (tx_exec (\<lambda>d _. insert_idem i key scope now d))))"

text \<open>How the services call it: the duplicate is passed on as it is, any other error is wrapped.\<close>

definition claim_key :: "string \<Rightarrow> string \<Rightarrow> string \<Rightarrow> (gerr, unit) act" where
  "claim_key pre key scope =
     mapE (\<lambda>e. if errors_is e ErrDuplicateIdempotencyKey then e else Wrapped pre e [])
       (idempotencyStore_Insert key scope)"

definition key_claimed :: "string \<Rightarrow> string \<Rightarrow> db \<Rightarrow> bool" where
  "key_claimed key scope d \<longleftrightarrow> (\<exists>r \<in> set (db_idem d). ik_Key r = key \<and> ik_Scope r = scope)"

lemma insert_idem_Inr [ok_simps]:
  "insert_idem i key scope t d = Inr (u, d') \<longleftrightarrow>
     varchar 255 key \<and> varchar 20 scope \<and> (\<forall>r \<in> set (db_idem d). i \<noteq> ik_ID r) \<and> \<not> key_claimed key scope d \<and>
     d' = d\<lparr>db_idem := db_idem d @ [\<lparr>ik_ID = i, ik_Key = key, ik_Scope = scope, ik_CreatedAt = t\<rparr>]\<rparr>"
  unfolding insert_idem_def sql_insert_case key_claimed_def by auto

lemma quiet_idem [frame]: "quiet (idempotencyStore_Insert key scope)" "quiet (claim_key pre key scope)"
  by (auto simp: idempotencyStore_Insert_def claim_key_def intro!: frame)

lemma claim_key_Inr [ok_simps]:
  "claim_key pre key scope w = (Inr u, w') \<longleftrightarrow> idempotencyStore_Insert key scope w = (Inr u, w')"
  by (simp add: claim_key_def mapE_Inr)

text \<open>
  A key that is taken is reported as the duplicate sentinel, when nothing else goes wrong first.
\<close>

lemma claim_key_duplicate:
  assumes "w_tx w = Some d" and "\<not> w_abort w" and "key_claimed key scope d"
    and "e_uuid (w_env w) (w_tick w) = Some i" and "varchar 255 key" and "varchar 20 scope"
    and "\<not> e_fault (w_env w) (w_tick w + 2)"
  shows "fst (claim_key pre key scope w) = Inl (Sentinel ErrDuplicateIdempotencyKey)"
proof -
  have "sql_insert True (\<lambda>a b. ik_ID a = ik_ID b \<or> ik_Key a = ik_Key b \<and> ik_Scope a = ik_Scope b)
      \<lparr>ik_ID = i, ik_Key = key, ik_Scope = scope, ik_CreatedAt = t\<rparr> (db_idem d) = Inl DbUnique" for t
    using assms(3) by (auto simp: sql_insert_def key_claimed_def list_ex_iff)
  then have "insert_idem i key scope t d = Inl DbUnique" for t
    using assms(5,6) by (simp add: insert_idem_def)
  then show ?thesis
    using assms(1,2,4,7)
    by (simp add: claim_key_def idempotencyStore_Insert_def mapE_def bindE_def wrapE_def NewV7_def Now_def tx_exec_def
        faulty_def)
qed

lemma key_claimed_db_idem: "db_idem d' = db_idem d \<Longrightarrow> key_claimed key scope d' = key_claimed key scope d"
  by (simp add: key_claimed_def)

end
