(* ===== verification/Strconv.thy ===== *)
theory Strconv
  imports Numeric
begin

text \<open>
  \<open>strconv.ParseFloat(s, 64)\<close> on decimal text: an optional sign, digits with an optional point, an
  optional exponent; or an infinity or NaN by name. The result is the nearest float64, and whether an
  error is returned with it (a syntax error with 0, a range error with an infinity). Hexadecimal
  floats, which no caller can pass, are left out.
\<close>

definition lower_char :: "char \<Rightarrow> char" where
  "lower_char c = (if 65 \<le> (of_char c :: nat) \<and> (of_char c :: nat) \<le> 90 then char_of ((of_char c :: nat) + 32) else c)"

definition split_exp :: "string \<Rightarrow> string \<times> string option" where
  "split_exp s =
     (let m = takeWhile (\<lambda>c. c \<noteq> CHR ''e'') s; r = dropWhile (\<lambda>c. c \<noteq> CHR ''e'') s in
      (m, if r = [] then None else Some (tl r)))"

definition parse_exp :: "string option \<Rightarrow> int option" where
  "parse_exp me =
     (case me of
        None \<Rightarrow> Some 0
      | Some t \<Rightarrow>
          let ds = (if t \<noteq> [] \<and> (hd t = CHR ''-'' \<or> hd t = CHR ''+'') then tl t else t) in
          if ds = [] \<or> \<not> list_all is_digit ds then None
          else Some (if hd t = CHR ''-'' then - int (atou ds) else int (atou ds)))"

text \<open>The float64 nearest to \<open>n \<sqdot> 10\<^sup>e\<close>.\<close>

definition f64_of_decimal :: "int \<Rightarrow> int \<Rightarrow> f64" where
  "f64_of_decimal n e =
     (if 0 \<le> e then mk_f64 (n * 10 ^ nat e * f64_one_units) 1 else mk_f64 (n * f64_one_units) (10 ^ nat (- e)))"

definition ParseFloat :: "string \<Rightarrow> f64 \<times> bool" where
  "ParseFloat s0 =
     (let s = map lower_char s0;
          signed = (s \<noteq> [] \<and> (hd s = CHR ''-'' \<or> hd s = CHR ''+''));
          neg = (s \<noteq> [] \<and> hd s = CHR ''-'');
          body = (if signed then tl s else s) in
      if body = ''inf'' \<or> body = ''infinity'' then (FInf (\<not> neg), False)
      else if s = ''nan'' then (FNaN, False)
      else
        (let (mant, me) = split_exp body; (ip, fp) = split_point mant in
         case parse_exp me of
           None \<Rightarrow> (FFin 0, True)
         | Some e \<Rightarrow>
             if ip @ fp = [] \<or> \<not> list_all is_digit (ip @ fp) then (FFin 0, True)
             else
               (let n = int (atou (ip @ fp));
                    x = f64_of_decimal (if neg then - n else n) (e - int (length fp)) in
                (x, \<not> finite_f64 x))))"

end
