(* ===== verification/Order.thy ===== *)
theory Order
  imports Account Idempotency Strconv
begin

text \<open>
  internal/order: the orders table and the service that places and cancels orders, with the adapter of
  cmd/server/main.go that submits them to the engine.
\<close>

subsection \<open>Domain (order/domain.go)\<close>

fun split_on :: "char \<Rightarrow> string \<Rightarrow> string list" where
  "split_on c [] = [[]]"
| "split_on c (x # xs) = (if x = c then [] # split_on c xs else (x # hd (split_on c xs)) # tl (split_on c xs))"

lemma split_on_none: "c \<notin> set b \<Longrightarrow> split_on c b = [b]"
  by (induction b) auto

lemma split_on_at: "c \<notin> set b \<Longrightarrow> split_on c (b @ c # r) = b # split_on c r"
  by (induction b) auto

definition SplitSymbol :: "string \<Rightarrow> gerr + string \<times> string" where
  "SplitSymbol symbol =
     (let parts = split_on CHR ''-'' symbol in
      if length parts \<noteq> 2 \<or> parts ! 0 = [] \<or> parts ! 1 = []
      then Inl (Opaque (''invalid symbol '' @ go_quote symbol @ '' (expected BASE-QUOTE)''))
      else Inr (parts ! 0, parts ! 1))"

definition IsTerminal :: "string \<Rightarrow> bool" where
  "IsTerminal s \<longleftrightarrow> s = StatusFilled \<or> s = StatusCancelled"

definition IsCancellable :: "string \<Rightarrow> bool" where
  "IsCancellable s \<longleftrightarrow> s = StatusOpen \<or> s = StatusPartial"

subsection \<open>Store (order/store.go)\<close>

definition order_status_ok :: "string \<Rightarrow> bool" where
  "order_status_ok s \<longleftrightarrow> s \<in> {StatusOpen, StatusPartial, StatusFilled, StatusCancelled}"

definition insert_order :: "pgnumeric order_rec \<Rightarrow> db \<Rightarrow> db_error + unit \<times> db" where
  "insert_order o1 d =
     (case num_row (o_Price o1) of Inl e \<Rightarrow> Inl e | Inr p \<Rightarrow>
      case num_row (o_Quantity o1) of Inl e \<Rightarrow> Inl e | Inr q \<Rightarrow>
      case num_row (o_FilledQuantity o1) of Inl e \<Rightarrow> Inl e | Inr fq \<Rightarrow>
      case sql_insert (varchar 20 (o_Symbol o1) \<and> o_Side o1 \<in> {SideBuy, SideSell} \<and> order_status_ok (o_Status o1))
             (\<lambda>a b. o_ID a = o_ID b)
             \<lparr>o_ID = o_ID o1, o_UserID = o_UserID o1, o_Symbol = o_Symbol o1, o_Side = o_Side o1, o_Price = p,
              o_Quantity = q, o_FilledQuantity = fq, o_Status = o_Status o1, o_CreatedAt = o_CreatedAt o1,
              o_UpdatedAt = o_UpdatedAt o1\<rparr> (db_orders d) of
        Inl e \<Rightarrow> Inl e
      | Inr rows \<Rightarrow> Inr ((), d\<lparr>db_orders := rows\<rparr>))"

definition orderStore_Create :: "pgnumeric order_rec \<Rightarrow> (gerr, unit) act" where
  "orderStore_Create o1 = wrapE ''orderStore.Create: '' (mapE db_gerr (tx_exec (\<lambda>d _. insert_order o1 d)))"

definition scanOrder :: "deps \<Rightarrow> sqlnum order_rec \<Rightarrow> pgnumeric order_rec" where
  "scanOrder dp r =
     \<lparr>o_ID = o_ID r, o_UserID = o_UserID r, o_Symbol = o_Symbol r, o_Side = o_Side r, o_Price = dp_num dp (o_Price r),
      o_Quantity = dp_num dp (o_Quantity r), o_FilledQuantity = dp_num dp (o_FilledQuantity r), o_Status = o_Status r,
      o_CreatedAt = o_CreatedAt r, o_UpdatedAt = o_UpdatedAt r\<rparr>"

definition orders_by_id :: "uuid \<Rightarrow> db \<Rightarrow> sqlnum order_rec list" where
  "orders_by_id i d = filter (\<lambda>r. o_ID r = i) (db_orders d)"

definition orderStore_GetByID :: "deps \<Rightarrow> uuid \<Rightarrow> (gerr, pgnumeric order_rec) act" where
  "orderStore_GetByID dp i =
     mapE (row_err ''orderStore.GetByID: '') (pool_query_row (\<lambda>d. map (scanOrder dp) (orders_by_id i d)))"

definition orderStore_GetByIDTx :: "deps \<Rightarrow> uuid \<Rightarrow> (gerr, pgnumeric order_rec) act" where
  "orderStore_GetByIDTx dp i =
     mapE (row_err ''orderStore.GetByIDTx: '') (tx_query_row (\<lambda>d. map (scanOrder dp) (orders_by_id i d)))"

definition orderStore_ListByUser :: "deps \<Rightarrow> uuid \<Rightarrow> int \<Rightarrow> int \<Rightarrow> (gerr, pgnumeric order_rec list) act" where
  "orderStore_ListByUser dp u limit offset =
     wrapE ''orderStore.ListByUser: '' (mapE db_gerr (bindE
       (pool_list (\<lambda>d. sql_page limit offset (order_desc o_CreatedAt (filter (\<lambda>r. o_UserID r = u) (db_orders d)))))
       (\<lambda>rows. returnE (map (scanOrder dp) rows))))"

definition orderStore_UpdateStatus :: "uuid \<Rightarrow> string \<Rightarrow> (gerr, unit) act" where
  "orderStore_UpdateStatus i status =
     must_affect ''orderStore.UpdateStatus: '' (\<lambda>d now.
       if \<not> order_status_ok status \<and> orders_by_id i d \<noteq> [] then Inl (DbFail ''violates check constraint chk_order_status'')
       else Inr (count_rows (\<lambda>r. o_ID r = i) (db_orders d),
                 d\<lparr>db_orders := update_rows (\<lambda>r. o_ID r = i) (\<lambda>r. r\<lparr>o_Status := status, o_UpdatedAt := now\<rparr>) (db_orders d)\<rparr>))"

text \<open>\<open>filled_quantity + $1\<close>, stored back into the column.\<close>

fun increment_rows :: "uuid \<Rightarrow> sqlparam option \<Rightarrow> gotime \<Rightarrow> sqlnum order_rec list \<Rightarrow> db_error + sqlnum order_rec list" where
  "increment_rows i p now [] = Inr []"
| "increment_rows i p now (r # rs) =
     (case increment_rows i p now rs of
        Inl e \<Rightarrow> Inl e
      | Inr rs' \<Rightarrow>
          if o_ID r \<noteq> i then Inr (r # rs')
          else (case numeric_30_10 (sql_plus (o_FilledQuantity r) p) of
                  Inl e \<Rightarrow> Inl e
                | Inr q \<Rightarrow> Inr (r\<lparr>o_FilledQuantity := q, o_UpdatedAt := now\<rparr> # rs')))"

definition orderStore_IncrementFilled :: "uuid \<Rightarrow> pgnumeric \<Rightarrow> (gerr, unit) act" where
  "orderStore_IncrementFilled i qty =
     must_affect ''orderStore.IncrementFilled: '' (\<lambda>d now.
       case increment_rows i (num_param qty) now (db_orders d) of
         Inl e \<Rightarrow> Inl e
       | Inr rows \<Rightarrow> Inr (count_rows (\<lambda>r. o_ID r = i) (db_orders d), d\<lparr>db_orders := rows\<rparr>))"

subsection \<open>Submitting to the engine (engineAdapter of cmd/server/main.go)\<close>

text \<open>\<open>noopEngine\<close> when the world has no engine; otherwise the command is submitted to it.\<close>

definition SubmitPlace :: "string \<Rightarrow> string \<Rightarrow> string \<Rightarrow> string \<Rightarrow> f64 \<Rightarrow> f64 \<Rightarrow> (gerr, unit) act" where
  "SubmitPlace orderID userID symbol side price qty w =
     (case w_engine w of
        None \<Rightarrow> (Inr (), w)
      | Some e \<Rightarrow>
          (let cmd = \<lparr>cmd_Kind = CommandPlaceOrder,
                      cmd_Order = Some \<lparr>eo_ID = orderID, eo_UserID = userID, eo_Symbol = symbol, eo_Side = side,
                        eo_Price = price, eo_Quantity = qty, eo_Remaining = qty, eo_Timestamp = e_now (w_env w) (w_tick w)\<rparr>,
                      cmd_Cancel = None\<rparr> in
           case Submit e cmd of
             (None, e') \<Rightarrow> (Inr (), (tick w)\<lparr>w_engine := Some e'\<rparr>)
           | (Some err, e') \<Rightarrow> (Inl err, (tick w)\<lparr>w_engine := Some e'\<rparr>)))"

definition SubmitCancel :: "string \<Rightarrow> string \<Rightarrow> (gerr, unit) act" where
  "SubmitCancel orderID symbol w =
     (case w_engine w of
        None \<Rightarrow> (Inr (), w)
      | Some e \<Rightarrow>
          (case Submit e \<lparr>cmd_Kind = CommandCancelOrder, cmd_Order = None,
                          cmd_Cancel = Some \<lparr>ci_OrderID = orderID, ci_Symbol = symbol\<rparr>\<rparr> of
             (None, e') \<Rightarrow> (Inr (), w\<lparr>w_engine := Some e'\<rparr>)
           | (Some err, e') \<Rightarrow> (Inl err, w\<lparr>w_engine := Some e'\<rparr>)))"

subsection \<open>Service (order/service.go)\<close>

record place_cmd =
  po_UserID :: uuid
  po_Symbol :: string
  po_Side :: string
  po_Price :: pgnumeric
  po_Quantity :: pgnumeric
  po_IdempotencyKey :: string

text \<open>The asset and amount an order reserves; the error for a side that is neither.\<close>

definition reserve_of :: "deps \<Rightarrow> string \<Rightarrow> string \<Rightarrow> string \<Rightarrow> string \<Rightarrow> pgnumeric \<Rightarrow> pgnumeric \<Rightarrow> gerr + string \<times> pgnumeric" where
  "reserve_of dp op side base quote price quantity =
     (if side = SideBuy then Inr (quote, num_Mul (dp_scan dp) price quantity)
      else if side = SideSell then Inr (base, quantity)
      else Inl (Opaque (op @ '': invalid side '' @ go_quote side)))"

definition orderPlacedPayload :: "deps \<Rightarrow> pgnumeric order_rec \<Rightarrow> json" where
  "orderPlacedPayload dp o1 =
     JObj [(''order_id'', JStr (dp_uuid_str dp (o_ID o1))), (''price'', JStr (num_String (o_Price o1))),
           (''quantity'', JStr (num_String (o_Quantity o1))), (''side'', JStr (o_Side o1)),
           (''symbol'', JStr (o_Symbol o1)), (''user_id'', JStr (dp_uuid_str dp (o_UserID o1)))]"

definition orderCancelledPayload :: "deps \<Rightarrow> pgnumeric order_rec \<Rightarrow> json" where
  "orderCancelledPayload dp o1 =
     JObj [(''order_id'', JStr (dp_uuid_str dp (o_ID o1))), (''status'', JStr (o_Status o1)),
           (''user_id'', JStr (dp_uuid_str dp (o_UserID o1)))]"

text \<open>The transaction of \<open>PlaceOrder\<close>: claim the key, insert order and reserve entry, announce, commit.\<close>

definition place_tx :: "deps \<Rightarrow> place_cmd \<Rightarrow> uuid \<Rightarrow> string \<Rightarrow> pgnumeric \<Rightarrow> (gerr, pgnumeric order_rec) act" where
  "place_tx dp cmd accountID reserveAsset reserveAmount =
     bindE (claim_key ''PlaceOrder idempotency: '' (po_IdempotencyKey cmd) ScopeOrder) (\<lambda>_.
     bindE (wrapE ''PlaceOrder id: '' NewV7) (\<lambda>orderID.
     bindE Now (\<lambda>now.
     let o1 = \<lparr>o_ID = orderID, o_UserID = po_UserID cmd, o_Symbol = po_Symbol cmd, o_Side = po_Side cmd,
               o_Price = po_Price cmd, o_Quantity = po_Quantity cmd, o_FilledQuantity = num_Zero (dp_scan dp),
               o_Status = StatusOpen, o_CreatedAt = now, o_UpdatedAt = now\<rparr> in
     bindE (wrapE ''PlaceOrder create: '' (orderStore_Create o1)) (\<lambda>_.
     bindE (wrapE ''PlaceOrder entry id: '' NewV7) (\<lambda>entryID.
     let entry = \<lparr>le_ID = entryID, le_UserID = po_UserID cmd, le_AccountID = accountID, le_Asset = reserveAsset,
                  le_Amount = num_Neg (dp_scan dp) reserveAmount, le_EntryType = EntryTypeReserve,
                  le_RefType = RefTypeOrder, le_RefID = orderID, le_CreatedAt = now\<rparr> in
     bindE (wrapE ''PlaceOrder reserve: '' (ledgerStore_Insert entry)) (\<lambda>_.
     bindE (wrapE ''PlaceOrder outbox: '' (insertOutbox EventTypeOrderPlaced (orderPlacedPayload dp o1))) (\<lambda>_.
     bindE (commit_tx ''PlaceOrder commit: '') (\<lambda>_.
     bindE (tryE (SubmitPlace (dp_uuid_str dp (o_ID o1)) (dp_uuid_str dp (o_UserID o1)) (o_Symbol o1) (o_Side o1)
              (fst (ParseFloat (num_String (po_Price cmd)))) (fst (ParseFloat (num_String (po_Quantity cmd)))))) (\<lambda>_ :: gerr + unit.
     returnE o1)))))))))"

definition PlaceOrder :: "deps \<Rightarrow> string list \<Rightarrow> place_cmd \<Rightarrow> (gerr, pgnumeric order_rec) act" where
  "PlaceOrder dp markets cmd =
     (if po_UserID cmd = uuid_nil
      then throwE (Wrapped ''PlaceOrder: '' (Sentinel ErrValidation) '': missing user id'')
      else if 0 < length markets \<and> po_Symbol cmd \<notin> set markets
      then throwE (Wrapped ''PlaceOrder: '' (Sentinel ErrValidation) ('': symbol '' @ go_quote (po_Symbol cmd) @ '' not listed''))
      else
       bindE (wrapE ''PlaceOrder: '' (liftE (SplitSymbol (po_Symbol cmd)))) (\<lambda>(base, quote).
       bindE (liftE (reserve_of dp ''PlaceOrder'' (po_Side cmd) base quote (po_Price cmd) (po_Quantity cmd))) (\<lambda>(reserveAsset, reserveAmount).
       bindE (wrapE ''PlaceOrder lookup account: '' (AccountID (po_UserID cmd) reserveAsset)) (\<lambda>accountID.
       bindE (wrapE ''PlaceOrder balance: '' (ledgerStore_SumByUserAsset dp (po_UserID cmd) reserveAsset)) (\<lambda>balanceStr.
       bindE (wrapE ''PlaceOrder balance compare: '' (liftE (num_CmpString (dp_scan dp) reserveAmount balanceStr))) (\<lambda>cmpResult.
       if 0 < cmpResult then throwE (Sentinel ErrInsufficientFunds)
       else in_tx ''PlaceOrder begin: '' (place_tx dp cmd accountID reserveAsset reserveAmount)))))))"

text \<open>The amount to give back: what was reserved less what the fills used, if positive.\<close>

definition release_tx :: "deps \<Rightarrow> pgnumeric order_rec \<Rightarrow> string \<Rightarrow> pgnumeric \<Rightarrow> (gerr, unit) act" where
  "release_tx dp o1 reserveAsset unreserved =
     (if 0 < num_Cmp unreserved (num_Zero (dp_scan dp)) then
        bindE (wrapE ''CancelOrder lookup account: '' (AccountID (o_UserID o1) reserveAsset)) (\<lambda>accountID.
        bindE (wrapE ''CancelOrder entry id: '' NewV7) (\<lambda>entryID.
        bindE Now (\<lambda>now.
        wrapE ''CancelOrder release: '' (ledgerStore_Insert
          \<lparr>le_ID = entryID, le_UserID = o_UserID o1, le_AccountID = accountID, le_Asset = reserveAsset,
           le_Amount = unreserved, le_EntryType = EntryTypeRelease, le_RefType = RefTypeOrder, le_RefID = o_ID o1,
           le_CreatedAt = now\<rparr>))))
      else returnE ())"

definition CancelOrder :: "deps \<Rightarrow> uuid \<Rightarrow> (gerr, pgnumeric order_rec) act" where
  "CancelOrder dp i =
     bindE (wrapE ''CancelOrder get: '' (orderStore_GetByID dp i)) (\<lambda>existing.
     if \<not> IsCancellable (o_Status existing) then throwE (Sentinel ErrInvalidStateTransition)
     else in_tx ''CancelOrder begin: ''
       (bindE (wrapE ''CancelOrder lock: '' (orderStore_GetByIDTx dp i)) (\<lambda>o1.
        if \<not> IsCancellable (o_Status o1) then throwE (Sentinel ErrInvalidStateTransition)
        else
        bindE (wrapE ''CancelOrder: '' (liftE (SplitSymbol (o_Symbol o1)))) (\<lambda>(base, quote).
        bindE (liftE (reserve_of dp ''CancelOrder'' (o_Side o1) base quote (o_Price o1) (o_Quantity o1))) (\<lambda>(reserveAsset, totalReserve).
        bindE (liftE (reserve_of dp ''CancelOrder'' (o_Side o1) base quote (o_Price o1) (o_FilledQuantity o1))) (\<lambda>(_, filledReserve).
        bindE (release_tx dp o1 reserveAsset (num_Sub (dp_scan dp) totalReserve filledReserve)) (\<lambda>_.
        bindE (wrapE ''CancelOrder status: '' (orderStore_UpdateStatus (o_ID o1) StatusCancelled)) (\<lambda>_.
        let o2 = o1\<lparr>o_Status := StatusCancelled\<rparr> in
        bindE (wrapE ''CancelOrder outbox: '' (insertOutbox OutboxOrderCancelled (orderCancelledPayload dp o2))) (\<lambda>_.
        bindE (commit_tx ''CancelOrder commit: '') (\<lambda>_.
        bindE (tryE (SubmitCancel (dp_uuid_str dp (o_ID o2)) (o_Symbol o2))) (\<lambda>_ :: gerr + unit.
        returnE o2)))))))))))"

definition GetOrder :: "deps \<Rightarrow> uuid \<Rightarrow> (gerr, pgnumeric order_rec) act" where
  "GetOrder dp i = wrapE ''GetOrder: '' (orderStore_GetByID dp i)"

definition ListOrders :: "deps \<Rightarrow> uuid \<Rightarrow> int \<Rightarrow> int \<Rightarrow> (gerr, pgnumeric order_rec list) act" where
  "ListOrders dp u limit offset = wrapE ''ListOrders: '' (orderStore_ListByUser dp u limit offset)"

end
