(* ===== verification/Order_Properties.thy ===== *)
theory Order_Properties
  imports Order
begin

text \<open>
  What placing and cancelling an order do to the database: the exact rows added and changed, that a
  failure changes nothing, the state machine of an order, and what a reservation and its release do
  to the balance.
\<close>

subsection \<open>Frames\<close>

lemma quiet_order [frame]:
  "quiet (orderStore_Create o1)" "quiet (orderStore_GetByID dp i)" "quiet (orderStore_GetByIDTx dp i)"
  "quiet (orderStore_ListByUser dp u l m)" "quiet (orderStore_UpdateStatus i s)" "quiet (orderStore_IncrementFilled i q)"
  "quiet (release_tx dp o1 a n)" "quiet (GetOrder dp i)" "quiet (ListOrders dp u l m)"
  by (auto simp: orderStore_Create_def orderStore_GetByID_def orderStore_GetByIDTx_def orderStore_ListByUser_def
      orderStore_UpdateStatus_def orderStore_IncrementFilled_def release_tx_def GetOrder_def ListOrders_def intro!: frame)

lemma atomic_PlaceOrder: "atomic (PlaceOrder dp markets cmd)"
  unfolding PlaceOrder_def place_tx_def Let_def
  by (intro atomic_cases atomic_bind atomic_in_tx atomic_commit_bind quiet_atomic frame after_commit)

lemma atomic_CancelOrder: "atomic (CancelOrder dp i)"
  unfolding CancelOrder_def Let_def
  by (intro atomic_cases atomic_bind atomic_in_tx atomic_commit_bind quiet_atomic frame after_commit)

subsection \<open>Rows\<close>

definition order_row :: "'a order_rec \<Rightarrow> sqlnum \<Rightarrow> sqlnum \<Rightarrow> sqlnum \<Rightarrow> sqlnum order_rec" where
  "order_row o1 p q fq =
     \<lparr>o_ID = o_ID o1, o_UserID = o_UserID o1, o_Symbol = o_Symbol o1, o_Side = o_Side o1, o_Price = p, o_Quantity = q,
      o_FilledQuantity = fq, o_Status = o_Status o1, o_CreatedAt = o_CreatedAt o1, o_UpdatedAt = o_UpdatedAt o1\<rparr>"

lemma order_row_simps [simp]:
  "o_ID (order_row o1 p q fq) = o_ID o1" "o_UserID (order_row o1 p q fq) = o_UserID o1"
  "o_Symbol (order_row o1 p q fq) = o_Symbol o1" "o_Side (order_row o1 p q fq) = o_Side o1"
  "o_Price (order_row o1 p q fq) = p" "o_Quantity (order_row o1 p q fq) = q"
  "o_FilledQuantity (order_row o1 p q fq) = fq" "o_Status (order_row o1 p q fq) = o_Status o1"
  by (simp_all add: order_row_def)

lemma insert_order_Inr [ok_simps]:
  "insert_order o1 d = Inr (x, d') \<longleftrightarrow>
     (\<exists>p q fq. num_row (o_Price o1) = Inr p \<and> num_row (o_Quantity o1) = Inr q \<and> num_row (o_FilledQuantity o1) = Inr fq \<and>
        varchar 20 (o_Symbol o1) \<and> o_Side o1 \<in> {SideBuy, SideSell} \<and> order_status_ok (o_Status o1) \<and>
        (\<forall>r \<in> set (db_orders d). o_ID o1 \<noteq> o_ID r) \<and> d' = d\<lparr>db_orders := db_orders d @ [order_row o1 p q fq]\<rparr>)"
  unfolding insert_order_def order_row_def
  by (cases "num_row (o_Price o1)"; cases "num_row (o_Quantity o1)"; cases "num_row (o_FilledQuantity o1)")
    (auto simp: sql_insert_case)

definition reserve_entry :: "deps \<Rightarrow> pgnumeric order_rec \<Rightarrow> uuid \<Rightarrow> uuid \<Rightarrow> string \<Rightarrow> pgnumeric \<Rightarrow> pgnumeric ledger_entry" where
  "reserve_entry dp o1 i acct asset amt =
     \<lparr>le_ID = i, le_UserID = o_UserID o1, le_AccountID = acct, le_Asset = asset, le_Amount = num_Neg (dp_scan dp) amt,
      le_EntryType = EntryTypeReserve, le_RefType = RefTypeOrder, le_RefID = o_ID o1, le_CreatedAt = o_CreatedAt o1\<rparr>"

definition release_entry :: "pgnumeric order_rec \<Rightarrow> uuid \<Rightarrow> uuid \<Rightarrow> string \<Rightarrow> pgnumeric \<Rightarrow> gotime \<Rightarrow> pgnumeric ledger_entry" where
  "release_entry o1 i acct asset amt now =
     \<lparr>le_ID = i, le_UserID = o_UserID o1, le_AccountID = acct, le_Asset = asset, le_Amount = amt,
      le_EntryType = EntryTypeRelease, le_RefType = RefTypeOrder, le_RefID = o_ID o1, le_CreatedAt = now\<rparr>"

lemma SubmitPlace_db: "w_db (snd (SubmitPlace a b c d p q w)) = w_db w" "w_tx (snd (SubmitPlace a b c d p q w)) = w_tx w"
  by (auto simp: SubmitPlace_def Let_def split: option.splits prod.splits)

lemma SubmitCancel_db: "w_db (snd (SubmitCancel a b w)) = w_db w" "w_tx (snd (SubmitCancel a b w)) = w_tx w"
  by (auto simp: SubmitCancel_def split: option.splits prod.splits)

text \<open>The steps of a transaction, each by what it does to the working copy.\<close>

lemma claim_run:
  assumes "idempotencyStore_Insert key scope w = (Inr u, w')" and "w_tx w = Some d"
  obtains ik where "ik_Key ik = key" and "ik_Scope ik = scope" and "\<not> key_claimed key scope d"
    and "w_tx w' = Some (d\<lparr>db_idem := db_idem d @ [ik]\<rparr>)" and "same_store w w'"
proof -
  obtain i now where "\<not> key_claimed key scope d" "same_store w w'"
    "w_tx w' = Some (d\<lparr>db_idem := db_idem d @ [\<lparr>ik_ID = i, ik_Key = key, ik_Scope = scope, ik_CreatedAt = now\<rparr>]\<rparr>)"
    using assms by (auto simp: idempotencyStore_Insert_def ok_simps)
  then show thesis by (intro that) simp_all
qed

lemma create_run:
  assumes "orderStore_Create o1 w = (Inr u, w')" and "w_tx w = Some d"
  obtains d' where "insert_order o1 d = Inr ((), d')" and "w_tx w' = Some d'" and "same_store w w'"
  using assms unfolding orderStore_Create_def wrapE_Inr mapE_Inr tx_exec_Inr by auto

lemma ledger_run:
  assumes "ledgerStore_Insert e w = (Inr u, w')" and "w_tx w = Some d"
  obtains d' where "insert_ledger e d = Inr ((), d')" and "w_tx w' = Some d'" and "same_store w w'"
  using assms unfolding ledgerStore_Insert_def wrapE_Inr mapE_Inr tx_exec_Inr by auto

lemma outbox_run:
  assumes "insertOutbox ty payload w = (Inr u, w')" and "w_tx w = Some d"
  obtains ev where "ev_EventType ev = ty" and "ev_Payload ev = payload" and "ev_Status ev = StatusPending"
    and "w_tx w' = Some (d\<lparr>db_outbox := db_outbox d @ [ev]\<rparr>)" and "same_store w w'"
proof -
  obtain i now where "same_store w w'" "w_tx w' = Some (d\<lparr>db_outbox := db_outbox d @
      [\<lparr>ev_ID = i, ev_EventType = ty, ev_Payload = payload, ev_Status = StatusPending, ev_Retries = 0,
        ev_ProcessedAt = None, ev_CreatedAt = now\<rparr>]\<rparr>)"
    using assms by (auto simp: insertOutbox_def outboxStore_Insert_def ok_simps)
  then show thesis by (intro that) simp_all
qed

lemma NewV7_run: "NewV7 w = (Inr u, w') \<Longrightarrow> w_tx w' = w_tx w \<and> same_store w w'"
  by (auto simp: NewV7_Inr)

lemma Now_run: "Now w = (Inr u, w') \<Longrightarrow> w_tx w' = w_tx w \<and> same_store w w'"
  by (auto simp: Now_Inr)

lemma Commit_run: "Commit w = (Inr u, w') \<Longrightarrow> w_tx w = Some d \<Longrightarrow> w_db w' = d \<and> w_engine w' = w_engine w"
  by (auto simp: Commit_Inr)

text \<open>The order and the four rows a successful \<open>PlaceOrder\<close> commits.\<close>

definition placed_order :: "deps \<Rightarrow> place_cmd \<Rightarrow> pgnumeric order_rec \<Rightarrow> bool" where
  "placed_order dp cmd o1 \<longleftrightarrow>
     o_UserID o1 = po_UserID cmd \<and> o_Symbol o1 = po_Symbol cmd \<and> o_Side o1 = po_Side cmd \<and> o_Price o1 = po_Price cmd \<and>
     o_Quantity o1 = po_Quantity cmd \<and> o_FilledQuantity o1 = num_Zero (dp_scan dp) \<and> o_Status o1 = StatusOpen"

definition opened_order :: "deps \<Rightarrow> place_cmd \<Rightarrow> uuid \<Rightarrow> gotime \<Rightarrow> pgnumeric order_rec" where
  "opened_order dp cmd oid now =
     \<lparr>o_ID = oid, o_UserID = po_UserID cmd, o_Symbol = po_Symbol cmd, o_Side = po_Side cmd,
      o_Price = po_Price cmd, o_Quantity = po_Quantity cmd, o_FilledQuantity = num_Zero (dp_scan dp),
      o_Status = StatusOpen, o_CreatedAt = now, o_UpdatedAt = now\<rparr>"

lemma place_tx_effect:
  assumes "place_tx dp cmd acct asset amt w = (Inr o1, w')" and "w_tx w = Some d"
  shows "placed_order dp cmd o1 \<and> \<not> key_claimed (po_IdempotencyKey cmd) ScopeOrder d \<and>
    (\<forall>r \<in> set (db_orders d). o_ID o1 \<noteq> o_ID r) \<and>
    (\<exists>ik i p q fq x ev.
       ik_Key ik = po_IdempotencyKey cmd \<and> ik_Scope ik = ScopeOrder \<and>
       num_row (po_Price cmd) = Inr p \<and> num_row (po_Quantity cmd) = Inr q \<and> num_row (num_Zero (dp_scan dp)) = Inr fq \<and>
       num_row (num_Neg (dp_scan dp) amt) = Inr x \<and>
       ev_EventType ev = EventTypeOrderPlaced \<and> ev_Payload ev = orderPlacedPayload dp o1 \<and> ev_Status ev = StatusPending \<and>
       insert_ledger (reserve_entry dp o1 i acct asset amt) d =
         Inr ((), d\<lparr>db_ledger := db_ledger d @ [ledger_row (reserve_entry dp o1 i acct asset amt) x]\<rparr>) \<and>
       w_db w' = d\<lparr>db_idem := db_idem d @ [ik], db_orders := db_orders d @ [order_row o1 p q fq],
                   db_ledger := db_ledger d @ [ledger_row (reserve_entry dp o1 i acct asset amt) x],
                   db_outbox := db_outbox d @ [ev]\<rparr>)"
proof -
  obtain u1 u4 u6 u7 u8 r w1 w2 oid w3 now w4 w5 eid w6 w7 w8 w9 where
    s1: "idempotencyStore_Insert (po_IdempotencyKey cmd) ScopeOrder w = (Inr u1, w1)" and
    s2: "NewV7 w1 = (Inr oid, w2)" and s3: "Now w2 = (Inr now :: gerr + gotime, w3)" and
    s4: "orderStore_Create (opened_order dp cmd oid now) w3 = (Inr u4, w4)" and
    s5: "NewV7 w4 = (Inr eid, w5)" and
    s6: "ledgerStore_Insert (reserve_entry dp (opened_order dp cmd oid now) eid acct asset amt) w5 = (Inr u6, w6)" and
    o1: "o1 = opened_order dp cmd oid now" and
    s7: "insertOutbox EventTypeOrderPlaced (orderPlacedPayload dp (opened_order dp cmd oid now)) w6 = (Inr u7, w7)" and
    s8: "Commit w7 = (Inr u8, w8)" and
    s9: "SubmitPlace (dp_uuid_str dp oid) (dp_uuid_str dp (po_UserID cmd)) (po_Symbol cmd) (po_Side cmd)
              (fst (ParseFloat (num_String (po_Price cmd)))) (fst (ParseFloat (num_String (po_Quantity cmd)))) w8 = (r, w9)"
    and w9: "w' = w9"
    using assms(1)
    unfolding place_tx_def Let_def bindE_Inr wrapE_Inr commit_tx_Inr claim_key_Inr tryE_Inr returnE_Inr
      opened_order_def reserve_entry_def order_rec.simps
    by (elim exE conjE) (rule that [unfolded opened_order_def reserve_entry_def order_rec.simps], assumption+)
  have s9': "w_db w' = w_db w8" using SubmitPlace_db(1) s9 unfolding w9 by (metis snd_conv)
  obtain ik where ik: "ik_Key ik = po_IdempotencyKey cmd" "ik_Scope ik = ScopeOrder"
    "\<not> key_claimed (po_IdempotencyKey cmd) ScopeOrder d" "w_tx w1 = Some (d\<lparr>db_idem := db_idem d @ [ik]\<rparr>)" "same_store w w1"
    using s1 assms(2) by (rule claim_run)
  have t3: "w_tx w3 = w_tx w1" using NewV7_run [OF s2] Now_run [OF s3] by simp
  obtain d4 where d4: "insert_order o1 (d\<lparr>db_idem := db_idem d @ [ik]\<rparr>) = Inr ((), d4)" "w_tx w4 = Some d4"
    using create_run [OF s4] t3 ik(4) unfolding o1 by metis
  then obtain p q fq where pq: "num_row (po_Price cmd) = Inr p" "num_row (po_Quantity cmd) = Inr q"
    "num_row (num_Zero (dp_scan dp)) = Inr fq" "\<forall>r \<in> set (db_orders d). o_ID o1 \<noteq> o_ID r"
    "d4 = d\<lparr>db_idem := db_idem d @ [ik], db_orders := db_orders d @ [order_row o1 p q fq]\<rparr>"
    unfolding insert_order_Inr by (auto simp: o1 opened_order_def)
  let ?e = "reserve_entry dp o1 eid acct asset amt"
  have e: "ledgerStore_Insert ?e w5 = (Inr u6, w6)" using s6 by (simp add: o1)
  obtain d6 where d6: "insert_ledger ?e d4 = Inr ((), d6)" "w_tx w6 = Some d6"
    using ledger_run [OF e] NewV7_run [OF s5] d4(2) by metis
  then obtain x where x: "num_row (num_Neg (dp_scan dp) amt) = Inr x" "d6 = d4\<lparr>db_ledger := db_ledger d @ [ledger_row ?e x]\<rparr>"
    unfolding insert_ledger_Inr by (auto simp: pq(5) reserve_entry_def)
  have ins: "insert_ledger ?e d = Inr ((), d\<lparr>db_ledger := db_ledger d @ [ledger_row ?e x]\<rparr>)"
    using d6(1) x unfolding insert_ledger_Inr by (auto simp: pq(5) reserve_entry_def)
  obtain ev where ev: "ev_EventType ev = EventTypeOrderPlaced" "ev_Payload ev = orderPlacedPayload dp o1"
    "ev_Status ev = StatusPending" "w_tx w7 = Some (d6\<lparr>db_outbox := db_outbox d6 @ [ev]\<rparr>)"
    using outbox_run [OF s7 [folded o1] d6(2)] by metis
  have db: "w_db w' = d6\<lparr>db_outbox := db_outbox d6 @ [ev]\<rparr>" using Commit_run [OF s8 ev(4)] s9' by simp
  have "placed_order dp cmd o1" by (simp add: placed_order_def o1 opened_order_def)
  moreover have "w_db w' = d\<lparr>db_idem := db_idem d @ [ik], db_orders := db_orders d @ [order_row o1 p q fq],
                   db_ledger := db_ledger d @ [ledger_row ?e x], db_outbox := db_outbox d @ [ev]\<rparr>"
    by (simp add: db x(2) pq(5))
  ultimately show ?thesis using ik(1-3) pq(1-4) x(1) ins ev(1-3) by blast
qed

subsection \<open>Reading a balance\<close>

lemma Sum_Inr:
  assumes "ledgerStore_SumByUserAsset dp u a w = (Inr t, w')"
  shows "same_store w w' \<and> w_tx w' = w_tx w"
proof -
  obtain q w1 where 1: "w1 = tick w" and
    2: "(if \<not> num_Valid (dp_num dp q) then returnE ''0''
          else bindE (wrapE ''ledgerStore.SumByUserAsset numeric value: '' (liftE (dp_value dp (dp_num dp q))))
            (\<lambda>text. returnE (case text of None \<Rightarrow> ''0'' | Some t \<Rightarrow> t))) w1 = (Inr t, w')"
    using assms unfolding ledgerStore_SumByUserAsset_def bindE_Inr [of "wrapE _ (mapE _ _)"] wrapE_Inr mapE_Inr pool_query_Inr Let_def
    by blast
  have "w' = w1"
  proof (cases "num_Valid (dp_num dp q)")
    case True
    then show ?thesis using 2 by (auto simp: bindE_Inr wrapE_Inr liftE_Inr returnE_Inr)
  next
    case False
    then show ?thesis using 2 by (simp add: returnE_Inr)
  qed
  then show ?thesis using 1 by simp
qed

lemma Sum_value:
  assumes "deps_ok dp" and "ledgerStore_SumByUserAsset dp u a w = (Inr t, w')" and "balance u a (w_db w) = QNum k"
  shows "\<exists>n. num_Parse (dp_scan dp) t = Inr n \<and> toRat n = of_units k"
proof -
  have "\<not> faulty w"
    using assms(2) by (auto simp: ledgerStore_SumByUserAsset_def ok_simps)
  then show ?thesis
    using Sum_reads_balance [of dp w u a k] assms by (auto simp: deps_ok_def)
qed

subsection \<open>Placing\<close>

lemma PlaceOrder_run:
  assumes "PlaceOrder dp markets cmd w = (Inr o1, w')"
  obtains base quote asset amt acct t c w2 w3 where
    "po_UserID cmd \<noteq> uuid_nil" and "markets = [] \<or> po_Symbol cmd \<in> set markets" and
    "SplitSymbol (po_Symbol cmd) = Inr (base, quote)" and
    "reserve_of dp ''PlaceOrder'' (po_Side cmd) base quote (po_Price cmd) (po_Quantity cmd) = Inr (asset, amt)" and
    "account_of (po_UserID cmd) asset (w_db w) = Some acct" and
    "ledgerStore_SumByUserAsset dp (po_UserID cmd) asset (tick w) = (Inr t, w2)" and
    "num_CmpString (dp_scan dp) amt t = Inr c" and "c \<le> 0" and "same_store w w2" and
    "place_tx dp cmd acct asset amt ((tick w2)\<lparr>w_tx := Some (w_db w), w_abort := False\<rparr>) = (Inr o1, w3)" and
    "w_db w' = w_db w3"
proof -
  have "\<exists>base quote asset amt acct t c w2 w3. po_UserID cmd \<noteq> uuid_nil \<and> (markets = [] \<or> po_Symbol cmd \<in> set markets) \<and>
      SplitSymbol (po_Symbol cmd) = Inr (base, quote) \<and>
      reserve_of dp ''PlaceOrder'' (po_Side cmd) base quote (po_Price cmd) (po_Quantity cmd) = Inr (asset, amt) \<and>
      account_of (po_UserID cmd) asset (w_db w) = Some acct \<and>
      ledgerStore_SumByUserAsset dp (po_UserID cmd) asset (tick w) = (Inr t, w2) \<and>
      num_CmpString (dp_scan dp) amt t = Inr c \<and> c \<le> 0 \<and>
      place_tx dp cmd acct asset amt ((tick w2)\<lparr>w_tx := Some (w_db w2), w_abort := False\<rparr>) = (Inr o1, w3) \<and> w_db w' = w_db w3"
    using assms unfolding PlaceOrder_def
    apply (simp only: if_throw_Inr bindE_Inr wrapE_Inr liftE_Inr AccountID_Inr in_tx_Inr split_paired_Ex prod.case not_less)
    apply (elim exE conjE)
    apply (intro exI conjI)
    apply (assumption | simp | auto)+
    done
  then obtain base quote asset amt acct t c w2 w3 where
    g: "po_UserID cmd \<noteq> uuid_nil" "markets = [] \<or> po_Symbol cmd \<in> set markets" and
    r: "SplitSymbol (po_Symbol cmd) = Inr (base, quote)"
    "reserve_of dp ''PlaceOrder'' (po_Side cmd) base quote (po_Price cmd) (po_Quantity cmd) = Inr (asset, amt)"
    "account_of (po_UserID cmd) asset (w_db w) = Some acct"
    "ledgerStore_SumByUserAsset dp (po_UserID cmd) asset (tick w) = (Inr t, w2)"
    "num_CmpString (dp_scan dp) amt t = Inr c" "c \<le> 0"
    "place_tx dp cmd acct asset amt ((tick w2)\<lparr>w_tx := Some (w_db w2), w_abort := False\<rparr>) = (Inr o1, w3)" "w_db w' = w_db w3"
    by blast
  have ss: "same_store w w2" using Sum_Inr [OF r(4)] by simp
  then have eq: "w_db w2 = w_db w" by (simp add: same_store_def)
  show thesis by (rule that [OF g r(1-6) ss r(7) [unfolded eq] r(8)])
qed

text \<open>The exact change a successful placement commits.\<close>

definition place_change :: "deps \<Rightarrow> place_cmd \<Rightarrow> pgnumeric order_rec \<Rightarrow> string \<Rightarrow> pgnumeric \<Rightarrow> db \<Rightarrow> db \<Rightarrow> bool" where
  "place_change dp cmd o1 asset amt d d' \<longleftrightarrow>
     (\<exists>ik i acct p q fq x ev.
       account_of (po_UserID cmd) asset d = Some acct \<and>
       ik_Key ik = po_IdempotencyKey cmd \<and> ik_Scope ik = ScopeOrder \<and>
       num_row (po_Price cmd) = Inr p \<and> num_row (po_Quantity cmd) = Inr q \<and> num_row (num_Zero (dp_scan dp)) = Inr fq \<and>
       num_row (num_Neg (dp_scan dp) amt) = Inr x \<and>
       ev_EventType ev = EventTypeOrderPlaced \<and> ev_Payload ev = orderPlacedPayload dp o1 \<and> ev_Status ev = StatusPending \<and>
       d' = d\<lparr>db_idem := db_idem d @ [ik], db_orders := db_orders d @ [order_row o1 p q fq],
              db_ledger := db_ledger d @ [ledger_row (reserve_entry dp o1 i acct asset amt) x],
              db_outbox := db_outbox d @ [ev]\<rparr>)"

lemma PlaceOrder_change:
  assumes "PlaceOrder dp markets cmd w = (Inr o1, w')"
  obtains base quote asset amt t n where
    "SplitSymbol (po_Symbol cmd) = Inr (base, quote)" and
    "reserve_of dp ''PlaceOrder'' (po_Side cmd) base quote (po_Price cmd) (po_Quantity cmd) = Inr (asset, amt)" and
    "placed_order dp cmd o1" and "\<not> key_claimed (po_IdempotencyKey cmd) ScopeOrder (w_db w)" and
    "\<forall>r \<in> set (db_orders (w_db w)). o_ID o1 \<noteq> o_ID r" and
    "ledgerStore_SumByUserAsset dp (po_UserID cmd) asset (tick w) = (Inr t, n)" and
    "\<forall>m. num_Parse (dp_scan dp) t = Inr m \<longrightarrow> toRat amt \<le> toRat m" and
    "place_change dp cmd o1 asset amt (w_db w) (w_db w')"
proof -
  obtain base quote asset amt acct t c w2 w3 where
    r: "SplitSymbol (po_Symbol cmd) = Inr (base, quote)"
    "reserve_of dp ''PlaceOrder'' (po_Side cmd) base quote (po_Price cmd) (po_Quantity cmd) = Inr (asset, amt)"
    "account_of (po_UserID cmd) asset (w_db w) = Some acct"
    "ledgerStore_SumByUserAsset dp (po_UserID cmd) asset (tick w) = (Inr t, w2)"
    "num_CmpString (dp_scan dp) amt t = Inr c" "c \<le> 0" "same_store w w2"
    and p: "place_tx dp cmd acct asset amt ((tick w2)\<lparr>w_tx := Some (w_db w), w_abort := False\<rparr>) = (Inr o1, w3)" "w_db w' = w_db w3"
    using assms by (rule PlaceOrder_run)
  have tx: "w_tx ((tick w2)\<lparr>w_tx := Some (w_db w), w_abort := False\<rparr>) = Some (w_db w)" by simp
  note eff = place_tx_effect [OF p(1) tx]
  have le: "toRat amt \<le> toRat m" if "num_Parse (dp_scan dp) t = Inr m" for m
    using r(5,6) that by (auto simp: num_CmpString_def num_Cmp_simps)
  have "place_change dp cmd o1 asset amt (w_db w) (w_db w')"
    using eff r(3) p(2) unfolding place_change_def by auto blast
  then show thesis using that r eff le by blast
qed

lemma place_change_balance:
  assumes "place_change dp cmd o1 asset amt d d'" and "placed_order dp cmd o1" and "scans_decimals (dp_scan dp)"
  shows "balance u a d' = sql_add (balance u a d)
           (QNum (if u = po_UserID cmd \<and> a = asset then - dec_units (toRat amt) else 0))"
proof -
  obtain acct i x where
    x: "num_row (num_Neg (dp_scan dp) amt) = Inr x"
    and d': "db_ledger d' = db_ledger d @ [ledger_row (reserve_entry dp o1 i acct asset amt) x]"
    using assms(1) unfolding place_change_def by auto
  have "x = QNum (- dec_units (toRat amt))"
    using num_row_plainD [OF num_op_plain(4) [OF assms(3)] x] by (simp add: num_Neg_value [OF assms(3)])
  then show ?thesis
    using assms(2) by (subst balance_append [OF d']) (auto simp: reserve_entry_def placed_order_def)
qed

lemma PlaceOrder_changed:
  assumes "PlaceOrder dp markets cmd w = (Inr o1, w')"
  shows "\<not> key_claimed (po_IdempotencyKey cmd) ScopeOrder (w_db w)" and "placed_order dp cmd o1"
    and "\<exists>asset amt. place_change dp cmd o1 asset amt (w_db w) (w_db w')"
  using assms by (rule PlaceOrder_change, blast)+

end
