(* ===== verification/Order_Lifecycle.thy ===== *)
theory Order_Lifecycle
  imports Order_Properties
begin

text \<open>
  The life of an order on the database, from its placement to its cancellation: the properties of
  \<open>PlaceOrder\<close> and \<open>CancelOrder\<close>.
\<close>

subsection \<open>Placements that succeed\<close>

text \<open>
  An environment in which nothing fails for the next hundred calls, and the UUIDs drawn in them are
  different from each other and not yet in use.
\<close>

definition used_ids :: "db \<Rightarrow> uuid set" where
  "used_ids d = ik_ID ` set (db_idem d) \<union> o_ID ` set (db_orders d) \<union> le_ID ` set (db_ledger d) \<union> ev_ID ` set (db_outbox d)
     \<union> t_ID ` set (db_trades d)"

definition soon :: "world \<Rightarrow> nat \<Rightarrow> bool" where
  "soon w n \<longleftrightarrow> w_tick w \<le> n \<and> n < w_tick w + 100"

definition smooth :: "world \<Rightarrow> bool" where
  "smooth w \<longleftrightarrow> (\<forall>n. soon w n \<longrightarrow> \<not> e_fault (w_env w) n \<and>
     (\<exists>u. e_uuid (w_env w) n = Some u \<and> u \<notin> used_ids (w_db w)) \<and>
     (\<forall>m. soon w m \<longrightarrow> m \<noteq> n \<longrightarrow> e_uuid (w_env w) m \<noteq> e_uuid (w_env w) n))"

lemma smoothE:
  assumes "smooth w"
  obtains f where "\<And>n. soon w n \<Longrightarrow> e_uuid (w_env w) n = Some (f n)" and "\<And>n. soon w n \<Longrightarrow> \<not> e_fault (w_env w) n"
    and "\<And>n r. soon w n \<Longrightarrow> r \<in> set (db_idem (w_db w)) \<Longrightarrow> f n \<noteq> ik_ID r"
    and "\<And>n r. soon w n \<Longrightarrow> r \<in> set (db_orders (w_db w)) \<Longrightarrow> f n \<noteq> o_ID r"
    and "\<And>n r. soon w n \<Longrightarrow> r \<in> set (db_ledger (w_db w)) \<Longrightarrow> f n \<noteq> le_ID r"
    and "\<And>n r. soon w n \<Longrightarrow> r \<in> set (db_outbox (w_db w)) \<Longrightarrow> f n \<noteq> ev_ID r"
    and "\<And>n r. soon w n \<Longrightarrow> r \<in> set (db_trades (w_db w)) \<Longrightarrow> f n \<noteq> t_ID r"
    and "\<And>m n. soon w m \<Longrightarrow> soon w n \<Longrightarrow> m \<noteq> n \<Longrightarrow> f m \<noteq> f n"
proof -
  have "\<forall>n. \<exists>u. soon w n \<longrightarrow> e_uuid (w_env w) n = Some u \<and> u \<notin> used_ids (w_db w)"
    using assms unfolding smooth_def by metis
  then obtain f where f: "\<And>n. soon w n \<Longrightarrow> e_uuid (w_env w) n = Some (f n)" "\<And>n. soon w n \<Longrightarrow> f n \<notin> used_ids (w_db w)"
    by metis
  have "f m \<noteq> f n" if "soon w m" "soon w n" "m \<noteq> n" for m n
    using assms f(1) [OF that(1)] f(1) [OF that(2)] that unfolding smooth_def by metis
  moreover have "\<not> e_fault (w_env w) n" if "soon w n" for n using assms that unfolding smooth_def by blast
  moreover have "\<forall>r \<in> set (db_idem (w_db w)). f n \<noteq> ik_ID r" "\<forall>r \<in> set (db_orders (w_db w)). f n \<noteq> o_ID r"
    "\<forall>r \<in> set (db_ledger (w_db w)). f n \<noteq> le_ID r" "\<forall>r \<in> set (db_outbox (w_db w)). f n \<noteq> ev_ID r"
    "\<forall>r \<in> set (db_trades (w_db w)). f n \<noteq> t_ID r" if "soon w n" for n
    using f(2) [OF that] by (auto simp: used_ids_def)
  ultimately show thesis using f(1) by (intro that [of f]) blast+
qed

definition fits :: "pgnumeric \<Rightarrow> bool" where
  "fits n \<longleftrightarrow> plain_num n \<and> \<bar>dec_units (toRat n)\<bar> < 10 ^ 30"

lemma fits_row: "fits n \<Longrightarrow> num_row n = Inr (QNum (dec_units (toRat n)))"
  by (simp add: fits_def num_row_plain)

lemma Zero_row: "scans_decimals scan \<Longrightarrow> num_row (num_Zero scan) = Inr (QNum 0)"
  using num_row_plain [OF num_Zero_value(2)] num_Zero_value(1) by simp

lemma Neg_row:
  "scans_decimals scan \<Longrightarrow> \<bar>dec_units (toRat n)\<bar> < 10 ^ 30 \<Longrightarrow> num_row (num_Neg scan n) = Inr (QNum (- dec_units (toRat n)))"
  using num_row_plain [OF num_op_plain(4)] by (simp add: num_Neg_value)

lemma any_result: "(\<exists>w a. x = (a, w)) \<longleftrightarrow> True"
  by (metis prod.collapse)

lemma split_on_length: "p \<in> set (split_on c s) \<Longrightarrow> length p \<le> length s"
proof (induction s arbitrary: p)
  case Nil
  then show ?case by simp
next
  case (Cons x xs)
  have "split_on c xs \<noteq> []" by (cases xs) auto
  then have "hd (split_on c xs) \<in> set (split_on c xs)" "set (tl (split_on c xs)) \<subseteq> set (split_on c xs)"
    by (auto dest: list.set_sel(2))
  then show ?case using Cons.prems Cons.IH by (fastforce split: if_splits)
qed

lemma SplitSymbol_length:
  assumes "SplitSymbol s = Inr (b, q)"
  shows "length b \<le> length s" and "length q \<le> length s"
  using assms split_on_length [of _ "CHR ''-''" s] by (auto simp: SplitSymbol_def Let_def split: if_splits)

lemma reserve_of_asset:
  "reserve_of dp op side b q p n = Inr (asset, amt) \<Longrightarrow> asset = b \<or> asset = q"
  by (auto simp: reserve_of_def split: if_splits)

text \<open>A placement the service should accept is accepted.\<close>

lemma PlaceOrder_runs:
  assumes dp: "deps_ok dp" and w: "smooth w"
    and "po_UserID cmd \<noteq> uuid_nil" and "markets = [] \<or> po_Symbol cmd \<in> set markets"
    and s: "SplitSymbol (po_Symbol cmd) = Inr (base, quote)" and len: "length (po_Symbol cmd) \<le> 20"
    and r: "reserve_of dp ''PlaceOrder'' (po_Side cmd) base quote (po_Price cmd) (po_Quantity cmd) = Inr (asset, amt)"
    and acct: "account_of (po_UserID cmd) asset (w_db w) = Some acct"
    and bal: "balance (po_UserID cmd) asset (w_db w) = QNum k" "toRat amt \<le> of_units k"
    and fit: "fits (po_Price cmd)" "fits (po_Quantity cmd)" "\<bar>dec_units (toRat amt)\<bar> < 10 ^ 30"
    and key: "\<not> key_claimed (po_IdempotencyKey cmd) ScopeOrder (w_db w)" "length (po_IdempotencyKey cmd) \<le> 255"
  shows "\<exists>o1 w'. PlaceOrder dp markets cmd w = (Inr o1, w')"
proof -
  note sc = deps_okD(1) [OF dp]
  obtain f where f: "\<And>n. soon w n \<Longrightarrow> e_uuid (w_env w) n = Some (f n)" and nf: "\<And>n. soon w n \<Longrightarrow> \<not> e_fault (w_env w) n"
    and fresh: "\<And>n r. soon w n \<Longrightarrow> r \<in> set (db_idem (w_db w)) \<Longrightarrow> f n \<noteq> ik_ID r"
      "\<And>n r. soon w n \<Longrightarrow> r \<in> set (db_orders (w_db w)) \<Longrightarrow> f n \<noteq> o_ID r"
      "\<And>n r. soon w n \<Longrightarrow> r \<in> set (db_ledger (w_db w)) \<Longrightarrow> f n \<noteq> le_ID r"
      "\<And>n r. soon w n \<Longrightarrow> r \<in> set (db_outbox (w_db w)) \<Longrightarrow> f n \<noteq> ev_ID r"
    using w by (rule smoothE) blast
  have side: "po_Side cmd = SideBuy \<or> po_Side cmd = SideSell" using r by (auto simp: reserve_of_def split: if_splits)
  have alen: "length asset \<le> 20" using reserve_of_asset [OF r] SplitSymbol_length [OF s] len by auto
  have bal': "balance (po_UserID cmd) asset (w_db (tick w)) = QNum k" using bal(1) by simp
  have nf1: "\<not> faulty (tick w)" using nf [of "Suc (w_tick w)"] by (simp add: faulty_def soon_def)
  obtain t n where t: "ledgerStore_SumByUserAsset dp (po_UserID cmd) asset (tick w) = (Inr t, tick (tick w))"
    "num_Parse (dp_scan dp) t = Inr n" "toRat n = of_units k"
    using Sum_reads_balance [of dp "tick w" "po_UserID cmd" asset k] dp bal' nf1 by (auto simp: deps_ok_def)
  have cmp: "num_CmpString (dp_scan dp) amt t = Inr (num_Cmp amt n)" "\<not> 0 < num_Cmp amt n"
    using t bal(2) by (simp_all add: num_CmpString_def num_Cmp_simps)
  show ?thesis
    unfolding PlaceOrder_def place_tx_def idempotencyStore_Insert_def orderStore_Create_def ledgerStore_Insert_def
      insertOutbox_def outboxStore_Insert_def
    using assms(3,4) s r acct t(1) cmp f nf fresh side alen len key fits_row [OF fit(1)] fits_row [OF fit(2)]
      Zero_row [OF sc] Neg_row [OF sc fit(3)]
    by (simp add: ok_simps any_result idempotencyStore_Insert_def Let_def faulty_def soon_def varchar_def order_status_ok_def EntryTypeReserve_def RefTypeOrder_def
        ScopeOrder_def EventTypeOrderPlaced_def StatusOpen_def)
qed

subsection \<open>A concrete placement\<close>

definition ex_num :: "int \<Rightarrow> pgnumeric" where
  "ex_num k = ref_num (QNum (k * 10 ^ 10))"

lemma ex_num_simps [simp]: "toRat (ex_num k) = of_int k" "plain_num (ex_num k)" "fits (ex_num k) \<longleftrightarrow> \<bar>k\<bar> < 10 ^ 20"
proof -
  show r: "toRat (ex_num k) = of_int k" and p: "plain_num (ex_num k)"
    by (simp_all add: ex_num_def ref_num_plain of_units_def)
  have "dec_units (toRat (ex_num k)) = k * 10 ^ 10"
    using dec_units_of_units [of "k * 10 ^ 10"] by (simp add: ex_num_def ref_num_plain)
  then show "fits (ex_num k) \<longleftrightarrow> \<bar>k\<bar> < 10 ^ 20" using p by (auto simp: fits_def)
qed

lemma dec_units_int [simp]: "dec_units (of_int k) = k * 10 ^ 10"
  using dec_units_of_units [of "k * 10 ^ 10"] by (simp add: of_units_def)

text \<open>User 5 has an account with 1000 USD, and buys 3 BTC at 100.\<close>

definition ex_buy :: "int \<Rightarrow> int \<Rightarrow> string \<Rightarrow> place_cmd" where
  "ex_buy p q key =
     \<lparr>po_UserID = 5, po_Symbol = ''BTC-USD'', po_Side = SideBuy, po_Price = ex_num p, po_Quantity = ex_num q,
      po_IdempotencyKey = key\<rparr>"

definition ex_funded :: db where
  "ex_funded = empty_db\<lparr>db_accounts := [ex_account 1 5 ''USD'', ex_account 2 5 ''BTC''],
     db_ledger := [ex_entry 3 5 ''USD'' (1000 * 10 ^ 10) ''DEPOSIT'' 0]\<rparr>"

lemma ex_symbol: "SplitSymbol ''BTC-USD'' = Inr (''BTC'', ''USD'')"
  by (simp add: SplitSymbol_def)

lemma ref_deps_scan: "scans_decimals (dp_scan ref_deps)"
  using deps_okD(1) [OF deps_ok_ref_deps] .

lemma ex_smooth:
  assumes "\<forall>i < 100. of_nat i + 1000 \<notin> used_ids d"
  shows "smooth (ex_world d)"
proof -
  have "(of_nat m + 1000 :: uuid) \<noteq> of_nat n + 1000" if "m < 100" "n < 100" "m \<noteq> n" for m n
  proof -
    have "unat (of_nat m :: uuid) = m" "unat (of_nat n :: uuid) = n" using that by (simp_all add: unat_of_nat)
    then have "(of_nat m :: uuid) \<noteq> of_nat n" using that(3) by metis
    then show ?thesis by simp
  qed
  then show ?thesis using assms by (auto simp: smooth_def soon_def)
qed

lemma ex_ids: "n < 1000 \<Longrightarrow> i < 100 \<Longrightarrow> (of_nat i + 1000 :: uuid) \<noteq> of_nat n"
proof -
  assume "n < 1000" "i < (100 :: nat)"
  then have "unat (of_nat (i + 1000) :: uuid) = i + 1000" "unat (of_nat n :: uuid) = n"
    by (simp_all add: unat_of_nat del: of_nat_add)
  then have "(of_nat (i + 1000) :: uuid) \<noteq> of_nat n" using \<open>n < 1000\<close> by (metis not_add_less2)
  then show ?thesis by simp
qed

lemma ex_funded_smooth: "smooth (ex_world ex_funded)"
proof (rule ex_smooth, intro allI impI)
  fix i :: nat assume "i < 100"
  then have "(of_nat i + 1000 :: uuid) \<noteq> 3" using ex_ids [of 3 i] by simp
  then show "of_nat i + 1000 \<notin> used_ids ex_funded"
    by (simp add: used_ids_def ex_funded_def ex_entry_def empty_db_def)
qed

lemma ex_buy_reserve:
  "reserve_of ref_deps op SideBuy b q (ex_num p) (ex_num n) = Inr (q, num_Mul (dp_scan ref_deps) (ex_num p) (ex_num n))"
  "toRat (num_Mul (dp_scan ref_deps) (ex_num p) (ex_num n)) = of_int (p * n)"
proof -
  have "of_units (dec_units (of_int (p * n))) = of_int (p * n)" unfolding dec_units_int by (simp add: of_units_def)
  then show "reserve_of ref_deps op SideBuy b q (ex_num p) (ex_num n) = Inr (q, num_Mul (dp_scan ref_deps) (ex_num p) (ex_num n))"
  "toRat (num_Mul (dp_scan ref_deps) (ex_num p) (ex_num n)) = of_int (p * n)"
    by (simp_all add: reserve_of_def num_Mul_value [OF ref_deps_scan])
qed

lemma ex_placed:
  assumes "p * n \<le> 1000" and "\<bar>p\<bar> < 10 ^ 20" and "\<bar>n\<bar> < 10 ^ 20" and "\<bar>p * n\<bar> < 10 ^ 20"
  shows "\<exists>o1 w'. PlaceOrder ref_deps [''BTC-USD''] (ex_buy p n ''k1'') (ex_world ex_funded) = (Inr o1, w')"
proof (rule PlaceOrder_runs [OF deps_ok_ref_deps ex_funded_smooth])
  have dec: "dec_units (toRat (num_Mul (dp_scan ref_deps) (ex_num p) (ex_num n))) = p * n * 10 ^ 10"
    by (simp add: ex_buy_reserve(2) del: of_int_mult)
  then show "\<bar>dec_units (toRat (num_Mul (dp_scan ref_deps) (ex_num p) (ex_num n)))\<bar> < 10 ^ 30"
    using assms(4) by (simp add: abs_mult mult.commute)
  show "toRat (num_Mul (dp_scan ref_deps) (ex_num p) (ex_num n)) \<le> of_units (1000 * 10 ^ 10)"
    using assms(1) by (simp add: ex_buy_reserve(2) of_units_def del: of_int_mult)
  show "balance (po_UserID (ex_buy p n ''k1'')) ''USD'' (w_db (ex_world ex_funded)) = QNum (1000 * 10 ^ 10)"
    by (simp add: balance_def ex_funded_def ex_entry_def ex_buy_def empty_db_def)
  show "account_of (po_UserID (ex_buy p n ''k1'')) ''USD'' (w_db (ex_world ex_funded)) = Some 1"
    by (simp add: account_of_def ex_funded_def ex_account_def ex_buy_def empty_db_def)
qed (use assms in \<open>simp_all add: ex_buy_def ex_symbol ex_buy_reserve(1) key_claimed_def ex_funded_def empty_db_def\<close>)

subsection \<open>Properties of a placement\<close>

text \<open>
  C4. A placement that succeeds was for a user and a listed market, with a key not yet used, and it
  commits exactly four rows: the claim of the key, the order (OPEN, nothing filled, its numbers rounded
  to the columns), one RESERVE entry on the user's account of the asset the side pays with, for minus
  the amount, and the pending \<open>ORDER_PLACED\<close> event with the order as its payload.
\<close>
theorem PlaceOrder_effect:
  assumes "PlaceOrder dp markets cmd w = (Inr o1, w')"
  shows "po_UserID cmd \<noteq> uuid_nil \<and> (markets = [] \<or> po_Symbol cmd \<in> set markets) \<and>
     placed_order dp cmd o1 \<and> \<not> key_claimed (po_IdempotencyKey cmd) ScopeOrder (w_db w) \<and>
     (\<forall>r \<in> set (db_orders (w_db w)). o_ID o1 \<noteq> o_ID r) \<and>
     (\<exists>base quote asset amt. SplitSymbol (po_Symbol cmd) = Inr (base, quote) \<and>
        (po_Side cmd = SideBuy \<and> asset = quote \<and> amt = num_Mul (dp_scan dp) (po_Price cmd) (po_Quantity cmd) \<or>
         po_Side cmd = SideSell \<and> asset = base \<and> amt = po_Quantity cmd) \<and>
        place_change dp cmd o1 asset amt (w_db w) (w_db w'))"
proof -
  have g: "po_UserID cmd \<noteq> uuid_nil" "markets = [] \<or> po_Symbol cmd \<in> set markets"
    using PlaceOrder_run [OF assms] by blast+
  obtain base quote asset amt t n where r: "SplitSymbol (po_Symbol cmd) = Inr (base, quote)"
    "reserve_of dp ''PlaceOrder'' (po_Side cmd) base quote (po_Price cmd) (po_Quantity cmd) = Inr (asset, amt)"
    "placed_order dp cmd o1" "\<not> key_claimed (po_IdempotencyKey cmd) ScopeOrder (w_db w)"
    "\<forall>r \<in> set (db_orders (w_db w)). o_ID o1 \<noteq> o_ID r" "place_change dp cmd o1 asset amt (w_db w) (w_db w')"
    using assms by (rule PlaceOrder_change)
  have "po_Side cmd = SideBuy \<and> asset = quote \<and> amt = num_Mul (dp_scan dp) (po_Price cmd) (po_Quantity cmd) \<or>
      po_Side cmd = SideSell \<and> asset = base \<and> amt = po_Quantity cmd"
    using r(2) by (auto simp: reserve_of_def split: if_splits)
  then show ?thesis using g r by blast
qed

lemma PlaceOrder_effect_witness:
  "\<exists>o1 w'. PlaceOrder ref_deps [''BTC-USD''] (ex_buy 100 3 ''k1'') (ex_world ex_funded) = (Inr o1, w')
     \<and> placed_order ref_deps (ex_buy 100 3 ''k1'') o1"
proof -
  obtain o1 w' where run: "PlaceOrder ref_deps [''BTC-USD''] (ex_buy 100 3 ''k1'') (ex_world ex_funded) = (Inr o1, w')"
    using ex_placed [of 100 3] by auto
  then show ?thesis using PlaceOrder_effect [OF run] by blast
qed

text \<open>What a placement does to every balance.\<close>

lemma PlaceOrder_balances:
  assumes dp: "deps_ok dp" and run: "PlaceOrder dp markets cmd w = (Inr o1, w')"
    and s: "SplitSymbol (po_Symbol cmd) = Inr (base, quote)"
    and r: "reserve_of dp ''PlaceOrder'' (po_Side cmd) base quote (po_Price cmd) (po_Quantity cmd) = Inr (asset, amt)"
  shows "balance u a (w_db w') = sql_add (balance u a (w_db w))
           (QNum (if u = po_UserID cmd \<and> a = asset then - dec_units (toRat amt) else 0))"
    and "balance (po_UserID cmd) asset (w_db w) = QNum k \<Longrightarrow> dec_units (toRat amt) \<le> k"
proof -
  obtain base' quote' asset' amt' t n where c: "SplitSymbol (po_Symbol cmd) = Inr (base', quote')"
    "reserve_of dp ''PlaceOrder'' (po_Side cmd) base' quote' (po_Price cmd) (po_Quantity cmd) = Inr (asset', amt')"
    "placed_order dp cmd o1" "\<not> key_claimed (po_IdempotencyKey cmd) ScopeOrder (w_db w)"
    "\<forall>r \<in> set (db_orders (w_db w)). o_ID o1 \<noteq> o_ID r"
    "ledgerStore_SumByUserAsset dp (po_UserID cmd) asset' (tick w) = (Inr t, n)"
    "\<forall>m. num_Parse (dp_scan dp) t = Inr m \<longrightarrow> toRat amt' \<le> toRat m"
    "place_change dp cmd o1 asset' amt' (w_db w) (w_db w')"
    using run by (rule PlaceOrder_change)
  have eq: "asset' = asset" "amt' = amt" using c(1,2) s r by auto
  show "balance u a (w_db w') = sql_add (balance u a (w_db w))
           (QNum (if u = po_UserID cmd \<and> a = asset then - dec_units (toRat amt) else 0))"
    using place_change_balance [OF c(8) c(3) deps_okD(1) [OF dp]] by (simp add: eq)
  show "dec_units (toRat amt) \<le> k" if "balance (po_UserID cmd) asset (w_db w) = QNum k"
  proof -
    have "balance (po_UserID cmd) asset' (w_db (tick w)) = QNum k" using that eq by simp
    then obtain m where "num_Parse (dp_scan dp) t = Inr m" "toRat m = of_units k"
      using Sum_value [OF dp c(6)] by blast
    then have "toRat amt \<le> of_units k" using c(7) eq by metis
    then show ?thesis using dec_units_mono [of "toRat amt" "of_units k"] by simp
  qed
qed

text \<open>
  C5. A placement never overdraws: the amount it reserves is at most the balance, the balance after it
  is the balance before less exactly the amount rounded to ten decimals and so not negative, and no
  other user's and no other asset's balance changes.
\<close>
theorem PlaceOrder_never_overdraws:
  assumes "deps_ok dp" and "PlaceOrder dp markets cmd w = (Inr o1, w')"
    and "SplitSymbol (po_Symbol cmd) = Inr (base, quote)"
    and "reserve_of dp ''PlaceOrder'' (po_Side cmd) base quote (po_Price cmd) (po_Quantity cmd) = Inr (asset, amt)"
    and "balance (po_UserID cmd) asset (w_db w) = QNum k"
  shows "\<exists>k'. balance (po_UserID cmd) asset (w_db w') = QNum k' \<and> k' = k - dec_units (toRat amt) \<and> 0 \<le> k' \<and>
     (\<forall>u a. (u, a) \<noteq> (po_UserID cmd, asset) \<longrightarrow> balance u a (w_db w') = balance u a (w_db w))"
  using PlaceOrder_balances(1) [OF assms(1-4)] PlaceOrder_balances(2) [OF assms] assms(5) by auto

lemma PlaceOrder_never_overdraws_witness:
  "\<exists>o1 w'. PlaceOrder ref_deps [''BTC-USD''] (ex_buy 100 3 ''k1'') (ex_world ex_funded) = (Inr o1, w')
     \<and> balance 5 ''USD'' (w_db w') = QNum (700 * 10 ^ 10)"
proof -
  obtain o1 w' where run: "PlaceOrder ref_deps [''BTC-USD''] (ex_buy 100 3 ''k1'') (ex_world ex_funded) = (Inr o1, w')"
    using ex_placed [of 100 3] by auto
  have dec: "dec_units (toRat (num_Mul (dp_scan ref_deps) (ex_num 100) (ex_num 3))) = 300 * 10 ^ 10"
    by (simp only: ex_buy_reserve(2)) (simp add: dec_units_int [of 300, simplified])
  have "balance 5 ''USD'' (w_db w') = QNum (1000 * 10 ^ 10 - 300 * 10 ^ 10)"
    using PlaceOrder_never_overdraws [OF deps_ok_ref_deps run, of "''BTC''" "''USD''" "''USD''"
        "num_Mul (dp_scan ref_deps) (ex_num 100) (ex_num 3)" "1000 * 10 ^ 10"] dec
    by (simp add: ex_buy_def ex_symbol ex_buy_reserve(1) balance_def ex_funded_def ex_entry_def empty_db_def)
  then show ?thesis using run by auto
qed

text \<open>
  C33. A placement the service should accept is accepted: for a user with an account for the asset the
  side pays with and enough balance, a listed symbol, numbers that fit the columns and an unused key,
  in an environment where nothing fails, \<open>PlaceOrder\<close> returns an OPEN order and the balance is less by
  the amount.
\<close>
theorem PlaceOrder_succeeds:
  assumes "deps_ok dp" and "smooth w"
    and "po_UserID cmd \<noteq> uuid_nil" and "markets = [] \<or> po_Symbol cmd \<in> set markets"
    and "SplitSymbol (po_Symbol cmd) = Inr (base, quote)" and "length (po_Symbol cmd) \<le> 20"
    and "reserve_of dp ''PlaceOrder'' (po_Side cmd) base quote (po_Price cmd) (po_Quantity cmd) = Inr (asset, amt)"
    and "account_of (po_UserID cmd) asset (w_db w) = Some acct"
    and "balance (po_UserID cmd) asset (w_db w) = QNum k" and "toRat amt \<le> of_units k"
    and "fits (po_Price cmd)" and "fits (po_Quantity cmd)" and "\<bar>dec_units (toRat amt)\<bar> < 10 ^ 30"
    and "\<not> key_claimed (po_IdempotencyKey cmd) ScopeOrder (w_db w)" and "length (po_IdempotencyKey cmd) \<le> 255"
  shows "\<exists>o1 w'. PlaceOrder dp markets cmd w = (Inr o1, w') \<and> o_Status o1 = StatusOpen \<and>
     balance (po_UserID cmd) asset (w_db w') = QNum (k - dec_units (toRat amt))"
proof -
  obtain o1 w' where run: "PlaceOrder dp markets cmd w = (Inr o1, w')" using PlaceOrder_runs [OF assms] by blast
  have "o_Status o1 = StatusOpen" using PlaceOrder_changed(2) [OF run] by (simp add: placed_order_def)
  then show ?thesis using run PlaceOrder_balances(1) [OF assms(1) run assms(5,7)] assms(9) by auto
qed

lemma PlaceOrder_succeeds_witness:
  "\<exists>o1 w'. PlaceOrder ref_deps [''BTC-USD''] (ex_buy 100 3 ''k1'') (ex_world ex_funded) = (Inr o1, w') \<and>
     o_Status o1 = StatusOpen \<and> balance (po_UserID (ex_buy 100 3 ''k1'')) ''USD'' (w_db w') =
       QNum (1000 * 10 ^ 10 - dec_units (toRat (num_Mul (dp_scan ref_deps) (ex_num 100) (ex_num 3))))"
proof (rule PlaceOrder_succeeds [OF deps_ok_ref_deps ex_funded_smooth])
  have dec: "dec_units (toRat (num_Mul (dp_scan ref_deps) (ex_num 100) (ex_num 3))) = 300 * 10 ^ 10"
    by (simp only: ex_buy_reserve(2)) (simp add: dec_units_int [of 300, simplified])
  then show "\<bar>dec_units (toRat (num_Mul (dp_scan ref_deps) (ex_num 100) (ex_num 3)))\<bar> < 10 ^ 30" by simp
  show "toRat (num_Mul (dp_scan ref_deps) (ex_num 100) (ex_num 3)) \<le> of_units (1000 * 10 ^ 10)"
    by (simp only: ex_buy_reserve(2)) (simp add: of_units_def)
  show "balance (po_UserID (ex_buy 100 3 ''k1'')) ''USD'' (w_db (ex_world ex_funded)) = QNum (1000 * 10 ^ 10)"
    by (simp add: balance_def ex_funded_def ex_entry_def ex_buy_def empty_db_def)
  show "account_of (po_UserID (ex_buy 100 3 ''k1'')) ''USD'' (w_db (ex_world ex_funded)) = Some 1"
    by (simp add: account_of_def ex_funded_def ex_account_def ex_buy_def empty_db_def)
qed (simp_all add: ex_buy_def ex_symbol ex_buy_reserve(1) key_claimed_def ex_funded_def empty_db_def)

text \<open>
  A placement that fails and a cancellation that fails leave the committed database and the engine
  as they were, whichever of their calls failed and whatever the environment does.
\<close>
theorem order_writes_atomic:
  "(\<forall>e w'. PlaceOrder dp markets cmd w = (Inl e, w') \<longrightarrow> w_db w' = w_db w \<and> w_engine w' = w_engine w) \<and>
   (\<forall>e w'. CancelOrder dp i w = (Inl e, w') \<longrightarrow> w_db w' = w_db w \<and> w_engine w' = w_engine w)"
  using atomic_PlaceOrder [of dp markets cmd] atomic_CancelOrder [of dp i] by (simp add: atomic_def same_store_def)

lemma order_writes_atomic_witness:
  "w_db (snd (CancelOrder ref_deps 9 (ex_world ex_funded))) = ex_funded"
proof -
  obtain e w' where run: "CancelOrder ref_deps 9 (ex_world ex_funded) = (Inl e, w')"
    by (simp add: CancelOrder_def orderStore_GetByID_def pool_query_row_def bindE_def wrapE_def mapE_def pool_query_def
        first_row_def throwE_def orders_by_id_def ex_funded_def empty_db_def)
  then show ?thesis
    using order_writes_atomic [of ref_deps "[]" "ex_buy 1 1 ''k''" "ex_world ex_funded" 9] by simp
qed

lemma key_claimed_mono: "set (db_idem d) \<subseteq> set (db_idem d') \<Longrightarrow> key_claimed key scope d \<Longrightarrow> key_claimed key scope d'"
  by (auto simp: key_claimed_def)

text \<open>
  An idempotency key takes effect once: after a successful placement, every later placement with
  the same key fails and changes nothing, whatever its order and its user, and whatever happened in
  between short of deleting keys.
\<close>
theorem PlaceOrder_idempotent:
  assumes "PlaceOrder dp markets cmd w = (Inr o1, w1)" and "po_IdempotencyKey cmd' = po_IdempotencyKey cmd"
    and "set (db_idem (w_db w1)) \<subseteq> set (db_idem (w_db w2))"
  shows "\<exists>e w3. PlaceOrder dp markets cmd' w2 = (Inl e, w3) \<and> w_db w3 = w_db w2 \<and> w_engine w3 = w_engine w2"
proof -
  obtain asset amt where "place_change dp cmd o1 asset amt (w_db w) (w_db w1)" using PlaceOrder_changed(3) [OF assms(1)] by blast
  then have "key_claimed (po_IdempotencyKey cmd) ScopeOrder (w_db w1)"
    unfolding place_change_def key_claimed_def by auto
  then have c: "key_claimed (po_IdempotencyKey cmd') ScopeOrder (w_db w2)"
    using key_claimed_mono [OF assms(3)] assms(2) by simp
  obtain r w3 where run: "PlaceOrder dp markets cmd' w2 = (r, w3)" by force
  have "r \<noteq> Inr o2" for o2 using PlaceOrder_changed(1) [of dp markets cmd' w2 o2 w3] run c by auto
  then obtain e where "r = Inl e" by (cases r) auto
  then have run': "PlaceOrder dp markets cmd' w2 = (Inl e, w3)" using run by simp
  show ?thesis using run' atomic_failed [OF atomic_PlaceOrder run'] by simp
qed

lemma PlaceOrder_idempotent_witness:
  "\<exists>w1 e w3. PlaceOrder ref_deps [''BTC-USD''] (ex_buy 10 1 ''k1'') w1 = (Inl e, w3) \<and> db_orders (w_db w1) \<noteq> []"
proof -
  obtain o1 w1 where run: "PlaceOrder ref_deps [''BTC-USD''] (ex_buy 100 3 ''k1'') (ex_world ex_funded) = (Inr o1, w1)"
    using ex_placed [of 100 3] by auto
  obtain asset amt where "place_change ref_deps (ex_buy 100 3 ''k1'') o1 asset amt (w_db (ex_world ex_funded)) (w_db w1)"
    using PlaceOrder_changed(3) [OF run] by blast
  then have "db_orders (w_db w1) \<noteq> []" unfolding place_change_def by auto
  then show ?thesis using PlaceOrder_idempotent [OF run, of "ex_buy 10 1 ''k1''" w1] by (auto simp: ex_buy_def)
qed

text \<open>
  C38. The amount is not checked to be positive: a placement whose amount rounds to a negative one (a
  BUY whose price times quantity is negative, a SELL of a negative quantity) is accepted, whatever the
  balance from zero on, and leaves the user with more than before, by exactly that amount. The other
  conditions are those of any accepted placement.
\<close>
theorem PlaceOrder_negative_credits:
  assumes "deps_ok dp" and "smooth w"
    and "po_UserID cmd \<noteq> uuid_nil" and "markets = [] \<or> po_Symbol cmd \<in> set markets"
    and "SplitSymbol (po_Symbol cmd) = Inr (base, quote)" and "length (po_Symbol cmd) \<le> 20"
    and "po_Side cmd = SideBuy \<and> asset = quote \<and> x = toRat (po_Price cmd) * toRat (po_Quantity cmd) \<or>
         po_Side cmd = SideSell \<and> asset = base \<and> x = toRat (po_Quantity cmd)"
    and "dec_units x < 0" and "- (10 ^ 30) < dec_units x"
    and "account_of (po_UserID cmd) asset (w_db w) = Some acct"
    and "balance (po_UserID cmd) asset (w_db w) = QNum k" and "0 \<le> k"
    and "fits (po_Price cmd)" and "fits (po_Quantity cmd)"
    and "\<not> key_claimed (po_IdempotencyKey cmd) ScopeOrder (w_db w)" and "length (po_IdempotencyKey cmd) \<le> 255"
  shows "\<exists>o1 w'. PlaceOrder dp markets cmd w = (Inr o1, w') \<and> o_Status o1 = StatusOpen \<and>
     balance (po_UserID cmd) asset (w_db w') = QNum (k + \<bar>dec_units x\<bar>)"
proof -
  note sc = deps_okD(1) [OF assms(1)]
  let ?amt = "if po_Side cmd = SideBuy then num_Mul (dp_scan dp) (po_Price cmd) (po_Quantity cmd) else po_Quantity cmd"
  have r: "reserve_of dp ''PlaceOrder'' (po_Side cmd) base quote (po_Price cmd) (po_Quantity cmd) = Inr (asset, ?amt)"
    using assms(7) by (auto simp: reserve_of_def SideBuy_def SideSell_def)
  have d: "dec_units (toRat ?amt) = dec_units x"
    using assms(7) by (auto simp: num_Mul_value [OF sc] SideBuy_def SideSell_def)
  have "toRat ?amt < 0" using dec_units_nonneg [of "toRat ?amt"] d assms(8) by linarith
  moreover have "0 \<le> of_units k" using assms(12) by (simp add: of_units_def)
  ultimately have le: "toRat ?amt \<le> of_units k" by linarith
  have b: "\<bar>dec_units (toRat ?amt)\<bar> < 10 ^ 30" using d assms(8,9) by linarith
  obtain o1 w' where run: "PlaceOrder dp markets cmd w = (Inr o1, w')"
    using PlaceOrder_runs [OF assms(1-6) r assms(10,11) le assms(13,14) b assms(15,16)] by blast
  have "o_Status o1 = StatusOpen" using PlaceOrder_changed(2) [OF run] by (simp add: placed_order_def)
  moreover have "balance (po_UserID cmd) asset (w_db w') = QNum (k - dec_units x)"
    using PlaceOrder_balances(1) [OF assms(1) run assms(5) r] assms(11) by (simp only: d) simp
  ultimately show ?thesis using run assms(8) by auto
qed

text \<open>Selling minus 3 BTC without any.\<close>

definition ex_negative :: place_cmd where
  "ex_negative = (ex_buy 100 (- 3) ''k1'')\<lparr>po_Side := SideSell\<rparr>"

lemma PlaceOrder_negative_credits_witness:
  "(\<exists>o1 w'. PlaceOrder ref_deps [''BTC-USD''] (ex_buy 100 (- 3) ''k1'') (ex_world ex_funded) = (Inr o1, w')
     \<and> balance 5 ''USD'' (w_db w') = QNum (1300 * 10 ^ 10)) \<and>
   (\<exists>o1 w'. PlaceOrder ref_deps [''BTC-USD''] ex_negative (ex_world ex_funded) = (Inr o1, w')
     \<and> balance 5 ''BTC'' (w_db w') = QNum (3 * 10 ^ 10))"
proof
  have d: "dec_units (- 300) = - 300 * 10 ^ 10" "dec_units (- 3) = - 3 * 10 ^ 10"
    using dec_units_int [of "- 300"] dec_units_int [of "- 3"] by simp_all
  show "\<exists>o1 w'. PlaceOrder ref_deps [''BTC-USD''] (ex_buy 100 (- 3) ''k1'') (ex_world ex_funded) = (Inr o1, w')
     \<and> balance 5 ''USD'' (w_db w') = QNum (1300 * 10 ^ 10)"
    using PlaceOrder_negative_credits [OF deps_ok_ref_deps ex_funded_smooth, of "ex_buy 100 (- 3) ''k1''" "[''BTC-USD'']" "''BTC''" "''USD''"
        "''USD''" "- 300" 1 "1000 * 10 ^ 10"] d
    by (auto simp: ex_buy_def ex_symbol balance_def account_of_def key_claimed_def ex_funded_def ex_account_def ex_entry_def empty_db_def)
  show "\<exists>o1 w'. PlaceOrder ref_deps [''BTC-USD''] ex_negative (ex_world ex_funded) = (Inr o1, w')
     \<and> balance 5 ''BTC'' (w_db w') = QNum (3 * 10 ^ 10)"
    using PlaceOrder_negative_credits [OF deps_ok_ref_deps ex_funded_smooth, of ex_negative "[''BTC-USD'']" "''BTC''" "''USD''"
        "''BTC''" "- 3" 2 0] d
    by (auto simp: ex_negative_def ex_buy_def ex_symbol balance_def account_of_def key_claimed_def ex_funded_def ex_account_def ex_entry_def empty_db_def)
qed

end
