(* ===== verification/Order_Cancel.thy ===== *)
theory Order_Cancel
  imports Order_Lifecycle
begin

text \<open>
  Cancelling an order: the rows it commits, what it gives back, and that placing and cancelling an
  order is neutral for the balance when its numbers have at most ten decimals (and need not be
  otherwise).
\<close>

subsection \<open>The steps of a cancellation\<close>

lemma release_run:
  assumes "release_tx dp o1 asset n w = (Inr u, w')" and "w_tx w = Some d"
  shows "same_store w w' \<and> (if 0 < num_Cmp n (num_Zero (dp_scan dp)) then
      (\<exists>i acct t x. account_of (o_UserID o1) asset (w_db w) = Some acct \<and> num_row n = Inr x \<and>
        w_tx w' = Some (d\<lparr>db_ledger := db_ledger d @ [ledger_row (release_entry o1 i acct asset n t) x]\<rparr>))
    else w_tx w' = Some d)"
proof (cases "0 < num_Cmp n (num_Zero (dp_scan dp))")
  case True
  obtain acct w1 i w2 t w3 where
    s: "AccountID (o_UserID o1) asset w = (Inr acct, w1)" "NewV7 w1 = (Inr i, w2)" "Now w2 = (Inr t :: gerr + gotime, w3)"
    "ledgerStore_Insert (release_entry o1 i acct asset n t) w3 = (Inr u, w')"
    using assms(1) True unfolding release_tx_def release_entry_def by (auto simp: bindE_Inr wrapE_Inr)
  have 1: "account_of (o_UserID o1) asset (w_db w) = Some acct" "w_tx w1 = Some d" "same_store w w1"
    using s(1) assms(2) by (auto simp: AccountID_Inr)
  have tx: "w_tx w3 = Some d" using NewV7_run [OF s(2)] Now_run [OF s(3)] 1(2) by simp
  obtain d' where d': "insert_ledger (release_entry o1 i acct asset n t) d = Inr ((), d')" "w_tx w' = Some d'" "same_store w3 w'"
    using ledger_run [OF s(4) tx] by metis
  obtain x where "num_row n = Inr x" "d' = d\<lparr>db_ledger := db_ledger d @ [ledger_row (release_entry o1 i acct asset n t) x]\<rparr>"
    using d'(1) by (auto simp: insert_ledger_Inr release_entry_def)
  moreover have "same_store w w'" using 1(3) NewV7_run [OF s(2)] Now_run [OF s(3)] d'(3) same_store_trans by blast
  ultimately show ?thesis using True 1(1) d'(2) by auto
next
  case False
  then show ?thesis using assms by (auto simp: release_tx_def returnE_Inr)
qed

lemma order_get_run:
  assumes "orderStore_GetByID dp i w = (Inr o1, w')"
  obtains r where "r \<in> set (db_orders (w_db w))" "o_ID r = i" "o1 = scanOrder dp r" "w' = tick w"
  using assms by (auto simp: orderStore_GetByID_def orders_by_id_def ok_simps filter_eq_Cons_iff) blast

lemma order_lock_run:
  assumes "orderStore_GetByIDTx dp i w = (Inr o1, w')" and "w_tx w = Some d"
  obtains r rs where "orders_by_id i d = r # rs" "o1 = scanOrder dp r" "w_tx w' = Some d" "same_store w w'"
  using assms by (auto simp: orderStore_GetByIDTx_def ok_simps)

definition cancelled :: "gotime \<Rightarrow> uuid \<Rightarrow> sqlnum order_rec list \<Rightarrow> sqlnum order_rec list" where
  "cancelled t i rows = update_rows (\<lambda>r. o_ID r = i) (\<lambda>r. r\<lparr>o_Status := StatusCancelled, o_UpdatedAt := t\<rparr>) rows"

lemma status_run:
  assumes "orderStore_UpdateStatus i StatusCancelled w = (Inr u, w')" and "w_tx w = Some d"
  obtains t where "w_tx w' = Some (d\<lparr>db_orders := cancelled t i (db_orders d)\<rparr>)" and "same_store w w'"
  using assms unfolding orderStore_UpdateStatus_def must_affect_Inr cancelled_def
  by (auto simp: order_status_ok_def split: if_splits)

text \<open>The reserve of an order and what its fills used, in the order's asset.\<close>

definition unreserved_of :: "deps \<Rightarrow> pgnumeric order_rec \<Rightarrow> (string \<times> pgnumeric) option" where
  "unreserved_of dp o1 =
     (case SplitSymbol (o_Symbol o1) of
        Inl _ \<Rightarrow> None
      | Inr (base, quote) \<Rightarrow>
          if o_Side o1 = SideBuy
          then Some (quote, num_Sub (dp_scan dp) (num_Mul (dp_scan dp) (o_Price o1) (o_Quantity o1))
                              (num_Mul (dp_scan dp) (o_Price o1) (o_FilledQuantity o1)))
          else if o_Side o1 = SideSell
          then Some (base, num_Sub (dp_scan dp) (o_Quantity o1) (o_FilledQuantity o1))
          else None)"

definition cancel_change :: "deps \<Rightarrow> sqlnum order_rec \<Rightarrow> db \<Rightarrow> db \<Rightarrow> bool" where
  "cancel_change dp r d d' \<longleftrightarrow>
     (\<exists>asset amt es t ev. unreserved_of dp (scanOrder dp r) = Some (asset, amt) \<and>
        (if 0 < num_Cmp amt (num_Zero (dp_scan dp))
         then \<exists>i acct now x. account_of (o_UserID r) asset d = Some acct \<and> num_row amt = Inr x \<and>
                es = [ledger_row (release_entry (scanOrder dp r) i acct asset amt now) x]
         else es = []) \<and>
        ev_EventType ev = OutboxOrderCancelled \<and> ev_Status ev = StatusPending \<and>
        ev_Payload ev = orderCancelledPayload dp ((scanOrder dp r)\<lparr>o_Status := StatusCancelled\<rparr>) \<and>
        d' = d\<lparr>db_orders := cancelled t (o_ID r) (db_orders d), db_ledger := db_ledger d @ es,
               db_outbox := db_outbox d @ [ev]\<rparr>)"

lemma scanOrder_simps [simp]:
  "o_ID (scanOrder dp r) = o_ID r" "o_UserID (scanOrder dp r) = o_UserID r" "o_Symbol (scanOrder dp r) = o_Symbol r"
  "o_Side (scanOrder dp r) = o_Side r" "o_Status (scanOrder dp r) = o_Status r" "o_Price (scanOrder dp r) = dp_num dp (o_Price r)"
  "o_Quantity (scanOrder dp r) = dp_num dp (o_Quantity r)" "o_FilledQuantity (scanOrder dp r) = dp_num dp (o_FilledQuantity r)"
  by (simp_all add: scanOrder_def)

lemma CancelOrder_change:
  assumes "CancelOrder dp i w = (Inr o2, w')"
  obtains r rs where "orders_by_id i (w_db w) = r # rs" and "IsCancellable (o_Status r)"
    and "o2 = (scanOrder dp r)\<lparr>o_Status := StatusCancelled\<rparr>" and "cancel_change dp r (w_db w) (w_db w')"
proof -
  obtain o0 o1 base quote asset total asset' filled w1 w2 w3 w4 w5 w6 w7 rr u4 u5 u6 u7 where
    s1: "orderStore_GetByID dp i w = (Inr o0, w1)" and
    s2: "orderStore_GetByIDTx dp i ((tick w1)\<lparr>w_tx := Some (w_db w1), w_abort := False\<rparr>) = (Inr o1, w2)" and
    canc: "IsCancellable (o_Status o1)" and
    sp: "SplitSymbol (o_Symbol o1) = Inr (base, quote)" and
    r1: "reserve_of dp ''CancelOrder'' (o_Side o1) base quote (o_Price o1) (o_Quantity o1) = Inr (asset, total)" and
    r2: "reserve_of dp ''CancelOrder'' (o_Side o1) base quote (o_Price o1) (o_FilledQuantity o1) = Inr (asset', filled)" and
    s4: "release_tx dp o1 asset (num_Sub (dp_scan dp) total filled) w2 = (Inr u4, w4)" and
    s5: "orderStore_UpdateStatus (o_ID o1) StatusCancelled w4 = (Inr u5, w5)" and
    s6: "insertOutbox OutboxOrderCancelled (orderCancelledPayload dp (o1\<lparr>o_Status := StatusCancelled\<rparr>)) w5 = (Inr u6, w6)" and
    s7: "Commit w6 = (Inr u7, w7)" and
    s8: "SubmitCancel (dp_uuid_str dp (o_ID (o1\<lparr>o_Status := StatusCancelled\<rparr>))) (o_Symbol (o1\<lparr>o_Status := StatusCancelled\<rparr>)) w7 = (rr, w3)" and
    o2: "o2 = o1\<lparr>o_Status := StatusCancelled\<rparr>" and w': "w_db w' = w_db w3"
  proof -
    have "\<exists>o0 o1 base quote asset total asset' filled w1 w2 w3 w4 w5 w6 w7 rr u4 u5 u6 u7.
      orderStore_GetByID dp i w = (Inr o0, w1) \<and>
      orderStore_GetByIDTx dp i ((tick w1)\<lparr>w_tx := Some (w_db w1), w_abort := False\<rparr>) = (Inr o1, w2) \<and>
      IsCancellable (o_Status o1) \<and> SplitSymbol (o_Symbol o1) = Inr (base, quote) \<and>
      reserve_of dp ''CancelOrder'' (o_Side o1) base quote (o_Price o1) (o_Quantity o1) = Inr (asset, total) \<and>
      reserve_of dp ''CancelOrder'' (o_Side o1) base quote (o_Price o1) (o_FilledQuantity o1) = Inr (asset', filled) \<and>
      release_tx dp o1 asset (num_Sub (dp_scan dp) total filled) w2 = (Inr u4, w4) \<and>
      orderStore_UpdateStatus (o_ID o1) StatusCancelled w4 = (Inr u5, w5) \<and>
      insertOutbox OutboxOrderCancelled (orderCancelledPayload dp (o1\<lparr>o_Status := StatusCancelled\<rparr>)) w5 = (Inr u6, w6) \<and>
      Commit w6 = (Inr u7, w7) \<and>
      SubmitCancel (dp_uuid_str dp (o_ID (o1\<lparr>o_Status := StatusCancelled\<rparr>))) (o_Symbol (o1\<lparr>o_Status := StatusCancelled\<rparr>)) w7 = (rr, w3) \<and>
      o2 = o1\<lparr>o_Status := StatusCancelled\<rparr> \<and> w_db w' = w_db w3"
      using assms unfolding CancelOrder_def
      apply (simp only: if_throw_Inr bindE_Inr wrapE_Inr liftE_Inr in_tx_Inr split_paired_Ex prod.case commit_tx_Inr
          tryE_Inr returnE_Inr Let_def not_not)
      apply (elim exE conjE)
      apply (intro exI conjI)
      apply (assumption | simp | auto)+
      done
    then show thesis using that by blast
  qed
  obtain r0 where "w1 = tick w" using order_get_run [OF s1] by blast
  then have db1: "w_db w1 = w_db w" by simp
  have tx1: "w_tx ((tick w1)\<lparr>w_tx := Some (w_db w1), w_abort := False\<rparr>) = Some (w_db w)" by (simp add: db1)
  obtain r rs where r: "orders_by_id i (w_db w) = r # rs" "o1 = scanOrder dp r" "w_tx w2 = Some (w_db w)"
    "same_store ((tick w1)\<lparr>w_tx := Some (w_db w1), w_abort := False\<rparr>) w2"
    using s2 tx1 by (rule order_lock_run)
  have db2: "w_db w2 = w_db w" using r(4) db1 by (simp add: same_store_def)
  let ?amt = "num_Sub (dp_scan dp) total filled"
  have un: "unreserved_of dp (scanOrder dp r) = Some (asset, ?amt)"
    using sp r1 r2 r(2) by (auto simp: unreserved_of_def reserve_of_def split: if_splits)
  obtain es where es: "w_tx w4 = Some ((w_db w)\<lparr>db_ledger := db_ledger (w_db w) @ es\<rparr>)"
    "if 0 < num_Cmp ?amt (num_Zero (dp_scan dp))
         then \<exists>i acct now x. account_of (o_UserID r) asset (w_db w) = Some acct \<and> num_row ?amt = Inr x \<and>
                es = [ledger_row (release_entry (scanOrder dp r) i acct asset ?amt now) x]
         else es = []"
  proof (cases "0 < num_Cmp ?amt (num_Zero (dp_scan dp))")
    case True
    then obtain i acct now x where x: "account_of (o_UserID r) asset (w_db w) = Some acct" "num_row ?amt = Inr x"
      "w_tx w4 = Some ((w_db w)\<lparr>db_ledger := db_ledger (w_db w) @ [ledger_row (release_entry (scanOrder dp r) i acct asset ?amt now) x]\<rparr>)"
      using release_run [OF s4 r(3)] db2 r(2) by auto
    show thesis by (rule that [OF x(3)]) (use True x(1,2) in auto)
  next
    case False
    then show thesis using that [of "[]"] release_run [OF s4 r(3)] by simp
  qed
  obtain t where t: "w_tx w5 = Some ((w_db w)\<lparr>db_ledger := db_ledger (w_db w) @ es, db_orders := cancelled t (o_ID r) (db_orders (w_db w))\<rparr>)"
    using status_run [OF s5 es(1)] r(2) by auto
  obtain ev where ev: "ev_EventType ev = OutboxOrderCancelled"
    "ev_Payload ev = orderCancelledPayload dp (o1\<lparr>o_Status := StatusCancelled\<rparr>)" "ev_Status ev = StatusPending"
    "w_tx w6 = Some ((w_db w)\<lparr>db_ledger := db_ledger (w_db w) @ es, db_orders := cancelled t (o_ID r) (db_orders (w_db w)),
        db_outbox := db_outbox (w_db w) @ [ev]\<rparr>)"
    using outbox_run [OF s6 t] by auto
  have "w_db w3 = w_db w7" using SubmitCancel_db(1) s8 by (metis snd_conv)
  then have db: "w_db w' = (w_db w)\<lparr>db_ledger := db_ledger (w_db w) @ es, db_orders := cancelled t (o_ID r) (db_orders (w_db w)),
        db_outbox := db_outbox (w_db w) @ [ev]\<rparr>"
    using Commit_run [OF s7 ev(4)] w' by simp
  have "cancel_change dp r (w_db w) (w_db w')"
    unfolding cancel_change_def
    by (rule exI [of _ asset], rule exI [of _ ?amt], rule exI [of _ es], rule exI [of _ t], rule exI [of _ ev])
      (use un es(2) ev(1-3) db r(2) in simp)
  moreover have "IsCancellable (o_Status r)" using canc r(2) by simp
  ultimately show thesis using that r(1,2) o2 by simp
qed

text \<open>What a cancellation gives back, in units of the columns.\<close>

definition reserve_units :: "string \<Rightarrow> int \<Rightarrow> int \<Rightarrow> int" where
  "reserve_units side p q = (if side = SideBuy then dec_units (of_units p * of_units q) else q)"

lemma unreserved_value:
  assumes dp: "deps_ok dp" and "unreserved_of dp (scanOrder dp r) = Some (asset, amt)"
    and "o_Price r = QNum p" "o_Quantity r = QNum q" "o_FilledQuantity r = QNum fq"
  shows "toRat amt = of_units (reserve_units (o_Side r) p q - reserve_units (o_Side r) p fq)" and "plain_num amt"
  using assms(2-5) num_op_values [OF deps_okD(1) [OF dp]] num_op_plain [OF deps_okD(1) [OF dp]] deps_okD(3) [OF dp]
  by (auto simp: unreserved_of_def reserve_units_def SideBuy_def SideSell_def split: sum.splits if_splits)

lemma cancel_change_balance:
  assumes dp: "deps_ok dp" and c: "cancel_change dp r d d'" and s: "SplitSymbol (o_Symbol r) = Inr (base, quote)"
    and n: "o_Price r = QNum p" "o_Quantity r = QNum q" "o_FilledQuantity r = QNum fq"
  shows "balance u a d' = sql_add (balance u a d)
      (QNum (if u = o_UserID r \<and> a = (if o_Side r = SideBuy then quote else base)
             then max 0 (reserve_units (o_Side r) p q - reserve_units (o_Side r) p fq) else 0))"
proof -
  let ?k = "reserve_units (o_Side r) p q - reserve_units (o_Side r) p fq"
  obtain asset amt es where un: "unreserved_of dp (scanOrder dp r) = Some (asset, amt)"
    and es: "if 0 < num_Cmp amt (num_Zero (dp_scan dp))
         then \<exists>i acct now x. account_of (o_UserID r) asset d = Some acct \<and> num_row amt = Inr x \<and>
                es = [ledger_row (release_entry (scanOrder dp r) i acct asset amt now) x]
         else es = []"
    and d': "db_ledger d' = db_ledger d @ es"
    using c unfolding cancel_change_def by auto
  have as: "asset = (if o_Side r = SideBuy then quote else base)"
    using un s by (auto simp: unreserved_of_def split: if_splits)
  note v = unreserved_value [OF dp un n]
  have pos: "0 < num_Cmp amt (num_Zero (dp_scan dp)) \<longleftrightarrow> 0 < ?k"
    using of_units_less [of 0 ?k] by (simp add: num_Cmp_simps num_Zero_value [OF deps_okD(1) [OF dp]] v(1) del: of_units_less)
  show ?thesis
  proof (cases "0 < ?k")
    case True
    then obtain i acct now x where x: "num_row amt = Inr x"
      "es = [ledger_row (release_entry (scanOrder dp r) i acct asset amt now) x]"
      using es pos by auto
    have "x = QNum ?k" using num_row_plainD [OF v(2) x(1)] v(1) by simp
    then show ?thesis using True by (subst balance_append [OF d']) (auto simp: x(2) release_entry_def as)
  next
    case False
    then have "es = []" using es pos by simp
    then show ?thesis using False by (subst balance_append [OF d']) simp
  qed
qed

text \<open>Order IDs are the table's primary key.\<close>

definition orders_distinct :: "db \<Rightarrow> bool" where
  "orders_distinct d \<longleftrightarrow> distinct (map o_ID (db_orders d))"

lemma orders_by_id_unique:
  "orders_distinct d \<Longrightarrow> r \<in> set (db_orders d) \<Longrightarrow> orders_by_id (o_ID r) d = [r]"
proof -
  have "distinct (map o_ID rows) \<Longrightarrow> r \<in> set rows \<Longrightarrow> filter (\<lambda>x. o_ID x = o_ID r) rows = [r]" for rows
    by (induction rows) (auto simp: filter_empty_conv image_iff)
  then show "orders_distinct d \<Longrightarrow> r \<in> set (db_orders d) \<Longrightarrow> orders_by_id (o_ID r) d = [r]"
    by (simp add: orders_distinct_def orders_by_id_def)
qed

text \<open>A cancellation the service should accept is accepted.\<close>

lemma CancelOrder_runs:
  assumes dp: "deps_ok dp" and w: "smooth w" and o: "orders_distinct (w_db w)" "r \<in> set (db_orders (w_db w))"
    and st: "IsCancellable (o_Status r)" and s: "SplitSymbol (o_Symbol r) = Inr (base, quote)" and len: "length (o_Symbol r) \<le> 20"
    and side: "o_Side r = SideBuy \<or> o_Side r = SideSell"
    and n: "o_Price r = QNum p" "o_Quantity r = QNum q" "o_FilledQuantity r = QNum fq"
    and acct: "account_of (o_UserID r) (if o_Side r = SideBuy then quote else base) (w_db w) = Some acct"
    and fit: "\<bar>reserve_units (o_Side r) p q - reserve_units (o_Side r) p fq\<bar> < 10 ^ 30"
  shows "\<exists>o2 w'. CancelOrder dp (o_ID r) w = (Inr o2, w')"
proof -
  obtain f where f: "\<And>n. soon w n \<Longrightarrow> e_uuid (w_env w) n = Some (f n)" and nf: "\<And>n. soon w n \<Longrightarrow> \<not> e_fault (w_env w) n"
    and fresh: "\<And>n r. soon w n \<Longrightarrow> r \<in> set (db_ledger (w_db w)) \<Longrightarrow> f n \<noteq> le_ID r"
      "\<And>n r. soon w n \<Longrightarrow> r \<in> set (db_outbox (w_db w)) \<Longrightarrow> f n \<noteq> ev_ID r"
    using w by (rule smoothE) blast
  note one = orders_by_id_unique [OF o]
  let ?asset = "if o_Side r = SideBuy then quote else base"
  obtain total filled where tf:
    "reserve_of dp ''CancelOrder'' (o_Side r) base quote (dp_num dp (o_Price r)) (dp_num dp (o_Quantity r)) = Inr (?asset, total)"
    "reserve_of dp ''CancelOrder'' (o_Side r) base quote (dp_num dp (o_Price r)) (dp_num dp (o_FilledQuantity r)) = Inr (?asset, filled)"
    using side by (cases "o_Side r = SideBuy") (auto simp: reserve_of_def)
  have un: "unreserved_of dp (scanOrder dp r) = Some (?asset, num_Sub (dp_scan dp) total filled)"
    using tf s side by (auto simp: unreserved_of_def reserve_of_def split: if_splits)
  note v = unreserved_value [OF dp un n]
  have row: "num_row (num_Sub (dp_scan dp) total filled) =
      Inr (QNum (reserve_units (o_Side r) p q - reserve_units (o_Side r) p fq))"
    using num_row_plain [OF v(2)] fit v(1) by simp
  have alen: "length ?asset \<le> 20" using SplitSymbol_length [OF s] len by auto
  have k: "o_Side r \<noteq> SideBuy \<Longrightarrow> o_Side r = SideSell" using side by blast
  show ?thesis
    unfolding CancelOrder_def release_tx_def orderStore_GetByID_def orderStore_GetByIDTx_def ledgerStore_Insert_def
      insertOutbox_def outboxStore_Insert_def orderStore_UpdateStatus_def
    using one st s tf f nf fresh row acct alen
    by (cases "0 < num_Cmp (num_Sub (dp_scan dp) total filled) (num_Zero (dp_scan dp))")
      (simp_all add: ok_simps any_result Let_def faulty_def soon_def varchar_def order_status_ok_def EntryTypeRelease_def RefTypeOrder_def
        OutboxOrderCancelled_def count_rows_def orders_by_id_def)
qed

subsection \<open>Worlds for the examples\<close>

lemma used_ids_card:
  "finite (used_ids d)"
  "card (used_ids d) \<le> length (db_idem d) + length (db_orders d) + length (db_ledger d) + length (db_outbox d) + length (db_trades d)"
proof -
  have img: "card (f ` set xs) \<le> length xs" for f :: "'x \<Rightarrow> uuid" and xs
    by (metis card_image_le card_length finite_set order_trans)
  show "finite (used_ids d)" by (simp add: used_ids_def)
  show "card (used_ids d) \<le> length (db_idem d) + length (db_orders d) + length (db_ledger d) + length (db_outbox d) + length (db_trades d)"
    unfolding used_ids_def by (intro order_trans [OF card_Un_le] add_mono img)
qed

lemma smooth_exists:
  assumes "length (db_idem d) + length (db_orders d) + length (db_ledger d) + length (db_outbox d) + length (db_trades d) < 1000"
  obtains w where "smooth w" and "w_db w = d" and "w_tick w = 0"
proof -
  have "card (UNIV - used_ids d) = card (UNIV :: uuid set) - card (used_ids d)"
    using used_ids_card(1) by (intro card_Diff_subset) auto
  also have "\<dots> = 2 ^ 128 - card (used_ids d)" by (simp add: card_word)
  finally have "100 \<le> card (UNIV - used_ids d)" using used_ids_card(2) [of d] assms by simp
  then obtain S where S: "S \<subseteq> UNIV - used_ids d" "card S = 100" "finite S" by (rule obtain_subset_with_card_n)
  then obtain xs where xs: "set xs = S" "distinct xs" using finite_distinct_list by blast
  then have len: "length xs = 100" using S(2) distinct_card by fastforce
  let ?w = "(ex_world d)\<lparr>w_env := ex_env\<lparr>e_uuid := (\<lambda>n. Some (xs ! n))\<rparr>\<rparr>"
  have "xs ! n \<notin> used_ids d" if "n < 100" for n using that S(1) xs(1) len by (metis DiffE nth_mem subsetD)
  then have "smooth ?w"
    using xs(2) len by (auto simp: smooth_def soon_def nth_eq_iff_index_eq)
  then show thesis by (rule that) simp_all
qed

subsection \<open>Properties of a cancellation\<close>

text \<open>
  C7. A cancellation that succeeds was of an order that is OPEN or PARTIAL; it commits exactly the new
  status of that order, one RELEASE entry on the user's account for the reserve the fills have not
  used when that is positive, and the pending \<open>ORDER_CANCELLED\<close> event.
\<close>
theorem CancelOrder_effect:
  assumes "CancelOrder dp i w = (Inr o2, w')"
  shows "\<exists>r \<in> set (db_orders (w_db w)). o_ID r = i \<and> (o_Status r = StatusOpen \<or> o_Status r = StatusPartial) \<and>
     o2 = (scanOrder dp r)\<lparr>o_Status := StatusCancelled\<rparr> \<and> cancel_change dp r (w_db w) (w_db w')"
proof -
  obtain r rs where r: "orders_by_id i (w_db w) = r # rs" "IsCancellable (o_Status r)"
    "o2 = (scanOrder dp r)\<lparr>o_Status := StatusCancelled\<rparr>" "cancel_change dp r (w_db w) (w_db w')"
    using assms by (rule CancelOrder_change)
  have "r \<in> set (orders_by_id i (w_db w))" using r(1) by simp
  then show ?thesis using r(2-4) by (auto simp: orders_by_id_def IsCancellable_def)
qed

lemma CancelOrder_effect_witness:
  "\<exists>w2 o2 w3. CancelOrder ref_deps 9 w2 = (Inr o2, w3) \<and> o_Status o2 = StatusCancelled"
proof -
  let ?r = "\<lparr>o_ID = 9, o_UserID = 5, o_Symbol = ''BTC-USD'', o_Side = SideSell, o_Price = QNum 7, o_Quantity = QNum 8,
     o_FilledQuantity = QNum 3, o_Status = StatusPartial, o_CreatedAt = 0, o_UpdatedAt = 0\<rparr>"
  obtain w2 where w2: "smooth w2" "w_db w2 = ex_funded\<lparr>db_orders := [?r]\<rparr>"
    by (rule smooth_exists [of "ex_funded\<lparr>db_orders := [?r]\<rparr>"]) (simp_all add: ex_funded_def empty_db_def)
  have "\<exists>o2 w3. CancelOrder ref_deps (o_ID ?r) w2 = (Inr o2, w3)"
    by (rule CancelOrder_runs [OF deps_ok_ref_deps w2(1), where base = "''BTC''" and quote = "''USD''" and p = 7 and q = 8 and fq = 3 and acct = 2])
      (simp_all add: w2(2) ex_symbol orders_distinct_def IsCancellable_def reserve_units_def SideSell_def SideBuy_def
        account_of_def ex_funded_def ex_account_def empty_db_def)
  then obtain o2 w3 where run: "CancelOrder ref_deps 9 w2 = (Inr o2, w3)" by auto
  have "o_Status o2 = StatusCancelled" using CancelOrder_effect [OF run] by auto
  then show ?thesis using run by blast
qed

text \<open>
  CANCELLED and FILLED are final: cancelling an order in one of them fails, with
  \<open>ErrInvalidStateTransition\<close> when the read succeeds, and changes nothing; no cancellation changes
  the status of another order.
\<close>
theorem CancelOrder_terminal:
  assumes "orders_distinct (w_db w)" and "r \<in> set (db_orders (w_db w))" and "o_ID r = i" and "IsTerminal (o_Status r)"
  shows "\<exists>e w'. CancelOrder dp i w = (Inl e, w') \<and> w_db w' = w_db w \<and> w_engine w' = w_engine w \<and>
     (\<not> faulty w \<longrightarrow> e = Sentinel ErrInvalidStateTransition)"
proof -
  have nc: "\<not> IsCancellable (o_Status r)"
    using assms(4) by (auto simp: IsTerminal_def IsCancellable_def StatusFilled_def StatusCancelled_def StatusOpen_def StatusPartial_def)
  have one: "orders_by_id i (w_db w) = [r]" using orders_by_id_unique [OF assms(1,2)] assms(3) by simp
  obtain x w' where run: "CancelOrder dp i w = (x, w')" by force
  have "x \<noteq> Inr o2" for o2 using CancelOrder_change [of dp i w o2 w'] run one nc by fastforce
  then obtain e where e: "x = Inl e" by (cases x) auto
  then have run': "CancelOrder dp i w = (Inl e, w')" using run by simp
  have "e = Sentinel ErrInvalidStateTransition" if "\<not> faulty w"
    using run' that nc
    by (simp add: CancelOrder_def orderStore_GetByID_def pool_query_row_def bindE_def wrapE_def mapE_def pool_query_def
        first_row_def returnE_def throwE_def one)
  then show ?thesis using run' atomic_failed [OF atomic_CancelOrder run'] by simp
qed

lemma CancelOrder_terminal_witness:
  "let d = ex_funded\<lparr>db_orders := [\<lparr>o_ID = 9, o_UserID = 5, o_Symbol = ''BTC-USD'', o_Side = SideSell, o_Price = QNum 7,
       o_Quantity = QNum 8, o_FilledQuantity = QNum 8, o_Status = StatusFilled, o_CreatedAt = 0, o_UpdatedAt = 0\<rparr>]\<rparr> in
   fst (CancelOrder ref_deps 9 (ex_world d)) = Inl (Sentinel ErrInvalidStateTransition) \<and>
   w_db (snd (CancelOrder ref_deps 9 (ex_world d))) = d"
proof -
  let ?r = "\<lparr>o_ID = 9, o_UserID = 5, o_Symbol = ''BTC-USD'', o_Side = SideSell, o_Price = QNum 7, o_Quantity = QNum 8,
     o_FilledQuantity = QNum 8, o_Status = StatusFilled, o_CreatedAt = 0, o_UpdatedAt = 0\<rparr>"
  let ?w = "ex_world (ex_funded\<lparr>db_orders := [?r]\<rparr>)"
  have "\<exists>e w'. CancelOrder ref_deps 9 ?w = (Inl e, w') \<and> w_db w' = w_db ?w \<and> w_engine w' = w_engine ?w \<and>
     (\<not> faulty ?w \<longrightarrow> e = Sentinel ErrInvalidStateTransition)"
    by (rule CancelOrder_terminal [of ?w ?r]) (simp_all add: orders_distinct_def IsTerminal_def)
  then obtain e w' where "CancelOrder ref_deps 9 ?w = (Inl e, w')" "w_db w' = w_db ?w" "e = Sentinel ErrInvalidStateTransition"
    by auto
  then show ?thesis by (simp add: Let_def)
qed


subsection \<open>Placing and cancelling\<close>

lemma place_cancel_balance:
  assumes dp: "deps_ok dp" and place: "PlaceOrder dp markets cmd w = (Inr o1, w1)"
    and between: "w_db w2 = w_db w1" and canc: "CancelOrder dp (o_ID o1) w2 = (Inr o2, w3)"
    and pl: "plain_num (po_Price cmd)" "plain_num (po_Quantity cmd)"
    and s: "SplitSymbol (po_Symbol cmd) = Inr (base, quote)"
    and r: "reserve_of dp ''PlaceOrder'' (po_Side cmd) base quote (po_Price cmd) (po_Quantity cmd) = Inr (asset, amt)"
  shows "balance u a (w_db w3) = sql_add (balance u a (w_db w))
     (QNum (if u = po_UserID cmd \<and> a = asset
            then max 0 (reserve_units (po_Side cmd) (dec_units (toRat (po_Price cmd))) (dec_units (toRat (po_Quantity cmd))))
                 - dec_units (toRat amt) else 0))"
proof -
  note sc = deps_okD(1) [OF dp]
  let ?P = "dec_units (toRat (po_Price cmd))" and ?Q = "dec_units (toRat (po_Quantity cmd))"
  let ?r = "order_row o1 (QNum ?P) (QNum ?Q) (QNum 0)"
  note b1 = PlaceOrder_balances(1) [OF dp place s r]
  have po: "placed_order dp cmd o1" and ch: "\<exists>asset amt. place_change dp cmd o1 asset amt (w_db w) (w_db w1)"
    using PlaceOrder_changed(2,3) [OF place] by blast+
  have fresh: "\<forall>r \<in> set (db_orders (w_db w)). o_ID o1 \<noteq> o_ID r"
    using place by (rule PlaceOrder_change) blast
  have "db_orders (w_db w1) = db_orders (w_db w) @ [?r]"
    using ch num_row_plainD [OF pl(1)] num_row_plainD [OF pl(2)] Zero_row [OF sc]
    unfolding place_change_def by (auto simp: num_row_plain)
  then have one: "orders_by_id (o_ID o1) (w_db w2) = [?r]"
    using fresh between by (auto simp: orders_by_id_def filter_empty_conv)
  have cc: "cancel_change dp ?r (w_db w2) (w_db w3)"
    using canc by (rule CancelOrder_change) (simp add: one)
  have f: "o_UserID o1 = po_UserID cmd" "o_Symbol o1 = po_Symbol cmd" "o_Side o1 = po_Side cmd"
    using po by (simp_all add: placed_order_def)
  have z: "reserve_units sd p 0 = 0" for sd p by (simp add: reserve_units_def)
  have as: "asset = (if po_Side cmd = SideBuy then quote else base)"
    using r by (auto simp: reserve_of_def split: if_splits)
  have "balance u a (w_db w3) = sql_add (balance u a (w_db w2))
      (QNum (if u = po_UserID cmd \<and> a = asset then max 0 (reserve_units (po_Side cmd) ?P ?Q) else 0))"
    using cancel_change_balance [OF dp cc, of base quote ?P ?Q 0] s by (simp add: f z as)
  then show ?thesis using b1 between by (simp add: sql_add_assoc)
qed

text \<open>A placed order can be cancelled, in some world with the database the placement left.\<close>

lemma placed_can_cancel:
  assumes dp: "deps_ok dp" and place: "PlaceOrder dp markets cmd w = (Inr o1, w1)"
    and pl: "plain_num (po_Price cmd)" "plain_num (po_Quantity cmd)"
    and len: "length (po_Symbol cmd) \<le> 20" and od: "orders_distinct (w_db w)"
    and few: "length (db_idem (w_db w)) + length (db_orders (w_db w)) + length (db_ledger (w_db w)) + length (db_outbox (w_db w))
       + length (db_trades (w_db w)) < 900"
    and fit: "\<bar>reserve_units (po_Side cmd) (dec_units (toRat (po_Price cmd))) (dec_units (toRat (po_Quantity cmd)))\<bar> < 10 ^ 30"
  obtains w2 o2 w3 where "w_db w2 = w_db w1" and "CancelOrder dp (o_ID o1) w2 = (Inr o2, w3)"
proof -
  note sc = deps_okD(1) [OF dp]
  let ?P = "dec_units (toRat (po_Price cmd))" and ?Q = "dec_units (toRat (po_Quantity cmd))"
  let ?r = "order_row o1 (QNum ?P) (QNum ?Q) (QNum 0)"
  obtain base quote asset amt where
    s: "SplitSymbol (po_Symbol cmd) = Inr (base, quote)" and
    r: "reserve_of dp ''PlaceOrder'' (po_Side cmd) base quote (po_Price cmd) (po_Quantity cmd) = Inr (asset, amt)" and
    po: "placed_order dp cmd o1" and fresh: "\<forall>r \<in> set (db_orders (w_db w)). o_ID o1 \<noteq> o_ID r" and
    ch: "place_change dp cmd o1 asset amt (w_db w) (w_db w1)"
    using place by (rule PlaceOrder_change)
  have f: "o_UserID o1 = po_UserID cmd" "o_Symbol o1 = po_Symbol cmd" "o_Side o1 = po_Side cmd" "o_Status o1 = StatusOpen"
    using po by (simp_all add: placed_order_def)
  obtain ik i acct x ev where d1: "w_db w1 = (w_db w)\<lparr>db_idem := db_idem (w_db w) @ [ik], db_orders := db_orders (w_db w) @ [?r],
      db_ledger := db_ledger (w_db w) @ [ledger_row (reserve_entry dp o1 i acct asset amt) x],
      db_outbox := db_outbox (w_db w) @ [ev]\<rparr>" and acct: "account_of (po_UserID cmd) asset (w_db w) = Some acct"
    using ch num_row_plainD [OF pl(1)] num_row_plainD [OF pl(2)] Zero_row [OF sc] unfolding place_change_def by auto
  obtain w2 where w2: "smooth w2" "w_db w2 = w_db w1"
    by (rule smooth_exists [of "w_db w1"]) (use few in \<open>auto simp: d1\<close>)
  have od1: "orders_distinct (w_db w2)" using od fresh by (auto simp: w2(2) d1 orders_distinct_def)
  have mem: "?r \<in> set (db_orders (w_db w2))" by (simp add: w2(2) d1)
  have side: "po_Side cmd = SideBuy \<or> po_Side cmd = SideSell" using r by (auto simp: reserve_of_def split: if_splits)
  have as: "asset = (if po_Side cmd = SideBuy then quote else base)"
    using r by (auto simp: reserve_of_def split: if_splits)
  have ac: "account_of (po_UserID cmd) asset (w_db w2) = Some acct"
    using acct by (simp add: w2(2) d1 account_of_def)
  have "\<exists>o2 w3. CancelOrder dp (o_ID ?r) w2 = (Inr o2, w3)"
    by (rule CancelOrder_runs [OF dp w2(1) od1 mem])
      (use s len side ac as fit in \<open>auto simp: f IsCancellable_def reserve_units_def\<close>)
  then show thesis using that w2(2) by auto
qed

text \<open>
  C34. Placing an order and cancelling it is neutral: when the price and the quantity have at most ten
  decimals and the amount to reserve (price times quantity for a BUY, the quantity for a SELL) is not
  negative, every balance of every user is after the two calls what it was before them. When the amount is
  negative it is not: the placement credits it, the cancellation takes nothing back, and the
  user keeps exactly that amount; no other balance changes.
\<close>
theorem place_cancel_neutral:
  assumes "deps_ok dp" and "PlaceOrder dp markets cmd w = (Inr o1, w1)"
    and "w_db w2 = w_db w1" and "CancelOrder dp (o_ID o1) w2 = (Inr o2, w3)"
    and "plain_num (po_Price cmd)" and "plain_num (po_Quantity cmd)"
    and "toRat (po_Price cmd) = of_units p" and "toRat (po_Quantity cmd) = of_units q"
    and "SplitSymbol (po_Symbol cmd) = Inr (base, quote)"
  shows "balance u a (w_db w3) =
    (if u = po_UserID cmd \<and> a = (if po_Side cmd = SideBuy then quote else base) \<and> reserve_units (po_Side cmd) p q < 0
     then sql_add (balance u a (w_db w)) (QNum (- reserve_units (po_Side cmd) p q))
     else balance u a (w_db w))"
proof -
  obtain base' quote' asset amt where
    s: "SplitSymbol (po_Symbol cmd) = Inr (base', quote')" and
    r: "reserve_of dp ''PlaceOrder'' (po_Side cmd) base' quote' (po_Price cmd) (po_Quantity cmd) = Inr (asset, amt)"
    using assms(2) by (rule PlaceOrder_change)
  have "dec_units (toRat amt) = reserve_units (po_Side cmd) p q"
    using r assms(7,8) by (auto simp: reserve_of_def reserve_units_def num_Mul_value [OF deps_okD(1) [OF assms(1)]] split: if_splits)
  moreover have "asset = (if po_Side cmd = SideBuy then quote else base)"
    using r s assms(9) by (auto simp: reserve_of_def split: if_splits)
  ultimately show ?thesis
    using place_cancel_balance [OF assms(1-6) s r, of u a] assms(7,8) by (auto simp: max_def)
qed

lemma ex_units: "toRat (ex_num k) = of_units (k * 10 ^ 10)"
  by (simp add: of_units_def)

lemma ex_cancellable:
  assumes "PlaceOrder ref_deps [''BTC-USD''] (ex_buy 100 3 ''k1'') (ex_world ex_funded) = (Inr o1, w1)"
  obtains w2 o2 w3 where "w_db w2 = w_db w1" and "CancelOrder ref_deps (o_ID o1) w2 = (Inr o2, w3)"
proof (rule placed_can_cancel [OF deps_ok_ref_deps assms])
  have "of_units (100 * 10 ^ 10) * of_units (3 * 10 ^ 10) = of_units (300 * 10 ^ 10)" by (simp add: of_units_def)
  then have "dec_units (of_units (100 * 10 ^ 10) * of_units (3 * 10 ^ 10)) = 300 * 10 ^ 10" by (simp only: dec_units_of_units)
  then show "\<bar>reserve_units (po_Side (ex_buy 100 3 ''k1'')) (dec_units (toRat (po_Price (ex_buy 100 3 ''k1''))))
      (dec_units (toRat (po_Quantity (ex_buy 100 3 ''k1''))))\<bar> < 10 ^ 30"
    by (simp add: ex_buy_def ex_units reserve_units_def del: ex_num_simps)
qed (use that in \<open>simp_all add: ex_buy_def ex_funded_def empty_db_def orders_distinct_def\<close>)

lemma place_cancel_neutral_witness:
  "\<exists>o1 w1 w2 o2 w3. PlaceOrder ref_deps [''BTC-USD''] (ex_buy 100 3 ''k1'') (ex_world ex_funded) = (Inr o1, w1)
     \<and> w_db w2 = w_db w1 \<and> CancelOrder ref_deps (o_ID o1) w2 = (Inr o2, w3) \<and> balance 5 ''USD'' (w_db w3) = QNum (1000 * 10 ^ 10)"
proof -
  obtain o1 w1 where run: "PlaceOrder ref_deps [''BTC-USD''] (ex_buy 100 3 ''k1'') (ex_world ex_funded) = (Inr o1, w1)"
    using ex_placed [of 100 3] by auto
  then obtain w2 o2 w3 where c: "w_db w2 = w_db w1" "CancelOrder ref_deps (o_ID o1) w2 = (Inr o2, w3)"
    by (rule ex_cancellable)
  have nn: "\<not> reserve_units SideBuy (100 * 10 ^ 10) (3 * 10 ^ 10) < 0"
    unfolding reserve_units_def using dec_units_nonneg [of "of_units (100 * 10 ^ 10) * of_units (3 * 10 ^ 10)"] by (simp add: of_units_def)
  have "balance 5 ''USD'' (w_db w3) = balance 5 ''USD'' (w_db (ex_world ex_funded))"
    using place_cancel_neutral [OF deps_ok_ref_deps run c, of "100 * 10 ^ 10" "3 * 10 ^ 10" "''BTC''" "''USD''" 5 "''USD''"] nn
    by (simp add: ex_buy_def ex_symbol of_units_def)
  moreover have "balance 5 ''USD'' (w_db (ex_world ex_funded)) = QNum (1000 * 10 ^ 10)"
    by (simp add: balance_def ex_funded_def ex_entry_def empty_db_def)
  ultimately show ?thesis using run c by metis
qed

text \<open>
  Beyond ten decimals it is not: the amount reserved is computed from the numbers of the request,
  the amount released from the rounded numbers of the row. Buying at a price of half a unit of the last
  place and cancelling credits the user with as much as was reserved.
\<close>
theorem place_cancel_mints:
  assumes "deps_ok dp" and "PlaceOrder dp markets cmd w = (Inr o1, w1)"
    and "w_db w2 = w_db w1" and "CancelOrder dp (o_ID o1) w2 = (Inr o2, w3)"
    and "plain_num (po_Price cmd)" and "plain_num (po_Quantity cmd)" and "po_Side cmd = SideBuy"
    and "SplitSymbol (po_Symbol cmd) = Inr (base, quote)"
    and "toRat (po_Price cmd) = 1 / (2 * 10 ^ 10)" and "toRat (po_Quantity cmd) = of_int (2 * j)" and "0 \<le> j"
    and "balance (po_UserID cmd) quote (w_db w) = QNum k"
  shows "balance (po_UserID cmd) quote (w_db w3) = QNum (k + j)"
proof -
  let ?amt = "num_Mul (dp_scan dp) (po_Price cmd) (po_Quantity cmd)"
  have r: "reserve_of dp ''PlaceOrder'' (po_Side cmd) base quote (po_Price cmd) (po_Quantity cmd) = Inr (quote, ?amt)"
    by (simp add: reserve_of_def assms(7))
  have "toRat (po_Price cmd) * toRat (po_Quantity cmd) = of_units j"
    by (simp add: assms(9,10) of_units_def)
  then have a: "dec_units (toRat ?amt) = j"
    by (simp add: num_Mul_value [OF deps_okD(1) [OF assms(1)]])
  have p: "dec_units (toRat (po_Price cmd)) = 1"
    using dec_units_frac [of "2 * 10 ^ 10" 1] by (simp add: assms(9) div_half_away_def)
  have q: "dec_units (toRat (po_Quantity cmd)) = 2 * j * 10 ^ 10"
    by (simp only: assms(10) dec_units_int)
  have "of_units 1 * of_units (2 * j * 10 ^ 10) = of_units (2 * j)"
    by (simp add: of_units_def)
  then have "reserve_units (po_Side cmd) 1 (2 * j * 10 ^ 10) = 2 * j"
    by (simp add: reserve_units_def assms(7))
  then show ?thesis
    using place_cancel_balance [OF assms(1-6,8) r, of "po_UserID cmd" quote] assms(11,12) by (simp add: a p q)
qed

text \<open>Buying 200000000000 at 0.00000000005, with 1000 USD on the account: 10 are reserved, 20 released.\<close>

definition ex_dust :: place_cmd where
  "ex_dust = (ex_buy 1 (2 * 10 ^ 11) ''k1'')\<lparr>po_Price :=
     \<lparr>num_Int = Some 5, num_Exp = - of_nat 11, num_NaN = False, num_Inf = 0, num_Valid = True\<rparr>\<rparr>"

lemma ex_dust_simps:
  "toRat (po_Price ex_dust) = 1 / (2 * 10 ^ 10)" "plain_num (po_Price ex_dust)" "po_Quantity ex_dust = ex_num (2 * 10 ^ 11)"
  "po_Side ex_dust = SideBuy" "po_Symbol ex_dust = ''BTC-USD''" "po_UserID ex_dust = 5" "po_IdempotencyKey ex_dust = ''k1''"
  "dec_units (toRat (po_Price ex_dust)) = 1"
proof -
  show p: "toRat (po_Price ex_dust) = 1 / (2 * 10 ^ 10)"
    using toRat_neg_exp [of 11 5] by (simp add: ex_dust_def)
  show "dec_units (toRat (po_Price ex_dust)) = 1"
    using dec_units_frac [of "2 * 10 ^ 10" 1] by (simp add: p div_half_away_def)
qed (simp_all add: ex_dust_def ex_buy_def plain_num_def)

lemma ex_dust_reserve:
  "reserve_of ref_deps op (po_Side ex_dust) b q (po_Price ex_dust) (po_Quantity ex_dust) =
     Inr (q, num_Mul (dp_scan ref_deps) (po_Price ex_dust) (po_Quantity ex_dust))"
  "toRat (num_Mul (dp_scan ref_deps) (po_Price ex_dust) (po_Quantity ex_dust)) = of_units (10 * 10 ^ 10)"
proof -
  have "toRat (po_Price ex_dust) * toRat (po_Quantity ex_dust) = of_units (10 * 10 ^ 10)"
    by (simp add: ex_dust_simps of_units_def)
  then show "toRat (num_Mul (dp_scan ref_deps) (po_Price ex_dust) (po_Quantity ex_dust)) = of_units (10 * 10 ^ 10)"
    by (simp only: num_Mul_value [OF ref_deps_scan] dec_units_of_units)
qed (simp add: reserve_of_def ex_dust_simps)

lemma ex_dust_placed: "\<exists>o1 w1. PlaceOrder ref_deps [] ex_dust (ex_world ex_funded) = (Inr o1, w1)"
proof (rule PlaceOrder_runs [OF deps_ok_ref_deps ex_funded_smooth])
  show "fits (po_Price ex_dust)" using ex_dust_simps(2,8) by (simp add: fits_def)
  show "\<bar>dec_units (toRat (num_Mul (dp_scan ref_deps) (po_Price ex_dust) (po_Quantity ex_dust)))\<bar> < 10 ^ 30"
    by (simp only: ex_dust_reserve(2) dec_units_of_units) simp
  show "toRat (num_Mul (dp_scan ref_deps) (po_Price ex_dust) (po_Quantity ex_dust)) \<le> of_units (1000 * 10 ^ 10)"
    by (simp only: ex_dust_reserve(2)) (simp add: of_units_def)
  show "balance (po_UserID ex_dust) ''USD'' (w_db (ex_world ex_funded)) = QNum (1000 * 10 ^ 10)"
    by (simp add: balance_def ex_funded_def ex_entry_def ex_dust_simps empty_db_def)
  show "account_of (po_UserID ex_dust) ''USD'' (w_db (ex_world ex_funded)) = Some 1"
    by (simp add: account_of_def ex_funded_def ex_account_def ex_dust_simps empty_db_def)
qed (simp_all add: ex_dust_simps ex_symbol reserve_of_def key_claimed_def ex_funded_def empty_db_def)

lemma place_cancel_mints_witness:
  "\<exists>o1 w1 w2 o2 w3. PlaceOrder ref_deps [] ex_dust (ex_world ex_funded) = (Inr o1, w1) \<and> w_db w2 = w_db w1 \<and>
     CancelOrder ref_deps (o_ID o1) w2 = (Inr o2, w3) \<and> balance 5 ''USD'' (w_db w3) = QNum (1010 * 10 ^ 10)"
proof -
  obtain o1 w1 where run: "PlaceOrder ref_deps [] ex_dust (ex_world ex_funded) = (Inr o1, w1)"
    using ex_dust_placed by blast
  have q: "dec_units (toRat (po_Quantity ex_dust)) = 2 * 10 ^ 11 * 10 ^ 10"
    by (simp only: ex_dust_simps ex_num_simps dec_units_int)
  have "of_units 1 * of_units (2 * 10 ^ 11 * 10 ^ 10) = of_units (20 * 10 ^ 10)" by (simp add: of_units_def)
  then have "dec_units (of_units 1 * of_units (2 * 10 ^ 11 * 10 ^ 10)) = 20 * 10 ^ 10" by (simp only: dec_units_of_units)
  then have fit: "\<bar>reserve_units (po_Side ex_dust) (dec_units (toRat (po_Price ex_dust))) (dec_units (toRat (po_Quantity ex_dust)))\<bar> < 10 ^ 30"
    by (simp add: reserve_units_def ex_dust_simps(4,8) q)
  obtain w2 o2 w3 where c: "w_db w2 = w_db w1" "CancelOrder ref_deps (o_ID o1) w2 = (Inr o2, w3)"
    by (rule placed_can_cancel [OF deps_ok_ref_deps run _ _ _ _ _ fit])
      (simp_all add: ex_dust_simps ex_funded_def empty_db_def orders_distinct_def)
  have "balance (po_UserID ex_dust) ''USD'' (w_db w3) = QNum (1000 * 10 ^ 10 + 10 ^ 11)"
    by (rule place_cancel_mints [OF deps_ok_ref_deps run c, of "''BTC''"])
      (simp_all add: ex_dust_simps ex_symbol balance_def ex_funded_def ex_entry_def empty_db_def)
  then have "balance 5 ''USD'' (w_db w3) = QNum (1010 * 10 ^ 10)" by (simp add: ex_dust_simps)
  then show ?thesis using run c by metis
qed

end
