(* ===== verification/Trade.thy ===== *)
theory Trade
  imports Order
begin

text \<open>
  internal/trade: executing a matched trade. One transaction claims the idempotency key, locks both
  orders, posts four ledger entries, records the trade, applies the fill to both orders and announces
  the trade.
\<close>

subsection \<open>Store (trade/store.go)\<close>

definition insert_trade :: "pgnumeric trade_rec \<Rightarrow> db \<Rightarrow> db_error + unit \<times> db" where
  "insert_trade t d =
     (case num_row (t_Price t) of Inl e \<Rightarrow> Inl e | Inr p \<Rightarrow>
      case num_row (t_Quantity t) of Inl e \<Rightarrow> Inl e | Inr q \<Rightarrow>
      case sql_insert (varchar 20 (t_Symbol t)) (\<lambda>a b. t_ID a = t_ID b)
             \<lparr>t_ID = t_ID t, t_Symbol = t_Symbol t, t_BuyOrderID = t_BuyOrderID t, t_SellOrderID = t_SellOrderID t,
              t_BuyUserID = t_BuyUserID t, t_SellUserID = t_SellUserID t, t_Price = p, t_Quantity = q,
              t_CreatedAt = t_CreatedAt t\<rparr> (db_trades d) of
        Inl e \<Rightarrow> Inl e
      | Inr rows \<Rightarrow> Inr ((), d\<lparr>db_trades := rows\<rparr>))"

definition tradeStore_Create :: "pgnumeric trade_rec \<Rightarrow> (gerr, unit) act" where
  "tradeStore_Create t = wrapE ''tradeStore.Create: '' (mapE db_gerr (tx_exec (\<lambda>d _. insert_trade t d)))"

text \<open>A trade as its user sees it: the side, and the other party; a trade with oneself is a BUY.\<close>

definition user_trade_of :: "deps \<Rightarrow> uuid \<Rightarrow> sqlnum trade_rec \<Rightarrow> pgnumeric user_trade" where
  "user_trade_of dp u t =
     \<lparr>ut_ID = t_ID t, ut_Symbol = t_Symbol t, ut_Side = (if t_BuyUserID t = u then ''BUY'' else ''SELL''),
      ut_Price = dp_num dp (t_Price t), ut_Quantity = dp_num dp (t_Quantity t),
      ut_CounterpartyUserID = (if t_BuyUserID t = u then t_SellUserID t else t_BuyUserID t),
      ut_CreatedAt = t_CreatedAt t\<rparr>"

definition tradeStore_ListByUser :: "deps \<Rightarrow> uuid \<Rightarrow> string \<Rightarrow> int \<Rightarrow> int \<Rightarrow> (gerr, pgnumeric user_trade list) act" where
  "tradeStore_ListByUser dp u symbol limit offset =
     wrapE ''tradeStore.ListByUser: '' (mapE db_gerr (bindE
       (pool_list (\<lambda>d. sql_page limit offset (order_desc t_CreatedAt
          (filter (\<lambda>t. (t_BuyUserID t = u \<or> t_SellUserID t = u) \<and> (symbol = [] \<or> t_Symbol t = symbol)) (db_trades d)))))
       (\<lambda>rows. returnE (map (user_trade_of dp u) rows))))"

subsection \<open>Service (trade/service.go)\<close>

record trade_cmd =
  tc_Symbol :: string
  tc_BuyOrderID :: uuid
  tc_SellOrderID :: uuid
  tc_Price :: pgnumeric
  tc_Quantity :: pgnumeric
  tc_IdempotencyKey :: string

text \<open>The entry has no ID yet; it gets one just before it is inserted.\<close>

definition newEntry :: "uuid \<Rightarrow> uuid \<Rightarrow> string \<Rightarrow> pgnumeric \<Rightarrow> uuid \<Rightarrow> gotime \<Rightarrow> pgnumeric ledger_entry" where
  "newEntry u acct asset amount tradeID now =
     \<lparr>le_ID = uuid_nil, le_UserID = u, le_AccountID = acct, le_Asset = asset, le_Amount = amount,
      le_EntryType = EntryTypeTrade, le_RefType = RefTypeTrade, le_RefID = tradeID, le_CreatedAt = now\<rparr>"

definition tradeExecutedPayload :: "deps \<Rightarrow> pgnumeric trade_rec \<Rightarrow> json" where
  "tradeExecutedPayload dp t =
     JObj [(''buy_order_id'', JStr (dp_uuid_str dp (t_BuyOrderID t))), (''price'', JStr (num_String (t_Price t))),
           (''quantity'', JStr (num_String (t_Quantity t))), (''sell_order_id'', JStr (dp_uuid_str dp (t_SellOrderID t))),
           (''symbol'', JStr (t_Symbol t)), (''trade_id'', JStr (dp_uuid_str dp (t_ID t)))]"

definition applyOrderFill :: "deps \<Rightarrow> pgnumeric order_rec \<Rightarrow> pgnumeric \<Rightarrow> (gerr, unit) act" where
  "applyOrderFill dp o1 qty =
     bindE (orderStore_IncrementFilled (o_ID o1) qty) (\<lambda>_.
     let newFilled = num_Add (dp_scan dp) (o_FilledQuantity o1) qty;
         c = num_Cmp newFilled (o_Quantity o1) in
     if 0 \<le> c then orderStore_UpdateStatus (o_ID o1) StatusFilled
     else if o_Status o1 = StatusOpen then orderStore_UpdateStatus (o_ID o1) StatusPartial
     else returnE ())"

text \<open>The running sum of the amounts of the entries.\<close>

definition entries_sum :: "deps \<Rightarrow> pgnumeric ledger_entry list \<Rightarrow> pgnumeric" where
  "entries_sum dp es = fold (\<lambda>e s. num_Add (dp_scan dp) s (le_Amount e)) es (num_Zero (dp_scan dp))"

definition insert_entry :: "pgnumeric ledger_entry \<Rightarrow> (gerr, unit) act" where
  "insert_entry e =
     bindE (wrapE ''ExecuteTrade entry id: '' NewV7) (\<lambda>i.
     wrapE ''ExecuteTrade ledger: '' (ledgerStore_Insert (e\<lparr>le_ID := i\<rparr>)))"

text \<open>From the locked orders on: accounts, entries, trade, fills, event, commit.\<close>

definition settle_tx :: "deps \<Rightarrow> trade_cmd \<Rightarrow> string \<Rightarrow> string \<Rightarrow> pgnumeric order_rec \<Rightarrow> pgnumeric order_rec \<Rightarrow>
    (gerr, pgnumeric trade_rec) act" where
  "settle_tx dp cmd base quote buyOrder sellOrder =
     (let quoteAmount = num_Mul (dp_scan dp) (tc_Price cmd) (tc_Quantity cmd); baseAmount = tc_Quantity cmd in
      bindE (wrapE ''ExecuteTrade buy base acct: '' (AccountID (o_UserID buyOrder) base)) (\<lambda>buyBaseAcct.
      bindE (wrapE ''ExecuteTrade buy quote acct: '' (AccountID (o_UserID buyOrder) quote)) (\<lambda>buyQuoteAcct.
      bindE (wrapE ''ExecuteTrade sell base acct: '' (AccountID (o_UserID sellOrder) base)) (\<lambda>sellBaseAcct.
      bindE (wrapE ''ExecuteTrade sell quote acct: '' (AccountID (o_UserID sellOrder) quote)) (\<lambda>sellQuoteAcct.
      bindE (wrapE ''ExecuteTrade id: '' NewV7) (\<lambda>tradeID.
      bindE Now (\<lambda>now.
      let entries =
            [newEntry (o_UserID buyOrder) buyBaseAcct base baseAmount tradeID now,
             newEntry (o_UserID buyOrder) buyQuoteAcct quote (num_Neg (dp_scan dp) quoteAmount) tradeID now,
             newEntry (o_UserID sellOrder) sellBaseAcct base (num_Neg (dp_scan dp) baseAmount) tradeID now,
             newEntry (o_UserID sellOrder) sellQuoteAcct quote quoteAmount tradeID now] in
      if num_Cmp (entries_sum dp entries) (num_Zero (dp_scan dp)) \<noteq> 0
      then throwE (Opaque ''ExecuteTrade: ledger entries do not sum to zero'')
      else
      let tr = \<lparr>t_ID = tradeID, t_Symbol = tc_Symbol cmd, t_BuyOrderID = tc_BuyOrderID cmd, t_SellOrderID = tc_SellOrderID cmd,
                t_BuyUserID = o_UserID buyOrder, t_SellUserID = o_UserID sellOrder, t_Price = tc_Price cmd,
                t_Quantity = tc_Quantity cmd, t_CreatedAt = now\<rparr> in
      bindE (wrapE ''ExecuteTrade create: '' (tradeStore_Create tr)) (\<lambda>_.
      bindE (mapM_E insert_entry entries) (\<lambda>_.
      bindE (wrapE ''ExecuteTrade buy fill: '' (applyOrderFill dp buyOrder (tc_Quantity cmd))) (\<lambda>_.
      bindE (wrapE ''ExecuteTrade sell fill: '' (applyOrderFill dp sellOrder (tc_Quantity cmd))) (\<lambda>_.
      bindE (wrapE ''ExecuteTrade outbox: '' (insertOutbox EventTypeTradeExecuted (tradeExecutedPayload dp tr))) (\<lambda>_.
      bindE (commit_tx ''ExecuteTrade commit: '') (\<lambda>_. returnE tr)))))))))))))"

definition ExecuteTrade :: "deps \<Rightarrow> trade_cmd \<Rightarrow> (gerr, pgnumeric trade_rec) act" where
  "ExecuteTrade dp cmd =
     bindE (wrapE ''ExecuteTrade: '' (liftE (SplitSymbol (tc_Symbol cmd)))) (\<lambda>(base, quote).
     in_tx ''ExecuteTrade begin: ''
       (bindE (claim_key ''ExecuteTrade idempotency: '' (tc_IdempotencyKey cmd) ScopeTrade) (\<lambda>_.
        bindE (wrapE ''ExecuteTrade buy lookup: '' (orderStore_GetByIDTx dp (tc_BuyOrderID cmd))) (\<lambda>buyOrder.
        bindE (wrapE ''ExecuteTrade sell lookup: '' (orderStore_GetByIDTx dp (tc_SellOrderID cmd))) (\<lambda>sellOrder.
        if o_Side buyOrder \<noteq> SideBuy then throwE (Opaque ''ExecuteTrade: buy_order_id is not BUY'')
        else if o_Side sellOrder \<noteq> SideSell then throwE (Opaque ''ExecuteTrade: sell_order_id is not SELL'')
        else if IsTerminal (o_Status buyOrder) \<or> IsTerminal (o_Status sellOrder)
        then throwE (Sentinel ErrInvalidStateTransition)
        else settle_tx dp cmd base quote buyOrder sellOrder)))))"

definition trade_ListByUser :: "deps \<Rightarrow> uuid \<Rightarrow> string \<Rightarrow> int \<Rightarrow> int \<Rightarrow> (gerr, pgnumeric user_trade list) act" where
  "trade_ListByUser dp u symbol limit offset =
     wrapE ''ListByUser: '' (tradeStore_ListByUser dp u symbol limit offset)"

subsection \<open>Rows\<close>

definition trade_row :: "'a trade_rec \<Rightarrow> sqlnum \<Rightarrow> sqlnum \<Rightarrow> sqlnum trade_rec" where
  "trade_row t p q =
     \<lparr>t_ID = t_ID t, t_Symbol = t_Symbol t, t_BuyOrderID = t_BuyOrderID t, t_SellOrderID = t_SellOrderID t,
      t_BuyUserID = t_BuyUserID t, t_SellUserID = t_SellUserID t, t_Price = p, t_Quantity = q,
      t_CreatedAt = t_CreatedAt t\<rparr>"

lemma insert_trade_Inr [ok_simps]:
  "insert_trade t d = Inr (x, d') \<longleftrightarrow>
     (\<exists>p q. num_row (t_Price t) = Inr p \<and> num_row (t_Quantity t) = Inr q \<and> varchar 20 (t_Symbol t) \<and>
        (\<forall>r \<in> set (db_trades d). t_ID t \<noteq> t_ID r) \<and> d' = d\<lparr>db_trades := db_trades d @ [trade_row t p q]\<rparr>)"
  unfolding insert_trade_def trade_row_def
  by (cases "num_row (t_Price t)"; cases "num_row (t_Quantity t)") (auto simp: sql_insert_case)

lemma quiet_trade [frame]:
  "quiet (tradeStore_Create t)" "quiet (applyOrderFill dp o1 q)" "quiet (insert_entry e)"
  "quiet (tradeStore_ListByUser dp u s l m)" "quiet (trade_ListByUser dp u s l m)"
proof -
  have "quiet (orderStore_IncrementFilled i q)" "quiet (orderStore_UpdateStatus i s)" for i q s
    by (auto simp: orderStore_IncrementFilled_def orderStore_UpdateStatus_def intro!: frame)
  then show "quiet (applyOrderFill dp o1 q)" by (auto simp: applyOrderFill_def Let_def intro!: frame)
qed (auto simp: tradeStore_Create_def insert_entry_def tradeStore_ListByUser_def trade_ListByUser_def intro!: frame)

end
