(* ===== verification/Forward.thy ===== *)
theory Forward
  imports Trade_Properties
begin

text \<open>
  Running a transaction forward in an environment where nothing fails: \<open>running w k d v\<close> says that the
  world \<open>v\<close> is \<open>k\<close> calls after \<open>w\<close>, in a transaction whose working copy is \<open>d\<close>. One rule per
  statement; the liveness lemmas of the services compose them.
\<close>

definition smooth_at :: "world \<Rightarrow> (nat \<Rightarrow> uuid) \<Rightarrow> bool" where
  "smooth_at w f \<longleftrightarrow> (\<forall>n. soon w n \<longrightarrow> e_uuid (w_env w) n = Some (f n) \<and> \<not> e_fault (w_env w) n \<and> f n \<notin> used_ids (w_db w)) \<and>
     (\<forall>m n. soon w m \<longrightarrow> soon w n \<longrightarrow> m \<noteq> n \<longrightarrow> f m \<noteq> f n)"

lemma smooth_smooth_at:
  assumes "smooth w"
  obtains f where "smooth_at w f"
proof -
  have "\<forall>n. \<exists>u. soon w n \<longrightarrow> e_uuid (w_env w) n = Some u \<and> u \<notin> used_ids (w_db w)"
    using assms unfolding smooth_def by metis
  then obtain f where f: "\<And>n. soon w n \<Longrightarrow> e_uuid (w_env w) n = Some (f n)" "\<And>n. soon w n \<Longrightarrow> f n \<notin> used_ids (w_db w)"
    by metis
  have "f m \<noteq> f n" if "soon w m" "soon w n" "m \<noteq> n" for m n
    using assms f(1) [OF that(1)] f(1) [OF that(2)] that unfolding smooth_def by metis
  moreover have "\<not> e_fault (w_env w) n" if "soon w n" for n using assms that unfolding smooth_def by blast
  ultimately have "smooth_at w f" using f by (simp add: smooth_at_def)
  then show thesis by (rule that)
qed

definition running :: "world \<Rightarrow> nat \<Rightarrow> db \<Rightarrow> world \<Rightarrow> bool" where
  "running w k d v \<longleftrightarrow> w_tx v = Some d \<and> \<not> w_abort v \<and> w_env v = w_env w \<and> w_db v = w_db w \<and> w_tick v = w_tick w + k"

lemma soon_add: "k < 100 \<Longrightarrow> soon w (w_tick w + k)"
  by (simp add: soon_def)

lemma at_begin: "running w 1 (w_db w) ((tick w)\<lparr>w_tx := Some (w_db w), w_abort := False\<rparr>)"
  by (simp add: running_def)

lemma at_NewV7: "smooth_at w f \<Longrightarrow> running w k d v \<Longrightarrow> k < 100 \<Longrightarrow> NewV7 v = (Inr (f (w_tick w + k)), tick v) \<and> running w (k + 1) d (tick v)"
  using soon_add [of k w] by (simp add: smooth_at_def running_def NewV7_def)

lemma at_Now: "running w k d v \<Longrightarrow> \<exists>t. Now v = (Inr t :: gerr + gotime, tick v) \<and> running w (k + 1) d (tick v)"
  by (simp add: running_def Now_def)

lemma at_exec:
  assumes "smooth_at w f" and "running w k d v" and "k < 100" and "\<And>t. \<exists>a d'. g d t = Inr (a, d') \<and> P t a d'"
  shows "\<exists>t a d' v'. tx_exec g v = (Inr a, v') \<and> P t a d' \<and> running w (k + 1) d' v'"
proof -
  have nf: "\<not> faulty v" using assms(1-3) soon_add [of k w] by (simp add: smooth_at_def running_def faulty_def)
  obtain a d' where "g d (e_now (w_env v) (w_tick v)) = Inr (a, d')" "P (e_now (w_env v) (w_tick v)) a d'"
    using assms(4) by blast
  then show ?thesis using assms(2) nf by (intro exI conjI) (auto simp: running_def tx_exec_Inr)
qed

lemma at_account:
  assumes "smooth_at w f" and "running w k d v" and "k < 100" and "account_of u a (w_db w) = Some i"
  shows "AccountID u a v = (Inr i, tick v) \<and> running w (k + 1) d (tick v)"
  using assms soon_add [of k w] by (auto simp: AccountID_Inr smooth_at_def running_def faulty_def)

text \<open>A row with a fresh ID.\<close>

lemma smooth_fresh:
  assumes "smooth_at w f" and "k < 100"
  shows "\<forall>r \<in> set (db_idem (w_db w)). f (w_tick w + k) \<noteq> ik_ID r" and "\<forall>r \<in> set (db_orders (w_db w)). f (w_tick w + k) \<noteq> o_ID r"
    and "\<forall>r \<in> set (db_ledger (w_db w)). f (w_tick w + k) \<noteq> le_ID r" and "\<forall>r \<in> set (db_outbox (w_db w)). f (w_tick w + k) \<noteq> ev_ID r"
    and "\<forall>r \<in> set (db_trades (w_db w)). f (w_tick w + k) \<noteq> t_ID r"
proof -
  have "f (w_tick w + k) \<notin> used_ids (w_db w)" using assms soon_add [of k w] by (simp add: smooth_at_def)
  then show "\<forall>r \<in> set (db_idem (w_db w)). f (w_tick w + k) \<noteq> ik_ID r" "\<forall>r \<in> set (db_orders (w_db w)). f (w_tick w + k) \<noteq> o_ID r"
    "\<forall>r \<in> set (db_ledger (w_db w)). f (w_tick w + k) \<noteq> le_ID r" "\<forall>r \<in> set (db_outbox (w_db w)). f (w_tick w + k) \<noteq> ev_ID r"
    "\<forall>r \<in> set (db_trades (w_db w)). f (w_tick w + k) \<noteq> t_ID r"
    by (auto simp: used_ids_def)
qed

lemma at_claim:
  assumes sm: "smooth_at w f" and v: "running w k d v" and k: "k < 90" and "db_idem d = db_idem (w_db w)"
    and "\<not> key_claimed key scope (w_db w)" and "length key \<le> 255" and "length scope \<le> 20"
  shows "\<exists>ik v'. idempotencyStore_Insert key scope v = (Inr (), v') \<and> running w (k + 3) (d\<lparr>db_idem := db_idem d @ [ik]\<rparr>) v'"
proof -
  have 1: "NewV7 v = (Inr (f (w_tick w + k)), tick v)" "running w (k + 1) d (tick v)" using at_NewV7 [OF sm v] k by auto
  obtain t where 2: "Now (tick v) = (Inr t :: gerr + gotime, tick (tick v))" "running w (k + 1 + 1) d (tick (tick v))"
    using at_Now [OF 1(2)] by blast
  let ?ik = "\<lparr>ik_ID = f (w_tick w + k), ik_Key = key, ik_Scope = scope, ik_CreatedAt = t\<rparr>"
  have ins: "insert_idem (f (w_tick w + k)) key scope t d = Inr ((), d\<lparr>db_idem := db_idem d @ [?ik]\<rparr>)"
    using assms(4-7) smooth_fresh(1) [OF sm, of k] k by (auto simp: insert_idem_Inr varchar_def key_claimed_def)
  then obtain v' where "tx_exec (\<lambda>d _. insert_idem (f (w_tick w + k)) key scope t d) (tick (tick v)) = (Inr (), v')"
    "running w (k + 1 + 1 + 1) (d\<lparr>db_idem := db_idem d @ [?ik]\<rparr>) v'"
    using at_exec [OF sm 2(2), of "\<lambda>d _. insert_idem (f (w_tick w + k)) key scope t d"
        "\<lambda>_ _ d'. d' = d\<lparr>db_idem := db_idem d @ [?ik]\<rparr>"] k by auto
  then have "idempotencyStore_Insert key scope v = (Inr (), v')"
    using 1(1) 2(1) by (simp add: idempotencyStore_Insert_def bindE_def wrapE_def mapE_def)
  then show ?thesis using \<open>running w (k + 1 + 1 + 1) (d\<lparr>db_idem := db_idem d @ [?ik]\<rparr>) v'\<close>
    by (intro exI [of _ ?ik] exI [of _ v']) (simp add: numeral_3_eq_3)
qed

lemma at_ledger:
  assumes sm: "smooth_at w f" and v: "running w k d v" and k: "k < 100" and "num_row (le_Amount e) = Inr x"
    and "length (le_Asset e) \<le> 20" and "length (le_EntryType e) \<le> 20" and "length (le_RefType e) \<le> 20"
    and "\<forall>r \<in> set (db_ledger d). le_ID e \<noteq> le_ID r"
  shows "\<exists>v'. ledgerStore_Insert e v = (Inr (), v') \<and> running w (k + 1) (d\<lparr>db_ledger := db_ledger d @ [ledger_row e x]\<rparr>) v'"
proof -
  have ins: "insert_ledger e d = Inr ((), d\<lparr>db_ledger := db_ledger d @ [ledger_row e x]\<rparr>)"
    using assms(4-8) by (simp add: insert_ledger_Inr varchar_def)
  then show ?thesis
    using at_exec [OF sm v k, of "\<lambda>d _. insert_ledger e d" "\<lambda>_ _ d'. d' = d\<lparr>db_ledger := db_ledger d @ [ledger_row e x]\<rparr>"]
    by (auto simp: ledgerStore_Insert_def wrapE_Inr mapE_Inr)
qed

lemma at_outbox:
  assumes sm: "smooth_at w f" and v: "running w k d v" and k: "k < 90" and "db_outbox d = db_outbox (w_db w)" and "length ty \<le> 50"
  shows "\<exists>ev v'. insertOutbox ty payload v = (Inr (), v') \<and> running w (k + 3) (d\<lparr>db_outbox := db_outbox d @ [ev]\<rparr>) v'"
proof -
  have 1: "NewV7 v = (Inr (f (w_tick w + k)), tick v)" "running w (k + 1) d (tick v)" using at_NewV7 [OF sm v] k by auto
  obtain t where 2: "Now (tick v) = (Inr t :: gerr + gotime, tick (tick v))" "running w (k + 1 + 1) d (tick (tick v))"
    using at_Now [OF 1(2)] by blast
  let ?ev = "\<lparr>ev_ID = f (w_tick w + k), ev_EventType = ty, ev_Payload = payload, ev_Status = StatusPending,
       ev_Retries = 0, ev_ProcessedAt = None, ev_CreatedAt = t\<rparr>"
  have ins: "insert_outbox (f (w_tick w + k)) ty payload t d = Inr ((), d\<lparr>db_outbox := db_outbox d @ [?ev]\<rparr>)"
    using assms(4,5) smooth_fresh(4) [OF sm, of k] k by (auto simp: insert_outbox_Inr varchar_def)
  then obtain v' where v': "tx_exec (\<lambda>d _. insert_outbox (f (w_tick w + k)) ty payload t d) (tick (tick v)) = (Inr (), v')"
    "running w (k + 1 + 1 + 1) (d\<lparr>db_outbox := db_outbox d @ [?ev]\<rparr>) v'"
    using at_exec [OF sm 2(2), of "\<lambda>d _. insert_outbox (f (w_tick w + k)) ty payload t d"
        "\<lambda>_ _ d'. d' = d\<lparr>db_outbox := db_outbox d @ [?ev]\<rparr>"] k by auto
  then have "insertOutbox ty payload v = (Inr (), v')"
    using 1(1) 2(1) by (simp add: insertOutbox_def outboxStore_Insert_def bindE_def wrapE_def mapE_def)
  then show ?thesis using v'(2) by (intro exI [of _ ?ev] exI [of _ v']) (simp add: numeral_3_eq_3)
qed

lemma at_commit:
  assumes "smooth_at w f" and "running w k d v" and "k < 100"
  shows "\<exists>v'. Commit v = (Inr (), v') \<and> w_db v' = d"
  using assms soon_add [of k w] by (auto simp: Commit_Inr smooth_at_def running_def faulty_def)

end
