(* ===== verification/Trade_Runs.thy ===== *)
theory Trade_Runs
  imports Forward
begin

text \<open>
  Trades that succeed: the execution of a trade in an environment where nothing fails, and what it
  does to the two orders.
\<close>

subsection \<open>Filling rows\<close>

fun sqlnum_of :: "db_error + sqlnum \<Rightarrow> sqlnum" where
  "sqlnum_of (Inr q) = q"
| "sqlnum_of (Inl _) = QNaN"

definition inc_rows :: "uuid \<Rightarrow> sqlparam option \<Rightarrow> gotime \<Rightarrow> sqlnum order_rec list \<Rightarrow> sqlnum order_rec list" where
  "inc_rows i p t rows = update_rows (\<lambda>r. o_ID r = i)
     (\<lambda>r. r\<lparr>o_FilledQuantity := sqlnum_of (numeric_30_10 (sql_plus (o_FilledQuantity r) p)), o_UpdatedAt := t\<rparr>) rows"

definition fillable :: "uuid \<Rightarrow> sqlparam option \<Rightarrow> sqlnum order_rec list \<Rightarrow> bool" where
  "fillable i p rows \<longleftrightarrow> (\<forall>r \<in> set rows. o_ID r = i \<longrightarrow> (\<exists>q. numeric_30_10 (sql_plus (o_FilledQuantity r) p) = Inr q))"

lemma increment_rows_inc: "fillable i p rows \<Longrightarrow> increment_rows i p t rows = Inr (inc_rows i p t rows)"
  by (induction rows) (auto simp: fillable_def inc_rows_def update_rows_def)

lemma fillable_other: "i \<noteq> j \<Longrightarrow> fillable i p (inc_rows j p' t rows) = fillable i p rows"
  by (auto simp: fillable_def inc_rows_def update_rows_def)

lemma fillable_status: "fillable i p (update_rows R (\<lambda>r. r\<lparr>o_Status := s, o_UpdatedAt := t\<rparr>) rows) = fillable i p rows"
  unfolding fillable_def update_rows_def by (induction rows) auto

lemma count_inc: "count_rows (\<lambda>r. o_ID r = i) (inc_rows j p t rows) = count_rows (\<lambda>r. o_ID r = i) rows"
  unfolding count_rows_def inc_rows_def update_rows_def by (induction rows) auto

lemma count_status:
  "count_rows (\<lambda>r. o_ID r = i) (update_rows R (\<lambda>r. r\<lparr>o_Status := s, o_UpdatedAt := t\<rparr>) rows) = count_rows (\<lambda>r. o_ID r = i) rows"
  unfolding count_rows_def update_rows_def by (induction rows) auto

text \<open>A fill in an environment where nothing fails; the status update is one more call.\<close>

lemma at_status:
  assumes sm: "smooth_at w f" and v: "running w k d v" and k: "k < 100" and "order_status_ok s"
    and "count_rows (\<lambda>r. o_ID r = i) (db_orders d) \<noteq> 0"
  shows "\<exists>t v'. orderStore_UpdateStatus i s v = (Inr (), v') \<and> running w (k + 1)
      (d\<lparr>db_orders := update_rows (\<lambda>r. o_ID r = i) (\<lambda>r. r\<lparr>o_Status := s, o_UpdatedAt := t\<rparr>) (db_orders d)\<rparr>) v'"
proof -
  let ?g = "\<lambda>d now. if \<not> order_status_ok s \<and> orders_by_id i d \<noteq> [] then Inl (DbFail ''violates check constraint chk_order_status'')
       else Inr (count_rows (\<lambda>r. o_ID r = i) (db_orders d),
                 d\<lparr>db_orders := update_rows (\<lambda>r. o_ID r = i) (\<lambda>r. r\<lparr>o_Status := s, o_UpdatedAt := now\<rparr>) (db_orders d)\<rparr>)"
  obtain t n d' v' where e: "tx_exec ?g v = (Inr n, v')" "n \<noteq> 0 \<and> d' =
      d\<lparr>db_orders := update_rows (\<lambda>r. o_ID r = i) (\<lambda>r. r\<lparr>o_Status := s, o_UpdatedAt := t\<rparr>) (db_orders d)\<rparr>" "running w (k + 1) d' v'"
    using at_exec [OF sm v k, of ?g "\<lambda>t n d'. n \<noteq> 0 \<and> d' =
      d\<lparr>db_orders := update_rows (\<lambda>r. o_ID r = i) (\<lambda>r. r\<lparr>o_Status := s, o_UpdatedAt := t\<rparr>) (db_orders d)\<rparr>"] assms(4,5) by auto
  then have "orderStore_UpdateStatus i s v = (Inr (), v')"
    by (simp add: orderStore_UpdateStatus_def must_affect_def bindE_def wrapE_def mapE_def returnE_def)
  then show ?thesis using e by blast
qed

lemma at_fill:
  assumes sm: "smooth_at w f" and v: "running w k d v" and k: "k < 90"
    and fl: "fillable (o_ID o1) (num_param qty) (db_orders d)" and cnt: "count_rows (\<lambda>r. o_ID r = o_ID o1) (db_orders d) \<noteq> 0"
  shows "\<exists>k' rows v'. applyOrderFill dp o1 qty v = (Inr (), v') \<and> running w k' (d\<lparr>db_orders := rows\<rparr>) v' \<and> k' \<le> k + 2 \<and>
     (\<forall>i p. i \<noteq> o_ID o1 \<longrightarrow> fillable i p rows = fillable i p (db_orders d)) \<and>
     (\<forall>i. count_rows (\<lambda>r. o_ID r = i) rows = count_rows (\<lambda>r. o_ID r = i) (db_orders d))"
proof -
  let ?g = "\<lambda>d now. case increment_rows (o_ID o1) (num_param qty) now (db_orders d) of
         Inl e \<Rightarrow> Inl e
       | Inr rows \<Rightarrow> Inr (count_rows (\<lambda>r. o_ID r = o_ID o1) (db_orders d), d\<lparr>db_orders := rows\<rparr>)"
  obtain t n d' v1 where e: "tx_exec ?g v = (Inr n, v1)"
    "n \<noteq> 0 \<and> d' = d\<lparr>db_orders := inc_rows (o_ID o1) (num_param qty) t (db_orders d)\<rparr>" "running w (k + 1) d' v1"
    using at_exec [OF sm v, of ?g "\<lambda>t n d'. n \<noteq> 0 \<and> d' = d\<lparr>db_orders := inc_rows (o_ID o1) (num_param qty) t (db_orders d)\<rparr>"]
      cnt k increment_rows_inc [OF fl] by auto
  then have inc: "orderStore_IncrementFilled (o_ID o1) qty v = (Inr (), v1)"
    by (simp add: orderStore_IncrementFilled_def must_affect_def bindE_def wrapE_def mapE_def returnE_def)
  have run: "running w (k + 1) (d\<lparr>db_orders := inc_rows (o_ID o1) (num_param qty) t (db_orders d)\<rparr>) v1" using e by simp
  have st: ?thesis if "applyOrderFill dp o1 qty v = orderStore_UpdateStatus (o_ID o1) s v1" "order_status_ok s" for s
    using at_status [OF sm run _ that(2), of "o_ID o1"] that(1) k cnt by (fastforce simp: count_inc fillable_status fillable_other count_status)
  show ?thesis
  proof (cases "0 \<le> num_Cmp (num_Add (dp_scan dp) (o_FilledQuantity o1) qty) (o_Quantity o1) \<or> o_Status o1 = StatusOpen")
    case True
    then show ?thesis using st [of StatusFilled] st [of StatusPartial] inc
      by (auto simp: applyOrderFill_def bindE_def Let_def order_status_ok_def)
  next
    case False
    then have "applyOrderFill dp o1 qty v = (Inr (), v1)" using inc by (simp add: applyOrderFill_def bindE_def Let_def returnE_def)
    then show ?thesis using run by (fastforce simp: fillable_other count_inc)
  qed
qed

text \<open>The check that the entries sum to zero cannot fail: it adds amounts of both assets, each with its negation.\<close>

lemma entries_sum_zero:
  assumes sc: "scans_decimals (dp_scan dp)"
  shows "num_Cmp (entries_sum dp (trade_entries dp cmd buyer seller base quote bb bq sb sq tid now)) (num_Zero (dp_scan dp)) = 0"
proof -
  have "toRat (entries_sum dp (trade_entries dp cmd buyer seller base quote bb bq sb sq tid now)) = 0"
    by (simp add: entries_sum_def trade_entries_def num_op_values [OF sc] num_Zero_value [OF sc])
  then show ?thesis by (simp add: num_Cmp_simps num_Zero_value [OF sc])
qed

lemma at_entries:
  assumes sm: "smooth_at w f"
  shows "running w k d v \<Longrightarrow> k + 2 * length es < 90 \<Longrightarrow>
    (\<forall>e \<in> set es. (\<exists>x. num_row (le_Amount e) = Inr x) \<and> length (le_Asset e) \<le> 20 \<and> le_EntryType e = EntryTypeTrade \<and> le_RefType e = RefTypeTrade) \<Longrightarrow>
    (\<forall>r \<in> set (db_ledger d). r \<in> set (db_ledger (w_db w)) \<or> (\<exists>j < k. le_ID r = f (w_tick w + j))) \<Longrightarrow>
    \<exists>rows v'. mapM_E insert_entry es v = (Inr (), v') \<and> running w (k + 2 * length es) (d\<lparr>db_ledger := db_ledger d @ rows\<rparr>) v'"
proof (induction es arbitrary: k d v)
  case Nil
  then show ?case by (intro exI [of _ "[]"] exI [of _ v]) (simp add: returnE_def)
next
  case (Cons e es)
  let ?i = "f (w_tick w + k)"
  have 1: "NewV7 v = (Inr ?i, tick v)" "running w (k + 1) d (tick v)" using at_NewV7 [OF sm Cons.prems(1)] Cons.prems(2) by auto
  obtain x where x: "num_row (le_Amount (e\<lparr>le_ID := ?i\<rparr>)) = Inr x" using Cons.prems(3) by auto
  have "f (w_tick w + k) \<noteq> f (w_tick w + j)" if "j < k" for j
    using sm that Cons.prems(2) soon_add [of k w] soon_add [of j w] by (simp add: smooth_at_def)
  then have fr: "\<forall>r \<in> set (db_ledger d). le_ID (e\<lparr>le_ID := ?i\<rparr>) \<noteq> le_ID r"
    using Cons.prems(2,4) smooth_fresh(3) [OF sm, of k] by fastforce
  obtain v1 where v1: "ledgerStore_Insert (e\<lparr>le_ID := ?i\<rparr>) (tick v) = (Inr (), v1)"
    "running w (k + 1 + 1) (d\<lparr>db_ledger := db_ledger d @ [ledger_row (e\<lparr>le_ID := ?i\<rparr>) x]\<rparr>) v1"
    using at_ledger [OF sm 1(2) _ x] Cons.prems(2,3) fr by (auto simp: EntryTypeTrade_def RefTypeTrade_def)
  have ins: "insert_entry e v = (Inr (), v1)" using 1(1) v1(1) by (simp add: insert_entry_def bindE_def wrapE_def mapE_def)
  have "\<exists>j < k + 1 + 1. le_ID (ledger_row (e\<lparr>le_ID := ?i\<rparr>) x) = f (w_tick w + j)" by (intro exI [of _ k]) simp
  moreover have "\<exists>j < k + 1 + 1. le_ID r = f (w_tick w + j)" if "\<exists>j < k. le_ID r = f (w_tick w + j)" for r :: "sqlnum ledger_entry"
    using that by (auto intro: less_trans)
  ultimately obtain rows v' where "mapM_E insert_entry es v1 = (Inr (), v')"
    "running w (k + 1 + 1 + 2 * length es) (d\<lparr>db_ledger := (db_ledger d @ [ledger_row (e\<lparr>le_ID := ?i\<rparr>) x]) @ rows\<rparr>) v'"
    using Cons.IH [OF v1(2)] Cons.prems(2-4) by fastforce
  then show ?case using ins by (intro exI [of _ "ledger_row (e\<lparr>le_ID := ?i\<rparr>) x # rows"] exI [of _ v']) (simp add: bindE_def)
qed

lemma at_lock:
  assumes "smooth_at w f" and "running w k d v" and "k < 100" and "orders_by_id i d = [r]"
  shows "\<exists>v'. orderStore_GetByIDTx dp i v = (Inr (scanOrder dp r), v') \<and> running w (k + 1) d v'"
proof -
  obtain v' where "tx_exec (\<lambda>d now. Inr (map (scanOrder dp) (orders_by_id i d), d)) v = (Inr [scanOrder dp r], v')" "running w (k + 1) d v'"
    using at_exec [OF assms(1-3), of "\<lambda>d now. Inr (map (scanOrder dp) (orders_by_id i d), d)" "\<lambda>_ a d'. a = [scanOrder dp r] \<and> d' = d"]
      assms(4) by auto
  then show ?thesis by (simp add: orderStore_GetByIDTx_def tx_query_row_def mapE_def bindE_def first_row_def returnE_def)
qed

lemma ExecuteTrade_runs:
  assumes dp: "deps_ok dp" and w: "smooth w" and od: "orders_distinct (w_db w)"
    and b: "buy \<in> set (db_orders (w_db w))" "o_ID buy = tc_BuyOrderID cmd" "o_Side buy = SideBuy" "\<not> IsTerminal (o_Status buy)"
    and s: "sell \<in> set (db_orders (w_db w))" "o_ID sell = tc_SellOrderID cmd" "o_Side sell = SideSell" "\<not> IsTerminal (o_Status sell)"
    and sp: "SplitSymbol (tc_Symbol cmd) = Inr (base, quote)" and len: "length (tc_Symbol cmd) \<le> 20"
    and acct: "account_of (o_UserID buy) base (w_db w) = Some bb" "account_of (o_UserID buy) quote (w_db w) = Some bq"
      "account_of (o_UserID sell) base (w_db w) = Some sb" "account_of (o_UserID sell) quote (w_db w) = Some sq"
    and fit: "fits (tc_Price cmd)" "fits (tc_Quantity cmd)" "\<bar>quote_units cmd\<bar> < 10 ^ 30"
    and fl: "fillable (tc_BuyOrderID cmd) (num_param (tc_Quantity cmd)) (db_orders (w_db w))"
      "fillable (tc_SellOrderID cmd) (num_param (tc_Quantity cmd)) (db_orders (w_db w))"
    and key: "\<not> key_claimed (tc_IdempotencyKey cmd) ScopeTrade (w_db w)" "length (tc_IdempotencyKey cmd) \<le> 255"
  shows "\<exists>tr w'. ExecuteTrade dp cmd w = (Inr tr, w')"
proof -
  note sc = deps_okD(1) [OF dp]
  obtain f where sm: "smooth_at w f" using w by (rule smooth_smooth_at)
  have one: "orders_by_id (tc_BuyOrderID cmd) (w_db w) = [buy]" "orders_by_id (tc_SellOrderID cmd) (w_db w) = [sell]"
    using orders_by_id_unique [OF od b(1)] orders_by_id_unique [OF od s(1)] b(2) s(2) by simp_all
  have ne: "tc_SellOrderID cmd \<noteq> tc_BuyOrderID cmd"
    using one b(3) s(3) by (auto simp: SideBuy_def SideSell_def)
  have cnt: "count_rows (\<lambda>r. o_ID r = tc_BuyOrderID cmd) (db_orders (w_db w)) = 1"
    "count_rows (\<lambda>r. o_ID r = tc_SellOrderID cmd) (db_orders (w_db w)) = 1"
    using one by (simp_all add: count_rows_def orders_by_id_def)
  have oid: "orders_by_id i ((w_db w)\<lparr>db_idem := x\<rparr>) = orders_by_id i (w_db w)" for i x by (simp add: orders_by_id_def)
  let ?m = "num_Mul (dp_scan dp) (tc_Price cmd) (tc_Quantity cmd)"
  have m: "toRat ?m = of_units (quote_units cmd)" by (simp add: num_Mul_value [OF sc] quote_units_def)
  have rows: "num_row ?m = Inr (QNum (quote_units cmd))" "num_row (num_Neg (dp_scan dp) ?m) = Inr (QNum (- quote_units cmd))"
    "num_row (num_Neg (dp_scan dp) (tc_Quantity cmd)) = Inr (QNum (- dec_units (toRat (tc_Quantity cmd))))"
    using num_row_plain [OF num_op_plain(1) [OF sc], of "tc_Price cmd" "tc_Quantity cmd"] Neg_row [OF sc, of ?m] Neg_row [OF sc, of "tc_Quantity cmd"] fit m
    by (auto simp: fits_def)
  have alen: "length base \<le> 20" "length quote \<le> 20" using SplitSymbol_length [OF sp] len by auto
  let ?D = "w_db w" and ?q = "tc_Quantity cmd"
  note v0 = at_begin [of w]
  obtain ik v1 where s1: "idempotencyStore_Insert (tc_IdempotencyKey cmd) ScopeTrade ((tick w)\<lparr>w_tx := Some ?D, w_abort := False\<rparr>) = (Inr (), v1)"
    and v1: "running w (1 + 3) (?D\<lparr>db_idem := db_idem ?D @ [ik]\<rparr>) v1"
    using at_claim [OF sm v0 _ _ key] by (auto simp: ScopeTrade_def)
  let ?d = "?D\<lparr>db_idem := db_idem ?D @ [ik]\<rparr>"
  obtain v2 where s2: "orderStore_GetByIDTx dp (tc_BuyOrderID cmd) v1 = (Inr (scanOrder dp buy), v2)" and v2: "running w (1 + 3 + 1) ?d v2"
    using at_lock [OF sm v1, of "tc_BuyOrderID cmd" buy dp] one oid by auto
  obtain v3 where s3: "orderStore_GetByIDTx dp (tc_SellOrderID cmd) v2 = (Inr (scanOrder dp sell), v3)" and v3: "running w (1 + 3 + 1 + 1) ?d v3"
    using at_lock [OF sm v2, of "tc_SellOrderID cmd" sell dp] one oid by auto
  have a1: "AccountID (o_UserID buy) base v3 = (Inr bb, tick v3)" and v4: "running w (1 + 3 + 1 + 1 + 1) ?d (tick v3)"
    using at_account [OF sm v3 _ acct(1)] by auto
  have a2: "AccountID (o_UserID buy) quote (tick v3) = (Inr bq, tick (tick v3))" and v5: "running w (1 + 3 + 1 + 1 + 1 + 1) ?d (tick (tick v3))"
    using at_account [OF sm v4 _ acct(2)] by auto
  have a3: "AccountID (o_UserID sell) base (tick (tick v3)) = (Inr sb, tick (tick (tick v3)))"
    and v6: "running w (1 + 3 + 1 + 1 + 1 + 1 + 1) ?d (tick (tick (tick v3)))"
    using at_account [OF sm v5 _ acct(3)] by auto
  obtain v7 where a4: "AccountID (o_UserID sell) quote (tick (tick (tick v3))) = (Inr sq, v7)" and v7: "running w 10 ?d v7"
    using at_account [OF sm v6 _ acct(4)] by (auto simp: numeral_eq_Suc)
  obtain v8 where s8: "NewV7 v7 = (Inr (f (w_tick w + 10)), v8)" and v8: "running w 11 ?d v8"
    using at_NewV7 [OF sm v7] by auto
  obtain t v9 where s9: "Now v8 = (Inr t :: gerr + gotime, v9)" and v9: "running w 12 ?d v9"
    using at_Now [OF v8] by auto
  let ?tr = "trade_of_cmd cmd (o_UserID buy) (o_UserID sell) (f (w_tick w + 10)) t"
  let ?es = "trade_entries dp cmd (o_UserID buy) (o_UserID sell) base quote bb bq sb sq (f (w_tick w + 10)) t"
  have z: "num_Cmp (entries_sum dp ?es) (num_Zero (dp_scan dp)) = 0" by (rule entries_sum_zero [OF sc])
  let ?row = "trade_row ?tr (QNum (dec_units (toRat (tc_Price cmd)))) (QNum (dec_units (toRat ?q)))"
  have "insert_trade ?tr ?d = Inr ((), ?d\<lparr>db_trades := db_trades ?d @ [?row]\<rparr>)"
    using fits_row [OF fit(1)] fits_row [OF fit(2)] len smooth_fresh(5) [OF sm, of 10] by (simp add: insert_trade_Inr trade_of_cmd_def varchar_def)
  then obtain v10 where s10: "tradeStore_Create ?tr v9 = (Inr (), v10)" and v10: "running w 13 (?d\<lparr>db_trades := db_trades ?d @ [?row]\<rparr>) v10"
    using at_exec [OF sm v9, of "\<lambda>d _. insert_trade ?tr d" "\<lambda>_ _ d'. d' = ?d\<lparr>db_trades := db_trades ?d @ [?row]\<rparr>"]
    by (auto simp: tradeStore_Create_def wrapE_Inr mapE_Inr)
  obtain rows v11 where s11: "mapM_E insert_entry ?es v10 = (Inr (), v11)"
    and v11: "running w 21 (?d\<lparr>db_trades := db_trades ?d @ [?row], db_ledger := db_ledger ?D @ rows\<rparr>) v11"
    using at_entries [OF sm v10, of ?es] rows fits_row [OF fit(2)] alen by (auto simp: trade_entries_def)
  obtain k12 rows12 v12 where s12: "applyOrderFill dp (scanOrder dp buy) ?q v11 = (Inr (), v12)"
    and v12: "running w k12 (?d\<lparr>db_trades := db_trades ?d @ [?row], db_ledger := db_ledger ?D @ rows, db_orders := rows12\<rparr>) v12"
    and k12: "k12 \<le> 23" and r12: "\<forall>i p. i \<noteq> o_ID buy \<longrightarrow> fillable i p rows12 = fillable i p (db_orders ?D)"
      "\<forall>i. count_rows (\<lambda>r. o_ID r = i) rows12 = count_rows (\<lambda>r. o_ID r = i) (db_orders ?D)"
    using at_fill [OF sm v11, of "scanOrder dp buy" ?q dp] fl(1) cnt(1) b(2) by auto
  obtain k13 rows13 v13 where s13: "applyOrderFill dp (scanOrder dp sell) ?q v12 = (Inr (), v13)"
    and v13: "running w k13 (?d\<lparr>db_trades := db_trades ?d @ [?row], db_ledger := db_ledger ?D @ rows, db_orders := rows13\<rparr>) v13"
    and k13: "k13 \<le> 25"
    using at_fill [OF sm v12, of "scanOrder dp sell" ?q dp] fl(2) cnt(2) b(2) s(2) k12 r12 ne by auto
  obtain ev v14 where s14: "insertOutbox EventTypeTradeExecuted (tradeExecutedPayload dp ?tr) v13 = (Inr (), v14)"
    and v14: "running w (k13 + 3) (?d\<lparr>db_trades := db_trades ?d @ [?row], db_ledger := db_ledger ?D @ rows, db_orders := rows13,
      db_outbox := db_outbox ?D @ [ev]\<rparr>) v14"
    using at_outbox [OF sm v13, of EventTypeTradeExecuted "tradeExecutedPayload dp ?tr"] k13 by (auto simp: EventTypeTradeExecuted_def)
  obtain v15 where s15: "Commit v14 = (Inr (), v15)" using at_commit [OF sm v14] k13 by auto
  have settle: "settle_tx dp cmd base quote (scanOrder dp buy) (scanOrder dp sell) v3 = (Inr ?tr, v15)"
    unfolding settle_tx_def Let_def
    using a1 a2 a3 a4 s8 s9 z s10 s11 s12 s13 s14 s15
    by (simp add: bindE_Inr wrapE_Inr commit_tx_Inr returnE_Inr trade_entries_def trade_of_cmd_def del: mapM_E.simps)
  have "\<not> faulty w" using sm soon_add [of 0 w] by (simp add: smooth_at_def faulty_def)
  then have "ExecuteTrade dp cmd w = (Inr ?tr, Rollback v15)"
    using sp s1 s2 s3 settle b(3,4) s(3,4)
    by (simp add: ExecuteTrade_def bindE_Inr wrapE_Inr liftE_Inr in_tx_Inr claim_key_Inr)
  then show ?thesis by blast
qed

end
