(* ===== verification/Trade_Theorems.thy ===== *)
theory Trade_Theorems
  imports Trade_Runs
begin

text \<open>
  The properties of \<open>ExecuteTrade\<close>: what it commits, conservation, atomicity, the state machine of
  the two orders, and what a placement and its fill together do to the buyer's balance.
\<close>

subsection \<open>Rounding a sum\<close>

lemma dec_units_add:
  assumes "0 \<le> f" and "0 \<le> x"
  shows "dec_units (of_units f + x) = f + dec_units x"
proof -
  obtain a b where ab: "0 < b" "x = of_int a / of_int b" by (rule rat_frac_cases)
  have a: "0 \<le> a" using assms(2) ab by (simp add: zero_le_divide_iff)
  have "of_units f + x = of_int (f * b + a * 10 ^ 10) / of_int (b * 10 ^ 10)"
    using ab by (simp add: of_units_def field_simps)
  then have "dec_units (of_units f + x) = div_half_away ((f * b + a * 10 ^ 10) * 10 ^ 10) (b * 10 ^ 10)"
    using dec_units_frac [of "b * 10 ^ 10" "f * b + a * 10 ^ 10"] ab(1) by simp
  also have "\<dots> = div_half_away (f * b + a * 10 ^ 10) b"
    using div_half_away_scale [of "10 ^ 10" b "f * b + a * 10 ^ 10"] ab(1) by (simp add: mult.commute)
  also have "\<dots> = (2 * (a * 10 ^ 10) + b + f * (2 * b)) div (2 * b)"
    using assms(1) a ab(1) by (simp add: div_half_away_def algebra_simps)
  also have "\<dots> = f + (2 * (a * 10 ^ 10) + b) div (2 * b)"
    using ab(1) div_mult_self1 [of "2 * b" "2 * (a * 10 ^ 10) + b" f] by simp
  also have "\<dots> = f + dec_units x"
    using dec_units_frac [OF ab(1), of a] a ab by (simp add: div_half_away_def)
  finally show ?thesis .
qed

lemma of_units_le: "of_units a \<le> of_units b \<longleftrightarrow> a \<le> b"
  by (metis not_less of_units_less)

text \<open>The row of an order after a fill, in units.\<close>

lemma filled_row_units:
  assumes dp: "deps_ok dp" and q: "plain_num qty" "0 \<le> toRat qty"
    and r: "o_FilledQuantity r = QNum f" "o_Quantity r = QNum n" "0 \<le> f" "order_status_ok (o_Status r)" "\<not> IsTerminal (o_Status r)"
    and fr: "filled_row dp (scanOrder dp r) qty r r'"
  shows "o_ID r' = o_ID r \<and> o_Quantity r' = QNum n \<and> o_FilledQuantity r' = QNum (f + dec_units (toRat qty)) \<and>
     o_Status r' = (if n \<le> f + dec_units (toRat qty) then StatusFilled else StatusPartial)"
proof -
  obtain q' t where q': "numeric_30_10 (sql_plus (QNum f) (num_param qty)) = Inr q'"
    "r' = r\<lparr>o_FilledQuantity := q', o_Status := fill_status dp (scanOrder dp r) qty (o_Status r), o_UpdatedAt := t\<rparr>"
    using fr r(1) by (auto simp: filled_row_def)
  note sum = dec_units_add [OF r(3) q(2)]
  have "q' = QNum (f + dec_units (toRat qty))"
    using q'(1) sum by (auto simp: num_param_plain [OF q(1)] Let_def split: if_splits)
  moreover have "toRat (num_Add (dp_scan dp) (dp_num dp (QNum f)) qty) = of_units (f + dec_units (toRat qty))"
    by (simp add: num_Add_value [OF deps_okD(1) [OF dp]] deps_okD(3) [OF dp] sum)
  then have "0 \<le> num_Cmp (num_Add (dp_scan dp) (dp_num dp (QNum f)) qty) (dp_num dp (QNum n)) \<longleftrightarrow> n \<le> f + dec_units (toRat qty)"
    by (simp add: num_Cmp_simps deps_okD(3) [OF dp] of_units_le)
  then have "fill_status dp (scanOrder dp r) qty (o_Status r) = (if n \<le> f + dec_units (toRat qty) then StatusFilled else StatusPartial)"
    using r by (auto simp: fill_status_def order_status_ok_def IsTerminal_def)
  ultimately show ?thesis using q'(2) r by simp
qed

lemma filled_rows_ids: "list_all2 (filled_row dp o1 qty) rows rows' \<Longrightarrow> map o_ID rows' = map o_ID rows"
  by (induction rows rows' rule: list_all2_induct) (auto simp: filled_row_def split: if_splits)

lemma filled_rows_mem:
  assumes "list_all2 (filled_row dp o1 qty) rows rows'" and "r \<in> set rows"
  obtains r' where "r' \<in> set rows'" and "filled_row dp o1 qty r r'"
  using assms by (auto simp: list_all2_conv_all_nth in_set_conv_nth) (metis nth_mem)

subsection \<open>Properties\<close>

subsection \<open>An example: user 5 buys 3 BTC at 100 from user 6, who sells 5\<close>

definition ex_sell :: "sqlnum order_rec" where
  "ex_sell = \<lparr>o_ID = 12, o_UserID = 6, o_Symbol = ''BTC-USD'', o_Side = SideSell, o_Price = QNum (100 * 10 ^ 10),
     o_Quantity = QNum (5 * 10 ^ 10), o_FilledQuantity = QNum 0, o_Status = StatusOpen, o_CreatedAt = 0, o_UpdatedAt = 0\<rparr>"

definition ex_market :: db where
  "ex_market = ex_funded\<lparr>db_accounts := [ex_account 1 5 ''USD'', ex_account 2 5 ''BTC'', ex_account 4 6 ''USD'', ex_account 5 6 ''BTC''],
     db_orders := [ex_sell]\<rparr>"

definition ex_trade :: "uuid \<Rightarrow> trade_cmd" where
  "ex_trade i = \<lparr>tc_Symbol = ''BTC-USD'', tc_BuyOrderID = i, tc_SellOrderID = 12, tc_Price = ex_num 100,
     tc_Quantity = ex_num 3, tc_IdempotencyKey = ''t1''\<rparr>"

lemma ex_market_smooth: "smooth (ex_world ex_market)"
proof (rule ex_smooth, intro allI impI)
  fix i :: nat assume "i < 100"
  then have "(of_nat i + 1000 :: uuid) \<noteq> 3" "(of_nat i + 1000 :: uuid) \<noteq> 12" using ex_ids [of 3 i] ex_ids [of 12 i] by simp_all
  then show "of_nat i + 1000 \<notin> used_ids ex_market"
    by (simp add: used_ids_def ex_market_def ex_funded_def ex_entry_def empty_db_def ex_sell_def)
qed

lemma ex_bought: "\<exists>o1 w1. PlaceOrder ref_deps [''BTC-USD''] (ex_buy 100 3 ''k1'') (ex_world ex_market) = (Inr o1, w1)"
proof (rule PlaceOrder_runs [OF deps_ok_ref_deps ex_market_smooth])
  have "dec_units (toRat (num_Mul (dp_scan ref_deps) (ex_num 100) (ex_num 3))) = 300 * 10 ^ 10"
    by (simp only: ex_buy_reserve(2)) (simp add: dec_units_int [of 300, simplified])
  then show "\<bar>dec_units (toRat (num_Mul (dp_scan ref_deps) (ex_num 100) (ex_num 3)))\<bar> < 10 ^ 30" by simp
  show "toRat (num_Mul (dp_scan ref_deps) (ex_num 100) (ex_num 3)) \<le> of_units (1000 * 10 ^ 10)"
    by (simp only: ex_buy_reserve(2)) (simp add: of_units_def)
  show "balance (po_UserID (ex_buy 100 3 ''k1'')) ''USD'' (w_db (ex_world ex_market)) = QNum (1000 * 10 ^ 10)"
    by (simp add: balance_def ex_market_def ex_funded_def ex_entry_def ex_buy_def empty_db_def)
  show "account_of (po_UserID (ex_buy 100 3 ''k1'')) ''USD'' (w_db (ex_world ex_market)) = Some 1"
    by (simp add: account_of_def ex_market_def ex_funded_def ex_account_def ex_buy_def empty_db_def)
qed (simp_all add: ex_buy_def ex_symbol ex_buy_reserve(1) key_claimed_def ex_market_def ex_funded_def empty_db_def)

lemma ex_quote_units: "quote_units (ex_trade i) = 300 * 10 ^ 10" "dec_units (toRat (tc_Quantity (ex_trade i))) = 3 * 10 ^ 10"
  using dec_units_int [of 300] dec_units_int [of 3] by (simp_all add: quote_units_def ex_trade_def)

lemma ex_traded:
  obtains o1 w1 w2 tr w3 where
    "PlaceOrder ref_deps [''BTC-USD''] (ex_buy 100 3 ''k1'') (ex_world ex_market) = (Inr o1, w1)" and "w_db w2 = w_db w1" and
    "ExecuteTrade ref_deps (ex_trade (o_ID o1)) w2 = (Inr tr, w3)" and "t_BuyUserID tr = 5" and "t_SellUserID tr = 6" and
    "orders_distinct (w_db w2)" and "ex_sell \<in> set (db_orders (w_db w2))"
proof -
  obtain o1 w1 where run: "PlaceOrder ref_deps [''BTC-USD''] (ex_buy 100 3 ''k1'') (ex_world ex_market) = (Inr o1, w1)"
    using ex_bought by blast
  have po: "placed_order ref_deps (ex_buy 100 3 ''k1'') o1" using PlaceOrder_changed(2) [OF run] .
  have fresh: "o_ID o1 \<noteq> 12"
    using run by (rule PlaceOrder_change) (simp add: ex_market_def ex_sell_def)
  obtain asset amt where "place_change ref_deps (ex_buy 100 3 ''k1'') o1 asset amt (w_db (ex_world ex_market)) (w_db w1)"
    using PlaceOrder_changed(3) [OF run] by blast
  then obtain ik e p q ev where d1: "w_db w1 = ex_market\<lparr>db_idem := [ik], db_orders := [ex_sell, order_row o1 p q (QNum 0)],
      db_ledger := db_ledger ex_market @ [e], db_outbox := [ev]\<rparr>" "ik_Scope ik = ScopeOrder"
    using Zero_row [OF ref_deps_scan] unfolding place_change_def by (auto simp: ex_market_def ex_funded_def empty_db_def)
  obtain w2 where w2: "smooth w2" "w_db w2 = w_db w1"
    by (rule smooth_exists [of "w_db w1"]) (simp_all add: d1 ex_market_def ex_funded_def empty_db_def)
  let ?r = "order_row o1 p q (QNum 0)"
  have f: "o_UserID o1 = 5" "o_Side o1 = SideBuy" "o_Status o1 = StatusOpen" using po by (simp_all add: placed_order_def ex_buy_def)
  have od: "orders_distinct (w_db w2)" using fresh by (simp add: w2(2) d1 orders_distinct_def ex_sell_def)
  have q3: "num_param (ex_num 3) = Some (PRat 3)" using num_param_plain [of "ex_num 3"] by simp
  have d3: "dec_units (3 :: rat) = 3 * 10 ^ 10" using dec_units_int [of 3] by simp
  have fl: "fillable i (num_param (ex_num 3)) (db_orders (w_db w2))" for i
    by (simp add: w2(2) d1 fillable_def ex_sell_def q3 Let_def d3)
  have "\<exists>tr w'. ExecuteTrade ref_deps (ex_trade (o_ID o1)) w2 = (Inr tr, w')"
    by (rule ExecuteTrade_runs [OF deps_ok_ref_deps w2(1) od, where buy = ?r and sell = ex_sell and base = "''BTC''" and quote = "''USD''"
        and bb = 2 and bq = 1 and sb = 5 and sq = 4])
      (use f fl ex_quote_units in \<open>simp_all add: w2(2) d1 ex_trade_def ex_symbol IsTerminal_def ex_sell_def account_of_def ex_market_def ex_account_def
        key_claimed_def ScopeOrder_def ScopeTrade_def StatusOpen_def StatusFilled_def StatusCancelled_def\<close>)
  then obtain tr w3 where tr: "ExecuteTrade ref_deps (ex_trade (o_ID o1)) w2 = (Inr tr, w3)" by blast
  obtain buy sell rs1 rs2 where c: "orders_by_id (o_ID o1) (w_db w2) = buy # rs1" "orders_by_id 12 (w_db w2) = sell # rs2"
    "made_trade (ex_trade (o_ID o1)) (o_UserID buy) (o_UserID sell) tr"
    using tr by (rule ExecuteTrade_change) (simp add: ex_trade_def)
  have "buy = ?r" "sell = ex_sell" using c(1,2) fresh by (auto simp: w2(2) d1 orders_by_id_def ex_sell_def)
  then have "t_BuyUserID tr = 5" "t_SellUserID tr = 6" using c(3) f by (simp_all add: made_trade_def ex_sell_def)
  then show thesis using that run w2(2) tr od by (simp add: d1)
qed

text \<open>
  C6. A trade that succeeds was between a BUY and a SELL order, neither of them final, under a key not
  yet used, and it commits exactly: the claim of the key, the trade, four TRADE entries on the users'
  accounts of the two assets (the buyer gets the base and pays the quote, the seller the reverse), the
  fill of the two orders, and the pending \<open>TRADE_EXECUTED\<close> event.
\<close>
theorem ExecuteTrade_effect:
  assumes "ExecuteTrade dp cmd w = (Inr tr, w')"
  shows "\<exists>buy \<in> set (db_orders (w_db w)). \<exists>sell \<in> set (db_orders (w_db w)).
     o_ID buy = tc_BuyOrderID cmd \<and> o_ID sell = tc_SellOrderID cmd \<and> o_Side buy = SideBuy \<and> o_Side sell = SideSell \<and>
     \<not> IsTerminal (o_Status buy) \<and> \<not> IsTerminal (o_Status sell) \<and>
     \<not> key_claimed (tc_IdempotencyKey cmd) ScopeTrade (w_db w) \<and> (\<forall>r \<in> set (db_trades (w_db w)). t_ID tr \<noteq> t_ID r) \<and>
     made_trade cmd (o_UserID buy) (o_UserID sell) tr \<and> trade_change dp cmd buy sell tr (w_db w) (w_db w')"
proof -
  obtain buy sell rs1 rs2 where r: "orders_by_id (tc_BuyOrderID cmd) (w_db w) = buy # rs1" "orders_by_id (tc_SellOrderID cmd) (w_db w) = sell # rs2"
    "o_Side buy = SideBuy" "o_Side sell = SideSell" "\<not> IsTerminal (o_Status buy)" "\<not> IsTerminal (o_Status sell)"
    "\<not> key_claimed (tc_IdempotencyKey cmd) ScopeTrade (w_db w)"
    "\<forall>r \<in> set (db_trades (w_db w)). t_ID tr \<noteq> t_ID r"
    "trade_change dp cmd buy sell tr (w_db w) (w_db w')" "made_trade cmd (o_UserID buy) (o_UserID sell) tr"
    using assms by (rule ExecuteTrade_change)
  have m: "r \<in> set (db_orders d) \<and> o_ID r = i" if "orders_by_id i d = r # rs" for i d r rs
    using that unfolding orders_by_id_def filter_eq_Cons_iff by auto
  show ?thesis using m [OF r(1)] m [OF r(2)] r(3-10) by blast
qed

lemma ExecuteTrade_effect_witness:
  "\<exists>i w2 tr w3. ExecuteTrade ref_deps (ex_trade i) w2 = (Inr tr, w3) \<and> key_claimed ''t1'' ScopeTrade (w_db w3)"
proof -
  obtain o1 :: "pgnumeric order_rec" and w2 tr w3 where run: "ExecuteTrade ref_deps (ex_trade (o_ID o1)) w2 = (Inr tr, w3)" by (rule ex_traded) blast
  then obtain buy sell where "trade_change ref_deps (ex_trade (o_ID o1)) buy sell tr (w_db w2) (w_db w3)"
    using ExecuteTrade_effect [OF run] by blast
  then have "key_claimed ''t1'' ScopeTrade (w_db w3)" unfolding trade_change_def key_claimed_def by (auto simp: ex_trade_def)
  then show ?thesis using run by blast
qed



text \<open>
  A trade that fails changes nothing, whatever failed; and after a trade has succeeded every later
  one with the same key fails.
\<close>
theorem ExecuteTrade_once:
  "(\<forall>e w'. ExecuteTrade dp cmd w = (Inl e, w') \<longrightarrow> w_db w' = w_db w \<and> w_engine w' = w_engine w) \<and>
   (\<forall>tr w1 cmd' w2. ExecuteTrade dp cmd w = (Inr tr, w1) \<longrightarrow> tc_IdempotencyKey cmd' = tc_IdempotencyKey cmd \<longrightarrow>
      set (db_idem (w_db w1)) \<subseteq> set (db_idem (w_db w2)) \<longrightarrow> isl (fst (ExecuteTrade dp cmd' w2)))"
proof -
  have "isl (fst (ExecuteTrade dp cmd' w2))"
    if "ExecuteTrade dp cmd w = (Inr tr, w1)" "tc_IdempotencyKey cmd' = tc_IdempotencyKey cmd"
      "set (db_idem (w_db w1)) \<subseteq> set (db_idem (w_db w2))" for tr w1 cmd' w2
  proof -
    note h = that
    obtain buy sell where "trade_change dp cmd buy sell tr (w_db w) (w_db w1)" using h(1) by (rule ExecuteTrade_change)
    then have "key_claimed (tc_IdempotencyKey cmd) ScopeTrade (w_db w1)" unfolding trade_change_def key_claimed_def by auto
    then have k: "key_claimed (tc_IdempotencyKey cmd') ScopeTrade (w_db w2)" using key_claimed_mono [OF h(3)] h(2) by simp
    show ?thesis
    proof (cases "fst (ExecuteTrade dp cmd' w2)")
      case (Inr tr')
      then have "ExecuteTrade dp cmd' w2 = (Inr tr', snd (ExecuteTrade dp cmd' w2))" by (metis prod.collapse)
      then have "\<not> key_claimed (tc_IdempotencyKey cmd') ScopeTrade (w_db w2)" by (rule ExecuteTrade_change)
      then show ?thesis using k by simp
    qed simp
  qed
  then show ?thesis using atomic_ExecuteTrade [of dp cmd] unfolding atomic_def same_store_def by blast
qed

lemma ExecuteTrade_once_witness:
  "\<exists>i w2 tr w3. ExecuteTrade ref_deps (ex_trade i) w2 = (Inr tr, w3) \<and>
     isl (fst (ExecuteTrade ref_deps (ex_trade i) w3))"
proof -
  obtain o1 :: "pgnumeric order_rec" and w2 tr w3 where run: "ExecuteTrade ref_deps (ex_trade (o_ID o1)) w2 = (Inr tr, w3)" by (rule ex_traded) blast
  then have "isl (fst (ExecuteTrade ref_deps (ex_trade (o_ID o1)) w3))"
    using conjunct2 [OF ExecuteTrade_once [of ref_deps "ex_trade (o_ID o1)" w2]] by blast
  then show ?thesis using run by blast
qed

text \<open>
  The fill of an order: a trade adds its quantity to what the order has filled, the order becomes
  FILLED exactly when that reaches its quantity and is PARTIAL otherwise, and no order but the two of
  the trade is touched.
\<close>
theorem ExecuteTrade_fills:
  assumes dp: "deps_ok dp" and od: "orders_distinct (w_db w)" and q: "plain_num (tc_Quantity cmd)" "0 \<le> toRat (tc_Quantity cmd)"
    and run: "ExecuteTrade dp cmd w = (Inr tr, w')"
    and r: "r \<in> set (db_orders (w_db w))" "o_FilledQuantity r = QNum f" "o_Quantity r = QNum n" "0 \<le> f" "order_status_ok (o_Status r)"
  shows "if o_ID r \<in> {tc_BuyOrderID cmd, tc_SellOrderID cmd}
     then \<exists>r' \<in> set (db_orders (w_db w')). o_ID r' = o_ID r \<and> o_Quantity r' = QNum n \<and>
            o_FilledQuantity r' = QNum (f + dec_units (toRat (tc_Quantity cmd))) \<and>
            o_Status r' = (if n \<le> f + dec_units (toRat (tc_Quantity cmd)) then StatusFilled else StatusPartial)
     else r \<in> set (db_orders (w_db w'))"
proof -
  let ?b = "tc_BuyOrderID cmd" and ?s = "tc_SellOrderID cmd"
  obtain buy sell rs1 rs2 where c: "orders_by_id ?b (w_db w) = buy # rs1" "orders_by_id ?s (w_db w) = sell # rs2"
    "o_Side buy = SideBuy" "o_Side sell = SideSell" "\<not> IsTerminal (o_Status buy)" "\<not> IsTerminal (o_Status sell)"
    "trade_change dp cmd buy sell tr (w_db w) (w_db w')"
    using run by (rule ExecuteTrade_change)
  have ids: "o_ID buy = ?b" "o_ID sell = ?s" using c(1,2) unfolding orders_by_id_def filter_eq_Cons_iff by auto
  have ne: "?b \<noteq> ?s" using c(1-4) by (auto simp: SideBuy_def SideSell_def)
  have me: "o_ID r = i \<Longrightarrow> orders_by_id i (w_db w) = [r]" for i using orders_by_id_unique [OF od r(1)] by simp
  obtain rows1 rows2 where rows: "list_all2 (filled_row dp (scanOrder dp buy) (tc_Quantity cmd)) (db_orders (w_db w)) rows1"
    "list_all2 (filled_row dp (scanOrder dp sell) (tc_Quantity cmd)) rows1 rows2" "db_orders (w_db w') = rows2"
    using c(7) unfolding trade_change_def by auto
  obtain r1 where r1: "r1 \<in> set rows1" "filled_row dp (scanOrder dp buy) (tc_Quantity cmd) r r1"
    using rows(1) r(1) by (rule filled_rows_mem)
  obtain r2 where r2: "r2 \<in> set rows2" "filled_row dp (scanOrder dp sell) (tc_Quantity cmd) r1 r2"
    using rows(2) r1(1) by (rule filled_rows_mem)
  consider (b) "o_ID r = ?b" | (s) "o_ID r = ?s" | (o) "o_ID r \<noteq> ?b" "o_ID r \<noteq> ?s" by blast
  then show ?thesis
  proof cases
    case b
    then have eq: "buy = r" using me c(1) by simp
    note u = filled_row_units [OF dp q r(2-5) c(5) [unfolded eq] r1(2) [unfolded eq]]
    have "r2 = r1" using r2(2) u b ne ids by (simp add: filled_row_def)
    then show ?thesis using u r2(1) rows(3) b by auto
  next
    case s
    then have eq: "sell = r" using me c(2) by simp
    have r1': "r1 = r" using r1(2) s ne ids by (simp add: filled_row_def)
    note u = filled_row_units [OF dp q r(2-5) c(6) [unfolded eq] r2(2) [unfolded eq r1']]
    then show ?thesis using r2(1) rows(3) s by auto
  next
    case o
    then have "r1 = r" using r1(2) ids by (simp add: filled_row_def)
    then have "r2 = r" using r2(2) o ids by (simp add: filled_row_def)
    then show ?thesis using r2(1) rows(3) o by simp
  qed
qed

lemma ExecuteTrade_fills_witness:
  "\<exists>i w2 tr w3. ExecuteTrade ref_deps (ex_trade i) w2 = (Inr tr, w3) \<and>
     (\<exists>r' \<in> set (db_orders (w_db w3)). o_ID r' = 12 \<and> o_FilledQuantity r' = QNum (3 * 10 ^ 10) \<and> o_Status r' = StatusPartial)"
proof -
  obtain o1 :: "pgnumeric order_rec" and w2 tr w3 where run: "ExecuteTrade ref_deps (ex_trade (o_ID o1)) w2 = (Inr tr, w3)"
    and d: "orders_distinct (w_db w2)" "ex_sell \<in> set (db_orders (w_db w2))" by (rule ex_traded) blast
  have p: "plain_num (tc_Quantity (ex_trade (o_ID o1)))" "0 \<le> toRat (tc_Quantity (ex_trade (o_ID o1)))" by (simp_all add: ex_trade_def)
  have e: "o_FilledQuantity ex_sell = QNum 0" "o_Quantity ex_sell = QNum (5 * 10 ^ 10)" "order_status_ok (o_Status ex_sell)"
    by (simp_all add: ex_sell_def order_status_ok_def)
  have "o_ID ex_sell \<in> {tc_BuyOrderID (ex_trade (o_ID o1)), tc_SellOrderID (ex_trade (o_ID o1))}" by (simp add: ex_trade_def ex_sell_def)
  then have "\<exists>r' \<in> set (db_orders (w_db w3)). o_ID r' = o_ID ex_sell \<and> o_Quantity r' = QNum (5 * 10 ^ 10) \<and>
      o_FilledQuantity r' = QNum (0 + dec_units (toRat (tc_Quantity (ex_trade (o_ID o1))))) \<and>
      o_Status r' = (if 5 * 10 ^ 10 \<le> 0 + dec_units (toRat (tc_Quantity (ex_trade (o_ID o1)))) then StatusFilled else StatusPartial)"
    using ExecuteTrade_fills [OF deps_ok_ref_deps d(1) p run d(2) e(1,2) _ e(3)] by simp
  then have "\<exists>r' \<in> set (db_orders (w_db w3)). o_ID r' = 12 \<and> o_FilledQuantity r' = QNum (3 * 10 ^ 10) \<and> o_Status r' = StatusPartial"
    unfolding ex_quote_units by (auto simp: ex_sell_def)
  then show ?thesis using run by blast
qed

text \<open>
  C37. A filled BUY is paid for twice: the placement debits the buyer by price times quantity (RESERVE),
  the trade debits price times quantity again (TRADE), and neither gives the reserve back. A buyer who
  had \<open>k\<close> units has \<open>k - 2x\<close> after the order is filled at its limit for \<open>x\<close> units.
\<close>
theorem filled_buy_debited_twice:
  assumes "deps_ok dp" and "PlaceOrder dp markets cmd w = (Inr o1, w1)" and "po_Side cmd = SideBuy"
    and "SplitSymbol (po_Symbol cmd) = Inr (base, quote)" and "base \<noteq> quote"
    and "balance (po_UserID cmd) quote (w_db w2) = balance (po_UserID cmd) quote (w_db w1)"
    and "ExecuteTrade dp tcmd w2 = (Inr tr, w3)"
    and "tc_Symbol tcmd = po_Symbol cmd" and "tc_Price tcmd = po_Price cmd" and "tc_Quantity tcmd = po_Quantity cmd"
    and "t_BuyUserID tr = po_UserID cmd" and "t_SellUserID tr \<noteq> po_UserID cmd" and "plain_num (po_Quantity cmd)"
    and "balance (po_UserID cmd) quote (w_db w) = QNum k"
  shows "balance (po_UserID cmd) quote (w_db w3) = QNum (k - 2 * dec_units (toRat (po_Price cmd) * toRat (po_Quantity cmd)))"
proof -
  let ?x = "dec_units (toRat (po_Price cmd) * toRat (po_Quantity cmd))"
  obtain buy sell where c: "trade_change dp tcmd buy sell tr (w_db w2) (w_db w3)" "made_trade tcmd (o_UserID buy) (o_UserID sell) tr"
    using assms(7) by (rule ExecuteTrade_change)
  have r: "reserve_of dp ''PlaceOrder'' (po_Side cmd) base quote (po_Price cmd) (po_Quantity cmd) =
      Inr (quote, num_Mul (dp_scan dp) (po_Price cmd) (po_Quantity cmd))" by (simp add: reserve_of_def assms(3))
  have "balance (po_UserID cmd) quote (w_db w1) = QNum (k - ?x)"
    using PlaceOrder_balances(1) [OF assms(1,2,4) r] assms(14) by (simp add: num_Mul_value [OF deps_okD(1) [OF assms(1)]])
  moreover have "balance (po_UserID cmd) quote (w_db w3) = sql_add (balance (po_UserID cmd) quote (w_db w2)) (QNum (- ?x))"
    using trade_change_balance [OF assms(1) _ c(1), of base quote "po_UserID cmd" quote] assms(4,5,8-13) c(2)
    by (simp add: trade_units_def quote_units_def made_trade_def)
  ultimately show ?thesis using assms(6) by simp
qed

lemma filled_buy_debited_twice_witness:
  "\<exists>o1 w1 w2 tr w3. PlaceOrder ref_deps [''BTC-USD''] (ex_buy 100 3 ''k1'') (ex_world ex_market) = (Inr o1, w1) \<and> w_db w2 = w_db w1 \<and>
     ExecuteTrade ref_deps (ex_trade (o_ID o1)) w2 = (Inr tr, w3) \<and> balance 5 ''USD'' (w_db w3) = QNum (400 * 10 ^ 10)"
proof -
  obtain o1 w1 w2 tr w3 where run: "PlaceOrder ref_deps [''BTC-USD''] (ex_buy 100 3 ''k1'') (ex_world ex_market) = (Inr o1, w1)"
    "w_db w2 = w_db w1" "ExecuteTrade ref_deps (ex_trade (o_ID o1)) w2 = (Inr tr, w3)" and u: "t_BuyUserID tr = 5" "t_SellUserID tr = 6"
    by (rule ex_traded) blast
  have "balance (po_UserID (ex_buy 100 3 ''k1'')) ''USD'' (w_db w3) = QNum (1000 * 10 ^ 10 - 2 *
      dec_units (toRat (po_Price (ex_buy 100 3 ''k1'')) * toRat (po_Quantity (ex_buy 100 3 ''k1''))))"
    by (rule filled_buy_debited_twice [OF deps_ok_ref_deps run(1) _ _ _ _ run(3), of "''BTC''"])
      (simp_all add: ex_buy_def ex_trade_def ex_symbol run(2) u balance_def ex_market_def ex_funded_def ex_entry_def empty_db_def)
  moreover have "dec_units (toRat (po_Price (ex_buy 100 3 ''k1'')) * toRat (po_Quantity (ex_buy 100 3 ''k1''))) = 300 * 10 ^ 10"
    using dec_units_int [of 300] by (simp add: ex_buy_def)
  ultimately have "balance 5 ''USD'' (w_db w3) = QNum (400 * 10 ^ 10)" by (simp add: ex_buy_def)
  then show ?thesis using run by blast
qed

end
