(* ===== verification/Timefmt.thy ===== *)
theory Timefmt
  imports Shared
begin

text \<open>
  The parts of Go's standard library the HTTP layer uses on text: \<open>time.Time.Format\<close> and \<open>time.Parse\<close>
  for \<open>time.RFC3339\<close>, \<open>strings.TrimSpace\<close>, \<open>strings.ToUpper\<close> and \<open>strings.Split\<close>, for ASCII text.
\<close>

subsection \<open>The calendar\<close>

text \<open>Days since 1970-01-01 to year, month and day of the proleptic Gregorian calendar, and back.\<close>

definition civil_of_days :: "int \<Rightarrow> int \<times> int \<times> int" where
  "civil_of_days n =
     (let z = n + 719468;
          era = z div 146097;
          doe = z mod 146097;
          yoe = (doe - doe div 1460 + doe div 36524 - doe div 146096) div 365;
          doy = doe - (365 * yoe + yoe div 4 - yoe div 100);
          mp = (5 * doy + 2) div 153;
          d = doy - (153 * mp + 2) div 5 + 1;
          m = (if mp < 10 then mp + 3 else mp - 9);
          y = yoe + era * 400 + (if m \<le> 2 then 1 else 0) in
      (y, m, d))"

definition days_of_civil :: "int \<Rightarrow> int \<Rightarrow> int \<Rightarrow> int" where
  "days_of_civil y0 m d =
     (let y = (if m \<le> 2 then y0 - 1 else y0);
          era = y div 400;
          yoe = y mod 400;
          doy = (153 * (if 2 < m then m - 3 else m + 9) + 2) div 5 + d - 1;
          doe = yoe * 365 + yoe div 4 - yoe div 100 + doy in
      era * 146097 + doe - 719468)"

definition leap_year :: "int \<Rightarrow> bool" where
  "leap_year y \<longleftrightarrow> y mod 4 = 0 \<and> (y mod 100 \<noteq> 0 \<or> y mod 400 = 0)"

definition days_in_month :: "int \<Rightarrow> int \<Rightarrow> int" where
  "days_in_month m y =
     (if m = 2 then (if leap_year y then 29 else 28)
      else if m = 4 \<or> m = 6 \<or> m = 9 \<or> m = 11 then 30 else 31)"

subsection \<open>RFC 3339\<close>

text \<open>\<open>t.Format(time.RFC3339)\<close> of a time in UTC, which every time of the services is.\<close>

definition pad2 :: "int \<Rightarrow> string" where
  "pad2 n = pad_digits 2 (nat n)"

definition year_text :: "int \<Rightarrow> string" where
  "year_text y =
     (if 0 \<le> y \<and> y < 10000 then pad_digits 4 (nat y)
      else if 0 \<le> y then utoa (nat y)
      else CHR ''-'' # (if - y < 10000 then pad_digits 4 (nat (- y)) else utoa (nat (- y))))"

definition FormatRFC3339 :: "gotime \<Rightarrow> string" where
  "FormatRFC3339 t =
     (let s = t div 1000000; sod = s mod 86400; (y, m, d) = civil_of_days (s div 86400) in
      year_text y @ ''-'' @ pad2 m @ ''-'' @ pad2 d @ ''T'' @
      pad2 (sod div 3600) @ '':'' @ pad2 (sod div 60 mod 60) @ '':'' @ pad2 (sod mod 60) @ ''Z'')"

text \<open>
  \<open>time.Parse(time.RFC3339, s)\<close>: fields of fixed width, but an hour of one digit, a fraction of the
  second after a point or a comma, \<open>Z\<close> or a numeric offset. The result is the reading of the clock in
  microseconds (pgx sends no finer) and the offset in seconds.
\<close>

definition fixed_num :: "nat \<Rightarrow> string \<Rightarrow> (int \<times> string) option" where
  "fixed_num k s =
     (if k \<le> length s \<and> list_all is_digit (take k s) then Some (int (atou (take k s)), drop k s) else None)"

definition getnum :: "string \<Rightarrow> (int \<times> string) option" where
  "getnum s = (case fixed_num 2 s of Some r \<Rightarrow> Some r | None \<Rightarrow> fixed_num 1 s)"

definition literal :: "char \<Rightarrow> string \<Rightarrow> string option" where
  "literal c s = (case s of [] \<Rightarrow> None | x # xs \<Rightarrow> if x = c then Some xs else None)"

definition parse_date :: "string \<Rightarrow> ((int \<times> int \<times> int) \<times> string) option" where
  "parse_date s0 =
     Option.bind (fixed_num 4 s0) (\<lambda>(y, s1).
     Option.bind (literal CHR ''-'' s1) (\<lambda>s2.
     Option.bind (fixed_num 2 s2) (\<lambda>(m, s3).
     if m < 1 \<or> 12 < m then None else
     Option.bind (literal CHR ''-'' s3) (\<lambda>s4.
     Option.bind (fixed_num 2 s4) (\<lambda>(d, s5).
     if d < 1 \<or> days_in_month m y < d then None else Some ((y, m, d), s5))))))"

definition parse_fraction :: "string \<Rightarrow> int \<times> string" where
  "parse_fraction s =
     (if 2 \<le> length s \<and> (hd s = CHR ''.'' \<or> hd s = CHR '','') \<and> is_digit (s ! 1) then
        let ds = takeWhile is_digit (tl s); us = take 6 (ds @ replicate 6 CHR ''0'') in
        (int (atou us), drop (length ds) (tl s))
      else (0, s))"

definition parse_clock :: "string \<Rightarrow> (int \<times> string) option" where
  "parse_clock s0 =
     Option.bind (getnum s0) (\<lambda>(h, s1).
     if 24 \<le> h then None else
     Option.bind (literal CHR '':'' s1) (\<lambda>s2.
     Option.bind (fixed_num 2 s2) (\<lambda>(mi, s3).
     if 60 \<le> mi then None else
     Option.bind (literal CHR '':'' s3) (\<lambda>s4.
     Option.bind (fixed_num 2 s4) (\<lambda>(sec, s5).
     if 60 \<le> sec then None else
     (case parse_fraction s5 of (us, s6) \<Rightarrow> Some ((h * 3600 + mi * 60 + sec) * 1000000 + us, s6)))))))"

definition parse_zone :: "string \<Rightarrow> (int \<times> string) option" where
  "parse_zone s =
     (if s \<noteq> [] \<and> hd s = CHR ''Z'' then Some (0, tl s)
      else if s = [] \<or> hd s \<notin> {CHR ''+'', CHR ''-''} then None
      else
       Option.bind (fixed_num 2 (tl s)) (\<lambda>(h, s1).
       Option.bind (literal CHR '':'' s1) (\<lambda>s2.
       Option.bind (fixed_num 2 s2) (\<lambda>(mi, s3).
       if 24 < h \<or> 60 < mi then None
       else Some ((if hd s = CHR ''-'' then - 1 else 1) * (h * 3600 + mi * 60), s3)))))"

definition ParseRFC3339 :: "string \<Rightarrow> (gotime \<times> int) option" where
  "ParseRFC3339 s0 =
     Option.bind (parse_date s0) (\<lambda>((y, m, d), s1).
     Option.bind (literal CHR ''T'' s1) (\<lambda>s2.
     Option.bind (parse_clock s2) (\<lambda>(us, s3).
     Option.bind (parse_zone s3) (\<lambda>(off, s4).
     if s4 = [] then Some (days_of_civil y m d * 86400000000 + us, off) else None))))"

subsection \<open>Package strings\<close>

definition is_space :: "char \<Rightarrow> bool" where
  "is_space c \<longleftrightarrow> c \<in> {CHR '' '', CHR 0x09, CHR 0x0A, CHR 0x0B, CHR 0x0C, CHR 0x0D}"

definition TrimSpace :: "string \<Rightarrow> string" where
  "TrimSpace s = rev (dropWhile is_space (rev (dropWhile is_space s)))"

definition upper_char :: "char \<Rightarrow> char" where
  "upper_char c = (if 97 \<le> (of_char c :: nat) \<and> (of_char c :: nat) \<le> 122 then char_of ((of_char c :: nat) - 32) else c)"

definition ToUpper :: "string \<Rightarrow> string" where
  "ToUpper s = map upper_char s"

lemma dropWhile_hd: "s \<noteq> [] \<Longrightarrow> \<not> P (hd s) \<Longrightarrow> dropWhile P s = s"
  by (cases s) auto

text \<open>What is trimmed has no space at either end.\<close>

lemma TrimSpace_ends: "TrimSpace s \<noteq> [] \<Longrightarrow> \<not> is_space (hd (TrimSpace s)) \<and> \<not> is_space (last (TrimSpace s))"
proof -
  assume ne: "TrimSpace s \<noteq> []"
  let ?a = "dropWhile is_space s"
  have last: "\<not> is_space (last (TrimSpace s))"
    using ne hd_dropWhile [of is_space "rev ?a"] by (auto simp: TrimSpace_def last_rev)
  obtain pre where pre: "?a = TrimSpace s @ pre"
    by (metis TrimSpace_def rev_append rev_rev_ident takeWhile_dropWhile_id)
  then have "hd (TrimSpace s) = hd ?a" using ne by simp
  moreover have "\<not> is_space (hd ?a)" using ne pre hd_dropWhile [of is_space s] by force
  ultimately show ?thesis using last by simp
qed

lemma TrimSpace_idem [simp]: "TrimSpace (TrimSpace s) = TrimSpace s"
proof (cases "TrimSpace s = []")
  case False
  note e = TrimSpace_ends [OF this]
  have 1: "dropWhile is_space (TrimSpace s) = TrimSpace s" using False e by (intro dropWhile_hd) auto
  have "dropWhile is_space (rev (TrimSpace s)) = rev (TrimSpace s)"
    using False e by (intro dropWhile_hd) (auto simp: hd_rev)
  then show ?thesis by (subst TrimSpace_def) (simp add: 1)
next
  case True
  then show ?thesis by (simp only: True) (simp add: TrimSpace_def)
qed

end
