(* ===== verification/Config.thy ===== *)
theory Config
  imports Order Timefmt
begin

text \<open>
  config/config.go: the configuration read through viper, a parameter that answers for each key; what
  a configuration that loads satisfies.
\<close>

record viper =
  vp_GetString :: "string \<Rightarrow> string"
  vp_IsSet :: "string \<Rightarrow> bool"
  vp_GetBool :: "string \<Rightarrow> bool"
  vp_GetInt :: "string \<Rightarrow> int"

record config =
  cfg_DatabaseURL :: string
  cfg_ServerPort :: string
  cfg_LogLevel :: string
  cfg_DBMaxConns :: int
  cfg_OutboxPollInterval :: int
  cfg_JWTSecret :: string
  cfg_BinanceSymbols :: "string list"
  cfg_MarketfeedEnabled :: bool
  cfg_CORSAllowedOrigins :: "string list"
  cfg_SimbotEnabled :: bool
  cfg_Environment :: string

definition EnvProduction :: string where "EnvProduction = ''production''"
definition EnvSandbox :: string where "EnvSandbox = ''sandbox''"

definition IsSandbox :: "config \<Rightarrow> bool" where
  "IsSandbox c \<longleftrightarrow> cfg_Environment c = EnvSandbox"

text \<open>A key of the environment overrides the key of the file; a default when both are empty.\<close>

definition env_or_file :: "viper \<Rightarrow> string \<Rightarrow> string \<Rightarrow> string" where
  "env_or_file v envKey fileKey = (if vp_GetString v envKey = [] then vp_GetString v fileKey else vp_GetString v envKey)"

definition flag :: "viper \<Rightarrow> string \<Rightarrow> string \<Rightarrow> bool \<Rightarrow> bool" where
  "flag v envKey fileKey dflt =
     (if vp_IsSet v envKey then vp_GetBool v envKey
      else if vp_IsSet v fileKey then vp_GetBool v fileKey else dflt)"

definition comma_list :: "string \<Rightarrow> string list" where
  "comma_list raw = filter (\<lambda>s. s \<noteq> []) (map TrimSpace (split_on CHR '','' raw))"

definition second_us :: int where "second_us = 1000000"

definition Load :: "viper \<Rightarrow> gerr + config" where
  "Load v =
     (let dbURL = env_or_file v ''DATABASE_URL'' ''database.url'';
          jwtSecret = env_or_file v ''JWT_SECRET'' ''jwt.secret'';
          symbolsRaw = env_or_file v ''BINANCE_SYMBOLS'' ''binance.symbols'';
          symbolsRaw = (if symbolsRaw = [] then ''BTC-USDT,ETH-USDT,SOL-USDT'' else symbolsRaw);
          environment = env_or_file v ''ENVIRONMENT'' ''environment'';
          environment = (if environment = [] then EnvProduction else environment);
          corsOrigins = comma_list (env_or_file v ''CORS_ALLOWED_ORIGINS'' ''cors.allowed_origins'') in
      if dbURL = []
      then Inl (Opaque ''database URL is required: set DATABASE_URL env var or database.url in application.yaml'')
      else if length jwtSecret < 32
      then Inl (Opaque (''JWT_SECRET is required and must be at least 32 characters (got '' @ utoa (length jwtSecret) @ '')''))
      else if length corsOrigins = 0
      then Inl (Opaque ''cors.allowed_origins is required: set CORS_ALLOWED_ORIGINS env var or cors.allowed_origins in application.yaml'')
      else Inr
        \<lparr>cfg_DatabaseURL = dbURL, cfg_ServerPort = vp_GetString v ''server.port'', cfg_LogLevel = vp_GetString v ''log.level'',
         cfg_DBMaxConns = vp_GetInt v ''db.max_conns'',
         cfg_OutboxPollInterval = vp_GetInt v ''outbox.poll_interval_seconds'' * second_us,
         cfg_JWTSecret = jwtSecret, cfg_BinanceSymbols = comma_list symbolsRaw,
         cfg_MarketfeedEnabled = flag v ''MARKETFEED_ENABLED'' ''marketfeed.enabled'' True,
         cfg_CORSAllowedOrigins = corsOrigins,
         cfg_SimbotEnabled = flag v ''SIMBOT_ENABLED'' ''simbot.enabled'' False,
         cfg_Environment = environment\<rparr>)"

subsection \<open>Facts\<close>

lemma comma_list_clean: "[] \<notin> set (comma_list raw)" "s \<in> set (comma_list raw) \<Longrightarrow> TrimSpace s = s"
  by (auto simp: comma_list_def)

subsection \<open>Property\<close>

text \<open>
  A configuration that loads is usable and safe by default: the database URL and the CORS origins
  are there, the JWT secret has at least 32 characters, the market symbols and origins are trimmed and
  not empty, and the sandbox features are on only when the environment is the word sandbox itself.
\<close>
theorem Load_valid:
  assumes "Load v = Inr c"
  shows "cfg_DatabaseURL c \<noteq> [] \<and> 32 \<le> length (cfg_JWTSecret c) \<and> cfg_CORSAllowedOrigins c \<noteq> [] \<and>
    (\<forall>s \<in> set (cfg_BinanceSymbols c) \<union> set (cfg_CORSAllowedOrigins c). s \<noteq> [] \<and> TrimSpace s = s) \<and>
    (IsSandbox c \<longleftrightarrow> env_or_file v ''ENVIRONMENT'' ''environment'' = ''sandbox'')"
proof -
  have "EnvProduction \<noteq> EnvSandbox" by (simp add: EnvProduction_def EnvSandbox_def)
  then show ?thesis
    using assms by (auto simp: Load_def Let_def IsSandbox_def EnvSandbox_def comma_list_clean split: if_splits)
qed

definition ex_viper :: viper where
  "ex_viper = \<lparr>vp_GetString = (\<lambda>k. if k = ''DATABASE_URL'' then ''db'' else if k = ''jwt.secret'' then replicate 32 CHR ''k''
       else if k = ''CORS_ALLOWED_ORIGINS'' then ''a, b'' else []),
     vp_IsSet = (\<lambda>_. False), vp_GetBool = (\<lambda>_. False), vp_GetInt = (\<lambda>_. 0)\<rparr>"

lemma Load_valid_witness: "\<exists>c. Load ex_viper = Inr c \<and> \<not> IsSandbox c"
proof -
  have ne: "comma_list ''a, b'' \<noteq> []" by (simp add: comma_list_def TrimSpace_def is_space_def)
  have "\<exists>c. Load ex_viper = Inr c" using ne by (simp add: Load_def Let_def ex_viper_def env_or_file_def)
  then obtain c where c: "Load ex_viper = Inr c" by blast
  from Load_valid [OF this] have "\<not> IsSandbox c" by (simp add: env_or_file_def ex_viper_def)
  then show ?thesis using c by blast
qed

end
