(* ===== verification/User.thy ===== *)
theory User
  imports Account
begin

text \<open>
  internal/user and pkg/crypto: the users table, sign-up with the accounts of every enabled asset in
  the same transaction, login and the soft deletion. bcrypt is a parameter: hashing draws a salt, so
  its result depends on the number of the call.
\<close>

subsection \<open>Passwords (pkg/crypto/crypto.go)\<close>

record bcrypt =
  bc_generate :: "nat \<Rightarrow> string \<Rightarrow> gerr + string"
  bc_compare :: "string \<Rightarrow> string \<Rightarrow> bool"

text \<open>What the documentation of bcrypt promises: a generated hash has 60 characters and accepts its password.\<close>

definition bcrypt_ok :: "bcrypt \<Rightarrow> bool" where
  "bcrypt_ok bc \<longleftrightarrow> (\<forall>n p h. bc_generate bc n p = Inr h \<longrightarrow> length h = 60 \<and> bc_compare bc h p)"

definition HashPassword :: "bcrypt \<Rightarrow> string \<Rightarrow> (gerr, string) act" where
  "HashPassword bc password w =
     wrapE ''HashPassword: '' (liftE (bc_generate bc (w_tick w) password)) (tick w)"

definition CheckPassword :: "bcrypt \<Rightarrow> string \<Rightarrow> string \<Rightarrow> bool" where
  "CheckPassword bc password hash \<longleftrightarrow> bc_compare bc hash password"

subsection \<open>Store (user/store.go)\<close>

definition UserActive :: string where "UserActive = ''ACTIVE''"
definition UserSuspended :: string where "UserSuspended = ''SUSPENDED''"
definition UserClosed :: string where "UserClosed = ''CLOSED''"

definition user_checks :: "user_rec \<Rightarrow> bool" where
  "user_checks u \<longleftrightarrow> varchar 255 (u_Email u) \<and> varchar 100 (u_Username u) \<and> varchar 255 (u_FullName u) \<and>
     varchar 255 (u_PasswordHash u) \<and> varchar 20 (u_Status u) \<and> varchar 20 (u_Role u) \<and>
     u_Status u \<in> {UserActive, UserSuspended, UserClosed} \<and> u_Role u \<in> {RoleUser, RoleAdmin, RoleSystem}"

text \<open>\<open>UNIQUE (email)\<close>, \<open>UNIQUE (username)\<close> and the primary key, over deleted rows too.\<close>

definition user_clash :: "user_rec \<Rightarrow> user_rec \<Rightarrow> bool" where
  "user_clash r s \<longleftrightarrow> u_ID r = u_ID s \<or> u_Email r = u_Email s \<or> u_Username r = u_Username s"

text \<open>The INSERT does not name \<open>deleted_at\<close>, which is NULL by default.\<close>

definition insert_user :: "user_rec \<Rightarrow> db \<Rightarrow> db_error + unit \<times> db" where
  "insert_user u d =
     (case sql_insert (user_checks u) user_clash (u\<lparr>u_DeletedAt := None\<rparr>) (db_users d) of
        Inl e \<Rightarrow> Inl e
      | Inr rows \<Rightarrow> Inr ((), d\<lparr>db_users := rows\<rparr>))"

text \<open>\<open>Create\<close> sets the role of the struct it is given when that is empty: it returns the struct.\<close>

definition userStore_Create :: "user_rec \<Rightarrow> (gerr, user_rec) act" where
  "userStore_Create user =
     (let user = (if u_Role user = [] then user\<lparr>u_Role := RoleUser\<rparr> else user) in
      bindE (mapE (conflict_err ''userStore.Create: '') (tx_exec (\<lambda>d _. insert_user user d))) (\<lambda>_.
      returnE user))"

definition users_by_id :: "uuid \<Rightarrow> db \<Rightarrow> user_rec list" where
  "users_by_id i d = filter (\<lambda>u. u_ID u = i \<and> u_DeletedAt u = None) (db_users d)"

definition users_by_email :: "string \<Rightarrow> db \<Rightarrow> user_rec list" where
  "users_by_email email d = filter (\<lambda>u. u_Email u = email \<and> u_DeletedAt u = None) (db_users d)"

definition userStore_GetByID :: "uuid \<Rightarrow> (gerr, user_rec) act" where
  "userStore_GetByID i = mapE (row_err ''userStore.GetByID: '') (pool_query_row (users_by_id i))"

definition userStore_GetByEmail :: "string \<Rightarrow> (gerr, user_rec) act" where
  "userStore_GetByEmail email = mapE (row_err ''userStore.GetByEmail: '') (pool_query_row (users_by_email email))"

definition userStore_List :: "int \<Rightarrow> int \<Rightarrow> (gerr, user_rec list) act" where
  "userStore_List limit offset =
     wrapE ''userStore.List: '' (mapE db_gerr (pool_list (\<lambda>d.
       sql_page limit offset (order_desc u_CreatedAt
         (filter (\<lambda>u. u_DeletedAt u = None \<and> u_Role u \<noteq> RoleSystem) (db_users d))))))"

definition userStore_Delete :: "uuid \<Rightarrow> (gerr, unit) act" where
  "userStore_Delete i =
     must_affect ''userStore.Delete: '' (\<lambda>d now.
       Inr (count_rows (\<lambda>u. u_ID u = i \<and> u_DeletedAt u = None) (db_users d),
            d\<lparr>db_users := map (\<lambda>u. if u_ID u = i \<and> u_DeletedAt u = None then u\<lparr>u_DeletedAt := Some now\<rparr> else u) (db_users d)\<rparr>))"

subsection \<open>Service (user/service.go)\<close>

record create_user_cmd =
  uc_Email :: string
  uc_Username :: string
  uc_FullName :: string
  uc_Password :: string

type_synonym provisioner = "uuid \<Rightarrow> (gerr, unit) act"

definition noopProvisioner :: provisioner where "noopProvisioner u = returnE ()"

definition NewUserID :: "(gerr, uuid) act" where "NewUserID = NewV7"

definition CreateUser :: "bcrypt \<Rightarrow> provisioner \<Rightarrow> create_user_cmd \<Rightarrow> (gerr, user_rec) act" where
  "CreateUser bc provision cmd =
     bindE (wrapE ''CreateUser generate id: '' NewUserID) (\<lambda>i.
     bindE (wrapE ''CreateUser hash password: '' (HashPassword bc (uc_Password cmd))) (\<lambda>passwordHash.
     in_tx ''CreateUser begin: ''
       (bindE Now (\<lambda>now.
        let u = \<lparr>u_ID = i, u_Email = uc_Email cmd, u_Username = uc_Username cmd, u_FullName = uc_FullName cmd,
                 u_PasswordHash = passwordHash, u_Status = UserActive, u_Role = [], u_DeletedAt = None,
                 u_CreatedAt = now, u_UpdatedAt = now\<rparr> in
        bindE (wrapE ''CreateUser: '' (userStore_Create u)) (\<lambda>u.
        bindE (wrapE ''CreateUser provision assets: '' (provision i)) (\<lambda>_.
        bindE (commit_tx ''CreateUser commit: '') (\<lambda>_.
        returnE u)))))))"

definition GetUser :: "uuid \<Rightarrow> (gerr, user_rec) act" where
  "GetUser i = wrapE ''GetUser: '' (userStore_GetByID i)"

definition ListUsers :: "int \<Rightarrow> int \<Rightarrow> (gerr, user_rec list) act" where
  "ListUsers limit offset = wrapE ''ListUsers: '' (userStore_List limit offset)"

definition Login :: "bcrypt \<Rightarrow> string \<Rightarrow> string \<Rightarrow> (gerr, user_rec) act" where
  "Login bc email password =
     bindE (tryE (userStore_GetByEmail email)) (\<lambda>r.
     case r of
       Inl err \<Rightarrow>
         if errors_is err ErrNotFound then throwE (Sentinel ErrUnauthorized)
         else throwE (Wrapped ''Login lookup: '' err [])
     | Inr u \<Rightarrow>
         if \<not> CheckPassword bc password (u_PasswordHash u) then throwE (Sentinel ErrUnauthorized) else returnE u)"

definition DeleteUser :: "uuid \<Rightarrow> (gerr, unit) act" where
  "DeleteUser i =
     in_tx ''DeleteUser begin: ''
       (bindE (wrapE ''DeleteUser: '' (userStore_Delete i)) (\<lambda>_. commit_tx ''DeleteUser commit: ''))"

end
