(* ===== verification/Wallet.thy ===== *)
theory Wallet
  imports Account Strconv
begin

text \<open>
  internal/wallet: one deposit address per user, asset and network, generated on first use. The random
  bytes of \<open>crypto/rand\<close> are the parameter \<open>rnd\<close>: \<open>rnd t n\<close> are the \<open>n\<close> bytes read at call \<open>t\<close>, if the
  read succeeds.
\<close>

type_synonym random_source = "nat \<Rightarrow> nat \<Rightarrow> 8 word list option"

subsection \<open>Addresses (wallet/domain.go)\<close>

definition base58Alphabet :: string where
  "base58Alphabet = ''123456789ABCDEFGHJKLMNPQRSTUVWXYZabcdefghijkmnopqrstuvwxyz''"

text \<open>The loop from position \<open>i\<close> with \<open>k\<close> characters to go; the seed is changed as it is read.\<close>

fun base58_from :: "8 word list \<Rightarrow> nat \<Rightarrow> nat \<Rightarrow> string" where
  "base58_from seed i 0 = []"
| "base58_from seed i (Suc k) =
     (let j = i mod length seed; b = seed ! j in
      base58Alphabet ! (unat b mod length base58Alphabet) #
      base58_from (seed[j := b + of_nat (i * 31)]) (Suc i) k)"

definition base58Like :: "8 word list \<Rightarrow> nat \<Rightarrow> string" where
  "base58Like seed n = base58_from seed 0 n"

definition hex_digit :: "nat \<Rightarrow> char" where
  "hex_digit d = ''0123456789abcdef'' ! d"

definition hex_encode :: "8 word list \<Rightarrow> string" where
  "hex_encode bs = concat (map (\<lambda>b. [hex_digit (unat b div 16), hex_digit (unat b mod 16)]) bs)"

text \<open>\<open>rand.Read\<close> of \<open>n\<close> bytes.\<close>

definition rand_read :: "random_source \<Rightarrow> nat \<Rightarrow> (gerr, 8 word list) act" where
  "rand_read rnd n w =
     (case rnd (w_tick w) n of
        None \<Rightarrow> (Inl (Opaque ''random source failed''), tick w)
      | Some bs \<Rightarrow> (Inr bs, tick w))"

definition generateMockAddress :: "random_source \<Rightarrow> string \<Rightarrow> (gerr, string) act" where
  "generateMockAddress rnd networkName =
     (let read = (\<lambda>n k. bindE (wrapE ''address random: '' (rand_read rnd n)) (\<lambda>b. returnE (k b))) in
      if networkName = ''Bitcoin'' then read 20 (\<lambda>b. ''bc1'' @ base58Like b 39)
      else if networkName = ''ERC20'' \<or> networkName = ''BEP20'' then read 20 (\<lambda>b. ''0x'' @ hex_encode b)
      else if networkName = ''TRON'' then read 16 (\<lambda>b. ''T'' @ base58Like b 33)
      else if networkName = ''Solana'' then read 24 (\<lambda>b. base58Like b 44)
      else read 8 (\<lambda>b. ''mock-'' @ map lower_char networkName @ ''-'' @ hex_encode b))"

subsection \<open>Store (wallet/store.go)\<close>

definition network_exists :: "uuid \<Rightarrow> db \<Rightarrow> bool" where
  "network_exists i d \<longleftrightarrow> list_ex (\<lambda>n. n_ID n = i) (db_networks d)"

definition insert_wallet :: "wallet_address \<Rightarrow> db \<Rightarrow> db_error + unit \<times> db" where
  "insert_wallet a d =
     (case sql_insert (varchar 20 (wa_Asset a) \<and> varchar 255 (wa_Address a) \<and> network_exists (wa_NetworkID a) d)
             (\<lambda>r s. wa_ID r = wa_ID s \<or> wa_Address r = wa_Address s \<or>
                wa_UserID r = wa_UserID s \<and> wa_Asset r = wa_Asset s \<and> wa_NetworkID r = wa_NetworkID s) a (db_wallets d) of
        Inl e \<Rightarrow> Inl e
      | Inr rows \<Rightarrow> Inr ((), d\<lparr>db_wallets := rows\<rparr>))"

definition walletStore_Create :: "wallet_address \<Rightarrow> (gerr, unit) act" where
  "walletStore_Create a = mapE (conflict_err ''walletStore.Create: '') (tx_exec (\<lambda>d _. insert_wallet a d))"

definition walletStore_GetByUserAssetNetwork :: "uuid \<Rightarrow> string \<Rightarrow> uuid \<Rightarrow> (gerr, wallet_address) act" where
  "walletStore_GetByUserAssetNetwork u asset n =
     mapE (row_err ''walletStore.GetByUserAssetNetwork: '')
       (pool_query_row (\<lambda>d. filter (\<lambda>a. wa_UserID a = u \<and> wa_Asset a = asset \<and> wa_NetworkID a = n) (db_wallets d)))"

definition walletStore_GetByAddress :: "string \<Rightarrow> (gerr, wallet_address) act" where
  "walletStore_GetByAddress address =
     mapE (row_err ''walletStore.GetByAddress: '')
       (pool_query_row (\<lambda>d. filter (\<lambda>a. wa_Address a = address) (db_wallets d)))"

definition walletStore_ListByUser :: "uuid \<Rightarrow> (gerr, wallet_address list) act" where
  "walletStore_ListByUser u =
     wrapE ''walletStore.ListByUser: '' (mapE db_gerr (pool_query (\<lambda>d.
       sort_key wa_CreatedAt (filter (\<lambda>a. wa_UserID a = u) (db_wallets d)))))"

subsection \<open>Service (wallet/service.go)\<close>

text \<open>An error that is \<open>ErrNotFound\<close> becomes \<open>ErrValidation\<close>, any other is wrapped.\<close>

definition not_found_invalid :: "string \<Rightarrow> gerr \<Rightarrow> gerr" where
  "not_found_invalid pre e = (if errors_is e ErrNotFound then Sentinel ErrValidation else Wrapped pre e [])"

text \<open>One attempt: the new address, or \<open>None\<close> when it collided and the loop continues.\<close>

definition address_attempt :: "random_source \<Rightarrow> uuid \<Rightarrow> string \<Rightarrow> string \<Rightarrow> uuid \<Rightarrow> (gerr, wallet_address option) act" where
  "address_attempt rnd u asset networkName networkID =
     bindE (wrapE ''GetOrCreateAddress generate: '' (generateMockAddress rnd networkName)) (\<lambda>addr.
     bindE NewV7 (\<lambda>i.
     in_tx ''GetOrCreateAddress begin: ''
       (bindE Now (\<lambda>now.
        let a = \<lparr>wa_ID = i, wa_UserID = u, wa_Asset = asset, wa_NetworkID = networkID, wa_Address = addr, wa_CreatedAt = now\<rparr> in
        bindE (tryE (walletStore_Create a)) (\<lambda>r.
        case r of
          Inl err \<Rightarrow>
            if errors_is err ErrConflict then returnE None
            else throwE (Wrapped ''GetOrCreateAddress create: '' err [])
        | Inr _ \<Rightarrow> bindE (commit_tx ''GetOrCreateAddress commit: '') (\<lambda>_. returnE (Some a)))))))"

fun address_loop :: "nat \<Rightarrow> random_source \<Rightarrow> uuid \<Rightarrow> string \<Rightarrow> string \<Rightarrow> uuid \<Rightarrow> (gerr, wallet_address) act" where
  "address_loop 0 rnd u asset networkName networkID = throwE (Opaque ''GetOrCreateAddress: exhausted retries'')"
| "address_loop (Suc k) rnd u asset networkName networkID =
     bindE (address_attempt rnd u asset networkName networkID) (\<lambda>r.
     case r of Some a \<Rightarrow> returnE a | None \<Rightarrow> address_loop k rnd u asset networkName networkID)"

definition GetOrCreateAddress :: "random_source \<Rightarrow> uuid \<Rightarrow> string \<Rightarrow> string \<Rightarrow> (gerr, wallet_address) act" where
  "GetOrCreateAddress rnd u asset networkName =
     bindE (mapE (not_found_invalid ''GetOrCreateAddress network: '') (catalog_NetworkID asset networkName)) (\<lambda>networkID.
     bindE (tryE (walletStore_GetByUserAssetNetwork u asset networkID)) (\<lambda>r.
     case r of
       Inr existing \<Rightarrow> returnE existing
     | Inl err \<Rightarrow>
         if \<not> errors_is err ErrNotFound then throwE (Wrapped ''GetOrCreateAddress lookup: '' err [])
         else
         bindE (mapE (not_found_invalid ''GetOrCreateAddress account check: '') (AccountID u asset)) (\<lambda>_.
         address_loop 3 rnd u asset networkName networkID)))"

definition ListMyAddresses :: "uuid \<Rightarrow> (gerr, wallet_address list) act" where
  "ListMyAddresses u = walletStore_ListByUser u"

definition GetByAddress :: "string \<Rightarrow> (gerr, wallet_address) act" where
  "GetByAddress address = walletStore_GetByAddress address"

subsection \<open>Facts\<close>

lemma quiet_rand_read [frame]: "quiet (rand_read rnd n)"
  by (auto simp: quiet_def rand_read_def split: option.splits)

lemma quiet_generateMockAddress [frame]: "quiet (generateMockAddress rnd s)"
  unfolding generateMockAddress_def Let_def by (intro frame allI impI conjI)

lemma quiet_wallet [frame]:
  "quiet (walletStore_Create a)" "quiet (walletStore_GetByUserAssetNetwork u asset i)"
  "quiet (walletStore_GetByAddress s)" "quiet (walletStore_ListByUser u)"
  "quiet (ListMyAddresses u)" "quiet (GetByAddress s)"
  by (auto simp: walletStore_Create_def walletStore_GetByUserAssetNetwork_def walletStore_GetByAddress_def
      walletStore_ListByUser_def ListMyAddresses_def GetByAddress_def intro!: frame)

lemma insert_wallet_Inr [ok_simps]:
  "insert_wallet a d = Inr (x, d') \<longleftrightarrow>
     varchar 20 (wa_Asset a) \<and> varchar 255 (wa_Address a) \<and> network_exists (wa_NetworkID a) d \<and>
     (\<forall>r \<in> set (db_wallets d). \<not> (wa_ID a = wa_ID r \<or> wa_Address a = wa_Address r \<or>
        wa_UserID a = wa_UserID r \<and> wa_Asset a = wa_Asset r \<and> wa_NetworkID a = wa_NetworkID r)) \<and>
     d' = d\<lparr>db_wallets := db_wallets d @ [a]\<rparr>"
  unfolding insert_wallet_def sql_insert_case by auto

end
