(* ===== verification/Http.thy ===== *)
theory Http
  imports User Order Wallet Timefmt
begin

text \<open>
  The web layer: requests and handlers, the decoding and validation of a body, internal/auth. A handler
  maps a request to an action that ends in a response; an early return of the Go code is the error of
  the action. go-playground/validator, golang-jwt and the timestamp encoding of pgx are parameters.
\<close>

subsection \<open>Requests and handlers\<close>

text \<open>The values \<open>WithUser\<close> puts into a \<open>context.Context\<close>, each possibly missing.\<close>

record gocontext =
  cx_userID :: "uuid option"
  cx_role :: "string option"

definition Background :: "gocontext" where
  "Background = \<lparr>cx_userID = None, cx_role = None\<rparr>"

text \<open>The body is the first JSON value of the text, if it has one; a missing header or parameter is empty.\<close>

record request =
  rq_auth :: string
  rq_query :: url_query
  rq_param :: "string \<Rightarrow> string"
  rq_body :: "json option"
  rq_ctx :: "gocontext"

type_synonym handler = "request \<Rightarrow> (http_response, http_response) act"

definition serve :: "handler \<Rightarrow> request \<Rightarrow> world \<Rightarrow> http_response \<times> world" where
  "serve h r w = (case h r w of (Inl rs, w') \<Rightarrow> (rs, w') | (Inr rs, w') \<Rightarrow> (rs, w'))"

text \<open>\<open>if err != nil { shared.HandleServiceError(w, err); return }\<close>\<close>

definition svc :: "(gerr, 'a) act \<Rightarrow> (http_response, 'a) act" where
  "svc m = mapE HandleServiceError m"

text \<open>\<open>if err != nil { shared.HTTPError(w, status, msg); return }\<close>, the error itself not being told.\<close>

definition orHTTP :: "nat \<Rightarrow> string \<Rightarrow> 'a option \<Rightarrow> (http_response, 'a) act" where
  "orHTTP status msg x = (case x of None \<Rightarrow> throwE (HTTPError status msg) | Some a \<Rightarrow> returnE a)"

text \<open>\<open>w.WriteHeader(status)\<close> alone.\<close>

definition WriteHeader :: "nat \<Rightarrow> http_response" where
  "WriteHeader status = \<lparr>rs_status = status, rs_body = None\<rparr>"

subsection \<open>Decoding and validating a body\<close>

text \<open>
  A request struct of string fields: the Go name, the JSON name and the validate tag of each. \<open>Decode\<close>
  sets the fields the object has, whatever the case of their names; null leaves a field alone, any
  other value that is not a string is an error, a missing field stays empty.
\<close>

type_synonym struct_spec = "(string \<times> string \<times> string) list"
type_synonym dto = "string \<Rightarrow> string"

definition json_name_eq :: "string \<Rightarrow> string \<Rightarrow> bool" where
  "json_name_eq a b \<longleftrightarrow> map lower_char a = map lower_char b"

fun decode_fields :: "string list \<Rightarrow> (string \<times> json) list \<Rightarrow> dto \<Rightarrow> dto option" where
  "decode_fields names [] x = Some x"
| "decode_fields names ((k, v) # kvs) x =
     (case find (json_name_eq k) names of
        None \<Rightarrow> decode_fields names kvs x
      | Some n \<Rightarrow>
          (case v of
             JNull \<Rightarrow> decode_fields names kvs x
           | JStr s \<Rightarrow> decode_fields names kvs (x(n := s))
           | _ \<Rightarrow> None))"

definition decode_struct :: "struct_spec \<Rightarrow> json \<Rightarrow> dto option" where
  "decode_struct spec v =
     (case v of
        JObj kvs \<Rightarrow> decode_fields (map (\<lambda>(_, n, _). n) spec) kvs (\<lambda>_. [])
      | JNull \<Rightarrow> Some (\<lambda>_. [])
      | _ \<Rightarrow> None)"

text \<open>\<open>v.Struct(s)\<close> is given the name, tag and value of each field, and tells the first field and tag that fail.\<close>

type_synonym validator = "(string \<times> string \<times> string) list \<Rightarrow> (string \<times> string) option"

definition validate_Struct :: "validator \<Rightarrow> struct_spec \<Rightarrow> dto \<Rightarrow> string option" where
  "validate_Struct v spec x =
     (case v (map (\<lambda>(f, n, tag). (f, tag, x n)) spec) of
        None \<Rightarrow> None
      | Some (field, tag) \<Rightarrow> Some (field @ '' is '' @ tag))"

text \<open>What the documentation of the validator says of the tag \<open>required\<close>: the value is not empty.\<close>

definition checks_required :: "validator \<Rightarrow> bool" where
  "checks_required v \<longleftrightarrow>
     (\<forall>fs f tag. v fs = None \<longrightarrow> (f, tag, []) \<in> set fs \<longrightarrow> ''required'' \<notin> set (split_on CHR '','' tag))"

definition decode_valid :: "validator \<Rightarrow> struct_spec \<Rightarrow> request \<Rightarrow> (http_response, dto) act" where
  "decode_valid v spec r =
     bindE (orHTTP 400 ''invalid request body'' (Option.bind (rq_body r) (decode_struct spec))) (\<lambda>x.
     case validate_Struct v spec x of
       Some msg \<Rightarrow> throwE (HTTPError 400 msg)
     | None \<Rightarrow> returnE x)"

subsection \<open>The user of a request (auth/context.go)\<close>

definition ErrNoUserInContext :: gerr where "ErrNoUserInContext = Opaque ''no user_id in context''"

definition WithUser :: "gocontext \<Rightarrow> uuid \<Rightarrow> string \<Rightarrow> gocontext" where
  "WithUser ctx userID role = ctx\<lparr>cx_userID := Some userID, cx_role := Some role\<rparr>"

definition UserIDFromContext :: "gocontext \<Rightarrow> gerr + uuid" where
  "UserIDFromContext ctx = (case cx_userID ctx of None \<Rightarrow> Inl ErrNoUserInContext | Some u \<Rightarrow> Inr u)"

definition RoleFromContext :: "gocontext \<Rightarrow> string" where
  "RoleFromContext ctx = (case cx_role ctx of None \<Rightarrow> [] | Some role \<Rightarrow> role)"

definition IsAdmin :: "gocontext \<Rightarrow> bool" where
  "IsAdmin ctx \<longleftrightarrow> RoleFromContext ctx = ''ADMIN''"

text \<open>The handlers that need the user: 401 without one.\<close>

definition need_user :: "request \<Rightarrow> (http_response, uuid) act" where
  "need_user r =
     (case UserIDFromContext (rq_ctx r) of
        Inl _ \<Rightarrow> throwE (HTTPError 401 ''unauthenticated'')
      | Inr u \<Rightarrow> returnE u)"

subsection \<open>Tokens (auth/jwt.go)\<close>

datatype jwt_method = MethodHMAC string | MethodOther string

type_synonym jwt_claims = "(string \<times> json) list"

text \<open>
  golang-jwt: signing with HS256, and \<open>jwt.Parse\<close> with a function from the method of the token to the
  key, at a time; its result says whether the token is valid and holds the claims, if they are MapClaims.
\<close>

record jwt =
  jwt_SignedString :: "string \<Rightarrow> jwt_claims \<Rightarrow> gerr + string"
  jwt_Parse :: "(jwt_method \<Rightarrow> gerr + string) \<Rightarrow> gotime \<Rightarrow> string \<Rightarrow> gerr + (bool \<times> jwt_claims option)"

text \<open>
  The documented behaviour the code relies on, for the only claims it signs (the user, the role, the
  time of issue and the expiry): such a token parses, with the key it was signed with, to claims
  that have its user and role until \<open>exp\<close>, in seconds, is reached, and is an error from then on. Text
  goes through JSON, which keeps ASCII as it is. Nothing is assumed of tokens with other claims, such as
  \<open>nbf\<close>, which the library would check too.
\<close>

definition ascii_text :: "string \<Rightarrow> bool" where
  "ascii_text s \<longleftrightarrow> (\<forall>c \<in> set s. (of_char c :: nat) < 128)"

definition jwt_ok :: "jwt \<Rightarrow> bool" where
  "jwt_ok j \<longleftrightarrow>
     (\<forall>secret sub role iat e token keyf now.
        jwt_SignedString j secret [(''sub'', JStr sub), (''role'', JStr role), (''iat'', JInt iat), (''exp'', JInt e)] = Inr token \<longrightarrow>
        keyf (MethodHMAC ''HS256'') = Inr secret \<longrightarrow> ascii_text sub \<longrightarrow> ascii_text role \<longrightarrow> 0 < e \<longrightarrow> e < 2 ^ 53 \<longrightarrow>
        (now < e * 1000000 \<longrightarrow>
           (\<exists>mc. jwt_Parse j keyf now token = Inr (True, Some mc) \<and>
              map_of mc ''sub'' = Some (JStr sub) \<and> map_of mc ''role'' = Some (JStr role))) \<and>
        (e * 1000000 \<le> now \<longrightarrow> isl (jwt_Parse j keyf now token)))"

definition DefaultTTL :: int where "DefaultTTL = 24 * 3600 * 1000000"

definition ErrInvalidToken :: gerr where "ErrInvalidToken = Opaque ''invalid token''"

record Claims =
  cl_UserID :: uuid
  cl_Role :: string

record signer =
  sg_secret :: string
  sg_ttl :: int

definition NewSigner :: "string \<Rightarrow> signer" where
  "NewSigner secret = \<lparr>sg_secret = secret, sg_ttl = DefaultTTL\<rparr>"

definition Unix :: "gotime \<Rightarrow> int" where "Unix t = t div 1000000"

definition signed_claims :: "deps \<Rightarrow> signer \<Rightarrow> uuid \<Rightarrow> string \<Rightarrow> gotime \<Rightarrow> jwt_claims" where
  "signed_claims dp s userID role now =
     [(''sub'', JStr (dp_uuid_str dp userID)), (''role'', JStr role), (''iat'', JInt (Unix now)),
      (''exp'', JInt (Unix (now + sg_ttl s)))]"

definition Sign :: "jwt \<Rightarrow> deps \<Rightarrow> signer \<Rightarrow> uuid \<Rightarrow> string \<Rightarrow> (gerr, string) act" where
  "Sign j dp s userID role =
     bindE Now (\<lambda>now. wrapE ''auth.Sign: '' (liftE (jwt_SignedString j (sg_secret s) (signed_claims dp s userID role now))))"

definition keyfunc :: "signer \<Rightarrow> jwt_method \<Rightarrow> gerr + string" where
  "keyfunc s m =
     (case m of
        MethodHMAC _ \<Rightarrow> Inr (sg_secret s)
      | MethodOther alg \<Rightarrow> Inl (Opaque (''unexpected signing method: '' @ alg)))"

definition claim_text :: "jwt_claims \<Rightarrow> string \<Rightarrow> string" where
  "claim_text mc k = (case map_of mc k of Some (JStr s) \<Rightarrow> s | _ \<Rightarrow> [])"

definition verified_claims :: "deps \<Rightarrow> gerr + (bool \<times> jwt_claims option) \<Rightarrow> gerr + Claims" where
  "verified_claims dp parsed =
     (case parsed of
        Inl _ \<Rightarrow> Inl ErrInvalidToken
      | Inr (valid, claims) \<Rightarrow>
          if \<not> valid then Inl ErrInvalidToken
          else (case claims of
                  None \<Rightarrow> Inl ErrInvalidToken
                | Some mc \<Rightarrow>
                    (case dp_uuid_parse dp (claim_text mc ''sub'') of
                       None \<Rightarrow> Inl ErrInvalidToken
                     | Some i \<Rightarrow>
                         if claim_text mc ''role'' = [] then Inl ErrInvalidToken
                         else Inr \<lparr>cl_UserID = i, cl_Role = claim_text mc ''role''\<rparr>)))"

text \<open>\<open>jwt.Parse\<close> reads the clock.\<close>

definition Verify :: "jwt \<Rightarrow> deps \<Rightarrow> signer \<Rightarrow> string \<Rightarrow> (gerr, Claims) act" where
  "Verify j dp s token = bindE Now (\<lambda>now. liftE (verified_claims dp (jwt_Parse j (keyfunc s) now token)))"

subsection \<open>Middleware (auth/middleware.go)\<close>

definition Middleware :: "jwt \<Rightarrow> deps \<Rightarrow> signer \<Rightarrow> handler \<Rightarrow> handler" where
  "Middleware j dp s next r =
     (let h = rq_auth r in
      if h = [] \<or> take 7 h \<noteq> ''Bearer ''
      then throwE (HTTPError 401 ''missing or malformed Authorization header'')
      else
       bindE (tryE (Verify j dp s (drop 7 h))) (\<lambda>c.
       case c of
         Inl _ \<Rightarrow> throwE (HTTPError 401 ''invalid or expired token'')
       | Inr claims \<Rightarrow> next (r\<lparr>rq_ctx := WithUser (rq_ctx r) (cl_UserID claims) (cl_Role claims)\<rparr>)))"

definition RequireAdmin :: "handler \<Rightarrow> handler" where
  "RequireAdmin next r =
     (if \<not> IsAdmin (rq_ctx r) then throwE (HTTPError 403 ''admin role required'') else next r)"

subsection \<open>The third-party functions together\<close>

text \<open>\<open>wb_timestamp\<close>: what pgx sends for a parsed time, a clock reading with an offset.\<close>

record web =
  wb_dp :: deps
  wb_jwt :: jwt
  wb_bcrypt :: bcrypt
  wb_validate :: validator
  wb_regexp :: regexp
  wb_random :: random_source
  wb_timestamp :: "gotime \<times> int \<Rightarrow> gotime"

text \<open>\<open>uuid.Parse(chi.URLParam(r, name))\<close>, 400 when it is not a UUID.\<close>

definition uuid_param :: "web \<Rightarrow> string \<Rightarrow> string \<Rightarrow> request \<Rightarrow> (http_response, uuid) act" where
  "uuid_param wb name msg r = orHTTP 400 msg (dp_uuid_parse (wb_dp wb) (rq_param r name))"

definition json_uuid :: "web \<Rightarrow> uuid \<Rightarrow> json" where
  "json_uuid wb u = JStr (dp_uuid_str (wb_dp wb) u)"

definition json_time :: "gotime \<Rightarrow> json" where
  "json_time t = JStr (FormatRFC3339 t)"

end
