(* ===== verification/Ledger_Handler.thy ===== *)
theory Ledger_Handler
  imports Http
begin

text \<open>internal/ledger/handler.go: the filter of the query string, the user's own ledger, the admin's view.\<close>

definition toLedgerEntryResponse :: "web \<Rightarrow> pgnumeric ledger_entry \<Rightarrow> json" where
  "toLedgerEntryResponse wb e =
     JObj [(''id'', json_uuid wb (le_ID e)), (''asset'', JStr (le_Asset e)), (''amount'', JStr (num_String (le_Amount e))),
           (''entry_type'', JStr (le_EntryType e)), (''ref_type'', JStr (le_RefType e)), (''ref_id'', json_uuid wb (le_RefID e)),
           (''created_at'', json_time (le_CreatedAt e))]"

definition validEntryTypes :: "string list" where
  "validEntryTypes = [EntryTypeReserve, EntryTypeRelease, EntryTypeTrade, EntryTypeDeposit, EntryTypeWithdraw]"

definition errBadEntryType :: "string \<Rightarrow> gerr" where "errBadEntryType v = Opaque (''invalid entry_type: '' @ v)"
definition errBadTime :: "string \<Rightarrow> gerr" where "errBadTime field = Opaque (''invalid '' @ field @ '' (expected RFC3339)'')"

fun parse_entry_types :: "string list \<Rightarrow> gerr + string list" where
  "parse_entry_types [] = Inr []"
| "parse_entry_types (p # ps) =
     (let part = TrimSpace (ToUpper p) in
      if part = [] then parse_entry_types ps
      else if part \<notin> set validEntryTypes then Inl (errBadEntryType part)
      else (case parse_entry_types ps of Inl e \<Rightarrow> Inl e | Inr ts \<Rightarrow> Inr (part # ts)))"

definition parse_time_filter :: "web \<Rightarrow> string \<Rightarrow> url_query \<Rightarrow> gerr + gotime option" where
  "parse_time_filter wb field q =
     (if q field = [] then Inr None
      else (case ParseRFC3339 (q field) of None \<Rightarrow> Inl (errBadTime field) | Some t \<Rightarrow> Inr (Some (wb_timestamp wb t))))"

definition parseListFilter :: "web \<Rightarrow> url_query \<Rightarrow> uuid \<Rightarrow> gerr + list_filter" where
  "parseListFilter wb q userID =
     (case ParsePagination q of (limit, offset) \<Rightarrow>
      case (if q ''entry_type'' = [] then Inr [] else parse_entry_types (split_on CHR '','' (q ''entry_type''))) of
        Inl e \<Rightarrow> Inl e
      | Inr types \<Rightarrow>
      (case parse_time_filter wb ''from'' q of
        Inl e \<Rightarrow> Inl e
      | Inr from_t \<Rightarrow>
      (case parse_time_filter wb ''to'' q of
        Inl e \<Rightarrow> Inl e
      | Inr to_t \<Rightarrow>
          Inr \<lparr>lf_UserID = userID, lf_Asset = TrimSpace (q ''asset''), lf_EntryTypes = types, lf_From = from_t, lf_To = to_t,
               lf_Limit = limit, lf_Offset = offset\<rparr>)))"

text \<open>\<open>shared.HTTPError(w, 400, err.Error())\<close>\<close>

definition bad_request :: "gerr \<Rightarrow> http_response" where
  "bad_request err = HTTPError 400 (error_text err)"

definition respondList :: "web \<Rightarrow> list_filter \<Rightarrow> (http_response, http_response) act" where
  "respondList wb f =
     bindE (svc (ledgerService_ListByUser (wb_dp wb) f)) (\<lambda>entries.
     bindE (svc (ledgerService_CountByUser f)) (\<lambda>total.
     returnE (WriteJSON 200 (JObj
       [(''items'', JArr (map (toLedgerEntryResponse wb) entries)), (''limit'', JInt (lf_Limit f)),
        (''offset'', JInt (lf_Offset f)), (''total'', JInt total)]))))"

definition ledgerHandler_ListMine :: "web \<Rightarrow> handler" where
  "ledgerHandler_ListMine wb r =
     bindE (need_user r) (\<lambda>userID.
     bindE (mapE bad_request (liftE (parseListFilter wb (rq_query r) userID))) (respondList wb))"

definition ledgerHandler_AdminList :: "web \<Rightarrow> handler" where
  "ledgerHandler_AdminList wb r =
     (if \<not> IsAdmin (rq_ctx r) then throwE (HTTPError 403 ''admin required'')
      else if rq_query r ''user_id'' = [] then throwE (HTTPError 400 ''user_id is required'')
      else
       bindE (orHTTP 400 ''invalid user_id'' (dp_uuid_parse (wb_dp wb) (rq_query r ''user_id''))) (\<lambda>userID.
       bindE (mapE bad_request (liftE (parseListFilter wb (rq_query r) userID))) (respondList wb)))"

text \<open>The filter a query string gives: only known entry types, a page within bounds.\<close>

lemma parse_entry_types_closed: "parse_entry_types ps = Inr ts \<Longrightarrow> set ts \<subseteq> set validEntryTypes"
  by (induction ps arbitrary: ts) (auto simp: Let_def split: if_splits sum.splits)

lemma parseListFilter_ok:
  assumes "parseListFilter wb q u = Inr f"
  shows "lf_UserID f = u \<and> set (lf_EntryTypes f) \<subseteq> set validEntryTypes \<and> 1 \<le> lf_Limit f \<and> lf_Limit f \<le> 100 \<and> 0 \<le> lf_Offset f
    \<and> TrimSpace (lf_Asset f) = lf_Asset f"
proof -
  obtain limit offset where p: "ParsePagination q = (limit, offset)" by fastforce
  note b = ParsePagination_bounds [OF p]
  show ?thesis
    using assms b by (auto simp: parseListFilter_def p split: sum.splits if_splits dest!: parse_entry_types_closed)
qed

end
