(* ===== verification/Order_Handler.thy ===== *)
theory Order_Handler
  imports Http Trade
begin

text \<open>internal/order/handler.go and internal/trade/handler.go.\<close>

subsection \<open>order/handler.go\<close>

definition PlaceOrderRequest :: struct_spec where
  "PlaceOrderRequest =
     [(''Symbol'', ''symbol'', ''required,max=20''), (''Side'', ''side'', ''required,oneof=BUY SELL''),
      (''Price'', ''price'', ''required''), (''Quantity'', ''quantity'', ''required''),
      (''IdempotencyKey'', ''idempotency_key'', ''required,max=100'')]"

definition ToOrderResponse :: "web \<Rightarrow> pgnumeric order_rec \<Rightarrow> json" where
  "ToOrderResponse wb x =
     JObj [(''id'', json_uuid wb (o_ID x)), (''user_id'', json_uuid wb (o_UserID x)), (''symbol'', JStr (o_Symbol x)),
           (''side'', JStr (o_Side x)), (''price'', JStr (num_String (o_Price x))), (''quantity'', JStr (num_String (o_Quantity x))),
           (''filled_quantity'', JStr (num_String (o_FilledQuantity x))), (''status'', JStr (o_Status x)),
           (''created_at'', json_time (o_CreatedAt x)), (''updated_at'', json_time (o_UpdatedAt x))]"

text \<open>\<open>numeric.Parse\<close> of a field, 400 with the message when it is not a number.\<close>

definition parse_num :: "web \<Rightarrow> string \<Rightarrow> string \<Rightarrow> (http_response, pgnumeric) act" where
  "parse_num wb msg s = mapE (\<lambda>_. HTTPError 400 msg) (liftE (num_Parse (dp_scan (wb_dp wb)) s))"

text \<open>A duplicate key is answered with 200 and no body.\<close>

definition svc_once :: "(gerr, 'a) act \<Rightarrow> (http_response, 'a) act" where
  "svc_once m =
     mapE (\<lambda>err. if errors_is err ErrDuplicateIdempotencyKey then WriteHeader 200 else HandleServiceError err) m"

definition ensureOwner :: "gocontext \<Rightarrow> uuid \<Rightarrow> gerr + unit" where
  "ensureOwner ctx ownerID =
     (if IsAdmin ctx then Inr ()
      else (case UserIDFromContext ctx of
              Inl _ \<Rightarrow> Inl (Sentinel ErrUnauthorized)
            | Inr uid \<Rightarrow> if uid \<noteq> ownerID then Inl (Sentinel ErrForbidden) else Inr ()))"

definition orderHandler_PlaceOrder :: "web \<Rightarrow> string list \<Rightarrow> handler" where
  "orderHandler_PlaceOrder wb markets r =
     bindE (decode_valid (wb_validate wb) PlaceOrderRequest r) (\<lambda>req.
     bindE (need_user r) (\<lambda>userID.
     bindE (parse_num wb ''invalid price'' (req ''price'')) (\<lambda>price.
     bindE (parse_num wb ''invalid quantity'' (req ''quantity'')) (\<lambda>qty.
     bindE (svc_once (PlaceOrder (wb_dp wb) markets
       \<lparr>po_UserID = userID, po_Symbol = req ''symbol'', po_Side = req ''side'', po_Price = price, po_Quantity = qty,
        po_IdempotencyKey = req ''idempotency_key''\<rparr>)) (\<lambda>x.
     returnE (WriteJSON 201 (ToOrderResponse wb x)))))))"

definition orderHandler_GetOrder :: "web \<Rightarrow> handler" where
  "orderHandler_GetOrder wb r =
     bindE (uuid_param wb ''id'' ''invalid order id'' r) (\<lambda>i.
     bindE (svc (GetOrder (wb_dp wb) i)) (\<lambda>x.
     bindE (svc (liftE (ensureOwner (rq_ctx r) (o_UserID x)))) (\<lambda>_.
     returnE (WriteJSON 200 (ToOrderResponse wb x)))))"

definition orderHandler_CancelOrder :: "web \<Rightarrow> handler" where
  "orderHandler_CancelOrder wb r =
     bindE (uuid_param wb ''id'' ''invalid order id'' r) (\<lambda>i.
     bindE (svc (GetOrder (wb_dp wb) i)) (\<lambda>existing.
     bindE (svc (liftE (ensureOwner (rq_ctx r) (o_UserID existing)))) (\<lambda>_.
     bindE (svc (CancelOrder (wb_dp wb) i)) (\<lambda>x.
     returnE (WriteJSON 200 (ToOrderResponse wb x))))))"

definition orderHandler_ListByUser :: "web \<Rightarrow> handler" where
  "orderHandler_ListByUser wb r =
     bindE (uuid_param wb ''userID'' ''invalid user id'' r) (\<lambda>userID.
     bindE (svc (liftE (ensureOwner (rq_ctx r) userID))) (\<lambda>_.
     case ParsePagination (rq_query r) of (limit, offset) \<Rightarrow>
     bindE (svc (ListOrders (wb_dp wb) userID limit offset)) (\<lambda>orders.
     returnE (WriteJSON 200 (JArr (map (ToOrderResponse wb) orders))))))"

subsection \<open>trade/handler.go\<close>

definition ExecuteTradeRequest :: struct_spec where
  "ExecuteTradeRequest =
     [(''Symbol'', ''symbol'', ''required,max=20''), (''BuyOrderID'', ''buy_order_id'', ''required,uuid''),
      (''SellOrderID'', ''sell_order_id'', ''required,uuid''), (''Price'', ''price'', ''required''),
      (''Quantity'', ''quantity'', ''required''), (''IdempotencyKey'', ''idempotency_key'', ''required,max=100'')]"

definition toUserTradeResponse :: "web \<Rightarrow> pgnumeric user_trade \<Rightarrow> json" where
  "toUserTradeResponse wb t =
     JObj [(''id'', json_uuid wb (ut_ID t)), (''symbol'', JStr (ut_Symbol t)), (''side'', JStr (ut_Side t)),
           (''price'', JStr (num_String (ut_Price t))), (''quantity'', JStr (num_String (ut_Quantity t))),
           (''counterparty_user_id'', json_uuid wb (ut_CounterpartyUserID t)), (''created_at'', json_time (ut_CreatedAt t))]"

definition ToTradeResponse :: "web \<Rightarrow> pgnumeric trade_rec \<Rightarrow> json" where
  "ToTradeResponse wb t =
     JObj [(''id'', json_uuid wb (t_ID t)), (''symbol'', JStr (t_Symbol t)), (''buy_order_id'', json_uuid wb (t_BuyOrderID t)),
           (''sell_order_id'', json_uuid wb (t_SellOrderID t)), (''buy_user_id'', json_uuid wb (t_BuyUserID t)),
           (''sell_user_id'', json_uuid wb (t_SellUserID t)), (''price'', JStr (num_String (t_Price t))),
           (''quantity'', JStr (num_String (t_Quantity t))), (''created_at'', json_time (t_CreatedAt t))]"

definition ensureTradeOwner :: "gocontext \<Rightarrow> uuid \<Rightarrow> gerr + unit" where
  "ensureTradeOwner ctx userID =
     (if IsAdmin ctx then Inr ()
      else (case UserIDFromContext ctx of
              Inl _ \<Rightarrow> Inl (Sentinel ErrUnauthorized)
            | Inr uid \<Rightarrow> if uid \<noteq> userID then Inl (Sentinel ErrForbidden) else Inr ()))"

definition tradeHandler_ListByUser :: "web \<Rightarrow> handler" where
  "tradeHandler_ListByUser wb r =
     bindE (uuid_param wb ''userID'' ''invalid user id'' r) (\<lambda>userID.
     bindE (svc (liftE (ensureTradeOwner (rq_ctx r) userID))) (\<lambda>_.
     case ParsePagination (rq_query r) of (limit, offset) \<Rightarrow>
     bindE (svc (trade_ListByUser (wb_dp wb) userID (rq_query r ''symbol'') limit offset)) (\<lambda>trades.
     returnE (WriteJSON 200 (JArr (map (toUserTradeResponse wb) trades))))))"

definition tradeHandler_ExecuteTrade :: "web \<Rightarrow> handler" where
  "tradeHandler_ExecuteTrade wb r =
     bindE (decode_valid (wb_validate wb) ExecuteTradeRequest r) (\<lambda>req.
     bindE (orHTTP 400 ''invalid buy_order_id'' (dp_uuid_parse (wb_dp wb) (req ''buy_order_id''))) (\<lambda>buyID.
     bindE (orHTTP 400 ''invalid sell_order_id'' (dp_uuid_parse (wb_dp wb) (req ''sell_order_id''))) (\<lambda>sellID.
     bindE (parse_num wb ''invalid price'' (req ''price'')) (\<lambda>price.
     bindE (parse_num wb ''invalid quantity'' (req ''quantity'')) (\<lambda>qty.
     bindE (svc_once (ExecuteTrade (wb_dp wb)
       \<lparr>tc_Symbol = req ''symbol'', tc_BuyOrderID = buyID, tc_SellOrderID = sellID, tc_Price = price, tc_Quantity = qty,
        tc_IdempotencyKey = req ''idempotency_key''\<rparr>)) (\<lambda>t.
     returnE (WriteJSON 201 (ToTradeResponse wb t))))))))"

end
