(* ===== verification/User_Handler.thy ===== *)
theory User_Handler
  imports Http
begin

text \<open>internal/user/handler.go, internal/account/handler.go and internal/asset/handler.go.\<close>

subsection \<open>user/handler.go\<close>

definition LoginRequest :: struct_spec where
  "LoginRequest = [(''Email'', ''email'', ''required,email''), (''Password'', ''password'', ''required'')]"

definition CreateUserRequest :: struct_spec where
  "CreateUserRequest =
     [(''Email'', ''email'', ''required,email''), (''Username'', ''username'', ''required,min=3,max=100''),
      (''FullName'', ''full_name'', ''required,max=255''), (''Password'', ''password'', ''required,min=8'')]"

definition ToUserResponse :: "web \<Rightarrow> user_rec \<Rightarrow> json" where
  "ToUserResponse wb u =
     JObj [(''id'', json_uuid wb (u_ID u)), (''email'', JStr (u_Email u)), (''username'', JStr (u_Username u)),
           (''full_name'', JStr (u_FullName u)), (''status'', JStr (u_Status u)), (''role'', JStr (u_Role u)),
           (''created_at'', json_time (u_CreatedAt u)), (''updated_at'', json_time (u_UpdatedAt u))]"

definition LoginResponse :: "web \<Rightarrow> string \<Rightarrow> user_rec \<Rightarrow> json" where
  "LoginResponse wb token u = JObj [(''token'', JStr token), (''user'', ToUserResponse wb u)]"

definition userHandler_Login :: "web \<Rightarrow> signer \<Rightarrow> handler" where
  "userHandler_Login wb s r =
     bindE (decode_valid (wb_validate wb) LoginRequest r) (\<lambda>req.
     bindE (svc (Login (wb_bcrypt wb) (req ''email'') (req ''password''))) (\<lambda>u.
     bindE (mapE (\<lambda>_. HTTPError 500 ''failed to sign token'') (Sign (wb_jwt wb) (wb_dp wb) s (u_ID u) (u_Role u))) (\<lambda>token.
     returnE (WriteJSON 200 (LoginResponse wb token u)))))"

definition userHandler_Me :: "web \<Rightarrow> handler" where
  "userHandler_Me wb r =
     bindE (need_user r) (\<lambda>userID.
     bindE (svc (GetUser userID)) (\<lambda>u.
     returnE (WriteJSON 200 (ToUserResponse wb u))))"

definition userHandler_CreateUser :: "web \<Rightarrow> provisioner \<Rightarrow> handler" where
  "userHandler_CreateUser wb provision r =
     bindE (decode_valid (wb_validate wb) CreateUserRequest r) (\<lambda>req.
     bindE (svc (CreateUser (wb_bcrypt wb) provision
       \<lparr>uc_Email = req ''email'', uc_Username = req ''username'', uc_FullName = req ''full_name'', uc_Password = req ''password''\<rparr>)) (\<lambda>u.
     returnE (WriteJSON 201 (ToUserResponse wb u))))"

definition userHandler_GetUser :: "web \<Rightarrow> handler" where
  "userHandler_GetUser wb r =
     bindE (uuid_param wb ''id'' ''invalid user id'' r) (\<lambda>i.
     bindE (svc (GetUser i)) (\<lambda>u.
     returnE (WriteJSON 200 (ToUserResponse wb u))))"

definition userHandler_ListUsers :: "web \<Rightarrow> handler" where
  "userHandler_ListUsers wb r =
     (case ParsePagination (rq_query r) of (limit, offset) \<Rightarrow>
     bindE (svc (ListUsers limit offset)) (\<lambda>users.
     returnE (WriteJSON 200 (JArr (map (ToUserResponse wb) users)))))"

definition userHandler_DeleteUser :: "web \<Rightarrow> handler" where
  "userHandler_DeleteUser wb r =
     bindE (uuid_param wb ''id'' ''invalid user id'' r) (\<lambda>i.
     bindE (svc (DeleteUser i)) (\<lambda>_.
     returnE (WriteHeader 204)))"

subsection \<open>account/handler.go\<close>

definition ToAccountResponse :: "web \<Rightarrow> account_rec \<Rightarrow> string \<Rightarrow> json" where
  "ToAccountResponse wb acct bal =
     JObj [(''id'', json_uuid wb (a_ID acct)), (''user_id'', json_uuid wb (a_UserID acct)), (''asset'', JStr (a_Asset acct)),
           (''balance'', JStr bal), (''created_at'', json_time (a_CreatedAt acct))]"

text \<open>\<open>bal, _ := GetBalance(...)\<close>: the empty string when it fails.\<close>

definition balance_or_empty :: "web \<Rightarrow> uuid \<Rightarrow> string \<Rightarrow> (http_response, string) act" where
  "balance_or_empty wb u asset =
     bindE (tryE (GetBalance (wb_dp wb) u asset)) (\<lambda>r :: gerr + string. returnE (case r of Inl _ \<Rightarrow> [] | Inr b \<Rightarrow> b))"

fun account_responses :: "web \<Rightarrow> account_rec list \<Rightarrow> (http_response, json list) act" where
  "account_responses wb [] = returnE []"
| "account_responses wb (a # as) =
     bindE (balance_or_empty wb (a_UserID a) (a_Asset a)) (\<lambda>bal.
     bindE (account_responses wb as) (\<lambda>resp. returnE (ToAccountResponse wb a bal # resp)))"

definition accountHandler_ListMyAssets :: "web \<Rightarrow> handler" where
  "accountHandler_ListMyAssets wb r =
     bindE (need_user r) (\<lambda>userID.
     case ParsePagination (rq_query r) of (limit, offset) \<Rightarrow>
     bindE (svc (ListAccounts (Some userID) limit offset)) (\<lambda>accounts.
     bindE (account_responses wb accounts) (\<lambda>resp.
     returnE (WriteJSON 200 (JArr resp)))))"

definition accountHandler_GetMyAsset :: "web \<Rightarrow> handler" where
  "accountHandler_GetMyAsset wb r =
     bindE (need_user r) (\<lambda>userID.
     bindE (svc (AccountID userID (rq_param r ''symbol''))) (\<lambda>acctID.
     bindE (svc (GetAccount acctID)) (\<lambda>acct.
     bindE (balance_or_empty wb userID (rq_param r ''symbol'')) (\<lambda>bal.
     returnE (WriteJSON 200 (ToAccountResponse wb acct bal))))))"

definition accountHandler_GetMyBalance :: "web \<Rightarrow> handler" where
  "accountHandler_GetMyBalance wb r =
     bindE (need_user r) (\<lambda>userID.
     bindE (svc (GetBalance (wb_dp wb) userID (rq_param r ''symbol''))) (\<lambda>bal.
     returnE (WriteJSON 200 (JObj [(''asset'', JStr (rq_param r ''symbol'')), (''balance'', JStr bal)]))))"

definition accountHandler_adminListAccounts :: "web \<Rightarrow> handler" where
  "accountHandler_adminListAccounts wb r =
     (if \<not> IsAdmin (rq_ctx r) then throwE (HTTPError 403 ''admin required'')
      else
      case ParsePagination (rq_query r) of (limit, offset) \<Rightarrow>
      bindE (if rq_query r ''user_id'' = [] then returnE None
             else bindE (orHTTP 400 ''invalid user_id'' (dp_uuid_parse (wb_dp wb) (rq_query r ''user_id''))) (\<lambda>u. returnE (Some u))) (\<lambda>userID.
      bindE (svc (ListAccounts userID limit offset)) (\<lambda>accounts.
      bindE (account_responses wb accounts) (\<lambda>resp.
      returnE (WriteJSON 200 (JArr resp))))))"

subsection \<open>asset/handler.go\<close>

definition toAssetResponse :: "string asset_rec \<Rightarrow> json" where
  "toAssetResponse a =
     JObj [(''symbol'', JStr (as_Symbol a)), (''name'', JStr (as_Name a)), (''decimals'', JInt (as_Decimals a)),
           (''min_deposit'', JStr (as_MinDeposit a)), (''min_withdrawal'', JStr (as_MinWithdrawal a)),
           (''enabled'', JBool (as_Enabled a)), (''created_at'', json_time (as_CreatedAt a))]"

text \<open>A field tagged \<open>omitempty\<close> is left out when it is the empty string.\<close>

definition omitempty :: "string \<Rightarrow> string \<Rightarrow> (string \<times> json) list" where
  "omitempty k s = (if s = [] then [] else [(k, JStr s)])"

definition toNetworkResponse :: "web \<Rightarrow> string network_rec \<Rightarrow> json" where
  "toNetworkResponse wb n =
     JObj ([(''id'', json_uuid wb (n_ID n)), (''asset_symbol'', JStr (n_AssetSymbol n)), (''name'', JStr (n_Name n))] @
           omitempty ''chain_id'' (n_ChainID n) @ omitempty ''address_pattern'' (n_AddressPattern n) @
           [(''withdrawal_fee'', JStr (n_WithdrawalFee n)), (''min_confirmations'', JInt (n_MinConfirmations n)),
            (''enabled'', JBool (n_Enabled n))])"

definition assetHandler_ListAssets :: handler where
  "assetHandler_ListAssets r =
     bindE (svc asset_ListAssets) (\<lambda>assets. returnE (WriteJSON 200 (JArr (map toAssetResponse assets))))"

definition assetHandler_GetAsset :: handler where
  "assetHandler_GetAsset r =
     bindE (svc (asset_GetAsset (rq_param r ''symbol''))) (\<lambda>a. returnE (WriteJSON 200 (toAssetResponse a)))"

definition assetHandler_ListNetworks :: "web \<Rightarrow> handler" where
  "assetHandler_ListNetworks wb r =
     bindE (svc (asset_ListNetworks (rq_param r ''symbol''))) (\<lambda>networks.
     returnE (WriteJSON 200 (JArr (map (toNetworkResponse wb) networks))))"

end
