(* ===== verification/Deposit.thy ===== *)
theory Deposit
  imports Wallet
begin

text \<open>
  internal/deposit: a deposit is taken in as PENDING, then confirmed, which credits its user, or
  rejected. In the sandbox a user may run intake and confirmation on an own address.
\<close>

subsection \<open>Store (deposit/store.go)\<close>

definition deposit_status_ok :: "string \<Rightarrow> bool" where
  "deposit_status_ok s \<longleftrightarrow> s \<in> {DepositPending, DepositConfirmed, DepositRejected}"

definition insert_deposit :: "pgnumeric deposit_rec \<Rightarrow> db \<Rightarrow> db_error + unit \<times> db" where
  "insert_deposit x d =
     (case num_row (d_Amount x) of Inl e \<Rightarrow> Inl e | Inr amt \<Rightarrow>
      case sql_insert (varchar 20 (d_Asset x) \<and> varchar 255 (d_Address x) \<and> varchar 255 (d_TxHash x) \<and>
              deposit_status_ok (d_Status x) \<and> network_exists (d_NetworkID x) d)
             (\<lambda>r s. d_ID r = d_ID s \<or> d_TxHash r = d_TxHash s)
             \<lparr>d_ID = d_ID x, d_UserID = d_UserID x, d_Asset = d_Asset x, d_NetworkID = d_NetworkID x, d_Address = d_Address x,
              d_Amount = amt, d_TxHash = d_TxHash x, d_Status = d_Status x, d_CreatedAt = d_CreatedAt x, d_ConfirmedAt = None\<rparr>
             (db_deposits d) of
        Inl e \<Rightarrow> Inl e
      | Inr rows \<Rightarrow> Inr ((), d\<lparr>db_deposits := rows\<rparr>))"

definition depositStore_Create :: "pgnumeric deposit_rec \<Rightarrow> (gerr, unit) act" where
  "depositStore_Create x = mapE (conflict_err ''depositStore.Create: '') (tx_exec (\<lambda>d _. insert_deposit x d))"

definition scanDeposit :: "deps \<Rightarrow> sqlnum deposit_rec \<Rightarrow> pgnumeric deposit_rec" where
  "scanDeposit dp r =
     \<lparr>d_ID = d_ID r, d_UserID = d_UserID r, d_Asset = d_Asset r, d_NetworkID = d_NetworkID r, d_Address = d_Address r,
      d_Amount = dp_num dp (d_Amount r), d_TxHash = d_TxHash r, d_Status = d_Status r, d_CreatedAt = d_CreatedAt r,
      d_ConfirmedAt = d_ConfirmedAt r\<rparr>"

definition deposits_by_id :: "uuid \<Rightarrow> db \<Rightarrow> sqlnum deposit_rec list" where
  "deposits_by_id i d = filter (\<lambda>r. d_ID r = i) (db_deposits d)"

definition depositStore_GetByID :: "deps \<Rightarrow> uuid \<Rightarrow> (gerr, pgnumeric deposit_rec) act" where
  "depositStore_GetByID dp i =
     mapE (row_err ''depositStore.GetByID: '') (pool_query_row (\<lambda>d. map (scanDeposit dp) (deposits_by_id i d)))"

definition depositStore_GetByIDTx :: "deps \<Rightarrow> uuid \<Rightarrow> (gerr, pgnumeric deposit_rec) act" where
  "depositStore_GetByIDTx dp i =
     mapE (row_err ''depositStore.GetByIDTx: '') (tx_query_row (\<lambda>d. map (scanDeposit dp) (deposits_by_id i d)))"

definition depositStore_ListByUser :: "deps \<Rightarrow> uuid \<Rightarrow> int \<Rightarrow> int \<Rightarrow> (gerr, pgnumeric deposit_rec list) act" where
  "depositStore_ListByUser dp u limit offset =
     wrapE ''depositStore.ListByUser: '' (mapE db_gerr (bindE
       (pool_list (\<lambda>d. sql_page limit offset (order_desc d_CreatedAt (filter (\<lambda>r. d_UserID r = u) (db_deposits d)))))
       (\<lambda>rows. returnE (map (scanDeposit dp) rows))))"

definition depositStore_UpdateStatus :: "uuid \<Rightarrow> string \<Rightarrow> gotime option \<Rightarrow> (gerr, unit) act" where
  "depositStore_UpdateStatus i status confirmedAt =
     must_affect ''depositStore.UpdateStatus: '' (\<lambda>d _.
       if \<not> deposit_status_ok status \<and> deposits_by_id i d \<noteq> [] then Inl (DbFail ''violates check constraint chk_deposit_status'')
       else Inr (count_rows (\<lambda>r. d_ID r = i) (db_deposits d),
                 d\<lparr>db_deposits := update_rows (\<lambda>r. d_ID r = i)
                      (\<lambda>r. r\<lparr>d_Status := status, d_ConfirmedAt := confirmedAt\<rparr>) (db_deposits d)\<rparr>))"

subsection \<open>Service (deposit/service.go)\<close>

record intake_cmd =
  ic_Address :: string
  ic_Asset :: string
  ic_Amount :: pgnumeric
  ic_TxHash :: string

definition MaxSandboxDepositAmount :: string where "MaxSandboxDepositAmount = ''100000''"

definition depositPayload :: "deps \<Rightarrow> pgnumeric deposit_rec \<Rightarrow> json" where
  "depositPayload dp x =
     JObj [(''amount'', JStr (num_String (d_Amount x))), (''asset'', JStr (d_Asset x)),
           (''deposit_id'', JStr (dp_uuid_str dp (d_ID x))), (''user_id'', JStr (dp_uuid_str dp (d_UserID x)))]"

text \<open>\<open>if errors.Is(err, ErrConflict) return err\<close>, else wrapped.\<close>

definition keep_conflict :: "string \<Rightarrow> gerr \<Rightarrow> gerr" where
  "keep_conflict pre e = (if errors_is e ErrConflict then e else Wrapped pre e [])"

definition Intake :: "intake_cmd \<Rightarrow> (gerr, pgnumeric deposit_rec) act" where
  "Intake cmd =
     bindE (wrapE ''Intake address lookup: '' (GetByAddress (ic_Address cmd))) (\<lambda>a.
     if wa_Asset a \<noteq> ic_Asset cmd then throwE (Sentinel ErrValidation)
     else in_tx ''Intake begin: ''
       (bindE NewV7 (\<lambda>i.
        bindE Now (\<lambda>now.
        let x = \<lparr>d_ID = i, d_UserID = wa_UserID a, d_Asset = ic_Asset cmd, d_NetworkID = wa_NetworkID a,
                 d_Address = ic_Address cmd, d_Amount = ic_Amount cmd, d_TxHash = ic_TxHash cmd, d_Status = DepositPending,
                 d_CreatedAt = now, d_ConfirmedAt = None\<rparr> in
        bindE (mapE (keep_conflict ''Intake create: '') (depositStore_Create x)) (\<lambda>_.
        bindE (commit_tx ''Intake commit: '') (\<lambda>_. returnE x))))))"

definition Confirm :: "deps \<Rightarrow> uuid \<Rightarrow> (gerr, pgnumeric deposit_rec) act" where
  "Confirm dp i =
     in_tx ''Confirm begin: ''
       (bindE (wrapE ''Confirm lookup: '' (depositStore_GetByIDTx dp i)) (\<lambda>x.
        if d_Status x \<noteq> DepositPending then throwE (Sentinel ErrInvalidStateTransition)
        else
        bindE (wrapE ''Confirm account: '' (AccountID (d_UserID x) (d_Asset x))) (\<lambda>acctID.
        bindE NewV7 (\<lambda>entryID.
        bindE Now (\<lambda>now.
        bindE (wrapE ''Confirm ledger: '' (ledgerStore_Insert
          \<lparr>le_ID = entryID, le_UserID = d_UserID x, le_AccountID = acctID, le_Asset = d_Asset x, le_Amount = d_Amount x,
           le_EntryType = EntryTypeDeposit, le_RefType = RefTypeDeposit, le_RefID = d_ID x, le_CreatedAt = now\<rparr>)) (\<lambda>_.
        bindE (wrapE ''Confirm status: '' (depositStore_UpdateStatus (d_ID x) DepositConfirmed (Some now))) (\<lambda>_.
        let x' = x\<lparr>d_Status := DepositConfirmed, d_ConfirmedAt := Some now\<rparr> in
        bindE (wrapE ''Confirm outbox: '' (insertOutbox ''DEPOSIT_CONFIRMED'' (depositPayload dp x'))) (\<lambda>_.
        bindE (commit_tx ''Confirm commit: '') (\<lambda>_. returnE x')))))))))"

definition Reject :: "deps \<Rightarrow> uuid \<Rightarrow> (gerr, pgnumeric deposit_rec) act" where
  "Reject dp i =
     in_tx ''Reject begin: ''
       (bindE (wrapE ''Reject lookup: '' (depositStore_GetByIDTx dp i)) (\<lambda>x.
        if d_Status x \<noteq> DepositPending then throwE (Sentinel ErrInvalidStateTransition)
        else
        bindE (wrapE ''Reject status: '' (depositStore_UpdateStatus (d_ID x) DepositRejected None)) (\<lambda>_.
        bindE (commit_tx ''Reject commit: '') (\<lambda>_. returnE (x\<lparr>d_Status := DepositRejected\<rparr>)))))"

definition deposit_ListMine :: "deps \<Rightarrow> uuid \<Rightarrow> int \<Rightarrow> int \<Rightarrow> (gerr, pgnumeric deposit_rec list) act" where
  "deposit_ListMine dp u limit offset = depositStore_ListByUser dp u limit offset"

definition keep_not_found :: "string \<Rightarrow> gerr \<Rightarrow> gerr" where
  "keep_not_found pre e = (if errors_is e ErrNotFound then Sentinel ErrNotFound else Wrapped pre e [])"

definition deposit_Simulate :: "deps \<Rightarrow> uuid \<Rightarrow> intake_cmd \<Rightarrow> (gerr, pgnumeric deposit_rec) act" where
  "deposit_Simulate dp u cmd =
     bindE (mapE (keep_not_found ''Simulate wallet lookup: '') (GetByAddress (ic_Address cmd))) (\<lambda>a.
     if wa_UserID a \<noteq> u then throwE (Sentinel ErrNotFound)
     else
     bindE (mapE (\<lambda>_. Sentinel ErrValidation) (liftE (num_CmpString (dp_scan dp) (ic_Amount cmd) MaxSandboxDepositAmount))) (\<lambda>c.
     if 0 < c then throwE (Sentinel ErrValidation)
     else
     bindE (if ic_TxHash cmd = []
            then bindE (wrapE ''Simulate tx hash: '' NewV7) (\<lambda>i. returnE (cmd\<lparr>ic_TxHash := ''sandbox-'' @ dp_uuid_str dp i\<rparr>))
            else returnE cmd) (\<lambda>cmd.
     bindE (Intake cmd) (\<lambda>x. Confirm dp (d_ID x)))))"

subsection \<open>Processors (deposit/processor.go)\<close>

definition deposit_realProcessor :: "deps \<Rightarrow> uuid \<Rightarrow> intake_cmd \<Rightarrow> (gerr, pgnumeric deposit_rec) act" where
  "deposit_realProcessor dp u cmd = throwE (Sentinel ErrNotImplemented)"

definition deposit_sandboxProcessor :: "deps \<Rightarrow> uuid \<Rightarrow> intake_cmd \<Rightarrow> (gerr, pgnumeric deposit_rec) act" where
  "deposit_sandboxProcessor dp u cmd = deposit_Simulate dp u cmd"

definition newDepositProcessor :: "bool \<Rightarrow> deps \<Rightarrow> uuid \<Rightarrow> intake_cmd \<Rightarrow> (gerr, pgnumeric deposit_rec) act" where
  "newDepositProcessor isSandbox = (if isSandbox then deposit_sandboxProcessor else deposit_realProcessor)"

subsection \<open>Facts\<close>

lemma quiet_deposit [frame]:
  "quiet (depositStore_Create x)" "quiet (depositStore_GetByID dp i)" "quiet (depositStore_GetByIDTx dp i)"
  "quiet (depositStore_ListByUser dp u l m)" "quiet (depositStore_UpdateStatus i s c)" "quiet (deposit_ListMine dp u l m)"
  by (auto simp: depositStore_Create_def depositStore_GetByID_def depositStore_GetByIDTx_def depositStore_ListByUser_def
      depositStore_UpdateStatus_def deposit_ListMine_def intro!: frame)

lemma scanDeposit_simps [simp]:
  "d_ID (scanDeposit dp r) = d_ID r" "d_UserID (scanDeposit dp r) = d_UserID r" "d_Asset (scanDeposit dp r) = d_Asset r"
  "d_Status (scanDeposit dp r) = d_Status r" "d_Amount (scanDeposit dp r) = dp_num dp (d_Amount r)"
  by (simp_all add: scanDeposit_def)

end
