(* ===== verification/Withdrawal.thy ===== *)
theory Withdrawal
  imports Deposit Order
begin

text \<open>
  internal/withdrawal: a withdrawal checks the network, the destination address and the balance, then
  posts the debit and the withdrawal in one transaction. The status is COMPLETED from the start.
\<close>

subsection \<open>Store (withdrawal/store.go)\<close>

definition withdrawal_status_ok :: "string \<Rightarrow> bool" where
  "withdrawal_status_ok s \<longleftrightarrow> s \<in> {StatusCompleted, ''PROCESSING''}"

definition insert_withdrawal :: "pgnumeric withdrawal_rec \<Rightarrow> db \<Rightarrow> db_error + unit \<times> db" where
  "insert_withdrawal x d =
     (case num_row (wd_Amount x) of Inl e \<Rightarrow> Inl e | Inr amt \<Rightarrow>
      case sql_insert (varchar 20 (wd_Asset x) \<and> varchar 255 (wd_DestinationAddress x) \<and> varchar 255 (wd_IdempotencyKey x) \<and>
              withdrawal_status_ok (wd_Status x) \<and> network_exists (wd_NetworkID x) d)
             (\<lambda>r s. wd_ID r = wd_ID s)
             \<lparr>wd_ID = wd_ID x, wd_UserID = wd_UserID x, wd_AccountID = wd_AccountID x, wd_Asset = wd_Asset x,
              wd_NetworkID = wd_NetworkID x, wd_DestinationAddress = wd_DestinationAddress x, wd_Amount = amt,
              wd_Status = wd_Status x, wd_IdempotencyKey = wd_IdempotencyKey x, wd_CreatedAt = wd_CreatedAt x\<rparr>
             (db_withdrawals d) of
        Inl e \<Rightarrow> Inl e
      | Inr rows \<Rightarrow> Inr ((), d\<lparr>db_withdrawals := rows\<rparr>))"

definition withdrawalStore_Insert :: "pgnumeric withdrawal_rec \<Rightarrow> (gerr, unit) act" where
  "withdrawalStore_Insert x = wrapE ''withdrawalStore.Insert: '' (mapE db_gerr (tx_exec (\<lambda>d _. insert_withdrawal x d)))"

definition scanWithdrawal :: "deps \<Rightarrow> sqlnum withdrawal_rec \<Rightarrow> pgnumeric withdrawal_rec" where
  "scanWithdrawal dp r =
     \<lparr>wd_ID = wd_ID r, wd_UserID = wd_UserID r, wd_AccountID = wd_AccountID r, wd_Asset = wd_Asset r,
      wd_NetworkID = wd_NetworkID r, wd_DestinationAddress = wd_DestinationAddress r, wd_Amount = dp_num dp (wd_Amount r),
      wd_Status = wd_Status r, wd_IdempotencyKey = wd_IdempotencyKey r, wd_CreatedAt = wd_CreatedAt r\<rparr>"

definition withdrawalStore_ListByUser :: "deps \<Rightarrow> uuid \<Rightarrow> int \<Rightarrow> int \<Rightarrow> (gerr, pgnumeric withdrawal_rec list) act" where
  "withdrawalStore_ListByUser dp u limit offset =
     wrapE ''withdrawalStore.ListByUser: '' (mapE db_gerr (bindE
       (pool_list (\<lambda>d. sql_page limit offset
          (order_desc wd_CreatedAt (order_desc (\<lambda>r. uint (wd_ID r)) (filter (\<lambda>r. wd_UserID r = u) (db_withdrawals d))))))
       (\<lambda>rows. returnE (map (scanWithdrawal dp) rows))))"

subsection \<open>Service (withdrawal/service.go)\<close>

record withdraw_cmd =
  wc_UserID :: uuid
  wc_Asset :: string
  wc_NetworkName :: string
  wc_DestinationAddress :: string
  wc_Amount :: pgnumeric
  wc_IdempotencyKey :: string

record withdraw_result =
  wr_Withdrawal :: "pgnumeric withdrawal_rec"
  wr_NewBalance :: string

definition MaxSandboxWithdrawalAmount :: string where "MaxSandboxWithdrawalAmount = ''100000''"

definition withdrawPayload :: "deps \<Rightarrow> pgnumeric withdrawal_rec \<Rightarrow> json" where
  "withdrawPayload dp x =
     JObj [(''amount'', JStr (num_String (wd_Amount x))), (''asset'', JStr (wd_Asset x)),
           (''user_id'', JStr (dp_uuid_str dp (wd_UserID x))), (''withdrawal_id'', JStr (dp_uuid_str dp (wd_ID x)))]"

text \<open>The transaction: claim the key, debit, record, announce, commit.\<close>

definition withdraw_tx :: "deps \<Rightarrow> withdraw_cmd \<Rightarrow> uuid \<Rightarrow> uuid \<Rightarrow> (gerr, pgnumeric withdrawal_rec) act" where
  "withdraw_tx dp cmd networkID accountID =
     bindE (claim_key ''Withdraw idempotency: '' (wc_IdempotencyKey cmd) ScopeWithdraw) (\<lambda>_.
     bindE NewV7 (\<lambda>i.
     bindE NewV7 (\<lambda>entryID.
     bindE Now (\<lambda>now.
     bindE (wrapE ''Withdraw ledger: '' (ledgerStore_Insert
       \<lparr>le_ID = entryID, le_UserID = wc_UserID cmd, le_AccountID = accountID, le_Asset = wc_Asset cmd,
        le_Amount = num_Neg (dp_scan dp) (wc_Amount cmd), le_EntryType = EntryTypeWithdraw, le_RefType = RefTypeWithdraw,
        le_RefID = i, le_CreatedAt = now\<rparr>)) (\<lambda>_.
     let x = \<lparr>wd_ID = i, wd_UserID = wc_UserID cmd, wd_AccountID = accountID, wd_Asset = wc_Asset cmd,
              wd_NetworkID = networkID, wd_DestinationAddress = wc_DestinationAddress cmd, wd_Amount = wc_Amount cmd,
              wd_Status = StatusCompleted, wd_IdempotencyKey = wc_IdempotencyKey cmd, wd_CreatedAt = now\<rparr> in
     bindE (wrapE ''Withdraw insert: '' (withdrawalStore_Insert x)) (\<lambda>_.
     bindE (wrapE ''Withdraw outbox: '' (insertOutbox ''WITHDRAW_REQUESTED'' (withdrawPayload dp x))) (\<lambda>_.
     bindE (commit_tx ''Withdraw commit: '') (\<lambda>_. returnE x))))))))"

text \<open>\<open>newBalance, _ :=\<close>: the balance read after the commit, empty on an error.\<close>

definition Withdraw :: "deps \<Rightarrow> regexp \<Rightarrow> withdraw_cmd \<Rightarrow> (gerr, withdraw_result) act" where
  "Withdraw dp regexp cmd =
     (if num_Cmp (wc_Amount cmd) (num_Zero (dp_scan dp)) \<le> 0 then throwE (Sentinel ErrBadRequest)
      else
      bindE (mapE (not_found_invalid ''Withdraw network: '') (catalog_NetworkID (wc_Asset cmd) (wc_NetworkName cmd))) (\<lambda>networkID.
      bindE (ValidateAddress regexp networkID (wc_DestinationAddress cmd)) (\<lambda>_.
      bindE (wrapE ''Withdraw account: '' (AccountID (wc_UserID cmd) (wc_Asset cmd))) (\<lambda>accountID.
      bindE (wrapE ''Withdraw balance: '' (ledgerStore_SumByUserAsset dp (wc_UserID cmd) (wc_Asset cmd))) (\<lambda>balanceStr.
      bindE (wrapE ''Withdraw balance cmp: '' (liftE (num_CmpString (dp_scan dp) (wc_Amount cmd) balanceStr))) (\<lambda>c.
      if 0 < c then throwE (Sentinel ErrInsufficientFunds)
      else
      bindE (in_tx ''Withdraw begin: '' (withdraw_tx dp cmd networkID accountID)) (\<lambda>x.
      bindE (tryE (ledgerStore_SumByUserAsset dp (wc_UserID cmd) (wc_Asset cmd))) (\<lambda>r :: gerr + string.
      returnE \<lparr>wr_Withdrawal = x, wr_NewBalance = (case r of Inr t \<Rightarrow> t | Inl _ \<Rightarrow> [])\<rparr>))))))))"

definition withdrawal_ListMine :: "deps \<Rightarrow> uuid \<Rightarrow> int \<Rightarrow> int \<Rightarrow> (gerr, pgnumeric withdrawal_rec list) act" where
  "withdrawal_ListMine dp u limit offset = withdrawalStore_ListByUser dp u limit offset"

definition withdrawal_Simulate :: "deps \<Rightarrow> regexp \<Rightarrow> withdraw_cmd \<Rightarrow> (gerr, withdraw_result) act" where
  "withdrawal_Simulate dp regexp cmd =
     bindE (mapE (\<lambda>_. Sentinel ErrValidation) (liftE (num_CmpString (dp_scan dp) (wc_Amount cmd) MaxSandboxWithdrawalAmount))) (\<lambda>c.
     if 0 < c then throwE (Sentinel ErrValidation)
     else
     bindE (if wc_IdempotencyKey cmd = []
            then bindE (wrapE ''Simulate idempotency: '' NewV7)
                   (\<lambda>i. returnE (cmd\<lparr>wc_IdempotencyKey := ''sandbox-'' @ dp_uuid_str dp i\<rparr>))
            else returnE cmd) (\<lambda>cmd. Withdraw dp regexp cmd))"

subsection \<open>Processors (withdrawal/processor.go)\<close>

definition withdrawal_realProcessor :: "deps \<Rightarrow> regexp \<Rightarrow> withdraw_cmd \<Rightarrow> (gerr, withdraw_result) act" where
  "withdrawal_realProcessor dp regexp cmd =
     (if wc_IdempotencyKey cmd = [] then throwE (Sentinel ErrBadRequest) else Withdraw dp regexp cmd)"

definition withdrawal_sandboxProcessor :: "deps \<Rightarrow> regexp \<Rightarrow> withdraw_cmd \<Rightarrow> (gerr, withdraw_result) act" where
  "withdrawal_sandboxProcessor dp regexp cmd = withdrawal_Simulate dp regexp cmd"

definition newWithdrawalProcessor :: "bool \<Rightarrow> deps \<Rightarrow> regexp \<Rightarrow> withdraw_cmd \<Rightarrow> (gerr, withdraw_result) act" where
  "newWithdrawalProcessor isSandbox = (if isSandbox then withdrawal_sandboxProcessor else withdrawal_realProcessor)"

subsection \<open>Facts\<close>

definition withdrawal_row :: "pgnumeric withdrawal_rec \<Rightarrow> sqlnum \<Rightarrow> sqlnum withdrawal_rec" where
  "withdrawal_row x amt =
     \<lparr>wd_ID = wd_ID x, wd_UserID = wd_UserID x, wd_AccountID = wd_AccountID x, wd_Asset = wd_Asset x,
      wd_NetworkID = wd_NetworkID x, wd_DestinationAddress = wd_DestinationAddress x, wd_Amount = amt,
      wd_Status = wd_Status x, wd_IdempotencyKey = wd_IdempotencyKey x, wd_CreatedAt = wd_CreatedAt x\<rparr>"

lemma insert_withdrawal_Inr [ok_simps]:
  "insert_withdrawal x d = Inr (u, d') \<longleftrightarrow>
     (\<exists>amt. num_row (wd_Amount x) = Inr amt \<and> varchar 20 (wd_Asset x) \<and> varchar 255 (wd_DestinationAddress x) \<and>
        varchar 255 (wd_IdempotencyKey x) \<and> withdrawal_status_ok (wd_Status x) \<and> network_exists (wd_NetworkID x) d \<and>
        (\<forall>r \<in> set (db_withdrawals d). wd_ID x \<noteq> wd_ID r) \<and>
        d' = d\<lparr>db_withdrawals := db_withdrawals d @ [withdrawal_row x amt]\<rparr>)"
  unfolding insert_withdrawal_def withdrawal_row_def by (cases "num_row (wd_Amount x)") (auto simp: sql_insert_case)

lemma quiet_withdrawal [frame]:
  "quiet (withdrawalStore_Insert x)" "quiet (withdrawalStore_ListByUser dp u l m)" "quiet (withdrawal_ListMine dp u l m)"
  by (auto simp: withdrawalStore_Insert_def withdrawalStore_ListByUser_def withdrawal_ListMine_def intro!: frame)

end
