(* ===== verification/Funding_Handler.thy ===== *)
theory Funding_Handler
  imports Order_Handler User_Handler Withdrawal
begin

text \<open>internal/wallet/handler.go, internal/deposit/handler.go and internal/withdrawal/handler.go.\<close>

subsection \<open>wallet/handler.go\<close>

definition CreateWalletRequest :: struct_spec where
  "CreateWalletRequest = [(''Asset'', ''asset'', ''required,max=20''), (''Network'', ''network'', ''required,max=50'')]"

definition walletResponse :: "web \<Rightarrow> wallet_address \<Rightarrow> json" where
  "walletResponse wb a =
     JObj [(''id'', json_uuid wb (wa_ID a)), (''asset'', JStr (wa_Asset a)), (''network_id'', json_uuid wb (wa_NetworkID a)),
           (''address'', JStr (wa_Address a)), (''created_at'', json_time (wa_CreatedAt a))]"

definition walletHandler_Create :: "web \<Rightarrow> handler" where
  "walletHandler_Create wb r =
     bindE (need_user r) (\<lambda>userID.
     bindE (decode_valid (wb_validate wb) CreateWalletRequest r) (\<lambda>req.
     bindE (svc (GetOrCreateAddress (wb_random wb) userID (req ''asset'') (req ''network''))) (\<lambda>a.
     returnE (WriteJSON 200 (walletResponse wb a)))))"

definition walletHandler_List :: "web \<Rightarrow> handler" where
  "walletHandler_List wb r =
     bindE (need_user r) (\<lambda>userID.
     bindE (svc (ListMyAddresses userID)) (\<lambda>xs.
     returnE (WriteJSON 200 (JArr (map (walletResponse wb) xs)))))"

subsection \<open>deposit/handler.go\<close>

definition IntakeRequest :: struct_spec where
  "IntakeRequest =
     [(''Address'', ''address'', ''required''), (''Asset'', ''asset'', ''required,max=20''), (''Amount'', ''amount'', ''required''),
      (''TxHash'', ''tx_hash'', ''required,max=255'')]"

definition DepositRequest :: struct_spec where
  "DepositRequest =
     [(''Address'', ''address'', ''required''), (''Asset'', ''asset'', ''required,max=20''),
      (''Network'', ''network'', ''required,max=50''), (''Amount'', ''amount'', ''required'')]"

definition depositResponse :: "web \<Rightarrow> pgnumeric deposit_rec \<Rightarrow> json" where
  "depositResponse wb x =
     JObj ([(''id'', json_uuid wb (d_ID x)), (''user_id'', json_uuid wb (d_UserID x)), (''asset'', JStr (d_Asset x)),
            (''network_id'', json_uuid wb (d_NetworkID x)), (''address'', JStr (d_Address x)),
            (''amount'', JStr (num_String (d_Amount x))), (''tx_hash'', JStr (d_TxHash x)), (''status'', JStr (d_Status x)),
            (''created_at'', json_time (d_CreatedAt x))] @
           (case d_ConfirmedAt x of None \<Rightarrow> [] | Some t \<Rightarrow> [(''confirmed_at'', json_time t)]))"

definition depositHandler_Intake :: "web \<Rightarrow> handler" where
  "depositHandler_Intake wb r =
     bindE (decode_valid (wb_validate wb) IntakeRequest r) (\<lambda>req.
     bindE (parse_num wb ''invalid amount'' (req ''amount'')) (\<lambda>amount.
     bindE (svc (Intake \<lparr>ic_Address = req ''address'', ic_Asset = req ''asset'', ic_Amount = amount, ic_TxHash = req ''tx_hash''\<rparr>)) (\<lambda>x.
     returnE (WriteJSON 201 (depositResponse wb x)))))"

definition depositHandler_Confirm :: "web \<Rightarrow> handler" where
  "depositHandler_Confirm wb r =
     bindE (uuid_param wb ''id'' ''invalid id'' r) (\<lambda>i.
     bindE (svc (Confirm (wb_dp wb) i)) (\<lambda>x.
     returnE (WriteJSON 200 (depositResponse wb x))))"

definition depositHandler_Reject :: "web \<Rightarrow> handler" where
  "depositHandler_Reject wb r =
     bindE (uuid_param wb ''id'' ''invalid id'' r) (\<lambda>i.
     bindE (svc (Reject (wb_dp wb) i)) (\<lambda>x.
     returnE (WriteJSON 200 (depositResponse wb x))))"

type_synonym deposit_processor = "deps \<Rightarrow> uuid \<Rightarrow> intake_cmd \<Rightarrow> (gerr, pgnumeric deposit_rec) act"

definition depositHandler_Deposit :: "web \<Rightarrow> deposit_processor \<Rightarrow> handler" where
  "depositHandler_Deposit wb processor r =
     bindE (need_user r) (\<lambda>userID.
     bindE (decode_valid (wb_validate wb) DepositRequest r) (\<lambda>req.
     bindE (parse_num wb ''invalid amount'' (req ''amount'')) (\<lambda>amount.
     bindE (svc (processor (wb_dp wb) userID
       \<lparr>ic_Address = req ''address'', ic_Asset = req ''asset'', ic_Amount = amount, ic_TxHash = []\<rparr>)) (\<lambda>x.
     returnE (WriteJSON 201 (depositResponse wb x))))))"

definition depositHandler_ListMine :: "web \<Rightarrow> handler" where
  "depositHandler_ListMine wb r =
     bindE (need_user r) (\<lambda>userID.
     case ParsePagination (rq_query r) of (limit, offset) \<Rightarrow>
     bindE (svc (deposit_ListMine (wb_dp wb) userID limit offset)) (\<lambda>xs.
     returnE (WriteJSON 200 (JArr (map (depositResponse wb) xs)))))"

subsection \<open>withdrawal/handler.go\<close>

definition WithdrawRequest :: struct_spec where
  "WithdrawRequest =
     [(''Asset'', ''asset'', ''required,max=20''), (''Network'', ''network'', ''required,max=50''),
      (''DestinationAddress'', ''destination_address'', ''required,max=255''), (''Amount'', ''amount'', ''required''),
      (''IdempotencyKey'', ''idempotency_key'', ''omitempty,max=255'')]"

definition withdrawResponse :: "web \<Rightarrow> withdraw_result \<Rightarrow> json" where
  "withdrawResponse wb res =
     (let x = wr_Withdrawal res in
      JObj [(''withdrawal_id'', json_uuid wb (wd_ID x)), (''asset'', JStr (wd_Asset x)), (''network_id'', json_uuid wb (wd_NetworkID x)),
            (''destination_address'', JStr (wd_DestinationAddress x)), (''amount'', JStr (num_String (wd_Amount x))),
            (''new_balance'', JStr (wr_NewBalance res)), (''status'', JStr (wd_Status x)),
            (''created_at'', json_time (wd_CreatedAt x))])"

definition withdrawalItem :: "web \<Rightarrow> pgnumeric withdrawal_rec \<Rightarrow> json" where
  "withdrawalItem wb x =
     JObj [(''id'', json_uuid wb (wd_ID x)), (''asset'', JStr (wd_Asset x)), (''network_id'', json_uuid wb (wd_NetworkID x)),
           (''destination_address'', JStr (wd_DestinationAddress x)), (''amount'', JStr (num_String (wd_Amount x))),
           (''status'', JStr (wd_Status x)), (''created_at'', json_time (wd_CreatedAt x))]"

type_synonym withdrawal_processor = "deps \<Rightarrow> regexp \<Rightarrow> withdraw_cmd \<Rightarrow> (gerr, withdraw_result) act"

definition withdrawalHandler_Withdraw :: "web \<Rightarrow> withdrawal_processor \<Rightarrow> handler" where
  "withdrawalHandler_Withdraw wb processor r =
     bindE (need_user r) (\<lambda>userID.
     bindE (decode_valid (wb_validate wb) WithdrawRequest r) (\<lambda>req.
     bindE (parse_num wb ''invalid amount'' (req ''amount'')) (\<lambda>amount.
     bindE (svc_once (processor (wb_dp wb) (wb_regexp wb)
       \<lparr>wc_UserID = userID, wc_Asset = req ''asset'', wc_NetworkName = req ''network'',
        wc_DestinationAddress = req ''destination_address'', wc_Amount = amount, wc_IdempotencyKey = req ''idempotency_key''\<rparr>)) (\<lambda>res.
     returnE (WriteJSON 200 (withdrawResponse wb res))))))"

definition withdrawalHandler_ListMine :: "web \<Rightarrow> handler" where
  "withdrawalHandler_ListMine wb r =
     bindE (need_user r) (\<lambda>userID.
     case ParsePagination (rq_query r) of (limit, offset) \<Rightarrow>
     bindE (svc (withdrawal_ListMine (wb_dp wb) userID limit offset)) (\<lambda>xs.
     returnE (WriteJSON 200 (JArr (map (withdrawalItem wb) xs)))))"

end
