(* ===== verification/Server.thy ===== *)
theory Server
  imports Config Ledger_Handler Funding_Handler
begin

text \<open>
  cmd/server/main.go: the wiring of the services by the configuration, the table of the routes with the
  middleware of their groups, and the rehydration of the engine. chi matches paths against the patterns
  and fills the path parameters of the request; the model says which handler a route runs. The routes
  of the market data, the feeds and the health check are in \<open>Feeds\<close>.
\<close>

subsection \<open>Wiring\<close>

record server =
  sv_web :: web
  sv_cfg :: config

definition sv_signer :: "server \<Rightarrow> signer" where
  "sv_signer s = NewSigner (cfg_JWTSecret (sv_cfg s))"

definition sv_provisioner :: provisioner where
  "sv_provisioner = ProvisionAll EnabledSymbols"

definition sv_deposit :: "server \<Rightarrow> deposit_processor" where
  "sv_deposit s = newDepositProcessor (IsSandbox (sv_cfg s))"

definition sv_withdrawal :: "server \<Rightarrow> withdrawal_processor" where
  "sv_withdrawal s = newWithdrawalProcessor (IsSandbox (sv_cfg s))"

subsection \<open>Routes\<close>

text \<open>A pattern like \<open>/users/{id}\<close>: literal segments and named parameters.\<close>

datatype segment = Lit string | Param string

type_synonym route = "string \<times> segment list \<times> handler"

definition mount :: "segment list \<Rightarrow> route list \<Rightarrow> route list" where
  "mount p rs = map (\<lambda>(m, q, h). (m, p @ q, h)) rs"

definition use :: "(handler \<Rightarrow> handler) \<Rightarrow> route list \<Rightarrow> route list" where
  "use mw rs = map (\<lambda>(m, q, h). (m, q, mw h)) rs"

definition order_Routes :: "server \<Rightarrow> route list" where
  "order_Routes s =
     [(''POST'', [], orderHandler_PlaceOrder (sv_web s) (cfg_BinanceSymbols (sv_cfg s))),
      (''GET'', [Param ''id''], orderHandler_GetOrder (sv_web s)),
      (''DELETE'', [Param ''id''], orderHandler_CancelOrder (sv_web s))]"

definition trade_Routes :: "server \<Rightarrow> route list" where
  "trade_Routes s = [(''POST'', [], tradeHandler_ExecuteTrade (sv_web s))]"

definition account_Routes :: "server \<Rightarrow> route list" where
  "account_Routes s =
     [(''GET'', [], accountHandler_ListMyAssets (sv_web s)),
      (''GET'', [Param ''symbol''], accountHandler_GetMyAsset (sv_web s)),
      (''GET'', [Param ''symbol'', Lit ''balance''], accountHandler_GetMyBalance (sv_web s))]"

definition account_AdminRoutes :: "server \<Rightarrow> route list" where
  "account_AdminRoutes s = [(''GET'', [], accountHandler_adminListAccounts (sv_web s))]"

definition ledger_Routes :: "server \<Rightarrow> route list" where
  "ledger_Routes s = [(''GET'', [], ledgerHandler_ListMine (sv_web s))]"

definition ledger_AdminRoutes :: "server \<Rightarrow> route list" where
  "ledger_AdminRoutes s = [(''GET'', [], ledgerHandler_AdminList (sv_web s))]"

definition asset_Routes :: "server \<Rightarrow> route list" where
  "asset_Routes s =
     [(''GET'', [], assetHandler_ListAssets),
      (''GET'', [Param ''symbol''], assetHandler_GetAsset),
      (''GET'', [Param ''symbol'', Lit ''networks''], assetHandler_ListNetworks (sv_web s))]"

definition wallet_Routes :: "server \<Rightarrow> route list" where
  "wallet_Routes s = [(''POST'', [], walletHandler_Create (sv_web s)), (''GET'', [], walletHandler_List (sv_web s))]"

definition withdrawal_Routes :: "server \<Rightarrow> route list" where
  "withdrawal_Routes s =
     [(''POST'', [], withdrawalHandler_Withdraw (sv_web s) (sv_withdrawal s)),
      (''GET'', [], withdrawalHandler_ListMine (sv_web s))]"

definition deposit_UserRoutes :: "server \<Rightarrow> route list" where
  "deposit_UserRoutes s =
     [(''GET'', [], depositHandler_ListMine (sv_web s)),
      (''POST'', [], depositHandler_Deposit (sv_web s) (sv_deposit s))]"

definition deposit_AdminRoutes :: "server \<Rightarrow> route list" where
  "deposit_AdminRoutes s =
     [(''POST'', [Lit ''intake''], depositHandler_Intake (sv_web s)),
      (''POST'', [Param ''id'', Lit ''confirm''], depositHandler_Confirm (sv_web s)),
      (''POST'', [Param ''id'', Lit ''reject''], depositHandler_Reject (sv_web s))]"

definition public_routes :: "server \<Rightarrow> route list" where
  "public_routes s =
     [(''POST'', [Lit ''login''], userHandler_Login (sv_web s) (sv_signer s)),
      (''POST'', [Lit ''users''], userHandler_CreateUser (sv_web s) sv_provisioner)] @
     mount [Lit ''assets''] (asset_Routes s)"

definition admin_routes :: "server \<Rightarrow> route list" where
  "admin_routes s = mount [Lit ''admin'', Lit ''deposits''] (deposit_AdminRoutes s)"

definition user_routes :: "server \<Rightarrow> route list" where
  "user_routes s =
     [(''GET'', [Lit ''me''], userHandler_Me (sv_web s)),
      (''GET'', [Lit ''users''], userHandler_ListUsers (sv_web s)),
      (''GET'', [Lit ''users'', Param ''id''], userHandler_GetUser (sv_web s)),
      (''DELETE'', [Lit ''users'', Param ''id''], userHandler_DeleteUser (sv_web s)),
      (''GET'', [Lit ''users'', Param ''userID'', Lit ''orders''], orderHandler_ListByUser (sv_web s)),
      (''GET'', [Lit ''users'', Param ''userID'', Lit ''trades''], tradeHandler_ListByUser (sv_web s))] @
     mount [Lit ''me'', Lit ''assets''] (account_Routes s) @
     mount [Lit ''me'', Lit ''ledger''] (ledger_Routes s) @
     mount [Lit ''admin'', Lit ''accounts''] (account_AdminRoutes s) @
     mount [Lit ''admin'', Lit ''ledger''] (ledger_AdminRoutes s) @
     mount [Lit ''withdrawals''] (withdrawal_Routes s) @
     mount [Lit ''orders''] (order_Routes s) @
     mount [Lit ''trades''] (trade_Routes s) @
     mount [Lit ''wallets''] (wallet_Routes s) @
     mount [Lit ''deposits''] (deposit_UserRoutes s)"

definition sv_auth :: "server \<Rightarrow> handler \<Rightarrow> handler" where
  "sv_auth s = Middleware (wb_jwt (sv_web s)) (wb_dp (sv_web s)) (sv_signer s)"

definition routes :: "server \<Rightarrow> route list" where
  "routes s = public_routes s @ use (sv_auth s) (user_routes s @ use RequireAdmin (admin_routes s))"

subsection \<open>Rehydration\<close>

text \<open>\<open>quantity - filled_quantity\<close> in SQL.\<close>

fun sql_sub :: "sqlnum \<Rightarrow> sqlnum \<Rightarrow> sqlnum" where
  "sql_sub (QNum a) (QNum b) = QNum (a - b)"
| "sql_sub _ _ = QNaN"

definition rehydrate_query :: "string list \<Rightarrow> db \<Rightarrow> sqlnum order_rec list" where
  "rehydrate_query symbols d =
     sort_key o_CreatedAt (filter (\<lambda>r. o_Status r \<in> {StatusOpen, StatusPartial} \<and> o_Symbol r \<in> set symbols) (db_orders d))"

definition rehydrate_row :: "deps \<Rightarrow> sqlnum order_rec \<Rightarrow> eorder option" where
  "rehydrate_row dp r =
     (case ParseFloat (num_text (o_Price r)) of (price, priceErr) \<Rightarrow>
      if priceErr then None
      else
      case ParseFloat (num_text (sql_sub (o_Quantity r) (o_FilledQuantity r))) of (remain, remainErr) \<Rightarrow>
      if remainErr \<or> fle remain f64_zero then None
      else Some \<lparr>eo_ID = dp_uuid_str dp (o_ID r), eo_UserID = dp_uuid_str dp (o_UserID r), eo_Symbol = o_Symbol r,
                 eo_Side = o_Side r, eo_Price = price, eo_Quantity = remain, eo_Remaining = remain,
                 eo_Timestamp = o_CreatedAt r\<rparr>)"

fun rehydrate_rows :: "deps \<Rightarrow> sqlnum order_rec list \<Rightarrow> engine \<Rightarrow> engine" where
  "rehydrate_rows dp [] e = e"
| "rehydrate_rows dp (r # rs) e =
     (case rehydrate_row dp r of
        None \<Rightarrow> rehydrate_rows dp rs e
      | Some x \<Rightarrow> rehydrate_rows dp rs (LoadOrder e x))"

definition rehydrateEngine :: "deps \<Rightarrow> string list \<Rightarrow> engine \<Rightarrow> (db_error, engine) act" where
  "rehydrateEngine dp symbols e =
     bindE (pool_query (rehydrate_query symbols)) (\<lambda>rows. returnE (rehydrate_rows dp rows e))"

end
