(* ===== verification/Deposit_Properties.thy ===== *)
theory Deposit_Properties
  imports Withdrawal Forward
begin

text \<open>
  What the wallet, deposit and withdrawal services commit: one address per user, asset and network;
  one credit per confirmed deposit and none for a rejected one; one debit per withdrawal, never more
  than the balance.
\<close>

subsection \<open>Numbers through the database\<close>

lemma num_row_scan:
  assumes "deps_ok dp" and "num_row (dp_num dp q) = Inr q'"
  shows "q' = q"
proof (cases q)
  case QNaN
  then show ?thesis using assms by (auto simp: num_row_def num_param_def deps_ok_def reads_numerics_def)
next
  case (QNum k)
  then show ?thesis using num_row_plainD [of "dp_num dp (QNum k)" q'] assms deps_okD(2,3) [OF assms(1), of k] by simp
qed

lemma deposit_statuses [simp]:
  "DepositPending \<noteq> DepositConfirmed" "DepositPending \<noteq> DepositRejected" "DepositConfirmed \<noteq> DepositRejected"
  "DepositConfirmed \<noteq> DepositPending" "DepositRejected \<noteq> DepositPending" "DepositRejected \<noteq> DepositConfirmed"
  "deposit_status_ok DepositPending" "deposit_status_ok DepositConfirmed" "deposit_status_ok DepositRejected"
  by (simp_all add: DepositPending_def DepositConfirmed_def DepositRejected_def deposit_status_ok_def)

subsection \<open>Wallets\<close>

lemma wallet_create_run:
  assumes "walletStore_Create a w = (Inr u, w')" and "w_tx w = Some d"
  obtains d' where "insert_wallet a d = Inr ((), d')" and "w_tx w' = Some d'" and "same_store w w'"
  using assms unfolding walletStore_Create_def mapE_Inr tx_exec_Inr by auto

lemma wallet_address_run:
  assumes "GetByAddress s w = (Inr a, w')"
  obtains "a \<in> set (db_wallets (w_db w))" "wa_Address a = s" "w' = tick w"
  using assms by (auto simp: GetByAddress_def walletStore_GetByAddress_def ok_simps filter_eq_Cons_iff)


subsection \<open>Deposits: intake\<close>

definition deposit_row :: "'a deposit_rec \<Rightarrow> sqlnum \<Rightarrow> sqlnum deposit_rec" where
  "deposit_row x amt =
     \<lparr>d_ID = d_ID x, d_UserID = d_UserID x, d_Asset = d_Asset x, d_NetworkID = d_NetworkID x, d_Address = d_Address x,
      d_Amount = amt, d_TxHash = d_TxHash x, d_Status = d_Status x, d_CreatedAt = d_CreatedAt x, d_ConfirmedAt = None\<rparr>"

lemma deposit_row_simps [simp]:
  "d_ID (deposit_row x q) = d_ID x" "d_UserID (deposit_row x q) = d_UserID x" "d_Asset (deposit_row x q) = d_Asset x"
  "d_Amount (deposit_row x q) = q" "d_TxHash (deposit_row x q) = d_TxHash x" "d_Status (deposit_row x q) = d_Status x"
  by (simp_all add: deposit_row_def)

lemma insert_deposit_Inr [ok_simps]:
  "insert_deposit x d = Inr (u, d') \<longleftrightarrow>
     (\<exists>amt. num_row (d_Amount x) = Inr amt \<and> varchar 20 (d_Asset x) \<and> varchar 255 (d_Address x) \<and> varchar 255 (d_TxHash x) \<and>
        deposit_status_ok (d_Status x) \<and> network_exists (d_NetworkID x) d \<and>
        (\<forall>r \<in> set (db_deposits d). d_ID x \<noteq> d_ID r \<and> d_TxHash x \<noteq> d_TxHash r) \<and>
        d' = d\<lparr>db_deposits := db_deposits d @ [deposit_row x amt]\<rparr>)"
  unfolding insert_deposit_def deposit_row_def by (cases "num_row (d_Amount x)") (auto simp: sql_insert_case)

text \<open>A deposit as \<open>Intake\<close> makes it, of the wallet's user.\<close>

definition taken_deposit :: "intake_cmd \<Rightarrow> wallet_address \<Rightarrow> uuid \<Rightarrow> gotime \<Rightarrow> pgnumeric deposit_rec" where
  "taken_deposit cmd a i now =
     \<lparr>d_ID = i, d_UserID = wa_UserID a, d_Asset = ic_Asset cmd, d_NetworkID = wa_NetworkID a,
      d_Address = ic_Address cmd, d_Amount = ic_Amount cmd, d_TxHash = ic_TxHash cmd, d_Status = DepositPending,
      d_CreatedAt = now, d_ConfirmedAt = None\<rparr>"

lemma deposit_create_run:
  assumes "depositStore_Create x w = (Inr u, w')" and "w_tx w = Some d"
  obtains d' where "insert_deposit x d = Inr ((), d')" and "w_tx w' = Some d'" and "same_store w w'"
  using assms unfolding depositStore_Create_def mapE_Inr tx_exec_Inr by auto

lemma Intake_change:
  assumes "Intake cmd w = (Inr x, w')"
  obtains a i now q where "a \<in> set (db_wallets (w_db w))" and "wa_Address a = ic_Address cmd" and "wa_Asset a = ic_Asset cmd"
    and "x = taken_deposit cmd a i now" and "num_row (ic_Amount cmd) = Inr q"
    and "\<forall>r \<in> set (db_deposits (w_db w)). i \<noteq> d_ID r \<and> ic_TxHash cmd \<noteq> d_TxHash r"
    and "w_db w' = (w_db w)\<lparr>db_deposits := db_deposits (w_db w) @ [deposit_row x q]\<rparr>"
proof -
  have "\<exists>a i now w1 w2 w3 w4 w5 u1 u2. GetByAddress (ic_Address cmd) w = (Inr a, w1) \<and> wa_Asset a = ic_Asset cmd \<and>
      NewV7 ((tick w1)\<lparr>w_tx := Some (w_db w1), w_abort := False\<rparr>) = (Inr i, w2) \<and> Now w2 = (Inr now :: gerr + gotime, w3) \<and>
      depositStore_Create (taken_deposit cmd a i now) w3 = (Inr u1, w4) \<and> Commit w4 = (Inr u2, w5) \<and>
      x = taken_deposit cmd a i now \<and> w_db w' = w_db w5"
    using assms unfolding Intake_def taken_deposit_def
    apply (simp only: if_throw_Inr bindE_Inr wrapE_Inr mapE_Inr in_tx_Inr commit_tx_Inr returnE_Inr Let_def not_not)
    apply (elim exE conjE)
    apply (intro exI conjI)
    apply (assumption | simp | auto)+
    done
  then obtain a i now w1 w2 w3 w4 w5 u1 u2 where
    s1: "GetByAddress (ic_Address cmd) w = (Inr a, w1)" and as: "wa_Asset a = ic_Asset cmd" and
    s2: "NewV7 ((tick w1)\<lparr>w_tx := Some (w_db w1), w_abort := False\<rparr>) = (Inr i, w2)" and s3: "Now w2 = (Inr now :: gerr + gotime, w3)" and
    s4: "depositStore_Create (taken_deposit cmd a i now) w3 = (Inr u1, w4)" and s5: "Commit w4 = (Inr u2, w5)" and
    x: "x = taken_deposit cmd a i now" and w': "w_db w' = w_db w5" by blast
  have a: "a \<in> set (db_wallets (w_db w))" "wa_Address a = ic_Address cmd" "w1 = tick w"
    using s1 by (rule wallet_address_run, blast)+
  have tx: "w_tx w3 = Some (w_db w)" using NewV7_run [OF s2] Now_run [OF s3] a(3) by simp
  obtain d' where d': "insert_deposit (taken_deposit cmd a i now) (w_db w) = Inr ((), d')" "w_tx w4 = Some d'"
    using deposit_create_run [OF s4 tx] by metis
  have "w_db w' = d'" using Commit_run [OF s5 d'(2)] w' by simp
  then show thesis using d'(1) that [OF a(1,2) as x] unfolding insert_deposit_Inr by (auto simp: taken_deposit_def x)
qed

subsection \<open>Deposits: confirmation and rejection\<close>

lemma deposit_lock_run:
  assumes "depositStore_GetByIDTx dp i w = (Inr x, w')" and "w_tx w = Some d"
  obtains r rs where "deposits_by_id i d = r # rs" "x = scanDeposit dp r" "w_tx w' = Some d" "same_store w w'"
  using assms by (auto simp: depositStore_GetByIDTx_def ok_simps)

definition settled :: "string \<Rightarrow> gotime option \<Rightarrow> uuid \<Rightarrow> sqlnum deposit_rec list \<Rightarrow> sqlnum deposit_rec list" where
  "settled s t i rows = update_rows (\<lambda>r. d_ID r = i) (\<lambda>r. r\<lparr>d_Status := s, d_ConfirmedAt := t\<rparr>) rows"

lemma deposit_status_run:
  assumes "depositStore_UpdateStatus i s t w = (Inr u, w')" and "w_tx w = Some d" and "deposit_status_ok s"
  shows "w_tx w' = Some (d\<lparr>db_deposits := settled s t i (db_deposits d)\<rparr>) \<and> same_store w w'"
  using assms unfolding depositStore_UpdateStatus_def must_affect_Inr settled_def by (auto split: if_splits)

definition deposit_entry :: "pgnumeric deposit_rec \<Rightarrow> uuid \<Rightarrow> uuid \<Rightarrow> gotime \<Rightarrow> pgnumeric ledger_entry" where
  "deposit_entry x i acct now =
     \<lparr>le_ID = i, le_UserID = d_UserID x, le_AccountID = acct, le_Asset = d_Asset x, le_Amount = d_Amount x,
      le_EntryType = EntryTypeDeposit, le_RefType = RefTypeDeposit, le_RefID = d_ID x, le_CreatedAt = now\<rparr>"

lemma deposit_entry_simps [simp]:
  "le_UserID (deposit_entry x i c t) = d_UserID x" "le_Asset (deposit_entry x i c t) = d_Asset x"
  "le_Amount (deposit_entry x i c t) = d_Amount x" "le_EntryType (deposit_entry x i c t) = EntryTypeDeposit"
  "le_RefID (deposit_entry x i c t) = d_ID x" "le_RefType (deposit_entry x i c t) = RefTypeDeposit"
  "le_AccountID (deposit_entry x i c t) = c"
  by (simp_all add: deposit_entry_def)

text \<open>Everything a confirmation commits for the stored deposit \<open>r\<close>: credit, status, event.\<close>

definition confirm_change :: "deps \<Rightarrow> sqlnum deposit_rec \<Rightarrow> gotime \<Rightarrow> db \<Rightarrow> db \<Rightarrow> bool" where
  "confirm_change dp r now d d' \<longleftrightarrow>
     (\<exists>i acct ev q. account_of (d_UserID r) (d_Asset r) d = Some acct \<and> num_row (dp_num dp (d_Amount r)) = Inr q \<and>
        ev_EventType ev = ''DEPOSIT_CONFIRMED'' \<and> ev_Status ev = StatusPending \<and>
        ev_Payload ev = depositPayload dp ((scanDeposit dp r)\<lparr>d_Status := DepositConfirmed, d_ConfirmedAt := Some now\<rparr>) \<and>
        d' = d\<lparr>db_ledger := db_ledger d @ [ledger_row (deposit_entry (scanDeposit dp r) i acct now) q],
               db_deposits := settled DepositConfirmed (Some now) (d_ID r) (db_deposits d), db_outbox := db_outbox d @ [ev]\<rparr>)"

lemma Confirm_change:
  assumes "Confirm dp i w = (Inr x, w')"
  obtains r rs now where "deposits_by_id i (w_db w) = r # rs" and "d_Status r = DepositPending"
    and "x = (scanDeposit dp r)\<lparr>d_Status := DepositConfirmed, d_ConfirmedAt := Some now\<rparr>"
    and "confirm_change dp r now (w_db w) (w_db w')"
proof -
  have "\<exists>y acct e now w1 w2 w3 w4 w5 w6 w7 w8 u1 u2 u3 u4.
      depositStore_GetByIDTx dp i ((tick w)\<lparr>w_tx := Some (w_db w), w_abort := False\<rparr>) = (Inr y, w1) \<and> d_Status y = DepositPending \<and>
      AccountID (d_UserID y) (d_Asset y) w1 = (Inr acct, w2) \<and> NewV7 w2 = (Inr e, w3) \<and> Now w3 = (Inr now :: gerr + gotime, w4) \<and>
      ledgerStore_Insert (deposit_entry y e acct now) w4 = (Inr u1, w5) \<and>
      depositStore_UpdateStatus (d_ID y) DepositConfirmed (Some now) w5 = (Inr u2, w6) \<and>
      insertOutbox ''DEPOSIT_CONFIRMED'' (depositPayload dp (y\<lparr>d_Status := DepositConfirmed, d_ConfirmedAt := Some now\<rparr>)) w6 = (Inr u3, w7) \<and>
      Commit w7 = (Inr u4, w8) \<and> x = y\<lparr>d_Status := DepositConfirmed, d_ConfirmedAt := Some now\<rparr> \<and> w_db w' = w_db w8"
    using assms unfolding Confirm_def deposit_entry_def
    apply (simp only: if_throw_Inr bindE_Inr wrapE_Inr mapE_Inr in_tx_Inr commit_tx_Inr returnE_Inr Let_def not_not)
    apply (elim exE conjE)
    apply (intro exI conjI)
    apply (assumption | simp | auto)+
    done
  then obtain y acct e now w1 w2 w3 w4 w5 w6 w7 w8 u1 u2 u3 u4 where
    s1: "depositStore_GetByIDTx dp i ((tick w)\<lparr>w_tx := Some (w_db w), w_abort := False\<rparr>) = (Inr y, w1)" and
    st: "d_Status y = DepositPending" and s2: "AccountID (d_UserID y) (d_Asset y) w1 = (Inr acct, w2)" and
    s3: "NewV7 w2 = (Inr e, w3)" and s4: "Now w3 = (Inr now :: gerr + gotime, w4)" and
    s5: "ledgerStore_Insert (deposit_entry y e acct now) w4 = (Inr u1, w5)" and
    s6: "depositStore_UpdateStatus (d_ID y) DepositConfirmed (Some now) w5 = (Inr u2, w6)" and
    s7: "insertOutbox ''DEPOSIT_CONFIRMED'' (depositPayload dp (y\<lparr>d_Status := DepositConfirmed, d_ConfirmedAt := Some now\<rparr>)) w6 = (Inr u3, w7)" and
    s8: "Commit w7 = (Inr u4, w8)" and x: "x = y\<lparr>d_Status := DepositConfirmed, d_ConfirmedAt := Some now\<rparr>" and w': "w_db w' = w_db w8"
    by blast
  have tx: "w_tx ((tick w)\<lparr>w_tx := Some (w_db w), w_abort := False\<rparr>) = Some (w_db w)" by simp
  obtain r rs where r: "deposits_by_id i (w_db w) = r # rs" "y = scanDeposit dp r" "w_tx w1 = Some (w_db w)"
    "same_store ((tick w)\<lparr>w_tx := Some (w_db w), w_abort := False\<rparr>) w1"
    using s1 tx by (rule deposit_lock_run)
  have db1: "w_db w1 = w_db w" using r(4) by (simp add: same_store_def)
  have ac: "account_of (d_UserID r) (d_Asset r) (w_db w) = Some acct" "w_tx w2 = Some (w_db w)"
    using s2 r(2,3) db1 by (auto simp: AccountID_Inr)
  have t4: "w_tx w4 = Some (w_db w)" using NewV7_run [OF s3] Now_run [OF s4] ac(2) by simp
  obtain d5 where d5: "insert_ledger (deposit_entry y e acct now) (w_db w) = Inr ((), d5)" "w_tx w5 = Some d5"
    using ledger_run [OF s5 t4] by metis
  then obtain q where q: "num_row (dp_num dp (d_Amount r)) = Inr q"
    "d5 = (w_db w)\<lparr>db_ledger := db_ledger (w_db w) @ [ledger_row (deposit_entry y e acct now) q]\<rparr>"
    by (auto simp: insert_ledger_Inr r(2))
  have t6: "w_tx w6 = Some (d5\<lparr>db_deposits := settled DepositConfirmed (Some now) (d_ID r) (db_deposits d5)\<rparr>)"
    using deposit_status_run [OF s6 d5(2)] r(2) by simp
  obtain ev where ev: "ev_EventType ev = ''DEPOSIT_CONFIRMED''" "ev_Payload ev = depositPayload dp x" "ev_Status ev = StatusPending"
    "w_tx w7 = Some ((d5\<lparr>db_deposits := settled DepositConfirmed (Some now) (d_ID r) (db_deposits d5)\<rparr>)\<lparr>db_outbox := db_outbox d5 @ [ev]\<rparr>)"
    using outbox_run [OF s7 t6] x by auto
  have db: "w_db w' = (w_db w)\<lparr>db_ledger := db_ledger (w_db w) @ [ledger_row (deposit_entry (scanDeposit dp r) e acct now) q],
      db_deposits := settled DepositConfirmed (Some now) (d_ID r) (db_deposits (w_db w)), db_outbox := db_outbox (w_db w) @ [ev]\<rparr>"
    using Commit_run [OF s8 ev(4)] w' q(2) r(2) by simp
  have "confirm_change dp r now (w_db w) (w_db w')"
    unfolding confirm_change_def using ac(1) q(1) ev(1-3) db x r(2) by blast
  then show thesis using that r(1,2) st x by simp
qed

lemma Reject_change:
  assumes "Reject dp i w = (Inr x, w')"
  obtains r rs where "deposits_by_id i (w_db w) = r # rs" and "d_Status r = DepositPending"
    and "x = (scanDeposit dp r)\<lparr>d_Status := DepositRejected\<rparr>"
    and "w_db w' = (w_db w)\<lparr>db_deposits := settled DepositRejected None (d_ID r) (db_deposits (w_db w))\<rparr>"
proof -
  have "\<exists>y w1 w2 w3 u1 u2. depositStore_GetByIDTx dp i ((tick w)\<lparr>w_tx := Some (w_db w), w_abort := False\<rparr>) = (Inr y, w1) \<and>
      d_Status y = DepositPending \<and> depositStore_UpdateStatus (d_ID y) DepositRejected None w1 = (Inr u1, w2) \<and>
      Commit w2 = (Inr u2, w3) \<and> x = y\<lparr>d_Status := DepositRejected\<rparr> \<and> w_db w' = w_db w3"
    using assms unfolding Reject_def
    apply (simp only: if_throw_Inr bindE_Inr wrapE_Inr mapE_Inr in_tx_Inr commit_tx_Inr returnE_Inr Let_def not_not)
    apply (elim exE conjE)
    apply (intro exI conjI)
    apply (assumption | simp | auto)+
    done
  then obtain y w1 w2 w3 u1 u2 where
    s1: "depositStore_GetByIDTx dp i ((tick w)\<lparr>w_tx := Some (w_db w), w_abort := False\<rparr>) = (Inr y, w1)" and
    st: "d_Status y = DepositPending" and s2: "depositStore_UpdateStatus (d_ID y) DepositRejected None w1 = (Inr u1, w2)" and
    s3: "Commit w2 = (Inr u2, w3)" and x: "x = y\<lparr>d_Status := DepositRejected\<rparr>" and w': "w_db w' = w_db w3" by blast
  have tx: "w_tx ((tick w)\<lparr>w_tx := Some (w_db w), w_abort := False\<rparr>) = Some (w_db w)" by simp
  obtain r rs where r: "deposits_by_id i (w_db w) = r # rs" "y = scanDeposit dp r" "w_tx w1 = Some (w_db w)"
    using s1 tx by (rule deposit_lock_run)
  have t2: "w_tx w2 = Some ((w_db w)\<lparr>db_deposits := settled DepositRejected None (d_ID r) (db_deposits (w_db w))\<rparr>)"
    using deposit_status_run [OF s2 r(3)] r(2) by simp
  show thesis using that [OF r(1)] st r(2) x Commit_run [OF s3 t2] w' by simp
qed

end
