(* ===== verification/Withdrawal_Properties.thy ===== *)
theory Withdrawal_Properties
  imports Deposit_Properties
begin

text \<open>
  What a withdrawal and a request for an address commit.
\<close>

subsection \<open>Withdrawals\<close>

definition withdraw_entry :: "deps \<Rightarrow> pgnumeric withdrawal_rec \<Rightarrow> uuid \<Rightarrow> gotime \<Rightarrow> pgnumeric ledger_entry" where
  "withdraw_entry dp x i now =
     \<lparr>le_ID = i, le_UserID = wd_UserID x, le_AccountID = wd_AccountID x, le_Asset = wd_Asset x,
      le_Amount = num_Neg (dp_scan dp) (wd_Amount x), le_EntryType = EntryTypeWithdraw, le_RefType = RefTypeWithdraw,
      le_RefID = wd_ID x, le_CreatedAt = now\<rparr>"

definition taken_withdrawal :: "withdraw_cmd \<Rightarrow> uuid \<Rightarrow> uuid \<Rightarrow> uuid \<Rightarrow> gotime \<Rightarrow> pgnumeric withdrawal_rec" where
  "taken_withdrawal cmd networkID acct i now =
     \<lparr>wd_ID = i, wd_UserID = wc_UserID cmd, wd_AccountID = acct, wd_Asset = wc_Asset cmd,
      wd_NetworkID = networkID, wd_DestinationAddress = wc_DestinationAddress cmd, wd_Amount = wc_Amount cmd,
      wd_Status = StatusCompleted, wd_IdempotencyKey = wc_IdempotencyKey cmd, wd_CreatedAt = now\<rparr>"

lemma withdraw_entry_simps [simp]:
  "le_UserID (withdraw_entry dp x i t) = wd_UserID x" "le_Asset (withdraw_entry dp x i t) = wd_Asset x"
  "le_Amount (withdraw_entry dp x i t) = num_Neg (dp_scan dp) (wd_Amount x)"
  "le_EntryType (withdraw_entry dp x i t) = EntryTypeWithdraw" "le_RefID (withdraw_entry dp x i t) = wd_ID x"
  "le_RefType (withdraw_entry dp x i t) = RefTypeWithdraw" "le_ID (withdraw_entry dp x i t) = i"
  by (simp_all add: withdraw_entry_def)

lemma withdrawal_row_simps [simp]:
  "wd_ID (withdrawal_row x q) = wd_ID x" "wd_UserID (withdrawal_row x q) = wd_UserID x" "wd_Asset (withdrawal_row x q) = wd_Asset x"
  "wd_Amount (withdrawal_row x q) = q" "wd_Status (withdrawal_row x q) = wd_Status x"
  by (simp_all add: withdrawal_row_def)

lemma withdrawal_insert_run:
  assumes "withdrawalStore_Insert x w = (Inr u, w')" and "w_tx w = Some d"
  obtains d' where "insert_withdrawal x d = Inr ((), d')" and "w_tx w' = Some d'" and "same_store w w'"
  using assms unfolding withdrawalStore_Insert_def wrapE_Inr mapE_Inr tx_exec_Inr by auto

text \<open>Everything a withdrawal commits: the key, the debit, its row and the event.\<close>

definition withdraw_change :: "deps \<Rightarrow> withdraw_cmd \<Rightarrow> pgnumeric withdrawal_rec \<Rightarrow> db \<Rightarrow> db \<Rightarrow> bool" where
  "withdraw_change dp cmd x d d' \<longleftrightarrow>
     (\<exists>ik e t ev q n. ik_Key ik = wc_IdempotencyKey cmd \<and> ik_Scope ik = ScopeWithdraw \<and>
        num_row (num_Neg (dp_scan dp) (wc_Amount cmd)) = Inr n \<and> num_row (wc_Amount cmd) = Inr q \<and>
        ev_EventType ev = ''WITHDRAW_REQUESTED'' \<and> ev_Status ev = StatusPending \<and> ev_Payload ev = withdrawPayload dp x \<and>
        d' = d\<lparr>db_idem := db_idem d @ [ik], db_ledger := db_ledger d @ [ledger_row (withdraw_entry dp x e t) n],
               db_withdrawals := db_withdrawals d @ [withdrawal_row x q], db_outbox := db_outbox d @ [ev]\<rparr>)"

lemma withdraw_tx_effect:
  assumes "withdraw_tx dp cmd networkID acct w = (Inr x, w')" and "w_tx w = Some d"
  shows "\<exists>i now. x = taken_withdrawal cmd networkID acct i now \<and> (\<forall>r \<in> set (db_withdrawals d). i \<noteq> wd_ID r) \<and>
    \<not> key_claimed (wc_IdempotencyKey cmd) ScopeWithdraw d \<and> withdraw_change dp cmd x d (w_db w')"
proof -
  obtain i e now w1 w2 w3 w4 w5 w6 w7 w8 u1 u2 u3 u4 u5 where
    s1: "idempotencyStore_Insert (wc_IdempotencyKey cmd) ScopeWithdraw w = (Inr u1, w1)" and
    s2: "NewV7 w1 = (Inr i, w2)" and s3: "NewV7 w2 = (Inr e, w3)" and s4: "Now w3 = (Inr now :: gerr + gotime, w4)" and
    s5: "ledgerStore_Insert (withdraw_entry dp (taken_withdrawal cmd networkID acct i now) e now) w4 = (Inr u2, w5)" and
    s6: "withdrawalStore_Insert (taken_withdrawal cmd networkID acct i now) w5 = (Inr u3, w6)" and
    s7: "insertOutbox ''WITHDRAW_REQUESTED'' (withdrawPayload dp (taken_withdrawal cmd networkID acct i now)) w6 = (Inr u4, w7)" and
    s8: "Commit w7 = (Inr u5, w8)" and x: "x = taken_withdrawal cmd networkID acct i now" and w': "w' = w8"
    using assms(1)
    unfolding withdraw_tx_def Let_def bindE_Inr wrapE_Inr commit_tx_Inr claim_key_Inr returnE_Inr
      withdraw_entry_def taken_withdrawal_def withdrawal_rec.simps
    by (elim exE conjE) (rule that [unfolded withdraw_entry_def taken_withdrawal_def withdrawal_rec.simps], assumption+)
  obtain ik where ik: "ik_Key ik = wc_IdempotencyKey cmd" "ik_Scope ik = ScopeWithdraw"
    "\<not> key_claimed (wc_IdempotencyKey cmd) ScopeWithdraw d" "w_tx w1 = Some (d\<lparr>db_idem := db_idem d @ [ik]\<rparr>)"
    using s1 assms(2) by (rule claim_run)
  have t4: "w_tx w4 = Some (d\<lparr>db_idem := db_idem d @ [ik]\<rparr>)"
    using NewV7_run [OF s2] NewV7_run [OF s3] Now_run [OF s4] ik(4) by simp
  obtain d5 where d5: "insert_ledger (withdraw_entry dp x e now) (d\<lparr>db_idem := db_idem d @ [ik]\<rparr>) = Inr ((), d5)" "w_tx w5 = Some d5"
    using ledger_run [OF s5 t4] x by metis
  obtain d6 where d6: "insert_withdrawal x d5 = Inr ((), d6)" "w_tx w6 = Some d6"
    using withdrawal_insert_run [OF s6 d5(2)] x by metis
  obtain ev where ev: "ev_EventType ev = ''WITHDRAW_REQUESTED''" "ev_Payload ev = withdrawPayload dp x"
    "ev_Status ev = StatusPending" "w_tx w7 = Some (d6\<lparr>db_outbox := db_outbox d6 @ [ev]\<rparr>)"
    using outbox_run [OF s7 d6(2)] x by metis
  have f: "wd_Amount x = wc_Amount cmd" "wd_ID x = i" by (simp_all add: x taken_withdrawal_def)
  obtain n where n: "num_row (num_Neg (dp_scan dp) (wc_Amount cmd)) = Inr n"
    "d5 = d\<lparr>db_idem := db_idem d @ [ik], db_ledger := db_ledger d @ [ledger_row (withdraw_entry dp x e now) n]\<rparr>"
    using d5(1) by (auto simp: insert_ledger_Inr f)
  obtain q where q: "num_row (wc_Amount cmd) = Inr q" "\<forall>r \<in> set (db_withdrawals d). i \<noteq> wd_ID r"
    "d6 = d5\<lparr>db_withdrawals := db_withdrawals d @ [withdrawal_row x q]\<rparr>"
    using d6(1) by (auto simp: insert_withdrawal_Inr f n(2))
  have "w_db w' = d\<lparr>db_idem := db_idem d @ [ik], db_ledger := db_ledger d @ [ledger_row (withdraw_entry dp x e now) n],
      db_withdrawals := db_withdrawals d @ [withdrawal_row x q], db_outbox := db_outbox d @ [ev]\<rparr>"
    using Commit_run [OF s8 ev(4)] w' n(2) q(3) by simp
  then have "withdraw_change dp cmd x d (w_db w')"
    unfolding withdraw_change_def using ik(1,2) n(1) q(1) ev(1-3) by blast
  then show ?thesis using x q(2) ik(3) by blast
qed

lemma ValidateAddress_tx: "ValidateAddress regexp i s w = (Inr u, w') \<Longrightarrow> same_store w w'"
  by (erule quietD [rotated]) (intro frame)

lemma catalog_tx: "catalog_NetworkID a n w = (Inr i, w') \<Longrightarrow> same_store w w'"
  by (erule quietD [rotated]) (intro frame)

lemma Withdraw_run:
  assumes "Withdraw dp regexp cmd w = (Inr res, w')"
  obtains networkID acct t c w1 w2 w3 w4 w5 w6 where
    "0 < num_Cmp (wc_Amount cmd) (num_Zero (dp_scan dp))" and
    "catalog_NetworkID (wc_Asset cmd) (wc_NetworkName cmd) w = (Inr networkID, w1)" and
    "ValidateAddress regexp networkID (wc_DestinationAddress cmd) w1 = (Inr (), w2)" and
    "AccountID (wc_UserID cmd) (wc_Asset cmd) w2 = (Inr acct, w3)" and
    "ledgerStore_SumByUserAsset dp (wc_UserID cmd) (wc_Asset cmd) w3 = (Inr t, w4)" and
    "num_CmpString (dp_scan dp) (wc_Amount cmd) t = Inr c" and "c \<le> 0" and
    "withdraw_tx dp cmd networkID acct ((tick w4)\<lparr>w_tx := Some (w_db w4), w_abort := False\<rparr>) = (Inr (wr_Withdrawal res), w5)" and
    "w_db w' = w_db w5"
proof -
  have "\<exists>networkID acct t c w1 w2 w3 w4 w5 w6 r. 0 < num_Cmp (wc_Amount cmd) (num_Zero (dp_scan dp)) \<and>
    catalog_NetworkID (wc_Asset cmd) (wc_NetworkName cmd) w = (Inr networkID, w1) \<and>
    ValidateAddress regexp networkID (wc_DestinationAddress cmd) w1 = (Inr (), w2) \<and>
    AccountID (wc_UserID cmd) (wc_Asset cmd) w2 = (Inr acct, w3) \<and>
    ledgerStore_SumByUserAsset dp (wc_UserID cmd) (wc_Asset cmd) w3 = (Inr t, w4) \<and>
    num_CmpString (dp_scan dp) (wc_Amount cmd) t = Inr c \<and> c \<le> 0 \<and>
    withdraw_tx dp cmd networkID acct ((tick w4)\<lparr>w_tx := Some (w_db w4), w_abort := False\<rparr>) = (Inr (wr_Withdrawal res), w5) \<and>
    w6 = Rollback w5 \<and> ledgerStore_SumByUserAsset dp (wc_UserID cmd) (wc_Asset cmd) w6 = (r, w')"
    using assms unfolding Withdraw_def
    apply (simp only: if_throw_Inr bindE_Inr wrapE_Inr mapE_Inr liftE_Inr in_tx_Inr tryE_Inr returnE_Inr not_not not_le not_less)
    apply (elim exE conjE)
    apply (intro exI conjI)
    apply (assumption | simp | auto)+
    done
  then obtain networkID acct t c w1 w2 w3 w4 w5 w6 r where
    a: "0 < num_Cmp (wc_Amount cmd) (num_Zero (dp_scan dp))"
    "catalog_NetworkID (wc_Asset cmd) (wc_NetworkName cmd) w = (Inr networkID, w1)"
    "ValidateAddress regexp networkID (wc_DestinationAddress cmd) w1 = (Inr (), w2)"
    "AccountID (wc_UserID cmd) (wc_Asset cmd) w2 = (Inr acct, w3)"
    "ledgerStore_SumByUserAsset dp (wc_UserID cmd) (wc_Asset cmd) w3 = (Inr t, w4)"
    "num_CmpString (dp_scan dp) (wc_Amount cmd) t = Inr c" "c \<le> 0"
    "withdraw_tx dp cmd networkID acct ((tick w4)\<lparr>w_tx := Some (w_db w4), w_abort := False\<rparr>) = (Inr (wr_Withdrawal res), w5)" and
    b: "w6 = Rollback w5" "ledgerStore_SumByUserAsset dp (wc_UserID cmd) (wc_Asset cmd) w6 = (r, w')"
    by blast
  have "same_store w6 w'" using b(2) by (rule quietD [rotated]) (intro frame)
  then have "w_db w' = w_db w5" using b(1) by (simp add: same_store_def)
  then show thesis by (rule that [OF a])
qed

lemma Withdraw_change:
  assumes "Withdraw dp regexp cmd w = (Inr res, w')"
  obtains networkID acct i now t v v' where
    "wr_Withdrawal res = taken_withdrawal cmd networkID acct i now" and "\<forall>r \<in> set (db_withdrawals (w_db w)). i \<noteq> wd_ID r" and
    "\<not> key_claimed (wc_IdempotencyKey cmd) ScopeWithdraw (w_db w)" and
    "account_of (wc_UserID cmd) (wc_Asset cmd) (w_db w) = Some acct" and
    "withdraw_change dp cmd (wr_Withdrawal res) (w_db w) (w_db w')" and
    "toRat (num_Zero (dp_scan dp)) < toRat (wc_Amount cmd)" and
    "same_store w v" and "ledgerStore_SumByUserAsset dp (wc_UserID cmd) (wc_Asset cmd) v = (Inr t, v')" and
    "\<forall>m. num_Parse (dp_scan dp) t = Inr m \<longrightarrow> toRat (wc_Amount cmd) \<le> toRat m"
proof -
  obtain networkID acct t c w1 w2 w3 w4 w5 where
    r: "0 < num_Cmp (wc_Amount cmd) (num_Zero (dp_scan dp))"
    "catalog_NetworkID (wc_Asset cmd) (wc_NetworkName cmd) w = (Inr networkID, w1)"
    "ValidateAddress regexp networkID (wc_DestinationAddress cmd) w1 = (Inr (), w2)"
    "AccountID (wc_UserID cmd) (wc_Asset cmd) w2 = (Inr acct, w3)"
    "ledgerStore_SumByUserAsset dp (wc_UserID cmd) (wc_Asset cmd) w3 = (Inr t, w4)"
    "num_CmpString (dp_scan dp) (wc_Amount cmd) t = Inr c" "c \<le> 0"
    "withdraw_tx dp cmd networkID acct ((tick w4)\<lparr>w_tx := Some (w_db w4), w_abort := False\<rparr>) = (Inr (wr_Withdrawal res), w5)"
    "w_db w' = w_db w5"
    using assms by (rule Withdraw_run)
  have s2: "same_store w w2" using catalog_tx [OF r(2)] ValidateAddress_tx [OF r(3)] by (rule same_store_trans)
  have ac: "account_of (wc_UserID cmd) (wc_Asset cmd) (w_db w2) = Some acct" "w3 = tick w2" using r(4) by (auto simp: AccountID_Inr)
  have s3: "same_store w w3" using s2 ac(2) by simp
  have db2: "w_db w2 = w_db w" and db4: "w_db w4 = w_db w"
    using s2 s3 Sum_Inr [OF r(5)] by (auto simp: same_store_def)
  have tx: "w_tx ((tick w4)\<lparr>w_tx := Some (w_db w4), w_abort := False\<rparr>) = Some (w_db w)" using db4 by simp
  obtain i now where e: "wr_Withdrawal res = taken_withdrawal cmd networkID acct i now"
    "\<forall>r \<in> set (db_withdrawals (w_db w)). i \<noteq> wd_ID r" "\<not> key_claimed (wc_IdempotencyKey cmd) ScopeWithdraw (w_db w)"
    "withdraw_change dp cmd (wr_Withdrawal res) (w_db w) (w_db w5)"
    using withdraw_tx_effect [OF r(8) tx] by blast
  have le: "\<forall>m. num_Parse (dp_scan dp) t = Inr m \<longrightarrow> toRat (wc_Amount cmd) \<le> toRat m"
    using r(6,7) by (auto simp: num_CmpString_def num_Cmp_simps)
  show thesis
    by (rule that [OF e(1-3) _ _ _ s3 r(5) le]) (use ac(1) db2 e(4) r(1,9) in \<open>simp_all add: num_Cmp_simps\<close>)
qed

text \<open>What it does to the balances, in units of the columns.\<close>

lemma withdraw_change_balance:
  assumes sc: "scans_decimals (dp_scan dp)" and c: "withdraw_change dp cmd (taken_withdrawal cmd networkID acct i now) d d'"
  shows "balance u a d' = sql_add (balance u a d)
    (QNum (if u = wc_UserID cmd \<and> a = wc_Asset cmd then - dec_units (toRat (wc_Amount cmd)) else 0))"
proof -
  obtain e t n where n: "num_row (num_Neg (dp_scan dp) (wc_Amount cmd)) = Inr n"
    and d': "db_ledger d' = db_ledger d @ [ledger_row (withdraw_entry dp (taken_withdrawal cmd networkID acct i now) e t) n]"
    using c unfolding withdraw_change_def by auto
  have "n = QNum (- dec_units (toRat (wc_Amount cmd)))"
    using num_row_plainD [OF num_op_plain(4) [OF sc] n] by (simp add: num_Neg_value [OF sc])
  then show ?thesis by (subst balance_append [OF d']) (auto simp: taken_withdrawal_def)
qed

lemma Withdraw_balance:
  assumes dp: "deps_ok dp" and run: "Withdraw dp regexp cmd w = (Inr res, w')"
    and bal: "balance (wc_UserID cmd) (wc_Asset cmd) (w_db w) = QNum k"
  shows "0 < toRat (wc_Amount cmd) \<and> toRat (wc_Amount cmd) \<le> of_units k \<and> dec_units (toRat (wc_Amount cmd)) \<le> k \<and>
    balance u a (w_db w') = sql_add (balance u a (w_db w))
      (QNum (if u = wc_UserID cmd \<and> a = wc_Asset cmd then - dec_units (toRat (wc_Amount cmd)) else 0))"
proof -
  obtain networkID acct i now t v v' where
    c: "wr_Withdrawal res = taken_withdrawal cmd networkID acct i now"
    "withdraw_change dp cmd (wr_Withdrawal res) (w_db w) (w_db w')"
    "toRat (num_Zero (dp_scan dp)) < toRat (wc_Amount cmd)" "same_store w v"
    "ledgerStore_SumByUserAsset dp (wc_UserID cmd) (wc_Asset cmd) v = (Inr t, v')"
    "\<forall>m. num_Parse (dp_scan dp) t = Inr m \<longrightarrow> toRat (wc_Amount cmd) \<le> toRat m"
    using run by (rule Withdraw_change)
  have "balance (wc_UserID cmd) (wc_Asset cmd) (w_db v) = QNum k" using c(4) bal by (simp add: same_store_def)
  then obtain m where "num_Parse (dp_scan dp) t = Inr m" "toRat m = of_units k" using Sum_value [OF dp c(5)] by blast
  then have le: "toRat (wc_Amount cmd) \<le> of_units k" using c(6) by metis
  have "dec_units (toRat (wc_Amount cmd)) \<le> k" using dec_units_mono [OF le] by simp
  then show ?thesis
    using le withdraw_change_balance [OF deps_okD(1) [OF dp] c(2) [unfolded c(1)], of u a] c(3)
    by (simp add: num_Zero_value(1) [OF deps_okD(1) [OF dp]])
qed

end
