(* ===== verification/Wallet_Properties.thy ===== *)
theory Wallet_Properties
  imports Deposit_Properties
begin

text \<open>
  Deposit addresses: what the retry loop commits, that asking twice gives the same address, and that
  a generated address matches the pattern the catalog has for its network, so that it is accepted as
  the destination of a withdrawal.
\<close>

subsection \<open>One attempt and the loop\<close>

definition new_address :: "uuid \<Rightarrow> string \<Rightarrow> uuid \<Rightarrow> wallet_address \<Rightarrow> db \<Rightarrow> db \<Rightarrow> bool" where
  "new_address u asset networkID a d d' \<longleftrightarrow>
     wa_UserID a = u \<and> wa_Asset a = asset \<and> wa_NetworkID a = networkID \<and> insert_wallet a d = Inr ((), d')"

lemma address_attempt_Some:
  assumes "address_attempt rnd u asset net i w = (Inr (Some a), w')"
  shows "new_address u asset i a (w_db w) (w_db w') \<and> w_engine w' = w_engine w \<and>
    (\<exists>v v'. generateMockAddress rnd net v = (Inr (wa_Address a), v'))"
proof -
  have "\<exists>s k now w1 w2 w3 w4 w5 r b. generateMockAddress rnd net w = (Inr s, w1) \<and> NewV7 w1 = (Inr k, w2) \<and>
      Now ((tick w2)\<lparr>w_tx := Some (w_db w2), w_abort := False\<rparr>) = (Inr now :: gerr + gotime, w3) \<and>
      b = \<lparr>wa_ID = k, wa_UserID = u, wa_Asset = asset, wa_NetworkID = i, wa_Address = s, wa_CreatedAt = now\<rparr> \<and>
      walletStore_Create b w3 = (r, w4) \<and>
      (case r of Inl err \<Rightarrow> if errors_is err ErrConflict then returnE None
            else throwE (Wrapped ''GetOrCreateAddress create: '' err [])
        | Inr _ \<Rightarrow> bindE (commit_tx ''GetOrCreateAddress commit: '') (\<lambda>_. returnE (Some b))) w4 = (Inr (Some a), w5) \<and> w' = Rollback w5"
    using assms unfolding address_attempt_def
    apply (simp only: bindE_Inr wrapE_Inr mapE_Inr in_tx_Inr tryE_Inr Let_def)
    apply (elim exE conjE)
    apply (intro exI conjI)
    apply (assumption | rule refl | simp)+
    done
  then obtain s k now w1 w2 w3 w4 w5 r b where
    s1: "generateMockAddress rnd net w = (Inr s, w1)" and s2: "NewV7 w1 = (Inr k, w2)" and
    s3: "Now ((tick w2)\<lparr>w_tx := Some (w_db w2), w_abort := False\<rparr>) = (Inr now :: gerr + gotime, w3)" and
    b: "b = \<lparr>wa_ID = k, wa_UserID = u, wa_Asset = asset, wa_NetworkID = i, wa_Address = s, wa_CreatedAt = now\<rparr>" and
    s4: "walletStore_Create b w3 = (r, w4)" and
    k: "(case r of Inl err \<Rightarrow> if errors_is err ErrConflict then returnE None
            else throwE (Wrapped ''GetOrCreateAddress create: '' err [])
        | Inr _ \<Rightarrow> bindE (commit_tx ''GetOrCreateAddress commit: '') (\<lambda>_. returnE (Some b))) w4 = (Inr (Some a), w5)" and
    w': "w' = Rollback w5"
    by blast
  obtain x where r: "r = Inr x" using k by (cases r) (auto simp: returnE_Inr throwE_Inr split: if_splits)
  then have c: "Commit w4 = (Inr (), w5)" "a = b" using k by (auto simp: bindE_Inr commit_tx_Inr returnE_Inr)
  have ss: "same_store w w2" using quietD [OF quiet_generateMockAddress s1] NewV7_run [OF s2] same_store_trans by blast
  have tx: "w_tx w3 = Some (w_db w)" "same_store w w3"
    using Now_run [OF s3] ss by (auto simp: same_store_def)
  obtain d' where d': "insert_wallet b (w_db w) = Inr ((), d')" "w_tx w4 = Some d'" "same_store w3 w4"
    using wallet_create_run [OF s4 [unfolded r] tx(1)] by metis
  have "w_db w' = d'" "w_engine w' = w_engine w"
    using Commit_run [OF c(1) d'(2)] w' d'(3) tx(2) by (simp_all add: same_store_def)
  then show ?thesis using d'(1) c(2) s1 by (auto simp: new_address_def b)
qed

lemma address_attempt_other:
  assumes "address_attempt rnd u asset net i w = (r, w')" and "\<forall>a. r \<noteq> Inr (Some a)"
  shows "same_store w w'"
proof (cases r)
  case (Inl e)
  have "atomic (address_attempt rnd u asset net i)"
    unfolding address_attempt_def Let_def
    by (intro atomic_cases atomic_bind atomic_in_tx atomic_commit_bind quiet_atomic frame after_commit)
  then show ?thesis using assms(1) Inl unfolding atomic_def by blast
next
  case (Inr x)
  then have x: "address_attempt rnd u asset net i w = (Inr None, w')" using assms by (cases x) auto
  have "\<exists>s k w1 w2 w3 w4 w5 rr b now. generateMockAddress rnd net w = (Inr s, w1) \<and> NewV7 w1 = (Inr k, w2) \<and>
      Now ((tick w2)\<lparr>w_tx := Some (w_db w2), w_abort := False\<rparr>) = (Inr now :: gerr + gotime, w3) \<and>
      walletStore_Create b w3 = (rr, w4) \<and> w_db w5 = w_db w4 \<and> w_engine w5 = w_engine w4 \<and> w' = Rollback w5"
    using x unfolding address_attempt_def
    apply (simp only: bindE_Inr wrapE_Inr mapE_Inr in_tx_Inr tryE_Inr Let_def)
    apply (elim exE conjE)
    apply (intro exI conjI)
    apply (assumption | rule refl | simp add: bindE_Inr returnE_Inr throwE_Inr split: sum.splits if_splits)+
    done
  then obtain s k w1 w2 w3 w4 w5 rr b now where
    s1: "generateMockAddress rnd net w = (Inr s, w1)" and s2: "NewV7 w1 = (Inr k, w2)" and
    s3: "Now ((tick w2)\<lparr>w_tx := Some (w_db w2), w_abort := False\<rparr>) = (Inr now :: gerr + gotime, w3)" and
    s4: "walletStore_Create b w3 = (rr, w4)" and e: "w_db w5 = w_db w4" "w_engine w5 = w_engine w4" "w' = Rollback w5"
    by blast
  have "same_store w w2" using quietD [OF quiet_generateMockAddress s1] NewV7_run [OF s2] same_store_trans by blast
  moreover have "same_store w3 w4" using s4 by (rule quietD [OF quiet_wallet(1)])
  ultimately show ?thesis using Now_run [OF s3] e by (auto simp: same_store_def)
qed

lemma address_loop_cases:
  assumes "address_loop k rnd u asset net i w = (r, w')"
  shows "case r of Inl e \<Rightarrow> same_store w w'
    | Inr a \<Rightarrow> new_address u asset i a (w_db w) (w_db w') \<and> w_engine w' = w_engine w \<and>
        (\<exists>v v'. generateMockAddress rnd net v = (Inr (wa_Address a), v'))"
  using assms
proof (induction k arbitrary: w)
  case 0
  then show ?case by (auto simp: throwE_def)
next
  case (Suc k)
  obtain q w1 where q: "address_attempt rnd u asset net i w = (q, w1)" by fastforce
  show ?case
  proof (cases q)
    case (Inl e)
    then show ?thesis using Suc.prems q address_attempt_other [OF q] by (auto simp: bindE_def)
  next
    case (Inr x)
    show ?thesis
    proof (cases x)
      case None
      then have "same_store w w1" using address_attempt_other [OF q] Inr by simp
      moreover have "address_loop k rnd u asset net i w1 = (r, w')" using Suc.prems q Inr None by (simp add: bindE_def)
      ultimately show ?thesis using Suc.IH [of w1] by (auto simp: same_store_def split: sum.splits)
    next
      case (Some a)
      then show ?thesis using Suc.prems q Inr address_attempt_Some [of rnd u asset net i w a w1] by (auto simp: bindE_def returnE_def) blast
    qed
  qed
qed

subsection \<open>The service\<close>

lemma bindE_mapE_run: "m w = (Inr a, w1) \<Longrightarrow> bindE (mapE g m) f w = f a w1"
  by (simp add: bindE_def mapE_def)

lemma bindE_tryE: "m w = (r, w1) \<Longrightarrow> bindE (tryE m) f w = f r w1"
  by (simp add: bindE_def tryE_def)

definition wallet_of :: "uuid \<Rightarrow> string \<Rightarrow> uuid \<Rightarrow> db \<Rightarrow> wallet_address list" where
  "wallet_of u asset i d = filter (\<lambda>a. wa_UserID a = u \<and> wa_Asset a = asset \<and> wa_NetworkID a = i) (db_wallets d)"

definition wallets_unique :: "db \<Rightarrow> bool" where
  "wallets_unique d \<longleftrightarrow> distinct (map (\<lambda>a. (wa_UserID a, wa_Asset a, wa_NetworkID a)) (db_wallets d)) \<and>
     distinct (map wa_Address (db_wallets d)) \<and> distinct (map wa_ID (db_wallets d))"

lemma new_address_unique: "new_address u asset i a d d' \<Longrightarrow> wallets_unique d \<Longrightarrow> wallets_unique d'"
  by (auto simp: new_address_def insert_wallet_Inr wallets_unique_def)

lemma GetOrCreateAddress_cases:
  assumes "GetOrCreateAddress rnd u asset net w = (r, w')"
  shows "case r of Inl e \<Rightarrow> same_store w w'
    | Inr a \<Rightarrow> w_engine w' = w_engine w \<and> (\<exists>i w1. catalog_NetworkID asset net w = (Inr i, w1) \<and>
        ((\<exists>as. wallet_of u asset i (w_db w) = a # as) \<and> w_db w' = w_db w \<or>
         wallet_of u asset i (w_db w) = [] \<and> account_of u asset (w_db w) \<noteq> None \<and> new_address u asset i a (w_db w) (w_db w') \<and>
         (\<exists>v v'. generateMockAddress rnd net v = (Inr (wa_Address a), v'))))"
proof -
  obtain q1 w1 where 1: "catalog_NetworkID asset net w = (q1, w1)" by fastforce
  have s1: "same_store w w1" using 1 by (rule quietD [rotated]) (intro frame)
  show ?thesis
  proof (cases q1)
    case (Inl e)
    then show ?thesis using assms 1 s1 by (auto simp: GetOrCreateAddress_def bindE_def mapE_def)
  next
    case (Inr i)
    obtain q2 w2 where 2: "walletStore_GetByUserAssetNetwork u asset i w1 = (q2, w2)" by fastforce
    have s2: "same_store w w2" using quietD [OF quiet_wallet(2) 2] s1 same_store_trans by blast
    have c1: "catalog_NetworkID asset net w = (Inr i, w1)" using 1 Inr by simp
    show ?thesis
    proof (cases q2)
      case (Inr a)
      then have "\<exists>as. wallet_of u asset i (w_db w1) = a # as"
        using 2 by (auto simp: walletStore_GetByUserAssetNetwork_def ok_simps wallet_of_def)
      moreover have "r = Inr a" "w' = w2"
        using assms Inr unfolding GetOrCreateAddress_def bindE_mapE_run [where m = "catalog_NetworkID asset net" and w = w, OF c1]
          bindE_tryE [where m = "walletStore_GetByUserAssetNetwork u asset i" and w = w1, OF 2] by (simp_all add: returnE_def)
      ultimately show ?thesis using 1 \<open>q1 = Inr i\<close> s1 s2 by (auto simp: same_store_def)
    next
      case (Inl e)
      have k: "GetOrCreateAddress rnd u asset net w =
        (if \<not> errors_is e ErrNotFound then throwE (Wrapped ''GetOrCreateAddress lookup: '' e [])
         else bindE (mapE (not_found_invalid ''GetOrCreateAddress account check: '') (AccountID u asset)) (\<lambda>_.
              address_loop 3 rnd u asset net i)) w2"
        using Inl unfolding GetOrCreateAddress_def bindE_mapE_run [where m = "catalog_NetworkID asset net" and w = w, OF c1]
          bindE_tryE [where m = "walletStore_GetByUserAssetNetwork u asset i" and w = w1, OF 2] by simp
      show ?thesis
      proof (cases "errors_is e ErrNotFound")
        case False
        then show ?thesis using assms k s2 by (auto simp: throwE_def)
      next
        case True
        have none: "wallet_of u asset i (w_db w) = []"
          using 2 Inl True s1
          by (auto simp: walletStore_GetByUserAssetNetwork_def mapE_Inl pool_query_row_def bindE_Inl pool_query_def
              first_row_def throwE_def returnE_def row_err_def wallet_of_def same_store_def split: if_splits list.splits)
        obtain q3 w3 where 3: "AccountID u asset w2 = (q3, w3)" by fastforce
        have "same_store w2 w3" using 3 by (rule quietD [OF quiet_account(10)])
        with s2 have s3: "same_store w w3" by (rule same_store_trans)
        show ?thesis
        proof (cases q3)
          case (Inl e3)
          then show ?thesis using assms k True 3 s3 by (auto simp: bindE_def mapE_def)
        next
          case (Inr acct)
          have "address_loop 3 rnd u asset net i w3 = (r, w')" using assms k True 3 Inr by (simp add: bindE_def mapE_def)
          from address_loop_cases [OF this] show ?thesis
            using 1 \<open>q1 = Inr i\<close> none 3 Inr s2 s3 by (auto simp: same_store_def AccountID_Inr split: sum.splits)
        qed
      qed
    qed
  qed
qed

lemma catalog_same:
  assumes "catalog_NetworkID asset net w = (Inr i, w1)" and "catalog_NetworkID asset net v = (Inr j, v1)"
    and "db_networks (w_db v) = db_networks (w_db w)"
  shows "j = i"
  using assms by (auto simp: catalog_NetworkID_def asset_GetNetwork_def assetStore_GetNetwork_def ok_simps)

lemma GetOrCreateAddress_Inr:
  assumes "GetOrCreateAddress rnd u asset net w = (Inr a, w1)"
  obtains (old) i v as where "catalog_NetworkID asset net w = (Inr i, v)" and "wallet_of u asset i (w_db w) = a # as" and "w_db w1 = w_db w"
  | (fresh) i v where "catalog_NetworkID asset net w = (Inr i, v)" and "wallet_of u asset i (w_db w) = []"
      and "account_of u asset (w_db w) \<noteq> None" and "new_address u asset i a (w_db w) (w_db w1)"
proof -
  have "\<exists>i v. catalog_NetworkID asset net w = (Inr i, v) \<and> ((\<exists>as. wallet_of u asset i (w_db w) = a # as) \<and> w_db w1 = w_db w \<or>
      wallet_of u asset i (w_db w) = [] \<and> account_of u asset (w_db w) \<noteq> None \<and> new_address u asset i a (w_db w) (w_db w1))"
    using GetOrCreateAddress_cases [OF assms] unfolding sum.case by blast
  then show thesis using old fresh by blast
qed

lemma new_address_row: "new_address u asset i a d d' \<Longrightarrow> d' = d\<lparr>db_wallets := db_wallets d @ [a]\<rparr>"
  by (simp add: new_address_def insert_wallet_Inr)

lemma GetOrCreateAddress_stored:
  assumes "GetOrCreateAddress rnd u asset net w = (Inr a, w1)"
  obtains i v as where "catalog_NetworkID asset net w = (Inr i, v)" and "wallet_of u asset i (w_db w1) = a # as"
    and "db_networks (w_db w1) = db_networks (w_db w)" and "wa_UserID a = u" and "wa_Asset a = asset"
  using assms
proof (cases rule: GetOrCreateAddress_Inr)
  case (old i v as)
  moreover have "wa_UserID a = u" "wa_Asset a = asset" using old(2) by (auto simp: wallet_of_def filter_eq_Cons_iff)
  ultimately show thesis using that [OF old(1)] by simp
next
  case (fresh i v)
  have "wallet_of u asset i (w_db w1) = [a]"
    using fresh(2,4) new_address_row [OF fresh(4)] by (simp add: wallet_of_def new_address_def)
  then show thesis using that [OF fresh(1)] fresh(4) new_address_row [OF fresh(4)] by (simp add: new_address_def)
qed

lemma GetOrCreateAddress_again:
  assumes "GetOrCreateAddress rnd u asset net w = (Inr a, w1)" and "w_db w2 = w_db w1"
    and "GetOrCreateAddress rnd' u asset net w2 = (Inr b, w3)"
  shows "b = a \<and> w_db w3 = w_db w2"
proof -
  obtain i v as where i: "catalog_NetworkID asset net w = (Inr i, v)" "wallet_of u asset i (w_db w1) = a # as"
    "db_networks (w_db w1) = db_networks (w_db w)"
    using assms(1) by (rule GetOrCreateAddress_stored)
  show ?thesis using assms(3)
  proof (cases rule: GetOrCreateAddress_Inr)
    case (old j v' bs)
    then show ?thesis using catalog_same [OF i(1) old(1)] i assms(2) by simp
  next
    case (fresh j v')
    then show ?thesis using catalog_same [OF i(1) fresh(1)] i assms(2) by simp
  qed
qed

text \<open>
  C17. \<open>GetOrCreateAddress\<close> creates at most one address per user, asset and network: it returns the
  stored one unchanged, or stores one new row for a user who has an account for the asset; asking
  again gives the same address and changes nothing, and a call that fails changes nothing, however
  many of its attempts collided.
\<close>
theorem GetOrCreateAddress_once:
  assumes "wallets_unique (w_db w)" and "GetOrCreateAddress rnd u asset net w = (r, w1)"
  shows "wallets_unique (w_db w1) \<and>
    (case r of Inl e \<Rightarrow> w_db w1 = w_db w
     | Inr a \<Rightarrow> wa_UserID a = u \<and> wa_Asset a = asset \<and>
         (a \<in> set (db_wallets (w_db w)) \<and> w_db w1 = w_db w \<or>
          account_of u asset (w_db w) \<noteq> None \<and> w_db w1 = (w_db w)\<lparr>db_wallets := db_wallets (w_db w) @ [a]\<rparr>) \<and>
         (\<forall>w2 b w3. w_db w2 = w_db w1 \<longrightarrow> GetOrCreateAddress rnd' u asset net w2 = (Inr b, w3) \<longrightarrow> b = a \<and> w_db w3 = w_db w2))"
proof (cases r)
  case (Inl e)
  then show ?thesis using GetOrCreateAddress_cases [OF assms(2)] assms(1) by (simp add: same_store_def)
next
  case (Inr a)
  then have run: "GetOrCreateAddress rnd u asset net w = (Inr a, w1)" using assms(2) by simp
  note again = GetOrCreateAddress_again [OF run]
  have ua: "wa_UserID a = u" "wa_Asset a = asset" by (rule GetOrCreateAddress_stored [OF run], assumption)+
  have all: "\<forall>w2 b w3. w_db w2 = w_db w1 \<longrightarrow> GetOrCreateAddress rnd' u asset net w2 = (Inr b, w3) \<longrightarrow> b = a \<and> w_db w3 = w_db w2"
    using again by blast
  have st: "wallets_unique (w_db w1) \<and> (a \<in> set (db_wallets (w_db w)) \<and> w_db w1 = w_db w \<or>
      account_of u asset (w_db w) \<noteq> None \<and> w_db w1 = (w_db w)\<lparr>db_wallets := db_wallets (w_db w) @ [a]\<rparr>)"
    using run
  proof (cases rule: GetOrCreateAddress_Inr)
    case (old i v as)
    then have "a \<in> set (db_wallets (w_db w))" by (auto simp: wallet_of_def filter_eq_Cons_iff)
    then show ?thesis using old(3) assms(1) by simp
  next
    case (fresh i v)
    show ?thesis using new_address_unique [OF fresh(4) assms(1)] new_address_row [OF fresh(4)] fresh(3) by simp
  qed
  show ?thesis unfolding Inr sum.case by (intro conjI st [THEN conjunct1] st [THEN conjunct2] ua all)
qed

subsection \<open>Generated addresses and the catalog's patterns\<close>

text \<open>
  The patterns of the networks seeded by migrations/00012_create_asset_catalog.sql, by network name,
  and what they accept (RE2, anchored at both ends).
\<close>

definition btc_pattern :: string where "btc_pattern = ''^(bc1|[13])[a-zA-HJ-NP-Z0-9]{25,62}$''"
definition evm_pattern :: string where "evm_pattern = ''^0x[a-fA-F0-9]{40}$''"
definition tron_pattern :: string where "tron_pattern = ''^T[a-zA-Z0-9]{33}$''"
definition sol_pattern :: string where "sol_pattern = ''^[1-9A-HJ-NP-Za-km-z]{32,44}$''"

definition seeded_pattern :: "string \<Rightarrow> string option" where
  "seeded_pattern net =
     (if net = ''Bitcoin'' then Some btc_pattern
      else if net = ''ERC20'' \<or> net = ''BEP20'' then Some evm_pattern
      else if net = ''TRON'' then Some tron_pattern
      else if net = ''Solana'' then Some sol_pattern
      else None)"

definition char_range :: "char \<Rightarrow> char \<Rightarrow> char \<Rightarrow> bool" where
  "char_range a b c \<longleftrightarrow> (of_char a :: nat) \<le> of_char c \<and> (of_char c :: nat) \<le> of_char b"

definition repeated :: "(char \<Rightarrow> bool) \<Rightarrow> nat \<Rightarrow> nat \<Rightarrow> string \<Rightarrow> bool" where
  "repeated cls lo hi s \<longleftrightarrow> list_all cls s \<and> lo \<le> length s \<and> length s \<le> hi"

definition btc_class :: "char \<Rightarrow> bool" where
  "btc_class c \<longleftrightarrow> char_range CHR ''a'' CHR ''z'' c \<or> char_range CHR ''A'' CHR ''H'' c \<or> char_range CHR ''J'' CHR ''N'' c \<or>
     char_range CHR ''P'' CHR ''Z'' c \<or> char_range CHR ''0'' CHR ''9'' c"

definition hex_class :: "char \<Rightarrow> bool" where
  "hex_class c \<longleftrightarrow> char_range CHR ''a'' CHR ''f'' c \<or> char_range CHR ''A'' CHR ''F'' c \<or> char_range CHR ''0'' CHR ''9'' c"

definition alnum_class :: "char \<Rightarrow> bool" where
  "alnum_class c \<longleftrightarrow> char_range CHR ''a'' CHR ''z'' c \<or> char_range CHR ''A'' CHR ''Z'' c \<or> char_range CHR ''0'' CHR ''9'' c"

definition sol_class :: "char \<Rightarrow> bool" where
  "sol_class c \<longleftrightarrow> char_range CHR ''1'' CHR ''9'' c \<or> char_range CHR ''A'' CHR ''H'' c \<or> char_range CHR ''J'' CHR ''N'' c \<or>
     char_range CHR ''P'' CHR ''Z'' c \<or> char_range CHR ''a'' CHR ''k'' c \<or> char_range CHR ''m'' CHR ''z'' c"

definition pattern_accepts :: "string \<Rightarrow> string \<Rightarrow> bool" where
  "pattern_accepts p s \<longleftrightarrow>
     (if p = btc_pattern
      then take 3 s = ''bc1'' \<and> repeated btc_class 25 62 (drop 3 s) \<or>
           (take 1 s = ''1'' \<or> take 1 s = ''3'') \<and> repeated btc_class 25 62 (drop 1 s)
      else if p = evm_pattern then take 2 s = ''0x'' \<and> repeated hex_class 40 40 (drop 2 s)
      else if p = tron_pattern then take 1 s = ''T'' \<and> repeated alnum_class 33 33 (drop 1 s)
      else if p = sol_pattern then repeated sol_class 32 44 s
      else False)"

text \<open>What is assumed of the regexp package: it compiles the seeded patterns and matches as they say.\<close>

definition regexp_seeded :: "regexp \<Rightarrow> bool" where
  "regexp_seeded re \<longleftrightarrow> (\<forall>net p. seeded_pattern net = Some p \<longrightarrow> (\<exists>m. re p = Some m \<and> (\<forall>s. m s = pattern_accepts p s)))"

definition full_reads :: "random_source \<Rightarrow> bool" where
  "full_reads rnd \<longleftrightarrow> (\<forall>t n bs. rnd t n = Some bs \<longrightarrow> length bs = n)"

lemma base58_alphabet: "length base58Alphabet = 58" "list_all (\<lambda>c. btc_class c \<and> alnum_class c \<and> sol_class c) base58Alphabet"
  by (simp_all add: base58Alphabet_def btc_class_def alnum_class_def sol_class_def char_range_def)

lemma base58_char: "j < 58 \<Longrightarrow> btc_class (base58Alphabet ! j) \<and> alnum_class (base58Alphabet ! j) \<and> sol_class (base58Alphabet ! j)"
  using base58_alphabet by (simp add: list_all_length)

lemma base58Like_ok:
  "length (base58Like seed n) = n" "list_all btc_class (base58Like seed n)" "list_all alnum_class (base58Like seed n)"
  "list_all sol_class (base58Like seed n)"
proof -
  have "length (base58_from seed i n) = n \<and> list_all (\<lambda>c. btc_class c \<and> alnum_class c \<and> sol_class c) (base58_from seed i n)" for i
    by (induction n arbitrary: seed i) (auto simp: Let_def base58_alphabet(1) base58_char)
  then show "length (base58Like seed n) = n" "list_all btc_class (base58Like seed n)" "list_all alnum_class (base58Like seed n)"
    "list_all sol_class (base58Like seed n)"
    by (simp_all add: base58Like_def list_all_iff)
qed

lemma hex_digit_class: "k < 16 \<Longrightarrow> hex_class (hex_digit k)"
proof -
  have "list_all hex_class ''0123456789abcdef''" by (simp add: hex_class_def char_range_def)
  then show "k < 16 \<Longrightarrow> hex_class (hex_digit k)" unfolding hex_digit_def list_all_length by simp
qed

lemma hex_encode_ok: "length (hex_encode bs) = 2 * length bs" "list_all hex_class (hex_encode bs)"
proof -
  have "unat b < 2 ^ LENGTH(8)" for b :: "8 word" by (rule unsigned_less)
  then have "unat b div 16 < 16" for b :: "8 word" by (simp add: less_mult_imp_div_less)
  then show "length (hex_encode bs) = 2 * length bs" "list_all hex_class (hex_encode bs)"
    by (induction bs) (simp_all add: hex_encode_def hex_digit_class)
qed

lemma pattern_accepts_simps:
  "pattern_accepts btc_pattern (''bc1'' @ s) \<longleftrightarrow> repeated btc_class 25 62 s"
  "pattern_accepts evm_pattern (''0x'' @ s) \<longleftrightarrow> repeated hex_class 40 40 s"
  "pattern_accepts tron_pattern (''T'' @ s) \<longleftrightarrow> repeated alnum_class 33 33 s"
  "pattern_accepts sol_pattern s \<longleftrightarrow> repeated sol_class 32 44 s"
proof -
  have ne: "evm_pattern \<noteq> btc_pattern" "tron_pattern \<noteq> btc_pattern" "sol_pattern \<noteq> btc_pattern"
    "tron_pattern \<noteq> evm_pattern" "sol_pattern \<noteq> evm_pattern" "sol_pattern \<noteq> tron_pattern"
    by (simp_all add: btc_pattern_def evm_pattern_def tron_pattern_def sol_pattern_def)
  show "pattern_accepts btc_pattern (''bc1'' @ s) \<longleftrightarrow> repeated btc_class 25 62 s"
    "pattern_accepts evm_pattern (''0x'' @ s) \<longleftrightarrow> repeated hex_class 40 40 s"
    "pattern_accepts tron_pattern (''T'' @ s) \<longleftrightarrow> repeated alnum_class 33 33 s"
    "pattern_accepts sol_pattern s \<longleftrightarrow> repeated sol_class 32 44 s"
    by (simp_all add: pattern_accepts_def ne)
qed

lemma generated_matches:
  assumes "full_reads rnd" and "generateMockAddress rnd net w = (Inr s, w')" and "seeded_pattern net = Some p"
  shows "pattern_accepts p s"
proof -
  have len: "length b = n" if "rand_read rnd n w = (Inr b, v)" for n b v
    using that assms(1) by (auto simp: rand_read_def full_reads_def split: option.splits)
  note gen = assms(2) [unfolded generateMockAddress_def Let_def]
  consider "net = ''Bitcoin''" | "net = ''ERC20'' \<or> net = ''BEP20''" | "net = ''TRON''" | "net = ''Solana''"
    using assms(3) by (auto simp: seeded_pattern_def split: if_splits)
  then show ?thesis
  proof cases
    case 1
    have p: "p = btc_pattern" using assms(3) 1 by (simp add: seeded_pattern_def)
    obtain b where "s = ''bc1'' @ base58Like b 39" using gen 1 by (auto simp: bindE_Inr returnE_Inr)
    then show ?thesis by (simp only: p pattern_accepts_simps) (simp add: repeated_def base58Like_ok)
  next
    case 2
    have p: "p = evm_pattern" using assms(3) 2 by (auto simp: seeded_pattern_def)
    obtain b v where b: "rand_read rnd 20 w = (Inr b, v)" "s = ''0x'' @ hex_encode b"
      using gen 2 by (auto simp: bindE_Inr returnE_Inr wrapE_Inr)
    show ?thesis using len [OF b(1)] by (simp only: p b(2) pattern_accepts_simps) (simp add: repeated_def hex_encode_ok)
  next
    case 3
    have p: "p = tron_pattern" using assms(3) 3 by (simp add: seeded_pattern_def)
    obtain b where "s = ''T'' @ base58Like b 33" using gen 3 by (auto simp: bindE_Inr returnE_Inr)
    then show ?thesis by (simp only: p pattern_accepts_simps) (simp add: repeated_def base58Like_ok)
  next
    case 4
    have p: "p = sol_pattern" using assms(3) 4 by (simp add: seeded_pattern_def)
    obtain b where "s = base58Like b 44" using gen 4 by (auto simp: bindE_Inr returnE_Inr)
    then show ?thesis by (simp only: p pattern_accepts_simps) (simp add: repeated_def base58Like_ok)
  qed
qed

text \<open>The networks of the catalog as the migration seeds them.\<close>

definition networks_seeded :: "db \<Rightarrow> bool" where
  "networks_seeded d \<longleftrightarrow> distinct (map n_ID (db_networks d)) \<and>
     (\<forall>n \<in> set (db_networks d). seeded_pattern (n_Name n) = Some (n_AddressPattern n))"

lemma seeded_pattern_nonempty: "seeded_pattern net = Some p \<Longrightarrow> p \<noteq> []"
  by (auto simp: seeded_pattern_def btc_pattern_def evm_pattern_def tron_pattern_def sol_pattern_def split: if_splits)

lemma networks_by_id:
  assumes "distinct (map n_ID ns)" and "n \<in> set ns"
  shows "filter (\<lambda>m. n_ID m = n_ID n) ns = [n]"
  using assms by (induction ns) (auto simp: filter_empty_conv image_iff)

lemma catalog_row:
  assumes "catalog_NetworkID asset net w = (Inr i, w1)"
  obtains n where "n \<in> set (db_networks (w_db w))" and "n_ID n = i" and "n_Name n = net"
proof -
  obtain n ns where "filter (\<lambda>n. n_AssetSymbol n = asset \<and> n_Name n = net) (db_networks (w_db w)) = n # ns" "i = n_ID n"
    using assms by (auto simp: catalog_NetworkID_def asset_GetNetwork_def assetStore_GetNetwork_def ok_simps scanNetwork_def)
  then show thesis using that [of n] by (auto simp: filter_eq_Cons_iff)
qed

text \<open>
  A generated address can be withdrawn to: over the seeded catalog, an address \<open>GetOrCreateAddress\<close>
  has just created matches the pattern of its network, so that the \<open>ValidateAddress\<close> of a withdrawal
  accepts it.
\<close>
theorem generated_address_accepted:
  assumes "full_reads rnd" and "regexp_seeded re" and "networks_seeded (w_db w)"
    and "GetOrCreateAddress rnd u asset net w = (Inr a, w1)" and "a \<notin> set (db_wallets (w_db w))"
    and "db_networks (w_db w2) = db_networks (w_db w)" and "\<not> faulty w2"
  shows "ValidateAddress re (wa_NetworkID a) (wa_Address a) w2 = (Inr (), tick w2)"
proof -
  obtain i v where i: "catalog_NetworkID asset net w = (Inr i, v)" and
    c: "(\<exists>as. wallet_of u asset i (w_db w) = a # as) \<or>
        new_address u asset i a (w_db w) (w_db w1) \<and> (\<exists>v v'. generateMockAddress rnd net v = (Inr (wa_Address a), v'))"
    using GetOrCreateAddress_cases [OF assms(4)] unfolding sum.case by blast
  have "\<nexists>as. wallet_of u asset i (w_db w) = a # as" using assms(5) by (auto simp: wallet_of_def filter_eq_Cons_iff)
  then obtain v1 v2 where new: "wa_NetworkID a = i" and gen: "generateMockAddress rnd net v1 = (Inr (wa_Address a), v2)"
    using c by (auto simp: new_address_def)
  obtain n where n: "n \<in> set (db_networks (w_db w))" "n_ID n = i" "n_Name n = net" using i by (rule catalog_row)
  have p: "seeded_pattern net = Some (n_AddressPattern n)" using assms(3) n by (auto simp: networks_seeded_def)
  obtain m where m: "re (n_AddressPattern n) = Some m" "m (wa_Address a)"
    using assms(2) p generated_matches [OF assms(1) gen p] unfolding regexp_seeded_def by metis
  have row: "filter (\<lambda>m. n_ID m = i) (db_networks (w_db w2)) = [n]"
    using networks_by_id [OF _ n(1)] assms(3,6) n(2) by (simp add: networks_seeded_def)
  have "mapE g (assetStore_GetNetworkByID i) w2 = (Inr (scanNetwork n), tick w2)" for g :: "gerr \<Rightarrow> gerr"
    using row assms(7) by (simp add: assetStore_GetNetworkByID_def ok_simps)
  then show ?thesis
    using new m seeded_pattern_nonempty [OF p] by (simp add: ValidateAddress_def bindE_def scanNetwork_def returnE_def)
qed

subsection \<open>An example: user 5 asks for a USDT address on TRON\<close>

definition ex_network :: "sqlnum network_rec" where
  "ex_network = \<lparr>n_ID = 40, n_AssetSymbol = ''USDT'', n_Name = ''TRON'', n_ChainID = ''tron'', n_AddressPattern = tron_pattern,
     n_WithdrawalFee = QNum 0, n_MinConfirmations = 20, n_Enabled = True, n_CreatedAt = 0\<rparr>"

definition ex_tron :: db where
  "ex_tron = empty_db\<lparr>db_networks := [ex_network], db_accounts := [\<lparr>a_ID = 1, a_UserID = 5, a_Asset = ''USDT'', a_CreatedAt = 0\<rparr>]\<rparr>"

definition ex_rnd :: random_source where "ex_rnd t n = Some (replicate n 7)"

definition ex_regexp :: regexp where "ex_regexp p = Some (pattern_accepts p)"

lemma ex_full_reads: "full_reads ex_rnd"
  by (simp add: full_reads_def ex_rnd_def)

lemma ex_regexp_seeded: "regexp_seeded ex_regexp"
  by (simp add: regexp_seeded_def ex_regexp_def)

lemma ex_tron_seeded: "networks_seeded ex_tron" "wallets_unique ex_tron"
  by (simp_all add: networks_seeded_def ex_tron_def empty_db_def ex_network_def seeded_pattern_def wallets_unique_def)

lemma ex_address:
  obtains a w1 where "GetOrCreateAddress ex_rnd 5 ''USDT'' ''TRON'' (ex_world ex_tron) = (Inr a, w1)" and "db_networks (w_db w1) = [ex_network]"
proof -
  have net: "catalog_NetworkID ''USDT'' ''TRON'' (ex_world ex_tron) = (Inr 40, tick (ex_world ex_tron))"
    by (simp add: catalog_NetworkID_def asset_GetNetwork_def assetStore_GetNetwork_def ok_simps ex_tron_def empty_db_def
        ex_network_def scanNetwork_def)
  have nf: "\<not> faulty (tick w)" if "w_env w = ex_env" for w using that by (simp add: faulty_def)
  have gen: "generateMockAddress ex_rnd ''TRON'' w = (Inr (''T'' @ base58Like (replicate 16 7) 33), tick w)" for w
    by (simp add: generateMockAddress_def rand_read_def ex_rnd_def bindE_def wrapE_def mapE_def returnE_def)
  have len: "length (base58Like (replicate 16 7) 33) = 33" by (simp add: base58Like_ok)
  have "\<exists>a w1. GetOrCreateAddress ex_rnd 5 ''USDT'' ''TRON'' (ex_world ex_tron) = (Inr a, w1)"
    using len
    unfolding GetOrCreateAddress_def bindE_mapE_run [where m = "catalog_NetworkID ''USDT'' ''TRON''" and w = "ex_world ex_tron", OF net]
    by (simp add: walletStore_GetByUserAssetNetwork_def
        AccountID_def accountStore_GetByUserAndAsset_def pool_query_row_def pool_query_def first_row_def bindE_def mapE_def wrapE_def
        tryE_def throwE_def returnE_def row_err_def ex_tron_def empty_db_def ex_network_def faulty_def numeral_3_eq_3 address_attempt_def gen
        NewV7_def Now_def in_tx_def with_tx_def Begin_def walletStore_Create_def tx_exec_def insert_wallet_def sql_insert_def
        varchar_def network_exists_def commit_tx_def Commit_def Let_def)
  then obtain a w1 where run: "GetOrCreateAddress ex_rnd 5 ''USDT'' ''TRON'' (ex_world ex_tron) = (Inr a, w1)" by blast
  have "db_networks (w_db w1) = db_networks (w_db (ex_world ex_tron))" using run by (rule GetOrCreateAddress_stored)
  then show thesis using that [OF run] by (simp add: ex_tron_def)
qed

lemma GetOrCreateAddress_once_witness:
  "\<exists>a w1. GetOrCreateAddress ex_rnd 5 ''USDT'' ''TRON'' (ex_world ex_tron) = (Inr a, w1) \<and> wa_UserID a = 5 \<and> wallets_unique (w_db w1)"
proof -
  obtain a w1 where run: "GetOrCreateAddress ex_rnd 5 ''USDT'' ''TRON'' (ex_world ex_tron) = (Inr a, w1)" by (rule ex_address)
  have "wallets_unique (w_db (ex_world ex_tron))" by (simp add: ex_tron_seeded)
  note once = GetOrCreateAddress_once [OF this run, unfolded sum.case, of ex_rnd]
  show ?thesis using run conjunct1 [OF once] conjunct1 [OF conjunct2 [OF once]] by blast
qed

lemma generated_address_accepted_witness:
  "\<exists>a w1. GetOrCreateAddress ex_rnd 5 ''USDT'' ''TRON'' (ex_world ex_tron) = (Inr a, w1) \<and>
     fst (ValidateAddress ex_regexp (wa_NetworkID a) (wa_Address a) (ex_world (w_db w1))) = Inr ()"
proof -
  obtain a w1 where run: "GetOrCreateAddress ex_rnd 5 ''USDT'' ''TRON'' (ex_world ex_tron) = (Inr a, w1)"
    and net: "db_networks (w_db w1) = [ex_network]" by (rule ex_address)
  have "ValidateAddress ex_regexp (wa_NetworkID a) (wa_Address a) (ex_world (w_db w1)) = (Inr (), tick (ex_world (w_db w1)))"
    by (rule generated_address_accepted [OF ex_full_reads ex_regexp_seeded _ run])
      (simp_all add: ex_tron_seeded, simp_all add: ex_tron_def empty_db_def net)
  then show ?thesis using run by simp
qed

end
