(* ===== verification/Funding.thy ===== *)
theory Funding
  imports Withdrawal_Properties Wallet_Properties
begin

text \<open>
  The properties of deposits and withdrawals: what a confirmation credits, that a deposit is settled
  once, that a withdrawal never takes more than the balance, and that both go through when they should.
\<close>

subsection \<open>Deposits\<close>

definition deposits_distinct :: "db \<Rightarrow> bool" where
  "deposits_distinct d \<longleftrightarrow> distinct (map d_ID (db_deposits d))"

lemma deposits_by_id_unique:
  assumes "deposits_distinct d" and "r \<in> set (db_deposits d)"
  shows "deposits_by_id (d_ID r) d = [r]"
proof -
  have "filter (\<lambda>s. d_ID s = d_ID r) rows = [r]" if "distinct (map d_ID rows)" "r \<in> set rows" for rows
    using that by (induction rows) (auto simp: filter_empty_conv image_iff)
  then show ?thesis using assms by (simp add: deposits_by_id_def deposits_distinct_def)
qed

lemma deposits_by_id_mem: "deposits_by_id i d = r # rs \<Longrightarrow> r \<in> set (db_deposits d) \<and> d_ID r = i"
  by (auto simp: deposits_by_id_def filter_eq_Cons_iff)

lemma settled_row:
  "r \<in> set rows \<Longrightarrow> (if d_ID r = i then r\<lparr>d_Status := s, d_ConfirmedAt := t\<rparr> else r) \<in> set (settled s t i rows)"
  unfolding settled_def update_rows_def by (simp add: image_iff) blast

lemma settled_ids [simp]: "map d_ID (settled s t i rows) = map d_ID rows"
  by (auto simp: settled_def update_rows_def)

lemma settled_memE:
  assumes "r \<in> set (settled s t i rows)"
  obtains x where "x \<in> set rows" and "r = (if d_ID x = i then x\<lparr>d_Status := s, d_ConfirmedAt := t\<rparr> else x)"
  using assms unfolding settled_def update_rows_def set_map by (elim imageE) (rule that)

lemma settled_status:
  assumes "r \<in> set (settled s t i rows)" and "d_ID r = i"
  shows "d_Status r = s"
  using assms(1)
proof (rule settled_memE)
  fix x assume "r = (if d_ID x = i then x\<lparr>d_Status := s, d_ConfirmedAt := t\<rparr> else x)"
  then show ?thesis using assms(2) by (cases "d_ID x = i") simp_all
qed

lemma confirm_change_balance:
  assumes dp: "deps_ok dp" and c: "confirm_change dp r now d d'"
  shows "balance u a d' = sql_add (balance u a d) (if u = d_UserID r \<and> a = d_Asset r then d_Amount r else QNum 0)"
proof -
  obtain i acct q where q: "num_row (dp_num dp (d_Amount r)) = Inr q"
    and d': "db_ledger d' = db_ledger d @ [ledger_row (deposit_entry (scanDeposit dp r) i acct now) q]"
    using c unfolding confirm_change_def by auto
  show ?thesis using num_row_scan [OF dp q] by (subst balance_append [OF d']) auto
qed

text \<open>A deposit that is no longer pending: both handlers refuse it and change nothing.\<close>

lemma atomic_Confirm: "atomic (Confirm dp i)" and atomic_Reject: "atomic (Reject dp i)" and atomic_Intake: "atomic (Intake cmd)"
  unfolding Confirm_def Reject_def Intake_def Let_def
  by (intro atomic_cases atomic_bind atomic_in_tx atomic_commit_bind quiet_atomic frame after_commit)+

lemma settled_refused:
  assumes "\<forall>r \<in> set (db_deposits (w_db w)). d_ID r = i \<longrightarrow> d_Status r \<noteq> DepositPending"
  shows "\<exists>e w'. Confirm dp i w = (Inl e, w') \<and> w_db w' = w_db w \<and> w_engine w' = w_engine w"
    and "\<exists>e w'. Reject dp i w = (Inl e, w') \<and> w_db w' = w_db w \<and> w_engine w' = w_engine w"
proof -
  obtain r1 w1 where 1: "Confirm dp i w = (r1, w1)" by fastforce
  obtain r2 w2 where 2: "Reject dp i w = (r2, w2)" by fastforce
  have "\<exists>e. r1 = Inl e"
  proof (cases r1)
    case (Inr x)
    then have "Confirm dp i w = (Inr x, w1)" using 1 by simp
    then obtain r rs where "deposits_by_id i (w_db w) = r # rs" "d_Status r = DepositPending" by (rule Confirm_change)
    then show ?thesis using assms deposits_by_id_mem by blast
  qed simp
  moreover have "\<exists>e. r2 = Inl e"
  proof (cases r2)
    case (Inr x)
    then have "Reject dp i w = (Inr x, w2)" using 2 by simp
    then obtain r rs where "deposits_by_id i (w_db w) = r # rs" "d_Status r = DepositPending" by (rule Reject_change)
    then show ?thesis using assms deposits_by_id_mem by blast
  qed simp
  ultimately show "\<exists>e w'. Confirm dp i w = (Inl e, w') \<and> w_db w' = w_db w \<and> w_engine w' = w_engine w"
    "\<exists>e w'. Reject dp i w = (Inl e, w') \<and> w_db w' = w_db w \<and> w_engine w' = w_engine w"
    using 1 2 atomic_failed [OF atomic_Confirm] atomic_failed [OF atomic_Reject] by blast+
qed

lemma Confirm_runs:
  assumes dp: "deps_ok dp" and w: "smooth w" and r: "deposits_by_id i (w_db w) = r # rs" "d_Status r = DepositPending"
    and acct: "account_of (d_UserID r) (d_Asset r) (w_db w) = Some acct" and k: "d_Amount r = QNum k" "\<bar>k\<bar> < 10 ^ 30"
    and len: "length (d_Asset r) \<le> 20"
  shows "\<exists>x w'. Confirm dp i w = (Inr x, w')"
proof -
  obtain f where sm: "smooth_at w f" using w by (rule smooth_smooth_at)
  note v0 = at_begin [of w]
  let ?x = "scanDeposit dp r"
  have ids: "d_ID r = i" using deposits_by_id_mem [OF r(1)] by simp
  obtain v1 where s1: "depositStore_GetByIDTx dp i ((tick w)\<lparr>w_tx := Some (w_db w), w_abort := False\<rparr>) = (Inr ?x, v1)"
    and v1: "running w 2 (w_db w) v1"
  proof -
    have "\<exists>t a d' v'. tx_exec (\<lambda>d now. Inr (map (scanDeposit dp) (deposits_by_id i d), d))
        ((tick w)\<lparr>w_tx := Some (w_db w), w_abort := False\<rparr>) = (Inr a, v') \<and> (a = ?x # map (scanDeposit dp) rs \<and> d' = w_db w) \<and>
        running w (1 + 1) d' v'"
      using at_exec [OF sm v0, of "\<lambda>d now. Inr (map (scanDeposit dp) (deposits_by_id i d), d)"
          "\<lambda>_ a d'. a = ?x # map (scanDeposit dp) rs \<and> d' = w_db w"] r(1) by simp
    then show thesis using that
      by (auto simp: depositStore_GetByIDTx_def tx_query_row_def mapE_def bindE_def first_row_def returnE_def numeral_2_eq_2)
  qed
  have s2: "AccountID (d_UserID ?x) (d_Asset ?x) v1 = (Inr acct, tick v1)" and v2: "running w 3 (w_db w) (tick v1)"
    using at_account [OF sm v1 _ acct] by (auto simp: numeral_eq_Suc)
  obtain v3 where s3: "NewV7 (tick v1) = (Inr (f (w_tick w + 3)), v3)" and v3: "running w 4 (w_db w) v3"
    using at_NewV7 [OF sm v2] by auto
  obtain now v4 where s4: "Now v3 = (Inr now :: gerr + gotime, v4)" and v4: "running w 5 (w_db w) v4"
    using at_Now [OF v3] by auto
  let ?e = "deposit_entry ?x (f (w_tick w + 3)) acct now"
  have q: "num_row (le_Amount ?e) = Inr (QNum k)"
    using num_row_plain [OF deps_okD(2) [OF dp]] deps_okD(3) [OF dp] k by simp
  have fr: "\<forall>r \<in> set (db_ledger (w_db w)). le_ID ?e \<noteq> le_ID r" using smooth_fresh(3) [OF sm, of 3] by (simp add: deposit_entry_def)
  let ?d1 = "(w_db w)\<lparr>db_ledger := db_ledger (w_db w) @ [ledger_row ?e (QNum k)]\<rparr>"
  obtain v5 where s5: "ledgerStore_Insert ?e v4 = (Inr (), v5)" and v5: "running w 6 ?d1 v5"
    using at_ledger [OF sm v4 _ q _ _ _ fr] len by (auto simp: EntryTypeDeposit_def RefTypeDeposit_def)
  let ?d2 = "?d1\<lparr>db_deposits := settled DepositConfirmed (Some now) i (db_deposits (w_db w))\<rparr>"
  obtain v6 where s6: "depositStore_UpdateStatus (d_ID ?x) DepositConfirmed (Some now) v5 = (Inr (), v6)" and v6: "running w 7 ?d2 v6"
  proof -
    let ?g = "\<lambda>d (_ :: gotime). if \<not> deposit_status_ok DepositConfirmed \<and> deposits_by_id i d \<noteq> [] then Inl (DbFail ''violates check constraint chk_deposit_status'')
       else Inr (count_rows (\<lambda>r. d_ID r = i) (db_deposits d), d\<lparr>db_deposits := update_rows (\<lambda>r. d_ID r = i)
                      (\<lambda>r. r\<lparr>d_Status := DepositConfirmed, d_ConfirmedAt := Some now\<rparr>) (db_deposits d)\<rparr>)"
    have ne: "count_rows (\<lambda>r. d_ID r = i) (db_deposits (w_db w)) \<noteq> 0"
      using r(1) by (auto simp: count_rows_def deposits_by_id_def)
    have "\<exists>t a d' v'. tx_exec ?g v5 = (Inr a, v') \<and> (a \<noteq> 0 \<and> d' = ?d2) \<and> running w (6 + 1) d' v'"
      using at_exec [OF sm v5, of ?g "\<lambda>_ a d'. a \<noteq> 0 \<and> d' = ?d2"] ne by (simp add: settled_def)
    then show thesis using that
      by (auto simp: depositStore_UpdateStatus_def must_affect_def bindE_def wrapE_def mapE_def returnE_def ids)
  qed
  obtain ev v7 where s7: "insertOutbox ''DEPOSIT_CONFIRMED'' (depositPayload dp (?x\<lparr>d_Status := DepositConfirmed, d_ConfirmedAt := Some now\<rparr>)) v6
      = (Inr (), v7)" and v7: "running w 10 (?d2\<lparr>db_outbox := db_outbox ?d2 @ [ev]\<rparr>) v7"
    using at_outbox [OF sm v6, of "''DEPOSIT_CONFIRMED''" "depositPayload dp (?x\<lparr>d_Status := DepositConfirmed, d_ConfirmedAt := Some now\<rparr>)"]
    by auto
  obtain v8 where s8: "Commit v7 = (Inr (), v8)" using at_commit [OF sm v7] by auto
  have "\<not> faulty w" using sm soon_add [of 0 w] by (simp add: smooth_at_def faulty_def)
  then have "\<exists>w'. Confirm dp i w = (Inr (?x\<lparr>d_Status := DepositConfirmed, d_ConfirmedAt := Some now\<rparr>), w')"
    unfolding Confirm_def Let_def in_tx_Inr
    using s1 s2 s3 s4 s5 [unfolded deposit_entry_def] s6 s7 s8 r(2)
    by (simp add: bindE_Inr wrapE_Inr commit_tx_Inr returnE_Inr)
  then show ?thesis by blast
qed

text \<open>
  C14. A confirmation that succeeds was of a stored pending deposit, and credits it exactly: the balance
  of the deposit's user in its asset grows by the stored amount, no other balance changes, the
  deposit becomes CONFIRMED and every other deposit stays as it is.
\<close>
theorem Confirm_credits:
  assumes "deps_ok dp" and "deposits_distinct (w_db w)" and "Confirm dp i w = (Inr x, w')"
  shows "\<exists>r \<in> set (db_deposits (w_db w)). d_ID r = i \<and> d_Status r = DepositPending \<and> d_Status x = DepositConfirmed \<and> d_ID x = i \<and>
    (\<forall>u a. balance u a (w_db w') =
       sql_add (balance u a (w_db w)) (if u = d_UserID r \<and> a = d_Asset r then d_Amount r else QNum 0)) \<and>
    (\<forall>s \<in> set (db_deposits (w_db w')). if d_ID s = i then d_Status s = DepositConfirmed \<and> d_Amount s = d_Amount r
        else s \<in> set (db_deposits (w_db w)))"
proof -
  obtain r rs now where r: "deposits_by_id i (w_db w) = r # rs" "d_Status r = DepositPending"
    "x = (scanDeposit dp r)\<lparr>d_Status := DepositConfirmed, d_ConfirmedAt := Some now\<rparr>" "confirm_change dp r now (w_db w) (w_db w')"
    using assms(3) by (rule Confirm_change)
  have m: "r \<in> set (db_deposits (w_db w))" "d_ID r = i" using deposits_by_id_mem [OF r(1)] by auto
  have d: "db_deposits (w_db w') = settled DepositConfirmed (Some now) i (db_deposits (w_db w))"
    using r(4) m(2) unfolding confirm_change_def by auto
  have other: "if d_ID s = i then d_Status s = DepositConfirmed \<and> d_Amount s = d_Amount r else s \<in> set (db_deposits (w_db w))"
    if mem: "s \<in> set (db_deposits (w_db w'))" for s
  proof -
    obtain y where y: "y \<in> set (db_deposits (w_db w))"
      "s = (if d_ID y = i then y\<lparr>d_Status := DepositConfirmed, d_ConfirmedAt := Some now\<rparr> else y)"
      using mem unfolding d by (rule settled_memE)
    have "y = r" if "d_ID y = i"
      using deposits_by_id_unique [OF assms(2) y(1)] deposits_by_id_unique [OF assms(2) m(1)] that m(2) by simp
    then show ?thesis using y by (cases "d_ID y = i") simp_all
  qed
  show ?thesis using m r(2,3) confirm_change_balance [OF assms(1) r(4)] other by (intro bexI [of _ r]) simp_all
qed

definition ex_deposit :: "sqlnum deposit_rec" where
  "ex_deposit = \<lparr>d_ID = 9, d_UserID = 5, d_Asset = ''USDT'', d_NetworkID = 40, d_Address = ''Tx'', d_Amount = QNum (25 * 10 ^ 10),
     d_TxHash = ''h1'', d_Status = DepositPending, d_CreatedAt = 0, d_ConfirmedAt = None\<rparr>"

definition ex_pending :: db where
  "ex_pending = empty_db\<lparr>db_accounts := [\<lparr>a_ID = 1, a_UserID = 5, a_Asset = ''USDT'', a_CreatedAt = 0\<rparr>],
     db_networks := [ex_network],
     db_deposits := [ex_deposit]\<rparr>"

lemma ex_pending_smooth: "smooth (ex_world ex_pending)"
  by (rule ex_smooth) (simp add: used_ids_def ex_pending_def empty_db_def)

lemma ex_confirmed: "\<exists>x w'. Confirm ref_deps 9 (ex_world ex_pending) = (Inr x, w')"
  by (rule Confirm_runs [OF deps_ok_ref_deps ex_pending_smooth, where acct = 1 and r = ex_deposit and k = "25 * 10 ^ 10" and rs = "[]"])
    (simp_all add: deposits_by_id_def ex_pending_def empty_db_def account_of_def ex_deposit_def)

lemma ex_pending_distinct: "deposits_distinct ex_pending"
  by (simp add: deposits_distinct_def ex_pending_def empty_db_def)

lemma Confirm_credits_witness:
  "\<exists>x w'. Confirm ref_deps 9 (ex_world ex_pending) = (Inr x, w') \<and> balance 5 ''USDT'' (w_db w') = QNum (25 * 10 ^ 10)"
proof -
  obtain x w' where run: "Confirm ref_deps 9 (ex_world ex_pending) = (Inr x, w')" using ex_confirmed by blast
  have dd: "deposits_distinct (w_db (ex_world ex_pending))" by (simp add: ex_pending_distinct)
  obtain r where "r \<in> set (db_deposits ex_pending)"
    "balance 5 ''USDT'' (w_db w') = sql_add (balance 5 ''USDT'' ex_pending) (if 5 = d_UserID r \<and> ''USDT'' = d_Asset r then d_Amount r else QNum 0)"
    using Confirm_credits [OF deps_ok_ref_deps dd run] by auto
  then show ?thesis using run by (auto simp: ex_pending_def empty_db_def balance_def ex_deposit_def)
qed

text \<open>
  A deposit is settled once: after its confirmation or its rejection has succeeded, every later
  confirmation and rejection of it fails and changes nothing, as long as its row keeps its status, so
  no deposit is credited twice and none is credited after it was rejected.
\<close>
theorem deposit_settled_once:
  assumes "Confirm dp i w = (Inr x, w1) \<or> Reject dp i w = (Inr x, w1)"
    and "\<forall>r \<in> set (db_deposits (w_db w2)). d_ID r = i \<longrightarrow> r \<in> set (db_deposits (w_db w1))"
  shows "(\<exists>e w3. Confirm dp i w2 = (Inl e, w3) \<and> w_db w3 = w_db w2 \<and> w_engine w3 = w_engine w2) \<and>
    (\<exists>e w3. Reject dp i w2 = (Inl e, w3) \<and> w_db w3 = w_db w2 \<and> w_engine w3 = w_engine w2)"
proof -
  obtain s t where st: "s \<noteq> DepositPending" "db_deposits (w_db w1) = settled s t i (db_deposits (w_db w))"
  proof -
    from assms(1) show thesis
    proof
      assume "Confirm dp i w = (Inr x, w1)"
      then obtain r rs now where "deposits_by_id i (w_db w) = r # rs" "confirm_change dp r now (w_db w) (w_db w1)" by (rule Confirm_change)
      then show thesis using that [of DepositConfirmed "Some now"] deposits_by_id_mem unfolding confirm_change_def by auto
    next
      assume "Reject dp i w = (Inr x, w1)"
      then obtain r rs where "deposits_by_id i (w_db w) = r # rs"
        "w_db w1 = (w_db w)\<lparr>db_deposits := settled DepositRejected None (d_ID r) (db_deposits (w_db w))\<rparr>" by (rule Reject_change)
      then show thesis using that [of DepositRejected None] deposits_by_id_mem by auto
    qed
  qed
  have "\<forall>r \<in> set (db_deposits (w_db w2)). d_ID r = i \<longrightarrow> d_Status r \<noteq> DepositPending"
    using assms(2) st settled_status by metis
  then show ?thesis using settled_refused by blast
qed

lemma deposit_settled_once_witness:
  "\<exists>x w1. Confirm ref_deps 9 (ex_world ex_pending) = (Inr x, w1) \<and> (\<exists>e w3. Reject ref_deps 9 w1 = (Inl e, w3) \<and> w_db w3 = w_db w1)"
proof -
  obtain x w1 where run: "Confirm ref_deps 9 (ex_world ex_pending) = (Inr x, w1)" using ex_confirmed by blast
  then have "Confirm ref_deps 9 (ex_world ex_pending) = (Inr x, w1) \<or> Reject ref_deps 9 (ex_world ex_pending) = (Inr x, w1)" by simp
  from deposit_settled_once [OF this, of w1] show ?thesis using run by blast
qed

subsection \<open>Withdrawals\<close>

text \<open>
  C13. A withdrawal that succeeds takes a positive amount that is at most the balance: the balance
  after it is the balance before less exactly the amount rounded to ten decimals and so not negative,
  no other balance changes, and it commits one claim of its key, one debit, its row and one event.
\<close>
theorem Withdraw_never_overdraws:
  assumes "deps_ok dp" and "Withdraw dp regexp cmd w = (Inr res, w')"
    and "balance (wc_UserID cmd) (wc_Asset cmd) (w_db w) = QNum k"
  shows "0 < toRat (wc_Amount cmd) \<and> \<not> key_claimed (wc_IdempotencyKey cmd) ScopeWithdraw (w_db w) \<and>
    withdraw_change dp cmd (wr_Withdrawal res) (w_db w) (w_db w') \<and> wd_Status (wr_Withdrawal res) = StatusCompleted \<and>
    balance (wc_UserID cmd) (wc_Asset cmd) (w_db w') = QNum (k - dec_units (toRat (wc_Amount cmd))) \<and>
    0 \<le> k - dec_units (toRat (wc_Amount cmd)) \<and>
    (\<forall>u a. (u, a) \<noteq> (wc_UserID cmd, wc_Asset cmd) \<longrightarrow> balance u a (w_db w') = balance u a (w_db w))"
proof -
  obtain networkID acct i now where c: "wr_Withdrawal res = taken_withdrawal cmd networkID acct i now"
    "\<not> key_claimed (wc_IdempotencyKey cmd) ScopeWithdraw (w_db w)" "withdraw_change dp cmd (wr_Withdrawal res) (w_db w) (w_db w')"
    using assms(2) by (rule Withdraw_change)
  note b = Withdraw_balance [OF assms]
  have st: "wd_Status (wr_Withdrawal res) = StatusCompleted" using c(1) by (simp add: taken_withdrawal_def)
  have o: "balance u a (w_db w') = balance u a (w_db w)" if "(u, a) \<noteq> (wc_UserID cmd, wc_Asset cmd)" for u a
    using b [of u a] that by auto
  show ?thesis using b [of "wc_UserID cmd" "wc_Asset cmd"] assms(3) c(2,3) st o by simp
qed

text \<open>The transaction of a withdrawal runs when nothing fails and the next identifiers are fresh.\<close>

lemma withdraw_tx_runs:
  assumes sc: "scans_decimals (dp_scan dp)" and fit: "fits (wc_Amount cmd)" and net: "network_exists i (w_db w)"
    and key: "\<not> key_claimed (wc_IdempotencyKey cmd) ScopeWithdraw (w_db w)" "length (wc_IdempotencyKey cmd) \<le> 255"
    and len: "length (wc_Asset cmd) \<le> 20" "length (wc_DestinationAddress cmd) \<le> 255"
    and f: "\<And>n. w_tick w \<le> n \<Longrightarrow> n < w_tick w + 20 \<Longrightarrow> e_uuid (w_env w) n = Some (f n)"
      "\<And>n. w_tick w \<le> n \<Longrightarrow> n < w_tick w + 20 \<Longrightarrow> \<not> e_fault (w_env w) n"
    and fresh: "\<And>n r. w_tick w \<le> n \<Longrightarrow> n < w_tick w + 20 \<Longrightarrow> r \<in> set (db_idem (w_db w)) \<Longrightarrow> f n \<noteq> ik_ID r"
      "\<And>n r. w_tick w \<le> n \<Longrightarrow> n < w_tick w + 20 \<Longrightarrow> r \<in> set (db_ledger (w_db w)) \<Longrightarrow> f n \<noteq> le_ID r"
      "\<And>n r. w_tick w \<le> n \<Longrightarrow> n < w_tick w + 20 \<Longrightarrow> r \<in> set (db_outbox (w_db w)) \<Longrightarrow> f n \<noteq> ev_ID r"
      "\<And>n r. w_tick w \<le> n \<Longrightarrow> n < w_tick w + 20 \<Longrightarrow> r \<in> set (db_withdrawals (w_db w)) \<Longrightarrow> f n \<noteq> wd_ID r"
  shows "\<exists>x w1. in_tx ''Withdraw begin: '' (withdraw_tx dp cmd i acct) w = (Inr x, w1)"
proof -
  have st: "withdrawal_status_ok StatusCompleted" by (simp add: withdrawal_status_ok_def)
  have neg: "num_row (num_Neg (dp_scan dp) (wc_Amount cmd)) = Inr (QNum (- dec_units (toRat (wc_Amount cmd))))"
    using Neg_row [OF sc] fit by (simp add: fits_def)
  show ?thesis
    unfolding withdraw_tx_def idempotencyStore_Insert_def ledgerStore_Insert_def insertOutbox_def outboxStore_Insert_def
      withdrawalStore_Insert_def Let_def
    using f fresh key len fits_row [OF fit] neg net st
    by (simp add: ok_simps any_result idempotencyStore_Insert_def faulty_def varchar_def network_exists_def
        EntryTypeWithdraw_def RefTypeWithdraw_def ScopeWithdraw_def)
qed

text \<open>A withdrawal the service should accept is accepted.\<close>

lemma Withdraw_runs:
  assumes dp: "deps_ok dp" and w: "smooth w" and pos: "0 < toRat (wc_Amount cmd)" and fit: "fits (wc_Amount cmd)"
    and net: "catalog_NetworkID (wc_Asset cmd) (wc_NetworkName cmd) w = (Inr i, tick w)" "network_exists i (w_db w)"
    and addr: "ValidateAddress re i (wc_DestinationAddress cmd) (tick w) = (Inr (), tick (tick w))"
    and acct: "account_of (wc_UserID cmd) (wc_Asset cmd) (w_db w) = Some acct"
    and bal: "balance (wc_UserID cmd) (wc_Asset cmd) (w_db w) = QNum k" "toRat (wc_Amount cmd) \<le> of_units k"
    and key: "\<not> key_claimed (wc_IdempotencyKey cmd) ScopeWithdraw (w_db w)" "length (wc_IdempotencyKey cmd) \<le> 255"
    and len: "length (wc_Asset cmd) \<le> 20" "length (wc_DestinationAddress cmd) \<le> 255" and none: "db_withdrawals (w_db w) = []"
  shows "\<exists>res w'. Withdraw dp re cmd w = (Inr res, w')"
proof -
  note sc = deps_okD(1) [OF dp]
  obtain f where f: "\<And>n. soon w n \<Longrightarrow> e_uuid (w_env w) n = Some (f n)" and nf: "\<And>n. soon w n \<Longrightarrow> \<not> e_fault (w_env w) n"
    and fresh: "\<And>n r. soon w n \<Longrightarrow> r \<in> set (db_idem (w_db w)) \<Longrightarrow> f n \<noteq> ik_ID r"
      "\<And>n r. soon w n \<Longrightarrow> r \<in> set (db_ledger (w_db w)) \<Longrightarrow> f n \<noteq> le_ID r"
      "\<And>n r. soon w n \<Longrightarrow> r \<in> set (db_outbox (w_db w)) \<Longrightarrow> f n \<noteq> ev_ID r"
    using w by (rule smoothE) blast
  have nf3: "\<not> faulty (tick (tick (tick w)))" using nf [of "Suc (Suc (Suc (w_tick w)))"] by (simp add: faulty_def soon_def)
  have bal': "balance (wc_UserID cmd) (wc_Asset cmd) (w_db (tick (tick (tick w)))) = QNum k" using bal(1) by simp
  obtain t n where t: "ledgerStore_SumByUserAsset dp (wc_UserID cmd) (wc_Asset cmd) (tick (tick (tick w))) = (Inr t, tick (tick (tick (tick w))))"
    "num_Parse (dp_scan dp) t = Inr n" "toRat n = of_units k"
    using Sum_reads_balance [OF _ _ nf3 bal', of dp] dp by (auto simp: deps_ok_def)
  have cmp: "num_CmpString (dp_scan dp) (wc_Amount cmd) t = Inr (num_Cmp (wc_Amount cmd) n)" "\<not> 0 < num_Cmp (wc_Amount cmd) n"
    "\<not> num_Cmp (wc_Amount cmd) (num_Zero (dp_scan dp)) \<le> 0"
    using t bal(2) pos by (simp_all add: num_CmpString_def num_Cmp_simps num_Zero_value(1) [OF sc])
  have ac: "AccountID (wc_UserID cmd) (wc_Asset cmd) (tick (tick w)) = (Inr acct, tick (tick (tick w)))"
    using acct nf [of "Suc (Suc (w_tick w))"] by (simp add: AccountID_Inr faulty_def soon_def)
  obtain x w1 where tx: "in_tx ''Withdraw begin: '' (withdraw_tx dp cmd i acct) (tick (tick (tick (tick w)))) = (Inr x, w1)"
  proof -
    have "\<exists>x w1. in_tx ''Withdraw begin: '' (withdraw_tx dp cmd i acct) (tick (tick (tick (tick w)))) = (Inr x, w1)"
      by (rule withdraw_tx_runs [OF sc fit, where f = f]) (use f nf fresh key len net(2) none in \<open>auto simp: soon_def\<close>)
    then show thesis using that by blast
  qed
  have g: "mapE h (catalog_NetworkID (wc_Asset cmd) (wc_NetworkName cmd)) w = (Inr i, tick w)" for h :: "gerr \<Rightarrow> gerr"
    using net(1) by (simp add: mapE_def)
  have "\<exists>res w'. Withdraw dp re cmd w = (Inr res, w')"
    unfolding Withdraw_def using cmp g addr ac t(1) tx
    by (simp add: bindE_Inr wrapE_Inr liftE_Inr tryE_Inr returnE_Inr any_result)
  then show ?thesis .
qed

definition ex_rich :: db where
  "ex_rich = ex_tron\<lparr>db_ledger := [ex_entry 3 5 ''USDT'' (1000 * 10 ^ 10) ''DEPOSIT'' 0]\<rparr>"

definition ex_withdraw :: withdraw_cmd where
  "ex_withdraw = \<lparr>wc_UserID = 5, wc_Asset = ''USDT'', wc_NetworkName = ''TRON'', wc_DestinationAddress = CHR ''T'' # replicate 33 CHR ''a'',
     wc_Amount = ex_num 40, wc_IdempotencyKey = ''w1''\<rparr>"

lemma ex_rich_smooth: "smooth (ex_world ex_rich)"
proof (rule ex_smooth, intro allI impI)
  fix i :: nat assume "i < 100"
  then have "(of_nat i + 1000 :: uuid) \<noteq> 3" using ex_ids [of 3 i] by simp
  then show "of_nat i + 1000 \<notin> used_ids ex_rich"
    by (simp add: used_ids_def ex_rich_def ex_tron_def ex_entry_def empty_db_def)
qed

lemma ex_route:
  "catalog_NetworkID (wc_Asset ex_withdraw) (wc_NetworkName ex_withdraw) (ex_world ex_rich) = (Inr 40, tick (ex_world ex_rich))"
  "ValidateAddress ex_regexp 40 (wc_DestinationAddress ex_withdraw) (tick (ex_world ex_rich)) = (Inr (), tick (tick (ex_world ex_rich)))"
proof -
  have tr: "pattern_accepts tron_pattern (CHR ''T'' # replicate 33 CHR ''a'')"
    using pattern_accepts_simps(3) [of "replicate 33 CHR ''a''"]
    by (simp add: repeated_def list_all_iff alnum_class_def char_range_def)
  have ne: "tron_pattern \<noteq> []" by (simp add: tron_pattern_def)
  show "catalog_NetworkID (wc_Asset ex_withdraw) (wc_NetworkName ex_withdraw) (ex_world ex_rich) = (Inr 40, tick (ex_world ex_rich))"
    by (simp add: catalog_NetworkID_def asset_GetNetwork_def assetStore_GetNetwork_def ok_simps ex_rich_def ex_tron_def empty_db_def
        ex_network_def scanNetwork_def ex_withdraw_def)
  show "ValidateAddress ex_regexp 40 (wc_DestinationAddress ex_withdraw) (tick (ex_world ex_rich)) = (Inr (), tick (tick (ex_world ex_rich)))"
    using tr ne by (simp add: ValidateAddress_def assetStore_GetNetworkByID_def ok_simps ex_rich_def ex_tron_def empty_db_def
        ex_network_def scanNetwork_def ex_withdraw_def ex_regexp_def faulty_def)
qed

lemma ex_withdrawn: "\<exists>res w'. Withdraw ref_deps ex_regexp ex_withdraw (ex_world ex_rich) = (Inr res, w')"
  by (rule Withdraw_runs [OF deps_ok_ref_deps ex_rich_smooth _ _ ex_route(1) _ ex_route(2), where k = "1000 * 10 ^ 10" and acct = 1])
    (simp_all add: ex_withdraw_def ex_rich_def ex_tron_def ex_network_def empty_db_def network_exists_def account_of_def balance_def
      ex_entry_def key_claimed_def of_units_def)

lemma Withdraw_never_overdraws_witness:
  "\<exists>res w'. Withdraw ref_deps ex_regexp ex_withdraw (ex_world ex_rich) = (Inr res, w') \<and> balance 5 ''USDT'' (w_db w') = QNum (960 * 10 ^ 10)"
proof -
  obtain res w' where run: "Withdraw ref_deps ex_regexp ex_withdraw (ex_world ex_rich) = (Inr res, w')" using ex_withdrawn by blast
  have bal: "balance (wc_UserID ex_withdraw) (wc_Asset ex_withdraw) (w_db (ex_world ex_rich)) = QNum (1000 * 10 ^ 10)"
    by (simp add: ex_withdraw_def ex_rich_def ex_tron_def empty_db_def balance_def ex_entry_def)
  have u: "dec_units (toRat (wc_Amount ex_withdraw)) = 40 * 10 ^ 10" using dec_units_int [of 40] by (simp add: ex_withdraw_def)
  have "balance (wc_UserID ex_withdraw) (wc_Asset ex_withdraw) (w_db w') = QNum (1000 * 10 ^ 10 - dec_units (toRat (wc_Amount ex_withdraw)))"
    using Withdraw_never_overdraws [OF deps_ok_ref_deps run bal] by blast
  then show ?thesis using run by (simp add: u) (simp add: ex_withdraw_def)
qed

end
