(* ===== verification/User_Properties.thy ===== *)
theory User_Properties
  imports User Order_Lifecycle
begin

text \<open>
  The properties of internal/user: what a sign-up commits, that login accepts exactly the stored
  password of a user who is not deleted, and that a deletion is final for the email and username too.
\<close>

subsection \<open>Invariant and inversion\<close>

definition users_unique :: "db \<Rightarrow> bool" where
  "users_unique d \<longleftrightarrow> distinct (map u_ID (db_users d)) \<and> distinct (map u_Email (db_users d)) \<and>
     distinct (map u_Username (db_users d))"

definition enabled_symbols :: "db \<Rightarrow> string list" where
  "enabled_symbols d = map as_Symbol (order_text as_Symbol (filter as_Enabled (db_assets d)))"

lemma EnabledSymbols_Inr:
  "EnabledSymbols w = (Inr s, w') \<longleftrightarrow> \<not> faulty w \<and> s = enabled_symbols (w_db w) \<and> w' = tick w"
proof -
  have "as_Symbol \<circ> scanAsset = as_Symbol" by (auto simp: scanAsset_def)
  then show ?thesis
    by (auto simp: EnabledSymbols_def assetStore_ListAssets_def ok_simps enabled_symbols_def)
qed

lemma insert_user_Inr [ok_simps]:
  "insert_user u d = Inr (x, d') \<longleftrightarrow>
     user_checks u \<and> (\<forall>r \<in> set (db_users d). \<not> user_clash (u\<lparr>u_DeletedAt := None\<rparr>) r) \<and>
     d' = d\<lparr>db_users := db_users d @ [u\<lparr>u_DeletedAt := None\<rparr>]\<rparr>"
  unfolding insert_user_def sql_insert_case by auto

lemma HashPassword_Inr [ok_simps]:
  "HashPassword bc p w = (Inr h, w') \<longleftrightarrow> bc_generate bc (w_tick w) p = Inr h \<and> w' = tick w"
  by (auto simp: HashPassword_def ok_simps)

lemma quiet_HashPassword [frame]: "quiet (HashPassword bc p)"
  unfolding quiet_def HashPassword_def wrapE_def mapE_def liftE_def by (auto split: sum.splits)

lemma quiet_user [frame]:
  "quiet (userStore_Create u)" "quiet (userStore_GetByID i)" "quiet (userStore_GetByEmail s)" "quiet (userStore_List l m)"
  "quiet (userStore_Delete i)" "quiet NewUserID" "quiet (GetUser i)" "quiet (ListUsers l m)"
  by (auto simp: userStore_Create_def userStore_GetByID_def userStore_GetByEmail_def userStore_List_def userStore_Delete_def
      NewUserID_def GetUser_def ListUsers_def Let_def intro!: frame)

lemma quiet_Login [frame]: "quiet (Login bc email p)"
  unfolding Login_def by (intro frame)

text \<open>The provisioner keeps the accounts unique, on any path that can still commit.\<close>

lemma provision_unique:
  "provision_loop u now symbols w = (Inr x, w') \<Longrightarrow> w_tx w = Some d \<Longrightarrow> \<not> w_abort w' \<Longrightarrow> accounts_unique d \<Longrightarrow>
   \<exists>d'. w_tx w' = Some d' \<and> accounts_unique d'"
proof (induction symbols arbitrary: w d)
  case Nil
  then show ?case by (simp add: returnE_Inr)
next
  case (Cons s symbols)
  obtain i r w2 where run: "accountStore_Create \<lparr>a_ID = i, a_UserID = u, a_Asset = s, a_CreatedAt = now\<rparr> (tick w) = (r, w2)"
    and k: "(case r of Inl err \<Rightarrow> if errors_is err ErrConflict then provision_loop u now symbols
         else throwE (Wrapped (''Provisioner: insert '' @ s @ '': '') err [])
     | Inr _ \<Rightarrow> provision_loop u now symbols) w2 = (Inr x, w')"
    using Cons.prems(1) by (auto simp: ok_simps)
  have tx: "w_tx (tick w) = Some d" using Cons.prems(2) by simp
  from tx run show ?case
  proof (cases rule: accountStore_Create_cases)
    case (down e)
    then show ?thesis using k by (simp add: throwE_Inr)
  next
    case clash
    then have "w_abort w'" using k provision_clash [of u now symbols w2 x w' d] by simp
    then show ?thesis using Cons.prems(3) by simp
  next
    case (ok d')
    have "accounts_unique d'" by (rule insert_account_unique [OF ok(2) Cons.prems(4)])
    then show ?thesis using Cons.IH [of w2 d'] k ok(1,3) Cons.prems(3) by simp
  qed
qed

subsection \<open>Sign-up\<close>

definition new_user :: "create_user_cmd \<Rightarrow> uuid \<Rightarrow> string \<Rightarrow> gotime \<Rightarrow> user_rec" where
  "new_user cmd i hash now =
     \<lparr>u_ID = i, u_Email = uc_Email cmd, u_Username = uc_Username cmd, u_FullName = uc_FullName cmd,
      u_PasswordHash = hash, u_Status = UserActive, u_Role = RoleUser, u_DeletedAt = None, u_CreatedAt = now, u_UpdatedAt = now\<rparr>"

definition new_accounts :: "uuid \<Rightarrow> gotime \<Rightarrow> uuid list \<Rightarrow> string list \<Rightarrow> account_rec list" where
  "new_accounts u now ids symbols = map2 (\<lambda>i s. \<lparr>a_ID = i, a_UserID = u, a_Asset = s, a_CreatedAt = now\<rparr>) ids symbols"

text \<open>The steps of a sign-up that succeeded.\<close>

lemma CreateUser_run:
  assumes "CreateUser bc provision cmd w = (Inr u, w')"
  obtains i hash now w2 w3 d where "bc_generate bc (Suc (w_tick w)) (uc_Password cmd) = Inr hash" and "u = new_user cmd i hash now"
    and "user_checks u" and "\<forall>r \<in> set (db_users (w_db w)). \<not> user_clash u r"
    and "provision i w2 = (Inr (), w3)" and "w_tx w2 = Some ((w_db w)\<lparr>db_users := db_users (w_db w) @ [u]\<rparr>)"
    and "w_db w2 = w_db w" and "w_tx w3 = Some d" and "\<not> w_abort w3" and "w_db w' = d" and "w_engine w3 = w_engine w'"
proof -
  have "\<exists>i hash now w2 w3 d. bc_generate bc (Suc (w_tick w)) (uc_Password cmd) = Inr hash \<and> u = new_user cmd i hash now \<and>
      user_checks u \<and> (\<forall>r \<in> set (db_users (w_db w)). \<not> user_clash u r) \<and> provision i w2 = (Inr (), w3) \<and>
      w_tx w2 = Some ((w_db w)\<lparr>db_users := db_users (w_db w) @ [u]\<rparr>) \<and> w_db w2 = w_db w \<and> w_tx w3 = Some d \<and>
      \<not> w_abort w3 \<and> w_db w' = d \<and> w_engine w3 = w_engine w'"
    using assms unfolding CreateUser_def NewUserID_def userStore_Create_def Let_def
    apply (simp only: bindE_Inr wrapE_Inr mapE_Inr in_tx_Inr commit_tx_Inr returnE_Inr NewV7_Inr HashPassword_Inr Now_Inr
        tx_exec_Inr insert_user_Inr Commit_Inr)
    apply (elim exE conjE)
    apply (simp add: new_user_def)
    apply (intro exI conjI)
    by (assumption | simp)+
  then show thesis using that by blast
qed

text \<open>
  C15. A sign-up commits exactly one user, active and with the role USER whatever the request, and one
  account per enabled asset of the catalog; the stored hash accepts the password, the email, the
  username and the ID were free, and users and accounts stay unique.
\<close>
theorem CreateUser_effect:
  assumes bc: "bcrypt_ok bc" and run: "CreateUser bc (ProvisionAll EnabledSymbols) cmd w = (Inr u, w')"
  shows "\<exists>i hash now t ids. u = new_user cmd i hash now \<and> CheckPassword bc (uc_Password cmd) hash \<and>
      length ids = length (enabled_symbols (w_db w)) \<and>
      w_db w' = (w_db w)\<lparr>db_users := db_users (w_db w) @ [u],
                        db_accounts := db_accounts (w_db w) @ new_accounts i t ids (enabled_symbols (w_db w))\<rparr> \<and>
      (\<forall>r \<in> set (db_users (w_db w)). \<not> user_clash u r) \<and>
      (users_unique (w_db w) \<longrightarrow> users_unique (w_db w')) \<and> (accounts_unique (w_db w) \<longrightarrow> accounts_unique (w_db w'))"
  using run
proof (rule CreateUser_run)
  fix i hash now w2 w3 d
  let ?d1 = "(w_db w)\<lparr>db_users := db_users (w_db w) @ [u]\<rparr>"
  assume hash: "bc_generate bc (Suc (w_tick w)) (uc_Password cmd) = Inr hash" and u: "u = new_user cmd i hash now"
    and free: "\<forall>r \<in> set (db_users (w_db w)). \<not> user_clash u r"
    and p: "ProvisionAll EnabledSymbols i w2 = (Inr (), w3)" and tx: "w_tx w2 = Some ?d1" "w_db w2 = w_db w"
    and d: "w_tx w3 = Some d" "\<not> w_abort w3" "w_db w' = d"
  obtain t where loop: "provision_loop i t (enabled_symbols (w_db w)) (tick (tick w2)) = (Inr (), w3)"
    using p tx(2) by (auto simp: ProvisionAll_def bindE_Inr wrapE_Inr EnabledSymbols_Inr Now_Inr)
  have tx': "w_tx (tick (tick w2)) = Some ?d1" using tx(1) by simp
  obtain ids where ids: "length ids = length (enabled_symbols (w_db w))"
      "d = ?d1\<lparr>db_accounts := db_accounts ?d1 @ new_accounts i t ids (enabled_symbols (w_db w))\<rparr>"
    using provision_rows [OF loop tx' d(2)] d(1) by (auto simp: new_accounts_def)
  have acc: "accounts_unique d" if "accounts_unique (w_db w)"
    using provision_unique [OF loop tx' d(2)] that d(1) by (simp add: accounts_unique_def)
  have usr: "users_unique d" if "users_unique (w_db w)"
    using that free ids(2) by (auto simp: users_unique_def user_clash_def)
  have chk: "CheckPassword bc (uc_Password cmd) hash"
    using bc hash by (simp add: bcrypt_ok_def CheckPassword_def)
  show ?thesis using u chk ids free usr acc d(3) by (intro exI conjI) (assumption | simp)+
qed

subsection \<open>An example: a catalog with one asset\<close>

text \<open>A stand-in for bcrypt: the hash is the password cut to 60 characters and padded.\<close>

definition ref_bcrypt :: bcrypt where
  "ref_bcrypt =
     \<lparr>bc_generate = (\<lambda>_ p. if 60 < length p then Inl (Opaque ''password too long'') else Inr (p @ replicate (60 - length p) CHR '' '')),
      bc_compare = (\<lambda>h p. length p \<le> 60 \<and> h = p @ replicate (60 - length p) CHR '' '')\<rparr>"

lemma ref_bcrypt_ok: "bcrypt_ok ref_bcrypt"
  by (auto simp: bcrypt_ok_def ref_bcrypt_def split: if_splits)

definition ex_asset :: "sqlnum asset_rec" where
  "ex_asset = \<lparr>as_Symbol = ''USDT'', as_Name = ''Tether'', as_Decimals = 6, as_MinDeposit = QNum 0, as_MinWithdrawal = QNum 0,
     as_Enabled = True, as_CreatedAt = 0\<rparr>"

definition ex_catalog :: db where "ex_catalog = empty_db\<lparr>db_assets := [ex_asset]\<rparr>"

definition ex_signup :: create_user_cmd where
  "ex_signup = \<lparr>uc_Email = ''a@b.c'', uc_Username = ''ann'', uc_FullName = ''Ann'', uc_Password = ''secret12''\<rparr>"

lemma ex_catalog_unique: "users_unique ex_catalog" "accounts_unique ex_catalog"
  by (simp_all add: users_unique_def accounts_unique_def ex_catalog_def empty_db_def)

lemma ex_signup_runs:
  obtains u w1 where "CreateUser ref_bcrypt (ProvisionAll EnabledSymbols) ex_signup (ex_world ex_catalog) = (Inr u, w1)"
    and "db_users (w_db w1) = [u]" and "u_Email u = ''a@b.c''" and "u_ID u = 1000" and "w_env w1 = ex_env"
proof -
  have "\<exists>u w1. CreateUser ref_bcrypt (ProvisionAll EnabledSymbols) ex_signup (ex_world ex_catalog) = (Inr u, w1) \<and>
      db_users (w_db w1) = [u] \<and> u_Email u = ''a@b.c'' \<and> u_ID u = 1000 \<and> w_env w1 = ex_env"
    by (simp add: CreateUser_def NewUserID_def bindE_def wrapE_def mapE_def NewV7_def in_tx_def with_tx_def Begin_def faulty_def Now_def
        HashPassword_def ref_bcrypt_def liftE_def ex_signup_def ex_catalog_def ex_asset_def empty_db_def userStore_Create_def Let_def
        tx_exec_def insert_user_def sql_insert_def user_checks_def varchar_def UserActive_def RoleUser_def RoleAdmin_def
        ProvisionAll_def EnabledSymbols_def assetStore_ListAssets_def pool_query_def order_text_def scanAsset_def tryE_def
        accountStore_Create_def insert_account_def commit_tx_def Commit_def returnE_def)
  then show thesis using that by blast
qed

lemma CreateUser_effect_witness:
  "\<exists>u w1. CreateUser ref_bcrypt (ProvisionAll EnabledSymbols) ex_signup (ex_world ex_catalog) = (Inr u, w1) \<and> users_unique (w_db w1)"
proof -
  obtain u w1 where run: "CreateUser ref_bcrypt (ProvisionAll EnabledSymbols) ex_signup (ex_world ex_catalog) = (Inr u, w1)"
    by (rule ex_signup_runs)
  from CreateUser_effect [OF ref_bcrypt_ok this] show ?thesis using run ex_catalog_unique by auto
qed

subsection \<open>Login and deletion\<close>

lemma unique_by_email:
  assumes "users_unique d" and "u \<in> set (db_users d)"
  shows "users_by_email (u_Email u) d = (if u_DeletedAt u = None then [u] else [])"
proof -
  have "filter (\<lambda>v. u_Email v = u_Email u \<and> u_DeletedAt v = None) rows = (if u_DeletedAt u = None then [u] else [])"
    if "distinct (map u_Email rows)" "u \<in> set rows" for rows
    using that by (induction rows) (auto simp: filter_empty_conv image_iff)
  then show ?thesis using assms by (simp add: users_by_email_def users_unique_def)
qed

lemma unique_by_id:
  assumes "users_unique d" and "u \<in> set (db_users d)"
  shows "users_by_id (u_ID u) d = (if u_DeletedAt u = None then [u] else [])"
proof -
  have "filter (\<lambda>v. u_ID v = u_ID u \<and> u_DeletedAt v = None) rows = (if u_DeletedAt u = None then [u] else [])"
    if "distinct (map u_ID rows)" "u \<in> set rows" for rows
    using that by (induction rows) (auto simp: filter_empty_conv image_iff)
  then show ?thesis using assms by (simp add: users_by_id_def users_unique_def)
qed

lemma Login_none:
  assumes "users_by_email email (w_db w) = []" and "\<not> faulty w"
  shows "fst (Login bc email p w) = Inl (Sentinel ErrUnauthorized)"
  using assms by (simp add: Login_def userStore_GetByEmail_def pool_query_row_def pool_query_def first_row_def bindE_def mapE_def
      tryE_def throwE_def row_err_def)

lemma Login_Inr:
  assumes "Login bc email p w = (Inr u, w')"
  shows "CheckPassword bc p (u_PasswordHash u) \<and> (\<exists>rs. users_by_email email (w_db w) = u # rs)"
proof -
  obtain r w1 where r: "userStore_GetByEmail email w = (r, w1)"
    and k: "(case r of Inl err \<Rightarrow> if errors_is err ErrNotFound then throwE (Sentinel ErrUnauthorized) else throwE (Wrapped ''Login lookup: '' err [])
     | Inr u \<Rightarrow> if \<not> CheckPassword bc p (u_PasswordHash u) then throwE (Sentinel ErrUnauthorized) else returnE u) w1 = (Inr u, w')"
    using assms unfolding Login_def bindE_Inr tryE_Inr by blast
  show ?thesis
  proof (cases r)
    case (Inl e)
    then show ?thesis using k by (simp add: throwE_Inr split: if_splits)
  next
    case (Inr v)
    then have "v = u" "CheckPassword bc p (u_PasswordHash u)" using k by (auto simp: if_throw_Inr returnE_Inr)
    then show ?thesis using r Inr by (auto simp: userStore_GetByEmail_def mapE_Inr pool_query_row_Inr)
  qed
qed

lemma Login_one:
  assumes "users_by_email email (w_db w) = [u]" and "\<not> faulty w"
  shows "fst (Login bc email p w) = (if CheckPassword bc p (u_PasswordHash u) then Inr u else Inl (Sentinel ErrUnauthorized))"
  using assms by (simp add: Login_def userStore_GetByEmail_def pool_query_row_def pool_query_def first_row_def bindE_def mapE_def
      tryE_def throwE_def returnE_def row_err_def)

text \<open>
  C16. Whoever signed up can log in, and only with a password the stored hash accepts: in any later
  state that still has the row, login with the email and password of the sign-up returns the very
  user, and any other password is refused as unauthorized, exactly like an unknown email.
\<close>
theorem Login_roundtrip:
  assumes "bcrypt_ok bc" and "CreateUser bc provision cmd w = (Inr u, w1)"
    and "users_unique (w_db w2)" and "u \<in> set (db_users (w_db w2))" and "\<not> faulty w2"
  shows "fst (Login bc (uc_Email cmd) (uc_Password cmd) w2) = Inr u \<and>
    (\<forall>p. \<not> CheckPassword bc p (u_PasswordHash u) \<longrightarrow> fst (Login bc (uc_Email cmd) p w2) = Inl (Sentinel ErrUnauthorized)) \<and>
    (\<forall>email p. users_by_email email (w_db w2) = [] \<longrightarrow> fst (Login bc email p w2) = Inl (Sentinel ErrUnauthorized))"
proof -
  obtain i hash now where hash: "bc_generate bc (Suc (w_tick w)) (uc_Password cmd) = Inr hash" and u: "u = new_user cmd i hash now"
    using assms(2) by (rule CreateUser_run)
  have "users_by_email (uc_Email cmd) (w_db w2) = [u]"
    using unique_by_email [OF assms(3,4)] u by (simp add: new_user_def)
  moreover have "CheckPassword bc (uc_Password cmd) (u_PasswordHash u)"
    using assms(1) hash u by (simp add: bcrypt_ok_def CheckPassword_def new_user_def)
  ultimately show ?thesis using Login_one [OF _ assms(5)] Login_none [OF _ assms(5)] by auto
qed

lemma Login_roundtrip_witness:
  "\<exists>u w1. fst (Login ref_bcrypt ''a@b.c'' ''secret12'' w1) = Inr u \<and>
     fst (Login ref_bcrypt ''a@b.c'' ''secret13'' w1) = Inl (Sentinel ErrUnauthorized)"
proof -
  obtain u w1 where run: "CreateUser ref_bcrypt (ProvisionAll EnabledSymbols) ex_signup (ex_world ex_catalog) = (Inr u, w1)"
    and u: "db_users (w_db w1) = [u]" "w_env w1 = ex_env" by (rule ex_signup_runs)
  obtain i hash now where hash: "bc_generate ref_bcrypt (Suc (w_tick (ex_world ex_catalog))) (uc_Password ex_signup) = Inr hash"
    and u2: "u = new_user ex_signup i hash now" using run by (rule CreateUser_run)
  have "\<not> CheckPassword ref_bcrypt ''secret13'' (u_PasswordHash u)"
    using hash u2 by (auto simp: CheckPassword_def ref_bcrypt_def ex_signup_def new_user_def)
  moreover have "users_unique (w_db w1)" "\<not> faulty w1" using u by (simp_all add: users_unique_def faulty_def ex_env_def)
  ultimately show ?thesis using Login_roundtrip [OF ref_bcrypt_ok run, of w1] u(1) by (auto simp: ex_signup_def)
qed

definition deleted :: "uuid \<Rightarrow> gotime \<Rightarrow> user_rec list \<Rightarrow> user_rec list" where
  "deleted i now = map (\<lambda>u. if u_ID u = i \<and> u_DeletedAt u = None then u\<lparr>u_DeletedAt := Some now\<rparr> else u)"

lemma DeleteUser_run:
  "DeleteUser i w = (Inr x, w') \<Longrightarrow>
     \<exists>now. users_by_id i (w_db w) \<noteq> [] \<and> w_db w' = (w_db w)\<lparr>db_users := deleted i now (db_users (w_db w))\<rparr>"
  by (auto simp: DeleteUser_def userStore_Delete_def ok_simps count_rows_def users_by_id_def deleted_def)

text \<open>
  A deletion is final and hides the user: it stamps the one row of a user who was not deleted and
  changes nothing else; afterwards login, \<open>GetUser\<close> and a second deletion fail, and so does every
  sign-up with the same email or the same username, since the deleted row keeps both taken.
\<close>
theorem DeleteUser_final:
  assumes un: "users_unique (w_db w)" and u: "u \<in> set (db_users (w_db w))" and run: "DeleteUser (u_ID u) w = (Inr x, w1)"
    and later: "set (db_users (w_db w1)) \<subseteq> set (db_users (w_db w2))" "users_unique (w_db w2)"
  shows "u_DeletedAt u = None \<and>
    (\<exists>now. w_db w1 = (w_db w)\<lparr>db_users := deleted (u_ID u) now (db_users (w_db w))\<rparr>) \<and>
    isl (fst (Login bc (u_Email u) p w2)) \<and> isl (fst (GetUser (u_ID u) w2)) \<and> isl (fst (DeleteUser (u_ID u) w2)) \<and>
    (\<not> faulty w2 \<longrightarrow> fst (Login bc (u_Email u) p w2) = Inl (Sentinel ErrUnauthorized)) \<and>
    (uc_Email cmd = u_Email u \<or> uc_Username cmd = u_Username u \<longrightarrow> isl (fst (CreateUser bc provision cmd w2)))"
proof -
  obtain now where del: "users_by_id (u_ID u) (w_db w) \<noteq> []" "w_db w1 = (w_db w)\<lparr>db_users := deleted (u_ID u) now (db_users (w_db w))\<rparr>"
    using DeleteUser_run [OF run] by blast
  have live: "u_DeletedAt u = None" using unique_by_id [OF un u] del(1) by (auto split: if_splits)
  let ?v = "u\<lparr>u_DeletedAt := Some now\<rparr>"
  have "?v \<in> set (deleted (u_ID u) now (db_users (w_db w)))"
    using u live unfolding deleted_def by (auto simp: image_iff intro!: bexI [of _ u])
  then have v: "?v \<in> set (db_users (w_db w2))" using later(1) del(2) by auto
  have e: "users_by_email (u_Email u) (w_db w2) = []" "users_by_id (u_ID u) (w_db w2) = []"
    using unique_by_email [OF later(2) v] unique_by_id [OF later(2) v] by simp_all
  have log: "isl (fst (Login bc (u_Email u) p w2))"
  proof (cases "Login bc (u_Email u) p w2")
    case (Pair r w3)
    then show ?thesis using e(1) Login_Inr [of bc "u_Email u" p w2 _ w3] by (cases r) auto
  qed
  have get: "isl (fst (GetUser (u_ID u) w2))"
  proof (cases "GetUser (u_ID u) w2")
    case (Pair r w3)
    then show ?thesis using e(2) by (cases r) (auto simp: GetUser_def userStore_GetByID_def wrapE_Inr mapE_Inr pool_query_row_Inr)
  qed
  have again: "isl (fst (DeleteUser (u_ID u) w2))"
  proof (cases "DeleteUser (u_ID u) w2")
    case (Pair r w3)
    then show ?thesis using e(2) DeleteUser_run [of "u_ID u" w2 _ w3] by (cases r) auto
  qed
  have taken: "isl (fst (CreateUser bc provision cmd w2))" if c: "uc_Email cmd = u_Email u \<or> uc_Username cmd = u_Username u"
  proof (cases "CreateUser bc provision cmd w2")
    case (Pair r w3)
    show ?thesis
    proof (cases r)
      case (Inr n)
      obtain i hash t where "n = new_user cmd i hash t" "\<forall>r \<in> set (db_users (w_db w2)). \<not> user_clash n r"
        using Pair [unfolded Inr] by (rule CreateUser_run)
      then have False using v c by (auto simp: user_clash_def new_user_def)
      then show ?thesis ..
    qed (simp add: Pair)
  qed
  show ?thesis using live del(2) log get again taken Login_none [OF e(1)] by blast
qed

lemma DeleteUser_final_witness:
  "\<exists>w1. isl (fst (CreateUser ref_bcrypt noopProvisioner ex_signup w1)) \<and> fst (Login ref_bcrypt ''a@b.c'' ''secret12'' w1) = Inl (Sentinel ErrUnauthorized)"
proof -
  obtain u w0 where u: "db_users (w_db w0) = [u]" "u_Email u = ''a@b.c''" "u_ID u = 1000" "w_env w0 = ex_env"
    and run: "CreateUser ref_bcrypt (ProvisionAll EnabledSymbols) ex_signup (ex_world ex_catalog) = (Inr u, w0)" by (rule ex_signup_runs)
  obtain i hash t where n: "u = new_user ex_signup i hash t" using run by (rule CreateUser_run)
  have "\<exists>x w1. DeleteUser 1000 w0 = (Inr x, w1) \<and> w_env w1 = ex_env \<and> (\<exists>t. db_users (w_db w1) = [u\<lparr>u_DeletedAt := Some t\<rparr>])"
    using u n by (simp add: DeleteUser_def userStore_Delete_def must_affect_def count_rows_def in_tx_def with_tx_def Begin_def faulty_def
        tx_exec_def bindE_def wrapE_def mapE_def returnE_def commit_tx_def Commit_def ex_env_def new_user_def)
  then obtain x w1 t where del: "DeleteUser (u_ID u) w0 = (Inr x, w1)" "w_env w1 = ex_env" "db_users (w_db w1) = [u\<lparr>u_DeletedAt := Some t\<rparr>]"
    using u(3) by auto
  have un: "users_unique (w_db w0)" "users_unique (w_db w1)" using u(1) del(3) by (simp_all add: users_unique_def)
  have "\<not> faulty w1" using del(2) by (simp add: faulty_def ex_env_def)
  then show ?thesis
    using DeleteUser_final [OF un(1) _ del(1) order_refl un(2), of ref_bcrypt "''secret12''" ex_signup noopProvisioner] u(1,2)
    by (auto simp: ex_signup_def)
qed

end
