(* ===== verification/Web_Frames.thy ===== *)
theory Web_Frames
  imports Server Funding Trade_Theorems User_Properties
begin

text \<open>
  How handlers are reasoned about: which leave the store alone, which are atomic, and that a handler
  that runs to its end answers with a status below 400, and with a body when the status is 200. One lemma per handler, by the structure of its
  code; together they say what every route of the server does to the store.
\<close>

subsection \<open>Services\<close>

lemma atomic_Withdraw: "atomic (Withdraw dp re cmd)"
proof -
  have tx: "atomic (in_tx pre (withdraw_tx dp cmd i acct))" for pre i acct
    unfolding withdraw_tx_def Let_def
    by (intro atomic_in_tx atomic_bind atomic_commit_bind frame after_commit)
  have last: "atomic (bindE (in_tx ''Withdraw begin: '' (withdraw_tx dp cmd i acct)) (\<lambda>x.
      bindE (tryE (ledgerStore_SumByUserAsset dp u a)) (\<lambda>r :: gerr + string. returnE (k x r))))" for i acct u a k
    by (rule atomic_bind_after [OF tx]) (intro after_commit)
  show ?thesis
    unfolding Withdraw_def by (intro last atomic_cases atomic_bind quiet_atomic [OF quiet_basic(2)] frame)
qed

lemma atomic_withdrawal_processor: "atomic (newWithdrawalProcessor sandbox dp re cmd)"
  unfolding newWithdrawalProcessor_def withdrawal_sandboxProcessor_def withdrawal_Simulate_def withdrawal_realProcessor_def
  by (cases sandbox) (auto intro!: atomic_cases atomic_bind atomic_Withdraw quiet_atomic [OF quiet_basic(2)] frame)

lemma atomic_GetOrCreateAddress: "atomic (GetOrCreateAddress rnd u asset net)"
  unfolding atomic_def
proof (intro allI impI)
  fix w e w' assume run: "GetOrCreateAddress rnd u asset net w = (Inl e, w')"
  show "same_store w w'" using GetOrCreateAddress_cases [OF run] by (auto simp: same_store_def)
qed

lemma atomic_CreateUser: "(\<And>i. quiet (provision i)) \<Longrightarrow> atomic (CreateUser bc provision cmd)"
  unfolding CreateUser_def Let_def
  by (intro atomic_bind atomic_in_tx atomic_commit_bind frame after_commit)

lemma atomic_DeleteUser: "atomic (DeleteUser i)"
  unfolding DeleteUser_def by (intro atomic_in_tx atomic_bind atomic_Commit frame)

subsection \<open>Parts of a handler\<close>

definition answers :: "(http_response, http_response) act \<Rightarrow> bool" where
  "answers m \<longleftrightarrow> (\<forall>w x w'. m w = (Inr x, w') \<longrightarrow> rs_status x < 400 \<and> (rs_status x = 200 \<longrightarrow> rs_body x \<noteq> None))"

definition sound_handler :: "handler \<Rightarrow> bool" where
  "sound_handler h \<longleftrightarrow> (\<forall>r. atomic (h r) \<and> answers (h r))"

named_theorems answer \<open>what a handler that runs to its end answers\<close>

lemma answers_bind [answer]: "(\<And>a. answers (f a)) \<Longrightarrow> answers (bindE m f)"
  unfolding answers_def bindE_Inr by blast

lemma answers_basic [answer]:
  "answers (throwE rs)" "rs_status x < 400 \<and> (rs_status x = 200 \<longrightarrow> rs_body x \<noteq> None) \<Longrightarrow> answers (returnE x)"
  by (auto simp: answers_def returnE_Inr throwE_Inr)

lemma answers_cases [answer]:
  "answers m \<Longrightarrow> answers m' \<Longrightarrow> answers (if c then m else m')"
  "(\<And>a b. answers (k a b)) \<Longrightarrow> answers (case p of (a, b) \<Rightarrow> k a b)"
  "(\<And>e. answers (g e)) \<Longrightarrow> (\<And>x. answers (g' x)) \<Longrightarrow> answers (case s of Inl e \<Rightarrow> g e | Inr x \<Rightarrow> g' x)"
  by (auto split: prod.splits sum.splits)

lemma answered_simps [simp]:
  "rs_status (WriteJSON n v) = n" "rs_status (WriteHeader n) = n" "rs_body (WriteJSON n v) = Some v"
  by (simp_all add: WriteJSON_def WriteHeader_def)

lemma quiet_svc [frame]: "quiet m \<Longrightarrow> quiet (svc m)" "quiet m \<Longrightarrow> quiet (svc_once m)"
  by (simp_all add: svc_def svc_once_def quiet_mapE)

lemma atomic_svc: "atomic m \<Longrightarrow> atomic (svc m)" "atomic m \<Longrightarrow> atomic (svc_once m)"
  by (simp_all add: svc_def svc_once_def atomic_mapE)

text \<open>The last step of a handler that writes: the service call, then the response.\<close>

lemma atomic_last:
  "atomic m \<Longrightarrow> atomic (bindE (svc m) (\<lambda>x. returnE (g x)))"
  "atomic m \<Longrightarrow> atomic (bindE (svc_once m) (\<lambda>x. returnE (g x)))"
  by (rule atomic_bind_after, simp add: atomic_svc, rule never_fails_basic)+

lemma quiet_web [frame]:
  "quiet (orHTTP n msg x)" "quiet (decode_valid v spec r)" "quiet (need_user r)" "quiet (uuid_param wb name msg r)"
  "quiet (parse_num wb msg t)" "quiet (balance_or_empty wb u a)"
  by (auto simp: orHTTP_def decode_valid_def need_user_def uuid_param_def parse_num_def balance_or_empty_def intro!: frame)

lemma quiet_account_responses [frame]: "quiet (account_responses wb as)"
  by (induction as) (auto intro!: frame)

lemma quiet_Sign [frame]: "quiet (Sign j dp s u role)"
  unfolding Sign_def by (intro frame)

lemma quiet_Verify [frame]: "quiet (Verify j dp s t)"
  unfolding Verify_def by (intro frame)

lemma quiet_respondList [frame]: "quiet (respondList wb f)"
  unfolding respondList_def by (intro frame)

lemma quiet_list_services [frame]:
  "quiet (ListMyAddresses u)" "quiet (trade_ListByUser dp u sy l m)" "quiet (GetOrder dp i)" "quiet (ListOrders dp u l m)"
  by (auto simp: ListMyAddresses_def trade_ListByUser_def GetOrder_def ListOrders_def intro!: frame)

lemma sound_quiet: "(\<And>r. quiet (h r)) \<Longrightarrow> (\<And>r. answers (h r)) \<Longrightarrow> sound_handler h"
  by (simp add: sound_handler_def quiet_atomic)

lemma sound_atomic: "(\<And>r. atomic (h r)) \<Longrightarrow> (\<And>r. answers (h r)) \<Longrightarrow> sound_handler h"
  by (simp add: sound_handler_def)

subsection \<open>The handlers\<close>

lemma sound_user:
  "sound_handler (userHandler_Login wb sg)" "sound_handler (userHandler_Me wb)" "sound_handler (userHandler_GetUser wb)"
  "sound_handler (userHandler_ListUsers wb)"
  by (rule sound_quiet; unfold userHandler_Login_def userHandler_Me_def userHandler_GetUser_def userHandler_ListUsers_def;
      intro frame answer; simp)+

lemma sound_user_writes:
  "sound_handler (userHandler_CreateUser wb sv_provisioner)" "sound_handler (userHandler_DeleteUser wb)"
proof -
  have "quiet (sv_provisioner i)" for i unfolding sv_provisioner_def by (intro frame)
  then show "sound_handler (userHandler_CreateUser wb sv_provisioner)"
    by (intro sound_atomic; unfold userHandler_CreateUser_def)
      (intro atomic_last atomic_CreateUser atomic_bind frame, assumption, intro answer, simp)
  show "sound_handler (userHandler_DeleteUser wb)"
    by (intro sound_atomic; unfold userHandler_DeleteUser_def)
      (intro atomic_last atomic_DeleteUser atomic_bind frame, intro answer, simp)
qed

lemma sound_account:
  "sound_handler (accountHandler_ListMyAssets wb)" "sound_handler (accountHandler_GetMyAsset wb)"
  "sound_handler (accountHandler_GetMyBalance wb)" "sound_handler (accountHandler_adminListAccounts wb)"
  by (rule sound_quiet; unfold accountHandler_ListMyAssets_def accountHandler_GetMyAsset_def accountHandler_GetMyBalance_def
      accountHandler_adminListAccounts_def; intro frame answer; simp)+

lemma sound_asset:
  "sound_handler assetHandler_ListAssets" "sound_handler assetHandler_GetAsset" "sound_handler (assetHandler_ListNetworks wb)"
  by (rule sound_quiet; unfold assetHandler_ListAssets_def assetHandler_GetAsset_def assetHandler_ListNetworks_def;
      intro frame answer; simp)+

lemma answers_respondList [answer]: "answers (respondList wb f)"
  unfolding respondList_def by (intro answer) simp

lemma sound_ledger: "sound_handler (ledgerHandler_ListMine wb)" "sound_handler (ledgerHandler_AdminList wb)"
  by (rule sound_quiet; unfold ledgerHandler_ListMine_def ledgerHandler_AdminList_def; intro frame answer; simp?)+

lemma sound_order_reads:
  "sound_handler (orderHandler_GetOrder wb)" "sound_handler (orderHandler_ListByUser wb)" "sound_handler (tradeHandler_ListByUser wb)"
  by (rule sound_quiet; unfold orderHandler_GetOrder_def orderHandler_ListByUser_def tradeHandler_ListByUser_def;
      intro frame answer; simp)+

lemma sound_order_writes:
  "sound_handler (orderHandler_PlaceOrder wb markets)" "sound_handler (orderHandler_CancelOrder wb)"
  "sound_handler (tradeHandler_ExecuteTrade wb)"
  by (rule sound_atomic; unfold orderHandler_PlaceOrder_def orderHandler_CancelOrder_def tradeHandler_ExecuteTrade_def;
      (intro atomic_last atomic_PlaceOrder atomic_CancelOrder atomic_ExecuteTrade atomic_bind frame | intro answer; simp))+

lemma sound_wallet: "sound_handler (walletHandler_Create wb)" "sound_handler (walletHandler_List wb)"
  by (rule sound_atomic; unfold walletHandler_Create_def walletHandler_List_def;
      (intro atomic_last atomic_GetOrCreateAddress quiet_atomic atomic_bind frame | intro answer; simp))+

lemma sound_deposit:
  "sound_handler (depositHandler_Intake wb)" "sound_handler (depositHandler_Confirm wb)" "sound_handler (depositHandler_Reject wb)"
  "sound_handler (depositHandler_ListMine wb)"
  by (rule sound_atomic; unfold depositHandler_Intake_def depositHandler_Confirm_def depositHandler_Reject_def depositHandler_ListMine_def;
      (intro atomic_last atomic_Intake atomic_Confirm atomic_Reject quiet_atomic atomic_bind frame | intro answer; simp))+

lemma sound_deposit_real: "sound_handler (depositHandler_Deposit wb deposit_realProcessor)"
  by (rule sound_quiet; unfold depositHandler_Deposit_def deposit_realProcessor_def; intro frame answer; simp)

lemma sound_withdrawal:
  "sound_handler (withdrawalHandler_Withdraw wb (newWithdrawalProcessor sandbox))" "sound_handler (withdrawalHandler_ListMine wb)"
  by (rule sound_atomic; unfold withdrawalHandler_Withdraw_def withdrawalHandler_ListMine_def;
      (intro atomic_last atomic_withdrawal_processor quiet_atomic atomic_bind frame | intro answer; simp))+

end
