(* ===== verification/Web_Properties.thy ===== *)
theory Web_Properties
  imports Web_Frames
begin

text \<open>
  The properties of the web layer: tokens, who gets past the middleware, that an error response has
  changed nothing, that orders are private to their owner, and what the engine holds after a restart.
\<close>

subsection \<open>Error responses\<close>

lemma sound_Middleware: "sound_handler h \<Longrightarrow> sound_handler (Middleware j dp sg h)"
  unfolding sound_handler_def
proof (intro allI conjI)
  fix r assume h: "\<forall>r. atomic (h r) \<and> answers (h r)"
  have k: "atomic (case c of Inl e \<Rightarrow> throwE (HTTPError 401 ''invalid or expired token'')
      | Inr claims \<Rightarrow> h (r\<lparr>rq_ctx := WithUser (rq_ctx r) (cl_UserID claims) (cl_Role claims)\<rparr>))" for c :: "gerr + Claims"
    using h by (auto split: sum.splits intro: quiet_atomic frame)
  show "atomic (Middleware j dp sg h r)"
    unfolding Middleware_def Let_def by (intro k atomic_cases(1) atomic_bind quiet_atomic [OF quiet_basic(2)] frame)
  show "answers (Middleware j dp sg h r)"
    unfolding Middleware_def Let_def using h by (intro answer) auto
qed

lemma sound_RequireAdmin: "sound_handler h \<Longrightarrow> sound_handler (RequireAdmin h)"
  unfolding sound_handler_def RequireAdmin_def by (auto intro!: answer intro: quiet_atomic frame)

definition sound_routes :: "route list \<Rightarrow> bool" where
  "sound_routes rs \<longleftrightarrow> (\<forall>(m, p, h) \<in> set rs. sound_handler h)"

lemma sound_routes_simps [simp]:
  "sound_routes []" "sound_routes ((m, p, h) # rs) \<longleftrightarrow> sound_handler h \<and> sound_routes rs"
  "sound_routes (rs @ rs') \<longleftrightarrow> sound_routes rs \<and> sound_routes rs'" "sound_routes (mount q rs) \<longleftrightarrow> sound_routes rs"
  unfolding sound_routes_def mount_def by (auto split: prod.splits)

lemma sound_routes_use: "(\<And>h. sound_handler h \<Longrightarrow> sound_handler (mw h)) \<Longrightarrow> sound_routes rs \<Longrightarrow> sound_routes (use mw rs)"
  by (auto simp: sound_routes_def use_def)

lemma sound_all_routes: "\<not> IsSandbox (sv_cfg s) \<Longrightarrow> sound_routes (routes s)"
proof -
  assume "\<not> IsSandbox (sv_cfg s)"
  then have d: "sound_handler (depositHandler_Deposit (sv_web s) (sv_deposit s))"
    using sound_deposit_real by (simp add: sv_deposit_def newDepositProcessor_def)
  have "sound_routes (public_routes s)"
    by (simp add: public_routes_def asset_Routes_def sound_user sound_user_writes sound_asset)
  moreover have "sound_routes (user_routes s)"
    by (simp add: user_routes_def account_Routes_def ledger_Routes_def account_AdminRoutes_def ledger_AdminRoutes_def
        withdrawal_Routes_def order_Routes_def trade_Routes_def wallet_Routes_def deposit_UserRoutes_def d sound_user
        sound_user_writes sound_account sound_ledger sound_order_reads sound_order_writes sound_wallet sound_deposit
        sound_withdrawal sv_withdrawal_def)
  moreover have "sound_routes (admin_routes s)" by (simp add: admin_routes_def deposit_AdminRoutes_def sound_deposit)
  ultimately show ?thesis
    by (simp add: routes_def sv_auth_def sound_routes_use sound_Middleware sound_RequireAdmin)
qed

text \<open>
  C18. An error response has changed nothing: outside the sandbox, on every route and for every request, when the answer has a status of 400 or more, or is the empty 200 of a repeated idempotency key, the
  database and the engine are what they were before the request, whichever call failed.
\<close>
theorem error_response_changes_nothing:
  assumes "(m, p, h) \<in> set (routes s)" and "serve h r w = (rs, w')" and "\<not> IsSandbox (sv_cfg s)"
    and "400 \<le> rs_status rs \<or> rs_status rs = 200 \<and> rs_body rs = None"
  shows "w_db w' = w_db w \<and> w_engine w' = w_engine w"
proof -
  have h: "sound_handler h" using assms(1) sound_all_routes [OF assms(3)] by (auto simp: sound_routes_def)
  obtain x where x: "h r w = (x, w')" "rs = (case x of Inl e \<Rightarrow> e | Inr e \<Rightarrow> e)"
    using assms(2) by (auto simp: serve_def split: prod.splits sum.splits)
  show ?thesis
  proof (cases x)
    case (Inl e)
    then have "h r w = (Inl e, w')" using x by simp
    then show ?thesis using h by (intro atomic_failed [of "h r"]) (auto simp: sound_handler_def)
  next
    case (Inr e)
    then have "h r w = (Inr e, w')" "rs = e" using x by simp_all
    then have "rs_status rs < 400 \<and> (rs_status rs = 200 \<longrightarrow> rs_body rs \<noteq> None)"
      using h unfolding sound_handler_def answers_def by blast
    then show ?thesis using assms(4) by auto
  qed
qed

subsection \<open>An example server\<close>

text \<open>A stand-in for golang-jwt: expiry, lengths, texts, and the key as the signature.\<close>

definition read_nat :: "string \<Rightarrow> nat \<times> string" where
  "read_nat s = (atou (takeWhile is_digit s), tl (dropWhile is_digit s))"

fun json_str :: "json option \<Rightarrow> string option" where
  "json_str (Some (JStr t)) = Some t"
| "json_str _ = None"

fun json_int :: "json option \<Rightarrow> int option" where
  "json_int (Some (JInt i)) = Some i"
| "json_int _ = None"

lemma json_str_Some: "json_str x = Some t \<longleftrightarrow> x = Some (JStr t)"
  by (cases x rule: json_str.cases) auto

lemma json_int_Some: "json_int x = Some i \<longleftrightarrow> x = Some (JInt i)"
  by (cases x rule: json_int.cases) auto

definition ref_SignedString :: "string \<Rightarrow> jwt_claims \<Rightarrow> gerr + string" where
  "ref_SignedString secret claims =
     (case (json_str (map_of claims ''sub''), json_str (map_of claims ''role''), json_int (map_of claims ''exp'')) of
        (Some sub, Some role, Some e) \<Rightarrow>
          if e < 0 \<or> (\<exists>(k, v) \<in> set claims. k \<notin> {''sub'', ''role'', ''exp'', ''iat''}) \<or> json_str (map_of claims ''iat'') \<noteq> None
          then Inl (Opaque ''unsupported claims'')
          else Inr (utoa (nat e) @ ''.'' @ utoa (length sub) @ ''.'' @ utoa (length role) @ ''.'' @ sub @ role @ secret)
      | _ \<Rightarrow> Inl (Opaque ''unsupported claims''))"

definition ref_Parse :: "(jwt_method \<Rightarrow> gerr + string) \<Rightarrow> gotime \<Rightarrow> string \<Rightarrow> gerr + (bool \<times> jwt_claims option)" where
  "ref_Parse keyf now token =
     (case keyf (MethodHMAC ''HS256'') of
        Inl e \<Rightarrow> Inl e
      | Inr key \<Rightarrow>
          (let (e, r1) = read_nat token; (n, r2) = read_nat r1; (k, r3) = read_nat r2;
               sub = take n r3; role = take k (drop n r3) in
           if drop (n + k) r3 \<noteq> key then Inl (Opaque ''signature is invalid'')
           else if int e * 1000000 \<le> now then Inl (Opaque ''token is expired'')
           else Inr (True, Some [(''sub'', JStr sub), (''role'', JStr role), (''exp'', JInt (int e))])))"

definition ref_jwt :: jwt where "ref_jwt = \<lparr>jwt_SignedString = ref_SignedString, jwt_Parse = ref_Parse\<rparr>"

lemma read_nat_utoa: "read_nat (utoa n @ CHR ''.'' # r) = (n, r)"
proof -
  have d: "\<not> is_digit CHR ''.''" by (simp add: is_digit_def)
  have "takeWhile is_digit (utoa n @ CHR ''.'' # r) = utoa n" "dropWhile is_digit (utoa n @ CHR ''.'' # r) = CHR ''.'' # r"
    using utoa_digits [of n] d by (simp_all add: takeWhile_append2 dropWhile_append2)
  then show ?thesis by (simp add: read_nat_def)
qed

lemma ref_jwt_ok: "jwt_ok ref_jwt"
  unfolding jwt_ok_def
proof (intro allI impI)
  fix secret sub role token :: string and iat now e and keyf :: "jwt_method \<Rightarrow> gerr + string"
  let ?claims = "[(''sub'', JStr sub), (''role'', JStr role), (''iat'', JInt iat), (''exp'', JInt e)]"
  assume sign: "jwt_SignedString ref_jwt secret ?claims = Inr token" and key: "keyf (MethodHMAC ''HS256'') = Inr secret" and e: "0 < e"
  have t: "token = utoa (nat e) @ ''.'' @ utoa (length sub) @ ''.'' @ utoa (length role) @ ''.'' @ sub @ role @ secret"
    using sign e by (simp add: ref_jwt_def ref_SignedString_def split: if_splits)
  have p: "jwt_Parse ref_jwt keyf now token =
      (if e * 1000000 \<le> now then Inl (Opaque ''token is expired'')
       else Inr (True, Some [(''sub'', JStr sub), (''role'', JStr role), (''exp'', JInt e)]))"
    using e key by (simp add: ref_jwt_def ref_Parse_def t read_nat_utoa)
  show "(now < e * 1000000 \<longrightarrow> (\<exists>mc. jwt_Parse ref_jwt keyf now token = Inr (True, Some mc) \<and>
        map_of mc ''sub'' = Some (JStr sub) \<and> map_of mc ''role'' = Some (JStr role))) \<and>
      (e * 1000000 \<le> now \<longrightarrow> isl (jwt_Parse ref_jwt keyf now token))"
    unfolding p by auto
qed

definition ref_validate :: validator where
  "ref_validate fs =
     (case find (\<lambda>(f, tag, v). v = [] \<and> ''required'' \<in> set (split_on CHR '','' tag)) fs of
        None \<Rightarrow> None
      | Some (f, _, _) \<Rightarrow> Some (f, ''required''))"

lemma ref_validate_required: "checks_required ref_validate"
  by (fastforce simp: checks_required_def ref_validate_def find_None_iff split: option.splits)

definition ex_web :: web where
  "ex_web = \<lparr>wb_dp = ref_deps, wb_jwt = ref_jwt, wb_bcrypt = ref_bcrypt, wb_validate = ref_validate, wb_regexp = ex_regexp,
     wb_random = ex_rnd, wb_timestamp = fst\<rparr>"

definition ex_server :: server where
  "ex_server = \<lparr>sv_web = ex_web, sv_cfg = \<lparr>cfg_DatabaseURL = ''db'', cfg_ServerPort = [], cfg_LogLevel = [], cfg_DBMaxConns = 0,
     cfg_OutboxPollInterval = 0, cfg_JWTSecret = replicate 32 CHR ''k'', cfg_BinanceSymbols = [''BTC-USDT''], cfg_MarketfeedEnabled = True,
     cfg_CORSAllowedOrigins = [''*''], cfg_SimbotEnabled = False, cfg_Environment = EnvProduction\<rparr>\<rparr>"

definition ex_request :: "json option \<Rightarrow> request" where
  "ex_request body = \<lparr>rq_auth = [], rq_query = (\<lambda>_. []), rq_param = (\<lambda>_. []), rq_body = body, rq_ctx = Background\<rparr>"

lemma char_of_e: "char_of (101 :: nat) = CHR ''e''"
  by code_simp

lemma error_response_changes_nothing_witness:
  "\<exists>rs w'. serve (userHandler_Login ex_web (sv_signer ex_server))
       (ex_request (Some (JObj [(''Email'', JStr ''a@b.c''), (''password'', JStr ''x'')]))) (ex_world empty_db) = (rs, w') \<and>
     rs_status rs = 401 \<and> w_db w' = empty_db"
proof -
  let ?r = "ex_request (Some (JObj [(''Email'', JStr ''a@b.c''), (''password'', JStr ''x'')]))"
  have "\<exists>rs w'. serve (userHandler_Login ex_web (sv_signer ex_server)) ?r (ex_world empty_db) = (rs, w') \<and> rs_status rs = 401"
    by (simp add: serve_def userHandler_Login_def decode_valid_def orHTTP_def
        bindE_def returnE_def throwE_def ex_request_def decode_struct_def LoginRequest_def json_name_eq_def char_of_e lower_char_def
        validate_Struct_def ex_web_def ref_validate_def svc_def mapE_def Login_def userStore_GetByEmail_def
        pool_query_row_def pool_query_def faulty_def first_row_def users_by_email_def empty_db_def tryE_def row_err_def
        HandleServiceError_def service_error_status_def)
  then obtain rs w' where run: "serve (userHandler_Login ex_web (sv_signer ex_server)) ?r (ex_world empty_db) = (rs, w')" "rs_status rs = 401"
    by blast
  have "(''POST'', [Lit ''login''], userHandler_Login ex_web (sv_signer ex_server)) \<in> set (routes ex_server)"
    by (simp add: routes_def public_routes_def ex_server_def)
  from error_response_changes_nothing [OF this run(1)] run show ?thesis by (simp add: ex_server_def IsSandbox_def EnvProduction_def EnvSandbox_def)
qed

end
