(* ===== verification/Access.thy ===== *)
theory Access
  imports Web_Properties
begin

text \<open>
  Who may do what: tokens are accepted until they expire, the protected routes run only with a valid
  token and as its user, the admin routes only for an admin, and an order is shown and cancelled only
  for its owner or an admin.
\<close>

subsection \<open>Tokens\<close>

lemma jwt_okD:
  assumes "jwt_ok j" and "keyf (MethodHMAC ''HS256'') = Inr secret"
    and "jwt_SignedString j secret [(''sub'', JStr sub), (''role'', JStr role), (''iat'', JInt iat), (''exp'', JInt e)] = Inr token"
    and "ascii_text sub" and "ascii_text role" and "0 < e" and "e < 2 ^ 53"
  shows "now < e * 1000000 \<Longrightarrow> \<exists>mc. jwt_Parse j keyf now token = Inr (True, Some mc) \<and>
      map_of mc ''sub'' = Some (JStr sub) \<and> map_of mc ''role'' = Some (JStr role)"
    and "e * 1000000 \<le> now \<Longrightarrow> isl (jwt_Parse j keyf now token)"
  using assms unfolding jwt_ok_def by blast+

lemma Verify_eq:
  "Verify j dp sg token w = (verified_claims dp (jwt_Parse j (keyfunc sg) (e_now (w_env w) (w_tick w)) token), tick w)"
  by (simp add: Verify_def bindE_def Now_def liftE_def)

definition expiry :: "signer \<Rightarrow> gotime \<Rightarrow> gotime" where
  "expiry sg now = Unix (now + sg_ttl sg) * 1000000"

text \<open>
  C22. A token is good for its user and role until it expires and never after: what \<open>Sign\<close> issued,
  \<open>Verify\<close> with the same secret turns back into the user and the role while the clock is before the
  whole second \<open>iat + 24h\<close>, and rejects as invalid from then on. The role and the text of the user's ID
  are ASCII, the role is not empty, and the expiry, in microseconds, is positive and below \<open>2^53\<close>.
\<close>
theorem token_roundtrip:
  assumes "jwt_ok j" and "deps_ok dp" and "Sign j dp sg u role w = (Inr token, w1)" and "role \<noteq> []"
    and "ascii_text role" and "ascii_text (dp_uuid_str dp u)"
    and "0 < expiry sg (e_now (w_env w) (w_tick w))" and "expiry sg (e_now (w_env w) (w_tick w)) < 2 ^ 53"
  shows "fst (Verify j dp sg token v) =
    (if e_now (w_env v) (w_tick v) < expiry sg (e_now (w_env w) (w_tick w)) then Inr \<lparr>cl_UserID = u, cl_Role = role\<rparr>
     else Inl ErrInvalidToken)"
proof -
  let ?now = "e_now (w_env w) (w_tick w)" and ?t = "e_now (w_env v) (w_tick v)"
  have sign: "jwt_SignedString j (sg_secret sg) [(''sub'', JStr (dp_uuid_str dp u)), (''role'', JStr role),
      (''iat'', JInt (Unix ?now)), (''exp'', JInt (Unix (?now + sg_ttl sg)))] = Inr token"
    using assms(3) by (auto simp: Sign_def signed_claims_def ok_simps)
  have b: "0 < Unix (?now + sg_ttl sg)" "Unix (?now + sg_ttl sg) < 2 ^ 53" using assms(7,8) by (simp_all add: expiry_def)
  have key: "keyfunc sg (MethodHMAC ''HS256'') = Inr (sg_secret sg)" by (simp add: keyfunc_def)
  note law = jwt_okD [where keyf = "keyfunc sg" and now = ?t, OF assms(1) key sign assms(6,5) b]
  show ?thesis
  proof (cases "?t < expiry sg ?now")
    case True
    then obtain mc where mc: "jwt_Parse j (keyfunc sg) ?t token = Inr (True, Some mc)"
      "map_of mc ''sub'' = Some (JStr (dp_uuid_str dp u))" "map_of mc ''role'' = Some (JStr role)"
      using law(1) unfolding expiry_def by blast
    then have "claim_text mc ''sub'' = dp_uuid_str dp u" "claim_text mc ''role'' = role"
      by (simp_all add: claim_text_def)
    then show ?thesis using True mc(1) assms(4) deps_okD(4) [OF assms(2)] by (simp add: Verify_eq verified_claims_def)
  next
    case False
    then have "isl (jwt_Parse j (keyfunc sg) ?t token)" using law(2) unfolding expiry_def by (simp add: not_less)
    then show ?thesis using False by (auto simp: Verify_eq verified_claims_def isl_def)
  qed
qed

lemma ex_token: "\<exists>token w1. Sign ref_jwt ref_deps (NewSigner ''secret'') 5 ''USER'' (ex_world empty_db) = (Inr token, w1)"
  by (simp add: Sign_def bindE_def Now_def wrapE_def mapE_def liftE_def ref_jwt_def ref_SignedString_def signed_claims_def
      Unix_def NewSigner_def DefaultTTL_def ex_env_def)

lemma ascii_digits: "list_all is_digit s \<Longrightarrow> ascii_text s"
  by (auto simp: ascii_text_def is_digit_def list_all_iff)

lemma token_roundtrip_witness:
  "\<exists>token w1. Sign ref_jwt ref_deps (NewSigner ''secret'') 5 ''USER'' (ex_world empty_db) = (Inr token, w1) \<and>
     fst (Verify ref_jwt ref_deps (NewSigner ''secret'') token (ex_world empty_db)) = Inr \<lparr>cl_UserID = 5, cl_Role = ''USER''\<rparr>"
proof -
  obtain token w1 where sign: "Sign ref_jwt ref_deps (NewSigner ''secret'') 5 ''USER'' (ex_world empty_db) = (Inr token, w1)"
    using ex_token by blast
  have e: "expiry (NewSigner ''secret'') (e_now (w_env (ex_world empty_db)) (w_tick (ex_world empty_db))) = 86400000000"
    by (simp add: expiry_def NewSigner_def DefaultTTL_def Unix_def ex_env_def)
  have role: "ascii_text ''USER''" by (simp add: ascii_text_def)
  have user: "ascii_text (dp_uuid_str ref_deps 5)"
    by (rule ascii_digits) (use utoa_digits in \<open>auto simp: ref_deps_def list_all_iff\<close>)
  show ?thesis
    using token_roundtrip [OF ref_jwt_ok deps_ok_ref_deps sign _ role user, of "ex_world empty_db"] sign unfolding e by (simp add: ex_env_def)
qed

subsection \<open>The middleware\<close>

text \<open>The claims a request carries at the time of the world, if its header and token are good.\<close>

definition bearer_claims :: "server \<Rightarrow> request \<Rightarrow> world \<Rightarrow> gerr + Claims" where
  "bearer_claims s r w =
     (if rq_auth r = [] \<or> take 7 (rq_auth r) \<noteq> ''Bearer '' then Inl ErrInvalidToken
      else fst (Verify (wb_jwt (sv_web s)) (wb_dp (sv_web s)) (sv_signer s) (drop 7 (rq_auth r)) w))"

lemma serve_Inl: "h r w = (Inl x, w') \<Longrightarrow> serve h r w = (x, w')"
  by (simp add: serve_def)

lemma serve_auth:
  "serve (sv_auth s h) r w =
     (case bearer_claims s r w of
        Inl _ \<Rightarrow> (HTTPError 401 (if rq_auth r = [] \<or> take 7 (rq_auth r) \<noteq> ''Bearer '' then ''missing or malformed Authorization header''
                               else ''invalid or expired token''),
                 if rq_auth r = [] \<or> take 7 (rq_auth r) \<noteq> ''Bearer '' then w else tick w)
      | Inr c \<Rightarrow> serve h (r\<lparr>rq_ctx := WithUser (rq_ctx r) (cl_UserID c) (cl_Role c)\<rparr>) (tick w))"
  by (auto simp: serve_def sv_auth_def Middleware_def bearer_claims_def Let_def throwE_def bindE_def tryE_def Verify_eq
      split: sum.splits)

lemma serve_auth_Inr:
  "bearer_claims s r w = Inr c \<Longrightarrow>
   serve (sv_auth s h) r w = serve h (r\<lparr>rq_ctx := WithUser (rq_ctx r) (cl_UserID c) (cl_Role c)\<rparr>) (tick w)"
  by (simp add: serve_auth)

lemma bearer_claims_cong: "rq_auth r' = rq_auth r \<Longrightarrow> bearer_claims s r' w = bearer_claims s r w"
  by (simp add: bearer_claims_def)

definition protected_routes :: "server \<Rightarrow> route list" where
  "protected_routes s = user_routes s @ use RequireAdmin (admin_routes s)"

definition patterns :: "route list \<Rightarrow> (string \<times> segment list) list" where
  "patterns rs = map (\<lambda>(m, p, _). (m, p)) rs"

lemma route_protected:
  assumes "(m, p, h) \<in> set (routes s)" and "(m, p) \<notin> set (patterns (public_routes s))"
  obtains h0 where "h = sv_auth s h0" and "(m, p, h0) \<in> set (protected_routes s)"
proof -
  have "(m, p, h) \<notin> set (public_routes s)" using assms(2) by (force simp: patterns_def)
  then have "(m, p, h) \<in> set (use (sv_auth s) (protected_routes s))"
    using assms(1) unfolding routes_def protected_routes_def set_append by blast
  then show thesis using that by (auto simp: use_def)
qed

definition admin_deposits :: "segment list \<Rightarrow> bool" where
  "admin_deposits p \<longleftrightarrow> take 2 p = [Lit ''admin'', Lit ''deposits'']"

lemma patterns_simps [simp]:
  "patterns [] = []" "patterns ((m, p, h) # rs) = (m, p) # patterns rs" "patterns (rs @ rs') = patterns rs @ patterns rs'"
  "patterns (mount q rs) = map (\<lambda>(m, p). (m, q @ p)) (patterns rs)" "patterns (use mw rs) = patterns rs"
  by (auto simp: patterns_def mount_def use_def)

lemma patterns_mem: "(m, p, h) \<in> set rs \<Longrightarrow> (m, p) \<in> set (patterns rs)"
  by (force simp: patterns_def)

lemma user_routes_not_admin: "(m, p) \<in> set (patterns (user_routes s)) \<Longrightarrow> \<not> admin_deposits p"
  by (auto simp: user_routes_def account_Routes_def ledger_Routes_def account_AdminRoutes_def ledger_AdminRoutes_def
      withdrawal_Routes_def order_Routes_def trade_Routes_def wallet_Routes_def deposit_UserRoutes_def admin_deposits_def)

lemma admin_route:
  assumes "(m, p, h) \<in> set (protected_routes s)" and "admin_deposits p"
  obtains h0 where "h = RequireAdmin h0"
proof -
  have "(m, p, h) \<in> set (use RequireAdmin (admin_routes s))"
    using assms user_routes_not_admin [OF patterns_mem] unfolding protected_routes_def set_append by blast
  then show thesis using that by (auto simp: use_def)
qed

text \<open>
  C19. The gate of the server: a request to any route that is not public, without a valid token, is
  answered 401; with a valid token of a user who is not an admin, every route under
  \<open>/admin/deposits\<close> is answered 403; in both cases nothing has changed. With a valid token the handler
  of the route runs, and the user and role it sees are those of the token, whatever the request says.
\<close>
theorem protected_routes_gated:
  assumes "(m, p, h) \<in> set (routes s)" and "(m, p) \<notin> set (patterns (public_routes s))" and "serve h r w = (rs, w')"
  shows "(isl (bearer_claims s r w) \<longrightarrow> rs_status rs = 401 \<and> w_db w' = w_db w \<and> w_engine w' = w_engine w) \<and>
    (\<forall>c. bearer_claims s r w = Inr c \<longrightarrow> admin_deposits p \<longrightarrow> cl_Role c \<noteq> ''ADMIN'' \<longrightarrow>
       rs_status rs = 403 \<and> w_db w' = w_db w \<and> w_engine w' = w_engine w) \<and>
    (\<forall>c. bearer_claims s r w = Inr c \<longrightarrow>
       (\<exists>h0. (m, p, h0) \<in> set (protected_routes s) \<and>
          serve h0 (r\<lparr>rq_ctx := WithUser (rq_ctx r) (cl_UserID c) (cl_Role c)\<rparr>) (tick w) = (rs, w')))"
proof -
  obtain h0 where h: "h = sv_auth s h0" and h0: "(m, p, h0) \<in> set (protected_routes s)"
    using assms(1,2) by (rule route_protected)
  note run = assms(3) [unfolded h]
  show ?thesis
  proof (intro conjI impI allI)
    assume "isl (bearer_claims s r w)"
    then obtain e where "bearer_claims s r w = Inl e" by (auto simp: isl_def)
    then show "rs_status rs = 401" "w_db w' = w_db w" "w_engine w' = w_engine w"
      using run unfolding serve_auth by (auto simp: HTTPError_def)
  next
    fix c assume c: "bearer_claims s r w = Inr c" and p: "admin_deposits p" and na: "cl_Role c \<noteq> ''ADMIN''"
    obtain h1 where h1: "h0 = RequireAdmin h1" using h0 p by (rule admin_route)
    have "serve h0 (r\<lparr>rq_ctx := WithUser (rq_ctx r) (cl_UserID c) (cl_Role c)\<rparr>) (tick w) = (HTTPError 403 ''admin role required'', tick w)"
      using na by (simp add: h1 serve_def RequireAdmin_def IsAdmin_def RoleFromContext_def WithUser_def throwE_def)
    then show "rs_status rs = 403" "w_db w' = w_db w" "w_engine w' = w_engine w"
      using run unfolding serve_auth_Inr [OF c] by (auto simp: HTTPError_def)
  next
    fix c assume c: "bearer_claims s r w = Inr c"
    show "\<exists>h0. (m, p, h0) \<in> set (protected_routes s) \<and>
        serve h0 (r\<lparr>rq_ctx := WithUser (rq_ctx r) (cl_UserID c) (cl_Role c)\<rparr>) (tick w) = (rs, w')"
      using h0 run unfolding serve_auth_Inr [OF c] by blast
  qed
qed

lemma ex_me_route:
  "(''GET'', [Lit ''me''], sv_auth s (userHandler_Me (sv_web s))) \<in> set (routes s)"
  by (simp add: routes_def user_routes_def use_def)

lemma protected_routes_gated_witness:
  "\<exists>rs w'. serve (sv_auth ex_server (userHandler_Me ex_web)) (ex_request None) (ex_world empty_db) = (rs, w') \<and> rs_status rs = 401"
proof -
  obtain rs w' where run: "serve (sv_auth ex_server (userHandler_Me (sv_web ex_server))) (ex_request None) (ex_world empty_db) = (rs, w')"
    by fastforce
  have np: "(''GET'', [Lit ''me'']) \<notin> set (patterns (public_routes ex_server))"
    by (simp add: public_routes_def asset_Routes_def)
  have "isl (bearer_claims ex_server (ex_request None) (ex_world empty_db))" by (simp add: bearer_claims_def ex_request_def)
  then show ?thesis using protected_routes_gated [OF ex_me_route np run] run by (auto simp: ex_server_def)
qed

subsection \<open>Orders are private\<close>

text \<open>What a handler that stops early never answers: a 200 with a body.\<close>

definition shows_nothing :: "http_response \<Rightarrow> bool" where
  "shows_nothing rs \<longleftrightarrow> \<not> (rs_status rs = 200 \<and> rs_body rs \<noteq> None)"

definition refuses :: "(http_response, 'a) act \<Rightarrow> bool" where
  "refuses m \<longleftrightarrow> (\<forall>w e w'. m w = (Inl e, w') \<longrightarrow> shows_nothing e)"

lemma refuses_bind: "refuses m \<Longrightarrow> (\<And>a. refuses (f a)) \<Longrightarrow> refuses (bindE m f)"
  unfolding refuses_def bindE_Inl by blast

lemma refuses_basic: "refuses (svc m)" "refuses (returnE x)" "n \<noteq> 200 \<Longrightarrow> refuses (orHTTP n msg y)"
  by (auto simp: refuses_def svc_def mapE_Inl returnE_def orHTTP_def throwE_def HTTPError_def shows_nothing_def
      HandleServiceError_def Let_def split: option.splits)

lemma refuses_uuid_param: "refuses (uuid_param wb n msg r)"
  unfolding uuid_param_def by (rule refuses_basic(3)) simp

lemma refuses_order:
  "refuses (orderHandler_GetOrder wb r)" "refuses (orderHandler_CancelOrder wb r)"
  unfolding orderHandler_GetOrder_def orderHandler_CancelOrder_def
  by (intro refuses_bind refuses_basic(1,2) refuses_uuid_param)+

lemma ensureOwner_Inr: "ensureOwner ctx u = Inr x \<longleftrightarrow> IsAdmin ctx \<or> cx_userID ctx = Some u"
  by (auto simp: ensureOwner_def UserIDFromContext_def split: option.splits)

lemma svc_Inr: "svc m w = (Inr a, w') \<longleftrightarrow> m w = (Inr a, w')"
  by (simp add: svc_def mapE_Inr)

lemma owned_order:
  assumes "orderHandler_GetOrder wb r w = (Inr x, w') \<or> orderHandler_CancelOrder wb r w = (Inr x, w')"
  shows "\<exists>i row rest. dp_uuid_parse (wb_dp wb) (rq_param r ''id'') = Some i \<and> orders_by_id i (w_db w) = row # rest \<and>
    (IsAdmin (rq_ctx r) \<or> cx_userID (rq_ctx r) = Some (o_UserID row))"
proof -
  obtain i w1 y w2 u w3 where u: "uuid_param wb ''id'' ''invalid order id'' r w = (Inr i, w1)"
    and g: "GetOrder (wb_dp wb) i w1 = (Inr y, w2)" and e: "liftE (ensureOwner (rq_ctx r) (o_UserID y)) w2 = (Inr u, w3)"
    using assms unfolding orderHandler_GetOrder_def orderHandler_CancelOrder_def bindE_Inr svc_Inr by blast
  have i: "dp_uuid_parse (wb_dp wb) (rq_param r ''id'') = Some i" "w1 = w"
    using u by (auto simp: uuid_param_def orHTTP_def throwE_Inr returnE_Inr split: option.splits)
  obtain row rest where "orders_by_id i (w_db w) = row # rest" "y = scanOrder (wb_dp wb) row"
    using g i(2) by (auto simp: GetOrder_def orderStore_GetByID_def ok_simps)
  then show ?thesis using i e by (auto simp: liftE_Inr ensureOwner_Inr scanOrder_def)
qed

lemma order_route:
  assumes "(m, [Lit ''orders'', Param ''id''], h) \<in> set (protected_routes s)"
  shows "h = orderHandler_GetOrder (sv_web s) \<or> h = orderHandler_CancelOrder (sv_web s)"
  using assms
  by (auto simp: protected_routes_def user_routes_def account_Routes_def ledger_Routes_def account_AdminRoutes_def ledger_AdminRoutes_def
      withdrawal_Routes_def order_Routes_def trade_Routes_def wallet_Routes_def deposit_UserRoutes_def mount_def use_def admin_routes_def
      deposit_AdminRoutes_def)

lemma order_route_not_public: "(m, [Lit ''orders'', Param ''id'']) \<notin> set (patterns (public_routes s))"
  by (auto simp: public_routes_def asset_Routes_def)

text \<open>
  C20. Orders are private: a request for \<open>/orders/{id}\<close> that shows the order (a 200 with a body) or
  changes anything, by GET or DELETE, carries a valid token, and the token is of an admin or of the
  user who placed that order.
\<close>
theorem orders_private:
  assumes "(m, [Lit ''orders'', Param ''id''], h) \<in> set (routes s)" and "serve h r w = (rs, w')"
    and "\<not> shows_nothing rs \<or> w_db w' \<noteq> w_db w"
  shows "\<exists>c oid row rest. bearer_claims s r w = Inr c \<and> dp_uuid_parse (wb_dp (sv_web s)) (rq_param r ''id'') = Some oid \<and>
    orders_by_id oid (w_db w) = row # rest \<and> (cl_Role c = ''ADMIN'' \<or> o_UserID row = cl_UserID c)"
proof -
  obtain h0 where h: "h = sv_auth s h0" "(m, [Lit ''orders'', Param ''id''], h0) \<in> set (protected_routes s)"
    using assms(1) order_route_not_public by (rule route_protected)
  note h0 = order_route [OF h(2)]
  obtain c where c: "bearer_claims s r w = Inr c"
  proof (cases "bearer_claims s r w")
    case (Inl e)
    then have "rs_status rs = 401" "w_db w' = w_db w"
      using assms(2) unfolding h(1) serve_auth by (auto simp: HTTPError_def)
    then have "shows_nothing rs" "w_db w' = w_db w" by (simp_all add: shows_nothing_def)
    then show ?thesis using assms(3) by blast
  qed blast
  let ?r = "r\<lparr>rq_ctx := WithUser (rq_ctx r) (cl_UserID c) (cl_Role c)\<rparr>"
  have run: "serve h0 ?r (tick w) = (rs, w')" using assms(2) unfolding h(1) serve_auth_Inr [OF c] .
  obtain x where x: "h0 ?r (tick w) = (x, w')" "rs = (case x of Inl e \<Rightarrow> e | Inr e \<Rightarrow> e)"
    using run by (auto simp: serve_def split: prod.splits sum.splits)
  have "\<exists>y. x = Inr y"
  proof (cases x)
    case (Inl e)
    have "refuses (h0 ?r)" "atomic (h0 ?r)" using h0 refuses_order sound_order_reads sound_order_writes by (auto simp: sound_handler_def)
    moreover have "h0 ?r (tick w) = (Inl e, w')" using x Inl by simp
    ultimately have "shows_nothing e" "w_db w' = w_db (tick w)" using atomic_failed [of "h0 ?r"] unfolding refuses_def by blast+
    then have "shows_nothing rs" "w_db w' = w_db w" using x(2) Inl tick_simps(1) by simp_all
    then show ?thesis using assms(3) by blast
  qed simp
  then obtain y where "h0 ?r (tick w) = (Inr y, w')" using x by blast
  then have "orderHandler_GetOrder (sv_web s) ?r (tick w) = (Inr y, w') \<or> orderHandler_CancelOrder (sv_web s) ?r (tick w) = (Inr y, w')"
    using h0 by auto
  then obtain oid row rest where "dp_uuid_parse (wb_dp (sv_web s)) (rq_param ?r ''id'') = Some oid" "orders_by_id oid (w_db w) = row # rest"
    "IsAdmin (rq_ctx ?r) \<or> cx_userID (rq_ctx ?r) = Some (o_UserID row)" using owned_order [of "sv_web s" ?r "tick w" y w'] by auto
  then show ?thesis using c by (auto simp: WithUser_def IsAdmin_def RoleFromContext_def)
qed

text \<open>A token of the example server, valid for a day from time 0.\<close>

definition ex_bearer :: "uuid \<Rightarrow> string \<Rightarrow> string" where
  "ex_bearer u role =
     ''Bearer '' @ utoa 86400 @ ''.'' @ utoa (length (utoa (unat u))) @ ''.'' @ utoa (length role) @ ''.'' @ utoa (unat u) @ role @
     replicate 32 CHR ''k''"

definition ex_as :: "uuid \<Rightarrow> string \<Rightarrow> request" where
  "ex_as u role = (ex_request None)\<lparr>rq_auth := ex_bearer u role\<rparr>"

lemma ex_bearer_claims:
  assumes "role \<noteq> []"
  shows "bearer_claims ex_server (ex_as u role) (ex_world d) = Inr \<lparr>cl_UserID = u, cl_Role = role\<rparr>"
proof -
  let ?token = "utoa 86400 @ ''.'' @ utoa (length (utoa (unat u))) @ ''.'' @ utoa (length role) @ ''.'' @ utoa (unat u) @ role @
     replicate 32 CHR ''k''"
  have "jwt_Parse ref_jwt (keyfunc (sv_signer ex_server)) 0 ?token =
      Inr (True, Some [(''sub'', JStr (utoa (unat u))), (''role'', JStr role), (''exp'', JInt 86400)])"
    by (simp add: ref_jwt_def ref_Parse_def read_nat_utoa keyfunc_def sv_signer_def NewSigner_def ex_server_def)
  then show ?thesis using assms
    by (simp add: bearer_claims_def ex_as_def ex_bearer_def Verify_eq ex_env_def verified_claims_def claim_text_def ex_server_def ex_web_def
        ref_deps_def atou_utoa)
qed

definition ex_open_order :: "sqlnum order_rec" where
  "ex_open_order = \<lparr>o_ID = 7, o_UserID = 5, o_Symbol = ''BTC-USDT'', o_Side = SideBuy, o_Price = QNum 1, o_Quantity = QNum 1,
     o_FilledQuantity = QNum 0, o_Status = StatusOpen, o_CreatedAt = 0, o_UpdatedAt = 0\<rparr>"

lemma ex_order_route: "(''GET'', [Lit ''orders'', Param ''id''], sv_auth s (orderHandler_GetOrder (sv_web s))) \<in> set (routes s)"
  by (simp add: routes_def user_routes_def order_Routes_def mount_def use_def)

lemma orders_private_witness:
  "\<exists>rs w'. serve (sv_auth ex_server (orderHandler_GetOrder (sv_web ex_server)))
       ((ex_as 5 ''USER'')\<lparr>rq_param := \<lambda>_. utoa 7\<rparr>) (ex_world (empty_db\<lparr>db_orders := [ex_open_order]\<rparr>)) = (rs, w') \<and>
     rs_status rs = 200 \<and> o_UserID ex_open_order = 5"
proof -
  let ?w = "ex_world (empty_db\<lparr>db_orders := [ex_open_order]\<rparr>)" and ?r = "(ex_as 5 ''USER'')\<lparr>rq_param := \<lambda>_. utoa 7\<rparr>"
  let ?rs = "WriteJSON 200 (ToOrderResponse ex_web (scanOrder ref_deps ex_open_order))"
  have c: "bearer_claims ex_server ?r ?w = Inr \<lparr>cl_UserID = 5, cl_Role = ''USER''\<rparr>"
    using ex_bearer_claims [of "''USER''" 5] bearer_claims_cong [of ?r "ex_as 5 ''USER''"] by simp
  have web: "sv_web ex_server = ex_web" by (simp add: ex_server_def)
  have run: "serve (sv_auth ex_server (orderHandler_GetOrder (sv_web ex_server))) ?r ?w = (?rs, tick (tick ?w))"
    unfolding serve_auth_Inr [OF c] web
    by (simp add: serve_def orderHandler_GetOrder_def bindE_def uuid_param_def orHTTP_def ex_web_def ref_deps_def
        atou_utoa returnE_def svc_def mapE_def GetOrder_def wrapE_def orderStore_GetByID_def pool_query_row_def pool_query_def faulty_def
        first_row_def orders_by_id_def ex_open_order_def liftE_def ensureOwner_def IsAdmin_def RoleFromContext_def WithUser_def
        UserIDFromContext_def scanOrder_def)
  have "\<not> shows_nothing ?rs" by (simp add: shows_nothing_def)
  then have "o_UserID ex_open_order = 5"
    using orders_private [OF ex_order_route run] c by (auto simp: orders_by_id_def split: if_splits)
  then show ?thesis using run by auto
qed

end
