(* ===== verification/Format.thy ===== *)
theory Format
  imports Strconv
begin

text \<open>
  \<open>strconv.FormatFloat(x, 'f', -1, 64)\<close>: the shortest decimal text that reads back as the float64.
  The text is found digit by digit, from the coarsest power of ten down: the first multiple next to the
  value that is read back as the value. From \<open>10^309\<close> to \<open>10^-1074\<close> the search always ends, since
  every float64 is a multiple of \<open>10^-1074\<close>.
\<close>

definition rounds_to :: "int \<Rightarrow> int \<Rightarrow> int \<Rightarrow> bool" where
  "rounds_to k n e \<longleftrightarrow> f64_of_decimal n e = FFin k"

text \<open>The value of \<open>k\<close> units in multiples of \<open>10^e\<close>: the next one below, and the nearest, ties to even.\<close>

definition dec_floor :: "int \<Rightarrow> int \<Rightarrow> int" where
  "dec_floor k e =
     (if 0 \<le> e then k div (10 ^ nat e * f64_one_units) else k * 10 ^ nat (- e) div f64_one_units)"

definition dec_nearest :: "int \<Rightarrow> int \<Rightarrow> int" where
  "dec_nearest k e =
     (if 0 \<le> e then div_half_even k (10 ^ nat e * f64_one_units)
      else div_half_even (k * 10 ^ nat (- e)) f64_one_units)"

definition shortest_at :: "int \<Rightarrow> int \<Rightarrow> int option" where
  "shortest_at k e =
     (let n = dec_floor k e; lo = rounds_to k n e; hi = rounds_to k (n + 1) e in
      if lo \<and> hi then Some (dec_nearest k e) else if lo then Some n else if hi then Some (n + 1) else None)"

fun shortest_from :: "nat \<Rightarrow> int \<Rightarrow> int \<Rightarrow> int \<times> int" where
  "shortest_from 0 k e = (dec_floor k e, e)"
| "shortest_from (Suc f) k e =
     (case shortest_at k e of Some n \<Rightarrow> (n, e) | None \<Rightarrow> shortest_from f k (e - 1))"

definition digits_text :: "bool \<Rightarrow> int \<Rightarrow> int \<Rightarrow> string" where
  "digits_text neg n e =
     (if 0 \<le> e then decimal_text neg (utoa (nat (n * 10 ^ nat e))) []
      else decimal_text neg (utoa (nat (n div 10 ^ nat (- e)))) (pad_digits (nat (- e)) (nat (n mod 10 ^ nat (- e)))))"

definition FormatFloat :: "f64 \<Rightarrow> string" where
  "FormatFloat x =
     (case x of
        FNaN \<Rightarrow> ''NaN''
      | FInf s \<Rightarrow> if s then ''+Inf'' else ''-Inf''
      | FFin k \<Rightarrow> if k = 0 then ''0''
                  else (let (n, e) = shortest_from 1383 \<bar>k\<bar> 309 in digits_text (k < 0) n e))"

subsection \<open>Reading decimal text\<close>

text \<open>Decimal text of a power of two is read exactly.\<close>

lemma div_half_even_scale:
  assumes "0 < d"
  shows "div_half_even (m * d) (d * s) = div_half_even m s"
proof -
  have 1: "m * d div (d * s) = m div s" unfolding mult.commute [of m d] using assms by (intro div_mult_mult1) simp
  have 2: "m * d mod (d * s) = d * (m mod s)" unfolding mult.commute [of m d] by (rule mod_mult_mult1)
  have 3: "2 * (d * r) < d * s \<longleftrightarrow> 2 * r < s" "d * s < 2 * (d * r) \<longleftrightarrow> s < 2 * r" for r
    unfolding mult.left_commute [of 2 d] using assms by (simp_all only: mult_less_cancel_left_pos)
  show ?thesis unfolding div_half_even_def Let_def 1 2 3 ..
qed

lemma round53_scale: "0 < d \<Longrightarrow> round53 (m * d) d = round53 m 1"
  using div_half_even_scale [of d m "2 ^ sig_shift (nat m)"] by (simp add: round53_def)

lemma sig_shift_of_pow: "sig_shift (2 ^ (53 + k)) = Suc k"
proof (induction k)
  case 0
  show ?case by (subst sig_shift.simps) (simp add: sig_shift.simps [of 4503599627370496])
next
  case (Suc k)
  have "\<not> (2 :: nat) ^ (53 + Suc k) < 9007199254740992"
    using power_increasing [of 53 "53 + Suc k" "2 :: nat"] by simp
  moreover have "(2 :: nat) ^ (53 + Suc k) div 2 = 2 ^ (53 + k)" unfolding add_Suc_right power_Suc by (rule nonzero_mult_div_cancel_left) simp
  ultimately show ?case using Suc by (subst sig_shift.simps) simp
qed

lemma round53_pow: "round53 (2 ^ (53 + k)) 1 = 2 ^ (53 + k)"
proof -
  have s: "sig_shift (nat (2 ^ (53 + k))) = Suc k" using sig_shift_of_pow by (simp add: nat_power_eq)
  have e: "(2 :: int) ^ (53 + k) = 2 ^ 52 * 2 ^ Suc k" by (simp add: power_add)
  have "div_half_even (2 ^ (53 + k)) (2 ^ Suc k) = 2 ^ 52" unfolding e by (rule div_half_even_mult) simp
  then show ?thesis using s e by (simp add: round53_def)
qed

lemma mk_f64_pow:
  assumes "j \<le> 2000"
  shows "mk_f64 (2 ^ (53 + j) * 10000000000) 10000000000 = FFin (2 ^ (53 + j))"
proof -
  have r: "round53 (2 ^ (53 + j) * 10000000000) 10000000000 = 2 ^ (53 + j)"
    using round53_scale [of 10000000000 "2 ^ (53 + j)"] round53_pow [of j] by (simp only:)
  have lt: "(2 :: int) ^ (53 + j) < f64_overflow"
    unfolding f64_overflow_def by (rule power_strict_increasing) (use assms in simp_all)
  have pos: "0 < (2 :: int) ^ (53 + j) * 10000000000" by simp
  show ?thesis
    unfolding mk_f64_def Let_def abs_of_pos [OF pos] r sgn_pos [OF pos] using lt by simp
qed

lemma f64_pow_decimal: "k \<le> 100 \<Longrightarrow> f64_of_decimal (2 ^ k * 10000000000) (- 10) = FFin (2 ^ (1074 + k))"
proof -
  assume k: "k \<le> 100"
  have e: "1074 + k = 53 + (1021 + k)" by simp
  have d: "f64_of_decimal n (- 10) = mk_f64 (n * f64_one_units) 10000000000" for n by (simp add: f64_of_decimal_def)
  have m: "2 ^ k * 10000000000 * f64_one_units = (2 :: int) ^ (1074 + k) * 10000000000"
    by (simp only: power_add mult.commute mult.left_commute)
  have "1021 + k \<le> 2000" using k by simp
  then show ?thesis unfolding d m e by (rule mk_f64_pow)
qed

lemma digits_plain:
  assumes "list_all is_digit s"
  shows "map lower_char s = s" and "CHR ''e'' \<notin> set s" and "s = [] \<or> (hd s \<noteq> CHR ''-'' \<and> hd s \<noteq> CHR ''+'' \<and> hd s \<noteq> CHR ''i'' \<and> hd s \<noteq> CHR ''n'')"
proof -
  have p: "lower_char c = c \<and> c \<noteq> CHR ''e'' \<and> c \<noteq> CHR ''-'' \<and> c \<noteq> CHR ''+'' \<and> c \<noteq> CHR ''i'' \<and> c \<noteq> CHR ''n''" if "is_digit c" for c
    using that by (auto simp: is_digit_def lower_char_def)
  show "map lower_char s = s" using assms p by (simp add: list_all_iff map_idI)
  show "CHR ''e'' \<notin> set s" using assms p by (auto simp: list_all_iff)
  show "s = [] \<or> (hd s \<noteq> CHR ''-'' \<and> hd s \<noteq> CHR ''+'' \<and> hd s \<noteq> CHR ''i'' \<and> hd s \<noteq> CHR ''n'')"
    using assms p by (cases s) auto
qed

text \<open>Decimal text is read as the nearest float64, an error only if that is an infinity.\<close>

lemma ParseFloat_decimal:
  assumes "list_all is_digit ip" and "ip \<noteq> []" and "list_all is_digit fp"
  shows "ParseFloat (decimal_text neg ip fp) =
    (let n = int (atou (ip @ fp)); x = f64_of_decimal (if neg then - n else n) (- int (length fp)) in (x, \<not> finite_f64 x))"
proof -
  let ?t = "ip @ (if fp = [] then [] else ''.'' @ fp)"
  let ?s = "decimal_text neg ip fp"
  have s: "?s = (if neg then CHR ''-'' # ?t else ?t)" by (simp add: decimal_text_def)
  have low: "map lower_char ?t = ?t"
    using digits_plain(1) [OF assms(1)] digits_plain(1) [OF assms(3)] by (simp add: lower_char_def)
  then have lows: "map lower_char ?s = ?s" unfolding s by (simp add: lower_char_def)
  have e: "split_exp ?t = (?t, None)"
  proof -
    have "\<forall>c \<in> set ?t. c \<noteq> CHR ''e''" using digits_plain(2) [OF assms(1)] digits_plain(2) [OF assms(3)] by auto
    then have "takeWhile (\<lambda>c. c \<noteq> CHR ''e'') ?t = ?t" "dropWhile (\<lambda>c. c \<noteq> CHR ''e'') ?t = []"
      unfolding takeWhile_eq_all_conv dropWhile_eq_Nil_conv by blast+
    then show ?thesis by (simp add: split_exp_def Let_def)
  qed
  have p: "split_point ?t = (ip, fp)" by (rule split_point_decimal [OF assms(1,3)])
  obtain c cs where ip: "ip = c # cs" using assms(2) by (cases ip) auto
  then have c: "c \<noteq> CHR ''-''" "c \<noteq> CHR ''+''" "c \<noteq> CHR ''i''" "c \<noteq> CHR ''n''" using digits_plain(3) [OF assms(1)] by auto
  have h: "?t \<noteq> []" "hd ?t = c" "?t \<noteq> ''inf''" "?t \<noteq> ''infinity''" "?t \<noteq> ''nan''" using ip c by auto
  have d: "list_all is_digit (ip @ fp)" "ip @ fp \<noteq> []" using assms by simp_all
  obtain t where t: "t = ?t" by blast
  show ?thesis
    unfolding ParseFloat_def lows Let_def unfolding s t [symmetric]
    using h c e p d assms(2) unfolding t [symmetric] by (cases neg) (simp_all add: parse_exp_def)
qed

lemma ParseFloat_digits:
  assumes "list_all is_digit ip" and "ip \<noteq> []" and "list_all is_digit fp" and "fp \<noteq> []"
  shows "ParseFloat (ip @ CHR ''.'' # fp) =
    (let x = f64_of_decimal (int (atou (ip @ fp))) (- int (length fp)) in (x, \<not> finite_f64 x))"
  using ParseFloat_decimal [OF assms(1-3), of False] assms(4) by (simp add: decimal_text_def Let_def)

lemma pad_digits_not_Nil: "pad_digits 10 n \<noteq> []"
  by (metis length_pad_digits list.size(3) zero_neq_numeral)

subsection \<open>The text reads back as the float64\<close>

lemma mk_f64_minus: "mk_f64 n d = FFin k \<Longrightarrow> mk_f64 (- n) d = FFin (- k)"
  by (auto simp: mk_f64_def Let_def split: if_splits)

lemma f64_of_decimal_minus:
  assumes "f64_of_decimal n e = FFin k"
  shows "f64_of_decimal (- n) e = FFin (- k)"
proof (cases "0 \<le> e")
  case True
  then show ?thesis using assms mk_f64_minus by (simp only: f64_of_decimal_def if_True mult_minus_left)
next
  case False
  then show ?thesis using assms mk_f64_minus by (simp only: f64_of_decimal_def if_False mult_minus_left)
qed

text \<open>The unit stays folded in the proofs: \<open>U\<close> is any positive number.\<close>

lemma one_units_pos: "0 < f64_one_units"
  by (rule zero_less_power) simp

lemma dec_floor_nonneg: "0 \<le> k \<Longrightarrow> 0 \<le> dec_floor k e"
proof -
  assume k: "0 \<le> k"
  obtain U where U: "U = f64_one_units" by blast
  then have "0 < U" using one_units_pos by (simp only:)
  then show ?thesis unfolding dec_floor_def U [symmetric] using k by (simp add: pos_imp_zdiv_nonneg_iff)
qed

lemma dec_nearest_cases: "dec_nearest k e = dec_floor k e \<or> dec_nearest k e = dec_floor k e + 1"
  by (simp only: dec_nearest_def dec_floor_def div_half_even_def Let_def) (auto simp only: split: if_split)

lemma shortest_at_Some:
  assumes "shortest_at k e = Some n"
  shows "rounds_to k n e" and "n = dec_floor k e \<or> n = dec_floor k e + 1"
  using assms dec_nearest_cases [of k e] by (auto simp: shortest_at_def Let_def split: if_splits)

lemma shortest_at_None: "shortest_at k e = None \<longleftrightarrow> \<not> rounds_to k (dec_floor k e) e \<and> \<not> rounds_to k (dec_floor k e + 1) e"
  by (auto simp: shortest_at_def Let_def)

text \<open>At \<open>10^-1074\<close> every float64 is met exactly.\<close>

lemma rounds_to_last:
  assumes "0 \<le> k" and "is_f64 (FFin k)"
  shows "rounds_to k (dec_floor k (- 1074)) (- 1074)"
proof -
  obtain u where u: "u = (1074 :: nat)" by blast
  have "k * 10 ^ u div 2 ^ u = k * 5 ^ u"
  proof -
    have "(10 :: int) ^ u = 5 ^ u * 2 ^ u" using power_mult_distrib [of "5 :: int" 2 u] by simp
    then have e: "k * 10 ^ u = k * 5 ^ u * 2 ^ u" by simp
    show ?thesis unfolding e by (rule nonzero_mult_div_cancel_right) simp
  qed
  moreover have "k * 5 ^ u * 2 ^ u = k * 10 ^ u" using power_mult_distrib [of "5 :: int" 2 u] by simp
  moreover have "mk_f64 (k * 10 ^ u) (10 ^ u) = FFin k"
  proof -
    have "round53 (k * 10 ^ u) (10 ^ u) = k" using assms round53_scale [of "10 ^ u" k] by simp
    then show ?thesis using assms by (cases "k = 0") (simp_all add: mk_f64_def Let_def abs_mult sgn_mult)
  qed
  moreover have "dec_floor k (- int u) = k * 10 ^ u div 2 ^ u" "f64_of_decimal n (- int u) = mk_f64 (n * 2 ^ u) (10 ^ u)" for n
    using u by (simp_all only: dec_floor_def f64_of_decimal_def) (simp_all del: power_numeral)
  ultimately have "rounds_to k (dec_floor k (- int u)) (- int u)" by (simp only: rounds_to_def)
  then show ?thesis using u by simp
qed

lemma shortest_from_rounds:
  assumes "0 \<le> k" and "is_f64 (FFin k)" and "shortest_from f k (int f - 1074) = (n, e)"
  shows "rounds_to k n e" and "0 \<le> n"
proof -
  have "rounds_to k n e \<and> 0 \<le> n"
    using assms
  proof (induction f)
    case 0
    then show ?case using rounds_to_last dec_floor_nonneg by auto
  next
    case (Suc f)
    show ?case
    proof (cases "shortest_at k (int (Suc f) - 1074)")
      case None
      then show ?thesis using Suc by simp
    next
      case (Some m)
      then show ?thesis
        using Suc.prems shortest_at_Some [OF Some] dec_floor_nonneg [OF Suc.prems(1), of "int (Suc f) - 1074"] by auto
    qed
  qed
  then show "rounds_to k n e" "0 \<le> n" by simp_all
qed

lemma ParseFloat_digits_text:
  assumes "0 \<le> n"
  shows "ParseFloat (digits_text neg n e) =
    (let x = f64_of_decimal (if neg then - n else n) e in (x, \<not> finite_f64 x))"
proof (cases "0 \<le> e")
  case True
  then have "f64_of_decimal (if neg then - (n * 10 ^ nat e) else n * 10 ^ nat e) 0 = f64_of_decimal (if neg then - n else n) e"
    by (simp add: f64_of_decimal_def del: power_numeral)
  moreover have "list_all is_digit (utoa m)" for m using utoa_digits by (simp add: list_all_iff)
  ultimately show ?thesis using ParseFloat_decimal [of "utoa (nat (n * 10 ^ nat e))" "[]" neg] True assms
    by (simp add: digits_text_def Let_def)
next
  case False
  let ?j = "nat (- e)"
  let ?a = "nat (n div 10 ^ ?j)" and ?b = "nat (n mod 10 ^ ?j)"
  have "int (?a * 10 ^ ?j + ?b) = n"
    using assms div_mult_mod_eq [of n "10 ^ ?j"] by (simp add: pos_imp_zdiv_nonneg_iff)
  moreover have "?b < 10 ^ ?j" by (simp add: nat_less_iff)
  ultimately have v: "int (atou (utoa ?a @ pad_digits ?j ?b)) = n" by (simp add: atou_append atou_pad_digits)
  have d: "list_all is_digit (utoa ?a)" "list_all is_digit (pad_digits ?j ?b)"
    using utoa_digits pad_digits_digits by (auto simp: list_all_iff)
  have "- int (length (pad_digits ?j ?b)) = e" using False by simp
  then show ?thesis using ParseFloat_decimal [OF d(1) _ d(2), of neg] v False by (simp add: digits_text_def Let_def)
qed

lemma ParseFloat_zero: "ParseFloat ''0'' = (FFin 0, False)"
proof -
  have "decimal_text False (utoa 0) [] = ''0''" by (simp add: decimal_text_def utoa_0)
  then show ?thesis
    using ParseFloat_decimal [of "utoa 0" "[]" False] utoa_digits by (simp add: list_all_iff Let_def f64_of_decimal_def)
qed

text \<open>
  What \<open>FormatFloat\<close> prints, \<open>ParseFloat\<close> reads back: every float64, of either sign, infinite or
  not a number, comes back as itself, without an error.
\<close>
theorem FormatFloat_roundtrip:
  assumes "is_f64 x"
  shows "ParseFloat (FormatFloat x) = (x, False)"
proof (cases x)
  case (FFin k)
  show ?thesis
  proof (cases "k = 0")
    case True
    show ?thesis using True FFin by (simp add: FormatFloat_def ParseFloat_zero)
  next
    case False
    obtain n e where s: "shortest_from 1383 \<bar>k\<bar> 309 = (n, e)" by force
    have "is_f64 (FFin \<bar>k\<bar>)" using assms FFin by simp
    then have r: "f64_of_decimal n e = FFin \<bar>k\<bar>" "0 \<le> n"
      using shortest_from_rounds [of "\<bar>k\<bar>" 1383 n e] s by (simp_all add: rounds_to_def)
    then have "f64_of_decimal (if k < 0 then - n else n) e = FFin k" using f64_of_decimal_minus by auto
    then show ?thesis using ParseFloat_digits_text [OF r(2), of "k < 0" e] s False FFin
      by (simp add: FormatFloat_def Let_def)
  qed
next
  case (FInf s)
  then show ?thesis by (cases s; simp add: FormatFloat_def) code_simp+
next
  case FNaN
  then show ?thesis by (simp add: FormatFloat_def) code_simp
qed

subsection \<open>Amounts of at most fifteen digits pass through float64 unchanged\<close>

text \<open>The rounding error is at most one part in \<open>2^53\<close>.\<close>

lemma div_half_even_error:
  assumes "0 < d"
  shows "2 * \<bar>div_half_even n d * d - n\<bar> \<le> d"
proof -
  define q r where "q = n div d" and "r = n mod d"
  have n: "n = q * d + r" and r: "0 \<le> r" "r < d" using assms by (simp_all add: q_def r_def)
  have "div_half_even n d = (if 2 * r < d then q else if d < 2 * r then q + 1 else if even q then q else q + 1)"
    by (simp add: div_half_even_def q_def r_def)
  then show ?thesis using n r by (auto simp: algebra_simps split: if_splits)
qed

lemma sig_shift_lower: "9007199254740992 \<le> n \<Longrightarrow> 4503599627370496 * 2 ^ sig_shift n \<le> n"
proof (induction n rule: sig_shift.induct)
  case (1 n)
  show ?case
  proof (cases "9007199254740992 \<le> n div 2")
    case True
    then have "4503599627370496 * 2 ^ sig_shift (n div 2) \<le> n div 2" using 1 by simp
    then have "2 * (4503599627370496 * 2 ^ sig_shift (n div 2)) \<le> n" by linarith
    then show ?thesis using "1.prems" by (simp add: sig_shift.simps [of n])
  next
    case False
    then have "sig_shift (n div 2) = 0" by (simp add: sig_shift_small)
    then show ?thesis using "1.prems" by (simp add: sig_shift.simps [of n])
  qed
qed

lemma round53_error:
  assumes "0 < D" and "9007199254740992 * D \<le> N"
  shows "9007199254740992 * \<bar>round53 N D * D - N\<bar> \<le> N"
proof -
  let ?s = "(2 :: int) ^ sig_shift (nat (N div D))"
  have q: "9007199254740992 \<le> N div D" using assms by (simp add: zdiv_mono1 [of "9007199254740992 * D" N D, simplified])
  then have "4503599627370496 * 2 ^ sig_shift (nat (N div D)) \<le> nat (N div D)" by (intro sig_shift_lower) simp
  then have "int (4503599627370496 * 2 ^ sig_shift (nat (N div D))) \<le> int (nat (N div D))" by (simp only: of_nat_le_iff)
  then have "4503599627370496 * ?s \<le> N div D" using q by simp
  then have "4503599627370496 * ?s * D \<le> N div D * D" using assms(1) by (simp only: mult_right_mono less_imp_le)
  also have "\<dots> \<le> N" using div_mult_mod_eq [of N D] pos_mod_sign [OF assms(1), of N] by linarith
  finally have "4503599627370496 * (D * ?s) \<le> N" by (simp only: mult.assoc mult.commute [of D])
  moreover have "2 * \<bar>div_half_even N (D * ?s) * (D * ?s) - N\<bar> \<le> D * ?s" using assms(1) by (intro div_half_even_error) simp
  moreover have "round53 N D * D = div_half_even N (D * ?s) * (D * ?s)"
    by (simp only: round53_def Let_def mult.assoc mult.commute [of D])
  moreover have "9007199254740992 * z \<le> N" if "4503599627370496 * y \<le> N" "2 * z \<le> y" for y z :: int
    using that by linarith
  ultimately show ?thesis by (simp only:)
qed

lemma mk_f64_scale:
  assumes "0 < c" and "0 < d"
  shows "mk_f64 (n * c) (d * c) = mk_f64 n d"
proof -
  have "round53 (\<bar>n\<bar> * c) (d * c) = round53 \<bar>n\<bar> d"
  proof -
    have "\<bar>n\<bar> * c div (d * c) = \<bar>n\<bar> div d" using assms by simp
    moreover have "div_half_even (\<bar>n\<bar> * c) (d * c * x) = div_half_even \<bar>n\<bar> (d * x)" for x
      using div_half_even_scale [OF assms(1), of "\<bar>n\<bar>" "d * x"] by (simp only: mult.assoc mult.left_commute)
    ultimately show ?thesis by (simp add: round53_def)
  qed
  then show ?thesis using assms by (simp add: mk_f64_def Let_def abs_mult sgn_mult zero_less_mult_iff)
qed

text \<open>A decimal at a power of ten from \<open>10^-10\<close> on, in units of \<open>10^-10\<close>.\<close>

lemma f64_of_decimal_units:
  assumes "- 10 \<le> e"
  shows "f64_of_decimal n e = mk_f64 (n * 10 ^ nat (e + 10) * f64_one_units) 10000000000"
proof -
  obtain U where U: "U = f64_one_units" by blast
  show ?thesis
  proof (cases "0 \<le> e")
    case True
    then have "nat (e + 10) = nat e + 10" by simp
    then show ?thesis
      using True mk_f64_scale [of 10000000000 1 "n * 10 ^ nat e * U"]
      unfolding f64_of_decimal_def U [symmetric] by (simp add: power_add mult.assoc mult.commute [of U])
  next
    case False
    have "10 = nat (- e) + nat (e + 10)" using assms False by simp
    then have "(10 :: int) ^ 10 = 10 ^ nat (- e) * 10 ^ nat (e + 10)" by (metis power_add)
    moreover have "mk_f64 (n * U * 10 ^ nat (e + 10)) (10 ^ nat (- e) * 10 ^ nat (e + 10)) = mk_f64 (n * U) (10 ^ nat (- e))"
      by (rule mk_f64_scale) simp_all
    ultimately show ?thesis using False unfolding f64_of_decimal_def U [symmetric] by (simp add: mult_ac)
  qed
qed

text \<open>The float64 nearest to \<open>m\<close> units of \<open>10^-10\<close> is off by at most one part in \<open>2^53\<close>.\<close>

lemma units_error:
  assumes "0 \<le> m" and "mk_f64 (m * f64_one_units) 10000000000 = FFin k" and "0 < m"
  shows "9007199254740992 * \<bar>k * 10000000000 - m * f64_one_units\<bar> \<le> m * f64_one_units" and "0 < k"
proof -
  have "(9007199254740992 * 10000000000 :: int) \<le> 2 ^ 100" by simp
  also have "\<dots> \<le> f64_one_units" by (rule power_increasing) simp_all
  finally have U: "9007199254740992 * 10000000000 \<le> f64_one_units" .
  obtain U where U: "U = f64_one_units" "9007199254740992 * 10000000000 \<le> U" using U by blast
  have "1 * U \<le> m * U" using U(2) assms(3) by (intro mult_right_mono) simp_all
  then have le: "9007199254740992 * 10000000000 \<le> m * U" using U(2) by linarith
  have "0 < m * U" using le by linarith
  then have k: "k = round53 (m * U) 10000000000" using assms(2) unfolding U(1) [symmetric]
    by (auto simp: mk_f64_def Let_def split: if_splits)
  have err: "9007199254740992 * \<bar>k * 10000000000 - m * U\<bar> \<le> m * U"
    unfolding k using le by (intro round53_error) simp_all
  have "0 < k"
  proof (rule ccontr)
    assume "\<not> 0 < k"
    then have "m * U \<le> \<bar>k * 10000000000 - m * U\<bar>" by simp
    moreover have "N \<le> 0" if "9007199254740992 * z \<le> N" "N \<le> z" for z N :: int using that by linarith
    ultimately have "m * U \<le> 0" using err by (simp only:)
    then show False using \<open>0 < m * U\<close> by (simp only: not_less [symmetric] simp_thms)
  qed
  then show "9007199254740992 * \<bar>k * 10000000000 - m * f64_one_units\<bar> \<le> m * f64_one_units" "0 < k"
    using err unfolding U(1) by (blast)+
qed

lemma close_multiples:
  fixes U :: int
  assumes "0 < U" and "9007199254740992 * \<bar>x - m * U\<bar> \<le> m * U" and "9007199254740992 * \<bar>x - m' * U\<bar> \<le> m' * U"
  shows "9007199254740992 * \<bar>m - m'\<bar> \<le> m + m'"
proof -
  have "9007199254740992 * (\<bar>m - m'\<bar> * U) \<le> (m + m') * U"
  proof -
    have "\<bar>m - m'\<bar> * U = \<bar>m * U - m' * U\<bar>" using assms(1) by (simp add: abs_mult left_diff_distrib [symmetric])
    moreover have "9007199254740992 * \<bar>p - q\<bar> \<le> p + q"
      if "9007199254740992 * \<bar>x - p\<bar> \<le> p" "9007199254740992 * \<bar>x - q\<bar> \<le> q" for p q
    proof -
      have "\<bar>p - q\<bar> \<le> \<bar>x - p\<bar> + \<bar>x - q\<bar>" by simp
      moreover have "9007199254740992 * u \<le> p + q" if "u \<le> v + w" "9007199254740992 * v \<le> p" "9007199254740992 * w \<le> q"
        for u v w :: int
        using that by linarith
      ultimately show ?thesis using that by (simp only:)
    qed
    ultimately show ?thesis using assms(2,3) by (simp only: distrib_right)
  qed
  then show ?thesis using assms(1) by (simp only: mult.assoc [symmetric] mult_le_cancel_right_pos)
qed

text \<open>Two decimals on the same grid with at most fifteen digits are never the same float64.\<close>

lemma grid_unique:
  assumes "0 < a" and "a < 10 ^ 15" and "0 \<le> b"
    and "mk_f64 (a * 10 ^ j * f64_one_units) 10000000000 = FFin k"
    and "mk_f64 (b * 10 ^ j * f64_one_units) 10000000000 = FFin k"
  shows "b = a"
proof -
  have T: "0 < (10 :: int) ^ j" by simp
  have k: "0 < k" using units_error(2) [of "a * 10 ^ j" k] assms(1,4) by simp
  have "b \<noteq> 0"
  proof
    assume "b = 0"
    then have "FFin k = FFin 0" using assms(5) by (simp only: mult_zero_left) (simp add: mk_f64_def round53_def div_half_even_def)
    then show False using k by simp
  qed
  then have b: "0 < b * 10 ^ j" using assms(3) by simp
  have a: "0 < a * 10 ^ j" using assms(1) by simp
  have "9007199254740992 * \<bar>a * 10 ^ j - b * 10 ^ j\<bar> \<le> a * 10 ^ j + b * 10 ^ j"
    using close_multiples [OF one_units_pos units_error(1) [OF less_imp_le [OF a] assms(4) a] units_error(1) [OF less_imp_le [OF b] assms(5) b]] .
  moreover have "\<bar>a * 10 ^ j - b * 10 ^ j\<bar> = \<bar>a - b\<bar> * 10 ^ j" by (simp add: abs_mult left_diff_distrib [symmetric])
  ultimately have "9007199254740992 * \<bar>a - b\<bar> * 10 ^ j \<le> (a + b) * 10 ^ j" by (simp only: mult.assoc distrib_right)
  then have "9007199254740992 * \<bar>a - b\<bar> \<le> a + b" using T by (simp only: mult_le_cancel_right_pos)
  then have le: "9007199254740992 * \<bar>a - b\<bar> \<le> a + b" .
  show ?thesis
  proof (cases "a \<le> b")
    case True
    then have "9007199254740992 * (b - a) \<le> (b - a) + 2 * a" using le by simp
    then show ?thesis using True assms(2) by simp
  next
    case False
    then have "9007199254740992 * (a - b) \<le> a + b" using le by simp
    then show ?thesis using False assms(2,3) by simp
  qed
qed

lemma abs_scale: "\<bar>x - y\<bar> * \<bar>c\<bar> = \<bar>x * c - y * c\<bar>" for x y c :: int
  by (simp add: abs_mult left_diff_distrib [symmetric])

text \<open>Such a decimal is next to its float64 on its grid, so the search meets it.\<close>

lemma floor_near:
  fixes y :: int
  assumes "0 < d" and "\<bar>y - a * d\<bar> < d"
  shows "y div d = a \<or> y div d = a - 1"
proof (cases "a * d \<le> y")
  case True
  then have "y div d = a" using assms by (intro int_div_pos_eq [of y d a "y - a * d"]) (simp_all add: mult.commute)
  then show ?thesis by simp
next
  case False
  then have "y div d = a - 1" using assms by (intro int_div_pos_eq [of y d "a - 1" "y - (a - 1) * d"]) (simp_all add: algebra_simps)
  then show ?thesis by simp
qed

lemma shortest_at_grid:
  assumes "0 < a" and "a < 10 ^ 15" and "mk_f64 (a * 10 ^ j * f64_one_units) 10000000000 = FFin k"
  shows "shortest_at k (int j - 10) \<noteq> None"
proof -
  obtain U where U: "U = f64_one_units" "0 < U" using one_units_pos by blast
  have T: "0 < (10 :: int) ^ j" by simp
  have m: "0 < a * 10 ^ j" using assms(1) by simp
  have err: "9007199254740992 * \<bar>k * 10000000000 - a * 10 ^ j * U\<bar> \<le> a * (10 ^ j * U)"
    using units_error(1) [OF less_imp_le [OF m] assms(3) m] unfolding U(1) by (simp only: mult.assoc)
  have "a * (10 ^ j * U) < 9007199254740992 * (10 ^ j * U)"
    using assms(2) U(2) by (intro mult_strict_right_mono) simp_all
  then have near: "\<bar>k * 10000000000 - a * 10 ^ j * U\<bar> < 10 ^ j * U"
  proof -
    have "z < c" if "9007199254740992 * z \<le> b" "b < 9007199254740992 * c" for z b c :: int using that by linarith
    then show ?thesis using err \<open>a * (10 ^ j * U) < _\<close> by blast
  qed
  have "dec_floor k (int j - 10) = a \<or> dec_floor k (int j - 10) = a - 1"
  proof (cases "10 \<le> j")
    case True
    then obtain i where j: "j = i + 10" by (metis le_Suc_ex add.commute)
    have "\<bar>k - a * (10 ^ i * U)\<bar> * 10000000000 < (10 ^ i * U) * 10000000000"
    proof -
      have "\<bar>k - a * (10 ^ i * U)\<bar> * 10000000000 = \<bar>k * 10000000000 - a * 10 ^ j * U\<bar>"
        unfolding j abs_scale [of k _ 10000000000, simplified] by (simp add: power_add mult_ac)
      then show ?thesis using near unfolding j by (simp add: power_add mult_ac)
    qed
    then have "\<bar>k - a * (10 ^ i * U)\<bar> < 10 ^ i * U" by simp
    then have "k div (10 ^ i * U) = a \<or> k div (10 ^ i * U) = a - 1" using U(2) by (intro floor_near) simp_all
    then show ?thesis unfolding dec_floor_def U(1) [symmetric] using j by simp
  next
    case False
    obtain i where "i = 10 - j" by blast
    then have i: "10 = j + i" "nat (- (int j - 10)) = i" "\<not> 0 \<le> int j - 10" using False by simp_all
    then have p: "(10000000000 :: int) = 10 ^ j * 10 ^ i" unfolding power_add [symmetric] i(1) [symmetric] by simp
    have "\<bar>k * 10 ^ i - a * U\<bar> * 10 ^ j < U * 10 ^ j"
    proof -
      have "\<bar>k * 10 ^ i - a * U\<bar> * 10 ^ j = \<bar>k * 10000000000 - a * 10 ^ j * U\<bar>"
        unfolding p abs_scale [of _ _ "10 ^ j", simplified] by (simp add: mult_ac)
      then show ?thesis using near by (simp add: mult_ac)
    qed
    then have "\<bar>k * 10 ^ i - a * U\<bar> < U" by simp
    then have "k * 10 ^ i div U = a \<or> k * 10 ^ i div U = a - 1" using U(2) by (intro floor_near) simp_all
    then show ?thesis unfolding dec_floor_def U(1) [symmetric] using i by simp
  qed
  moreover have "rounds_to k a (int j - 10)"
    using assms(3) f64_of_decimal_units [of "int j - 10" a] by (simp only: rounds_to_def) simp
  ultimately show ?thesis by (auto simp: shortest_at_None)
qed

lemma round53_form_gen:
  assumes "0 \<le> N" and "0 < D"
  shows "\<exists>j g. 0 \<le> j \<and> j \<le> 9007199254740992 \<and> round53 N D = j * 2 ^ g"
proof -
  let ?g = "sig_shift (nat (N div D))"
  let ?j = "div_half_even N (D * 2 ^ ?g)"
  have D: "0 < D * 2 ^ ?g" using assms(2) by simp
  have "int (nat (N div D) div 2 ^ ?g) < 9007199254740992" using sig_shift_div [of "nat (N div D)"] by linarith
  moreover have "0 \<le> N div D" using assms by (simp add: pos_imp_zdiv_nonneg_iff)
  ultimately have "N div (D * 2 ^ ?g) < 9007199254740992" using assms by (simp add: zdiv_int zdiv_zmult2_eq)
  then have "?j \<le> 9007199254740992" using div_half_even_bounds(2) [OF D, of N] by linarith
  moreover have "0 \<le> N div (D * 2 ^ ?g)" using assms(1) D by (simp only: pos_imp_zdiv_nonneg_iff)
  then have "0 \<le> ?j" using div_half_even_bounds(1) [OF D, of N] by linarith
  ultimately show ?thesis by (auto simp: round53_def Let_def)
qed

lemma round53_nonneg_gen: "0 \<le> N \<Longrightarrow> 0 < D \<Longrightarrow> 0 \<le> round53 N D"
  using round53_form_gen [of N D] by auto

lemma is_f64_mk_gen: "0 < D \<Longrightarrow> is_f64 (mk_f64 N D)"
proof -
  assume D: "0 < D"
  have "round53 (round53 \<bar>N\<bar> D) 1 = round53 \<bar>N\<bar> D" using round53_form_gen [of "\<bar>N\<bar>" D] D round53_grid by auto
  moreover have "0 \<le> round53 \<bar>N\<bar> D" using D by (simp add: round53_nonneg_gen)
  ultimately show ?thesis by (auto simp: mk_f64_def Let_def abs_mult sgn_if)
qed

lemma FormatFloat_roundtrip_witness:
  "ParseFloat (FormatFloat (f64_of_decimal 1 (- 1))) = (f64_of_decimal 1 (- 1), False)"
  by (rule FormatFloat_roundtrip) (simp add: f64_of_decimal_def is_f64_mk_gen del: power_numeral)

lemma units_finite:
  assumes "0 < m" and "m < 10 ^ 115"
  shows "\<exists>k. mk_f64 (m * f64_one_units) 10000000000 = FFin k"
proof -
  obtain U where U: "U = f64_one_units" "0 < U" using one_units_pos by blast
  let ?r = "round53 (m * U) 10000000000"
  have big: "9007199254740992 * 10000000000 \<le> m * U"
  proof -
    have "(9007199254740992 * 10000000000 :: int) \<le> 2 ^ 100" by simp
    also have "\<dots> \<le> f64_one_units" by (rule power_increasing) simp_all
    finally have "9007199254740992 * 10000000000 \<le> 1 * U" unfolding U(1) by simp
    moreover have "1 * U \<le> m * U" using U(2) assms(1) by (intro mult_right_mono) simp_all
    ultimately show ?thesis by linarith
  qed
  then have err: "9007199254740992 * \<bar>?r * 10000000000 - m * U\<bar> \<le> m * U" by (intro round53_error) simp_all
  have r: "?r * 10000000000 \<le> 2 * (m * U)"
  proof -
    have step: "x \<le> 2 * N" if "9007199254740992 * z \<le> N" "x - N \<le> z" "0 \<le> z" for x N z :: int using that by linarith
    show ?thesis by (rule step [OF err]) (rule abs_ge_self, rule abs_ge_zero)
  qed
  have "2 * (m * U) < 2 ^ 1024 * U"
  proof -
    have "2 * m < 2 * 10 ^ 115" using assms(2) by simp
    also have "\<dots> \<le> (2 :: int) ^ 400" by simp
    also have "\<dots> \<le> 2 ^ 1024" by (rule power_increasing) simp_all
    finally have "2 * m * U < 2 ^ 1024 * U" using U(2) by (simp only: mult_strict_right_mono)
    then show ?thesis by (simp only: mult.assoc)
  qed
  moreover have "2 ^ 1024 * U = f64_overflow" unfolding U(1) f64_overflow_def power_add [symmetric] by simp
  moreover have "0 \<le> ?r" by (rule round53_nonneg_gen) (use assms(1) U(2) in simp_all)
  ultimately have "?r < f64_overflow" using r by linarith
  moreover have "0 < m * U" using assms(1) U(2) by simp
  ultimately show ?thesis unfolding U(1) [symmetric] by (simp add: mk_f64_def)
qed

lemma shortest_from_ge:
  assumes "shortest_at k e0 \<noteq> None" and "e0 \<le> e" and "e - int f \<le> e0" and "shortest_from f k e = (n, e')"
  shows "e0 \<le> e'"
  using assms
proof (induction f arbitrary: e)
  case (Suc f)
  show ?case
  proof (cases "shortest_at k e")
    case None
    then have "e \<noteq> e0" using Suc.prems(1) by auto
    then show ?thesis using Suc.IH [of "e - 1"] Suc.prems None by simp
  qed (use Suc.prems in auto)
qed simp

text \<open>The shortest text of the float64 of such a decimal is that decimal, perhaps with fewer zeros.\<close>

lemma shortest_from_grid:
  assumes "0 < a" and "a < 10 ^ 15" and "j \<le> 100"
    and "mk_f64 (a * 10 ^ j * f64_one_units) 10000000000 = FFin k" and "shortest_from 1383 k 309 = (n, e)"
  shows "0 \<le> n" and "- 10 \<le> e" and "n * 10 ^ nat (e + 10) = a * 10 ^ j"
proof -
  have m: "0 < a * 10 ^ j" using assms(1) by simp
  have k: "0 < k" using units_error(2) [OF less_imp_le [OF m] assms(4) m] .
  have f: "is_f64 (FFin k)" using is_f64_mk_gen [of 10000000000] unfolding assms(4) [symmetric] by simp
  have r: "rounds_to k n e" and n: "0 \<le> n"
    using shortest_from_rounds [of k 1383 n e] k f assms(5) by simp_all
  have ge: "int j - 10 \<le> e"
    using shortest_from_ge [OF shortest_at_grid [OF assms(1,2,4)] _ _ assms(5)] assms(3) by simp
  then obtain i where i: "nat (e + 10) = i + j" using that [of "nat (e + 10) - j"] by simp
  have "mk_f64 (n * 10 ^ nat (e + 10) * f64_one_units) 10000000000 = FFin k"
    using f64_of_decimal_units [of e n] r ge by (simp only: rounds_to_def)
  then have "mk_f64 ((n * 10 ^ i) * 10 ^ j * f64_one_units) 10000000000 = FFin k"
    unfolding i by (simp only: power_add mult.assoc)
  then have "n * 10 ^ i = a" using n by (intro grid_unique [OF assms(1,2) _ assms(4)]) simp_all
  then show "0 \<le> n" "- 10 \<le> e" "n * 10 ^ nat (e + 10) = a * 10 ^ j" using n ge i by (simp_all add: power_add)
qed

lemma ParseFloat_units:
  assumes "0 \<le> m"
  shows "ParseFloat (float_string (of_units m) 10) = (let x = f64_of_decimal m (- 10) in (x, \<not> finite_f64 x))"
proof -
  have "\<not> of_units m < 0" using assms by (simp add: of_units_def divide_less_0_iff)
  then have "float_string (of_units m) 10 = decimal_text False (utoa (nat m div 10 ^ 10)) (pad_digits 10 (nat m mod 10 ^ 10))"
    using assms by (simp add: float_string_text)
  moreover have "int (atou (utoa (nat m div 10 ^ 10) @ pad_digits 10 (nat m mod 10 ^ 10))) = m"
    using assms by (simp add: atou_append atou_pad_digits)
  moreover have "list_all is_digit (utoa (nat m div 10 ^ 10))" "list_all is_digit (pad_digits 10 (nat m mod 10 ^ 10))"
    using utoa_digits pad_digits_digits by (auto simp: list_all_iff)
  ultimately show ?thesis using ParseFloat_decimal [of "utoa (nat m div 10 ^ 10)" "pad_digits 10 (nat m mod 10 ^ 10)" False] by simp
qed

lemma scan_digits_text:
  assumes "scans_decimals scan" and "0 \<le> n" and "- 1000 \<le> e"
  obtains v where "scan (digits_text False n e) = Some v" and "plain_num v"
    and "toRat v = (if 0 \<le> e then of_int (n * 10 ^ nat e) else of_int n / 10 ^ nat (- e))"
proof (cases "0 \<le> e")
  case True
  have "list_all is_digit (utoa (nat (n * 10 ^ nat e)))" using utoa_digits by (simp add: list_all_iff)
  then obtain v where "scan (decimal_text False (utoa (nat (n * 10 ^ nat e))) []) = Some v" "plain_num v"
      "toRat v = decimal_val False (utoa (nat (n * 10 ^ nat e))) []"
    using scans_decimalsE [OF assms(1), of "utoa (nat (n * 10 ^ nat e))" "[]" False] by auto
  moreover have "decimal_val False (utoa (nat (n * 10 ^ nat e))) [] = of_int (n * 10 ^ nat e)"
    using assms(2) by (simp add: decimal_val_def)
  ultimately show thesis using True that by (simp add: digits_text_def)
next
  case False
  let ?j = "nat (- e)"
  let ?a = "utoa (nat (n div 10 ^ ?j))" and ?b = "pad_digits ?j (nat (n mod 10 ^ ?j))"
  have d: "list_all is_digit ?a" "list_all is_digit ?b" using utoa_digits pad_digits_digits by (auto simp: list_all_iff)
  have "length ?b \<le> 1000" using assms(3) by simp
  then obtain v where v: "scan (decimal_text False ?a ?b) = Some v" "plain_num v" "toRat v = decimal_val False ?a ?b"
    using scans_decimalsE [OF assms(1), of ?a ?b False] d by auto
  have "int (atou (?a @ ?b)) = n"
    using assms(2) div_mult_mod_eq [of n "10 ^ ?j"] by (simp add: atou_append atou_pad_digits nat_less_iff pos_imp_zdiv_nonneg_iff)
  then have "(of_nat (atou (?a @ ?b)) :: rat) = of_int n" by (metis of_int_of_nat_eq)
  then have "decimal_val False ?a ?b = of_int n / 10 ^ ?j" by (simp add: decimal_val_def)
  then show thesis using v False that by (simp add: digits_text_def)
qed

text \<open>
  An amount of at most fifteen significant digits, at most ten of them after the point, goes through
  \<open>ParseFloat\<close>, the engine's float64, \<open>FormatFloat\<close> and \<open>numeric.Parse\<close> unchanged.
\<close>

lemma amount_survives:
  assumes "scans_decimals scan" and "0 < a" and "a < 10 ^ 15" and "j \<le> 100"
  obtains v where "num_Parse scan (FormatFloat (fst (ParseFloat (float_string (of_units (a * 10 ^ j)) 10)))) = Inr v"
    and "plain_num v" and "toRat v = of_units (a * 10 ^ j)"
proof -
  let ?m = "a * 10 ^ j"
  have m: "0 < ?m" using assms(2) by simp
  have "a * 10 ^ j < 10 ^ 15 * 10 ^ j" using assms(3) by simp
  also have "\<dots> \<le> 10 ^ 15 * 10 ^ 100" using assms(4) by (intro mult_left_mono power_increasing) simp_all
  finally have "?m < 10 ^ 115" by (simp only: power_add [symmetric]) simp
  then obtain k where k: "mk_f64 (?m * f64_one_units) 10000000000 = FFin k" using units_finite m by blast
  have "f64_of_decimal ?m (- 10) = FFin k" using f64_of_decimal_units [of "- 10" ?m] k by simp
  then have p: "fst (ParseFloat (float_string (of_units ?m) 10)) = FFin k" using ParseFloat_units [of ?m] m by (simp add: Let_def)
  obtain n e where ne: "shortest_from 1383 k 309 = (n, e)" by force
  have k0: "0 < k" using units_error(2) [OF less_imp_le [OF m] k m] .
  note g = shortest_from_grid [OF assms(2-4) k ne]
  obtain v where v: "scan (digits_text False n e) = Some v" "plain_num v"
      "toRat v = (if 0 \<le> e then of_int (n * 10 ^ nat e) else of_int n / 10 ^ nat (- e))"
    by (rule scan_digits_text [OF assms(1) g(1), of e]) (use g(2) in simp)
  have "toRat v = of_units (n * 10 ^ nat (e + 10))"
  proof (cases "0 \<le> e")
    case True
    then have "nat (e + 10) = nat e + 10" by simp
    then show ?thesis using v(3) True by (simp add: of_units_def power_add)
  next
    case False
    have "10 = nat (- e) + nat (e + 10)" using g(2) False by simp
    then have "(10 :: rat) ^ 10 = 10 ^ nat (- e) * 10 ^ nat (e + 10)" by (metis power_add)
    then show ?thesis using v(3) False by (simp only: of_units_def of_int_mult of_int_power) (simp add: field_simps)
  qed
  then show thesis using that [of v] v(1,2) p ne k0 g(3) by (simp add: FormatFloat_def num_Parse_def plain_num_Valid)
qed

end
