(* ===== verification/Rehydration.thy ===== *)
theory Rehydration
  imports Access Format
begin

text \<open>
  What the engine holds after a restart: \<open>rehydrateEngine\<close> rests the remainder of every open or partial
  order of the listed markets, oldest first, on its side of its book.
\<close>

definition bids_of :: "engine \<Rightarrow> string \<Rightarrow> queue" where
  "bids_of e sy = (case eng_shards e sy of None \<Rightarrow> [] | Some sh \<Rightarrow> flatten (ob_Bids (sh_book sh)))"

definition asks_of :: "engine \<Rightarrow> string \<Rightarrow> queue" where
  "asks_of e sy = (case eng_shards e sy of None \<Rightarrow> [] | Some sh \<Rightarrow> flatten (ob_Asks (sh_book sh)))"

definition loaded :: "deps \<Rightarrow> sqlnum order_rec list \<Rightarrow> eorder list" where
  "loaded dp rows = List.map_filter (rehydrate_row dp) rows"

lemma loaded_simps [simp]:
  "loaded dp [] = []"
  "loaded dp (r # rs) = (case rehydrate_row dp r of None \<Rightarrow> loaded dp rs | Some x \<Rightarrow> x # loaded dp rs)"
  by (simp_all add: loaded_def List.map_filter_def split: option.splits)

text \<open>Loading one order, seen on the queues.\<close>

lemma LoadOrder_queues:
  assumes e: "engine_ok e" "\<not> eng_started e" and x: "resting_ok x" "finite_f64 (eo_Price x)"
  shows "engine_ok (LoadOrder e x)" and "\<not> eng_started (LoadOrder e x)"
    and "eng_shards (LoadOrder e x) sy = None \<longleftrightarrow> eng_shards e sy = None"
    and "bids_of (LoadOrder e x) sy =
      (if eo_Symbol x = sy \<and> eo_Side x = SideBuy \<and> eng_shards e sy \<noteq> None then queue_insert better_bid x (bids_of e sy) else bids_of e sy)"
    and "asks_of (LoadOrder e x) sy =
      (if eo_Symbol x = sy \<and> eo_Side x \<noteq> SideBuy \<and> eng_shards e sy \<noteq> None then queue_insert better_ask x (asks_of e sy) else asks_of e sy)"
proof -
  note spec = LoadOrder_spec [OF e(1) x]
  show "engine_ok (LoadOrder e x)" using spec by blast
  show "\<not> eng_started (LoadOrder e x)" using e(2) by (simp add: LoadOrder_def Let_def split: option.splits)
  have sh: "(eng_shards (LoadOrder e x) sy = None \<longleftrightarrow> eng_shards e sy = None) \<and>
      bids_of (LoadOrder e x) sy = (if eo_Symbol x = sy \<and> eo_Side x = SideBuy \<and> eng_shards e sy \<noteq> None
        then queue_insert better_bid x (bids_of e sy) else bids_of e sy) \<and>
      asks_of (LoadOrder e x) sy = (if eo_Symbol x = sy \<and> eo_Side x \<noteq> SideBuy \<and> eng_shards e sy \<noteq> None
        then queue_insert better_ask x (asks_of e sy) else asks_of e sy)"
  proof (cases "eng_shards e (eo_Symbol x)")
    case None
    then have "LoadOrder e x = e" by (simp add: LoadOrder_def)
    then show ?thesis using None by auto
  next
    case (Some s)
    then obtain bk where "eng_shards (LoadOrder e x) = (eng_shards e)(eo_Symbol x \<mapsto> s\<lparr>sh_book := bk\<rparr>)"
      "own_queue x bk = queue_insert (better_price (eo_Side x)) x (own_queue x (sh_book s))"
      "opposite_queue x bk = opposite_queue x (sh_book s)"
      using spec e(2) by auto
    then show ?thesis using Some by (auto simp: bids_of_def asks_of_def side_defs)
  qed
  then show "eng_shards (LoadOrder e x) sy = None \<longleftrightarrow> eng_shards e sy = None"
    "bids_of (LoadOrder e x) sy =
      (if eo_Symbol x = sy \<and> eo_Side x = SideBuy \<and> eng_shards e sy \<noteq> None then queue_insert better_bid x (bids_of e sy) else bids_of e sy)"
    "asks_of (LoadOrder e x) sy =
      (if eo_Symbol x = sy \<and> eo_Side x \<noteq> SideBuy \<and> eng_shards e sy \<noteq> None then queue_insert better_ask x (asks_of e sy) else asks_of e sy)"
    by blast+
qed

lemma rehydrate_rows_queues:
  assumes "engine_ok e" and "\<not> eng_started e" and "\<forall>x \<in> set (loaded dp rows). resting_ok x \<and> finite_f64 (eo_Price x)"
    and "eng_shards e sy \<noteq> None"
  shows "engine_ok (rehydrate_rows dp rows e) \<and>
    bids_of (rehydrate_rows dp rows e) sy =
      fold (queue_insert better_bid) (filter (\<lambda>x. eo_Symbol x = sy \<and> eo_Side x = SideBuy) (loaded dp rows)) (bids_of e sy) \<and>
    asks_of (rehydrate_rows dp rows e) sy =
      fold (queue_insert better_ask) (filter (\<lambda>x. eo_Symbol x = sy \<and> eo_Side x \<noteq> SideBuy) (loaded dp rows)) (asks_of e sy)"
  using assms
proof (induction rows arbitrary: e)
  case (Cons r rs)
  show ?case
  proof (cases "rehydrate_row dp r")
    case None
    then show ?thesis using Cons by simp
  next
    case (Some x)
    then have x: "resting_ok x" "finite_f64 (eo_Price x)" using Cons.prems(3) by simp_all
    note l = LoadOrder_queues [OF Cons.prems(1,2) x]
    have "\<forall>y \<in> set (loaded dp rs). resting_ok y \<and> finite_f64 (eo_Price y)" using Cons.prems(3) Some by simp
    then have "engine_ok (rehydrate_rows dp rs (LoadOrder e x)) \<and>
      bids_of (rehydrate_rows dp rs (LoadOrder e x)) sy =
        fold (queue_insert better_bid) (filter (\<lambda>x. eo_Symbol x = sy \<and> eo_Side x = SideBuy) (loaded dp rs)) (bids_of (LoadOrder e x) sy) \<and>
      asks_of (rehydrate_rows dp rs (LoadOrder e x)) sy =
        fold (queue_insert better_ask) (filter (\<lambda>x. eo_Symbol x = sy \<and> eo_Side x \<noteq> SideBuy) (loaded dp rs)) (asks_of (LoadOrder e x) sy)"
      using l(1-3) Cons.prems(4) by (intro Cons.IH) auto
    then show ?thesis using Some l(4,5) Cons.prems(4) by simp
  qed
qed simp

text \<open>
  C21. A restart restores the queues: on an engine not yet started, the bids of a market are the
  remainders of its open and partial BUY orders of the database, inserted oldest first by price-time
  priority, and the asks likewise; nothing is matched, no order of another market or status is on the
  book, the engine stays well-formed and the database is only read. The rows loaded are taken to have a
  finite price and a finite, positive remaining quantity; a NaN row is excluded, and an overfilled one.
\<close>
theorem rehydration_restores_queues:
  assumes "rehydrateEngine dp symbols e w = (Inr e', w')" and "engine_ok e" and "\<not> eng_started e" and "eng_shards e sy \<noteq> None"
    and "\<forall>x \<in> set (loaded dp (rehydrate_query symbols (w_db w))). resting_ok x \<and> finite_f64 (eo_Price x)"
  shows "engine_ok e' \<and> w_db w' = w_db w \<and>
    bids_of e' sy = fold (queue_insert better_bid)
      (filter (\<lambda>x. eo_Symbol x = sy \<and> eo_Side x = SideBuy) (loaded dp (rehydrate_query symbols (w_db w)))) (bids_of e sy) \<and>
    asks_of e' sy = fold (queue_insert better_ask)
      (filter (\<lambda>x. eo_Symbol x = sy \<and> eo_Side x \<noteq> SideBuy) (loaded dp (rehydrate_query symbols (w_db w)))) (asks_of e sy) \<and>
    (\<forall>r \<in> set (rehydrate_query symbols (w_db w)). r \<in> set (db_orders (w_db w)) \<and> IsCancellable (o_Status r) \<and> o_Symbol r \<in> set symbols)"
proof -
  have e': "e' = rehydrate_rows dp (rehydrate_query symbols (w_db w)) e" "w_db w' = w_db w"
    using assms(1) by (auto simp: rehydrateEngine_def ok_simps)
  have q: "r \<in> set (db_orders (w_db w)) \<and> IsCancellable (o_Status r) \<and> o_Symbol r \<in> set symbols"
    if "r \<in> set (rehydrate_query symbols (w_db w))" for r
    using that by (auto simp: rehydrate_query_def IsCancellable_def)
  show ?thesis using rehydrate_rows_queues [OF assms(2,3,5,4)] e' q by blast
qed

definition ex_bid :: "sqlnum order_rec" where
  "ex_bid = ex_open_order\<lparr>o_Price := QNum 20000000000, o_Quantity := QNum 10000000000\<rparr>"

text \<open>A non-negative amount of a column, as text, is read as the nearest float64, without an error.\<close>

lemma ParseFloat_num_text:
  "0 \<le> k \<Longrightarrow> ParseFloat (num_text (QNum k)) = (let x = f64_of_decimal k (- 10) in (x, \<not> finite_f64 x))"
  using ParseFloat_units by (simp add: num_text_def)

definition f64_pow :: "nat \<Rightarrow> f64" where "f64_pow k = FFin (2 ^ (1074 + k))"

lemma ex_parse: "ParseFloat (num_text (QNum 20000000000)) = (f64_pow 1, False)" "ParseFloat (num_text (QNum 10000000000)) = (f64_pow 0, False)"
  using f64_pow_decimal [of 1] f64_pow_decimal [of 0] by (simp_all add: ParseFloat_num_text f64_pow_def)

lemma ex_bid_row:
  "rehydrate_row ref_deps ex_bid =
     Some \<lparr>eo_ID = utoa 7, eo_UserID = utoa 5, eo_Symbol = ''BTC-USDT'', eo_Side = SideBuy, eo_Price = f64_pow 1,
       eo_Quantity = f64_pow 0, eo_Remaining = f64_pow 0, eo_Timestamp = 0\<rparr>"
proof -
  have "\<not> fle (f64_pow 0) f64_zero" by (simp add: f64_pow_def fle_def)
  then show ?thesis by (simp add: rehydrate_row_def ex_bid_def ex_open_order_def ex_parse ref_deps_def)
qed

lemma rehydration_restores_queues_witness:
  "\<exists>e' w' x. rehydrateEngine ref_deps [''BTC-USDT''] (Engine_New [''BTC-USDT''] 2) (ex_world (empty_db\<lparr>db_orders := [ex_bid]\<rparr>)) = (Inr e', w') \<and>
     bids_of e' ''BTC-USDT'' = [(f64_pow 1, x)] \<and> eo_Remaining x = f64_pow 0"
proof -
  let ?w = "ex_world (empty_db\<lparr>db_orders := [ex_bid]\<rparr>)" and ?e = "Engine_New [''BTC-USDT''] 2"
  obtain e' w' where run: "rehydrateEngine ref_deps [''BTC-USDT''] ?e ?w = (Inr e', w')"
    by (simp add: rehydrateEngine_def bindE_def pool_query_def faulty_def returnE_def)
  have q: "rehydrate_query [''BTC-USDT''] (w_db ?w) = [ex_bid]"
    by (simp add: rehydrate_query_def ex_bid_def ex_open_order_def)
  obtain x where x: "rehydrate_row ref_deps ex_bid = Some x" "eo_Price x = f64_pow 1" "eo_Remaining x = f64_pow 0" "eo_Symbol x = ''BTC-USDT''"
    "eo_Side x = SideBuy" using ex_bid_row by simp
  have isf: "is_f64 (f64_pow 0)" unfolding f64_pow_def is_f64.simps
    using round53_pow [of 1021] power_strict_increasing [of 1074 2098 "2 :: int"] by (simp only: f64_overflow_def abs_of_nonneg) simp
  have ok: "resting_ok x" "finite_f64 (eo_Price x)"
    using isf x by (simp_all add: resting_ok_def f64_pow_def del: is_f64.simps)
  have e0: "engine_ok ?e" by (rule Engine_New_ok(1))
  have e: "\<not> eng_started ?e" "eng_shards ?e ''BTC-USDT'' \<noteq> None" "bids_of ?e ''BTC-USDT'' = []"
    by (simp_all add: Engine_New_def bids_of_def NewOrderBook_def flatten_def)
  have "bids_of e' ''BTC-USDT'' = [(f64_pow 1, x)]"
    using rehydration_restores_queues [OF run e0 e(1,2)] q x ok e(3) by (simp add: queue_insert_def Let_def)
  then show ?thesis using run x(3) by blast
qed

end
