(* ===== verification/Settlement.thy ===== *)
theory Settlement
  imports Trade Format
begin

text \<open>
  internal/engine/settlement.go and settlement_sandbox.go: the subscribers of the engine's TradeMatched
  events, which turn a match into an executed trade. A handler has no result: whatever fails is logged and
  the event is gone. A processor is a value of \<open>settlement_processor\<close>; \<open>OnTradeMatched\<close> is its method.
\<close>

text \<open>An order of the partner exchange has no owner.\<close>

definition isPartner :: "string \<Rightarrow> bool" where
  "isPartner userID \<longleftrightarrow> userID = []"

subsection \<open>settle\<close>

text \<open>\<open>numeric.Parse(strconv.FormatFloat(x, 'f', -1, 64))\<close>\<close>

definition parse_f64 :: "deps \<Rightarrow> f64 \<Rightarrow> gerr + pgnumeric" where
  "parse_f64 dp x = num_Parse (dp_scan dp) (FormatFloat x)"

definition match_key :: "trade_matched \<Rightarrow> string" where
  "match_key evt = ''match-'' @ tm_BuyOrderID evt @ ''-'' @ tm_SellOrderID evt @ ''-'' @ utoa (tm_Seq evt)"

definition settle_cmd :: "trade_matched \<Rightarrow> uuid \<Rightarrow> uuid \<Rightarrow> pgnumeric \<Rightarrow> pgnumeric \<Rightarrow> trade_cmd" where
  "settle_cmd evt buyID sellID price qty =
     \<lparr>tc_Symbol = tm_Symbol evt, tc_BuyOrderID = buyID, tc_SellOrderID = sellID, tc_Price = price, tc_Quantity = qty,
      tc_IdempotencyKey = match_key evt\<rparr>"

definition settle :: "deps \<Rightarrow> trade_matched \<Rightarrow> world \<Rightarrow> world" where
  "settle dp evt w =
     (case dp_uuid_parse dp (tm_BuyOrderID evt) of
        None \<Rightarrow> w
      | Some buyID \<Rightarrow>
     (case dp_uuid_parse dp (tm_SellOrderID evt) of
        None \<Rightarrow> w
      | Some sellID \<Rightarrow>
     (case parse_f64 dp (tm_Price evt) of
        Inl _ \<Rightarrow> w
      | Inr price \<Rightarrow>
     (case parse_f64 dp (tm_Quantity evt) of
        Inl _ \<Rightarrow> w
      | Inr qty \<Rightarrow> snd (ExecuteTrade dp (settle_cmd evt buyID sellID price qty) w)))))"

subsection \<open>The market's order of a trade with the partner\<close>

definition market_order :: "deps \<Rightarrow> uuid \<Rightarrow> uuid \<Rightarrow> string \<Rightarrow> string \<Rightarrow> pgnumeric \<Rightarrow> pgnumeric \<Rightarrow> gotime \<Rightarrow> pgnumeric order_rec" where
  "market_order dp i marketUserID side symbol price qty now =
     \<lparr>o_ID = i, o_UserID = marketUserID, o_Symbol = symbol, o_Side = side, o_Price = price, o_Quantity = qty,
      o_FilledQuantity = num_Zero (dp_scan dp), o_Status = StatusOpen, o_CreatedAt = now, o_UpdatedAt = now\<rparr>"

definition persistMarketOrder :: "deps \<Rightarrow> uuid \<Rightarrow> string \<Rightarrow> string \<Rightarrow> f64 \<Rightarrow> f64 \<Rightarrow> (gerr, uuid) act" where
  "persistMarketOrder dp marketUserID side symbol price qty =
     bindE (wrapE ''new id: '' NewV7) (\<lambda>i.
     bindE (wrapE ''parse price: '' (liftE (parse_f64 dp price))) (\<lambda>priceN.
     bindE (wrapE ''parse qty: '' (liftE (parse_f64 dp qty))) (\<lambda>qtyN.
     bindE Now (\<lambda>now.
     in_tx ''begin: ''
       (bindE (wrapE ''create: '' (orderStore_Create (market_order dp i marketUserID side symbol priceN qtyN now))) (\<lambda>_.
        bindE (commit_tx ''commit: '') (\<lambda>_.
        returnE i)))))))"

subsection \<open>The processors\<close>

datatype settlement_processor = RealSettlement | SandboxSettlement uuid

definition real_OnTradeMatched :: "deps \<Rightarrow> event \<Rightarrow> world \<Rightarrow> world" where
  "real_OnTradeMatched dp e w =
     (case e of
        TradeMatchedEvent evt \<Rightarrow>
          if isPartner (tm_BuyUserID evt) \<or> isPartner (tm_SellUserID evt) then w else settle dp evt w
      | _ \<Rightarrow> w)"

definition sandbox_OnTradeMatched :: "deps \<Rightarrow> uuid \<Rightarrow> event \<Rightarrow> world \<Rightarrow> world" where
  "sandbox_OnTradeMatched dp marketUserID e w =
     (case e of
        TradeMatchedEvent evt \<Rightarrow>
          let buyIsPartner = isPartner (tm_BuyUserID evt); sellIsPartner = isPartner (tm_SellUserID evt) in
          if buyIsPartner \<and> sellIsPartner then w
          else if \<not> buyIsPartner \<and> \<not> sellIsPartner then settle dp evt w
          else if buyIsPartner then
            (case persistMarketOrder dp marketUserID SideBuy (tm_Symbol evt) (tm_Price evt) (tm_Quantity evt) w of
               (Inl _, w') \<Rightarrow> w'
             | (Inr marketID, w') \<Rightarrow>
                 settle dp (evt\<lparr>tm_BuyOrderID := dp_uuid_str dp marketID, tm_BuyUserID := dp_uuid_str dp marketUserID\<rparr>) w')
          else
            (case persistMarketOrder dp marketUserID SideSell (tm_Symbol evt) (tm_Price evt) (tm_Quantity evt) w of
               (Inl _, w') \<Rightarrow> w'
             | (Inr marketID, w') \<Rightarrow>
                 settle dp (evt\<lparr>tm_SellOrderID := dp_uuid_str dp marketID, tm_SellUserID := dp_uuid_str dp marketUserID\<rparr>) w')
      | _ \<Rightarrow> w)"

definition OnTradeMatched :: "deps \<Rightarrow> settlement_processor \<Rightarrow> event \<Rightarrow> world \<Rightarrow> world" where
  "OnTradeMatched dp p e w =
     (case p of RealSettlement \<Rightarrow> real_OnTradeMatched dp e w | SandboxSettlement u \<Rightarrow> sandbox_OnTradeMatched dp u e w)"

text \<open>\<open>newSettlementProcessor\<close> of cmd/server/main.go.\<close>

definition newSettlementProcessor :: "bool \<Rightarrow> settlement_processor" where
  "newSettlementProcessor sandbox = (if sandbox then SandboxSettlement MarketUserID else RealSettlement)"

subsection \<open>Basic facts\<close>

lemma settle_cmd_simps [simp]:
  "tc_Symbol (settle_cmd evt b s p q) = tm_Symbol evt" "tc_BuyOrderID (settle_cmd evt b s p q) = b"
  "tc_SellOrderID (settle_cmd evt b s p q) = s" "tc_Price (settle_cmd evt b s p q) = p"
  "tc_Quantity (settle_cmd evt b s p q) = q" "tc_IdempotencyKey (settle_cmd evt b s p q) = match_key evt"
  by (simp_all add: settle_cmd_def)

text \<open>What a settlement does, if anything: one trade under the key of the match.\<close>

lemma settle_cases:
  obtains "settle dp evt w = w"
  | buyID sellID price qty where
    "dp_uuid_parse dp (tm_BuyOrderID evt) = Some buyID" and "dp_uuid_parse dp (tm_SellOrderID evt) = Some sellID" and
    "parse_f64 dp (tm_Price evt) = Inr price" and "parse_f64 dp (tm_Quantity evt) = Inr qty" and
    "settle dp evt w = snd (ExecuteTrade dp (settle_cmd evt buyID sellID price qty) w)"
proof (cases "dp_uuid_parse dp (tm_BuyOrderID evt)")
  case buy: (Some b)
  show thesis
  proof (cases "dp_uuid_parse dp (tm_SellOrderID evt)")
    case sell: (Some s)
    show thesis
      by (cases "parse_f64 dp (tm_Price evt)"; cases "parse_f64 dp (tm_Quantity evt)")
        (use that buy sell in \<open>simp_all add: settle_def\<close>)
  qed (use that(1) buy in \<open>simp add: settle_def\<close>)
qed (use that(1) in \<open>simp add: settle_def\<close>)

lemma settle_run:
  assumes "dp_uuid_parse dp (tm_BuyOrderID evt) = Some buyID" and "dp_uuid_parse dp (tm_SellOrderID evt) = Some sellID"
    and "parse_f64 dp (tm_Price evt) = Inr price" and "parse_f64 dp (tm_Quantity evt) = Inr qty"
  shows "settle dp evt w = snd (ExecuteTrade dp (settle_cmd evt buyID sellID price qty) w)"
  using assms by (simp add: settle_def)

end
