(* ===== verification/Settlement_Properties.thy ===== *)
theory Settlement_Properties
  imports Settlement Trade_Theorems Rehydration
begin

text \<open>
  What the settlement of a match does: it settles the amounts the engine matched, a match at most once,
  and in the sandbox it books the partner's side against an order of the market user.
\<close>

text \<open>The float64 the order service and the rehydration give the engine for an amount.\<close>

definition engine_amount :: "int \<Rightarrow> f64" where
  "engine_amount m = fst (ParseFloat (float_string (of_units m) 10))"

lemma parse_engine_amount:
  assumes "deps_ok dp" and "0 < a" and "a < 10 ^ 15" and "j \<le> 100"
  obtains v where "parse_f64 dp (engine_amount (a * 10 ^ j)) = Inr v" and "plain_num v" and "toRat v = of_units (a * 10 ^ j)"
  by (rule amount_survives [OF deps_okD(1) [OF assms(1)] assms(2-4)]) (simp add: parse_f64_def engine_amount_def)

lemma isPartner_Nil [simp]: "isPartner []"
  by (simp add: isPartner_def)

text \<open>A settlement that changed anything executed its trade.\<close>

lemma settle_changed:
  assumes "w_db (settle dp evt w) \<noteq> w_db w"
  obtains buyID sellID price qty tr where
    "dp_uuid_parse dp (tm_BuyOrderID evt) = Some buyID" and "dp_uuid_parse dp (tm_SellOrderID evt) = Some sellID" and
    "parse_f64 dp (tm_Price evt) = Inr price" and "parse_f64 dp (tm_Quantity evt) = Inr qty" and
    "ExecuteTrade dp (settle_cmd evt buyID sellID price qty) w = (Inr tr, settle dp evt w)"
proof (cases rule: settle_cases [of dp evt w])
  case 1
  then show thesis using assms by simp
next
  case (2 buyID sellID price qty)
  let ?cmd = "settle_cmd evt buyID sellID price qty"
  show thesis
  proof (cases "ExecuteTrade dp ?cmd w")
    case (Pair r w')
    then show thesis
    proof (cases r)
      case (Inl e)
      then have "w_db w' = w_db w" using atomic_failed [OF atomic_ExecuteTrade] Pair by blast
      then show thesis using assms 2(5) Pair by simp
    next
      case (Inr tr)
      then show thesis using that 2 Pair by simp
    qed
  qed
qed

lemma settle_claimed:
  assumes "w_db (settle dp evt w) \<noteq> w_db w"
  shows "key_claimed (match_key evt) ScopeTrade (w_db (settle dp evt w))"
proof -
  obtain b s p q tr where "ExecuteTrade dp (settle_cmd evt b s p q) w = (Inr tr, settle dp evt w)"
    using assms by (rule settle_changed)
  then obtain buy sell where "trade_change dp (settle_cmd evt b s p q) buy sell tr (w_db w) (w_db (settle dp evt w))"
    by (rule ExecuteTrade_change)
  then show ?thesis unfolding trade_change_def key_claimed_def by auto
qed

lemma settle_again:
  assumes "key_claimed (match_key evt) ScopeTrade (w_db w)"
  shows "w_db (settle dp evt w) = w_db w"
proof (rule ccontr)
  assume "w_db (settle dp evt w) \<noteq> w_db w"
  then obtain b s p q tr where "ExecuteTrade dp (settle_cmd evt b s p q) w = (Inr tr, settle dp evt w)" by (rule settle_changed)
  then have "\<not> key_claimed (tc_IdempotencyKey (settle_cmd evt b s p q)) ScopeTrade (w_db w)" by (rule ExecuteTrade_change)
  then show False using assms by simp
qed

text \<open>A match of two users is settled the same way by both processors.\<close>

lemma users_settle:
  "\<not> isPartner (tm_BuyUserID evt) \<Longrightarrow> \<not> isPartner (tm_SellUserID evt) \<Longrightarrow>
   OnTradeMatched dp p (TradeMatchedEvent evt) w = settle dp evt w"
  by (cases p) (simp_all add: OnTradeMatched_def real_OnTradeMatched_def sandbox_OnTradeMatched_def)

text \<open>
  C9. A match is settled at most once: once a handler has settled a match of two users, every later
  event of the same two orders and the same sequence number changes nothing, in production and in the
  sandbox, as long as the idempotency keys are kept. A match with the partner (an ownerless side)
  changes nothing at all in production. In the sandbox such a match is left out: each of its events
  makes a new order of the market user, so a duplicate is settled again.
\<close>
theorem settlement_once:
  "(\<forall>p p' evt w (evt' :: trade_matched) w2.
      \<not> isPartner (tm_BuyUserID evt) \<longrightarrow> \<not> isPartner (tm_SellUserID evt) \<longrightarrow>
      \<not> isPartner (tm_BuyUserID evt') \<longrightarrow> \<not> isPartner (tm_SellUserID evt') \<longrightarrow>
      w_db (OnTradeMatched dp p (TradeMatchedEvent evt) w) \<noteq> w_db w \<longrightarrow>
      tm_BuyOrderID evt' = tm_BuyOrderID evt \<longrightarrow> tm_SellOrderID evt' = tm_SellOrderID evt \<longrightarrow> tm_Seq evt' = tm_Seq evt \<longrightarrow>
      set (db_idem (w_db (OnTradeMatched dp p (TradeMatchedEvent evt) w))) \<subseteq> set (db_idem (w_db w2)) \<longrightarrow>
      w_db (OnTradeMatched dp p' (TradeMatchedEvent evt') w2) = w_db w2) \<and>
   (\<forall>evt w. isPartner (tm_BuyUserID evt) \<or> isPartner (tm_SellUserID evt) \<longrightarrow>
      OnTradeMatched dp RealSettlement (TradeMatchedEvent evt) w = w)"
proof (intro conjI allI impI)
  fix p p' evt w and w2 :: world and evt' :: trade_matched
  assume users: "\<not> isPartner (tm_BuyUserID evt)" "\<not> isPartner (tm_SellUserID evt)"
      "\<not> isPartner (tm_BuyUserID evt')" "\<not> isPartner (tm_SellUserID evt')"
    and ch: "w_db (OnTradeMatched dp p (TradeMatchedEvent evt) w) \<noteq> w_db w"
    and same: "tm_BuyOrderID evt' = tm_BuyOrderID evt" "tm_SellOrderID evt' = tm_SellOrderID evt" "tm_Seq evt' = tm_Seq evt"
    and kept: "set (db_idem (w_db (OnTradeMatched dp p (TradeMatchedEvent evt) w))) \<subseteq> set (db_idem (w_db w2))"
  have on: "OnTradeMatched dp p (TradeMatchedEvent evt) w = settle dp evt w" using users(1,2) by (rule users_settle)
  have "match_key evt' = match_key evt" using same by (simp add: match_key_def)
  then have "key_claimed (match_key evt') ScopeTrade (w_db w2)"
    using settle_claimed [of dp evt w] key_claimed_mono [of _ "w_db w2"] ch kept unfolding on by metis
  then show "w_db (OnTradeMatched dp p' (TradeMatchedEvent evt') w2) = w_db w2"
    unfolding users_settle [OF users(3,4)] by (rule settle_again)
qed (simp add: OnTradeMatched_def real_OnTradeMatched_def)

text \<open>
  C8. A match of two live orders of users is settled exactly, by either processor: in a world where
  nothing fails, with the accounts of both users, a key not yet used and numbers that fit the columns, the
  handler commits one trade, with all the rows a trade commits, between the two orders of the
  event, and the price and quantity of its row are the very amounts of the match, for amounts
  of at most fifteen significant digits and ten decimals, although the engine computes with float64.
\<close>
theorem settlement_exact:
  assumes "deps_ok dp" and "\<not> isPartner (tm_BuyUserID evt)" and "\<not> isPartner (tm_SellUserID evt)"
    and "tm_BuyOrderID evt = dp_uuid_str dp (o_ID buy)" and "tm_SellOrderID evt = dp_uuid_str dp (o_ID sell)"
    and "tm_Price evt = engine_amount (a * 10 ^ j)" and "0 < a" and "a < 10 ^ 15" and "j \<le> 100"
    and "tm_Quantity evt = engine_amount (b * 10 ^ i)" and "0 < b" and "b < 10 ^ 15" and "i \<le> 100"
    and "smooth w" and "orders_distinct (w_db w)"
    and "buy \<in> set (db_orders (w_db w))" and "o_Side buy = SideBuy" and "\<not> IsTerminal (o_Status buy)"
    and "sell \<in> set (db_orders (w_db w))" and "o_Side sell = SideSell" and "\<not> IsTerminal (o_Status sell)"
    and "SplitSymbol (tm_Symbol evt) = Inr (base, quote)" and "length (tm_Symbol evt) \<le> 20"
    and "account_of (o_UserID buy) base (w_db w) = Some bb" and "account_of (o_UserID buy) quote (w_db w) = Some bq"
    and "account_of (o_UserID sell) base (w_db w) = Some sb" and "account_of (o_UserID sell) quote (w_db w) = Some sq"
    and "a * 10 ^ j < 10 ^ 30" and "b * 10 ^ i < 10 ^ 30"
    and "dec_units (of_units (a * 10 ^ j) * of_units (b * 10 ^ i)) < 10 ^ 30"
    and "fillable (o_ID buy) (Some (PRat (of_units (b * 10 ^ i)))) (db_orders (w_db w))"
    and "fillable (o_ID sell) (Some (PRat (of_units (b * 10 ^ i)))) (db_orders (w_db w))"
    and "\<not> key_claimed (match_key evt) ScopeTrade (w_db w)" and "length (match_key evt) \<le> 255"
  shows "\<exists>price qty tr w'. OnTradeMatched dp p (TradeMatchedEvent evt) w = w' \<and>
     trade_change dp (settle_cmd evt (o_ID buy) (o_ID sell) price qty) buy sell tr (w_db w) (w_db w') \<and>
     toRat price = of_units (a * 10 ^ j) \<and> toRat qty = of_units (b * 10 ^ i) \<and>
     db_trades (w_db w') = db_trades (w_db w) @ [trade_row tr (QNum (a * 10 ^ j)) (QNum (b * 10 ^ i))] \<and>
     made_trade (settle_cmd evt (o_ID buy) (o_ID sell) price qty) (o_UserID buy) (o_UserID sell) tr"
proof -
  obtain price where p: "parse_f64 dp (tm_Price evt) = Inr price" "plain_num price" "toRat price = of_units (a * 10 ^ j)"
    using parse_engine_amount [OF assms(1,7-9)] assms(6) by metis
  obtain qty where q: "parse_f64 dp (tm_Quantity evt) = Inr qty" "plain_num qty" "toRat qty = of_units (b * 10 ^ i)"
    using parse_engine_amount [OF assms(1,11-13)] assms(10) by metis
  let ?cmd = "settle_cmd evt (o_ID buy) (o_ID sell) price qty" and ?w' = "OnTradeMatched dp p (TradeMatchedEvent evt) w"
  have ids: "dp_uuid_parse dp (tm_BuyOrderID evt) = Some (o_ID buy)" "dp_uuid_parse dp (tm_SellOrderID evt) = Some (o_ID sell)"
    using deps_okD(4) [OF assms(1)] assms(4,5) by simp_all
  have pos: "0 \<le> a * 10 ^ j" "0 \<le> b * 10 ^ i" using assms(7,11) by simp_all
  have "0 < of_units (a * 10 ^ j) * of_units (b * 10 ^ i)"
    using of_units_less [of 0 "a * 10 ^ j"] of_units_less [of 0 "b * 10 ^ i"] assms(7,11) by (intro mult_pos_pos) simp_all
  then have "0 \<le> of_units (a * 10 ^ j) * of_units (b * 10 ^ i)" by (rule less_imp_le)
  then have qu: "\<bar>quote_units ?cmd\<bar> < 10 ^ 30"
    using dec_units_nonneg assms(30) by (simp add: quote_units_def p(3) q(3))
  have fit: "fits (tc_Price ?cmd)" "fits (tc_Quantity ?cmd)"
    using p q pos assms(28,29) by (simp_all add: fits_def)
  have n: "num_param (tc_Quantity ?cmd) = Some (PRat (of_units (b * 10 ^ i)))"
    using num_param_plain [OF q(2)] q(3) by simp
  have "\<exists>tr w'. ExecuteTrade dp ?cmd w = (Inr tr, w')"
    by (rule ExecuteTrade_runs [OF assms(1,14,15,16) _ assms(17,18,19) _ assms(20,21) _ _ assms(24-27) fit qu])
      (use assms(22,23,31-34) n in simp_all)
  then obtain tr where run: "ExecuteTrade dp ?cmd w = (Inr tr, ?w')"
    using users_settle [OF assms(2,3)] settle_run [OF ids p(1) q(1), of w] by auto
  obtain buy' sell' rs1 rs2 where c: "orders_by_id (o_ID buy) (w_db w) = buy' # rs1" "orders_by_id (o_ID sell) (w_db w) = sell' # rs2"
    "trade_change dp ?cmd buy' sell' tr (w_db w) (w_db ?w')" "made_trade ?cmd (o_UserID buy') (o_UserID sell') tr"
    using run by (rule ExecuteTrade_change) simp
  then have "buy' = buy" "sell' = sell"
    using orders_by_id_unique [OF assms(15,16)] orders_by_id_unique [OF assms(15,19)] by simp_all
  note ch = c(3,4) [unfolded this]
  have "db_trades (w_db ?w') = db_trades (w_db w) @ [trade_row tr (QNum (a * 10 ^ j)) (QNum (b * 10 ^ i))]"
    using ch(1) fits_row [OF fit(1)] fits_row [OF fit(2)] p(3) q(3) unfolding trade_change_def by auto
  then show ?thesis using ch p(3) q(3) by blast
qed

text \<open>An example: the order 7 of user 5 to buy 3 BTC at 100 meets the order 12 of user 6.\<close>

definition ex_order :: "string \<Rightarrow> sqlnum order_rec" where
  "ex_order status = \<lparr>o_ID = 7, o_UserID = 5, o_Symbol = ''BTC-USD'', o_Side = SideBuy, o_Price = QNum (100 * 10 ^ 10),
     o_Quantity = QNum (3 * 10 ^ 10), o_FilledQuantity = QNum 0, o_Status = status, o_CreatedAt = 0, o_UpdatedAt = 0\<rparr>"

definition ex_books :: "string \<Rightarrow> db" where
  "ex_books status = ex_market\<lparr>db_orders := [ex_order status, ex_sell]\<rparr>"

definition ex_match :: "string \<Rightarrow> trade_matched" where
  "ex_match seller =
     \<lparr>tm_Seq = 1, tm_Symbol = ''BTC-USD'', tm_BuyOrderID = dp_uuid_str ref_deps 7, tm_SellOrderID = dp_uuid_str ref_deps 12,
      tm_BuyUserID = dp_uuid_str ref_deps 5, tm_SellUserID = seller, tm_Price = engine_amount (1 * 10 ^ 12),
      tm_Quantity = engine_amount (3 * 10 ^ 10), tm_Timestamp = 0\<rparr>"

lemma ex_not_partner: "\<not> isPartner (dp_uuid_str ref_deps u)"
  by (simp add: isPartner_def ref_deps_def)

lemma ex_books_smooth: "smooth (ex_world (ex_books status))"
proof (rule ex_smooth, intro allI impI)
  fix i :: nat assume "i < 100"
  then have "(of_nat i + 1000 :: uuid) \<noteq> 3" "(of_nat i + 1000 :: uuid) \<noteq> 12" "(of_nat i + 1000 :: uuid) \<noteq> 7"
    using ex_ids [of 3 i] ex_ids [of 12 i] ex_ids [of 7 i] by simp_all
  then show "of_nat i + 1000 \<notin> used_ids (ex_books status)"
    by (simp add: used_ids_def ex_books_def ex_order_def ex_market_def ex_funded_def ex_entry_def empty_db_def ex_sell_def)
qed

lemma ex_settled:
  assumes "plain_num price" and "toRat price = of_units (1 * 10 ^ 12)" and "plain_num qty" and "toRat qty = of_units (3 * 10 ^ 10)"
  shows "\<exists>tr w'. ExecuteTrade ref_deps (settle_cmd (ex_match seller) 7 12 price qty) (ex_world (ex_books StatusOpen)) = (Inr tr, w')"
proof -
  let ?d = "ex_books StatusOpen"
  have v: "toRat price = 100" "toRat qty = 3" using assms by (simp_all add: of_units_def)
  have n: "num_param qty = Some (PRat 3)" using num_param_plain [OF assms(3)] v by simp
  have u: "dec_units (3 :: rat) = 3 * 10 ^ 10" "dec_units (100 :: rat) = 100 * 10 ^ 10" "dec_units (300 :: rat) = 300 * 10 ^ 10"
    using dec_units_int [of 3] dec_units_int [of 100] dec_units_int [of 300] by simp_all
  have fl: "fillable i (num_param qty) (db_orders ?d)" for i
    by (simp add: ex_books_def fillable_def ex_order_def ex_sell_def n Let_def u)
  have len: "length (match_key (ex_match seller)) \<le> 255"
    by (simp add: match_key_def ex_match_def ref_deps_def utoa.simps)
  show ?thesis
    by (rule ExecuteTrade_runs [OF deps_ok_ref_deps ex_books_smooth, where buy = "ex_order StatusOpen" and sell = ex_sell
        and base = "''BTC''" and quote = "''USD''" and bb = 2 and bq = 1 and sb = 5 and sq = 4])
      (use fl len assms v u in \<open>simp_all add: ex_symbol IsTerminal_def ex_sell_def ex_order_def ex_books_def account_of_def ex_market_def
        ex_account_def ex_funded_def empty_db_def ex_match_def orders_distinct_def fits_def quote_units_def
        key_claimed_def StatusOpen_def StatusFilled_def StatusCancelled_def\<close>)
qed

text \<open>The facts about the example that make it a match the handler settles.\<close>

lemma ex_books_facts:
  shows "smooth (ex_world (ex_books StatusOpen))" and "orders_distinct (w_db (ex_world (ex_books StatusOpen)))"
    and "ex_order StatusOpen \<in> set (db_orders (w_db (ex_world (ex_books StatusOpen))))"
    and "ex_sell \<in> set (db_orders (w_db (ex_world (ex_books StatusOpen))))"
    and "fillable x (Some (PRat (of_units (3 * 10 ^ 10)))) (db_orders (w_db (ex_world (ex_books StatusOpen))))"
    and "\<not> key_claimed (match_key evt) ScopeTrade (w_db (ex_world (ex_books StatusOpen)))"
    and "length (match_key (ex_match (dp_uuid_str ref_deps 6))) \<le> 255"
proof -
  have u: "dec_units (of_units (3 * 10 ^ 10)) = 3 * 10 ^ 10" by (rule dec_units_of_units)
  show "fillable x (Some (PRat (of_units (3 * 10 ^ 10)))) (db_orders (w_db (ex_world (ex_books StatusOpen))))"
    using u by (simp add: ex_books_def fillable_def ex_order_def ex_sell_def Let_def)
  show "length (match_key (ex_match (dp_uuid_str ref_deps 6))) \<le> 255"
    by (simp add: match_key_def ex_match_def ref_deps_def utoa.simps)
qed (rule ex_books_smooth, simp_all add: orders_distinct_def ex_books_def ex_order_def ex_sell_def ex_market_def ex_funded_def empty_db_def key_claimed_def)

lemma settlement_exact_witness:
  "\<exists>w' (tr :: pgnumeric trade_rec). OnTradeMatched ref_deps RealSettlement (TradeMatchedEvent (ex_match (dp_uuid_str ref_deps 6))) (ex_world (ex_books StatusOpen)) = w' \<and>
     db_trades (w_db w') = [trade_row tr (QNum (100 * 10 ^ 10)) (QNum (3 * 10 ^ 10))] \<and> t_BuyUserID tr = 5 \<and> t_SellUserID tr = 6"
proof -
  let ?e = "ex_match (dp_uuid_str ref_deps 6)" and ?w = "ex_world (ex_books StatusOpen)"
  have u: "of_units (1 * 10 ^ 12) * of_units (3 * 10 ^ 10) = of_units (300 * 10 ^ 10)" by (simp add: of_units_def)
  have d: "dec_units (of_units (1 * 10 ^ 12) * of_units (3 * 10 ^ 10)) < 10 ^ 30" unfolding u dec_units_of_units by simp
  have m: "tm_BuyOrderID ?e = dp_uuid_str ref_deps (o_ID (ex_order StatusOpen))" "tm_SellOrderID ?e = dp_uuid_str ref_deps (o_ID ex_sell)"
    "tm_Price ?e = engine_amount (1 * 10 ^ 12)" "tm_Quantity ?e = engine_amount (3 * 10 ^ 10)"
    "\<not> isPartner (tm_BuyUserID ?e)" "\<not> isPartner (tm_SellUserID ?e)"
    by (simp_all add: ex_match_def ex_order_def ex_sell_def ex_not_partner)
  have "\<exists>price qty tr w'. OnTradeMatched ref_deps RealSettlement (TradeMatchedEvent ?e) ?w = w' \<and>
     trade_change ref_deps (settle_cmd ?e (o_ID (ex_order StatusOpen)) (o_ID ex_sell) price qty) (ex_order StatusOpen) ex_sell tr (w_db ?w) (w_db w') \<and>
     toRat price = of_units (1 * 10 ^ 12) \<and> toRat qty = of_units (3 * 10 ^ 10) \<and>
     db_trades (w_db w') = db_trades (w_db ?w) @ [trade_row tr (QNum (1 * 10 ^ 12)) (QNum (3 * 10 ^ 10))] \<and>
     made_trade (settle_cmd ?e (o_ID (ex_order StatusOpen)) (o_ID ex_sell) price qty) (o_UserID (ex_order StatusOpen)) (o_UserID ex_sell) tr"
    by (rule settlement_exact [OF deps_ok_ref_deps m(5,6,1-3) _ _ _ m(4) _ _ _ ex_books_facts(1-3) _ _ ex_books_facts(4),
          where base = "''BTC''" and quote = "''USD''" and bb = 2 and bq = 1 and sb = 5 and sq = 4])
      (use d ex_books_facts(5-7) in \<open>simp_all add: ex_symbol IsTerminal_def ex_match_def ex_order_def ex_sell_def ex_books_def account_of_def
        ex_market_def ex_account_def ex_funded_def empty_db_def StatusOpen_def StatusFilled_def StatusCancelled_def\<close>)
  then obtain price qty tr w' where t: "OnTradeMatched ref_deps RealSettlement (TradeMatchedEvent ?e) ?w = w'"
    "db_trades (w_db w') = db_trades (w_db ?w) @ [trade_row tr (QNum (1 * 10 ^ 12)) (QNum (3 * 10 ^ 10))]"
    "made_trade (settle_cmd ?e (o_ID (ex_order StatusOpen)) (o_ID ex_sell) price qty) (o_UserID (ex_order StatusOpen)) (o_UserID ex_sell) tr" by blast
  have "db_trades (w_db ?w) = []" by (simp add: ex_books_def ex_market_def ex_funded_def empty_db_def)
  then have "db_trades (w_db w') = [trade_row tr (QNum (100 * 10 ^ 10)) (QNum (3 * 10 ^ 10))]" using t(2) by simp
  moreover have "t_BuyUserID tr = 5" "t_SellUserID tr = 6" using t(3) by (simp_all add: made_trade_def ex_order_def ex_sell_def)
  ultimately show ?thesis using t(1) by (intro exI [of _ w'] exI [of _ tr] conjI)
qed

lemma settlement_once_witness:
  "\<exists>w'. OnTradeMatched ref_deps RealSettlement (TradeMatchedEvent (ex_match (dp_uuid_str ref_deps 6))) (ex_world (ex_books StatusOpen)) = w' \<and>
     w_db w' \<noteq> ex_books StatusOpen \<and>
     w_db (OnTradeMatched ref_deps RealSettlement (TradeMatchedEvent (ex_match (dp_uuid_str ref_deps 6))) w') = w_db w'"
proof -
  let ?e = "ex_match (dp_uuid_str ref_deps 6)" and ?w = "ex_world (ex_books StatusOpen)"
  have bounds: "(0 :: int) < 1" "(1 :: int) < 10 ^ 15" "(12 :: nat) \<le> 100" "(0 :: int) < 3" "(3 :: int) < 10 ^ 15" "(10 :: nat) \<le> 100" by simp_all
  obtain price where p: "parse_f64 ref_deps (engine_amount (1 * 10 ^ 12)) = Inr price" "plain_num price" "toRat price = of_units (1 * 10 ^ 12)"
    by (rule parse_engine_amount [OF deps_ok_ref_deps bounds(1-3)])
  obtain qty where q: "parse_f64 ref_deps (engine_amount (3 * 10 ^ 10)) = Inr qty" "plain_num qty" "toRat qty = of_units (3 * 10 ^ 10)"
    by (rule parse_engine_amount [OF deps_ok_ref_deps bounds(4-6)])
  obtain tr w' where run: "ExecuteTrade ref_deps (settle_cmd ?e 7 12 price qty) ?w = (Inr tr, w')" using ex_settled [OF p(2,3) q(2,3)] by blast
  have "settle ref_deps ?e ?w = snd (ExecuteTrade ref_deps (settle_cmd ?e 7 12 price qty) ?w)"
    by (rule settle_run) (simp_all only: ex_match_def trade_matched.simps p(1) q(1) deps_okD(4) [OF deps_ok_ref_deps])
  then have on: "OnTradeMatched ref_deps RealSettlement (TradeMatchedEvent ?e) ?w = w'"
    using run by (simp add: OnTradeMatched_def real_OnTradeMatched_def ex_not_partner) (simp add: ex_match_def ex_not_partner)
  have "\<not> key_claimed (match_key ?e) ScopeTrade (ex_books StatusOpen)"
    by (simp add: key_claimed_def ex_books_def ex_market_def ex_funded_def empty_db_def)
  moreover have "key_claimed (match_key ?e) ScopeTrade (w_db w')"
    using run by (rule ExecuteTrade_change) (auto simp: trade_change_def key_claimed_def)
  ultimately have ch: "w_db w' \<noteq> ex_books StatusOpen" by metis
  have user: "\<not> isPartner (tm_BuyUserID ?e)" "\<not> isPartner (tm_SellUserID ?e)" by (simp_all add: ex_match_def ex_not_partner)
  have "w_db ?w = ex_books StatusOpen" by (simp add: ex_world_def)
  then have "w_db (OnTradeMatched ref_deps RealSettlement (TradeMatchedEvent ?e) w') = w_db w'"
    using conjunct1 [OF settlement_once [of ref_deps], rule_format, of ?e ?e RealSettlement ?w w' RealSettlement] ch user unfolding on by simp
  then show ?thesis using on ch by blast
qed

subsection \<open>The sandbox\<close>

definition market_row :: "deps \<Rightarrow> uuid \<Rightarrow> string \<Rightarrow> trade_matched \<Rightarrow> sqlnum order_rec \<Rightarrow> bool" where
  "market_row dp marketUserID side evt r \<longleftrightarrow>
     o_UserID r = marketUserID \<and> o_Side r = side \<and> o_Symbol r = tm_Symbol evt \<and> o_Status r = StatusOpen \<and> o_FilledQuantity r = QNum 0 \<and>
     (\<exists>price qty. parse_f64 dp (tm_Price evt) = Inr price \<and> num_row price = Inr (o_Price r) \<and>
        parse_f64 dp (tm_Quantity evt) = Inr qty \<and> num_row qty = Inr (o_Quantity r))"

lemma persist_run:
  assumes "deps_ok dp" and "persistMarketOrder dp mu side (tm_Symbol evt) (tm_Price evt) (tm_Quantity evt) w = (Inr i, w')"
  obtains r where "market_row dp mu side evt r" and "o_ID r = i" and "\<forall>x \<in> set (db_orders (w_db w)). o_ID x \<noteq> i"
    and "w_db w' = (w_db w)\<lparr>db_orders := db_orders (w_db w) @ [r]\<rparr>"
proof -
  obtain w1 pr qn now w2 u w3 u' w4 where
    a: "NewV7 w = (Inr i, w1)" "parse_f64 dp (tm_Price evt) = Inr pr" "parse_f64 dp (tm_Quantity evt) = Inr qn"
    "Now w1 = (Inr now :: gerr + gotime, w2)" and
    c: "orderStore_Create (market_order dp i mu side (tm_Symbol evt) pr qn now) ((tick w2)\<lparr>w_tx := Some (w_db w2), w_abort := False\<rparr>) = (Inr u, w3)"
    "Commit w3 = (Inr u', w4)" "w' = Rollback w4"
    using assms(2) unfolding persistMarketOrder_def
    by (simp only: bindE_Inr wrapE_Inr liftE_Inr in_tx_Inr commit_tx_Inr returnE_Inr) (elim exE conjE, simp only:)
  have d2: "w_db w2 = w_db w" using a(1,4) by (auto simp: NewV7_Inr Now_Inr)
  obtain d3 where d3: "insert_order (market_order dp i mu side (tm_Symbol evt) pr qn now) (w_db w) = Inr ((), d3)" "w_tx w3 = Some d3"
    using c(1) unfolding orderStore_Create_def wrapE_Inr mapE_Inr tx_exec_Inr by (auto simp: d2)
  obtain p q where pq: "num_row pr = Inr p" "num_row qn = Inr q" "\<forall>x \<in> set (db_orders (w_db w)). o_ID x \<noteq> i"
    "d3 = (w_db w)\<lparr>db_orders := db_orders (w_db w) @ [order_row (market_order dp i mu side (tm_Symbol evt) pr qn now) p q (QNum 0)]\<rparr>"
    using d3(1) Zero_row [OF deps_okD(1) [OF assms(1)]] unfolding insert_order_Inr by (auto simp: market_order_def)
  have "w_db w' = d3" using Commit_run [OF c(2) d3(2)] c(3) by simp
  then show thesis
    using that [of "order_row (market_order dp i mu side (tm_Symbol evt) pr qn now) p q (QNum 0)"] pq a(2,3)
    by (auto simp: market_row_def market_order_def)
qed

lemma atomic_persist: "atomic (persistMarketOrder dp mu side symbol price qty)"
  unfolding persistMarketOrder_def
  by (intro atomic_bind atomic_commit_bind never_fails_basic atomic_in_tx atomic_wrapE frame quiet_atomic [OF quiet_basic(2)] | simp add: orderStore_Create_def)+

lemma orders_by_id_hd: "orders_by_id i d = r # rs \<Longrightarrow> r \<in> set (db_orders d) \<and> o_ID r = i"
proof -
  assume "orders_by_id i d = r # rs"
  then have "r \<in> set (orders_by_id i d)" by simp
  then show ?thesis by (simp add: orders_by_id_def)
qed

text \<open>The event settled once the market has its order, and the side of that order.\<close>

definition market_evt :: "deps \<Rightarrow> uuid \<Rightarrow> uuid \<Rightarrow> trade_matched \<Rightarrow> trade_matched" where
  "market_evt dp marketUserID i evt =
     (if isPartner (tm_BuyUserID evt)
      then evt\<lparr>tm_BuyOrderID := dp_uuid_str dp i, tm_BuyUserID := dp_uuid_str dp marketUserID\<rparr>
      else evt\<lparr>tm_SellOrderID := dp_uuid_str dp i, tm_SellUserID := dp_uuid_str dp marketUserID\<rparr>)"

definition market_side :: "trade_matched \<Rightarrow> string" where
  "market_side evt = (if isPartner (tm_BuyUserID evt) then SideBuy else SideSell)"

lemma sandbox_cases:
  assumes "isPartner (tm_BuyUserID evt) \<noteq> isPartner (tm_SellUserID evt)"
  shows "OnTradeMatched dp (SandboxSettlement mu) (TradeMatchedEvent evt) w =
    (case persistMarketOrder dp mu (market_side evt) (tm_Symbol evt) (tm_Price evt) (tm_Quantity evt) w of
       (Inl _, w') \<Rightarrow> w'
     | (Inr i, w') \<Rightarrow> settle dp (market_evt dp mu i evt) w')"
  using assms by (auto simp: OnTradeMatched_def sandbox_OnTradeMatched_def market_side_def market_evt_def split: prod.split sum.split)

text \<open>
  In the sandbox a match with the partner exchange commits either nothing, or one fresh OPEN order of the
  market user for the whole match, on the partner's side, and then, if the trade succeeds, exactly the trade of
  that order with the user's order of the event.
\<close>
theorem sandbox_partner_trade:
  assumes "deps_ok dp" and "isPartner (tm_BuyUserID evt) \<noteq> isPartner (tm_SellUserID evt)"
    and "OnTradeMatched dp (SandboxSettlement mu) (TradeMatchedEvent evt) w = w'"
  shows "w_db w' = w_db w \<or>
    (\<exists>r d1. market_row dp mu (market_side evt) evt r \<and> (\<forall>x \<in> set (db_orders (w_db w)). o_ID x \<noteq> o_ID r) \<and>
       d1 = (w_db w)\<lparr>db_orders := db_orders (w_db w) @ [r]\<rparr> \<and>
       (w_db w' = d1 \<or>
        (\<exists>cmd buy sell tr. tc_Symbol cmd = tm_Symbol evt \<and> buy \<in> set (db_orders d1) \<and> sell \<in> set (db_orders d1) \<and>
           (if isPartner (tm_BuyUserID evt)
            then buy = r \<and> dp_uuid_parse dp (tm_SellOrderID evt) = Some (o_ID sell)
            else sell = r \<and> dp_uuid_parse dp (tm_BuyOrderID evt) = Some (o_ID buy)) \<and>
           trade_change dp cmd buy sell tr d1 (w_db w'))))"
proof (cases "persistMarketOrder dp mu (market_side evt) (tm_Symbol evt) (tm_Price evt) (tm_Quantity evt) w")
  case (Pair res w1)
  show ?thesis
  proof (cases res)
    case (Inl e)
    then have "w_db w1 = w_db w" using atomic_failed [OF atomic_persist] Pair by blast
    then show ?thesis using sandbox_cases [OF assms(2), of dp mu w] assms(3) Inl Pair by simp
  next
    case (Inr i)
    then obtain r where r: "market_row dp mu (market_side evt) evt r" "o_ID r = i" "\<forall>x \<in> set (db_orders (w_db w)). o_ID x \<noteq> i"
      "w_db w1 = (w_db w)\<lparr>db_orders := db_orders (w_db w) @ [r]\<rparr>"
      using persist_run [OF assms(1)] Pair by blast
    have w': "w' = settle dp (market_evt dp mu i evt) w1" using sandbox_cases [OF assms(2), of dp mu w] assms(3) Inr Pair by simp
    show ?thesis
    proof (cases "w_db w' = w_db w1")
      case True
      then show ?thesis using r by blast
    next
      case False
      then obtain bid sid price qty tr where run: "dp_uuid_parse dp (tm_BuyOrderID (market_evt dp mu i evt)) = Some bid"
        "dp_uuid_parse dp (tm_SellOrderID (market_evt dp mu i evt)) = Some sid"
        "ExecuteTrade dp (settle_cmd (market_evt dp mu i evt) bid sid price qty) w1 = (Inr tr, w')"
        unfolding w' by (rule settle_changed)
      let ?cmd = "settle_cmd (market_evt dp mu i evt) bid sid price qty"
      obtain buy sell rs1 rs2 where c: "orders_by_id bid (w_db w1) = buy # rs1" "orders_by_id sid (w_db w1) = sell # rs2"
        "trade_change dp ?cmd buy sell tr (w_db w1) (w_db w')"
        using run(3) by (rule ExecuteTrade_change) (auto simp del: orders_by_id_def)
      have m: "buy \<in> set (db_orders (w_db w1))" "o_ID buy = bid" "sell \<in> set (db_orders (w_db w1))" "o_ID sell = sid"
        using orders_by_id_hd [OF c(1)] orders_by_id_hd [OF c(2)] by simp_all
      have u: "dp_uuid_parse dp (dp_uuid_str dp i) = Some i" using deps_okD(4) [OF assms(1)] .
      have one: "x = r" if "x \<in> set (db_orders (w_db w1))" "o_ID x = i" for x using that r(2-4) by auto
      have "if isPartner (tm_BuyUserID evt)
          then buy = r \<and> dp_uuid_parse dp (tm_SellOrderID evt) = Some (o_ID sell)
          else sell = r \<and> dp_uuid_parse dp (tm_BuyOrderID evt) = Some (o_ID buy)"
        using run(1,2) u m one by (auto simp: market_evt_def)
      moreover have "tc_Symbol ?cmd = tm_Symbol evt" by (simp add: market_evt_def)
      ultimately show ?thesis using r c(3) m by blast
    qed
  qed
qed

text \<open>
  A user's order cancelled while its match with the partner was on its way leaves an order behind: the trade
  fails, but the market user's order is committed, OPEN and with nothing filled, and the next restart
  puts it on the book, where it never was.
\<close>
theorem sandbox_orphan_order:
  assumes "deps_ok dp" and "\<not> isPartner (tm_BuyUserID evt)" and "isPartner (tm_SellUserID evt)"
    and "tm_BuyOrderID evt = dp_uuid_str dp (o_ID b)" and "orders_by_id (o_ID b) (w_db w) = [b]" and "o_Status b = StatusCancelled"
    and "persistMarketOrder dp mu SideSell (tm_Symbol evt) (tm_Price evt) (tm_Quantity evt) w = (Inr i, w1)"
    and "tm_Symbol evt \<in> set symbols"
  shows "\<exists>r. w_db (OnTradeMatched dp (SandboxSettlement mu) (TradeMatchedEvent evt) w) = (w_db w)\<lparr>db_orders := db_orders (w_db w) @ [r]\<rparr> \<and>
    market_row dp mu SideSell evt r \<and>
    r \<in> set (rehydrate_query symbols (w_db (OnTradeMatched dp (SandboxSettlement mu) (TradeMatchedEvent evt) w)))"
proof -
  let ?w' = "OnTradeMatched dp (SandboxSettlement mu) (TradeMatchedEvent evt) w"
  obtain r where r: "market_row dp mu SideSell evt r" "o_ID r = i" "\<forall>x \<in> set (db_orders (w_db w)). o_ID x \<noteq> i"
    "w_db w1 = (w_db w)\<lparr>db_orders := db_orders (w_db w) @ [r]\<rparr>"
    using persist_run [OF assms(1,7)] by blast
  have w': "?w' = settle dp (market_evt dp mu i evt) w1"
    using sandbox_cases [of evt dp mu w] assms(2,3,7) by (simp add: market_side_def)
  have "b \<in> set (db_orders (w_db w))" using orders_by_id_hd [OF assms(5)] by simp
  then have b: "orders_by_id (o_ID b) (w_db w1) = [b]" using assms(5) r by (auto simp: orders_by_id_def)
  have "w_db ?w' = w_db w1"
  proof (rule ccontr)
    assume "w_db ?w' \<noteq> w_db w1"
    then obtain bid sid price qty tr where run: "dp_uuid_parse dp (tm_BuyOrderID (market_evt dp mu i evt)) = Some bid"
      "ExecuteTrade dp (settle_cmd (market_evt dp mu i evt) bid sid price qty) w1 = (Inr tr, ?w')"
      unfolding w' by (rule settle_changed)
    have "bid = o_ID b" using run(1) assms(2,4) deps_okD(4) [OF assms(1)] by (simp add: market_evt_def)
    moreover obtain buy rs1 where "orders_by_id bid (w_db w1) = buy # rs1" "\<not> IsTerminal (o_Status buy)"
      using run(2) by (rule ExecuteTrade_change) auto
    ultimately have "\<not> IsTerminal (o_Status b)" using b by simp
    then show False using assms(6) by (simp add: IsTerminal_def)
  qed
  then show ?thesis using r assms(8) by (intro exI [of _ r]) (auto simp: rehydrate_query_def market_row_def)
qed

lemma ex_persist:
  "\<exists>i w1. persistMarketOrder ref_deps MarketUserID SideSell (tm_Symbol (ex_match [])) (tm_Price (ex_match [])) (tm_Quantity (ex_match []))
     (ex_world (ex_books status)) = (Inr i, w1)"
proof -
  have bounds: "(0 :: int) < 1" "(1 :: int) < 10 ^ 15" "(12 :: nat) \<le> 100" "(0 :: int) < 3" "(3 :: int) < 10 ^ 15" "(10 :: nat) \<le> 100" by simp_all
  obtain price where p: "parse_f64 ref_deps (tm_Price (ex_match [])) = Inr price" "plain_num price" "toRat price = of_units (1 * 10 ^ 12)"
    using parse_engine_amount [OF deps_ok_ref_deps bounds(1-3)] by (auto simp: ex_match_def)
  obtain qty where q: "parse_f64 ref_deps (tm_Quantity (ex_match [])) = Inr qty" "plain_num qty" "toRat qty = of_units (3 * 10 ^ 10)"
    using parse_engine_amount [OF deps_ok_ref_deps bounds(4-6)] by (auto simp: ex_match_def)
  have rows: "num_row price = Inr (QNum (1 * 10 ^ 12))" "num_row qty = Inr (QNum (3 * 10 ^ 10))"
    using num_row_plain [OF p(2)] num_row_plain [OF q(2)] unfolding p(3) q(3) by simp_all
  let ?w = "ex_world (ex_books status)"
  let ?o = "market_order ref_deps 1000 MarketUserID SideSell ''BTC-USD'' price qty 1"
  have "\<exists>d. insert_order ?o (ex_books status) = Inr ((), d)"
    using rows Zero_row [OF deps_okD(1) [OF deps_ok_ref_deps]]
    by (auto simp: insert_order_Inr market_order_def varchar_def order_status_ok_def ex_books_def ex_order_def ex_sell_def)
  then obtain d where "insert_order ?o (ex_books status) = Inr ((), d)" by blast
  then show ?thesis
    using p(1) q(1)
    by (simp add: persistMarketOrder_def bindE_def wrapE_def mapE_def liftE_def NewV7_def Now_def ex_world_def ex_env_def in_tx_def with_tx_def
        Begin_def faulty_def orderStore_Create_def tx_exec_def commit_tx_def Commit_def returnE_def ex_match_def tick_def)
qed

lemma sandbox_orphan_order_witness:
  "\<exists>r. w_db (OnTradeMatched ref_deps (newSettlementProcessor True) (TradeMatchedEvent (ex_match [])) (ex_world (ex_books StatusCancelled))) =
        (ex_books StatusCancelled)\<lparr>db_orders := db_orders (ex_books StatusCancelled) @ [r]\<rparr> \<and>
     o_UserID r = MarketUserID \<and> o_Status r = StatusOpen"
proof -
  let ?b = "ex_order StatusCancelled" and ?w = "ex_world (ex_books StatusCancelled)"
  obtain i w1 where p: "persistMarketOrder ref_deps MarketUserID SideSell (tm_Symbol (ex_match [])) (tm_Price (ex_match []))
      (tm_Quantity (ex_match [])) ?w = (Inr i, w1)" using ex_persist by blast
  have e: "\<not> isPartner (tm_BuyUserID (ex_match []))" "isPartner (tm_SellUserID (ex_match []))"
    "tm_BuyOrderID (ex_match []) = dp_uuid_str ref_deps (o_ID ?b)" "orders_by_id (o_ID ?b) (w_db ?w) = [?b]"
    "o_Status ?b = StatusCancelled" "tm_Symbol (ex_match []) \<in> set [''BTC-USD'']"
    by (simp_all add: ex_match_def ex_not_partner ex_order_def orders_by_id_def ex_world_def ex_books_def ex_sell_def)
  show ?thesis
    using sandbox_orphan_order [OF deps_ok_ref_deps e(1-5) p e(6)]
    by (auto simp: newSettlementProcessor_def market_row_def ex_world_def)
qed

lemma sandbox_partner_trade_witness:
  "\<exists>w'. OnTradeMatched ref_deps (SandboxSettlement MarketUserID) (TradeMatchedEvent (ex_match [])) (ex_world (ex_books StatusCancelled)) = w' \<and>
     length (db_orders (w_db w')) \<le> 3"
proof -
  let ?w = "ex_world (ex_books StatusCancelled)"
  have e: "isPartner (tm_BuyUserID (ex_match [])) \<noteq> isPartner (tm_SellUserID (ex_match []))"
    by (simp add: ex_match_def ex_not_partner)
  have n: "length rows1 = length rows" if "list_all2 P rows rows1" for P :: "sqlnum order_rec \<Rightarrow> sqlnum order_rec \<Rightarrow> bool" and rows rows1
    using list_all2_lengthD [OF that] by simp
  have "length (db_orders (w_db (OnTradeMatched ref_deps (SandboxSettlement MarketUserID) (TradeMatchedEvent (ex_match [])) ?w))) \<le> 3"
    using sandbox_partner_trade [of ref_deps "ex_match []" MarketUserID ?w, OF deps_ok_ref_deps e HOL.refl]
    by (auto simp: trade_change_def ex_world_def ex_books_def dest!: n)
  then show ?thesis by blast
qed

end
