(* ===== verification/Extjson.thy ===== *)
theory Extjson
  imports Strconv Timefmt Shared
begin

text \<open>
  The JSON of other exchanges, as \<open>encoding/json\<close> decodes it into structs, maps of raw messages and
  slices, and \<open>strconv.ParseInt\<close>. A message is the tree of its text; a number keeps its text, an array
  and an object the text they were read from.
\<close>

datatype jmsg =
    MNull
  | MBool bool
  | MNum string
  | MStr string
  | MArr string "jmsg list"
  | MObj string "(string \<times> jmsg) list"

subsection \<open>Numbers\<close>

text \<open>\<open>strconv.ParseInt(s, 10, 64)\<close>: the value and whether there was an error; out of range it saturates.\<close>

definition ParseInt :: "string \<Rightarrow> int \<times> bool" where
  "ParseInt s =
     (let neg = (s \<noteq> [] \<and> hd s = CHR ''-'');
          body = (if s \<noteq> [] \<and> (hd s = CHR ''-'' \<or> hd s = CHR ''+'') then tl s else s);
          n = int (atou body) in
      if body = [] \<or> \<not> list_all is_digit body then (0, True)
      else if neg then (if 9223372036854775808 < n then (- 9223372036854775808, True) else (- n, False))
      else if 9223372036854775808 \<le> n then (9223372036854775807, True) else (n, False))"

subsection \<open>Decoding into a variable, errors ignored\<close>

text \<open>\<open>_ = json.Unmarshal(v, &n)\<close> for a fresh \<open>n\<close>.\<close>

definition decode_int64 :: "jmsg \<Rightarrow> int" where
  "decode_int64 v = (case v of MNum t \<Rightarrow> (case ParseInt t of (n, err) \<Rightarrow> if err then 0 else n) | _ \<Rightarrow> 0)"

definition decode_f64 :: "jmsg \<Rightarrow> f64" where
  "decode_f64 v = (case v of MNum t \<Rightarrow> (case ParseFloat t of (x, err) \<Rightarrow> if err then f64_zero else x) | _ \<Rightarrow> f64_zero)"

definition decode_bool :: "jmsg \<Rightarrow> bool" where
  "decode_bool v = (case v of MBool b \<Rightarrow> b | _ \<Rightarrow> False)"

text \<open>\<open>strings.Trim(s, quotes)\<close>, the quote being the character 34.\<close>

definition trim_quotes :: "string \<Rightarrow> string" where
  "trim_quotes s = (let q = (\<lambda>c. c = CHR 0x22) in rev (dropWhile q (rev (dropWhile q s))))"

text \<open>A string, or the text of what is there instead.\<close>

definition decode_text :: "jmsg \<Rightarrow> string" where
  "decode_text v =
     (case v of
        MStr s \<Rightarrow> s
      | MNull \<Rightarrow> []
      | MBool b \<Rightarrow> trim_quotes (if b then ''true'' else ''false'')
      | MNum t \<Rightarrow> trim_quotes t
      | MArr t _ \<Rightarrow> trim_quotes t
      | MObj t _ \<Rightarrow> trim_quotes t)"

subsection \<open>Structs, maps and slices\<close>

text \<open>Keys match the names of a struct's fields whatever their case; the keys of a map are exact.\<close>

definition key_eq :: "string \<Rightarrow> string \<Rightarrow> bool" where
  "key_eq k n \<longleftrightarrow> map lower_char k = map lower_char n"

text \<open>
  Decoding into a struct: \<open>set\<close> decodes one key into the fields and tells an error; null instead of an
  object leaves the struct as it is, any other value is an error.
\<close>

fun decode_keys :: "(string \<Rightarrow> jmsg \<Rightarrow> 'a \<Rightarrow> 'a option) \<Rightarrow> (string \<times> jmsg) list \<Rightarrow> 'a \<Rightarrow> 'a option" where
  "decode_keys setk [] x = Some x"
| "decode_keys setk ((k, v) # kvs) x = (case setk k v x of None \<Rightarrow> None | Some y \<Rightarrow> decode_keys setk kvs y)"

definition decode_obj :: "(string \<Rightarrow> jmsg \<Rightarrow> 'a \<Rightarrow> 'a option) \<Rightarrow> 'a \<Rightarrow> jmsg \<Rightarrow> 'a option" where
  "decode_obj setk x v = (case v of MObj _ kvs \<Rightarrow> decode_keys setk kvs x | MNull \<Rightarrow> Some x | _ \<Rightarrow> None)"

text \<open>Decoding one key into a field of a basic type; null leaves the field.\<close>

definition set_string :: "(string \<Rightarrow> 'a) \<Rightarrow> 'a \<Rightarrow> jmsg \<Rightarrow> 'a option" where
  "set_string f x v = (case v of MStr s \<Rightarrow> Some (f s) | MNull \<Rightarrow> Some x | _ \<Rightarrow> None)"

definition set_int64 :: "(int \<Rightarrow> 'a) \<Rightarrow> 'a \<Rightarrow> jmsg \<Rightarrow> 'a option" where
  "set_int64 f x v =
     (case v of
        MNum t \<Rightarrow> (case ParseInt t of (n, err) \<Rightarrow> if err then None else Some (f n))
      | MNull \<Rightarrow> Some x
      | _ \<Rightarrow> None)"

definition set_bool :: "(bool \<Rightarrow> 'a) \<Rightarrow> 'a \<Rightarrow> jmsg \<Rightarrow> 'a option" where
  "set_bool f x v = (case v of MBool b \<Rightarrow> Some (f b) | MNull \<Rightarrow> Some x | _ \<Rightarrow> None)"

text \<open>\<open>map[string]json.RawMessage\<close>: of equal keys the last one counts.\<close>

definition decode_map :: "jmsg \<Rightarrow> (string \<rightharpoonup> jmsg) option" where
  "decode_map v = (case v of MObj _ kvs \<Rightarrow> Some (map_of (rev kvs)) | MNull \<Rightarrow> Some (\<lambda>_. None) | _ \<Rightarrow> None)"

text \<open>A slice: null is the empty one; one bad element spoils it.\<close>

fun decode_all :: "('a \<Rightarrow> 'b option) \<Rightarrow> 'a list \<Rightarrow> 'b list option" where
  "decode_all f [] = Some []"
| "decode_all f (x # xs) = (case f x of None \<Rightarrow> None | Some y \<Rightarrow> (case decode_all f xs of None \<Rightarrow> None | Some ys \<Rightarrow> Some (y # ys)))"

definition decode_slice :: "(jmsg \<Rightarrow> 'b option) \<Rightarrow> jmsg \<Rightarrow> 'b list option" where
  "decode_slice f v = (case v of MArr _ xs \<Rightarrow> decode_all f xs | MNull \<Rightarrow> Some [] | _ \<Rightarrow> None)"

definition decode_string :: "jmsg \<Rightarrow> string option" where
  "decode_string v = set_string (\<lambda>s. s) [] v"

subsection \<open>Encoding\<close>

text \<open>
  \<open>Encode\<close> fails on a float64 that is infinite or not a number, wherever it stands, and nothing of the
  value is written; \<open>WriteJSON\<close> has sent the status by then and drops the error.
\<close>

fun encodable :: "json \<Rightarrow> bool" where
  "encodable (JNum x) = finite_f64 x"
| "encodable (JArr vs) = list_all encodable vs"
| "encodable (JObj kvs) = list_all (\<lambda>(k, v). encodable v) kvs"
| "encodable _ = True"

definition WriteFloats :: "nat \<Rightarrow> json \<Rightarrow> http_response" where
  "WriteFloats status v = (if encodable v then WriteJSON status v else \<lparr>rs_status = status, rs_body = None\<rparr>)"

subsection \<open>Lemmas\<close>

lemma ParseInt_range: "- 9223372036854775808 \<le> fst (ParseInt s) \<and> fst (ParseInt s) \<le> 9223372036854775807"
  by (simp add: ParseInt_def Let_def)

lemma decode_int64_range: "- 9223372036854775808 \<le> decode_int64 v \<and> decode_int64 v \<le> 9223372036854775807"
proof (cases v)
  case (MNum t)
  then show ?thesis using ParseInt_range [of t] by (cases "ParseInt t") (simp add: decode_int64_def)
qed (simp_all add: decode_int64_def)

text \<open>A number read back from its decimal text.\<close>

lemma ParseInt_utoa:
  assumes "n < 9223372036854775808"
  shows "ParseInt (utoa n) = (int n, False)"
proof -
  have d: "list_all is_digit (utoa n)" "utoa n \<noteq> []" "atou (utoa n) = n" using utoa_digits [of n] by (simp_all add: list_all_iff)
  then have "is_digit (hd (utoa n))" by (simp add: list_all_iff)
  then have "hd (utoa n) \<noteq> CHR ''-'' \<and> hd (utoa n) \<noteq> CHR ''+''" by (auto simp: is_digit_def)
  then show ?thesis using d assms by (simp add: ParseInt_def Let_def)
qed

lemma decode_all_length: "decode_all f xs = Some ys \<Longrightarrow> length ys = length xs"
  by (induction xs arbitrary: ys) (auto split: option.splits)

end
