(* ===== verification/Marketdata.thy ===== *)
theory Marketdata
  imports Engine Http Extjson
begin

text \<open>
  internal/marketdata: the public view of the books and the recent trades, kept from the events of the
  engine. \<open>OnOrderRested\<close>, \<open>OnTradeMatched\<close> and \<open>OnOrderCancelled\<close> are the subscribers; each holds the lock
  of the service, so a handler is one step on the state.
\<close>

definition md_maxRecentTrades :: nat where "md_maxRecentTrades = 100"

record book_level =
  bl_Price :: f64
  bl_Quantity :: f64

record book_view =
  bv_Symbol :: string
  bv_Bids :: "book_level list"
  bv_Asks :: "book_level list"

record recent_trade =
  rt_Price :: f64
  rt_Quantity :: f64
  rt_Timestamp :: gotime

text \<open>Reading the map of trades at a missing key gives the empty slice.\<close>

record market_data =
  md_books :: "string \<rightharpoonup> book_view"
  md_trades :: "string \<Rightarrow> recent_trade list"

definition md_NewService :: market_data where
  "md_NewService = \<lparr>md_books = (\<lambda>_. None), md_trades = (\<lambda>_. [])\<rparr>"

subsection \<open>Levels\<close>

fun addLevel :: "book_level list \<Rightarrow> f64 \<Rightarrow> f64 \<Rightarrow> book_level list" where
  "addLevel [] price qty = [\<lparr>bl_Price = price, bl_Quantity = qty\<rparr>]"
| "addLevel (l # ls) price qty =
     (if feq (bl_Price l) price then l\<lparr>bl_Quantity := fadd (bl_Quantity l) qty\<rparr> # ls else l # addLevel ls price qty)"

text \<open>The constant \<open>1e-12\<close>.\<close>

definition dustEpsilon :: f64 where "dustEpsilon = f64_of_decimal 1 (- 12)"

fun deductLevel :: "book_level list \<Rightarrow> f64 \<Rightarrow> f64 \<Rightarrow> book_level list" where
  "deductLevel [] price qty = []"
| "deductLevel (l # ls) price qty =
     (if feq (bl_Price l) price
      then (let q = fsub (bl_Quantity l) qty in if fle q dustEpsilon then ls else l\<lparr>bl_Quantity := q\<rparr> # ls)
      else l # deductLevel ls price qty)"

subsection \<open>The handlers\<close>

definition empty_view :: "string \<Rightarrow> book_view" where
  "empty_view symbol = \<lparr>bv_Symbol = symbol, bv_Bids = [], bv_Asks = []\<rparr>"

definition bookFor :: "market_data \<Rightarrow> string \<Rightarrow> book_view" where
  "bookFor s symbol = (case md_books s symbol of Some b \<Rightarrow> b | None \<Rightarrow> empty_view symbol)"

definition on_side :: "string \<Rightarrow> (book_level list \<Rightarrow> book_level list) \<Rightarrow> book_view \<Rightarrow> book_view" where
  "on_side side f b = (if side = ''asks'' then b\<lparr>bv_Asks := f (bv_Asks b)\<rparr> else b\<lparr>bv_Bids := f (bv_Bids b)\<rparr>)"

definition view_side :: "string \<Rightarrow> string" where
  "view_side side = (if side = ''BUY'' then ''bids'' else ''asks'')"

definition OnOrderCancelled :: "event \<Rightarrow> market_data \<Rightarrow> market_data" where
  "OnOrderCancelled e s =
     (case e of
        OrderCancelledEvent evt \<Rightarrow>
          if fle (oc_Remaining evt) f64_zero then s
          else s\<lparr>md_books := (md_books s)(oc_Symbol evt \<mapsto>
                 on_side (view_side (oc_Side evt)) (\<lambda>ls. deductLevel ls (oc_Price evt) (oc_Remaining evt)) (bookFor s (oc_Symbol evt)))\<rparr>
      | _ \<Rightarrow> s)"

definition OnOrderRested :: "event \<Rightarrow> market_data \<Rightarrow> market_data" where
  "OnOrderRested e s =
     (case e of
        OrderRestedEvent evt \<Rightarrow>
          s\<lparr>md_books := (md_books s)(or_Symbol evt \<mapsto>
            on_side (view_side (or_Side evt)) (\<lambda>ls. addLevel ls (or_Price evt) (or_Remaining evt)) (bookFor s (or_Symbol evt)))\<rparr>
      | _ \<Rightarrow> s)"

definition md_OnTradeMatched :: "event \<Rightarrow> market_data \<Rightarrow> market_data" where
  "md_OnTradeMatched e s =
     (case e of
        TradeMatchedEvent evt \<Rightarrow>
          (let d = (\<lambda>ls. deductLevel ls (tm_Price evt) (tm_Quantity evt));
               book = on_side ''bids'' d (on_side ''asks'' d (bookFor s (tm_Symbol evt)));
               tr = \<lparr>rt_Price = tm_Price evt, rt_Quantity = tm_Quantity evt, rt_Timestamp = tm_Timestamp evt\<rparr> in
           s\<lparr>md_books := (md_books s)(tm_Symbol evt \<mapsto> book),
             md_trades := (md_trades s)(tm_Symbol evt := take md_maxRecentTrades (tr # md_trades s (tm_Symbol evt)))\<rparr>)
      | _ \<Rightarrow> s)"

definition md_GetOrderBook :: "market_data \<Rightarrow> string \<Rightarrow> book_view" where
  "md_GetOrderBook s symbol = (case md_books s symbol of None \<Rightarrow> empty_view symbol | Some b \<Rightarrow> b)"

definition md_GetRecentTrades :: "market_data \<Rightarrow> string \<Rightarrow> recent_trade list" where
  "md_GetRecentTrades s symbol = md_trades s symbol"

text \<open>The three subscriptions, as names of the handlers, and what running a handler does.\<close>

datatype md_handler = MdRested | MdTrade | MdCancelled

definition md_Subscribe :: "md_handler bus \<Rightarrow> md_handler bus" where
  "md_Subscribe b = Subscribe EventTypeOrderCancelled MdCancelled (Subscribe EventTypeTradeMatched MdTrade
     (Subscribe EventTypeOrderRested MdRested b))"

definition md_run :: "md_handler \<Rightarrow> event \<Rightarrow> market_data \<Rightarrow> bool \<times> market_data" where
  "md_run h e s =
     (False, case h of MdRested \<Rightarrow> OnOrderRested e s | MdTrade \<Rightarrow> md_OnTradeMatched e s | MdCancelled \<Rightarrow> OnOrderCancelled e s)"

subsection \<open>The handlers of HTTP (marketdata/handler.go)\<close>

definition level_json :: "book_level \<Rightarrow> json" where
  "level_json l = JObj [(''price'', JNum (bl_Price l)), (''quantity'', JNum (bl_Quantity l))]"

definition book_json :: "book_view \<Rightarrow> json" where
  "book_json b = JObj [(''symbol'', JStr (bv_Symbol b)), (''bids'', JArr (map level_json (bv_Bids b))),
     (''asks'', JArr (map level_json (bv_Asks b)))]"

definition recent_json :: "recent_trade \<Rightarrow> json" where
  "recent_json t = JObj [(''price'', JNum (rt_Price t)), (''quantity'', JNum (rt_Quantity t)),
     (''timestamp'', json_time (rt_Timestamp t))]"

definition mdHandler_GetOrderBook :: "market_data \<Rightarrow> request \<Rightarrow> http_response" where
  "mdHandler_GetOrderBook s r = WriteFloats 200 (book_json (md_GetOrderBook s (rq_param r ''symbol'')))"

definition mdHandler_GetRecentTrades :: "market_data \<Rightarrow> request \<Rightarrow> http_response" where
  "mdHandler_GetRecentTrades s r = WriteFloats 200 (JArr (map recent_json (md_GetRecentTrades s (rq_param r ''symbol''))))"

subsection \<open>Events in the order they were published\<close>

definition md_event :: "event \<Rightarrow> market_data \<Rightarrow> market_data" where
  "md_event e s =
     (case e of
        OrderRestedEvent _ \<Rightarrow> OnOrderRested e s
      | TradeMatchedEvent _ \<Rightarrow> md_OnTradeMatched e s
      | OrderCancelledEvent _ \<Rightarrow> OnOrderCancelled e s)"

text \<open>With the subscriptions of the service on the bus, one event starts one handler, the one for its type.\<close>

lemma md_Publish: "run_tasks md_run (Publish (md_Subscribe Bus_New) e) s = md_event e s"
  by (cases e) (simp_all add: md_Subscribe_def Publish_Subscribe Publish_def md_event_def run_tasks_def run_task_def md_run_def)

lemma md_publish_all: "run_tasks md_run (publish_all (md_Subscribe Bus_New) es) s = fold md_event es s"
proof (induction es arbitrary: s)
  case Nil
  then show ?case by (simp add: publish_all_def run_tasks_def)
next
  case (Cons e es)
  have "publish_all b (e # es) = Publish b e @ publish_all b es" for b :: "md_handler bus" by (simp add: publish_all_def)
  then have "run_tasks md_run (publish_all (md_Subscribe Bus_New) (e # es)) s
      = run_tasks md_run (publish_all (md_Subscribe Bus_New) es) (run_tasks md_run (Publish (md_Subscribe Bus_New) e) s)"
    by (simp add: run_tasks_def)
  then show ?case using Cons by (simp add: md_Publish)
qed

end
