(* ===== verification/Marketdata_Properties.thy ===== *)
theory Marketdata_Properties
  imports Marketdata Format
begin

text \<open>
  The market data against the books. A side of the view mirrors a queue when it has one level for every
  price at which something rests, with exactly the quantity that rests there. Handled in the order of
  publication the events of the engine keep the view a mirror of the book; in another order they need not.
\<close>

subsection \<open>Levels as a function from prices to quantities\<close>

definition price_units :: "queue \<Rightarrow> f64 \<Rightarrow> int" where
  "price_units q p = sum_list (map (\<lambda>(p', r). if p' = p then f_units (eo_Remaining r) else 0) q)"

lemma price_units_simps [simp]:
  "price_units [] p = 0"
  "price_units ((p', r) # q) p = (if p' = p then f_units (eo_Remaining r) else 0) + price_units q p"
  "price_units (q @ q2) p = price_units q p + price_units q2 p"
  by (simp_all add: price_units_def)

lemma price_units_insert:
  "price_units (queue_insert better o1 q) = (price_units q)(eo_Price o1 := price_units q (eo_Price o1) + f_units (eo_Remaining o1))"
proof
  fix p
  have "price_units q p = price_units (takeWhile keep q) p + price_units (dropWhile keep q) p" for keep
    by (metis price_units_simps(3) takeWhile_dropWhile_id)
  from this [symmetric, of "\<lambda>(p, r). better p (eo_Price o1) \<or> p = eo_Price o1"]
  show "price_units (queue_insert better o1 q) p =
      ((price_units q)(eo_Price o1 := price_units q (eo_Price o1) + f_units (eo_Remaining o1))) p"
    by (auto simp: queue_insert_def Let_def)
qed

lemma price_units_none: "p \<notin> fst ` set q \<Longrightarrow> price_units q p = 0"
  by (induction q) auto

lemma feq_iff: "finite_f64 p \<Longrightarrow> feq p q \<longleftrightarrow> p = q"
  by (cases p; cases q) auto

fun mirrors :: "book_level list \<Rightarrow> (f64 \<Rightarrow> int) \<Rightarrow> bool" where
  "mirrors [] u \<longleftrightarrow> (\<forall>p. u p = 0)"
| "mirrors (l # ls) u \<longleftrightarrow>
     finite_f64 (bl_Price l) \<and> 0 < u (bl_Price l) \<and> bl_Quantity l = FFin (u (bl_Price l)) \<and> mirrors ls (u(bl_Price l := 0))"

lemmas upds = fun_upd_same fun_upd_other fun_upd_upd

lemma mirrors_addLevel:
  assumes "mirrors ls u" and "finite_f64 p" and "0 < k" and "0 \<le> u p" and "fadd (FFin (u p)) (FFin k) = FFin (u p + k)"
  shows "mirrors (addLevel ls p (FFin k)) (u(p := u p + k))"
  using assms
proof (induction ls arbitrary: u)
  case Nil
  then show ?case by simp
next
  case (Cons l ls)
  show ?case
  proof (cases "bl_Price l = p")
    case True
    then show ?thesis using Cons.prems by (simp add: feq_iff upds del: fun_upd_apply)
  next
    case False
    then have u: "(u(bl_Price l := 0)) p = u p" by simp
    have "mirrors (addLevel ls p (FFin k)) ((u(bl_Price l := 0))(p := (u(bl_Price l := 0)) p + k))"
      by (rule Cons.IH) (use Cons.prems in \<open>simp_all only: u mirrors.simps\<close>)
    then show ?thesis using False Cons.prems fun_upd_twist [OF False, of u 0 "u p + k"]
      by (simp add: feq_iff upds u del: fun_upd_apply)
  qed
qed

lemma mirrors_deductLevel:
  assumes "mirrors ls u" and "finite_f64 p" and "0 < u p" and "fsub (FFin (u p)) (FFin k) = FFin (u p - k)" and "0 \<le> u p - k"
    and "fle (FFin (u p - k)) dustEpsilon \<longleftrightarrow> u p = k"
  shows "mirrors (deductLevel ls p (FFin k)) (u(p := u p - k))"
  using assms
proof (induction ls arbitrary: u)
  case Nil
  then show ?case by simp
next
  case (Cons l ls)
  show ?case
  proof (cases "bl_Price l = p")
    case True
    then show ?thesis using Cons.prems by (cases "u p = k") (simp_all add: feq_iff upds Let_def del: fsub_FFin fun_upd_apply)
  next
    case False
    then have u: "(u(bl_Price l := 0)) p = u p" by simp
    have "mirrors (deductLevel ls p (FFin k)) ((u(bl_Price l := 0))(p := (u(bl_Price l := 0)) p - k))"
      by (rule Cons.IH) (use Cons.prems in \<open>simp_all only: u mirrors.simps\<close>)
    then show ?thesis using False Cons.prems fun_upd_twist [OF False, of u 0 "u p - k"]
      by (simp add: feq_iff upds u del: fsub_FFin fun_upd_apply)
  qed
qed

lemma deductLevel_none: "mirrors ls u \<Longrightarrow> u p = 0 \<Longrightarrow> deductLevel ls p x = ls"
proof (induction ls arbitrary: u)
  case (Cons l ls)
  then have "bl_Price l \<noteq> p" by auto
  then show ?case using Cons.prems Cons.IH [of "u(bl_Price l := 0)"] by (simp add: feq_iff upds del: fun_upd_apply)
qed simp

subsection \<open>Exact arithmetic on a grid, and dust\<close>

text \<open>The grid is coarser than the dust that is swept away.\<close>

definition above_dust :: "nat \<Rightarrow> bool" where
  "above_dust g \<longleftrightarrow> flt dustEpsilon (FFin (2 ^ g))"

lemma dustEpsilon_nonneg: "fle f64_zero dustEpsilon"
proof -
  have "0 \<le> round53 \<bar>f64_one_units\<bar> (10 ^ 12)" by (rule round53_nonneg_gen) simp_all
  moreover have "0 < f64_one_units" by (rule one_units_pos)
  ultimately show ?thesis
    unfolding dustEpsilon_def f64_of_decimal_def mk_f64_def Let_def by (simp add: fle_def order_le_less del: power_numeral)
qed

lemma dust_grid:
  assumes "above_dust g" and "on_grid g (FFin k)"
  shows "fle (FFin k) dustEpsilon \<longleftrightarrow> k = 0"
proof -
  obtain d where d: "dustEpsilon = FFin d" "d < 2 ^ g" "0 \<le> d"
  proof (cases dustEpsilon)
    case (FFin d)
    have "d < 2 ^ g" using assms(1) unfolding above_dust_def FFin by simp
    moreover have "0 \<le> d" using dustEpsilon_nonneg unfolding FFin by (auto simp: fle_def)
    ultimately show thesis using that FFin by blast
  next
    case (FInf b)
    then show thesis using assms(1) dustEpsilon_nonneg unfolding above_dust_def FInf by (cases b) (simp_all add: fle_def)
  next
    case FNaN
    show thesis using dustEpsilon_nonneg unfolding FNaN by (simp add: fle_def)
  qed
  obtain j where j: "k = j * 2 ^ g" "0 \<le> j" using assms(2) by (elim on_gridE) auto
  have "j = 0 \<or> 2 ^ g \<le> k"
  proof (cases "j = 0")
    case False
    then have "1 * 2 ^ g \<le> j * 2 ^ g" using j(2) by (intro mult_right_mono) simp_all
    then show ?thesis using j by simp
  qed simp
  then have "k = 0 \<or> 2 ^ g \<le> k" using j(1) by fastforce
  then have "k = 0 \<or> d < k" using d(2) by linarith
  then show ?thesis unfolding d(1) using d(3) by (auto simp: fle_def)
qed

lemma on_grid_add:
  assumes "on_grid g (FFin (a + b))" and "0 < a + b"
  shows "fadd (FFin a) (FFin b) = FFin (a + b)"
  using on_grid_is_f64 [OF assms(1)] assms by (simp add: mk_f64_def)


subsection \<open>A match, seen by the market data\<close>

definition on_queue :: "nat \<Rightarrow> queue \<Rightarrow> bool" where
  "on_queue g q \<longleftrightarrow> (\<forall>(p, r) \<in> set q. finite_f64 p \<and> on_grid g (eo_Remaining r) \<and> positive (eo_Remaining r))"

definition gridded :: "nat \<Rightarrow> queue \<Rightarrow> bool" where
  "gridded g q \<longleftrightarrow> (\<forall>p. on_grid g (FFin (price_units q p)))"

lemma on_queueD:
  assumes "on_queue g ((p, r) # q)"
  obtains b where "eo_Remaining r = FFin b" and "on_grid g (FFin b)" and "0 < b" and "finite_f64 p" and "on_queue g q"
  using assms by (cases "eo_Remaining r") (auto simp: on_queue_def)

lemma price_units_nonneg: "on_queue g q \<Longrightarrow> 0 \<le> price_units q p"
proof (induction q)
  case (Cons x q)
  obtain p' r where x: "x = (p', r)" by force
  obtain b where "eo_Remaining r = FFin b" "0 < b" "on_queue g q" using Cons.prems unfolding x by (rule on_queueD)
  then show ?case using Cons.IH by (simp add: x)
qed simp

definition deducts :: "etrade list \<Rightarrow> book_level list \<Rightarrow> book_level list" where
  "deducts ts ls = fold (\<lambda>t ls. deductLevel ls (et_Price t) (et_Quantity t)) ts ls"

lemma deducts_simps [simp]:
  "deducts [] ls = ls" "deducts (t # ts) ls = deducts ts (deductLevel ls (et_Price t) (et_Quantity t))"
  by (simp_all add: deducts_def)

lemma gridded_tail:
  assumes "gridded g ((p, r) # q)" and "on_queue g ((p, r) # q)"
  shows "gridded g q"
proof -
  obtain b where b: "eo_Remaining r = FFin b" "on_grid g (FFin b)" "0 < b" "on_queue g q" using assms(2) by (rule on_queueD)
  have "on_grid g (FFin (price_units q p'))" for p'
  proof (cases "p' = p")
    case True
    have "on_grid g (FFin (b + price_units q p))" using assms(1) b(1) unfolding gridded_def by (auto dest: spec [of _ p])
    then have "on_grid g (FFin (b + price_units q p - b))"
      using on_grid_sub(2) [of g "b + price_units q p" b] b(2) price_units_nonneg [OF b(4), of p] by (simp del: on_grid.simps)
    then show ?thesis using True by simp
  next
    case False
    then show ?thesis using assms(1) unfolding gridded_def by (auto dest: spec [of _ p'])
  qed
  then show ?thesis by (simp add: gridded_def)
qed

text \<open>Deducting a trade from the level of its price, when \<open>a\<close> of it rest there.\<close>

lemma mirrors_trade:
  assumes dust: "above_dust g" and m: "mirrors ls u" and p: "finite_f64 p" and k: "0 < k" "k \<le> u p"
    and g: "on_grid g (FFin (u p))" "on_grid g (FFin k)"
  shows "mirrors (deductLevel ls p (FFin k)) (u(p := u p - k))"
proof -
  note s = on_grid_sub [OF g k(2)]
  have "fle (FFin (u p - k)) dustEpsilon \<longleftrightarrow> u p = k" using dust_grid [OF dust s(2)] by simp
  then show ?thesis using mirrors_deductLevel [OF m p _ s(1)] k by (simp del: fsub_FFin)
qed

lemma flat_match_mirrors:
  assumes qty: "\<And>sy inc r p q t. et_Quantity (tr sy inc r p q t) = q" and prc: "\<And>sy inc r p q t. et_Price (tr sy inc r p q t) = p"
    and dust: "above_dust g"
  shows "flat_match beyond tr sy now n inc q = (i, q', ts) \<Longrightarrow> on_queue g q \<Longrightarrow> gridded g q \<Longrightarrow> on_grid g (eo_Remaining inc) \<Longrightarrow>
    mirrors ls (price_units q) \<Longrightarrow>
    mirrors (deducts ts ls) (price_units q') \<and> on_queue g q' \<and> on_grid g (eo_Remaining i) \<and>
    f_units (eo_Remaining i) \<le> f_units (eo_Remaining inc) \<and> (\<forall>t \<in> set ts. et_Price t \<in> fst ` set q)"
proof (induction q arbitrary: n inc i q' ts ls)
  case Nil
  then show ?case by simp
next
  case (Cons x q)
  obtain p r where x: "x = (p, r)" by force
  obtain b where b: "eo_Remaining r = FFin b" "on_grid g (FFin b)" "0 < b" "finite_f64 p" "on_queue g q"
    using Cons.prems(2) unfolding x by (rule on_queueD)
  obtain a where a: "eo_Remaining inc = FFin a" using Cons.prems(4) by (cases "eo_Remaining inc") auto
  show ?case
  proof (cases "\<not> positive (eo_Remaining inc) \<or> beyond (eo_Price inc) p")
    case True
    then have "i = inc" "q' = x # q" "ts = []" using Cons.prems(1) by (auto simp: x flat_match.simps(2))
    then show ?thesis using Cons.prems by simp
  next
    case False
    let ?u = "price_units (x # q)"
    have up: "?u p = b + price_units q p" using b(1) by (simp add: x)
    have nn: "0 \<le> price_units q p" using b(5) by (rule price_units_nonneg)
    have gu: "on_grid g (FFin (?u p))" using Cons.prems(3) by (simp add: gridded_def)
    have ga: "on_grid g (FFin a)" using Cons.prems(4) a by simp
    have pos: "0 < a" using False a by simp
    show ?thesis
    proof (cases "a < b")
      case True
      have s: "fsub (FFin b) (FFin a) = FFin (b - a)" "on_grid g (FFin (b - a))" using on_grid_sub [OF b(2) ga] True by simp_all
      have eq: "i = take_qty inc (FFin a)" "q' = (p, take_qty r (FFin a)) # q" "ts = [tr sy inc r p (FFin a) (now n)]"
        using False True Cons.prems(1) s(1) b(1) a by (auto simp: x flat_match.simps(2) Let_def fmin_def simp del: fsub_FFin)
      have "mirrors (deductLevel ls p (FFin a)) (?u(p := ?u p - a))"
        using mirrors_trade [OF dust Cons.prems(5) b(4) pos _ gu ga] up nn True by simp
      moreover have "?u(p := ?u p - a) = price_units q'"
        using s(1) b(1) by (auto simp: eq x fun_eq_iff simp del: fsub_FFin)
      ultimately have "mirrors (deductLevel ls p (FFin a)) (price_units q')" by (simp only:)
      moreover have "on_queue g q'" using b(4,5) s True by (simp add: eq on_queue_def b(1) del: fsub_FFin on_grid.simps)
      moreover have "fsub (FFin a) (FFin a) = FFin 0" by simp
      ultimately show ?thesis using a pos by (simp add: eq qty prc x f64_overflow_def del: fsub_FFin price_units_simps)
    next
      case ge: False
      have s: "fsub (FFin a) (FFin b) = FFin (a - b)" "on_grid g (FFin (a - b))" using on_grid_sub [OF ga b(2)] ge by simp_all
      have z: "fsub (FFin b) (FFin b) = FFin 0" by simp
      obtain i1 q1 ts1 where rec: "flat_match beyond tr sy now (Suc n) (take_qty inc (FFin b)) q = (i1, q1, ts1)" by (metis prod_cases3)
      have eq: "i = i1" "q' = q1" "ts = tr sy inc r p (FFin b) (now n) # ts1"
        using False ge rec Cons.prems(1) z b(1) a by (auto simp: x flat_match.simps(2) Let_def fmin_def simp del: fsub_FFin)
      have "mirrors (deductLevel ls p (FFin b)) (?u(p := ?u p - b))"
        using mirrors_trade [OF dust Cons.prems(5) b(4) b(3) _ gu b(2)] up nn by simp
      moreover have "?u(p := ?u p - b) = price_units q" using up by (auto simp: x fun_eq_iff)
      ultimately have "mirrors (deductLevel ls p (FFin b)) (price_units q)" by simp
      moreover have "on_grid g (eo_Remaining (take_qty inc (FFin b)))" using s a by (simp del: fsub_FFin on_grid.simps)
      ultimately have "mirrors (deducts ts1 (deductLevel ls p (FFin b))) (price_units q1) \<and> on_queue g q1 \<and> on_grid g (eo_Remaining i1) \<and>
          f_units (eo_Remaining i1) \<le> f_units (eo_Remaining (take_qty inc (FFin b))) \<and> (\<forall>t \<in> set ts1. et_Price t \<in> fst ` set q)"
        using Cons.IH [OF rec b(5) gridded_tail [OF Cons.prems(3) [unfolded x] Cons.prems(2) [unfolded x]]] by blast
      then show ?thesis using s(1) a b(3) by (auto simp: eq qty prc x simp del: fsub_FFin)
    qed
  qed
qed


subsection \<open>The view of a market mirrors its book\<close>

definition md_mirrors :: "market_data \<Rightarrow> order_book \<Rightarrow> bool" where
  "md_mirrors s ob \<longleftrightarrow>
     mirrors (bv_Bids (bookFor s (ob_Symbol ob))) (price_units (flatten (ob_Bids ob))) \<and>
     mirrors (bv_Asks (bookFor s (ob_Symbol ob))) (price_units (flatten (ob_Asks ob)))"

text \<open>Room for \<open>k\<close> more units: all that rests, and \<open>k\<close>, is an exact float64 on the grid.\<close>

definition room :: "nat \<Rightarrow> order_book \<Rightarrow> int \<Rightarrow> bool" where
  "room g ob k \<longleftrightarrow> book_on_grid g ob \<and> book_units ob + k \<le> 9007199254740992 * 2 ^ g \<and> book_units ob + k < f64_overflow"

lemma price_le_queue: "on_queue g q \<Longrightarrow> price_units q p \<le> queue_units q"
proof (induction q)
  case (Cons x q)
  obtain p' r where x: "x = (p', r)" by force
  obtain b where "eo_Remaining r = FFin b" "0 < b" "on_queue g q" using Cons.prems unfolding x by (rule on_queueD)
  then show ?case using Cons.IH by (simp add: x)
qed simp

lemma price_units_mod: "on_queue g q \<Longrightarrow> price_units q p mod 2 ^ g = 0"
proof (induction q)
  case (Cons x q)
  obtain p' r where x: "x = (p', r)" by force
  obtain b where b: "eo_Remaining r = FFin b" "on_grid g (FFin b)" "on_queue g q" using Cons.prems unfolding x by (rule on_queueD)
  then have "b mod 2 ^ g = 0" "price_units q p mod 2 ^ g = 0" using Cons.IH by simp_all
  then have "(b + price_units q p) mod 2 ^ g = 0" by (metis add.left_neutral mod_add_eq mod_0)
  then show ?case using b(1) \<open>price_units q p mod 2 ^ g = 0\<close> by (simp add: x)
qed simp

lemma book_queues:
  assumes "sides_ok ob" and "book_on_grid g ob"
  shows "on_queue g (flatten (ob_Bids ob))" and "on_queue g (flatten (ob_Asks ob))"
proof -
  have "finite_f64 p \<and> on_grid g (eo_Remaining r) \<and> positive (eo_Remaining r)"
    if "(p, r) \<in> set (flatten ls)" "\<forall>l \<in> set ls. level_ok bid l" "set (flatten ls) \<subseteq> set (flatten (ob_Bids ob) @ flatten (ob_Asks ob))" for p r ls bid
    using level_flatten [OF that(2,1)] that(1,3) assms(2) unfolding book_on_grid_def resting_ok_def by blast
  from this [of _ _ "ob_Bids ob" True] this [of _ _ "ob_Asks ob" False]
  show "on_queue g (flatten (ob_Bids ob))" "on_queue g (flatten (ob_Asks ob))"
    using assms(1) by (auto simp: on_queue_def sides_ok_def)
qed

lemma queue_units_nonneg: "on_queue g q \<Longrightarrow> 0 \<le> queue_units q"
  using price_units_nonneg [of g q] price_le_queue [of g q] order.trans by blast

lemma room_grid:
  assumes "sides_ok ob" and "room g ob k" and "0 \<le> k" and "k mod 2 ^ g = 0" and "q = flatten (ob_Bids ob) \<or> q = flatten (ob_Asks ob)"
    and "0 \<le> j" and "j \<le> k" and "j mod 2 ^ g = 0"
  shows "on_grid g (FFin (price_units q p + j))"
proof -
  note b = book_queues [OF assms(1) conjunct1 [OF assms(2) [unfolded room_def]]]
  have q: "on_queue g q" using b assms(5) by auto
  have "queue_units q \<le> book_units ob" using assms(5) queue_units_nonneg [OF b(1)] queue_units_nonneg [OF b(2)] by (auto simp: book_units_def)
  then have "price_units q p + j \<le> book_units ob + k" using price_le_queue [OF q, of p] assms(7) by linarith
  moreover have "(price_units q p + j) mod 2 ^ g = 0" using price_units_mod [OF q, of p] assms(8) by (metis add.left_neutral mod_add_eq mod_0)
  ultimately show ?thesis using assms(2,6) price_units_nonneg [OF q, of p] by (auto simp: room_def)
qed

text \<open>Prices of the two sides differ, so a trade leaves the taker's side alone.\<close>

lemma flatten_prices: "fst ` set (flatten ls) \<subseteq> set (map pl_Price ls)"
  by (induction ls) auto

lemma uncrossed_price:
  assumes "uncrossed ob"
  shows "p \<in> fst ` set (flatten (ob_Asks ob)) \<Longrightarrow> price_units (flatten (ob_Bids ob)) p = 0"
    and "p \<in> fst ` set (flatten (ob_Bids ob)) \<Longrightarrow> price_units (flatten (ob_Asks ob)) p = 0"
  using assms flatten_prices [of "ob_Asks ob"] flatten_prices [of "ob_Bids ob"]
  unfolding uncrossed_prices by (intro price_units_none; fastforce)+

lemma deducts_none:
  "mirrors ls u \<Longrightarrow> \<forall>t \<in> set ts. u (et_Price t) = 0 \<Longrightarrow> deducts ts ls = ls"
  by (induction ts) (auto simp: deductLevel_none)

lemma bookFor_upd [simp]: "bookFor (s\<lparr>md_books := (md_books s)(sy \<mapsto> b)\<rparr>) sy = b"
  by (simp add: bookFor_def)

lemma bookFor_trades [simp]: "bookFor (s\<lparr>md_trades := t\<rparr>) sy = bookFor s sy"
  by (simp add: bookFor_def)

lemma fold_trades:
  assumes "\<forall>t \<in> set ts. et_Symbol t = sy"
  shows "bv_Bids (bookFor (fold md_event (trade_events k ts) s) sy) = deducts ts (bv_Bids (bookFor s sy)) \<and>
    bv_Asks (bookFor (fold md_event (trade_events k ts) s) sy) = deducts ts (bv_Asks (bookFor s sy))"
  using assms
proof (induction ts arbitrary: k s)
  case (Cons t ts)
  then show ?case by (simp add: md_event_def md_OnTradeMatched_def Let_def on_side_def bookFor_def)
qed simp


lemma flat_match_fields: "flat_match beyond tr sy now n inc q = (i, q', ts) \<Longrightarrow> \<exists>x. i = inc\<lparr>eo_Remaining := x\<rparr>"
proof (induction q arbitrary: n inc i q' ts)
  case Nil
  then show ?case by (intro exI [of _ "eo_Remaining inc"]) simp
next
  case (Cons x q)
  obtain p r where x: "x = (p, r)" by force
  let ?k = "fmin (eo_Remaining inc) (eo_Remaining r)"
  obtain i1 q1 ts1 where rec: "flat_match beyond tr sy now (Suc n) (take_qty inc ?k) q = (i1, q1, ts1)" by (metis prod_cases3)
  have "i = inc \<or> i = take_qty inc ?k \<or> i = i1" using Cons.prems rec by (auto simp: x flat_match.simps(2) Let_def split: if_splits)
  moreover have "inc = inc\<lparr>eo_Remaining := eo_Remaining inc\<rparr>" by simp
  moreover have "\<exists>y. take_qty inc ?k = inc\<lparr>eo_Remaining := y\<rparr>" by (auto simp: take_qty_def)
  moreover have "\<exists>y. i1 = inc\<lparr>eo_Remaining := y\<rparr>" using Cons.IH [OF rec] by (auto simp: take_qty_def)
  ultimately show ?case by metis
qed

lemma md_place:
  assumes ok: "book_ok ob" and o1: "order_ok o1" and sy: "eo_Symbol o1 = ob_Symbol ob"
    and g: "room g ob (f_units (eo_Remaining o1))" "on_grid g (eo_Remaining o1)" "above_dust g" and m: "md_mirrors s ob"
    and h: "handlePlace now t ob n (Some o1) = (ob', n', es)"
  shows "md_mirrors (fold md_event es s) ob'"
proof -
  obtain ts o2 where mt: "Match now ob o1 = (ts, o2, ob')"
    and es: "es = trade_events n ts @ (if positive (eo_Remaining o2)
            then [OrderRestedEvent \<lparr>or_OrderID = eo_ID o2, or_UserID = eo_UserID o2, or_Symbol = eo_Symbol o2,
                    or_Side = eo_Side o2, or_Price = eo_Price o2, or_Remaining = eo_Remaining o2, or_Timestamp = t\<rparr>]
            else [])"
    using h by (auto simp: handlePlace_def Let_def split: prod.splits)
  have so: "sides_ok ob" "uncrossed ob" using ok by (simp_all add: book_ok_def)
  obtain a where a: "eo_Remaining o1 = FFin a" "0 \<le> a" "a mod 2 ^ g = 0" using g(2) by (cases "eo_Remaining o1") auto
  note rg = room_grid [OF so(1) g(1) [unfolded a(1) f_units.simps] a(2,3)]
  note bq = book_queues [OF so(1) conjunct1 [OF g(1) [unfolded room_def]]]
  let ?b = "price_units (flatten (ob_Bids ob))" and ?a = "price_units (flatten (ob_Asks ob))"
  let ?s1 = "fold md_event (trade_events n ts) s"
  have sym: "ob_Symbol ob' = ob_Symbol ob" using Match_ok(3) [OF so(1) o1 mt] .
  have "\<forall>t \<in> set ts. et_Symbol t = ob_Symbol ob" by (rule Match_symbols [OF so(1) o1 mt])
  note ft = fold_trades [OF this, of n s]
  have mb: "mirrors (bv_Bids (bookFor s (ob_Symbol ob))) ?b" and ma: "mirrors (bv_Asks (bookFor s (ob_Symbol ob))) ?a"
    using m by (simp_all add: md_mirrors_def)
  have gb: "gridded g (flatten (ob_Bids ob))" and ga: "gridded g (flatten (ob_Asks ob))"
    using rg [of _ 0] a(2) by (simp_all add: gridded_def del: on_grid.simps)
  have qp: "et_Quantity (trade_of side sy inc r p q t) = q" "et_Price (trade_of side sy inc r p q t) = p" for side sy inc r p q t
    by (simp_all add: trade_of_def mk_trade_def trade_of_sell_def)
  note fm = flat_match_mirrors [of "trade_of (eo_Side o1)", OF qp g(3) Match_flat(1) [OF so(1) o1 mt] _ _ g(2)]
  have o2: "eo_Side o2 = eo_Side o1" "eo_Price o2 = eo_Price o1" "eo_Symbol o2 = eo_Symbol o1"
    using flat_match_fields [OF Match_flat(1) [OF so(1) o1 mt]] by auto
  let ?k = "f_units (eo_Remaining o2)" and ?p = "eo_Price o1"
  have fin: "finite_f64 ?p" using o1 by (simp add: order_ok_def)
  have add: "mirrors (addLevel ls ?p (eo_Remaining o2)) ((price_units q)(?p := price_units q ?p + ?k))"
    if h: "mirrors ls (price_units q)" "q = flatten (ob_Bids ob) \<or> q = flatten (ob_Asks ob)" "positive (eo_Remaining o2)" "on_grid g (eo_Remaining o2)" "?k \<le> a" for ls q
  proof -
    obtain k where k: "eo_Remaining o2 = FFin k" "0 < k" "k mod 2 ^ g = 0" using h(3,4) by (cases "eo_Remaining o2") auto
    have nn: "0 \<le> price_units q ?p" using bq h(2) price_units_nonneg by blast
    have "on_grid g (FFin (price_units q ?p + k))" using rg [OF h(2), of k ?p] k h(5) by simp
    then have "fadd (FFin (price_units q ?p)) (FFin k) = FFin (price_units q ?p + k)" using k(2) nn by (intro on_grid_add [of g]) simp_all
    then show ?thesis using mirrors_addLevel [OF h(1) fin k(2) nn] k(1) by simp
  qed
  show ?thesis
  proof (cases "eo_Side o1 = SideBuy")
    case True
    then have q: "opposite_queue o1 = (\<lambda>ob. flatten (ob_Asks ob))" "own_queue o1 = (\<lambda>ob. flatten (ob_Bids ob))"
      "better_price (eo_Side o1) = better_bid" by (simp_all add: side_defs fun_eq_iff)
    note f = fm [unfolded q, OF bq(2) ga ma]
    have bids: "bv_Bids (bookFor ?s1 (ob_Symbol ob)) = bv_Bids (bookFor s (ob_Symbol ob))"
      using ft deducts_none [OF mb] f uncrossed_price(1) [OF so(2)] by auto
    have asks: "mirrors (bv_Asks (bookFor ?s1 (ob_Symbol ob))) (price_units (flatten (ob_Asks ob')))" using ft f by simp
    have own: "flatten (ob_Bids ob') = (if positive (eo_Remaining o2) then queue_insert better_bid o2 (flatten (ob_Bids ob)) else flatten (ob_Bids ob))"
      using Match_flat(2) [OF so(1) o1 mt] by (simp add: q)
    show ?thesis
    proof (cases "positive (eo_Remaining o2)")
      case pos: True
      then have "mirrors (addLevel (bv_Bids (bookFor s (ob_Symbol ob))) ?p (eo_Remaining o2)) (price_units (flatten (ob_Bids ob')))"
        using add [OF mb _ pos] f a(1) by (simp add: own price_units_insert o2)
      then show ?thesis using asks bids pos True sy
        by (simp add: md_mirrors_def es sym md_event_def OnOrderRested_def on_side_def view_side_def o2 SideBuy_def)
    qed (use asks bids own mb in \<open>simp add: md_mirrors_def es sym\<close>)
  next
    case False
    then have q: "opposite_queue o1 = (\<lambda>ob. flatten (ob_Bids ob))" "own_queue o1 = (\<lambda>ob. flatten (ob_Asks ob))"
      "better_price (eo_Side o1) = better_ask" by (simp_all add: side_defs fun_eq_iff)
    note f = fm [unfolded q, OF bq(1) gb mb]
    have asks: "bv_Asks (bookFor ?s1 (ob_Symbol ob)) = bv_Asks (bookFor s (ob_Symbol ob))"
      using ft deducts_none [OF ma] f uncrossed_price(2) [OF so(2)] by auto
    have bids: "mirrors (bv_Bids (bookFor ?s1 (ob_Symbol ob))) (price_units (flatten (ob_Bids ob')))" using ft f by simp
    have own: "flatten (ob_Asks ob') = (if positive (eo_Remaining o2) then queue_insert better_ask o2 (flatten (ob_Asks ob)) else flatten (ob_Asks ob))"
      using Match_flat(2) [OF so(1) o1 mt] by (simp add: q)
    show ?thesis
    proof (cases "positive (eo_Remaining o2)")
      case pos: True
      then have "mirrors (addLevel (bv_Asks (bookFor s (ob_Symbol ob))) ?p (eo_Remaining o2)) (price_units (flatten (ob_Asks ob')))"
        using add [OF ma _ pos] f a(1) by (simp add: own price_units_insert o2)
      then show ?thesis using asks bids pos False sy
        by (simp add: md_mirrors_def es sym md_event_def OnOrderRested_def on_side_def view_side_def o2 SideBuy_def)
    qed (use asks bids own ma in \<open>simp add: md_mirrors_def es sym\<close>)
  qed
qed

lemma md_cancel:
  assumes ok: "book_ok ob" and sy: "ci_Symbol c = ob_Symbol ob"
    and g: "room g ob 0" "above_dust g" and m: "md_mirrors s ob" and h: "handleCancel t ob (Some c) = (ob', es)"
  shows "md_mirrors (fold md_event es s) ob'"
proof -
  obtain res where cn: "Cancel ob (ci_OrderID c) = (res, ob')"
    using h by (auto simp: handleCancel_def split: prod.splits option.splits)
  have so: "sides_ok ob" using ok by (simp add: book_ok_def)
  have sym: "ob_Symbol ob' = ob_Symbol ob" using Cancel_ok(3) [OF so cn] .
  note bq = book_queues [OF so conjunct1 [OF g(1) [unfolded room_def]]]
  have drop: "mirrors (deductLevel ls p rem) (price_units q') \<and> \<not> fle rem f64_zero"
    if d: "queue_drop oid q q' p rem" and ls: "mirrors ls (price_units q)" and q: "on_queue g q" "q = flatten (ob_Bids ob) \<or> q = flatten (ob_Asks ob)"
    for oid ls q q' p rem
  proof -
    obtain xs r ys where e: "q = xs @ (p, r) # ys" "q' = xs @ ys" "eo_Remaining r = rem" using d by (auto simp: queue_drop_def)
    obtain k where k: "rem = FFin k" "0 < k" "on_grid g (FFin k)" "finite_f64 p"
      using q(1) e(1,3) by (cases rem) (auto simp: on_queue_def)
    have qx: "on_queue g xs" "on_queue g ys" using q(1) e(1) by (auto simp: on_queue_def)
    have le: "k \<le> price_units q p" using price_units_nonneg [OF qx(1), of p] price_units_nonneg [OF qx(2), of p] e k(1) by simp
    have gp: "on_grid g (FFin (price_units q p))" using room_grid [OF so g(1) _ _ q(2), of 0 p] by simp
    have "mirrors (deductLevel ls p (FFin k)) ((price_units q)(p := price_units q p - k))"
      using mirrors_trade [OF g(2) ls k(4,2) le gp k(3)] .
    moreover have "(price_units q)(p := price_units q p - k) = price_units q'" using e k(1) by (auto simp: fun_eq_iff)
    ultimately show ?thesis using k by (simp add: fle_def)
  qed
  show ?thesis
  proof (cases res)
    case None
    then show ?thesis using Cancel_removed [OF ok cn] h cn m by (simp add: handleCancel_def)
  next
    case (Some cr)
    have es: "es = [OrderCancelledEvent \<lparr>oc_OrderID = ci_OrderID c, oc_Symbol = ci_Symbol c, oc_Side = cr_Side cr,
        oc_Price = cr_Price cr, oc_Remaining = cr_Remaining cr, oc_Timestamp = t\<rparr>]"
      using h cn Some by (simp add: handleCancel_def)
    have mb: "mirrors (bv_Bids (bookFor s (ob_Symbol ob))) (price_units (flatten (ob_Bids ob)))"
      and ma: "mirrors (bv_Asks (bookFor s (ob_Symbol ob))) (price_units (flatten (ob_Asks ob)))" using m by (simp_all add: md_mirrors_def)
    note rem = Cancel_removed [OF ok cn, unfolded Some option.case, THEN conjunct2]
    show ?thesis
    proof (cases "ci_OrderID c \<in> set (queue_ids (flatten (ob_Bids ob)))")
      case True
      then have r: "cr_Side cr = SideBuy" "ob_Asks ob' = ob_Asks ob"
        "queue_drop (ci_OrderID c) (flatten (ob_Bids ob)) (flatten (ob_Bids ob')) (cr_Price cr) (cr_Remaining cr)" using rem by auto
      then show ?thesis using drop [OF r(3) mb bq(1)] ma sy
        by (simp add: md_mirrors_def es sym md_event_def OnOrderCancelled_def on_side_def view_side_def SideBuy_def)
    next
      case False
      then have r: "cr_Side cr = SideSell" "ob_Bids ob' = ob_Bids ob"
        "queue_drop (ci_OrderID c) (flatten (ob_Asks ob)) (flatten (ob_Asks ob')) (cr_Price cr) (cr_Remaining cr)" using rem by auto
      then show ?thesis using drop [OF r(3) ma bq(2)] mb sy
        by (simp add: md_mirrors_def es sym md_event_def OnOrderCancelled_def on_side_def view_side_def SideSell_def)
    qed
  qed
qed

end
