(* ===== verification/Marketdata_Theorems.thy ===== *)
theory Marketdata_Theorems
  imports Marketdata_Properties
begin

text \<open>
  Whole runs: the worker of a market handles one command after the other, the market data service follows
  its events. The view stays a mirror of the book when the events arrive in the order they were published;
  the bus, which starts a goroutine per event, does not promise that.
\<close>

subsection \<open>A run of the worker of one market\<close>

type_synonym tick = "(nat \<Rightarrow> gotime) \<times> gotime \<times> command"

fun shard_run :: "order_book \<Rightarrow> nat \<Rightarrow> tick list \<Rightarrow> order_book \<times> nat \<times> event list" where
  "shard_run ob n [] = (ob, n, [])"
| "shard_run ob n ((now, t, cmd) # cs) =
     (case handle now t ob n cmd of (ob', n', es) \<Rightarrow>
        case shard_run ob' n' cs of (ob'', n'', es') \<Rightarrow> (ob'', n'', es @ es'))"

text \<open>What a command brings to the book, in units of the last place of float64.\<close>

definition cmd_units :: "command \<Rightarrow> int" where
  "cmd_units cmd = (if cmd_Kind cmd = CommandPlaceOrder then (case cmd_Order cmd of Some o1 \<Rightarrow> f_units (eo_Remaining o1) | None \<Rightarrow> 0) else 0)"

definition cmd_on_grid :: "nat \<Rightarrow> command \<Rightarrow> bool" where
  "cmd_on_grid g cmd \<longleftrightarrow> (case cmd_Order cmd of Some o1 \<Rightarrow> on_grid g (eo_Remaining o1) | None \<Rightarrow> True)"

definition run_units :: "tick list \<Rightarrow> int" where
  "run_units cs = sum_list (map (\<lambda>(now, t, cmd). cmd_units cmd) cs)"

lemma run_units_simps [simp]: "run_units [] = 0" "run_units ((now, t, cmd) # cs) = cmd_units cmd + run_units cs"
  by (simp_all add: run_units_def)

lemma cmd_units_nonneg: "cmd_on_grid g cmd \<Longrightarrow> 0 \<le> cmd_units cmd"
  by (cases "cmd_Order cmd") (auto simp: cmd_units_def cmd_on_grid_def elim: on_gridE)

lemma run_units_nonneg: "\<forall>(now, t, cmd) \<in> set cs. cmd_on_grid g cmd \<Longrightarrow> 0 \<le> run_units cs"
  by (induction cs) (auto dest: cmd_units_nonneg)

subsection \<open>The room left\<close>

lemma book_on_grid_queues:
  "book_on_grid g ob \<longleftrightarrow> (\<forall>(p, r) \<in> set (flatten (ob_Bids ob)). on_grid g (eo_Remaining r)) \<and> (\<forall>(p, r) \<in> set (flatten (ob_Asks ob)). on_grid g (eo_Remaining r))"
  unfolding book_on_grid_def by auto

lemma on_queue_grid: "on_queue g q \<Longrightarrow> \<forall>(p, r) \<in> set q. on_grid g (eo_Remaining r)"
  by (auto simp: on_queue_def)

lemma set_queue_insert: "set (queue_insert better o1 q) \<subseteq> insert (eo_Price o1, o1) (set q)"
  by (auto simp: queue_insert_def Let_def dest: set_takeWhileD set_dropWhileD)

lemma place_room:
  assumes ok: "book_ok ob" and o1: "order_ok o1" and g: "room g ob (f_units (eo_Remaining o1) + k)" "on_grid g (eo_Remaining o1)" "above_dust g"
    and k: "0 \<le> k" and m: "md_mirrors s ob" and h: "handlePlace now t ob n (Some o1) = (ob', n', es)"
  shows "room g ob' k"
proof -
  obtain ts o2 where mt: "Match now ob o1 = (ts, o2, ob')" using h by (auto simp: handlePlace_def Let_def split: prod.splits)
  have so: "sides_ok ob" using ok by (simp add: book_ok_def)
  have bg: "book_on_grid g ob" using g(1) by (simp add: room_def)
  note bq = book_queues [OF so bg]
  obtain a where a: "eo_Remaining o1 = FFin a" "0 \<le> a" using g(2) by (cases "eo_Remaining o1") auto
  have gr: "gridded g q" if "q = flatten (ob_Bids ob) \<or> q = flatten (ob_Asks ob)" for q
  proof -
    have "room g ob 0" using g(1) a k by (auto simp: room_def)
    then show ?thesis using room_grid [OF so _ _ _ that, of g 0 0] by (simp add: gridded_def del: on_grid.simps)
  qed
  have qp: "et_Quantity (trade_of side sy inc r p q t) = q" "et_Price (trade_of side sy inc r p q t) = p" for side sy inc r p q t
    by (simp_all add: trade_of_def mk_trade_def trade_of_sell_def)
  have opp: "opposite_queue o1 ob = flatten (ob_Bids ob) \<or> opposite_queue o1 ob = flatten (ob_Asks ob)" by (auto simp: side_defs)
  have "on_queue g (opposite_queue o1 ob)" using opp bq by auto
  moreover obtain ls where "mirrors ls (price_units (opposite_queue o1 ob))" using opp m unfolding md_mirrors_def by metis
  ultimately have f: "on_queue g (opposite_queue o1 ob')" "on_grid g (eo_Remaining o2)" "f_units (eo_Remaining o2) \<le> f_units (eo_Remaining o1)"
    using flat_match_mirrors [of "trade_of (eo_Side o1)", OF qp g(3) Match_flat(1) [OF so o1 mt] _ gr [OF opp] g(2)] by blast+
  have "set (own_queue o1 ob') \<subseteq> insert (eo_Price o2, o2) (set (own_queue o1 ob))"
    using Match_flat(2) [OF so o1 mt] set_queue_insert [of "better_price (eo_Side o1)" o2 "own_queue o1 ob"] by (auto split: if_splits)
  moreover have "\<forall>(p, r) \<in> set (own_queue o1 ob). on_grid g (eo_Remaining r)" using bq on_queue_grid by (auto simp: side_defs)
  ultimately have "\<forall>(p, r) \<in> set (own_queue o1 ob'). on_grid g (eo_Remaining r)" using f(2) by fastforce
  then have "book_on_grid g ob'" using on_queue_grid [OF f(1)] by (cases "eo_Side o1 = SideBuy") (simp_all add: book_on_grid_queues side_defs)
  moreover have "book_units ob' \<le> book_units ob + f_units (eo_Remaining o1)" using Match_units [OF so o1 mt bg g(2)] f(3) by linarith
  ultimately show ?thesis using g(1) by (auto simp: room_def)
qed

lemma cancel_room:
  assumes ok: "book_ok ob" and g: "room g ob k" and h: "handleCancel t ob (Some c) = (ob', es)"
  shows "room g ob' k"
proof -
  obtain res where cn: "Cancel ob (ci_OrderID c) = (res, ob')" using h by (auto simp: handleCancel_def split: prod.splits option.splits)
  have so: "sides_ok ob" using ok by (simp add: book_ok_def)
  have bg: "book_on_grid g ob" using g by (simp add: room_def)
  note bq = book_queues [OF so bg]
  have drop: "queue_units q' \<le> queue_units q \<and> (\<forall>(p, r) \<in> set q'. on_grid g (eo_Remaining r))"
    if d: "queue_drop oid q q' p rem" "on_queue g q" for oid q q' p rem
  proof
    obtain xs r ys where e: "q = xs @ (p, r) # ys" "q' = xs @ ys" using d(1) unfolding queue_drop_def by blast
    have "0 \<le> f_units (eo_Remaining r)" using d(2) by (auto simp: e(1) on_queue_def elim!: on_gridE)
    then show "queue_units q' \<le> queue_units q" by (simp add: e)
    have "on_queue g q'" using d(2) by (simp add: e on_queue_def)
    then show "\<forall>(p, r) \<in> set q'. on_grid g (eo_Remaining r)" by (rule on_queue_grid)
  qed
  show ?thesis
  proof (cases res)
    case None
    then show ?thesis using Cancel_removed [OF ok cn] g by simp
  next
    case (Some cr)
    note rem = Cancel_removed [OF ok cn, unfolded Some option.case, THEN conjunct2]
    have "book_on_grid g ob' \<and> book_units ob' \<le> book_units ob"
    proof (cases "ci_OrderID c \<in> set (queue_ids (flatten (ob_Bids ob)))")
      case True
      then have r: "ob_Asks ob' = ob_Asks ob"
        "queue_drop (ci_OrderID c) (flatten (ob_Bids ob)) (flatten (ob_Bids ob')) (cr_Price cr) (cr_Remaining cr)" using rem by auto
      show ?thesis using drop [OF r(2) bq(1)] r(1) bg by (simp add: book_on_grid_queues book_units_def)
    next
      case False
      then have r: "ob_Bids ob' = ob_Bids ob"
        "queue_drop (ci_OrderID c) (flatten (ob_Asks ob)) (flatten (ob_Asks ob')) (cr_Price cr) (cr_Remaining cr)" using rem by auto
      show ?thesis using drop [OF r(2) bq(2)] r(1) bg by (simp add: book_on_grid_queues book_units_def)
    qed
    then show ?thesis using g by (auto simp: room_def)
  qed
qed

text \<open>A command whose order, if any, is one the matching theorems are about.\<close>

fun command_ok :: "command \<Rightarrow> bool" where
  "command_ok cmd = (case cmd_Order cmd of Some o1 \<Rightarrow> order_ok o1 | None \<Rightarrow> True)"

lemma command_ok_finite: "command_ok cmd \<Longrightarrow> finite_command cmd"
  by (auto simp: order_ok_def incoming_ok_def finite_order_def split: option.splits)

lemma handle_mirrors:
  assumes ok: "book_ok ob" and cmd: "command_ok cmd" "commandSymbol cmd = ob_Symbol ob" "cmd_on_grid g cmd"
    and g: "room g ob (cmd_units cmd + k)" "0 \<le> k" "above_dust g" and m: "md_mirrors s ob"
    and h: "handle now t ob n cmd = (ob', n', es)"
  shows "md_mirrors (fold md_event es s) ob' \<and> room g ob' k"
proof -
  consider (place) o1 where "cmd_Kind cmd = CommandPlaceOrder" "cmd_Order cmd = Some o1"
    | (cancel) c where "cmd_Kind cmd = CommandCancelOrder" "cmd_Cancel cmd = Some c"
    | (none) "cmd_units cmd = 0" "ob' = ob" "es = []"
    using h by (cases "cmd_Kind cmd = CommandPlaceOrder"; cases "cmd_Kind cmd = CommandCancelOrder"; cases "cmd_Order cmd"; cases "cmd_Cancel cmd")
      (auto simp: handle_def handlePlace_def handleCancel_def cmd_units_def CommandPlaceOrder_def CommandCancelOrder_def)
  then show ?thesis
  proof cases
    case place
    then have o1: "order_ok o1" "eo_Symbol o1 = ob_Symbol ob" "on_grid g (eo_Remaining o1)" "cmd_units cmd = f_units (eo_Remaining o1)"
      using cmd by (simp_all add: commandSymbol_def cmd_on_grid_def cmd_units_def)
    have hp: "handlePlace now t ob n (Some o1) = (ob', n', es)" using h place by (simp add: handle_def)
    have "room g ob (f_units (eo_Remaining o1))" using g(1,2) o1(4) by (auto simp: room_def)
    then show ?thesis using md_place [OF ok o1(1,2) _ o1(3) g(3) m hp] place_room [OF ok o1(1) g(1) [unfolded o1(4)] o1(3) g(3,2) m hp] by blast
  next
    case cancel
    have ne: "cmd_Kind cmd \<noteq> CommandPlaceOrder" using cancel(1) by (simp add: CommandPlaceOrder_def CommandCancelOrder_def)
    then have c: "ci_Symbol c = ob_Symbol ob" "cmd_units cmd = 0" using cancel cmd(2) by (simp_all add: commandSymbol_def cmd_units_def)
    have hc: "handleCancel t ob (Some c) = (ob', es)" using h cancel ne by (simp add: handle_def split: prod.splits)
    have g0: "room g ob k" "room g ob 0" using g(1,2) c(2) by (auto simp: room_def)
    show ?thesis using md_cancel [OF ok c(1) g0(2) g(3) m hc] cancel_room [OF ok g0(1) hc] by blast
  next
    case none
    then show ?thesis using m g by simp
  qed
qed

definition ticks_ok :: "nat \<Rightarrow> string \<Rightarrow> tick list \<Rightarrow> bool" where
  "ticks_ok g sy cs \<longleftrightarrow> (\<forall>(now, t, cmd) \<in> set cs. command_ok cmd \<and> commandSymbol cmd = sy \<and> cmd_on_grid g cmd)"

lemma shard_run_mirrors:
  "shard_run ob n cs = (ob', n', es) \<Longrightarrow> above_dust g \<Longrightarrow> book_ok ob \<Longrightarrow> ticks_ok g (ob_Symbol ob) cs \<Longrightarrow> room g ob (run_units cs) \<Longrightarrow>
   md_mirrors s ob \<Longrightarrow> md_mirrors (fold md_event es s) ob'"
proof (induction cs arbitrary: ob n es s)
  case (Cons c cs)
  obtain now t cmd where c: "c = (now, t, cmd)" by (metis prod_cases3)
  obtain ob1 n1 es1 where h: "handle now t ob n cmd = (ob1, n1, es1)" by (metis prod_cases3)
  obtain es2 where r: "shard_run ob1 n1 cs = (ob', n', es2)" "es = es1 @ es2" using Cons.prems(1) h by (auto simp: c split: prod.splits)
  have so: "sides_ok ob" using Cons.prems(3) by (simp add: book_ok_def)
  have cmd: "command_ok cmd" "commandSymbol cmd = ob_Symbol ob" "cmd_on_grid g cmd" using Cons.prems(4) by (simp_all add: c ticks_ok_def)
  have cs: "ticks_ok g (ob_Symbol ob1) cs" using Cons.prems(4) handle_routed(1) [OF h] by (simp add: c ticks_ok_def)
  have nn: "0 \<le> run_units cs" by (rule run_units_nonneg [of cs g]) (use cs in \<open>auto simp: ticks_ok_def\<close>)
  have hm: "md_mirrors (fold md_event es1 s) ob1 \<and> room g ob1 (run_units cs)"
    using handle_mirrors [OF Cons.prems(3) cmd _ nn Cons.prems(2,6) h] Cons.prems(5) by (simp add: c)
  have "book_ok ob1" using handle_ok [OF so command_ok_finite [OF cmd(1)] h] Cons.prems(3) by (simp add: book_ok_def)
  then show ?case using Cons.IH [OF r(1) Cons.prems(2) _ cs] hm by (simp add: r(2))
qed simp

lemma new_mirrors: "md_mirrors md_NewService (NewOrderBook sy)" and new_room: "0 \<le> k \<Longrightarrow> k \<le> 9007199254740992 * 2 ^ g \<Longrightarrow> k < f64_overflow \<Longrightarrow> room g (NewOrderBook sy) k"
  by (simp_all add: md_mirrors_def NewOrderBook_def bookFor_def md_NewService_def empty_view_def room_def book_on_grid_def book_units_def)

lemma dust_below_one: "above_dust 1074"
proof -
  obtain U where U: "U = f64_one_units" "0 < U" using one_units_pos by blast
  have k: "(2 :: int) ^ 103 \<le> f64_one_units" by (rule power_increasing) simp_all
  have b: "(9007199254740992 :: int) * 10 ^ 12 \<le> U" using order.trans [OF _ k, of "9007199254740992 * 10 ^ 12"] unfolding U(1) by simp
  let ?r = "round53 U (10 ^ 12)"
  have err: "9007199254740992 * \<bar>?r * 10 ^ 12 - U\<bar> \<le> U" by (rule round53_error) (use b in simp_all)
  have "?r < U"
  proof (rule ccontr)
    assume "\<not> ?r < U"
    then have r: "U \<le> ?r" by simp
    have step: False if "9007199254740992 * z \<le> u" "x * 10 ^ 12 - u \<le> z" "u \<le> x" "0 < u" for x u z :: int using that by simp
    show False by (rule step [OF err _ r U(2)]) (rule abs_ge_self)
  qed
  moreover have "f64_one_units < f64_overflow" unfolding f64_overflow_def by (rule power_strict_increasing) simp_all
  ultimately have "mk_f64 U (10 ^ 12) = FFin ?r" using U by (simp add: mk_f64_def Let_def)
  moreover have "dustEpsilon = mk_f64 U (10 ^ 12)" unfolding dustEpsilon_def f64_of_decimal_def U(1) by (simp del: power_numeral)
  ultimately have d: "dustEpsilon = FFin ?r" by (simp only:)
  show ?thesis unfolding above_dust_def U(1) [symmetric] d flt.simps by (rule \<open>?r < U\<close>)
qed


text \<open>
  C25. The view mirrors the book: whatever commands the worker of a market handles from the start, as long as
  all that is ever placed there fits the exact part of float64 (a multiple of \<open>2^g\<close> units of the last
  place coarser than the dust of \<open>1e-12\<close>, not negative, and at most \<open>2^53\<close> of them in all), with finite prices, the view built from the events in
  the order of publication has, on each side, one level for every price at which something rests and
  for no other, with exactly the sum of the quantities resting there.
\<close>
theorem market_data_mirrors:
  assumes "ticks_ok g sy cs" and "above_dust g" and "run_units cs \<le> 9007199254740992 * 2 ^ g" and "run_units cs < f64_overflow"
    and "shard_run (NewOrderBook sy) n cs = (ob, n', es)"
  shows "md_mirrors (run_tasks md_run (publish_all (md_Subscribe Bus_New) es) md_NewService) ob"
proof -
  have cs: "ticks_ok g (ob_Symbol (NewOrderBook sy)) cs" using assms(1) by (simp add: NewOrderBook_def)
  have "0 \<le> run_units cs" by (rule run_units_nonneg [of cs g]) (use assms(1) in \<open>auto simp: ticks_ok_def\<close>)
  then show ?thesis unfolding md_publish_all
    by (intro shard_run_mirrors [OF assms(5,2) book_ok_new cs] new_room new_mirrors assms)
qed

definition ex_tick :: "string \<Rightarrow> string \<Rightarrow> int \<Rightarrow> tick" where
  "ex_tick oid side p = (\<lambda>_. 0, 0,
     \<lparr>cmd_Kind = CommandPlaceOrder,
      cmd_Order = Some \<lparr>eo_ID = oid, eo_UserID = ''u'', eo_Symbol = ''BTCUSDT'', eo_Side = side, eo_Price = FFin p,
                   eo_Quantity = FFin f64_one_units, eo_Remaining = FFin f64_one_units, eo_Timestamp = 0\<rparr>,
      cmd_Cancel = None\<rparr>)"

definition ex_ticks :: "tick list" where
  "ex_ticks = [ex_tick ''a'' SideSell 10, ex_tick ''b'' SideSell 11, ex_tick ''c'' SideBuy 10]"

lemma market_data_mirrors_witness:
  "case shard_run (NewOrderBook ''BTCUSDT'') 0 ex_ticks of (ob, n', es) \<Rightarrow>
     md_mirrors (run_tasks md_run (publish_all (md_Subscribe Bus_New) es) md_NewService) ob"
proof -
  obtain U where U: "U = f64_one_units" "0 < U" using one_units_pos by blast
  have "3 * U \<le> 9007199254740992 * 2 ^ 1074" using U(2) unfolding U(1) [symmetric] by simp
  moreover have "9007199254740992 * U < f64_overflow"
  proof -
    have "(2 :: int) ^ 53 * 2 ^ 1074 < 2 ^ 2098" unfolding power_add [symmetric] by (rule power_strict_increasing) simp_all
    moreover have "(2 :: int) ^ 53 = 9007199254740992" by simp
    ultimately show ?thesis unfolding f64_overflow_def U(1) by (simp only:)
  qed
  ultimately have b: "3 * U < f64_overflow" "U < f64_overflow" "3 * U \<le> 9007199254740992 * 2 ^ 1074" "U \<le> 9007199254740992 * 2 ^ 1074"
    using U(2) by simp_all
  have g: "on_grid 1074 (FFin U)" using b U by simp
  have "is_f64 (f64_of_decimal (2 ^ 0 * 10000000000) (- 10))" unfolding f64_of_decimal_def by (simp add: is_f64_mk_gen del: power_numeral)
  then have f: "is_f64 (FFin U)" unfolding f64_pow_decimal [OF le0] U(1) by (simp only: add_0_right)
  have "ticks_ok 1074 ''BTCUSDT'' ex_ticks" "run_units ex_ticks = 3 * U"
    using g f U(2) unfolding ex_ticks_def ex_tick_def U(1) [symmetric]
    by (simp_all add: ticks_ok_def order_ok_def incoming_ok_def commandSymbol_def cmd_on_grid_def cmd_units_def fle_def del: on_grid.simps is_f64.simps)
  then show ?thesis using market_data_mirrors [OF _ dust_below_one, of "''BTCUSDT''" ex_ticks 0] b by (simp split: prod.splits)
qed

subsection \<open>Events in another order\<close>

definition place_at :: "eorder \<Rightarrow> tick" where
  "place_at o1 = (\<lambda>_. 0, 0, \<lparr>cmd_Kind = CommandPlaceOrder, cmd_Order = Some o1, cmd_Cancel = None\<rparr>)"

lemma dust_zero: "fle (FFin 0) dustEpsilon"
  using dustEpsilon_nonneg by simp

text \<open>
  The order matters: when a sell order comes to rest on an empty book and a buy order of the same
  price and quantity takes all of it, the book is empty again and the view built in the order of
  publication shows nothing. The bus starts one goroutine per event; if the two run the other way
  round the trade finds no level to deduct from, and the view shows the whole quantity of the sell
  order on an empty book.
\<close>
theorem reordered_events_leave_level:
  assumes "0 < k" and "finite_f64 p"
    and "o1 = \<lparr>eo_ID = i1, eo_UserID = u1, eo_Symbol = sy, eo_Side = SideSell, eo_Price = p,
                eo_Quantity = FFin k, eo_Remaining = FFin k, eo_Timestamp = t1\<rparr>"
    and "o2 = \<lparr>eo_ID = i2, eo_UserID = u2, eo_Symbol = sy, eo_Side = SideBuy, eo_Price = p,
                eo_Quantity = FFin k, eo_Remaining = FFin k, eo_Timestamp = t2\<rparr>"
    and "shard_run (NewOrderBook sy) n [place_at o1, place_at o2] = (ob, n', es)"
    and "tasks = publish_all (md_Subscribe Bus_New) es"
  shows "ob = NewOrderBook sy \<and> length tasks = 2
    \<and> bv_Asks (md_GetOrderBook (run_tasks md_run tasks md_NewService) sy) = []
    \<and> bv_Asks (md_GetOrderBook (run_tasks md_run (rev tasks) md_NewService) sy) = [\<lparr>bl_Price = p, bl_Quantity = FFin k\<rparr>]"
proof -
  obtain pk where p: "p = FFin pk" using assms(2) by (cases p) auto
  define r where "r = \<lparr>or_OrderID = i1, or_UserID = u1, or_Symbol = sy, or_Side = SideSell, or_Price = p, or_Remaining = FFin k, or_Timestamp = (0 :: gotime)\<rparr>"
  define m where "m = \<lparr>tm_Seq = Suc n, tm_Symbol = sy, tm_BuyOrderID = i2, tm_SellOrderID = i1, tm_BuyUserID = u2, tm_SellUserID = u1,
      tm_Price = p, tm_Quantity = FFin k, tm_Timestamp = (0 :: gotime)\<rparr>"
  have "shard_run (NewOrderBook sy) n [place_at o1, place_at o2] = (NewOrderBook sy, n + 1, [OrderRestedEvent r, TradeMatchedEvent m])"
    using assms(1) by (simp add: assms(3,4) place_at_def handle_def handlePlace_def Match_def matchSell_def matchBuy_def NewOrderBook_def
        CommandPlaceOrder_def SideBuy_def SideSell_def Let_def addAsk_def new_level_def fmin_def match_asks.simps match_bids.simps fill_buy.simps
        p r_def m_def mk_trade_def fle_def)
  then have e: "ob = NewOrderBook sy" "es = [OrderRestedEvent r, TradeMatchedEvent m]" using assms(5) by simp_all
  have t: "tasks = [(MdRested, OrderRestedEvent r), (MdTrade, TradeMatchedEvent m)]"
    by (simp add: assms(6) e(2) publish_all_def md_Subscribe_def Publish_def)
  show ?thesis using dust_zero
    by (simp add: e(1) t run_tasks_def run_task_def md_run_def OnOrderRested_def md_OnTradeMatched_def on_side_def view_side_def bookFor_def
        md_GetOrderBook_def md_NewService_def empty_view_def r_def m_def p Let_def SideSell_def)
qed

definition ex_order_at :: "string \<Rightarrow> string \<Rightarrow> eorder" where
  "ex_order_at oid side = \<lparr>eo_ID = oid, eo_UserID = ''u'', eo_Symbol = ''BTCUSDT'', eo_Side = side, eo_Price = FFin 10,
     eo_Quantity = FFin 5, eo_Remaining = FFin 5, eo_Timestamp = 0\<rparr>"

lemma reordered_events_leave_level_witness:
  "case shard_run (NewOrderBook ''BTCUSDT'') 0 [place_at (ex_order_at ''a'' SideSell), place_at (ex_order_at ''b'' SideBuy)] of (ob, n', es) \<Rightarrow>
     ob = NewOrderBook ''BTCUSDT'' \<and>
     bv_Asks (md_GetOrderBook (run_tasks md_run (rev (publish_all (md_Subscribe Bus_New) es)) md_NewService) ''BTCUSDT'')
       = [\<lparr>bl_Price = FFin 10, bl_Quantity = FFin 5\<rparr>]"
  using reordered_events_leave_level [of 5 "FFin 10" _ _ _ _ _ _ _ _ _ 0, OF _ _ ex_order_at_def ex_order_at_def _ HOL.refl] by (auto split: prod.splits)

text \<open>
  The recent trades of a market: whatever events arrive, in whatever order, the service answers the
  last hundred trades of that market, the latest first, and those of no other market.
\<close>
theorem recent_trades_latest:
  "md_GetRecentTrades (run_tasks md_run (publish_all (md_Subscribe Bus_New) es) md_NewService) sy =
     take 100 (rev (concat (map (\<lambda>e. case e of
       TradeMatchedEvent t \<Rightarrow> if tm_Symbol t = sy
         then [\<lparr>rt_Price = tm_Price t, rt_Quantity = tm_Quantity t, rt_Timestamp = tm_Timestamp t\<rparr>] else []
     | _ \<Rightarrow> []) es)))"
  unfolding md_publish_all
proof (induction es rule: rev_induct)
  case (snoc e es)
  then show ?case
    by (cases e) (auto simp: md_GetRecentTrades_def md_event_def OnOrderRested_def OnOrderCancelled_def md_OnTradeMatched_def Let_def
        md_maxRecentTrades_def take_Cons')
qed (simp add: md_GetRecentTrades_def md_NewService_def)

end
