(* ===== verification/Marketfeed.thy ===== *)
theory Marketfeed
  imports Order Http Extjson
begin

text \<open>
  internal/marketfeed: the client of the Binance streams, its caches and its HTTP handlers. A message of the
  socket is the JSON tree of its text, if it has one. Handlers of the client's own events are names
  (type \<open>'h\<close>); \<open>dispatch\<close> answers the calls it makes to them, in order. Times are in UTC.
\<close>

subsection \<open>Symbols (symbol.go)\<close>

definition ToLower :: "string \<Rightarrow> string" where
  "ToLower s = map lower_char s"

definition remove_hyphens :: "string \<Rightarrow> string" where
  "remove_hyphens s = filter (\<lambda>c. c \<noteq> CHR ''-'') s"

definition toBinance :: "string \<Rightarrow> string" where
  "toBinance symbol = ToLower (remove_hyphens symbol)"

definition HasSuffix :: "string \<Rightarrow> string \<Rightarrow> bool" where
  "HasSuffix s suf \<longleftrightarrow> length suf \<le> length s \<and> drop (length s - length suf) s = suf"

definition HasPrefix :: "string \<Rightarrow> string \<Rightarrow> bool" where
  "HasPrefix s pre \<longleftrightarrow> take (length pre) s = pre"

definition quotes :: "string list" where
  "quotes = [''USDT'', ''USDC'', ''BUSD'', ''USD'', ''BTC'', ''ETH'']"

text \<open>The loop over the quotes, and the result of the first that fits.\<close>

definition fits_quote :: "string \<Rightarrow> string \<Rightarrow> bool" where
  "fits_quote upper quote \<longleftrightarrow> HasSuffix upper quote \<and> length quote < length upper"

definition fromBinance :: "string \<Rightarrow> gerr + string" where
  "fromBinance binance =
     (let upper = ToUpper binance in
      case find (fits_quote upper) quotes of
        Some quote \<Rightarrow> Inr (take (length upper - length quote) upper @ ''-'' @ quote)
      | None \<Rightarrow> Inl (Opaque (''fromBinance: cannot split '' @ binance)))"

text \<open>\<open>strings.SplitN(symbol, "-", 2)\<close> has two parts when there is a hyphen.\<close>

definition splitSymbol :: "string \<Rightarrow> string \<times> string" where
  "splitSymbol symbol =
     (if CHR ''-'' \<in> set symbol
      then (takeWhile (\<lambda>c. c \<noteq> CHR ''-'') symbol, tl (dropWhile (\<lambda>c. c \<noteq> CHR ''-'') symbol))
      else ([], []))"

subsection \<open>The snapshots (types.go) and the client\<close>

record book_snapshot =
  bs_Symbol :: string
  bs_Bids :: "(f64 \<times> f64) list"
  bs_Asks :: "(f64 \<times> f64) list"
  bs_UpdatedAt :: gotime

record ticker_snapshot =
  ts_Symbol :: string
  ts_Base :: string
  ts_Quote :: string
  ts_Open :: f64
  ts_High :: f64
  ts_Low :: f64
  ts_Close :: f64
  ts_Volume :: f64
  ts_Change24h :: f64
  ts_ChangePct24h :: f64
  ts_UpdatedAt :: gotime

record trade_snapshot =
  td_Price :: f64
  td_Quantity :: f64
  td_Timestamp :: gotime
  td_IsBuyerMaker :: bool

record kline_snapshot =
  ks_Symbol :: string
  ks_Interval :: string
  ks_OpenTime :: int
  ks_CloseTime :: int
  ks_Open :: string
  ks_High :: string
  ks_Low :: string
  ks_Close :: string
  ks_Volume :: string
  ks_Closed :: bool

definition mf_maxRecentTrades :: nat where "mf_maxRecentTrades = 100"

text \<open>Sixty seconds, in microseconds.\<close>

definition stalenessWindow :: int where "stalenessWindow = 60 * 1000000"

record 'h mf_client =
  mf_symbols :: "string list"
  mf_intervals :: "string list"
  mf_enabled :: bool
  mf_books :: "string \<rightharpoonup> book_snapshot"
  mf_tickers :: "string \<rightharpoonup> ticker_snapshot"
  mf_trades :: "string \<rightharpoonup> trade_snapshot list"
  mf_klineHandlers :: "'h list"
  mf_tickerHandlers :: "'h list"
  mf_tradeHandlers :: "'h list"

definition mf_NewClient :: "string list \<Rightarrow> bool \<Rightarrow> 'h mf_client" where
  "mf_NewClient symbols enabled =
     \<lparr>mf_symbols = symbols, mf_intervals = [''1m'', ''5m'', ''15m'', ''1h'', ''4h'', ''1d''], mf_enabled = enabled,
      mf_books = (\<lambda>_. None), mf_tickers = (\<lambda>_. None), mf_trades = (\<lambda>_. None),
      mf_klineHandlers = [], mf_tickerHandlers = [], mf_tradeHandlers = []\<rparr>"

definition SubscribeKline :: "'h \<Rightarrow> 'h mf_client \<Rightarrow> 'h mf_client" where
  "SubscribeKline h c = c\<lparr>mf_klineHandlers := mf_klineHandlers c @ [h]\<rparr>"

definition SubscribeTicker :: "'h \<Rightarrow> 'h mf_client \<Rightarrow> 'h mf_client" where
  "SubscribeTicker h c = c\<lparr>mf_tickerHandlers := mf_tickerHandlers c @ [h]\<rparr>"

definition SubscribeTrade :: "'h \<Rightarrow> 'h mf_client \<Rightarrow> 'h mf_client" where
  "SubscribeTrade h c = c\<lparr>mf_tradeHandlers := mf_tradeHandlers c @ [h]\<rparr>"

datatype 'h mf_call =
    CallKline 'h kline_snapshot
  | CallTicker 'h ticker_snapshot
  | CallTrade 'h string trade_snapshot

definition emitKline :: "'h mf_client \<Rightarrow> kline_snapshot \<Rightarrow> 'h mf_call list" where
  "emitKline c k = map (\<lambda>h. CallKline h k) (mf_klineHandlers c)"

definition emitTicker :: "'h mf_client \<Rightarrow> ticker_snapshot \<Rightarrow> 'h mf_call list" where
  "emitTicker c t = map (\<lambda>h. CallTicker h t) (mf_tickerHandlers c)"

definition emitTrade :: "'h mf_client \<Rightarrow> string \<Rightarrow> trade_snapshot \<Rightarrow> 'h mf_call list" where
  "emitTrade c symbol t = map (\<lambda>h. CallTrade h symbol t) (mf_tradeHandlers c)"

definition HasSymbol :: "'h mf_client \<Rightarrow> string \<Rightarrow> bool" where
  "HasSymbol c symbol \<longleftrightarrow> symbol \<in> set (mf_symbols c)"

subsection \<open>Depth\<close>

type_synonym depth_msg = "string list list \<times> string list list"

definition set_depth :: "string \<Rightarrow> jmsg \<Rightarrow> depth_msg \<Rightarrow> depth_msg option" where
  "set_depth k v d =
     (if key_eq k ''bids'' then (case decode_slice (decode_slice decode_string) v of None \<Rightarrow> None | Some b \<Rightarrow> Some (b, snd d))
      else if key_eq k ''asks'' then (case decode_slice (decode_slice decode_string) v of None \<Rightarrow> None | Some a \<Rightarrow> Some (fst d, a))
      else Some d)"

fun parseLevels :: "string list list \<Rightarrow> (f64 \<times> f64) list" where
  "parseLevels [] = []"
| "parseLevels (lvl # raw) =
     (case lvl of
        p # q # _ \<Rightarrow>
          (case ParseFloat p of (price, err1) \<Rightarrow> (case ParseFloat q of (qty, err2) \<Rightarrow>
             if err1 \<or> err2 then parseLevels raw else (price, qty) # parseLevels raw))
      | _ \<Rightarrow> parseLevels raw)"

definition onDepth :: "gotime \<Rightarrow> string \<Rightarrow> jmsg \<Rightarrow> 'h mf_client \<Rightarrow> 'h mf_client" where
  "onDepth now symbol data c =
     (case decode_obj set_depth ([], []) data of
        None \<Rightarrow> c
      | Some (bids, asks) \<Rightarrow>
          c\<lparr>mf_books := (mf_books c)(symbol \<mapsto>
            \<lparr>bs_Symbol = symbol, bs_Bids = parseLevels bids, bs_Asks = parseLevels asks, bs_UpdatedAt = now\<rparr>)\<rparr>)"

subsection \<open>Trades\<close>

record trade_msg =
  tg_Price :: string
  tg_Quantity :: string
  tg_TradeTime :: int
  tg_IsBuyerMaker :: bool

definition set_trade :: "string \<Rightarrow> jmsg \<Rightarrow> trade_msg \<Rightarrow> trade_msg option" where
  "set_trade k v t =
     (if key_eq k ''p'' then set_string (\<lambda>s. t\<lparr>tg_Price := s\<rparr>) t v
      else if key_eq k ''q'' then set_string (\<lambda>s. t\<lparr>tg_Quantity := s\<rparr>) t v
      else if key_eq k ''T'' then set_int64 (\<lambda>n. t\<lparr>tg_TradeTime := n\<rparr>) t v
      else if key_eq k ''m'' then set_bool (\<lambda>b. t\<lparr>tg_IsBuyerMaker := b\<rparr>) t v
      else Some t)"

text \<open>\<open>time.UnixMilli\<close>, in microseconds.\<close>

definition UnixMilli :: "int \<Rightarrow> gotime" where "UnixMilli ms = ms * 1000"

definition onTrade :: "string \<Rightarrow> jmsg \<Rightarrow> 'h mf_client \<Rightarrow> 'h mf_client \<times> 'h mf_call list" where
  "onTrade symbol data c =
     (case decode_obj set_trade \<lparr>tg_Price = [], tg_Quantity = [], tg_TradeTime = 0, tg_IsBuyerMaker = False\<rparr> data of
        None \<Rightarrow> (c, [])
      | Some t \<Rightarrow>
          let trade = \<lparr>td_Price = fst (ParseFloat (tg_Price t)), td_Quantity = fst (ParseFloat (tg_Quantity t)),
                       td_Timestamp = UnixMilli (tg_TradeTime t), td_IsBuyerMaker = tg_IsBuyerMaker t\<rparr>;
              list = (case mf_trades c symbol of None \<Rightarrow> [] | Some l \<Rightarrow> l) in
          (c\<lparr>mf_trades := (mf_trades c)(symbol \<mapsto> take mf_maxRecentTrades (trade # list))\<rparr>, emitTrade c symbol trade))"

subsection \<open>Tickers and candles\<close>

definition tickerFloat :: "(string \<rightharpoonup> jmsg) \<Rightarrow> string \<Rightarrow> f64" where
  "tickerFloat raw key =
     (case raw key of
        None \<Rightarrow> f64_zero
      | Some v \<Rightarrow> (case decode_string v of Some s \<Rightarrow> fst (ParseFloat s) | None \<Rightarrow> decode_f64 v))"

definition onTicker :: "gotime \<Rightarrow> string \<Rightarrow> jmsg \<Rightarrow> 'h mf_client \<Rightarrow> 'h mf_client \<times> 'h mf_call list" where
  "onTicker now symbol data c =
     (case decode_map data of
        None \<Rightarrow> (c, [])
      | Some raw \<Rightarrow>
          let snap = \<lparr>ts_Symbol = symbol, ts_Base = fst (splitSymbol symbol), ts_Quote = snd (splitSymbol symbol),
                      ts_Open = tickerFloat raw ''o'', ts_High = tickerFloat raw ''h'', ts_Low = tickerFloat raw ''l'',
                      ts_Close = tickerFloat raw ''c'', ts_Volume = tickerFloat raw ''v'', ts_Change24h = tickerFloat raw ''p'',
                      ts_ChangePct24h = tickerFloat raw ''P'', ts_UpdatedAt = now\<rparr> in
          (c\<lparr>mf_tickers := (mf_tickers c)(symbol \<mapsto> snap)\<rparr>, emitTicker c snap))"

definition klineInt :: "(string \<rightharpoonup> jmsg) \<Rightarrow> string \<Rightarrow> int" where
  "klineInt raw key = (case raw key of None \<Rightarrow> 0 | Some v \<Rightarrow> decode_int64 v)"

definition klineStr :: "(string \<rightharpoonup> jmsg) \<Rightarrow> string \<Rightarrow> string" where
  "klineStr raw key = (case raw key of None \<Rightarrow> [] | Some v \<Rightarrow> decode_text v)"

definition klineBool :: "(string \<rightharpoonup> jmsg) \<Rightarrow> string \<Rightarrow> bool" where
  "klineBool raw key = (case raw key of None \<Rightarrow> False | Some v \<Rightarrow> decode_bool v)"

definition set_k :: "string \<Rightarrow> jmsg \<Rightarrow> jmsg option \<Rightarrow> jmsg option option" where
  "set_k k v x = (if key_eq k ''k'' then Some (Some v) else Some x)"

definition onKline :: "string \<Rightarrow> string \<Rightarrow> jmsg \<Rightarrow> 'h mf_client \<Rightarrow> 'h mf_call list" where
  "onKline symbol interval data c =
     (case decode_obj set_k None data of
        Some (Some k) \<Rightarrow>
          (case decode_map k of
             None \<Rightarrow> []
           | Some raw \<Rightarrow>
               emitKline c \<lparr>ks_Symbol = symbol, ks_Interval = interval, ks_OpenTime = klineInt raw ''t'',
                 ks_CloseTime = klineInt raw ''T'', ks_Open = klineStr raw ''o'', ks_High = klineStr raw ''h'',
                 ks_Low = klineStr raw ''l'', ks_Close = klineStr raw ''c'', ks_Volume = klineStr raw ''v'',
                 ks_Closed = klineBool raw ''x''\<rparr>)
      | _ \<Rightarrow> [])"

subsection \<open>dispatch\<close>

record envelope =
  ev_Stream :: string
  ev_Data :: "jmsg option"

definition set_envelope :: "string \<Rightarrow> jmsg \<Rightarrow> envelope \<Rightarrow> envelope option" where
  "set_envelope k v e =
     (if key_eq k ''stream'' then set_string (\<lambda>s. e\<lparr>ev_Stream := s\<rparr>) e v
      else if key_eq k ''data'' then Some (e\<lparr>ev_Data := Some v\<rparr>)
      else Some e)"

text \<open>
  A message that is not JSON, whose stream is not of the form \<open>symbol@type\<close>, or whose data is missing
  changes nothing: decoding no data at all is an error in each of the four handlers.
\<close>

definition dispatch :: "gotime \<Rightarrow> jmsg option \<Rightarrow> 'h mf_client \<Rightarrow> 'h mf_client \<times> 'h mf_call list" where
  "dispatch now msg c =
     (case Option.bind msg (decode_obj set_envelope \<lparr>ev_Stream = [], ev_Data = None\<rparr>) of
        None \<Rightarrow> (c, [])
      | Some env \<Rightarrow>
          let parts = split_on CHR ''@'' (ev_Stream env) in
          if length parts < 2 then (c, [])
          else
          (case fromBinance (parts ! 0) of
             Inl _ \<Rightarrow> (c, [])
           | Inr symbol \<Rightarrow>
               let streamType = parts ! 1 in
               (case ev_Data env of
                  None \<Rightarrow> (c, [])
                | Some data \<Rightarrow>
                    if HasPrefix streamType ''depth20'' then (onDepth now symbol data c, [])
                    else if streamType = ''trade'' then onTrade symbol data c
                    else if streamType = ''ticker'' then onTicker now symbol data c
                    else if HasPrefix streamType ''kline_'' then (c, onKline symbol (drop 6 streamType) data c)
                    else (c, []))))"

subsection \<open>Connecting and reconnecting\<close>

fun strings_Join :: "string list \<Rightarrow> string \<Rightarrow> string" where
  "strings_Join [] sep = []"
| "strings_Join [x] sep = x"
| "strings_Join (x # y # xs) sep = x @ sep @ strings_Join (y # xs) sep"

definition buildURL :: "'h mf_client \<Rightarrow> string" where
  "buildURL c =
     ''wss://stream.binance.com:9443/stream?streams='' @
     strings_Join (concat (map (\<lambda>s.
       let b = toBinance s in
       [b @ ''@depth20@100ms'', b @ ''@trade'', b @ ''@ticker''] @ map (\<lambda>iv. b @ ''@kline_'' @ iv) (mf_intervals c))
       (mf_symbols c))) ''/''"

text \<open>
  What a connection goes through: it cannot be dialled, or it reads messages, each at its time, until
  the read fails or the context is done.
\<close>

datatype connection = DialFails | Streams "(gotime \<times> jmsg option) list" bool

fun read_messages :: "(gotime \<times> jmsg option) list \<Rightarrow> 'h mf_client \<Rightarrow> 'h mf_client \<times> 'h mf_call list" where
  "read_messages [] c = (c, [])"
| "read_messages ((now, msg) # ms) c =
     (case dispatch now msg c of (c', calls) \<Rightarrow> (case read_messages ms c' of (c'', calls') \<Rightarrow> (c'', calls @ calls')))"

definition connectAndStream :: "connection \<Rightarrow> 'h mf_client \<Rightarrow> gerr option \<times> 'h mf_client \<times> 'h mf_call list" where
  "connectAndStream conn c =
     (case conn of
        DialFails \<Rightarrow> (Some (Wrapped ''dial: '' (Opaque ''dial'') []), c, [])
      | Streams ms done \<Rightarrow>
          (if done then Some (Opaque ''context canceled'') else Some (Wrapped ''read: '' (Opaque ''read'') []), read_messages ms c))"

text \<open>
  \<open>time.Duration(1<<attempt) * time.Second\<close>, at most thirty seconds: 64 bits, nanoseconds. \<open>time.After\<close>
  of a duration that is not positive fires at once.
\<close>

definition backoff :: "nat \<Rightarrow> 64 word" where
  "backoff attempt =
     (let b = push_bit attempt 1 * 1000000000 in if sint b > 30 * 1000000000 then 30 * 1000000000 else b)"

text \<open>
  The loop of \<open>Start\<close> over the connections it makes, each with whether the context was cancelled when it
  ended: the client after, and what it waited before each reconnection.
\<close>

fun mf_loop :: "nat \<Rightarrow> (connection \<times> bool) list \<Rightarrow> 'h mf_client \<Rightarrow> 'h mf_client \<times> 64 word list" where
  "mf_loop attempt [] c = (c, [])"
| "mf_loop attempt ((conn, cancelled) # rest) c =
     (case connectAndStream conn c of
        (None, c', _) \<Rightarrow> mf_loop 0 rest c'
      | (Some err, c', _) \<Rightarrow>
          if cancelled then (c', [])
          else (case mf_loop (Suc attempt) rest c' of (c'', waits) \<Rightarrow> (c'', backoff attempt # waits)))"

definition mf_Start :: "(connection \<times> bool) list \<Rightarrow> 'h mf_client \<Rightarrow> 'h mf_client \<times> 64 word list" where
  "mf_Start conns c = (if mf_enabled c then mf_loop 0 conns c else (c, []))"

subsection \<open>Reading the caches\<close>

definition mf_GetOrderBook :: "gotime \<Rightarrow> 'h mf_client \<Rightarrow> string \<Rightarrow> book_snapshot option" where
  "mf_GetOrderBook now c symbol =
     (case mf_books c symbol of None \<Rightarrow> None | Some b \<Rightarrow> if stalenessWindow < now - bs_UpdatedAt b then None else Some b)"

definition RawSnapshot :: "gotime \<Rightarrow> 'h mf_client \<Rightarrow> string \<Rightarrow> ((f64 \<times> f64) list \<times> (f64 \<times> f64) list) option" where
  "RawSnapshot now c symbol = (case mf_GetOrderBook now c symbol of None \<Rightarrow> None | Some snap \<Rightarrow> Some (bs_Bids snap, bs_Asks snap))"

definition GetTicker :: "gotime \<Rightarrow> 'h mf_client \<Rightarrow> string \<Rightarrow> ticker_snapshot option" where
  "GetTicker now c symbol =
     (case mf_tickers c symbol of None \<Rightarrow> None | Some t \<Rightarrow> if stalenessWindow < now - ts_UpdatedAt t then None else Some t)"

definition GetTrades :: "'h mf_client \<Rightarrow> string \<Rightarrow> trade_snapshot list option" where
  "GetTrades c symbol = mf_trades c symbol"

fun markets_of :: "(string \<rightharpoonup> ticker_snapshot) \<Rightarrow> string list \<Rightarrow> ticker_snapshot list" where
  "markets_of tickers [] = []"
| "markets_of tickers (s # syms) = (case tickers s of Some t \<Rightarrow> [t] | None \<Rightarrow> []) @ markets_of tickers syms"

definition Markets :: "'h mf_client \<Rightarrow> ticker_snapshot list" where
  "Markets c = markets_of (mf_tickers c) (mf_symbols c)"

subsection \<open>The handlers of HTTP (handler.go)\<close>

text \<open>The copy of an empty slice is nil, which is null in JSON.\<close>

definition levels_json :: "(f64 \<times> f64) list \<Rightarrow> json" where
  "levels_json ls = (if ls = [] then JNull else JArr (map (\<lambda>(p, q). JArr [JNum p, JNum q]) ls))"

definition snapshot_json :: "book_snapshot \<Rightarrow> json" where
  "snapshot_json b = JObj [(''symbol'', JStr (bs_Symbol b)), (''bids'', levels_json (bs_Bids b)), (''asks'', levels_json (bs_Asks b))]"

definition ticker_json :: "ticker_snapshot \<Rightarrow> json" where
  "ticker_json t =
     JObj [(''symbol'', JStr (ts_Symbol t)), (''base'', JStr (ts_Base t)), (''quote'', JStr (ts_Quote t)), (''open'', JNum (ts_Open t)),
       (''high'', JNum (ts_High t)), (''low'', JNum (ts_Low t)), (''close'', JNum (ts_Close t)), (''volume'', JNum (ts_Volume t)),
       (''change_24h'', JNum (ts_Change24h t)), (''change_pct_24h'', JNum (ts_ChangePct24h t))]"

definition trade_json :: "trade_snapshot \<Rightarrow> json" where
  "trade_json t =
     JObj [(''price'', JNum (td_Price t)), (''qty'', JNum (td_Quantity t)), (''timestamp'', json_time (td_Timestamp t)),
       (''is_buyer_maker'', JBool (td_IsBuyerMaker t))]"

definition mfHandler_Markets :: "'h mf_client \<Rightarrow> http_response" where
  "mfHandler_Markets c =
     (if \<not> mf_enabled c then HTTPError 503 ''marketfeed disabled'' else WriteFloats 200 (JArr (map ticker_json (Markets c))))"

text \<open>The two checks the other three handlers begin with, then the rest of the handler on the symbol.\<close>

definition configured :: "'h mf_client \<Rightarrow> request \<Rightarrow> (string \<Rightarrow> http_response) \<Rightarrow> http_response" where
  "configured c r k =
     (if \<not> mf_enabled c then HTTPError 503 ''marketfeed disabled''
      else let sym = ToUpper (rq_param r ''symbol'') in
        if \<not> HasSymbol c sym then HTTPError 404 ''symbol not configured'' else k sym)"

definition mfHandler_OrderBook :: "gotime \<Rightarrow> 'h mf_client \<Rightarrow> request \<Rightarrow> http_response" where
  "mfHandler_OrderBook now c r =
     configured c r (\<lambda>sym.
       case mf_GetOrderBook now c sym of
         None \<Rightarrow> HTTPError 503 (''marketfeed unavailable for '' @ sym)
       | Some snap \<Rightarrow> WriteFloats 200 (snapshot_json snap))"

definition mfHandler_Trades :: "'h mf_client \<Rightarrow> request \<Rightarrow> http_response" where
  "mfHandler_Trades c r =
     configured c r (\<lambda>sym.
       WriteFloats 200 (JArr (map trade_json (case GetTrades c sym of None \<Rightarrow> [] | Some ts \<Rightarrow> ts))))"

definition mfHandler_Ticker :: "gotime \<Rightarrow> 'h mf_client \<Rightarrow> request \<Rightarrow> http_response" where
  "mfHandler_Ticker now c r =
     configured c r (\<lambda>sym.
       case GetTicker now c sym of
         None \<Rightarrow> HTTPError 503 (''marketfeed unavailable for '' @ sym)
       | Some snap \<Rightarrow> WriteFloats 200 (ticker_json snap))"

end
