(* ===== verification/Marketfeed_Properties.thy ===== *)
theory Marketfeed_Properties
  imports Marketfeed Format
begin

text \<open>
  The client of the Binance streams: which symbols survive the translation to a stream and back, what a
  message does to the caches, how long the caches answer, and the waits between reconnections.
\<close>

subsection \<open>Symbols\<close>

lemma upper_lower [simp]: "upper_char (lower_char c) = upper_char c"
  by (auto simp: upper_char_def lower_char_def)

lemma ToUpper_ToLower [simp]: "ToUpper (ToLower s) = ToUpper s"
  by (simp add: ToUpper_def ToLower_def)

lemma HasSuffix_rev: "HasSuffix s t \<longleftrightarrow> take (length t) (rev s) = rev t"
  by (auto simp: HasSuffix_def take_rev dest: arg_cong [where f = length])

lemma fits_quote_append:
  "fits_quote (b @ q) s \<longleftrightarrow> take (length s) (rev q @ rev b) = rev s \<and> length s < length b + length q"
  by (simp add: fits_quote_def HasSuffix_rev)

lemma toBinance_symbol:
  assumes "CHR ''-'' \<notin> set base" and "quote \<in> set quotes" and "ToUpper base = base"
  shows "ToUpper (toBinance (base @ ''-'' @ quote)) = base @ quote"
proof -
  have "CHR ''-'' \<notin> set quote \<and> ToUpper quote = quote" using assms(2) by (auto simp: quotes_def ToUpper_def upper_char_def)
  then have "remove_hyphens (base @ ''-'' @ quote) = base @ quote" "ToUpper (base @ quote) = base @ quote"
    using assms(1,3) by (auto simp: remove_hyphens_def ToUpper_def intro!: arg_cong2 [where f = append] filter_True)
  then show ?thesis by (simp add: toBinance_def)
qed

lemma fromBinance_split:
  assumes "ToUpper b = base @ quote" and "base \<noteq> []" and "quote \<in> set quotes"
  shows "fromBinance b =
    (if quote = ''USD'' \<and> 2 \<le> length base \<and> last base = CHR ''B'' then Inr (butlast base @ ''-BUSD'') else Inr (base @ ''-'' @ quote))"
proof -
  obtain xs x where b: "base = xs @ [x]" using assms(2) by (meson rev_exhaust)
  have q: "quote = ''USDT'' \<or> quote = ''USDC'' \<or> quote = ''BUSD'' \<or> quote = ''USD'' \<or> quote = ''BTC'' \<or> quote = ''ETH''"
    using assms(3) by (simp add: quotes_def)
  have l: "Suc 0 \<le> length xs \<longleftrightarrow> xs \<noteq> []" by (cases xs) simp_all
  show ?thesis using q
    by (elim disjE; hypsubst) (simp_all add: fromBinance_def assms(1) b quotes_def fits_quote_append Let_def l numeral_2_eq_2, simp add: fits_quote_def HasSuffix_def)
qed

text \<open>
  A market \<open>BASE-QUOTE\<close> in capitals with one of the six quotes comes back from its Binance name as
  itself, except when the quote is USD and the base of at least two letters ends in B: then the B is
  taken for the quote BUSD, as in BNB-USD, which comes back as BN-BUSD.
\<close>
theorem symbol_roundtrip:
  assumes "base \<noteq> []" and "CHR ''-'' \<notin> set base" and "ToUpper base = base" and "quote \<in> set quotes"
  shows "fromBinance (toBinance (base @ ''-'' @ quote)) =
    (if quote = ''USD'' \<and> 2 \<le> length base \<and> last base = CHR ''B'' then Inr (butlast base @ ''-BUSD'') else Inr (base @ ''-'' @ quote))"
  by (rule fromBinance_split [OF toBinance_symbol [OF assms(2,4,3)] assms(1,4)])

lemma symbol_roundtrip_witness:
  "fromBinance (toBinance (''BTC'' @ ''-'' @ ''USDT'')) = Inr (''BTC'' @ ''-'' @ ''USDT'') \<and>
   fromBinance (toBinance (''SHIB'' @ ''-'' @ ''USD'')) = Inr ''SHI-BUSD''"
  using symbol_roundtrip [of "''BTC''" "''USDT''"] symbol_roundtrip [of "''SHIB''" "''USD''"]
  by (simp add: ToUpper_def upper_char_def quotes_def)

subsection \<open>What a message touches\<close>

definition same_caches :: "string \<Rightarrow> 'h mf_client \<Rightarrow> 'h mf_client \<Rightarrow> bool" where
  "same_caches sy c c' \<longleftrightarrow> mf_books c' sy = mf_books c sy \<and> mf_tickers c' sy = mf_tickers c sy \<and> mf_trades c' sy = mf_trades c sy"

text \<open>The symbol a message is for, if it is for one.\<close>

definition msg_symbol :: "jmsg option \<Rightarrow> string option" where
  "msg_symbol msg =
     (case Option.bind msg (decode_obj set_envelope \<lparr>ev_Stream = [], ev_Data = None\<rparr>) of
        None \<Rightarrow> None
      | Some env \<Rightarrow> (case fromBinance (split_on CHR ''@'' (ev_Stream env) ! 0) of Inl _ \<Rightarrow> None | Inr sy \<Rightarrow> Some sy))"

lemmas message_defs = onDepth_def onTrade_def onTicker_def Let_def

lemma dispatch_other:
  assumes "msg_symbol msg \<noteq> Some sy" and "dispatch now msg c = (c', calls)"
  shows "same_caches sy c c'"
proof (cases "Option.bind msg (decode_obj set_envelope \<lparr>ev_Stream = [], ev_Data = None\<rparr>)")
  case (Some env)
  show ?thesis
  proof (cases "fromBinance (split_on CHR ''@'' (ev_Stream env) ! 0)")
    case (Inr s)
    then have "s \<noteq> sy" using assms(1) Some by (simp add: msg_symbol_def)
    then show ?thesis using assms(2) Some Inr
      by (auto simp: dispatch_def same_caches_def message_defs split: option.splits prod.splits if_splits)
  qed (use assms(2) Some in \<open>auto simp: dispatch_def same_caches_def Let_def split: if_splits\<close>)
qed (use assms(2) in \<open>simp add: dispatch_def same_caches_def\<close>)

lemma read_other:
  "\<forall>(now, msg) \<in> set ms. msg_symbol msg \<noteq> Some sy \<Longrightarrow> read_messages ms c = (c', calls) \<Longrightarrow> same_caches sy c c'"
proof (induction ms c arbitrary: c' calls rule: read_messages.induct)
  case (2 now msg ms c)
  obtain c1 k1 where d: "dispatch now msg c = (c1, k1)" by force
  obtain c2 k2 where r: "read_messages ms c1 = (c2, k2)" by force
  have "same_caches sy c c1" using dispatch_other [OF _ d] "2.prems"(1) by simp
  moreover have "same_caches sy c1 c2" using "2.IH" [OF d [symmetric]] r "2.prems"(1) d by simp
  ultimately show ?case using "2.prems"(2) d r by (simp add: same_caches_def)
qed (simp add: same_caches_def)

text \<open>A message of the stream \<open>b@kind\<close>.\<close>

definition stream_msg :: "string \<Rightarrow> string \<Rightarrow> jmsg \<Rightarrow> jmsg option" where
  "stream_msg b kind data = Some (MObj [] [(''stream'', MStr (b @ ''@'' @ kind)), (''data'', data)])"

lemma envelope_decode:
  "decode_obj set_envelope \<lparr>ev_Stream = [], ev_Data = None\<rparr> (MObj [] [(''stream'', MStr s), (''data'', data)]) =
     Some \<lparr>ev_Stream = s, ev_Data = Some data\<rparr>"
proof -
  have k: "\<not> key_eq ''data'' ''stream''" "key_eq ''data'' ''data''" "key_eq ''stream'' ''stream''" by (simp_all add: key_eq_def lower_char_def)
  show ?thesis by (simp add: decode_obj_def set_envelope_def set_string_def k)
qed

lemma stream_msg_symbol: "CHR ''@'' \<notin> set b \<Longrightarrow> msg_symbol (stream_msg b kind data) = (case fromBinance b of Inl _ \<Rightarrow> None | Inr sy \<Rightarrow> Some sy)"
  by (simp add: msg_symbol_def stream_msg_def envelope_decode split_on_at)

lemma toBinance_plain: "CHR ''@'' \<notin> set sy \<Longrightarrow> CHR ''@'' \<notin> set (toBinance sy)"
proof -
  have e: "CHR ''@'' = lower_char c \<Longrightarrow> c = CHR ''@''" for c
    by (auto simp: lower_char_def split: if_splits dest!: arg_cong [where f = "of_char :: char \<Rightarrow> nat"])
  show "CHR ''@'' \<notin> set sy \<Longrightarrow> CHR ''@'' \<notin> set (toBinance sy)"
    by (auto simp: toBinance_def ToLower_def remove_hyphens_def dest!: e)
qed

text \<open>
  A market that does not survive the translation gets no data: whatever messages its streams deliver,
  its book, ticker and trades stay what they were, so after a start its endpoints answer 503.
\<close>
theorem misrouted_market:
  assumes "2 \<le> length base" and "last base = CHR ''B''" and "CHR ''-'' \<notin> set base" and "CHR ''@'' \<notin> set base" and "ToUpper base = base"
    and "sy = base @ ''-USD''" and "read_messages (map (\<lambda>(now, kind, data). (now, stream_msg (toBinance sy) kind data)) ms) (mf_NewClient syms en) = (c, calls)"
  shows "mf_GetOrderBook now c sy = None \<and> GetTicker now c sy = None \<and> GetTrades c sy = None"
proof -
  have ne: "base \<noteq> []" using assms(1) by auto
  have "fromBinance (toBinance sy) = Inr (butlast base @ ''-BUSD'')"
    using fromBinance_split [OF toBinance_symbol [OF assms(3) _ assms(5)] ne, of "''USD''"] assms(1,2) by (simp add: assms(6) quotes_def)
  moreover have "butlast base @ ''-BUSD'' \<noteq> sy"
  proof
    assume "butlast base @ ''-BUSD'' = sy"
    then have "length (butlast base @ ''-BUSD'') = length sy" "drop (length (butlast base)) (butlast base @ ''-BUSD'') = drop (length (butlast base)) sy"
      by simp_all
    then show False using ne assms(2) by (simp add: assms(6))
  qed
  moreover have "CHR ''@'' \<notin> set (toBinance sy)" using assms(4) by (intro toBinance_plain) (simp add: assms(6))
  ultimately have "same_caches sy (mf_NewClient syms en) c"
    by (intro read_other [OF _ assms(7)]) (auto simp: stream_msg_symbol)
  then show ?thesis by (simp add: same_caches_def mf_NewClient_def mf_GetOrderBook_def GetTicker_def GetTrades_def)
qed


lemma misrouted_market_witness:
  "case read_messages (map (\<lambda>(now, kind, data). (now, stream_msg (toBinance ''BNB-USD'') kind data)) [(0, ''trade'', MNull)]) (mf_NewClient [''BNB-USD''] True :: unit mf_client) of
     (c, calls) \<Rightarrow> mf_GetOrderBook 0 c ''BNB-USD'' = None"
  using misrouted_market [of "''BNB''" "''BNB-USD''" "[(0, ''trade'', MNull)]" "[''BNB-USD'']" True]
  by (auto simp: ToUpper_def upper_char_def split: prod.splits)

subsection \<open>What a message brings\<close>

lemma dispatch_stream:
  assumes "CHR ''@'' \<notin> set b" and "fromBinance b = Inr sy" and "split_on CHR ''@'' kind = k # ks"
  shows "dispatch now (stream_msg b kind data) c =
    (if HasPrefix k ''depth20'' then (onDepth now sy data c, [])
     else if k = ''trade'' then onTrade sy data c
     else if k = ''ticker'' then onTicker now sy data c
     else if HasPrefix k ''kline_'' then (c, onKline sy (drop 6 k) data c)
     else (c, []))"
  using assms by (simp add: dispatch_def stream_msg_def envelope_decode split_on_at Let_def)

text \<open>
  A depth message replaces the book of its market, with the levels whose two numbers both parse, in
  their order; the client answers that book for sixty seconds and then no book at all; other markets
  and the other caches are untouched.
\<close>
theorem depth_served_for_a_minute:
  assumes "CHR ''@'' \<notin> set b" and "fromBinance b = Inr sy" and "decode_obj set_depth ([], []) data = Some (bids, asks)"
    and "dispatch now (stream_msg b ''depth20@100ms'' data) c = (c', calls)"
  shows "mf_GetOrderBook t c' sy =
      (if t \<le> now + 60000000
       then Some \<lparr>bs_Symbol = sy, bs_Bids = parseLevels bids, bs_Asks = parseLevels asks, bs_UpdatedAt = now\<rparr> else None)
    \<and> (\<forall>sy'. sy' \<noteq> sy \<longrightarrow> mf_GetOrderBook t c' sy' = mf_GetOrderBook t c sy')
    \<and> mf_tickers c' = mf_tickers c \<and> mf_trades c' = mf_trades c \<and> calls = []"
proof -
  have k: "split_on CHR ''@'' ''depth20@100ms'' = [''depth20'', ''100ms'']" "HasPrefix ''depth20'' ''depth20''" by (simp_all add: HasPrefix_def)
  have "c' = onDepth now sy data c" "calls = []" using dispatch_stream [OF assms(1,2) k(1), of now data c] k(2) assms(4) by simp_all
  then show ?thesis using assms(3) by (auto simp: onDepth_def mf_GetOrderBook_def stalenessWindow_def)
qed

definition ex_depth :: jmsg where
  "ex_depth = MObj [] [(''lastUpdateId'', MNum ''160''),
     (''bids'', MArr [] [MArr [] [MStr ''0'', MStr ''0'']]), (''asks'', MArr [] [MArr [] [MStr ''x'', MStr ''0'']])]"

lemma depth_served_for_a_minute_witness:
  "mf_GetOrderBook 60000000 (fst (dispatch 0 (stream_msg ''btcusdt'' ''depth20@100ms'' ex_depth) (mf_NewClient [] True :: unit mf_client))) ''BTC-USDT''
     = Some \<lparr>bs_Symbol = ''BTC-USDT'', bs_Bids = [(FFin 0, FFin 0)], bs_Asks = [], bs_UpdatedAt = 0\<rparr>"
proof -
  have d: "decode_obj set_depth ([], []) ex_depth = Some ([[''0'', ''0'']], [[''x'', ''0'']])" by code_simp
  have "snd (ParseFloat ''x'')" by code_simp
  then obtain x where "ParseFloat ''x'' = (x, True)" by (cases "ParseFloat ''x''") auto
  then have p: "parseLevels [[''0'', ''0'']] = [(FFin 0, FFin 0)]" "parseLevels [[''x'', ''0'']] = []"
    by (simp_all add: ParseFloat_zero split: prod.splits)
  have f: "fromBinance ''btcusdt'' = Inr ''BTC-USDT''" by code_simp
  obtain c' calls where e: "dispatch 0 (stream_msg ''btcusdt'' ''depth20@100ms'' ex_depth) (mf_NewClient [] True :: unit mf_client) = (c', calls)" by force
  show ?thesis using depth_served_for_a_minute [OF _ f d e, of 60000000] unfolding e p by simp
qed

text \<open>
  The flag of a trade is lost: Binance sends the maker flag under the key m and then an unused flag
  under the key M; decoding matches keys whatever their case, so the second overwrites the first and
  the trade is stored with the unused flag.
\<close>
theorem trade_flag_overwritten:
  assumes "CHR ''@'' \<notin> set b" and "fromBinance b = Inr sy" and "ParseInt tid = (n1, False)" and "ParseInt ms = (n2, False)"
  shows "GetTrades (fst (dispatch now (stream_msg b ''trade'' (MObj [] [(''e'', MStr ''trade''), (''E'', MNum etime), (''s'', MStr bsym),
        (''t'', MNum tid), (''p'', MStr price), (''q'', MStr qty), (''T'', MNum ms), (''m'', MBool maker), (''M'', MBool unused)])) c)) sy =
    Some (take 100 (\<lparr>td_Price = fst (ParseFloat price), td_Quantity = fst (ParseFloat qty), td_Timestamp = n2 * 1000, td_IsBuyerMaker = unused\<rparr>
      # (case GetTrades c sy of None \<Rightarrow> [] | Some ts \<Rightarrow> ts)))"
proof -
  have k: "split_on CHR ''@'' ''trade'' = [''trade'']" "\<not> HasPrefix ''trade'' ''depth20''" by (simp_all add: HasPrefix_def)
  have "map (\<lambda>k. map (key_eq k) [''p'', ''q'', ''T'', ''m'']) [''e'', ''E'', ''s'', ''t'', ''p'', ''q'', ''T'', ''m'', ''M''] =
      [[False, False, False, False], [False, False, False, False], [False, False, False, False], [False, False, True, False],
       [True, False, False, False], [False, True, False, False], [False, False, True, False], [False, False, False, True],
       [False, False, False, True]]" by code_simp
  note keys = this [simplified]
  show ?thesis unfolding dispatch_stream [OF assms(1,2) k(1)]
    using k(2) assms(3,4)
    by (simp add: onTrade_def decode_obj_def set_trade_def keys set_string_def set_int64_def set_bool_def GetTrades_def UnixMilli_def
        mf_maxRecentTrades_def Let_def)
qed

lemma trade_flag_overwritten_witness:
  "GetTrades (fst (dispatch 0 (stream_msg ''btcusdt'' ''trade'' (MObj [] [(''e'', MStr ''trade''), (''E'', MNum ''7''), (''s'', MStr ''BTCUSDT''),
        (''t'', MNum ''5''), (''p'', MStr ''0''), (''q'', MStr ''0''), (''T'', MNum ''6''), (''m'', MBool False), (''M'', MBool True)]))
      (mf_NewClient [] True :: unit mf_client))) ''BTC-USDT'' =
    Some [\<lparr>td_Price = FFin 0, td_Quantity = FFin 0, td_Timestamp = 6000, td_IsBuyerMaker = True\<rparr>]"
proof -
  have f: "fromBinance ''btcusdt'' = Inr ''BTC-USDT''" by code_simp
  have p: "fst (ParseFloat ''0'') = FFin 0" by (simp add: ParseFloat_zero)
  have n: "ParseInt ''5'' = (5, False)" "ParseInt ''6'' = (6, False)" by code_simp+
  show ?thesis using trade_flag_overwritten [OF _ f n, of 0 "''7''" "''BTCUSDT''" "''0''" "''0''" False True "mf_NewClient [] True :: unit mf_client"]
    by (simp add: p mf_NewClient_def GetTrades_def)
qed

subsection \<open>The caches are well-formed\<close>

definition caches_ok :: "'h mf_client \<Rightarrow> bool" where
  "caches_ok c \<longleftrightarrow>
     (\<forall>sy b. mf_books c sy = Some b \<longrightarrow> bs_Symbol b = sy) \<and>
     (\<forall>sy t. mf_tickers c sy = Some t \<longrightarrow> ts_Symbol t = sy \<and> (ts_Base t, ts_Quote t) = splitSymbol sy) \<and>
     (\<forall>sy ts. mf_trades c sy = Some ts \<longrightarrow> ts \<noteq> [] \<and> length ts \<le> 100)"

lemma dispatch_ok:
  assumes "caches_ok c" and "dispatch now msg c = (c', calls)"
  shows "caches_ok c'"
proof -
  have "caches_ok (onDepth now sy data c)" "onTrade sy data c = (c', k) \<Longrightarrow> caches_ok c'" "onTicker now sy data c = (c', k) \<Longrightarrow> caches_ok c'"
    for sy data k
    using assms(1) by (auto simp: caches_ok_def message_defs mf_maxRecentTrades_def split: option.splits if_splits) metis+
  then show ?thesis using assms
    by (auto simp: dispatch_def Let_def split: option.splits sum.splits if_splits)
qed

text \<open>
  C30. Whatever messages arrive, every cached book and ticker is filed under its own symbol, base and quote
  of a ticker are the two parts of it, and at most a hundred trades are kept per market.
\<close>
theorem caches_well_formed:
  "caches_ok (fst (read_messages ms (mf_NewClient syms en)))"
proof -
  have "caches_ok c \<Longrightarrow> caches_ok (fst (read_messages ms c))" for c :: "'h mf_client"
  proof (induction ms c rule: read_messages.induct)
    case (2 now msg ms c)
    obtain c1 k1 where d: "dispatch now msg c = (c1, k1)" by force
    then show ?case using "2.IH" [OF d [symmetric]] dispatch_ok [OF "2.prems" d] by (cases "read_messages ms c1") simp
  qed simp
  moreover have "caches_ok (mf_NewClient syms en)" by (simp add: caches_ok_def mf_NewClient_def)
  ultimately show ?thesis .
qed

subsection \<open>The waits between reconnections\<close>

lemma sint_of_int: "- 9223372036854775808 \<le> k \<Longrightarrow> k < 9223372036854775808 \<Longrightarrow> sint (word_of_int k :: 64 word) = k"
  by (simp add: int_word_sint)

lemma backoff_small:
  assumes "n < 34"
  shows "sint (backoff n) = min (2 ^ n) 30 * 1000000000"
proof -
  have "(2 :: int) ^ n \<le> 2 ^ 33" using assms by (intro power_increasing) simp_all
  then have b: "(2 :: int) ^ n \<le> 8589934592" "(0 :: int) < 2 ^ n" by simp_all
  have "push_bit n 1 * 1000000000 = (word_of_int (2 ^ n * 1000000000) :: 64 word)" by (simp add: push_bit_eq_mult)
  moreover have "sint (word_of_int (2 ^ n * 1000000000) :: 64 word) = 2 ^ n * 1000000000" by (rule sint_of_int) (use b in linarith)+
  ultimately have "sint (push_bit n 1 * 1000000000 :: 64 word) = 2 ^ n * 1000000000" by (simp only:)
  then show ?thesis by (simp add: backoff_def Let_def min_def)
qed

lemma backoff_zero:
  assumes "55 \<le> n"
  shows "backoff n = 0"
proof -
  have "(1000000000 :: 64 word) = 2 ^ 9 * 1953125" by simp
  then have "push_bit n (1 :: 64 word) * 1000000000 = 2 ^ (n + 9) * 1953125" by (simp add: push_bit_eq_mult power_add)
  moreover have "(2 :: 64 word) ^ (n + 9) = 0" using assms by simp
  ultimately show ?thesis by (simp add: backoff_def)
qed

lemma mf_loop_waits:
  "\<forall>(conn, cancelled) \<in> set conns. \<not> cancelled \<Longrightarrow> snd (mf_loop n conns c) = map backoff [n..<n + length conns]"
proof (induction conns arbitrary: n c)
  case (Cons x conns)
  obtain conn b where x: "x = (conn, b)" by force
  have "fst (connectAndStream conn c) \<noteq> None" by (cases conn) (simp_all add: connectAndStream_def)
  then obtain err c' k where r: "connectAndStream conn c = (Some err, c', k)" by (cases "connectAndStream conn c") auto
  have "snd (mf_loop (Suc n) conns c') = map backoff [Suc n..<Suc n + length conns]" using Cons by auto
  moreover have "[n..<n + length (x # conns)] = n # [Suc n..<Suc n + length conns]" by (simp add: upt_conv_Cons del: upt_Suc)
  ultimately show ?case using Cons.prems r by (cases "mf_loop (Suc n) conns c'") (simp add: x del: upt_Suc)
qed simp

text \<open>
  C31. The waits before the reconnections of a client that keeps losing its connection, however long each
  connection lasted: 1, 2, 4, 8, 16 and then 30 seconds, up to the 34th; the 35th is negative, and
  from the 56th on there is no wait at all: the shift has overflowed and the counter is never reset,
  because a connection never ends without an error.
\<close>
theorem reconnect_waits:
  assumes "mf_enabled c" and "\<forall>(conn, cancelled) \<in> set conns. \<not> cancelled" and "snd (mf_Start conns c) = waits"
  shows "length waits = length conns
    \<and> (\<forall>i < length conns. (i < 34 \<longrightarrow> sint (waits ! i) = min (2 ^ i) 30 * 1000000000)
        \<and> (i = 34 \<longrightarrow> sint (waits ! i) < 0) \<and> (55 \<le> i \<longrightarrow> waits ! i = 0))"
proof -
  have w: "waits = map backoff [0..<length conns]" using mf_loop_waits [OF assms(2), of 0 c] assms(1,3) by (simp add: mf_Start_def)
  have "sint (backoff 34) < 0" by (simp add: backoff_def Let_def push_bit_eq_mult int_word_sint)
  then show ?thesis using backoff_small backoff_zero by (auto simp: w)
qed

lemma reconnect_waits_witness:
  "snd (mf_Start (replicate 60 (DialFails, False)) (mf_NewClient [] True :: unit mf_client)) ! 59 = 0 \<and>
   sint (snd (mf_Start (replicate 60 (DialFails, False)) (mf_NewClient [] True :: unit mf_client)) ! 33) = 30000000000"
  using reconnect_waits [of "mf_NewClient [] True :: unit mf_client" "replicate 60 (DialFails, False)"]
  by (simp add: mf_NewClient_def)

end
