(* ===== verification/Partnerfeed.thy ===== *)
theory Partnerfeed
  imports Order Marketfeed Numeric
begin

text \<open>
  internal/partnerfeed: the bot that mirrors the depth of the partner exchange into the engine as orders
  without an owner. It submits through the adapter of main.go, in the world of the services. The order in
  which Go ranges over a map and the random numbers are parameters of a run.
\<close>

subsection \<open>Products and quotients of float64\<close>

fun fmul :: "f64 \<Rightarrow> f64 \<Rightarrow> f64" where
  "fmul FNaN _ = FNaN"
| "fmul _ FNaN = FNaN"
| "fmul (FInf s) (FInf t) = FInf (s = t)"
| "fmul (FInf s) (FFin b) = (if b = 0 then FNaN else FInf (s = (0 < b)))"
| "fmul (FFin a) (FInf t) = (if a = 0 then FNaN else FInf (t = (0 < a)))"
| "fmul (FFin a) (FFin b) = mk_f64 (a * b) f64_one_units"

fun fdiv :: "f64 \<Rightarrow> f64 \<Rightarrow> f64" where
  "fdiv FNaN _ = FNaN"
| "fdiv _ FNaN = FNaN"
| "fdiv (FInf s) (FInf t) = FNaN"
| "fdiv (FInf s) (FFin b) = FInf (s = (0 \<le> b))"
| "fdiv (FFin a) (FInf t) = FFin 0"
| "fdiv (FFin a) (FFin b) =
     (if b = 0 then (if a = 0 then FNaN else FInf (0 < a)) else mk_f64 (sgn b * a * f64_one_units) \<bar>b\<bar>)"

fun fabs :: "f64 \<Rightarrow> f64" where
  "fabs FNaN = FNaN"
| "fabs (FInf s) = FInf True"
| "fabs (FFin k) = FFin \<bar>k\<bar>"

definition f64_one :: f64 where "f64_one = FFin f64_one_units"

subsection \<open>The state (state.go)\<close>

text \<open>\<open>fmt.Sprintf("%.8f", price)\<close>\<close>

definition levelKey :: "f64 \<Rightarrow> string" where
  "levelKey price =
     (case price of
        FNaN \<Rightarrow> ''NaN''
      | FInf s \<Rightarrow> if s then ''+Inf'' else ''-Inf''
      | FFin k \<Rightarrow>
          (let n = nat (div_half_even (\<bar>k\<bar> * 10 ^ 8) f64_one_units) in
           decimal_text (k < 0) (utoa (n div 10 ^ 8)) (pad_digits 8 (n mod 10 ^ 8))))"

record resting_order =
  ro_orderID :: string
  ro_qty :: f64

text \<open>A missing map is made when it is first asked for.\<close>

record book_state =
  st_bids :: "string \<Rightarrow> string \<rightharpoonup> resting_order"
  st_asks :: "string \<Rightarrow> string \<rightharpoonup> resting_order"

definition newBookState :: book_state where
  "newBookState = \<lparr>st_bids = (\<lambda>_ _. None), st_asks = (\<lambda>_ _. None)\<rparr>"

definition sideMap :: "book_state \<Rightarrow> string \<Rightarrow> string \<Rightarrow> string \<rightharpoonup> resting_order" where
  "sideMap s symbol side = (if side = ''BUY'' then st_bids s symbol else st_asks s symbol)"

text \<open>The map is shared: what is written to it is written to the state.\<close>

definition set_sideMap :: "book_state \<Rightarrow> string \<Rightarrow> string \<Rightarrow> (string \<rightharpoonup> resting_order) \<Rightarrow> book_state" where
  "set_sideMap s symbol side m =
     (if side = ''BUY'' then s\<lparr>st_bids := (st_bids s)(symbol := m)\<rparr> else s\<lparr>st_asks := (st_asks s)(symbol := m)\<rparr>)"

subsection \<open>The bot (bot.go)\<close>

record bot_config =
  bc_Symbols :: "string list"
  bc_Depth :: nat
  bc_TickInterval :: int
  bc_QtyJitter :: f64

definition DefaultConfig :: "string list \<Rightarrow> bot_config" where
  "DefaultConfig symbols = \<lparr>bc_Symbols = symbols, bc_Depth = 5, bc_TickInterval = 200000, bc_QtyJitter = f64_of_decimal 5 (- 2)\<rparr>"

text \<open>One run of \<open>sync\<close>: what \<open>rand.Float64\<close> returns, and the orders of the two loops over maps.\<close>

record sync_run =
  sr_rand :: "nat \<Rightarrow> f64"
  sr_cancel :: "string list"
  sr_place :: "string list"

definition jitter :: "bot_config \<Rightarrow> f64 \<Rightarrow> f64" where
  "jitter cfg r =
     (if fle (bc_QtyJitter cfg) f64_zero then f64_one
      else fadd f64_one (fmul (fsub (fmul r (fadd f64_one f64_one)) f64_one) (bc_QtyJitter cfg)))"

definition materialDrift :: "f64 \<Rightarrow> f64 \<Rightarrow> bool" where
  "materialDrift prev next =
     (if feq prev f64_zero then \<not> feq next f64_zero
      else flt (f64_of_decimal 10 (- 2)) (fdiv (fabs (fsub next prev)) prev))"

definition topLevels :: "(f64 \<times> f64) list \<Rightarrow> nat \<Rightarrow> (f64 \<times> f64) list" where
  "topLevels src n = (if length src \<le> n then src else take n src)"

definition parseLevelKey :: "string \<Rightarrow> f64" where
  "parseLevelKey key = fst (ParseFloat key)"

text \<open>The levels wanted, by key; of two with one key the later counts. \<open>n\<close> counts the random numbers drawn.\<close>

fun wants :: "bot_config \<Rightarrow> (nat \<Rightarrow> f64) \<Rightarrow> nat \<Rightarrow> (f64 \<times> f64) list \<Rightarrow> (string \<rightharpoonup> f64) \<Rightarrow> (string \<rightharpoonup> f64)" where
  "wants cfg rand n [] want = want"
| "wants cfg rand n ((price, qty) # levels) want =
     (if fle price f64_zero \<or> fle qty f64_zero then wants cfg rand n levels want
      else wants cfg rand (Suc n) levels (want(levelKey price \<mapsto> fmul qty (jitter cfg (rand n)))))"

text \<open>Whether a resting level is to be cancelled.\<close>

definition stale_level :: "(string \<rightharpoonup> f64) \<Rightarrow> string \<Rightarrow> resting_order \<Rightarrow> bool" where
  "stale_level want key resting = (case want key of None \<Rightarrow> True | Some wantQty \<Rightarrow> materialDrift (ro_qty resting) wantQty)"

fun cancel_loop :: "(string \<rightharpoonup> f64) \<Rightarrow> string \<Rightarrow> string list \<Rightarrow> (string \<rightharpoonup> resting_order) \<Rightarrow> world \<Rightarrow> (string \<rightharpoonup> resting_order) \<times> world" where
  "cancel_loop want symbol [] cur w = (cur, w)"
| "cancel_loop want symbol (key # keys) cur w =
     (case cur key of
        None \<Rightarrow> cancel_loop want symbol keys cur w
      | Some resting \<Rightarrow>
          if stale_level want key resting
          then (case SubmitCancel (ro_orderID resting) symbol w of (_, w') \<Rightarrow> cancel_loop want symbol keys (cur(key := None)) w')
          else cancel_loop want symbol keys cur w)"

fun place_loop ::
  "deps \<Rightarrow> (string \<rightharpoonup> f64) \<Rightarrow> string \<Rightarrow> string \<Rightarrow> string list \<Rightarrow> (string \<rightharpoonup> resting_order) \<Rightarrow> world \<Rightarrow> (string \<rightharpoonup> resting_order) \<times> world" where
  "place_loop dp want symbol side [] cur w = (cur, w)"
| "place_loop dp want symbol side (key # keys) cur w =
     (case want key of
        None \<Rightarrow> place_loop dp want symbol side keys cur w
      | Some wantQty \<Rightarrow>
          if cur key \<noteq> None then place_loop dp want symbol side keys cur w
          else
          (case NewV7 w of
             (Inl _, w1) \<Rightarrow> place_loop dp want symbol side keys cur w1
           | (Inr i, w1) \<Rightarrow>
               (case SubmitPlace (dp_uuid_str dp i) [] symbol side (parseLevelKey key) wantQty w1 of
                  (Inl _, w2) \<Rightarrow> place_loop dp want symbol side keys cur w2
                | (Inr _, w2) \<Rightarrow>
                    place_loop dp want symbol side keys (cur(key \<mapsto> \<lparr>ro_orderID = dp_uuid_str dp i, ro_qty = wantQty\<rparr>)) w2)))"

definition sync :: "deps \<Rightarrow> bot_config \<Rightarrow> sync_run \<Rightarrow> string \<Rightarrow> string \<Rightarrow> (f64 \<times> f64) list \<Rightarrow> book_state \<Rightarrow> world \<Rightarrow> book_state \<times> world" where
  "sync dp cfg run symbol side levels s w =
     (let want = wants cfg (sr_rand run) 0 levels (\<lambda>_. None) in
      case cancel_loop want symbol (sr_cancel run) (sideMap s symbol side) w of (cur1, w1) \<Rightarrow>
      case place_loop dp want symbol side (sr_place run) cur1 w1 of (cur2, w2) \<Rightarrow>
        (set_sideMap s symbol side cur2, w2))"

text \<open>What the loops range over: every key of the map, once.\<close>

definition ranges :: "string list \<Rightarrow> (string \<rightharpoonup> 'a) \<Rightarrow> bool" where
  "ranges keys m \<longleftrightarrow> distinct keys \<and> set keys = dom m"

definition run_ok :: "bot_config \<Rightarrow> sync_run \<Rightarrow> string \<Rightarrow> string \<Rightarrow> (f64 \<times> f64) list \<Rightarrow> book_state \<Rightarrow> bool" where
  "run_ok cfg run symbol side levels s \<longleftrightarrow>
     ranges (sr_cancel run) (sideMap s symbol side) \<and> ranges (sr_place run) (wants cfg (sr_rand run) 0 levels (\<lambda>_. None))"

text \<open>\<open>feed\<close> is what the snapshot of the market feed answers for the symbol.\<close>

definition bot_tick ::
  "deps \<Rightarrow> bot_config \<Rightarrow> sync_run \<Rightarrow> sync_run \<Rightarrow> ((f64 \<times> f64) list \<times> (f64 \<times> f64) list) option \<Rightarrow> string \<Rightarrow> book_state \<Rightarrow> world \<Rightarrow> book_state \<times> world" where
  "bot_tick dp cfg buy sell feed symbol s w =
     (case feed of
        None \<Rightarrow> (s, w)
      | Some (bids, asks) \<Rightarrow>
          (case sync dp cfg buy symbol ''BUY'' (topLevels bids (bc_Depth cfg)) s w of (s1, w1) \<Rightarrow>
             sync dp cfg sell symbol ''SELL'' (topLevels asks (bc_Depth cfg)) s1 w1))"

text \<open>One tick of \<open>Start\<close>: all symbols in turn, on the snapshots of the client of the market feed.\<close>

fun bot_round ::
  "deps \<Rightarrow> bot_config \<Rightarrow> (string \<Rightarrow> sync_run \<times> sync_run) \<Rightarrow> gotime \<Rightarrow> 'h mf_client \<Rightarrow> string list \<Rightarrow> book_state \<Rightarrow> world \<Rightarrow> book_state \<times> world" where
  "bot_round dp cfg runs now c [] s w = (s, w)"
| "bot_round dp cfg runs now c (sy # symbols) s w =
     (case bot_tick dp cfg (fst (runs sy)) (snd (runs sy)) (RawSnapshot now c sy) sy s w of (s', w') \<Rightarrow>
        bot_round dp cfg runs now c symbols s' w')"

end
