(* ===== verification/Partnerfeed_Properties.thy ===== *)
theory Partnerfeed_Properties
  imports Partnerfeed Format
begin

text \<open>
  What one synchronisation does to the bot's memory and to the engine: exactly, when the engine takes every
  command; and what is forgotten when it does not. The price of a level survives its key.
\<close>

subsection \<open>The side maps\<close>

lemma sideMap_set [simp]: "sideMap (set_sideMap s symbol side m) symbol side = m"
  by (simp add: sideMap_def set_sideMap_def)

lemma sideMap_other: "symbol' \<noteq> symbol \<or> (side' = ''BUY'') \<noteq> (side = ''BUY'') \<Longrightarrow> sideMap (set_sideMap s symbol side m) symbol' side' = sideMap s symbol' side'"
  by (auto simp: sideMap_def set_sideMap_def)

subsection \<open>Cancelling\<close>

definition cancel_cmd :: "string \<Rightarrow> string \<Rightarrow> command" where
  "cancel_cmd symbol oid = \<lparr>cmd_Kind = CommandCancelOrder, cmd_Order = None, cmd_Cancel = Some \<lparr>ci_OrderID = oid, ci_Symbol = symbol\<rparr>\<rparr>"

lemma cancel_cmd_symbol [simp]: "commandSymbol (cancel_cmd symbol oid) = symbol"
  by (simp add: cancel_cmd_def commandSymbol_def CommandPlaceOrder_def CommandCancelOrder_def)

definition stale_keys :: "(string \<rightharpoonup> f64) \<Rightarrow> (string \<rightharpoonup> resting_order) \<Rightarrow> string list \<Rightarrow> string list" where
  "stale_keys want cur keys = filter (\<lambda>k. case cur k of None \<Rightarrow> False | Some r \<Rightarrow> stale_level want k r) keys"

definition cancels :: "string \<Rightarrow> (string \<rightharpoonup> resting_order) \<Rightarrow> string list \<Rightarrow> command list" where
  "cancels symbol cur keys = map (\<lambda>k. case cur k of None \<Rightarrow> cancel_cmd symbol [] | Some r \<Rightarrow> cancel_cmd symbol (ro_orderID r)) keys"

text \<open>What is remembered after the cancellations does not depend on whether the engine took them.\<close>

lemma cancel_loop_memory:
  "distinct keys \<Longrightarrow> fst (cancel_loop want symbol keys cur w) = (\<lambda>k. if k \<in> set (stale_keys want cur keys) then None else cur k)"
proof (induction keys arbitrary: cur w)
  case (Cons key keys)
  have same: "stale_keys want (cur(key := None)) keys = stale_keys want cur keys"
    using Cons.prems unfolding stale_keys_def by (intro filter_cong) auto
  show ?case
  proof (cases "cur key")
    case None
    then show ?thesis using Cons by (simp add: stale_keys_def)
  next
    case (Some r)
    have "key \<notin> set (stale_keys want cur keys)" using Cons.prems by (simp add: stale_keys_def)
    then show ?thesis using Cons same Some by (auto simp: stale_keys_def fun_eq_iff split: prod.splits)
  qed
qed (simp add: stale_keys_def)

text \<open>The engine's shard of a market with room for \<open>n\<close> more commands, and the commands it gets.\<close>

definition shard_room :: "string \<Rightarrow> nat \<Rightarrow> world \<Rightarrow> bool" where
  "shard_room symbol n w \<longleftrightarrow> (\<exists>e sh. w_engine w = Some e \<and> eng_shards e symbol = Some sh \<and> length (sh_cmdCh sh) + n \<le> sh_cap sh)"

definition queued :: "string \<Rightarrow> world \<Rightarrow> command list" where
  "queued symbol w = (case w_engine w of None \<Rightarrow> [] | Some e \<Rightarrow> (case eng_shards e symbol of None \<Rightarrow> [] | Some sh \<Rightarrow> sh_cmdCh sh))"

definition ids_ok :: "world \<Rightarrow> bool" where
  "ids_ok w \<longleftrightarrow> (\<forall>t. e_uuid (w_env w) t \<noteq> None)"

lemma SubmitCancel_room:
  assumes "shard_room symbol (Suc n) w"
  obtains w' where "SubmitCancel oid symbol w = (Inr (), w')" and "shard_room symbol n w'"
    and "queued symbol w' = queued symbol w @ [cancel_cmd symbol oid]" and "w_env w' = w_env w"
proof -
  obtain e sh where e: "w_engine w = Some e" "eng_shards e symbol = Some sh" "length (sh_cmdCh sh) + Suc n \<le> sh_cap sh"
    using assms by (auto simp: shard_room_def)
  let ?e = "e\<lparr>eng_shards := (eng_shards e)(symbol \<mapsto> sh\<lparr>sh_cmdCh := sh_cmdCh sh @ [cancel_cmd symbol oid]\<rparr>)\<rparr>"
  have "Submit e (cancel_cmd symbol oid) = (None, ?e)" using e by (simp add: Submit_def)
  then have s: "SubmitCancel oid symbol w = (Inr (), w\<lparr>w_engine := Some ?e\<rparr>)" using e(1) by (simp add: SubmitCancel_def cancel_cmd_def)
  show thesis by (rule that [OF s]) (use e in \<open>auto simp: shard_room_def queued_def\<close>)
qed

lemma cancel_loop_room:
  "distinct keys \<Longrightarrow> shard_room symbol (length (stale_keys want cur keys) + n) w \<Longrightarrow> cancel_loop want symbol keys cur w = (cur', w') \<Longrightarrow>
     shard_room symbol n w' \<and> queued symbol w' = queued symbol w @ cancels symbol cur (stale_keys want cur keys) \<and> w_env w' = w_env w"
proof (induction keys arbitrary: cur w)
  case (Cons key keys)
  show ?case
  proof (cases "\<exists>r. cur key = Some r \<and> stale_level want key r")
    case False
    then have "stale_keys want cur (key # keys) = stale_keys want cur keys" by (auto simp: stale_keys_def split: option.splits)
    moreover have "cancel_loop want symbol keys cur w = (cur', w')" using False Cons.prems(3) by (auto split: option.splits)
    ultimately show ?thesis using Cons by simp
  next
    case True
    then obtain r where r: "cur key = Some r" "stale_level want key r" by blast
    have same: "stale_keys want (cur(key := None)) keys = stale_keys want cur keys"
      using Cons.prems(1) unfolding stale_keys_def by (intro filter_cong) auto
    have cs: "cancels symbol (cur(key := None)) (stale_keys want cur keys) = cancels symbol cur (stale_keys want cur keys)"
      using Cons.prems(1) by (auto simp: cancels_def stale_keys_def)
    have s: "stale_keys want cur (key # keys) = key # stale_keys want cur keys" using r by (simp add: stale_keys_def)
    then have "shard_room symbol (Suc (length (stale_keys want cur keys) + n)) w" using Cons.prems(2) by simp
    then obtain w1 where w1: "SubmitCancel (ro_orderID r) symbol w = (Inr (), w1)" "shard_room symbol (length (stale_keys want cur keys) + n) w1"
      "queued symbol w1 = queued symbol w @ [cancel_cmd symbol (ro_orderID r)]" "w_env w1 = w_env w"
      by (rule SubmitCancel_room)
    have rest: "cancel_loop want symbol keys (cur(key := None)) w1 = (cur', w')" using Cons.prems(3) r w1(1) by simp
    have "distinct keys" using Cons.prems(1) by simp
    from Cons.IH [OF this _ rest, unfolded same cs, OF w1(2)] show ?thesis using w1(3,4) r(1) by (simp add: s) (simp add: cancels_def)
  qed
qed (simp add: stale_keys_def cancels_def)

subsection \<open>Placing\<close>

definition place_cmd_of :: "string \<Rightarrow> string \<Rightarrow> string \<Rightarrow> string \<Rightarrow> f64 \<Rightarrow> gotime \<Rightarrow> command" where
  "place_cmd_of symbol side key oid qty t =
     \<lparr>cmd_Kind = CommandPlaceOrder,
      cmd_Order = Some \<lparr>eo_ID = oid, eo_UserID = [], eo_Symbol = symbol, eo_Side = side, eo_Price = parseLevelKey key,
                   eo_Quantity = qty, eo_Remaining = qty, eo_Timestamp = t\<rparr>,
      cmd_Cancel = None\<rparr>"

lemma place_cmd_symbol [simp]: "commandSymbol (place_cmd_of symbol side key oid qty t) = symbol"
  by (simp add: place_cmd_of_def commandSymbol_def)

definition missing_keys :: "(string \<rightharpoonup> f64) \<Rightarrow> (string \<rightharpoonup> resting_order) \<Rightarrow> string list \<Rightarrow> string list" where
  "missing_keys want cur keys = filter (\<lambda>k. want k \<noteq> None \<and> cur k = None) keys"

text \<open>A command that places the order remembered for a key.\<close>

definition places :: "string \<Rightarrow> string \<Rightarrow> (string \<rightharpoonup> f64) \<Rightarrow> (string \<rightharpoonup> resting_order) \<Rightarrow> string \<Rightarrow> command \<Rightarrow> bool" where
  "places symbol side want cur key cmd \<longleftrightarrow>
     (\<exists>oid qty t. want key = Some qty \<and> cur key = Some \<lparr>ro_orderID = oid, ro_qty = qty\<rparr> \<and> cmd = place_cmd_of symbol side key oid qty t)"

lemma SubmitPlace_room:
  assumes "shard_room symbol (Suc n) w"
  obtains w' where "SubmitPlace oid [] symbol side (parseLevelKey key) qty w = (Inr (), w')" and "shard_room symbol n w'"
    and "queued symbol w' = queued symbol w @ [place_cmd_of symbol side key oid qty (e_now (w_env w) (w_tick w))]" and "w_env w' = w_env w"
proof -
  obtain e sh where e: "w_engine w = Some e" "eng_shards e symbol = Some sh" "length (sh_cmdCh sh) + Suc n \<le> sh_cap sh"
    using assms by (auto simp: shard_room_def)
  let ?c = "place_cmd_of symbol side key oid qty (e_now (w_env w) (w_tick w))"
  let ?e = "e\<lparr>eng_shards := (eng_shards e)(symbol \<mapsto> sh\<lparr>sh_cmdCh := sh_cmdCh sh @ [?c]\<rparr>)\<rparr>"
  have "Submit e ?c = (None, ?e)" using e by (simp add: Submit_def)
  then have s: "SubmitPlace oid [] symbol side (parseLevelKey key) qty w = (Inr (), (tick w)\<lparr>w_engine := Some ?e\<rparr>)"
    using e(1) by (simp add: SubmitPlace_def place_cmd_of_def)
  show thesis by (rule that [OF s]) (use e in \<open>auto simp: shard_room_def queued_def tick_def\<close>)
qed

lemma NewV7_ids:
  assumes "ids_ok w"
  obtains i where "NewV7 w = (Inr i, tick w)"
  using assms [unfolded ids_ok_def, rule_format, of "w_tick w"] that by (auto simp: NewV7_def)

lemma tick_same [simp]:
  "ids_ok (tick w) = ids_ok w" "shard_room symbol n (tick w) = shard_room symbol n w" "queued symbol (tick w) = queued symbol w"
  "w_env (tick w) = w_env w"
  by (simp_all add: ids_ok_def shard_room_def queued_def tick_def)

lemma place_loop_keeps:
  "place_loop dp want symbol side keys cur w = (cur', w') \<Longrightarrow> cur k = Some r \<Longrightarrow> cur' k = Some r"
proof (induction keys arbitrary: cur w)
  case (Cons key keys)
  obtain res w1 where n: "NewV7 w = (res, w1)" by force
  show ?case
    using Cons.prems Cons.IH
    by (cases "k = key") (auto simp: n split: option.splits if_splits sum.splits prod.splits)
qed simp

lemma place_loop_room:
  "distinct keys \<Longrightarrow> ids_ok w \<Longrightarrow> shard_room symbol (length (missing_keys want cur keys)) w \<Longrightarrow>
   place_loop dp want symbol side keys cur w = (cur', w') \<Longrightarrow>
     (\<forall>k. cur' k = None \<longleftrightarrow> cur k = None \<and> k \<notin> set (missing_keys want cur keys)) \<and>
     (\<exists>cmds. queued symbol w' = queued symbol w @ cmds \<and> list_all2 (places symbol side want cur') (missing_keys want cur keys) cmds)"
proof (induction keys arbitrary: cur w)
  case (Cons key keys)
  show ?case
  proof (cases "want key \<noteq> None \<and> cur key = None")
    case False
    then have "missing_keys want cur (key # keys) = missing_keys want cur keys" by (auto simp: missing_keys_def)
    moreover have "place_loop dp want symbol side keys cur w = (cur', w')" using False Cons.prems(4) by (auto split: option.splits)
    ultimately show ?thesis using Cons by simp
  next
    case True
    then obtain qty where q: "want key = Some qty" "cur key = None" by auto
    have m: "missing_keys want cur (key # keys) = key # missing_keys want cur keys" using q by (simp add: missing_keys_def)
    obtain i where i: "NewV7 w = (Inr i, tick w)" using Cons.prems(2) by (rule NewV7_ids)
    let ?oid = "dp_uuid_str dp i" and ?r = "\<lparr>ro_orderID = dp_uuid_str dp i, ro_qty = qty\<rparr>"
    have "shard_room symbol (Suc (length (missing_keys want cur keys))) (tick w)" using Cons.prems(3) by (simp add: m)
    then obtain w2 where w2: "SubmitPlace ?oid [] symbol side (parseLevelKey key) qty (tick w) = (Inr (), w2)"
      "shard_room symbol (length (missing_keys want cur keys)) w2"
      "queued symbol w2 = queued symbol w @ [place_cmd_of symbol side key ?oid qty (e_now (w_env (tick w)) (w_tick (tick w)))]" "w_env w2 = w_env w"
      by (rule SubmitPlace_room) simp
    have same: "missing_keys want (cur(key \<mapsto> ?r)) keys = missing_keys want cur keys"
      using Cons.prems(1) unfolding missing_keys_def by (intro filter_cong) auto
    have rest: "place_loop dp want symbol side keys (cur(key \<mapsto> ?r)) w2 = (cur', w')" using Cons.prems(4) q i w2(1) by simp
    have ids: "ids_ok w2" using Cons.prems(2) w2(4) by (simp add: ids_ok_def)
    obtain cmds where c: "\<forall>k. cur' k = None \<longleftrightarrow> (cur(key \<mapsto> ?r)) k = None \<and> k \<notin> set (missing_keys want cur keys)"
      "queued symbol w' = queued symbol w2 @ cmds" "list_all2 (places symbol side want cur') (missing_keys want cur keys) cmds"
      using Cons.IH [OF _ ids _ rest, unfolded same, OF _ w2(2)] Cons.prems(1) by auto
    have "cur' key = Some ?r" using place_loop_keeps [OF rest] by simp
    then have "places symbol side want cur' key (place_cmd_of symbol side key ?oid qty (e_now (w_env (tick w)) (w_tick (tick w))))"
      using q(1) by (auto simp: places_def)
    then show ?thesis using c w2(3) by (auto simp: m intro!: exI [of _ "_ # cmds"])
  qed
qed (simp add: missing_keys_def)


subsection \<open>One synchronisation\<close>

text \<open>
  C29. When the engine has room for the commands and identifiers can be made, a synchronisation leaves the bot
  remembering exactly the levels wanted: a level that has neither vanished nor drifted keeps its
  order, whatever the engine has done with that order since; every other order is cancelled and every
  other level placed anew with the wanted quantity, and the engine's queue gets these commands, the
  cancellations first, and no others. The other side and the other markets are untouched.
\<close>
theorem sync_exact:
  assumes "run_ok cfg run symbol side levels s" and "ids_ok w"
    and "want = wants cfg (sr_rand run) 0 levels (\<lambda>_. None)" and "cur = sideMap s symbol side"
    and "shard_room symbol (length (sr_cancel run) + length (sr_place run)) w"
    and "sync dp cfg run symbol side levels s w = (s', w')"
  shows "dom (sideMap s' symbol side) = dom want
    \<and> (\<forall>k r. cur k = Some r \<and> \<not> stale_level want k r \<longrightarrow> sideMap s' symbol side k = Some r)
    \<and> (\<exists>cmds. queued symbol w' = queued symbol w @ cancels symbol cur (stale_keys want cur (sr_cancel run)) @ cmds \<and>
        list_all2 (places symbol side want (sideMap s' symbol side))
          (filter (\<lambda>k. \<forall>r. cur k = Some r \<longrightarrow> stale_level want k r) (sr_place run)) cmds)
    \<and> (\<forall>symbol' side'. symbol' \<noteq> symbol \<or> (side' = ''BUY'') \<noteq> (side = ''BUY'') \<longrightarrow> sideMap s' symbol' side' = sideMap s symbol' side')"
proof -
  have r: "distinct (sr_cancel run)" "set (sr_cancel run) = dom cur" "distinct (sr_place run)" "set (sr_place run) = dom want"
    using assms(1) by (simp_all add: run_ok_def ranges_def assms(3,4))
  obtain cur1 w1 where c: "cancel_loop want symbol (sr_cancel run) cur w = (cur1, w1)" by force
  obtain cur2 w2 where p: "place_loop dp want symbol side (sr_place run) cur1 w1 = (cur2, w2)" by force
  have out: "s' = set_sideMap s symbol side cur2" "w' = w2" using assms(6) c p by (simp_all add: sync_def Let_def assms(3,4))
  let ?stale = "stale_keys want cur (sr_cancel run)"
  have room: "shard_room symbol (length ?stale + length (sr_place run)) w"
    using assms(5) length_filter_le [of _ "sr_cancel run"] unfolding shard_room_def stale_keys_def by (meson add_le_mono le_refl order.trans)
  note cl = cancel_loop_room [OF r(1) room c]
  have mem: "cur1 = (\<lambda>k. if k \<in> set ?stale then None else cur k)" using cancel_loop_memory [OF r(1), of want symbol cur w] c by simp
  have stale: "k \<in> set ?stale \<longleftrightarrow> (\<exists>r. cur k = Some r \<and> stale_level want k r)" for k
    using r(2) by (auto simp: stale_keys_def split: option.splits)
  have ids: "ids_ok w1" using assms(2) cl by (simp add: ids_ok_def)
  have miss: "missing_keys want cur1 (sr_place run) = filter (\<lambda>k. \<forall>r. cur k = Some r \<longrightarrow> stale_level want k r) (sr_place run)"
    unfolding missing_keys_def using r(4) by (intro filter_cong) (auto simp: mem stale)
  have "shard_room symbol (length (missing_keys want cur1 (sr_place run))) w1"
    using cl length_filter_le [of _ "sr_place run"] unfolding shard_room_def missing_keys_def by (meson add_le_mono le_refl order.trans)
  note pl = place_loop_room [OF r(3) ids this p]
  have "cur2 k \<noteq> None \<longleftrightarrow> k \<in> dom want" for k
  proof (cases "cur1 k")
    case None
    then show ?thesis using pl r(4) by (auto simp: missing_keys_def)
  next
    case (Some x)
    then have "cur k = Some x" "\<not> stale_level want k x" using stale [of k] by (auto simp: mem split: if_splits)
    then have "want k \<noteq> None" by (auto simp: stale_level_def split: option.splits)
    then show ?thesis using pl Some by (auto simp: domIff)
  qed
  then have "dom cur2 = dom want" by auto
  moreover have "cur2 k = Some r" if "cur k = Some r" "\<not> stale_level want k r" for k r
    using place_loop_keeps [OF p] that stale [of k] by (simp add: mem)
  ultimately show ?thesis using pl cl unfolding miss out sideMap_set by (auto simp: sideMap_other)
qed

text \<open>
  A cancellation the engine refuses is forgotten: when the queue of the market is full, a
  synchronisation with a snapshot that wants no level leaves the engine as it was, with every order of
  the bot still to be matched, and the bot remembering none of them, so that nothing will cancel them.
\<close>
theorem refused_cancel_forgotten:
  assumes "run_ok cfg run symbol side levels s" and "wants cfg (sr_rand run) 0 levels (\<lambda>_. None) = Map.empty"
    and "w_engine w = Some e" and "eng_shards e symbol = Some sh" and "sh_cap sh \<le> length (sh_cmdCh sh)"
    and "sync dp cfg run symbol side levels s w = (s', w')"
  shows "w_engine w' = Some e \<and> sideMap s' symbol side = Map.empty"
proof -
  let ?cur = "sideMap s symbol side"
  have r: "distinct (sr_cancel run)" "set (sr_cancel run) = dom ?cur" "sr_place run = []" using assms(1,2) by (simp_all add: run_ok_def ranges_def)
  obtain cur1 w1 where c: "cancel_loop Map.empty symbol (sr_cancel run) ?cur w = (cur1, w1)" by force
  have sub: "SubmitCancel oid symbol v = (Inl ErrSubmitChannelFull, v)" if "w_engine v = Some e" for oid v
  proof -
    have "Submit e (cancel_cmd symbol oid) = (Some ErrSubmitChannelFull, e)" using assms(4,5) by (simp add: Submit_def)
    then have "SubmitCancel oid symbol v = (Inl ErrSubmitChannelFull, v\<lparr>w_engine := Some e\<rparr>)" using that by (simp add: SubmitCancel_def cancel_cmd_def)
    then show ?thesis using that by simp
  qed
  have "w_engine v = Some e \<Longrightarrow> snd (cancel_loop Map.empty symbol keys cur v) = v" for keys cur v
    by (induction keys arbitrary: cur) (auto simp: sub split: option.splits)
  then have "w1 = w" using c assms(3) by (metis snd_conv)
  moreover have "cur1 = Map.empty"
  proof -
    have "set (stale_keys Map.empty ?cur (sr_cancel run)) = dom ?cur" using r(2) by (auto simp: stale_keys_def stale_level_def split: option.splits)
    then show ?thesis using cancel_loop_memory [OF r(1), of Map.empty symbol ?cur w] c by (auto simp: fun_eq_iff domIff)
  qed
  ultimately have "s' = set_sideMap s symbol side Map.empty" "w' = w" using assms(6) c by (simp_all add: sync_def Let_def assms(2) r(3))
  then show ?thesis using assms(3) by simp
qed


definition ex_bot_state :: book_state where
  "ex_bot_state = set_sideMap newBookState ''BTC-USDT'' ''BUY'' [''1.00000000'' \<mapsto> \<lparr>ro_orderID = ''o1'', ro_qty = f64_one\<rparr>]"

definition ex_bot_run :: sync_run where
  "ex_bot_run = \<lparr>sr_rand = (\<lambda>_. f64_zero), sr_cancel = [''1.00000000''], sr_place = []\<rparr>"

definition ex_bot_world :: "nat \<Rightarrow> world" where
  "ex_bot_world cap = (ex_world empty_db)\<lparr>w_engine := Some
     \<lparr>eng_shards = [''BTC-USDT'' \<mapsto> \<lparr>sh_book = NewOrderBook ''BTC-USDT'', sh_cmdCh = [], sh_cap = cap, sh_seq = 0\<rparr>], eng_started = True\<rparr>\<rparr>"

lemma ex_bot_run_ok: "run_ok (DefaultConfig []) ex_bot_run ''BTC-USDT'' ''BUY'' [] ex_bot_state"
  by (simp add: run_ok_def ranges_def ex_bot_run_def ex_bot_state_def)

lemma sync_exact_witness:
  "queued ''BTC-USDT'' (snd (sync ref_deps (DefaultConfig []) ex_bot_run ''BTC-USDT'' ''BUY'' [] ex_bot_state (ex_bot_world 4))) = [cancel_cmd ''BTC-USDT'' ''o1'']"
proof -
  have i: "ids_ok (ex_bot_world 4)" by (simp add: ids_ok_def ex_bot_world_def ex_world_def ex_env_def)
  have r: "shard_room ''BTC-USDT'' (length (sr_cancel ex_bot_run) + length (sr_place ex_bot_run)) (ex_bot_world 4)"
    by (simp add: shard_room_def ex_bot_world_def ex_bot_run_def)
  obtain s' w' where y: "sync ref_deps (DefaultConfig []) ex_bot_run ''BTC-USDT'' ''BUY'' [] ex_bot_state (ex_bot_world 4) = (s', w')" by force
  have q: "queued ''BTC-USDT'' (ex_bot_world 4) = []" by (simp add: queued_def ex_bot_world_def)
  have st: "stale_keys Map.empty (sideMap ex_bot_state ''BTC-USDT'' ''BUY'') (sr_cancel ex_bot_run) = [''1.00000000'']" "sr_place ex_bot_run = []"
    "cancels ''BTC-USDT'' (sideMap ex_bot_state ''BTC-USDT'' ''BUY'') [''1.00000000''] = [cancel_cmd ''BTC-USDT'' ''o1'']"
    by (simp_all add: stale_keys_def ex_bot_run_def ex_bot_state_def stale_level_def cancels_def)
  show ?thesis using sync_exact [OF ex_bot_run_ok i _ HOL.refl r y, of Map.empty] by (auto simp: y q st)
qed

lemma refused_cancel_forgotten_witness:
  "sideMap (fst (sync ref_deps (DefaultConfig []) ex_bot_run ''BTC-USDT'' ''BUY'' [] ex_bot_state (ex_bot_world 0))) ''BTC-USDT'' ''BUY'' = Map.empty"
proof -
  obtain s' w' where y: "sync ref_deps (DefaultConfig []) ex_bot_run ''BTC-USDT'' ''BUY'' [] ex_bot_state (ex_bot_world 0) = (s', w')" by force
  have "sideMap s' ''BTC-USDT'' ''BUY'' = Map.empty"
    by (rule conjunct2 [OF refused_cancel_forgotten [OF ex_bot_run_ok _ _ _ _ y]]) (simp add: ex_bot_world_def)+
  then show ?thesis by (simp add: y)
qed

subsection \<open>Prices\<close>

lemma levelKey_digits:
  assumes "0 < m" and "m < 10 ^ 15"
  shows "levelKey (f64_of_decimal m (- 8)) = decimal_text False (utoa (nat m div 10 ^ 8)) (pad_digits 8 (nat m mod 10 ^ 8))"
proof -
  obtain U where U: "U = f64_one_units" "0 < U" using one_units_pos by blast
  have "m * 100 < 10 ^ 115" by (rule less_trans [of _ "10 ^ 17"]) (use assms(2) in simp_all)
  then obtain k where k: "mk_f64 (m * 100 * f64_one_units) 10000000000 = FFin k" using units_finite [of "m * 100"] assms(1) by auto
  have x: "f64_of_decimal m (- 8) = FFin k" using f64_of_decimal_units [of "- 8" m] k by simp
  have e: "9007199254740992 * \<bar>k * 10000000000 - m * 100 * U\<bar> \<le> m * 100 * U" and k0: "0 < k"
    using units_error [OF _ k] assms(1) unfolding U(1) by simp_all
  let ?d = "div_half_even (k * 10 ^ 8) U"
  have h: "2 * \<bar>?d * U - k * 10 ^ 8\<bar> \<le> U" by (rule div_half_even_error [OF U(2)])
  have "\<bar>?d * U - m * U\<bar> < U"
  proof -
    have mU: "m * U < 10 ^ 15 * U" using assms(2) U(2) by simp
    have step: "\<bar>d - n\<bar> < u" if "2 * \<bar>d - x * 100000000\<bar> \<le> u" "9007199254740992 * \<bar>x * 10000000000 - n * 100\<bar> \<le> n * 100" "n < 1000000000000000 * u" "0 < u"
      for d x n u :: int using that by (auto simp: abs_if algebra_simps split: if_splits)
    show ?thesis by (rule step [of _ k]) (use h e mU U(2) in \<open>simp_all add: mult_ac\<close>)
  qed
  then have "\<bar>?d - m\<bar> * U < 1 * U" using U(2) by (simp add: abs_mult left_diff_distrib [symmetric])
  then have d: "?d = m" using U(2) by (simp only: mult_less_cancel_right_pos)
  have a: "\<bar>k\<bar> = k" "\<not> k < 0" using k0 by simp_all
  show ?thesis using d unfolding levelKey_def x f64.case Let_def a(1) U(1) [symmetric] by (simp add: a(2))
qed

text \<open>
  The price of a level survives its key: for a price of at most eight decimals and fifteen digits the
  order placed has exactly the float64 of the snapshot, and two such prices have different keys.
\<close>
theorem level_price_exact:
  assumes "0 < m" and "m < 10 ^ 15"
  shows "parseLevelKey (levelKey (f64_of_decimal m (- 8))) = f64_of_decimal m (- 8)
    \<and> (\<forall>n. 0 < n \<and> n < 10 ^ 15 \<and> levelKey (f64_of_decimal n (- 8)) = levelKey (f64_of_decimal m (- 8)) \<longrightarrow> n = m)"
proof -
  have "parseLevelKey (levelKey (f64_of_decimal m (- 8))) = f64_of_decimal m (- 8) \<and>
      int (atou (filter is_digit (levelKey (f64_of_decimal m (- 8))))) = m" if "0 < m" "m < 10 ^ 15" for m
  proof -
    let ?ip = "utoa (nat m div 10 ^ 8)" and ?fp = "pad_digits 8 (nat m mod 10 ^ 8)"
    have dg: "list_all is_digit ?ip" "list_all is_digit ?fp" using utoa_digits pad_digits_digits by (auto simp: list_all_iff)
    have "atou (?ip @ ?fp) = nat m div 10 ^ 8 * 10 ^ 8 + nat m mod 10 ^ 8" by (simp add: atou_append atou_pad_digits del: power_numeral)
    then have n: "int (atou (?ip @ ?fp)) = m" using that(1) by (simp only: div_mult_mod_eq nat_0_le less_imp_le)
    have "parseLevelKey (decimal_text False ?ip ?fp) = f64_of_decimal m (- 8)"
      unfolding parseLevelKey_def ParseFloat_decimal [OF dg(1) utoa_not_Nil dg(2)] n by (simp add: Let_def)
    moreover have "filter is_digit (decimal_text False ?ip ?fp) = ?ip @ ?fp"
      using dg by (auto simp: decimal_text_def list_all_iff is_digit_def intro!: filter_True)
    ultimately show ?thesis using n unfolding levelKey_digits [OF that] by simp
  qed
  then show ?thesis using assms by metis
qed

lemma level_price_exact_witness:
  "parseLevelKey (levelKey (f64_of_decimal 6012345000000 (- 8))) = f64_of_decimal 6012345000000 (- 8)"
  using level_price_exact [of 6012345000000] by simp

end
