(* ===== verification/Klines.thy ===== *)
theory Klines
  imports Order Http Extjson
begin

text \<open>
  internal/klines: the proxy for the candles of Binance. The call over the network is a parameter, from
  the endpoint to what comes back.
\<close>

record kline =
  kl_OpenTime :: int
  kl_CloseTime :: int
  kl_Open :: string
  kl_High :: string
  kl_Low :: string
  kl_Close :: string
  kl_Volume :: string

definition validIntervals :: "string \<rightharpoonup> string" where
  "validIntervals = [''1m'' \<mapsto> ''1m'', ''5m'' \<mapsto> ''5m'', ''15m'' \<mapsto> ''15m'', ''30m'' \<mapsto> ''30m'', ''1h'' \<mapsto> ''1h'',
     ''4h'' \<mapsto> ''4h'', ''1d'' \<mapsto> ''1d'', ''1w'' \<mapsto> ''1w'']"

text \<open>An answer has a status, a text, and the JSON value of the text, if it is one.\<close>

datatype upstream = CallFails string | ReadFails string | Answer nat string "jmsg option"

record klines_service =
  ks_get :: "string \<Rightarrow> upstream"
  ks_baseURL :: string

definition klines_NewService :: "(string \<Rightarrow> upstream) \<Rightarrow> klines_service" where
  "klines_NewService get = \<lparr>ks_get = get, ks_baseURL = ''https://api.binance.com''\<rparr>"

record klines_query =
  kq_Symbol :: string
  kq_Interval :: string
  kq_StartTime :: int
  kq_EndTime :: int
  kq_Limit :: int

subsection \<open>Text\<close>

definition toBinanceSymbol :: "string \<Rightarrow> string" where
  "toBinanceSymbol s =
     (let out = filter (\<lambda>c. c \<noteq> CHR ''-'') s in
      if out = [] \<or> (out = s \<and> CHR ''-'' \<notin> set s) then [] else ToUpper out)"

definition hex_upper :: "nat \<Rightarrow> char" where
  "hex_upper n = (if n < 10 then char_of (48 + n) else char_of (55 + n))"

text \<open>\<open>url.QueryEscape\<close> and \<open>url.Values.Encode\<close> for parameters in the order of their keys.\<close>

definition unreserved :: "char \<Rightarrow> bool" where
  "unreserved c \<longleftrightarrow>
     (let n = (of_char c :: nat) in
      48 \<le> n \<and> n \<le> 57 \<or> 65 \<le> n \<and> n \<le> 90 \<or> 97 \<le> n \<and> n \<le> 122 \<or> n = 45 \<or> n = 46 \<or> n = 95 \<or> n = 126)"

definition QueryEscape :: "string \<Rightarrow> string" where
  "QueryEscape s =
     concat (map (\<lambda>c. if unreserved c then [c] else if c = CHR '' '' then ''+''
       else [CHR ''%'', hex_upper (of_char c div 16), hex_upper (of_char c mod 16)]) s)"

fun url_Encode :: "(string \<times> string) list \<Rightarrow> string" where
  "url_Encode [] = []"
| "url_Encode [(k, v)] = QueryEscape k @ ''='' @ QueryEscape v"
| "url_Encode ((k, v) # p # ps) = QueryEscape k @ ''='' @ QueryEscape v @ ''&'' @ url_Encode (p # ps)"

text \<open>The verb \<open>%q\<close>, for ASCII text.\<close>

definition go_quote :: "string \<Rightarrow> string" where
  "go_quote s =
     CHR 0x22 # concat (map (\<lambda>c. let n = (of_char c :: nat) in
       if n = 34 \<or> n = 92 then [CHR 0x5C, c]
       else if n = 7 then [CHR 0x5C, CHR ''a''] else if n = 8 then [CHR 0x5C, CHR ''b''] else if n = 9 then [CHR 0x5C, CHR ''t'']
       else if n = 10 then [CHR 0x5C, CHR ''n''] else if n = 11 then [CHR 0x5C, CHR ''v''] else if n = 12 then [CHR 0x5C, CHR ''f'']
       else if n = 13 then [CHR 0x5C, CHR ''r'']
       else if n < 32 \<or> n = 127 then [CHR 0x5C, CHR ''x'', lower_char (hex_upper (n div 16)), lower_char (hex_upper (n mod 16))]
       else [c]) s) @ [CHR 0x22]"

subsection \<open>Fetch\<close>

text \<open>The endpoint of a query, or why there is none.\<close>

definition clamp_limit :: "int \<Rightarrow> int" where
  "clamp_limit n = (let limit = (if n \<le> 0 then 500 else n) in if 1000 < limit then 1000 else limit)"

definition klines_params :: "string \<Rightarrow> string \<Rightarrow> klines_query \<Rightarrow> (string \<times> string) list" where
  "klines_params bSym bInterval q =
     (if 0 < kq_EndTime q then [(''endTime'', utoa (nat (kq_EndTime q)))] else []) @
     [(''interval'', bInterval), (''limit'', utoa (nat (clamp_limit (kq_Limit q))))] @
     (if 0 < kq_StartTime q then [(''startTime'', utoa (nat (kq_StartTime q)))] else []) @
     [(''symbol'', bSym)]"

definition klines_endpoint :: "klines_service \<Rightarrow> klines_query \<Rightarrow> gerr + string" where
  "klines_endpoint s q =
     (let bSym = toBinanceSymbol (kq_Symbol q) in
      if bSym = [] then Inl (Opaque (''klines: invalid symbol '' @ go_quote (kq_Symbol q)))
      else case validIntervals (kq_Interval q) of
        None \<Rightarrow> Inl (Opaque (''klines: invalid interval '' @ go_quote (kq_Interval q)))
      | Some bInterval \<Rightarrow> Inr (ks_baseURL s @ ''/api/v3/klines?'' @ url_Encode (klines_params bSym bInterval q)))"

text \<open>A row of at least seven values; shorter ones are left out.\<close>

definition klines_row :: "jmsg list \<Rightarrow> kline" where
  "klines_row row =
     \<lparr>kl_OpenTime = decode_int64 (row ! 0), kl_CloseTime = decode_int64 (row ! 6), kl_Open = decode_text (row ! 1),
      kl_High = decode_text (row ! 2), kl_Low = decode_text (row ! 3), kl_Close = decode_text (row ! 4), kl_Volume = decode_text (row ! 5)\<rparr>"

fun klines_rows :: "jmsg list list \<Rightarrow> kline list" where
  "klines_rows [] = []"
| "klines_rows (row # raw) = (if length row < 7 then klines_rows raw else klines_row row # klines_rows raw)"

definition klines_Fetch :: "klines_service \<Rightarrow> klines_query \<Rightarrow> gerr + kline list" where
  "klines_Fetch s q =
     (case klines_endpoint s q of
        Inl err \<Rightarrow> Inl err
      | Inr endpoint \<Rightarrow>
          (case ks_get s endpoint of
             CallFails e \<Rightarrow> Inl (Wrapped ''klines: http call: '' (Opaque e) [])
           | ReadFails e \<Rightarrow> Inl (Wrapped ''klines: read body: '' (Opaque e) [])
           | Answer status body v \<Rightarrow>
               if status \<noteq> 200 then Inl (Opaque (''klines: upstream '' @ utoa status @ '': '' @ body))
               else (case Option.bind v (decode_slice (decode_slice Some)) of
                       None \<Rightarrow> Inl (Wrapped ''klines: decode: '' (Opaque ''json'') [])
                     | Some raw \<Rightarrow> Inr (klines_rows raw))))"

subsection \<open>The handler\<close>

definition kline_json :: "kline \<Rightarrow> json" where
  "kline_json k =
     JObj [(''open_time'', JInt (kl_OpenTime k)), (''close_time'', JInt (kl_CloseTime k)), (''open'', JStr (kl_Open k)), (''high'', JStr (kl_High k)),
       (''low'', JStr (kl_Low k)), (''close'', JStr (kl_Close k)), (''volume'', JStr (kl_Volume k))]"

definition klinesHandler_Fetch :: "klines_service \<Rightarrow> request \<Rightarrow> http_response" where
  "klinesHandler_Fetch s r =
     (let q = rq_query r; symbol = q ''symbol''; interval = q ''interval'' in
      if symbol = [] \<or> interval = [] then HTTPError 400 ''symbol and interval are required''
      else
        case klines_Fetch s \<lparr>kq_Symbol = symbol, kq_Interval = interval, kq_StartTime = fst (ParseInt (q ''start_time'')),
               kq_EndTime = fst (ParseInt (q ''end_time'')), kq_Limit = fst (ParseInt (q ''limit''))\<rparr> of
          Inl err \<Rightarrow> HTTPError 400 (error_text err)
        | Inr out \<Rightarrow> WriteJSON 200 (JArr (map kline_json out)))"

subsection \<open>What reaches Binance\<close>

lemma clamp_limit_range: "1 \<le> clamp_limit n \<and> clamp_limit n \<le> 1000"
  by (simp add: clamp_limit_def Let_def)

lemma hex_upper_unreserved: "n < 16 \<Longrightarrow> unreserved (hex_upper n)"
  by (auto simp: hex_upper_def unreserved_def Let_def)

text \<open>An escaped text cannot break out of its parameter.\<close>

definition plain :: "string \<Rightarrow> bool" where
  "plain s \<longleftrightarrow> CHR ''&'' \<notin> set s \<and> CHR ''='' \<notin> set s \<and> CHR ''#'' \<notin> set s \<and> CHR ''?'' \<notin> set s \<and> CHR '' '' \<notin> set s"

lemma plain_escape: "plain (QueryEscape s)"
proof -
  have u: "unreserved c \<Longrightarrow> c \<noteq> CHR ''&'' \<and> c \<noteq> CHR ''='' \<and> c \<noteq> CHR ''#'' \<and> c \<noteq> CHR ''?'' \<and> c \<noteq> CHR '' ''" for c
    by (auto simp: unreserved_def)
  have "of_char c div 16 < (16 :: nat)" for c :: char using nat_of_char_less_256 [of c] by (simp add: less_mult_imp_div_less)
  then show ?thesis using u hex_upper_unreserved unfolding plain_def QueryEscape_def by (auto split: if_splits) (metis mod_less_divisor zero_less_numeral)+
qed

lemma url_Encode_split:
  "ps \<noteq> [] \<Longrightarrow> split_on CHR ''&'' (url_Encode ps) = map (\<lambda>(k, v). QueryEscape k @ ''='' @ QueryEscape v) ps"
proof (induction ps rule: url_Encode.induct)
  case (3 k v p ps)
  have "CHR ''&'' \<notin> set (QueryEscape k @ ''='' @ QueryEscape v)" using plain_escape [of k] plain_escape [of v] by (simp add: plain_def)
  from split_on_at [OF this] show ?case using 3 by simp
next
  case (2 k v)
  have "CHR ''&'' \<notin> set (QueryEscape k @ ''='' @ QueryEscape v)" using plain_escape [of k] plain_escape [of v] by (simp add: plain_def)
  then show ?case by (simp add: split_on_none)
qed simp

lemma interval_plain: "validIntervals i = Some iv \<Longrightarrow> iv = i \<and> list_all unreserved i"
  by (auto simp: validIntervals_def unreserved_def split: if_splits)

text \<open>
  C32. Whatever a client asks for, the one request that reaches Binance, if any, is for the candles, with a
  limit between 1 and 1000, an interval of the table, and a symbol in capitals without hyphens; no text
  of the client adds a parameter, ends the query or starts another.
\<close>
theorem klines_request_confined:
  assumes "klines_endpoint s q = Inr endpoint"
  shows "\<exists>query limit. endpoint = ks_baseURL s @ ''/api/v3/klines?'' @ query \<and> 1 \<le> limit \<and> limit \<le> 1000
    \<and> split_on CHR ''&'' query =
        (if 0 < kq_EndTime q then [''endTime='' @ utoa (nat (kq_EndTime q))] else []) @
        [''interval='' @ kq_Interval q, ''limit='' @ utoa limit] @
        (if 0 < kq_StartTime q then [''startTime='' @ utoa (nat (kq_StartTime q))] else []) @
        [''symbol='' @ QueryEscape (ToUpper (filter (\<lambda>c. c \<noteq> CHR ''-'') (kq_Symbol q)))]
    \<and> plain (QueryEscape (ToUpper (filter (\<lambda>c. c \<noteq> CHR ''-'') (kq_Symbol q))))"
proof -
  obtain iv where iv: "validIntervals (kq_Interval q) = Some iv"
    and e: "endpoint = ks_baseURL s @ ''/api/v3/klines?'' @ url_Encode (klines_params (toBinanceSymbol (kq_Symbol q)) iv q)"
    and sy: "toBinanceSymbol (kq_Symbol q) \<noteq> []"
    using assms by (auto simp: klines_endpoint_def Let_def split: if_splits option.splits)
  have sym: "toBinanceSymbol (kq_Symbol q) = ToUpper (filter (\<lambda>c. c \<noteq> CHR ''-'') (kq_Symbol q))"
    using sy by (auto simp: toBinanceSymbol_def Let_def split: if_splits)
  have esc: "QueryEscape t = t" if "list_all unreserved t" for t
    using that by (induction t) (auto simp: QueryEscape_def)
  have num: "QueryEscape (utoa n) = utoa n" for n
    using utoa_digits [of n] by (intro esc) (auto simp: list_all_iff is_digit_def unreserved_def Let_def)
  have keys: "QueryEscape ''endTime'' = ''endTime''" "QueryEscape ''interval'' = ''interval''" "QueryEscape ''limit'' = ''limit''"
    "QueryEscape ''startTime'' = ''startTime''" "QueryEscape ''symbol'' = ''symbol''" by code_simp+
  have "iv = kq_Interval q" "QueryEscape iv = iv" using interval_plain [OF iv] by (simp_all add: esc)
  then show ?thesis
    using clamp_limit_range [of "kq_Limit q"] plain_escape [of "ToUpper (filter (\<lambda>c. c \<noteq> CHR ''-'') (kq_Symbol q))"]
    by (intro exI [of _ "url_Encode (klines_params (toBinanceSymbol (kq_Symbol q)) iv q)"] exI [of _ "nat (clamp_limit (kq_Limit q))"])
      (auto simp: e sym url_Encode_split klines_params_def keys num)
qed

lemma klines_request_confined_witness:
  "\<exists>query limit. klines_endpoint (klines_NewService (\<lambda>_. CallFails []))
      \<lparr>kq_Symbol = ''A&b-c'', kq_Interval = ''1m'', kq_StartTime = 0, kq_EndTime = - 1, kq_Limit = 5000\<rparr>
        = Inr (''https://api.binance.com/api/v3/klines?'' @ query)
     \<and> split_on CHR ''&'' query = [''interval=1m'', ''limit='' @ utoa limit, ''symbol='' @ QueryEscape ''A&BC''] \<and> limit \<le> 1000"
proof -
  let ?s = "klines_NewService (\<lambda>_. CallFails [])"
  let ?q = "\<lparr>kq_Symbol = ''A&b-c'', kq_Interval = ''1m'', kq_StartTime = 0, kq_EndTime = - 1, kq_Limit = 5000\<rparr>"
  have t: "toBinanceSymbol ''A&b-c'' = ''A&BC''" "ToUpper (filter (\<lambda>c. c \<noteq> CHR ''-'') ''A&b-c'') = ''A&BC''" by code_simp+
  obtain e where e: "klines_endpoint ?s ?q = Inr e" by (simp add: klines_endpoint_def t(1) validIntervals_def)
  have b: "ks_baseURL ?s @ ''/api/v3/klines?'' = ''https://api.binance.com/api/v3/klines?''" by (simp add: klines_NewService_def)
  from klines_request_confined [OF e] obtain query limit where q: "e = ''https://api.binance.com/api/v3/klines?'' @ query" "limit \<le> 1000"
    "split_on CHR ''&'' query = [''interval=1m'', ''limit='' @ utoa limit, ''symbol='' @ QueryEscape ''A&BC'']"
    unfolding append_assoc [symmetric] b klines_query.simps t(2) by auto
  then show ?thesis using e by (intro exI [of _ query] exI [of _ limit]) (simp only: q(1))
qed

end
