(* ===== verification/Wsfeed.thy ===== *)
theory Wsfeed
  imports Eventbus Marketfeed
begin

text \<open>
  internal/wsfeed: the hub that hands published messages to the websocket clients. Publishers, the read
  loop and the write loop of each client are goroutines; \<open>ws_step\<close> is one atomic step of any of them. The
  hub's lock is in the guards: clients are registered and unregistered only when no publication runs.
\<close>

subsection \<open>Messages (publisher.go, hub.go)\<close>

record trade_payload =
  tp_Symbol :: string
  tp_Price :: f64
  tp_Quantity :: f64
  tp_Timestamp :: gotime

record delta_payload =
  dl_Symbol :: string
  dl_Side :: string
  dl_Price :: f64
  dl_Quantity :: f64
  dl_Kind :: string

datatype ws_payload =
    TradePayload trade_payload
  | DeltaPayload delta_payload
  | KlinePayload kline_snapshot
  | TickerPayload ticker_snapshot

record ws_envelope =
  we_Topic :: string
  we_Data :: ws_payload

text \<open>The handlers of the engine's events: what they publish, in order.\<close>

definition ws_onTradeMatched :: "event \<Rightarrow> ws_envelope list" where
  "ws_onTradeMatched e =
     (case e of
        TradeMatchedEvent evt \<Rightarrow>
          (let delta = (\<lambda>side. \<lparr>we_Topic = ''orderbook.'' @ tm_Symbol evt,
                  we_Data = DeltaPayload \<lparr>dl_Symbol = tm_Symbol evt, dl_Side = side, dl_Price = tm_Price evt,
                    dl_Quantity = fneg (tm_Quantity evt), dl_Kind = ''trade''\<rparr>\<rparr>) in
           [\<lparr>we_Topic = ''trades.'' @ tm_Symbol evt,
              we_Data = TradePayload \<lparr>tp_Symbol = tm_Symbol evt, tp_Price = tm_Price evt, tp_Quantity = tm_Quantity evt,
                tp_Timestamp = tm_Timestamp evt\<rparr>\<rparr>,
            delta ''BUY'', delta ''SELL''])
      | _ \<Rightarrow> [])"

definition ws_onOrderRested :: "event \<Rightarrow> ws_envelope list" where
  "ws_onOrderRested e =
     (case e of
        OrderRestedEvent evt \<Rightarrow>
          [\<lparr>we_Topic = ''orderbook.'' @ or_Symbol evt,
             we_Data = DeltaPayload \<lparr>dl_Symbol = or_Symbol evt, dl_Side = or_Side evt, dl_Price = or_Price evt,
               dl_Quantity = or_Remaining evt, dl_Kind = ''rest''\<rparr>\<rparr>]
      | _ \<Rightarrow> [])"

definition ws_onOrderCancelled :: "event \<Rightarrow> ws_envelope list" where
  "ws_onOrderCancelled e =
     (case e of
        OrderCancelledEvent evt \<Rightarrow>
          if fle (oc_Remaining evt) f64_zero then []
          else [\<lparr>we_Topic = ''orderbook.'' @ oc_Symbol evt,
                  we_Data = DeltaPayload \<lparr>dl_Symbol = oc_Symbol evt, dl_Side = oc_Side evt, dl_Price = oc_Price evt,
                    dl_Quantity = fneg (oc_Remaining evt), dl_Kind = ''cancel''\<rparr>\<rparr>]
      | _ \<Rightarrow> [])"

datatype ws_handler = WsTrade | WsRested | WsCancelled

definition ws_Subscribe :: "ws_handler bus \<Rightarrow> ws_handler bus" where
  "ws_Subscribe b = Subscribe EventTypeOrderCancelled WsCancelled (Subscribe EventTypeOrderRested WsRested
     (Subscribe EventTypeTradeMatched WsTrade b))"

definition ws_handle :: "ws_handler \<Rightarrow> event \<Rightarrow> ws_envelope list" where
  "ws_handle h e = (case h of WsTrade \<Rightarrow> ws_onTradeMatched e | WsRested \<Rightarrow> ws_onOrderRested e | WsCancelled \<Rightarrow> ws_onOrderCancelled e)"

text \<open>The bridge from the market feed (cmd/server/main.go).\<close>

definition ws_bridge :: "'h mf_call \<Rightarrow> ws_envelope list" where
  "ws_bridge call =
     (case call of
        CallKline _ k \<Rightarrow> [\<lparr>we_Topic = ''kline.'' @ ks_Symbol k @ ''.'' @ ks_Interval k, we_Data = KlinePayload k\<rparr>]
      | CallTicker _ t \<Rightarrow> [\<lparr>we_Topic = ''ticker.'' @ ts_Symbol t, we_Data = TickerPayload t\<rparr>]
      | CallTrade _ _ _ \<Rightarrow> [])"

subsection \<open>Clients (client.go)\<close>

definition sendBufferLength :: nat where "sendBufferLength = 256"

text \<open>Where the goroutine of \<open>ServeHTTP\<close> and then \<open>readLoop\<close> is.\<close>

datatype reader = Starting | Reading | Unregistered | Finished

record ws_client =
  wc_topics :: "string list"
  wc_out :: "ws_envelope list"
  wc_closed :: bool
  wc_reader :: reader

definition newClient :: ws_client where
  "newClient = \<lparr>wc_topics = [], wc_out = [], wc_closed = False, wc_reader = Starting\<rparr>"

definition subscribed :: "ws_client \<Rightarrow> string \<Rightarrow> bool" where
  "subscribed c topic \<longleftrightarrow> topic \<in> set (wc_topics c)"

definition subscribe :: "string \<Rightarrow> ws_client \<Rightarrow> ws_client" where
  "subscribe topic c = (if topic \<in> set (wc_topics c) then c else c\<lparr>wc_topics := topic # wc_topics c\<rparr>)"

definition unsubscribe :: "string \<Rightarrow> ws_client \<Rightarrow> ws_client" where
  "unsubscribe topic c = c\<lparr>wc_topics := filter (\<lambda>t. t \<noteq> topic) (wc_topics c)\<rparr>"

text \<open>The non-blocking send; sending on a closed channel panics, whatever the \<open>select\<close> has besides.\<close>

definition send :: "ws_envelope \<Rightarrow> ws_client \<Rightarrow> (bool \<times> ws_client) option" where
  "send env c =
     (if wc_closed c then None
      else if length (wc_out c) < sendBufferLength then Some (True, c\<lparr>wc_out := wc_out c @ [env]\<rparr>)
      else Some (False, c))"

record inbound_op =
  io_Op :: string
  io_Topic :: string

definition set_inbound :: "string \<Rightarrow> jmsg \<Rightarrow> inbound_op \<Rightarrow> inbound_op option" where
  "set_inbound k v x =
     (if key_eq k ''op'' then set_string (\<lambda>s. x\<lparr>io_Op := s\<rparr>) x v
      else if key_eq k ''topic'' then set_string (\<lambda>s. x\<lparr>io_Topic := s\<rparr>) x v
      else Some x)"

text \<open>What the read loop does with one message.\<close>

definition inbound :: "jmsg option \<Rightarrow> ws_client \<Rightarrow> ws_client" where
  "inbound msg c =
     (case Option.bind msg (decode_obj set_inbound \<lparr>io_Op = [], io_Topic = []\<rparr>) of
        None \<Rightarrow> c
      | Some x \<Rightarrow>
          if io_Op x = ''subscribe'' then (if io_Topic x \<noteq> [] then subscribe (io_Topic x) c else c)
          else if io_Op x = ''unsubscribe'' then (if io_Topic x \<noteq> [] then unsubscribe (io_Topic x) c else c)
          else c)"

text \<open>
  What the write loop does next: the next message; the close frame once the channel is closed and
  drained; else it waits (or pings, which the model leaves out).
\<close>

datatype ws_frame = FrameData ws_envelope | FrameClose

definition writer_take :: "ws_client \<Rightarrow> (ws_frame \<times> ws_client) option" where
  "writer_take x =
     (case wc_out x of
        env # rest \<Rightarrow> Some (FrameData env, x\<lparr>wc_out := rest\<rparr>)
      | [] \<Rightarrow> if wc_closed x then Some (FrameClose, x) else None)"

subsection \<open>The hub\<close>

type_synonym cid = nat

text \<open>A publication on its way: the clients still to be asked, and the one found subscribed.\<close>

record publication =
  pb_env :: ws_envelope
  pb_todo :: "cid list"
  pb_sending :: "cid option"
  pb_sent :: nat

record hub =
  hb_clients :: "cid set"
  hb_conns :: "cid \<rightharpoonup> ws_client"
  hb_pubs :: "nat \<rightharpoonup> publication"
  hb_panicked :: bool

definition NewHub :: hub where
  "NewHub = \<lparr>hb_clients = {}, hb_conns = (\<lambda>_. None), hb_pubs = (\<lambda>_. None), hb_panicked = False\<rparr>"

definition register :: "cid \<Rightarrow> hub \<Rightarrow> hub" where
  "register c h = h\<lparr>hb_clients := insert c (hb_clients h)\<rparr>"

definition unregister :: "cid \<Rightarrow> hub \<Rightarrow> hub" where
  "unregister c h = h\<lparr>hb_clients := hb_clients h - {c}\<rparr>"

definition set_conn :: "cid \<Rightarrow> ws_client \<Rightarrow> hub \<Rightarrow> hub" where
  "set_conn c x h = h\<lparr>hb_conns := (hb_conns h)(c \<mapsto> x)\<rparr>"

definition set_pub :: "nat \<Rightarrow> publication option \<Rightarrow> hub \<Rightarrow> hub" where
  "set_pub p x h = h\<lparr>hb_pubs := (hb_pubs h)(p := x)\<rparr>"

text \<open>
  \<open>ServeHTTP\<close> after the upgrade, and \<open>close\<close> of a client whose read loop has ended: each is two steps of
  \<open>ws_step\<close> below, for others may step in between.
\<close>

definition ws_ServeHTTP :: "cid \<Rightarrow> hub \<Rightarrow> hub" where
  "ws_ServeHTTP c h = register c (set_conn c (newClient\<lparr>wc_reader := Reading\<rparr>) (set_conn c newClient h))"

definition ws_close :: "cid \<Rightarrow> ws_client \<Rightarrow> hub \<Rightarrow> hub" where
  "ws_close c x h =
     set_conn c (x\<lparr>wc_reader := Finished, wc_closed := True\<rparr>) (unregister c (set_conn c (x\<lparr>wc_reader := Unregistered\<rparr>) h))"

text \<open>\<open>Publish\<close> alone: the loop over the clients in the order \<open>cs\<close>. No result is a panic.\<close>

fun publish_loop :: "ws_envelope \<Rightarrow> cid list \<Rightarrow> nat \<Rightarrow> (cid \<rightharpoonup> ws_client) \<Rightarrow> (nat \<times> (cid \<rightharpoonup> ws_client)) option" where
  "publish_loop env [] sent conns = Some (sent, conns)"
| "publish_loop env (c # cs) sent conns =
     (case conns c of
        None \<Rightarrow> publish_loop env cs sent conns
      | Some x \<Rightarrow>
          if \<not> subscribed x (we_Topic env) then publish_loop env cs sent conns
          else (case send env x of
                  None \<Rightarrow> None
                | Some (ok, x') \<Rightarrow> publish_loop env cs (if ok then Suc sent else sent) (conns(c \<mapsto> x'))))"

definition hub_Publish :: "ws_envelope \<Rightarrow> cid list \<Rightarrow> hub \<Rightarrow> (nat \<times> hub) option" where
  "hub_Publish env cs h =
     (case publish_loop env cs 0 (hb_conns h) of None \<Rightarrow> None | Some (sent, conns) \<Rightarrow> Some (sent, h\<lparr>hb_conns := conns\<rparr>))"

subsection \<open>The steps of the goroutines\<close>

inductive ws_step :: "hub \<Rightarrow> hub \<Rightarrow> bool" where
  accept: "hb_conns h c = None \<Longrightarrow> ws_step h (set_conn c newClient h)"
| register: "hb_conns h c = Some x \<Longrightarrow> wc_reader x = Starting \<Longrightarrow> hb_pubs h = Map.empty \<Longrightarrow>
    ws_step h (register c (set_conn c (x\<lparr>wc_reader := Reading\<rparr>) h))"
| read: "hb_conns h c = Some x \<Longrightarrow> wc_reader x = Reading \<Longrightarrow> ws_step h (set_conn c (inbound msg x) h)"
| unregister: "hb_conns h c = Some x \<Longrightarrow> wc_reader x = Reading \<Longrightarrow> hb_pubs h = Map.empty \<Longrightarrow>
    ws_step h (unregister c (set_conn c (x\<lparr>wc_reader := Unregistered\<rparr>) h))"
| close: "hb_conns h c = Some x \<Longrightarrow> wc_reader x = Unregistered \<Longrightarrow>
    ws_step h (set_conn c (x\<lparr>wc_reader := Finished, wc_closed := True\<rparr>) h)"
| drain: "hb_conns h c = Some x \<Longrightarrow> writer_take x = Some (frame, x') \<Longrightarrow> ws_step h (set_conn c x' h)"
| begin_pub: "hb_pubs h p = None \<Longrightarrow> distinct cs \<Longrightarrow> set cs = hb_clients h \<Longrightarrow>
    ws_step h (set_pub p (Some \<lparr>pb_env = env, pb_todo = cs, pb_sending = None, pb_sent = 0\<rparr>) h)"
| ask: "hb_pubs h p = Some b \<Longrightarrow> pb_sending b = None \<Longrightarrow> pb_todo b = c # cs \<Longrightarrow> hb_conns h c = Some x \<Longrightarrow>
    ws_step h (set_pub p (Some (b\<lparr>pb_todo := cs, pb_sending := (if subscribed x (we_Topic (pb_env b)) then Some c else None)\<rparr>)) h)"
| send: "hb_pubs h p = Some b \<Longrightarrow> pb_sending b = Some c \<Longrightarrow> hb_conns h c = Some x \<Longrightarrow> send (pb_env b) x = Some (ok, x') \<Longrightarrow>
    ws_step h (set_pub p (Some (b\<lparr>pb_sending := None, pb_sent := (if ok then Suc (pb_sent b) else pb_sent b)\<rparr>)) (set_conn c x' h))"
| panic: "hb_pubs h p = Some b \<Longrightarrow> pb_sending b = Some c \<Longrightarrow> hb_conns h c = Some x \<Longrightarrow> send (pb_env b) x = None \<Longrightarrow>
    ws_step h (h\<lparr>hb_panicked := True\<rparr>)"
| end_pub: "hb_pubs h p = Some b \<Longrightarrow> pb_sending b = None \<Longrightarrow> pb_todo b = [] \<Longrightarrow> ws_step h (set_pub p None h)"

inductive ws_reachable :: "hub \<Rightarrow> bool" where
  start: "ws_reachable NewHub"
| step: "ws_reachable h \<Longrightarrow> ws_step h h' \<Longrightarrow> ws_reachable h'"

inductive_cases ws_stepE: "ws_step h h'"

lemma ws_ServeHTTP_steps:
  assumes "hb_conns h c = None" and "hb_pubs h = Map.empty"
  shows "ws_step h (set_conn c newClient h) \<and> ws_step (set_conn c newClient h) (ws_ServeHTTP c h)"
proof
  show "ws_step h (set_conn c newClient h)" by (rule ws_step.accept [OF assms(1)])
  have "ws_step (set_conn c newClient h) (register c (set_conn c (newClient\<lparr>wc_reader := Reading\<rparr>) (set_conn c newClient h)))"
    by (rule ws_step.register) (simp_all add: set_conn_def newClient_def assms)
  then show "ws_step (set_conn c newClient h) (ws_ServeHTTP c h)" by (simp add: ws_ServeHTTP_def set_conn_def)
qed

lemma ws_close_steps:
  assumes "hb_conns h c = Some x" and "wc_reader x = Reading" and "hb_pubs h = Map.empty"
  shows "\<exists>h1. ws_step h h1 \<and> ws_step h1 (ws_close c x h)"
proof (intro exI conjI)
  let ?h1 = "unregister c (set_conn c (x\<lparr>wc_reader := Unregistered\<rparr>) h)"
  show "ws_step h ?h1" by (rule ws_step.unregister [OF assms])
  have "ws_step ?h1 (set_conn c ((x\<lparr>wc_reader := Unregistered\<rparr>)\<lparr>wc_reader := Finished, wc_closed := True\<rparr>) ?h1)"
    by (rule ws_step.close) (simp_all add: unregister_def set_conn_def)
  then show "ws_step ?h1 (ws_close c x h)" by (simp add: ws_close_def)
qed

end
