(* ===== verification/Wsfeed_Properties.thy ===== *)
theory Wsfeed_Properties
  imports Wsfeed
begin

text \<open>
  The hub: no message is ever sent on a closed channel, whatever the interleaving; buffers stay bounded; a
  publication never waits; and what one publication does, to whom.
\<close>

definition hub_ok :: "hub \<Rightarrow> bool" where
  "hub_ok h \<longleftrightarrow> \<not> hb_panicked h \<and> finite (hb_clients h) \<and>
     (\<forall>c \<in> hb_clients h. \<exists>x. hb_conns h c = Some x \<and> wc_reader x = Reading) \<and>
     (\<forall>c x. hb_conns h c = Some x \<longrightarrow> (wc_closed x \<longleftrightarrow> wc_reader x = Finished) \<and> length (wc_out x) \<le> sendBufferLength
        \<and> (wc_reader x = Reading \<longrightarrow> c \<in> hb_clients h)) \<and>
     (\<forall>p b. hb_pubs h p = Some b \<longrightarrow> set (pb_todo b) \<union> set_option (pb_sending b) \<subseteq> hb_clients h)"

lemmas hub_defs = register_def unregister_def set_conn_def set_pub_def

lemma inbound_same [simp]:
  "wc_out (inbound msg x) = wc_out x" "wc_closed (inbound msg x) = wc_closed x" "wc_reader (inbound msg x) = wc_reader x"
  by (simp_all add: inbound_def subscribe_def unsubscribe_def split: option.splits)

lemma send_same:
  assumes "send env x = Some (ok, x')"
  shows "wc_closed x' = wc_closed x" "wc_reader x' = wc_reader x" "wc_topics x' = wc_topics x"
    and "length (wc_out x) \<le> sendBufferLength \<Longrightarrow> length (wc_out x') \<le> sendBufferLength"
  using assms by (auto simp: send_def split: if_splits)

lemma pub_clients:
  assumes "hub_ok h" and "hb_pubs h p = Some b" and "c \<in> set (pb_todo b) \<or> pb_sending b = Some c"
  shows "c \<in> hb_clients h"
proof -
  have "set (pb_todo b) \<union> set_option (pb_sending b) \<subseteq> hb_clients h" using assms(1,2) unfolding hub_ok_def by blast
  then show ?thesis using assms(3) by auto
qed

lemma out_bounded: "hub_ok h \<Longrightarrow> hb_conns h c = Some x \<Longrightarrow> length (wc_out x) \<le> sendBufferLength"
  unfolding hub_ok_def by blast

lemma client_open: "hub_ok h \<Longrightarrow> c \<in> hb_clients h \<Longrightarrow> \<exists>x. hb_conns h c = Some x \<and> \<not> wc_closed x"
  unfolding hub_ok_def by (metis reader.distinct(10))

lemma hub_ok_conn:
  assumes "hub_ok h" and "hb_conns h c = Some x" and "wc_reader y = wc_reader x" and "wc_closed y = wc_closed x"
    and "length (wc_out y) \<le> sendBufferLength"
  shows "hub_ok (set_conn c y h)"
  using assms unfolding hub_ok_def set_conn_def by auto

lemma hub_ok_pub:
  assumes "hub_ok h" and "\<And>c. c \<in> set (pb_todo b) \<or> pb_sending b = Some c \<Longrightarrow> c \<in> hb_clients h"
  shows "hub_ok (set_pub p (Some b) h)"
proof -
  have "set (pb_todo b) \<union> set_option (pb_sending b) \<subseteq> hb_clients h" using assms(2) by auto
  then show ?thesis using assms(1) unfolding hub_ok_def set_pub_def by simp
qed

lemma ws_step_ok:
  assumes "ws_step h h'" and "hub_ok h"
  shows "hub_ok h'"
  using assms
proof (induction rule: ws_step.induct)
  case (accept h c)
  then have "c \<notin> hb_clients h" by (auto simp: hub_ok_def)
  then show ?case using accept by (auto simp: hub_ok_def hub_defs newClient_def)
next
  case (register h c x)
  then show ?case by (auto simp: hub_ok_def hub_defs)
next
  case (read h c x msg)
  then show ?case by (intro hub_ok_conn [OF read(3,1)]) (auto simp: hub_ok_def)
next
  case (unregister h c x)
  then show ?case by (auto simp: hub_ok_def hub_defs)
next
  case (close h c x)
  then have "c \<notin> hb_clients h" by (auto simp: hub_ok_def)
  then show ?case using close by (auto simp: hub_ok_def hub_defs)
next
  case (drain h c x frame x')
  then have "length (wc_out x) \<le> sendBufferLength" by (intro out_bounded)
  then show ?case using drain
    by (intro hub_ok_conn [OF drain(3,1)]) (auto simp: writer_take_def split: list.splits if_splits)
next
  case (begin_pub h p cs env)
  then show ?case by (auto simp: hub_ok_def hub_defs)
next
  case (ask h p b c cs x)
  then show ?case by (intro hub_ok_pub [OF ask(5)] pub_clients [OF ask(5,1)]) (auto split: if_splits)
next
  case (send h p b c x ok x')
  have "length (wc_out x) \<le> sendBufferLength" using send by (simp add: hub_ok_def)
  then have "hub_ok (set_conn c x' h)" using send send_same [OF send(4)] by (intro hub_ok_conn [OF send(5,3)]) auto
  then show ?case by (rule hub_ok_pub) (use pub_clients [OF send(5,1)] in \<open>auto simp: set_conn_def\<close>)
next
  case (panic h p b c x)
  then have "\<not> wc_closed x" using client_open [OF panic(5) pub_clients [OF panic(5,1), of c]] by simp
  then show ?case using panic(4) by (simp add: send_def split: if_splits)
next
  case (end_pub h p b)
  then show ?case by (auto simp: hub_ok_def hub_defs)
qed

lemma ws_reachable_ok: "ws_reachable h \<Longrightarrow> hub_ok h"
proof (induction rule: ws_reachable.induct)
  case start
  show ?case by (simp add: hub_ok_def NewHub_def)
qed (rule ws_step_ok)

text \<open>
  C27. However the goroutines interleave, no publication ever sends on the closed channel of a client that
  has gone, which would panic: a client is unregistered, under the lock every publication holds,
  before its channel is closed. And no client ever has more than 256 messages waiting.
\<close>
theorem no_send_on_closed:
  assumes "ws_reachable h"
  shows "\<not> hb_panicked h
    \<and> (\<forall>p b c x. hb_pubs h p = Some b \<and> (pb_sending b = Some c \<or> c \<in> set (pb_todo b)) \<and> hb_conns h c = Some x \<longrightarrow> \<not> wc_closed x)
    \<and> (\<forall>c x. hb_conns h c = Some x \<longrightarrow> length (wc_out x) \<le> 256)"
proof -
  have ok: "hub_ok h" by (rule ws_reachable_ok [OF assms])
  have "\<not> wc_closed x" if p: "hb_pubs h p = Some b" "pb_sending b = Some c \<or> c \<in> set (pb_todo b)" "hb_conns h c = Some x" for p b c x
  proof -
    have "c \<in> hb_clients h" using pub_clients [OF ok p(1)] p(2) by blast
    from client_open [OF ok this] show ?thesis using p(3) by auto
  qed
  moreover have "\<not> hb_panicked h" using ok by (simp add: hub_ok_def)
  ultimately show ?thesis using out_bounded [OF ok] by (auto simp: sendBufferLength_def)
qed

definition ex_envelope :: ws_envelope where
  "ex_envelope = \<lparr>we_Topic = ''ticker.X'', we_Data = DeltaPayload \<lparr>dl_Symbol = ''X'', dl_Side = ''BUY'', dl_Price = FFin 1, dl_Quantity = FFin 1, dl_Kind = ''rest''\<rparr>\<rparr>"

definition ex_hub :: hub where
  "ex_hub = set_pub 0 (Some \<lparr>pb_env = ex_envelope, pb_todo = [7], pb_sending = None, pb_sent = 0\<rparr>)
     (register 7 (set_conn 7 (newClient\<lparr>wc_reader := Reading\<rparr>) (set_conn 7 newClient NewHub)))"

lemma ex_hub_reachable: "ws_reachable ex_hub"
proof -
  let ?h = "set_conn 7 newClient NewHub"
  have "ws_reachable ?h" by (rule ws_reachable.step [OF ws_reachable.start ws_step.accept]) (simp add: NewHub_def)
  then have "ws_reachable (register 7 (set_conn 7 (newClient\<lparr>wc_reader := Reading\<rparr>) ?h))"
    by (rule ws_reachable.step [OF _ ws_step.register]) (simp_all add: hub_defs newClient_def NewHub_def)
  then show ?thesis unfolding ex_hub_def
    by (rule ws_reachable.step [OF _ ws_step.begin_pub]) (simp_all add: hub_defs newClient_def NewHub_def)
qed

lemma no_send_on_closed_witness:
  "\<not> wc_closed (the (hb_conns ex_hub 7)) \<and> hb_pubs ex_hub 0 \<noteq> None"
proof -
  have h: "hb_pubs ex_hub 0 = Some \<lparr>pb_env = ex_envelope, pb_todo = [7], pb_sending = None, pb_sent = 0\<rparr>"
    "hb_conns ex_hub 7 = Some (newClient\<lparr>wc_reader := Reading\<rparr>)" by (simp_all add: ex_hub_def hub_defs)
  show ?thesis using no_send_on_closed [OF ex_hub_reachable] h by fastforce
qed

subsection \<open>A publication never waits\<close>

text \<open>The steps a publication has left, each client at most two, and the end.\<close>

definition pub_rank :: "hub \<Rightarrow> nat \<Rightarrow> nat" where
  "pub_rank h p = (case hb_pubs h p of None \<Rightarrow> 0 | Some b \<Rightarrow> 2 * length (pb_todo b) + (if pb_sending b = None then 0 else 1) + 1)"

lemma pub_enabled:
  assumes "hub_ok h" and "hb_pubs h p = Some b"
  shows "\<exists>h'. ws_step h h' \<and> pub_rank h' p < pub_rank h p \<and> hb_clients h' = hb_clients h"
proof (cases "pb_sending b")
  case (Some c)
  then obtain x where x: "hb_conns h c = Some x" "\<not> wc_closed x" using client_open [OF assms(1) pub_clients [OF assms]] by auto
  then obtain ok x' where s: "send (pb_env b) x = Some (ok, x')"
    by (cases "length (wc_out x) < sendBufferLength") (auto simp: send_def)
  show ?thesis by (rule exI, rule conjI, rule ws_step.send [OF assms(2) Some x(1) s]) (simp add: pub_rank_def hub_defs assms(2) Some)
next
  case None
  show ?thesis
  proof (cases "pb_todo b")
    case Nil
    show ?thesis by (rule exI, rule conjI, rule ws_step.end_pub [OF assms(2) None Nil]) (simp add: pub_rank_def hub_defs assms(2))
  next
    case (Cons c cs)
    then obtain x where x: "hb_conns h c = Some x" using client_open [OF assms(1) pub_clients [OF assms]] by auto
    show ?thesis by (rule exI, rule conjI, rule ws_step.ask [OF assms(2) None Cons x]) (simp add: pub_rank_def hub_defs assms(2) Cons None)
  qed
qed

text \<open>
  C28. A publication never waits for a client and always ends: in every reachable state a running publication
  has a step of its own, each of them brings it closer to its end, no step of another goroutine takes
  it further away, and with \<open>n\<close> clients to ask it has at most \<open>2 n + 2\<close> steps left.
\<close>
theorem publish_never_blocks:
  assumes "ws_reachable h" and "hb_pubs h p = Some b"
  shows "(\<exists>h'. ws_step h h' \<and> pub_rank h' p < pub_rank h p)
    \<and> (\<forall>h'. ws_step h h' \<longrightarrow> pub_rank h' p \<le> pub_rank h p)
    \<and> pub_rank h p \<le> 2 * length (pb_todo b) + 2"
proof (intro conjI allI impI)
  show "\<exists>h'. ws_step h h' \<and> pub_rank h' p < pub_rank h p" using pub_enabled [OF ws_reachable_ok [OF assms(1)] assms(2)] by blast
  show "pub_rank h p \<le> 2 * length (pb_todo b) + 2" using assms(2) by (simp add: pub_rank_def)
  show "pub_rank h' p \<le> pub_rank h p" if "ws_step h h'" for h'
    using that assms(2) by (induction rule: ws_step.induct) (auto simp: pub_rank_def hub_defs)
qed

lemma publish_never_blocks_witness:
  "(\<exists>h'. ws_step ex_hub h' \<and> pub_rank h' 0 < pub_rank ex_hub 0) \<and> pub_rank ex_hub 0 \<le> 4"
proof -
  have h: "hb_pubs ex_hub 0 = Some \<lparr>pb_env = ex_envelope, pb_todo = [7], pb_sending = None, pb_sent = 0\<rparr>" by (simp add: ex_hub_def hub_defs)
  show ?thesis using publish_never_blocks [OF ex_hub_reachable h] by auto
qed

subsection \<open>Who gets what\<close>

definition receives :: "ws_envelope \<Rightarrow> ws_client \<Rightarrow> bool" where
  "receives env x \<longleftrightarrow> subscribed x (we_Topic env) \<and> length (wc_out x) < sendBufferLength"

lemma publish_loop_spec:
  "distinct cs \<Longrightarrow> \<forall>c \<in> set cs. \<exists>x. conns c = Some x \<and> \<not> wc_closed x \<Longrightarrow>
   publish_loop env cs n conns =
     Some (n + length (filter (\<lambda>c. receives env (the (conns c))) cs),
       \<lambda>c. if c \<in> set cs \<and> receives env (the (conns c)) then Some ((the (conns c))\<lparr>wc_out := wc_out (the (conns c)) @ [env]\<rparr>) else conns c)"
proof (induction cs arbitrary: n conns)
  case (Cons c cs)
  then obtain x where x: "conns c = Some x" "\<not> wc_closed x" by auto
  show ?case
  proof (cases "receives env x")
    case True
    let ?x = "x\<lparr>wc_out := wc_out x @ [env]\<rparr>"
    have f: "filter (\<lambda>c'. receives env (the ((conns(c \<mapsto> ?x)) c'))) cs = filter (\<lambda>c. receives env (the (conns c))) cs"
      using Cons.prems(1) by (intro filter_cong) auto
    have "publish_loop env (c # cs) n conns = publish_loop env cs (Suc n) (conns(c \<mapsto> ?x))"
      using True x by (simp add: send_def receives_def)
    also have "\<dots> = Some (Suc n + length (filter (\<lambda>c. receives env (the (conns c))) cs),
        \<lambda>c'. if c' \<in> set cs \<and> receives env (the ((conns(c \<mapsto> ?x)) c')) then Some ((the ((conns(c \<mapsto> ?x)) c'))\<lparr>wc_out := wc_out (the ((conns(c \<mapsto> ?x)) c')) @ [env]\<rparr>)
          else (conns(c \<mapsto> ?x)) c')"
      by (rule Cons.IH [of "conns(c \<mapsto> ?x)" "Suc n", unfolded f]) (use Cons.prems x in auto)
    finally show ?thesis using True x Cons.prems(1) by (auto simp: fun_eq_iff)
  next
    case False
    then have "publish_loop env (c # cs) n conns = publish_loop env cs n conns" using x fun_upd_idem [of conns c "Some x"] by (auto simp: send_def receives_def)
    also have "\<dots> = Some (n + length (filter (\<lambda>c. receives env (the (conns c))) cs),
        \<lambda>c'. if c' \<in> set cs \<and> receives env (the (conns c')) then Some ((the (conns c'))\<lparr>wc_out := wc_out (the (conns c')) @ [env]\<rparr>) else conns c')"
      using Cons by auto
    finally show ?thesis using False x by (auto simp: fun_eq_iff)
  qed
qed auto

text \<open>
  A publication that runs alone reaches every registered client that is subscribed to its topic and
  has room, at the end of its queue, and changes nothing else: a subscriber with a full queue misses
  the message. Its result is how many clients it reached, whatever the order in which it asked them.
\<close>
theorem publish_delivers:
  assumes "ws_reachable h" and "distinct cs" and "set cs = hb_clients h"
  shows "\<exists>h'. hub_Publish env cs h = Some (card {c \<in> hb_clients h. receives env (the (hb_conns h c))}, h')
    \<and> hb_clients h' = hb_clients h
    \<and> (\<forall>c. hb_conns h' c =
        (if c \<in> hb_clients h \<and> receives env (the (hb_conns h c))
         then Some ((the (hb_conns h c))\<lparr>wc_out := wc_out (the (hb_conns h c)) @ [env]\<rparr>) else hb_conns h c))"
proof -
  have ok: "hub_ok h" by (rule ws_reachable_ok [OF assms(1)])
  have "\<forall>c \<in> set cs. \<exists>x. hb_conns h c = Some x \<and> \<not> wc_closed x" using client_open [OF ok] assms(3) by blast
  note sp = publish_loop_spec [OF assms(2) this, of env 0]
  have "length (filter (\<lambda>c. receives env (the (hb_conns h c))) cs) = card {c \<in> hb_clients h. receives env (the (hb_conns h c))}"
    unfolding assms(3) [symmetric] using assms(2) by (metis distinct_card distinct_filter set_filter)
  then show ?thesis by (auto simp: hub_Publish_def sp assms(3))
qed

lemma publish_delivers_witness:
  "\<exists>h'. hub_Publish ex_envelope [7] ex_hub = Some (0, h') \<and> hb_conns h' 7 = hb_conns ex_hub 7"
proof -
  have c: "distinct [7 :: nat]" "set [7] = hb_clients ex_hub" "\<not> receives ex_envelope (the (hb_conns ex_hub 7))"
    by (simp_all add: ex_hub_def hub_defs NewHub_def newClient_def receives_def subscribed_def)
  then have "hb_clients ex_hub = {7}" by simp
  then have z: "{c \<in> hb_clients ex_hub. receives ex_envelope (the (hb_conns ex_hub c))} = {}" using c(3) by auto
  from publish_delivers [OF ex_hub_reachable c(1,2), of ex_envelope] c(3) show ?thesis unfolding z by auto
qed

end
