(* ===== verification/Legacy.thy ===== *)
theory Legacy
  imports Server
begin

text \<open>
  The earlier layers of users and accounts, internal/domain, internal/repository, internal/service and
  internal/handler, which cmd/server/main.go no longer wires. They work on the same tables as the
  packages that replaced them. The sentinels of internal/domain are Go values of their own; as nothing
  mixes the two layers they are the constructors of \<open>Shared\<close> with the same texts. The service of accounts
  takes the ledger as an interface no file of these layers implements: it is a parameter here.
\<close>

subsection \<open>Data (internal/domain)\<close>

definition domain_errors :: "sentinel list" where
  "domain_errors =
     [ErrNotFound, ErrDuplicateIdempotencyKey, ErrInsufficientFunds, ErrInvalidStateTransition,
      ErrBadRequest, ErrUnauthorized, ErrForbidden, ErrConflict, ErrValidation, ErrRateLimitExceeded,
      ErrServiceUnavailable]"

record domain_account =
  da_ID :: uuid
  da_UserID :: uuid
  da_Asset :: string
  da_CreatedAt :: gotime

record domain_user =
  du_ID :: uuid
  du_Email :: string
  du_Username :: string
  du_FullName :: string
  du_PasswordHash :: string
  du_Status :: string
  du_DeletedAt :: "gotime option"
  du_CreatedAt :: gotime
  du_UpdatedAt :: gotime

definition domain_AccountID :: "(gerr, uuid) act" where "domain_AccountID = NewV7"
definition domain_UserID :: "(gerr, uuid) act" where "domain_UserID = NewV7"

subsection \<open>Accounts (repository/account_repository.go)\<close>

definition account_row :: "domain_account \<Rightarrow> account_rec" where
  "account_row a = \<lparr>a_ID = da_ID a, a_UserID = da_UserID a, a_Asset = da_Asset a, a_CreatedAt = da_CreatedAt a\<rparr>"

text \<open>\<open>Scan\<close> into the four fields.\<close>

definition scan_account :: "account_rec \<Rightarrow> domain_account" where
  "scan_account r = \<lparr>da_ID = a_ID r, da_UserID = a_UserID r, da_Asset = a_Asset r, da_CreatedAt = a_CreatedAt r\<rparr>"

definition accountRepository_Create :: "domain_account \<Rightarrow> (gerr, unit) act" where
  "accountRepository_Create a =
     mapE (conflict_err ''accountRepository.Create: '') (tx_exec (\<lambda>d _. insert_account (account_row a) d))"

definition accountRepository_GetByID :: "uuid \<Rightarrow> (gerr, domain_account) act" where
  "accountRepository_GetByID i =
     mapE (row_err ''accountRepository.GetByID: '')
       (pool_query_row (\<lambda>d. map scan_account (filter (\<lambda>a. a_ID a = i) (db_accounts d))))"

definition accountRepository_GetByUserAndAsset :: "uuid \<Rightarrow> string \<Rightarrow> (gerr, domain_account) act" where
  "accountRepository_GetByUserAndAsset u asset =
     mapE (row_err ''accountRepository.GetByUserAndAsset: '')
       (pool_query_row (\<lambda>d. map scan_account (filter (\<lambda>a. a_UserID a = u \<and> a_Asset a = asset) (db_accounts d))))"

text \<open>A query whose rows are scanned one by one into a slice.\<close>

definition scan_list :: "string \<Rightarrow> ('r \<Rightarrow> 'a) \<Rightarrow> (db \<Rightarrow> db_error + 'r list) \<Rightarrow> (gerr, 'a list) act" where
  "scan_list pre scan q = bindE (wrapE pre (mapE db_gerr (pool_list q))) (\<lambda>rows. returnE (map scan rows))"

definition accountRepository_List :: "int \<Rightarrow> int \<Rightarrow> (gerr, domain_account list) act" where
  "accountRepository_List limit offset =
     scan_list ''accountRepository.List: '' scan_account (\<lambda>d. sql_page limit offset (order_desc a_CreatedAt (db_accounts d)))"

definition accountRepository_ListByUser :: "uuid \<Rightarrow> int \<Rightarrow> int \<Rightarrow> (gerr, domain_account list) act" where
  "accountRepository_ListByUser u limit offset =
     scan_list ''accountRepository.ListByUser: '' scan_account
       (\<lambda>d. sql_page limit offset (order_desc a_CreatedAt (filter (\<lambda>a. a_UserID a = u) (db_accounts d))))"

definition accountRepository_Delete :: "uuid \<Rightarrow> (gerr, unit) act" where
  "accountRepository_Delete i =
     must_affect ''accountRepository.Delete: '' (\<lambda>d _.
       Inr (count_rows (\<lambda>a. a_ID a = i) (db_accounts d), d\<lparr>db_accounts := filter (\<lambda>a. a_ID a \<noteq> i) (db_accounts d)\<rparr>))"

subsection \<open>Users (repository/user_repository.go)\<close>

text \<open>The INSERT names neither \<open>role\<close> nor \<open>deleted_at\<close>: they have the defaults of the columns, \<open>USER\<close> and NULL.\<close>

definition user_row :: "domain_user \<Rightarrow> user_rec" where
  "user_row u =
     \<lparr>u_ID = du_ID u, u_Email = du_Email u, u_Username = du_Username u, u_FullName = du_FullName u,
      u_PasswordHash = du_PasswordHash u, u_Status = du_Status u, u_Role = RoleUser, u_DeletedAt = None,
      u_CreatedAt = du_CreatedAt u, u_UpdatedAt = du_UpdatedAt u\<rparr>"

definition scan_user :: "user_rec \<Rightarrow> domain_user" where
  "scan_user r =
     \<lparr>du_ID = u_ID r, du_Email = u_Email r, du_Username = u_Username r, du_FullName = u_FullName r,
      du_PasswordHash = u_PasswordHash r, du_Status = u_Status r, du_DeletedAt = u_DeletedAt r,
      du_CreatedAt = u_CreatedAt r, du_UpdatedAt = u_UpdatedAt r\<rparr>"

definition userRepository_Create :: "domain_user \<Rightarrow> (gerr, unit) act" where
  "userRepository_Create u =
     mapE (conflict_err ''userRepository.Create: '') (tx_exec (\<lambda>d _. insert_user (user_row u) d))"

definition userRepository_GetByID :: "uuid \<Rightarrow> (gerr, domain_user) act" where
  "userRepository_GetByID i =
     mapE (row_err ''userRepository.GetByID: '')
       (pool_query_row (\<lambda>d. map scan_user (filter (\<lambda>u. u_ID u = i \<and> u_DeletedAt u = None) (db_users d))))"

definition userRepository_List :: "int \<Rightarrow> int \<Rightarrow> (gerr, domain_user list) act" where
  "userRepository_List limit offset =
     scan_list ''userRepository.List: '' scan_user
       (\<lambda>d. sql_page limit offset (order_desc u_CreatedAt (filter (\<lambda>u. u_DeletedAt u = None) (db_users d))))"

definition userRepository_Delete :: "uuid \<Rightarrow> (gerr, unit) act" where
  "userRepository_Delete i =
     must_affect ''userRepository.Delete: '' (\<lambda>d now.
       Inr (count_rows (\<lambda>u. u_ID u = i \<and> u_DeletedAt u = None) (db_users d),
            d\<lparr>db_users := map (\<lambda>u. if u_ID u = i \<and> u_DeletedAt u = None then u\<lparr>u_DeletedAt := Some now\<rparr> else u) (db_users d)\<rparr>))"

subsection \<open>The service of accounts (service/account_service.go)\<close>

type_synonym ledger_sum = "uuid \<Rightarrow> string \<Rightarrow> (gerr, string) act"

definition service_CreateAccount :: "uuid \<Rightarrow> string \<Rightarrow> (gerr, domain_account) act" where
  "service_CreateAccount u asset =
     bindE (wrapE ''CreateAccount generate id: '' domain_AccountID) (\<lambda>i.
     in_tx ''CreateAccount begin: ''
       (bindE Now (\<lambda>now.
        let acct = \<lparr>da_ID = i, da_UserID = u, da_Asset = asset, da_CreatedAt = now\<rparr> in
        bindE (wrapE ''CreateAccount: '' (accountRepository_Create acct)) (\<lambda>_.
        bindE (commit_tx ''CreateAccount commit: '') (\<lambda>_.
        returnE acct)))))"

definition service_GetAccount :: "uuid \<Rightarrow> (gerr, domain_account) act" where
  "service_GetAccount i = wrapE ''GetAccount: '' (accountRepository_GetByID i)"

definition service_GetAccountByID :: "uuid \<Rightarrow> (gerr, domain_account) act" where
  "service_GetAccountByID i = service_GetAccount i"

definition service_ListAccounts :: "uuid option \<Rightarrow> int \<Rightarrow> int \<Rightarrow> (gerr, domain_account list) act" where
  "service_ListAccounts mu limit offset =
     (case mu of
        Some u \<Rightarrow> wrapE ''ListAccounts by user: '' (accountRepository_ListByUser u limit offset)
      | None \<Rightarrow> wrapE ''ListAccounts: '' (accountRepository_List limit offset))"

definition service_DeleteAccount :: "uuid \<Rightarrow> (gerr, unit) act" where
  "service_DeleteAccount i =
     in_tx ''DeleteAccount begin: ''
       (bindE (wrapE ''DeleteAccount: '' (accountRepository_Delete i)) (\<lambda>_. commit_tx ''DeleteAccount commit: ''))"

definition service_GetBalance :: "ledger_sum \<Rightarrow> uuid \<Rightarrow> string \<Rightarrow> (gerr, string) act" where
  "service_GetBalance ledger u asset = wrapE ''GetBalance: '' (ledger u asset)"

subsection \<open>The service of users (service/user_service.go)\<close>

record create_user_command =
  cmd_Email :: string
  cmd_Username :: string
  cmd_FullName :: string
  cmd_Password :: string

definition service_CreateUser :: "bcrypt \<Rightarrow> create_user_command \<Rightarrow> (gerr, domain_user) act" where
  "service_CreateUser bc cmd =
     bindE (wrapE ''CreateUser generate id: '' domain_UserID) (\<lambda>i.
     bindE (wrapE ''CreateUser hash password: '' (HashPassword bc (cmd_Password cmd))) (\<lambda>passwordHash.
     in_tx ''CreateUser begin: ''
       (bindE Now (\<lambda>now.
        let u = \<lparr>du_ID = i, du_Email = cmd_Email cmd, du_Username = cmd_Username cmd, du_FullName = cmd_FullName cmd,
                 du_PasswordHash = passwordHash, du_Status = ''ACTIVE'', du_DeletedAt = None,
                 du_CreatedAt = now, du_UpdatedAt = now\<rparr> in
        bindE (wrapE ''CreateUser: '' (userRepository_Create u)) (\<lambda>_.
        bindE (commit_tx ''CreateUser commit: '') (\<lambda>_.
        returnE u))))))"

definition service_GetUser :: "uuid \<Rightarrow> (gerr, domain_user) act" where
  "service_GetUser i = wrapE ''GetUser: '' (userRepository_GetByID i)"

definition service_ListUsers :: "int \<Rightarrow> int \<Rightarrow> (gerr, domain_user list) act" where
  "service_ListUsers limit offset = wrapE ''ListUsers: '' (userRepository_List limit offset)"

definition service_DeleteUser :: "uuid \<Rightarrow> (gerr, unit) act" where
  "service_DeleteUser i =
     in_tx ''DeleteUser begin: ''
       (bindE (wrapE ''DeleteUser: '' (userRepository_Delete i)) (\<lambda>_. commit_tx ''DeleteUser commit: ''))"

subsection \<open>Responses (handler/helpers.go, handler/errors.go)\<close>

definition error_response :: "string \<Rightarrow> json" where
  "error_response msg = JObj [(''error'', JStr msg)]"

definition httpError :: "nat \<Rightarrow> string \<Rightarrow> http_response" where
  "httpError status msg = \<lparr>rs_status = status, rs_body = Some (error_response msg)\<rparr>"

definition writeJSON :: "nat \<Rightarrow> json \<Rightarrow> http_response" where
  "writeJSON status v = \<lparr>rs_status = status, rs_body = Some v\<rparr>"

definition parsePagination :: "url_query \<Rightarrow> int \<times> int" where
  "parsePagination q =
     (let limit = (case atoi (q ''limit'') of Some v \<Rightarrow> if 0 < v \<and> v \<le> 100 then v else 50 | None \<Rightarrow> 50);
          offset = (case atoi (q ''offset'') of Some v \<Rightarrow> if 0 \<le> v then v else 0 | None \<Rightarrow> 0) in
      (limit, offset))"

definition handler_error_status :: "gerr \<Rightarrow> nat" where
  "handler_error_status err =
     (if errors_is err ErrNotFound then 404
      else if errors_is err ErrUnauthorized then 401
      else if errors_is err ErrForbidden then 403
      else if errors_is err ErrBadRequest then 400
      else if errors_is err ErrValidation then 422
      else if errors_is err ErrInsufficientFunds then 422
      else if errors_is err ErrConflict \<or> errors_is err ErrInvalidStateTransition then 409
      else if errors_is err ErrDuplicateIdempotencyKey then 200
      else if errors_is err ErrRateLimitExceeded then 429
      else if errors_is err ErrServiceUnavailable then 503
      else 500)"

definition handleServiceError :: "gerr \<Rightarrow> http_response" where
  "handleServiceError err =
     (let status = handler_error_status err in
      if status = 200 then \<lparr>rs_status = 200, rs_body = None\<rparr>
      else \<lparr>rs_status = status, rs_body = Some (error_response (error_text err))\<rparr>)"

text \<open>\<open>if err != nil { handleServiceError(w, err); return }\<close>\<close>

definition legacy_svc :: "(gerr, 'a) act \<Rightarrow> (http_response, 'a) act" where
  "legacy_svc m = mapE handleServiceError m"

text \<open>The helpers are those of internal/shared, so the decoding and the path parameters of \<open>Http\<close> are used below.\<close>

lemma helpers_shared: "httpError = HTTPError" "writeJSON = WriteJSON" "parsePagination = ParsePagination"
  by (simp_all add: fun_eq_iff httpError_def HTTPError_def writeJSON_def WriteJSON_def parsePagination_def ParsePagination_def
      error_response_def ErrorResponse_def)

subsection \<open>The handler of accounts (handler/account_handler.go)\<close>

definition CreateAccountRequest :: struct_spec where
  "CreateAccountRequest = [(''UserID'', ''user_id'', ''required,uuid''), (''Asset'', ''asset'', ''required,max=20'')]"

definition handler_ToAccountResponse :: "web \<Rightarrow> domain_account \<Rightarrow> json" where
  "handler_ToAccountResponse wb a =
     JObj [(''id'', json_uuid wb (da_ID a)), (''user_id'', json_uuid wb (da_UserID a)), (''asset'', JStr (da_Asset a)),
           (''created_at'', json_time (da_CreatedAt a))]"

definition BalanceResponse :: "string \<Rightarrow> json" where
  "BalanceResponse bal = JObj [(''balance'', JStr bal)]"

definition handler_CreateAccount :: "web \<Rightarrow> handler" where
  "handler_CreateAccount wb r =
     bindE (decode_valid (wb_validate wb) CreateAccountRequest r) (\<lambda>req.
     bindE (orHTTP 400 ''invalid user_id'' (dp_uuid_parse (wb_dp wb) (req ''user_id''))) (\<lambda>userID.
     bindE (legacy_svc (service_CreateAccount userID (req ''asset''))) (\<lambda>account.
     returnE (writeJSON 201 (handler_ToAccountResponse wb account)))))"

definition handler_GetAccount :: "web \<Rightarrow> handler" where
  "handler_GetAccount wb r =
     bindE (uuid_param wb ''id'' ''invalid account id'' r) (\<lambda>i.
     bindE (legacy_svc (service_GetAccount i)) (\<lambda>account.
     returnE (writeJSON 200 (handler_ToAccountResponse wb account))))"

definition handler_ListAccounts :: "web \<Rightarrow> handler" where
  "handler_ListAccounts wb r =
     (case parsePagination (rq_query r) of (limit, offset) \<Rightarrow>
     bindE (if rq_query r ''user_id'' = [] then returnE None
            else bindE (orHTTP 400 ''invalid user_id'' (dp_uuid_parse (wb_dp wb) (rq_query r ''user_id''))) (\<lambda>u. returnE (Some u))) (\<lambda>userID.
     bindE (legacy_svc (service_ListAccounts userID limit offset)) (\<lambda>accounts.
     returnE (writeJSON 200 (JArr (map (handler_ToAccountResponse wb) accounts))))))"

definition handler_DeleteAccount :: "web \<Rightarrow> handler" where
  "handler_DeleteAccount wb r =
     bindE (uuid_param wb ''id'' ''invalid account id'' r) (\<lambda>i.
     bindE (legacy_svc (service_DeleteAccount i)) (\<lambda>_.
     returnE (WriteHeader 204)))"

definition handler_GetBalance :: "web \<Rightarrow> ledger_sum \<Rightarrow> handler" where
  "handler_GetBalance wb ledger r =
     bindE (uuid_param wb ''id'' ''invalid account id'' r) (\<lambda>accountID.
     bindE (legacy_svc (service_GetAccountByID accountID)) (\<lambda>account.
     bindE (legacy_svc (service_GetBalance ledger (da_UserID account) (da_Asset account))) (\<lambda>bal.
     returnE (writeJSON 200 (BalanceResponse bal)))))"

definition AccountHandler_Routes :: "web \<Rightarrow> ledger_sum \<Rightarrow> route list" where
  "AccountHandler_Routes wb ledger =
     [(''POST'', [], handler_CreateAccount wb),
      (''GET'', [], handler_ListAccounts wb),
      (''GET'', [Param ''id''], handler_GetAccount wb),
      (''DELETE'', [Param ''id''], handler_DeleteAccount wb),
      (''GET'', [Param ''id'', Lit ''balance''], handler_GetBalance wb ledger)]"

subsection \<open>The handler of users (handler/user_handler.go)\<close>

definition handler_CreateUserRequest :: struct_spec where
  "handler_CreateUserRequest =
     [(''Email'', ''email'', ''required,email''), (''Username'', ''username'', ''required,min=3,max=100''),
      (''FullName'', ''full_name'', ''required,max=255''), (''Password'', ''password'', ''required,min=8'')]"

definition handler_ToUserResponse :: "web \<Rightarrow> domain_user \<Rightarrow> json" where
  "handler_ToUserResponse wb u =
     JObj [(''id'', json_uuid wb (du_ID u)), (''email'', JStr (du_Email u)), (''username'', JStr (du_Username u)),
           (''full_name'', JStr (du_FullName u)), (''status'', JStr (du_Status u)),
           (''created_at'', json_time (du_CreatedAt u)), (''updated_at'', json_time (du_UpdatedAt u))]"

definition handler_CreateUser :: "web \<Rightarrow> handler" where
  "handler_CreateUser wb r =
     bindE (decode_valid (wb_validate wb) handler_CreateUserRequest r) (\<lambda>req.
     bindE (legacy_svc (service_CreateUser (wb_bcrypt wb)
       \<lparr>cmd_Email = req ''email'', cmd_Username = req ''username'', cmd_FullName = req ''full_name'', cmd_Password = req ''password''\<rparr>)) (\<lambda>u.
     returnE (writeJSON 201 (handler_ToUserResponse wb u))))"

definition handler_GetUser :: "web \<Rightarrow> handler" where
  "handler_GetUser wb r =
     bindE (uuid_param wb ''id'' ''invalid user id'' r) (\<lambda>i.
     bindE (legacy_svc (service_GetUser i)) (\<lambda>u.
     returnE (writeJSON 200 (handler_ToUserResponse wb u))))"

definition handler_ListUsers :: "web \<Rightarrow> handler" where
  "handler_ListUsers wb r =
     (case parsePagination (rq_query r) of (limit, offset) \<Rightarrow>
     bindE (legacy_svc (service_ListUsers limit offset)) (\<lambda>users.
     returnE (writeJSON 200 (JArr (map (handler_ToUserResponse wb) users)))))"

definition handler_DeleteUser :: "web \<Rightarrow> handler" where
  "handler_DeleteUser wb r =
     bindE (uuid_param wb ''id'' ''invalid user id'' r) (\<lambda>i.
     bindE (legacy_svc (service_DeleteUser i)) (\<lambda>_.
     returnE (WriteHeader 204)))"

definition UserHandler_Routes :: "web \<Rightarrow> route list" where
  "UserHandler_Routes wb =
     [(''POST'', [], handler_CreateUser wb),
      (''GET'', [], handler_ListUsers wb),
      (''GET'', [Param ''id''], handler_GetUser wb),
      (''DELETE'', [Param ''id''], handler_DeleteUser wb)]"

end
