(* ===== verification/Legacy_Properties.thy ===== *)
theory Legacy_Properties
  imports Legacy Web_Frames
begin

text \<open>
  How the earlier layers relate to the packages that replaced them: call for call the same database
  statements, hence the same world, the same answer up to the fields that were added, and errors that
  mean the same to a handler. The differences are the listings, which show the SYSTEM user.
\<close>

subsection \<open>Two calls that do the same\<close>

text \<open>
  From every world both end in the same world; both return, the second the image of what the first
  returns, or both fail, with errors that wrap the same sentinel.
\<close>

definition same_run :: "('a \<Rightarrow> 'b) \<Rightarrow> (gerr, 'a) act \<Rightarrow> (gerr, 'b) act \<Rightarrow> bool" where
  "same_run f m m' \<longleftrightarrow>
     (\<forall>w. snd (m' w) = snd (m w) \<and>
        (case fst (m w) of
           Inr a \<Rightarrow> fst (m' w) = Inr (f a)
         | Inl e \<Rightarrow> (\<exists>e'. fst (m' w) = Inl e' \<and> errors_is e' = errors_is e)))"

named_theorems same \<open>calls that do the same, by the structure of the code\<close>

lemma same_runI:
  assumes "\<And>w a w'. m w = (Inr a, w') \<Longrightarrow> m' w = (Inr (f a), w')"
    and "\<And>w e w'. m w = (Inl e, w') \<Longrightarrow> \<exists>e'. m' w = (Inl e', w') \<and> errors_is e' = errors_is e"
  shows "same_run f m m'"
  unfolding same_run_def
proof (intro allI)
  fix w
  obtain r w' where run: "m w = (r, w')" by fastforce
  show "snd (m' w) = snd (m w) \<and>
        (case fst (m w) of Inr a \<Rightarrow> fst (m' w) = Inr (f a) | Inl e \<Rightarrow> (\<exists>e'. fst (m' w) = Inl e' \<and> errors_is e' = errors_is e))"
  proof (cases r)
    case (Inl e)
    then show ?thesis using assms(2) [of w e w'] run by auto
  next
    case (Inr a)
    then show ?thesis using assms(1) [of w a w'] run by auto
  qed
qed

lemma same_run_Inr: "same_run f m m' \<Longrightarrow> m w = (Inr a, w') \<Longrightarrow> m' w = (Inr (f a), w')"
  unfolding same_run_def by (drule spec [of _ w]) (simp add: prod_eq_iff)

lemma same_run_Inl: "same_run f m m' \<Longrightarrow> m w = (Inl e, w') \<Longrightarrow> \<exists>e'. m' w = (Inl e', w') \<and> errors_is e' = errors_is e"
  unfolding same_run_def by (drule spec [of _ w]) (auto simp: prod_eq_iff)

lemma same_refl [same]: "same_run (\<lambda>x. x) m m"
  by (rule same_runI) auto

lemma errors_is_Wrapped: "errors_is (Wrapped p e q) = errors_is e"
  by (simp add: fun_eq_iff)

lemma same_mapE:
  assumes "same_run f m m'" and "\<And>e e'. errors_is e' = errors_is e \<Longrightarrow> errors_is (h' e') = errors_is (h e)"
  shows "same_run f (mapE h m) (mapE h' m')"
proof (rule same_runI)
  fix w a w'
  assume "mapE h m w = (Inr a, w')"
  then show "mapE h' m' w = (Inr (f a), w')" using same_run_Inr [OF assms(1)] by (simp add: mapE_Inr)
next
  fix w e w'
  assume "mapE h m w = (Inl e, w')"
  then obtain e0 where "m w = (Inl e0, w')" and e: "e = h e0" by (auto simp: mapE_Inl)
  then obtain e1 where "m' w = (Inl e1, w')" "errors_is e1 = errors_is e0" using same_run_Inl [OF assms(1)] by blast
  then show "\<exists>e'. mapE h' m' w = (Inl e', w') \<and> errors_is e' = errors_is e"
    using assms(2) e by (intro exI [of _ "h' e1"]) (auto simp: mapE_Inl)
qed

lemma same_wrapE [same]: "same_run f m m' \<Longrightarrow> same_run f (wrapE p m) (wrapE q m')"
  unfolding wrapE_def by (erule same_mapE) (simp add: errors_is_Wrapped)

lemma same_bind [same]:
  assumes "same_run f m m'" and "\<And>a. same_run g (k a) (k' (f a))"
  shows "same_run g (bindE m k) (bindE m' k')"
proof (rule same_runI)
  fix w b w'
  assume "bindE m k w = (Inr b, w')"
  then obtain a w1 where "m w = (Inr a, w1)" "k a w1 = (Inr b, w')" by (auto simp: bindE_Inr)
  then show "bindE m' k' w = (Inr (g b), w')"
    using same_run_Inr [OF assms(1)] same_run_Inr [OF assms(2)] by (simp add: bindE_run)
next
  fix w e w'
  assume "bindE m k w = (Inl e, w')"
  then consider "m w = (Inl e, w')" | a w1 where "m w = (Inr a, w1)" "k a w1 = (Inl e, w')" by (auto simp: bindE_Inl)
  then show "\<exists>e'. bindE m' k' w = (Inl e', w') \<and> errors_is e' = errors_is e"
  proof cases
    case 1
    then show ?thesis using same_run_Inl [OF assms(1)] by (metis bindE_fail)
  next
    case 2
    then show ?thesis using same_run_Inr [OF assms(1) 2(1)] same_run_Inl [OF assms(2) 2(2)] by (simp add: bindE_run)
  qed
qed

lemma same_return [same]: "b = f a \<Longrightarrow> same_run f (returnE a) (returnE b)"
  by (auto simp: same_run_def returnE_def)

lemma same_in_tx [same]:
  assumes "same_run f m m'"
  shows "same_run f (in_tx p m) (in_tx p m')"
proof -
  have "same_run f (\<lambda>w. case m w of (r, w') \<Rightarrow> (r, Rollback w')) (\<lambda>w. case m' w of (r, w') \<Rightarrow> (r, Rollback w'))"
    by (rule same_runI) (auto dest!: same_run_Inr [OF assms] same_run_Inl [OF assms] split: prod.splits)
  then show ?thesis unfolding in_tx_def with_tx_def by (rule same_bind [OF same_refl])
qed

text \<open>The errors of a statement: wrapped with another text, a conflict and a missing row stay what they are.\<close>

lemma same_stmt:
  assumes "\<And>e. errors_is (h' e) = errors_is (h e)"
  shows "same_run (\<lambda>x. x) (mapE h m) (mapE h' m)"
  by (rule same_runI) (auto simp: mapE_Inr mapE_Inl assms)

lemma same_conflict [same]: "same_run (\<lambda>x. x) (mapE (conflict_err p) m) (mapE (conflict_err q) m)"
  by (rule same_stmt) (simp add: conflict_err_def errors_is_Wrapped)

lemma same_must_affect [same]: "same_run (\<lambda>x. x) (must_affect p f) (must_affect q f)"
  unfolding must_affect_def by (rule same_bind [OF same_wrapE [OF same_refl] same_refl])

lemma same_row:
  "same_run f (mapE (row_err p) (pool_query_row q)) (mapE (row_err p') (pool_query_row (\<lambda>d. map f (q d))))"
proof -
  have r: "errors_is (row_err p' e) = errors_is (row_err p e)" for e by (simp add: row_err_def errors_is_Wrapped)
  show ?thesis
    unfolding same_run_def
    by (auto simp: mapE_def pool_query_row_def bindE_def pool_query_def first_row_def throwE_def returnE_def r
        split: list.splits)
qed

lemma same_scan: "same_run (map f) (wrapE p (mapE db_gerr (pool_list q))) (scan_list p' f q)"
proof (rule same_runI)
  fix w rows w'
  assume "wrapE p (mapE db_gerr (pool_list q)) w = (Inr rows, w')"
  then show "scan_list p' f q w = (Inr (map f rows), w')"
    by (simp add: scan_list_def bindE_def wrapE_def mapE_def returnE_def split: prod.splits sum.splits)
next
  fix w e w'
  assume "wrapE p (mapE db_gerr (pool_list q)) w = (Inl e, w')"
  then show "\<exists>e'. scan_list p' f q w = (Inl e', w') \<and> errors_is e' = errors_is e"
    by (auto simp: scan_list_def bindE_def wrapE_def mapE_def errors_is_Wrapped split: prod.splits sum.splits)
qed

subsection \<open>The calls\<close>

definition to_command :: "create_user_cmd \<Rightarrow> create_user_command" where
  "to_command c = \<lparr>cmd_Email = uc_Email c, cmd_Username = uc_Username c, cmd_FullName = uc_FullName c, cmd_Password = uc_Password c\<rparr>"

lemma row_of_scan: "account_row (scan_account a) = a"
  by (simp add: account_row_def scan_account_def)

lemma same_account_Create:
  "same_run (\<lambda>x. x) (accountStore_Create a) (accountRepository_Create (scan_account a))"
  unfolding accountStore_Create_def accountRepository_Create_def row_of_scan by (rule same_conflict)

lemma same_CreateAccount: "same_run scan_account (CreateAccount u asset) (service_CreateAccount u asset)"
proof -
  have s: "\<lparr>da_ID = i, da_UserID = u, da_Asset = asset, da_CreatedAt = now\<rparr> =
      scan_account \<lparr>a_ID = i, a_UserID = u, a_Asset = asset, a_CreatedAt = now\<rparr>" for i now
    by (simp add: scan_account_def)
  show ?thesis
    unfolding CreateAccount_def service_CreateAccount_def domain_AccountID_def Let_def s
    by (intro same_bind [OF same_refl] same_in_tx same_bind [OF same_wrapE [OF same_account_Create]] same_return HOL.refl)
qed

lemma same_GetAccount: "same_run scan_account (GetAccount i) (service_GetAccount i)"
  unfolding GetAccount_def service_GetAccount_def accountStore_GetByID_def accountRepository_GetByID_def
  by (rule same_wrapE, rule same_row)

lemma same_ListAccounts:
  "same_run (map scan_account) (ListAccounts (Some u) limit offset) (service_ListAccounts (Some u) limit offset)"
  unfolding ListAccounts_def service_ListAccounts_def option.case accountStore_ListByUser_def accountRepository_ListByUser_def
  by (rule same_wrapE, rule same_scan)

lemma same_delete: "same_run (\<lambda>x. x) (in_tx b (bindE (wrapE w (must_affect p f)) k)) (in_tx b (bindE (wrapE w (must_affect q f)) k))"
  by (intro same_in_tx same_bind [OF same_wrapE [OF same_must_affect] same_refl])

lemma same_deletes:
  "same_run (\<lambda>x. x) (DeleteAccount i) (service_DeleteAccount i)" "same_run (\<lambda>x. x) (DeleteUser i) (service_DeleteUser i)"
  unfolding DeleteAccount_def service_DeleteAccount_def accountStore_Delete_def accountRepository_Delete_def
    DeleteUser_def service_DeleteUser_def userStore_Delete_def userRepository_Delete_def
  by (rule same_delete)+

lemma same_GetUser: "same_run scan_user (GetUser i) (service_GetUser i)"
  unfolding GetUser_def service_GetUser_def userStore_GetByID_def users_by_id_def userRepository_GetByID_def
  by (rule same_wrapE, rule same_row)

lemma same_user_Create:
  assumes "u_Role u = []" and "u_DeletedAt u = None"
  shows "same_run scan_user (userStore_Create u) (bindE (userRepository_Create (scan_user u)) (\<lambda>_. returnE (scan_user u)))"
proof -
  have row: "user_row (scan_user u) = u\<lparr>u_Role := RoleUser\<rparr>" and scan: "scan_user (u\<lparr>u_Role := RoleUser\<rparr>) = scan_user u"
    using assms(2) by (simp_all add: user_row_def scan_user_def)
  have "userStore_Create u = bindE (mapE (conflict_err ''userStore.Create: '') (tx_exec (\<lambda>d _. insert_user (u\<lparr>u_Role := RoleUser\<rparr>) d)))
      (\<lambda>_. returnE (u\<lparr>u_Role := RoleUser\<rparr>))"
    using assms(1) by (simp add: userStore_Create_def Let_def)
  then show ?thesis
    unfolding userRepository_Create_def row by (simp only:) (intro same_bind [OF same_conflict] same_return scan [symmetric])
qed

lemma bind_return_wrapped: "bindE (wrapE p (bindE m (\<lambda>_. returnE x))) k = bindE (wrapE p m) (\<lambda>_. k x)"
  by (auto simp: fun_eq_iff bindE_def wrapE_def mapE_def returnE_def split: prod.splits sum.splits)

lemma bind_noop: "bindE (wrapE p (noopProvisioner i)) k = k ()"
  by (simp add: fun_eq_iff noopProvisioner_def bindE_def wrapE_def mapE_def returnE_def)

lemma same_CreateUser:
  "same_run scan_user (CreateUser bc noopProvisioner cmd) (service_CreateUser bc (to_command cmd))"
proof -
  let ?u = "\<lambda>i h now. \<lparr>u_ID = i, u_Email = uc_Email cmd, u_Username = uc_Username cmd, u_FullName = uc_FullName cmd,
      u_PasswordHash = h, u_Status = UserActive, u_Role = [], u_DeletedAt = None, u_CreatedAt = now, u_UpdatedAt = now\<rparr>"
  have s: "\<lparr>du_ID = i, du_Email = cmd_Email (to_command cmd), du_Username = cmd_Username (to_command cmd),
      du_FullName = cmd_FullName (to_command cmd), du_PasswordHash = h, du_Status = ''ACTIVE'', du_DeletedAt = None,
      du_CreatedAt = now, du_UpdatedAt = now\<rparr> = scan_user (?u i h now)" for i h now
    by (simp add: scan_user_def to_command_def UserActive_def)
  have step: "same_run scan_user (bindE (wrapE p (userStore_Create (?u i h now))) (\<lambda>u. bindE c (\<lambda>_. returnE u)))
      (bindE (wrapE p (userRepository_Create (scan_user (?u i h now)))) (\<lambda>_. bindE c (\<lambda>_. returnE (scan_user (?u i h now)))))"
    for p i h now and c :: "(gerr, unit) act"
    by (subst bind_return_wrapped [symmetric, where k = "\<lambda>x. bindE c (\<lambda>_. returnE x)"])
      (intro same_bind [OF same_wrapE [OF same_user_Create]] same_bind [OF same_refl] same_return HOL.refl; simp)
  have c: "uc_Password cmd = cmd_Password (to_command cmd)" by (simp add: to_command_def)
  show ?thesis
    unfolding CreateUser_def service_CreateUser_def domain_UserID_def NewUserID_def Let_def bind_noop s c
    by (intro same_bind [OF same_refl] same_in_tx step)
qed

text \<open>
  C39. The earlier layers do what the packages that replaced them do: for every world, configuration of
  failures included, a sign-up (without provisioning), a read, a deletion, the creation of an account and
  the list of a user's accounts run to the same world, return the same record less the role, and fail
  with an error that wraps the same sentinel.
\<close>
theorem earlier_layers_equivalent:
  "same_run scan_user (CreateUser bc noopProvisioner cmd) (service_CreateUser bc (to_command cmd)) \<and>
   same_run scan_user (GetUser i) (service_GetUser i) \<and>
   same_run (\<lambda>x. x) (DeleteUser i) (service_DeleteUser i) \<and>
   same_run scan_account (CreateAccount u asset) (service_CreateAccount u asset) \<and>
   same_run scan_account (GetAccount i) (service_GetAccount i) \<and>
   same_run (map scan_account) (ListAccounts (Some u) limit offset) (service_ListAccounts (Some u) limit offset) \<and>
   same_run (\<lambda>x. x) (DeleteAccount i) (service_DeleteAccount i)"
  by (intro conjI same_CreateUser same_GetUser same_deletes same_CreateAccount same_GetAccount same_ListAccounts)

subsection \<open>What differs\<close>

lemma domain_errors_all: "set domain_errors = UNIV - {ErrNotImplemented}"
proof -
  have "s \<in> set domain_errors \<longleftrightarrow> s \<noteq> ErrNotImplemented" for s by (cases s) (simp_all add: domain_errors_def)
  then show ?thesis by auto
qed

text \<open>The status of an error is the one of internal/shared, which knows one sentinel more.\<close>

lemma same_status:
  assumes "errors_is e' = errors_is e" and "\<not> errors_is e ErrNotImplemented"
  shows "handler_error_status e' = service_error_status e"
  using assms by (simp add: handler_error_status_def service_error_status_def)

text \<open>The listings have no filter on the role: the market user is one of the users, its accounts are among the accounts.\<close>

lemma service_ListUsers_rows:
  assumes "service_ListUsers limit offset w = (Inr us, w')"
  shows "us = map scan_user (take (nat limit) (drop (nat offset) (order_desc u_CreatedAt (filter (\<lambda>u. u_DeletedAt u = None) (db_users (w_db w))))))"
  using assms by (auto simp: service_ListUsers_def userRepository_List_def scan_list_def pool_list_def sql_page_def ok_simps split: if_splits)

lemma service_ListAccounts_rows:
  assumes "service_ListAccounts None limit offset w = (Inr as, w')"
  shows "as = map scan_account (take (nat limit) (drop (nat offset) (order_desc a_CreatedAt (db_accounts (w_db w)))))"
  using assms by (auto simp: service_ListAccounts_def accountRepository_List_def scan_list_def pool_list_def sql_page_def ok_simps split: if_splits)

subsection \<open>An error response of these handlers, too, has changed nothing\<close>

lemma same_atomic: "same_run f m m' \<Longrightarrow> atomic m \<Longrightarrow> atomic m'"
  unfolding atomic_def
proof (intro allI impI)
  fix w e' w'
  assume s: "same_run f m m'" and a: "\<forall>w e w'. m w = (Inl e, w') \<longrightarrow> same_store w w'" and run: "m' w = (Inl e', w')"
  obtain r w1 where m: "m w = (r, w1)" by fastforce
  show "same_store w w'"
  proof (cases r)
    case (Inl e)
    then have "m w = (Inl e, w1)" using m by simp
    with same_run_Inl [OF s this] run have "w1 = w'" by auto
    then show ?thesis using a \<open>m w = (Inl e, w1)\<close> by blast
  next
    case (Inr x)
    then have "m w = (Inr x, w1)" using m by simp
    from same_run_Inr [OF s this] run show ?thesis by simp
  qed
qed

lemma same_quiet: "same_run f m m' \<Longrightarrow> quiet m \<Longrightarrow> quiet m'"
  by (simp add: same_run_def quiet_def)

lemma quiet_legacy [frame]:
  "quiet m \<Longrightarrow> quiet (legacy_svc m)" "quiet (service_GetUser i)" "quiet (service_GetAccount i)" "quiet (service_GetAccountByID i)"
  "quiet (service_ListUsers l n)" "quiet (service_ListAccounts mu l n)"
proof -
  show "quiet m \<Longrightarrow> quiet (legacy_svc m)" by (simp add: legacy_svc_def quiet_mapE)
  show "quiet (service_GetUser i)" by (rule same_quiet [OF same_GetUser]) (intro frame)
  show "quiet (service_GetAccount i)" "quiet (service_GetAccountByID i)"
    unfolding service_GetAccountByID_def by (rule same_quiet [OF same_GetAccount]; intro frame)+
  show "quiet (service_ListUsers l n)"
    unfolding service_ListUsers_def userRepository_List_def scan_list_def by (intro frame)
  show "quiet (service_ListAccounts mu l n)"
    unfolding service_ListAccounts_def accountRepository_List_def accountRepository_ListByUser_def scan_list_def
    by (cases mu; simp only: option.case; intro frame)
qed

lemma legacy_last: "atomic m \<Longrightarrow> atomic (bindE (legacy_svc m) (\<lambda>x. returnE (g x)))"
  by (rule atomic_bind_after, simp add: legacy_svc_def atomic_mapE, rule never_fails_basic)

lemma atomic_account_writes: "atomic (CreateAccount u asset)" "atomic (DeleteAccount i)"
proof -
  show "atomic (CreateAccount u asset)"
    unfolding CreateAccount_def Let_def by (intro atomic_bind atomic_in_tx atomic_commit_bind frame after_commit)
  show "atomic (DeleteAccount i)"
    unfolding DeleteAccount_def by (intro atomic_in_tx atomic_bind atomic_Commit frame)
qed

lemma atomic_legacy_writes:
  "atomic (service_CreateUser bc (to_command cmd))" "atomic (service_DeleteUser i)" "atomic (service_CreateAccount u asset)"
  "atomic (service_DeleteAccount i)"
proof -
  have "quiet (noopProvisioner j)" for j unfolding noopProvisioner_def by (intro frame)
  then show "atomic (service_CreateUser bc (to_command cmd))" by (intro same_atomic [OF same_CreateUser] atomic_CreateUser)
  show "atomic (service_DeleteUser i)" by (rule same_atomic [OF same_deletes(2) atomic_DeleteUser])
  show "atomic (service_CreateAccount u asset)" by (rule same_atomic [OF same_CreateAccount atomic_account_writes(1)])
  show "atomic (service_DeleteAccount i)" by (rule same_atomic [OF same_deletes(1) atomic_account_writes(2)])
qed

lemma of_command: "\<lparr>cmd_Email = e, cmd_Username = n, cmd_FullName = f, cmd_Password = p\<rparr> =
    to_command \<lparr>uc_Email = e, uc_Username = n, uc_FullName = f, uc_Password = p\<rparr>"
  by (simp add: to_command_def)

lemma sound_legacy_users:
  "(m, p, h) \<in> set (UserHandler_Routes wb) \<Longrightarrow> sound_handler h"
proof -
  have "sound_handler (handler_GetUser wb)" "sound_handler (handler_ListUsers wb)"
    by (rule sound_quiet; unfold handler_GetUser_def handler_ListUsers_def helpers_shared; intro frame answer; simp)+
  moreover have "sound_handler (handler_CreateUser wb)" "sound_handler (handler_DeleteUser wb)"
    by (rule sound_atomic; unfold handler_CreateUser_def handler_DeleteUser_def helpers_shared of_command,
        (intro legacy_last atomic_legacy_writes atomic_bind frame | (intro answer; simp)))+
  ultimately show "(m, p, h) \<in> set (UserHandler_Routes wb) \<Longrightarrow> sound_handler h" by (auto simp: UserHandler_Routes_def)
qed

lemma sound_legacy_accounts:
  assumes "\<And>u a. quiet (ledger u a)"
  shows "(m, p, h) \<in> set (AccountHandler_Routes wb ledger) \<Longrightarrow> sound_handler h"
proof -
  have b: "quiet (service_GetBalance ledger u a)" for u a unfolding service_GetBalance_def by (intro frame assms)
  have "sound_handler (handler_GetAccount wb)" "sound_handler (handler_ListAccounts wb)" "sound_handler (handler_GetBalance wb ledger)"
    by (rule sound_quiet; unfold handler_GetAccount_def handler_ListAccounts_def handler_GetBalance_def helpers_shared;
        intro frame answer b; simp)+
  moreover have "sound_handler (handler_CreateAccount wb)" "sound_handler (handler_DeleteAccount wb)"
    by (rule sound_atomic; unfold handler_CreateAccount_def handler_DeleteAccount_def helpers_shared,
        (intro legacy_last atomic_legacy_writes atomic_bind frame | (intro answer; simp)))+
  ultimately show "(m, p, h) \<in> set (AccountHandler_Routes wb ledger) \<Longrightarrow> sound_handler h" by (auto simp: AccountHandler_Routes_def)
qed

end
