(* ===== verification/Outbox_Loop.thy ===== *)
theory Outbox_Loop
  imports Outbox
begin

text \<open>
  The loop of the outbox publisher (\<open>Start\<close> in internal/outbox/publisher.go): a batch per tick until the
  context ends, the error of a batch logged and forgotten. When nothing fails it drains the table; a
  batch of events that are refused for ever blocks every younger event.
\<close>

subsection \<open>The loop\<close>

text \<open>The ticks before \<open>ctx.Done()\<close>.\<close>

fun outbox_Start :: "publisher \<Rightarrow> nat \<Rightarrow> world \<Rightarrow> world" where
  "outbox_Start p 0 w = w"
| "outbox_Start p (Suc ticks) w = outbox_Start p ticks (snd (processBatch p w))"

subsection \<open>A batch in a calm environment\<close>

definition no_faults :: "world \<Rightarrow> bool" where
  "no_faults w \<longleftrightarrow> (\<forall>n \<ge> w_tick w. \<not> e_fault (w_env w) n)"

definition calm :: "world \<Rightarrow> bool" where
  "calm w \<longleftrightarrow> no_faults w \<and> w_tx w \<noteq> None \<and> \<not> w_abort w"

lemma no_faults_tick [simp]: "no_faults w \<Longrightarrow> no_faults (tick w)" "no_faults w \<Longrightarrow> \<not> faulty w"
  "no_faults (w\<lparr>w_tx := t\<rparr>) = no_faults w" "no_faults (w\<lparr>w_abort := b\<rparr>) = no_faults w" "no_faults (w\<lparr>w_db := d\<rparr>) = no_faults w"
  "no_faults (Rollback w) = no_faults w"
  by (simp_all add: no_faults_def faulty_def)

lemma calm_mark: "calm w \<Longrightarrow> \<exists>w'. outboxStore_MarkProcessed i w = (Inr (), w') \<and> calm w'"
  by (auto simp: calm_def outboxStore_MarkProcessed_def Now_def bindE_def wrapE_def mapE_def tx_exec_def)

lemma calm_publish: "calm w \<Longrightarrow> pb_handler p e = None \<Longrightarrow> \<exists>w'. publish_event p e w = (Inr (), w') \<and> calm w'"
  by (simp add: publish_event_def calm_mark)

lemma calm_publish_all:
  "calm w \<Longrightarrow> \<forall>e \<in> set evs. pb_handler p e = None \<Longrightarrow> \<exists>w'. mapM_E (publish_event p) evs w = (Inr (), w') \<and> calm w'"
proof (induction evs arbitrary: w)
  case (Cons e evs)
  then obtain w1 where "publish_event p e w = (Inr (), w1)" "calm w1" using calm_publish by (meson list.set_intros(1))
  then show ?case using Cons by (auto simp: bindE_def)
qed (simp add: returnE_def)

lemma calm_Commit: "calm w \<Longrightarrow> \<exists>w'. mapE db_gerr Commit w = (Inr (), w') \<and> no_faults w'"
  by (auto simp: calm_def Commit_def mapE_def)

lemma processBatch_runs:
  assumes "no_faults w" and "0 \<le> pb_batch p"
    and "\<forall>e \<in> set (take (nat (pb_batch p)) (pending (db_outbox (w_db w)))). pb_handler p e = None"
  shows "\<exists>w'. processBatch p w = (Inr (), w') \<and> no_faults w'"
proof -
  let ?evs = "take (nat (pb_batch p)) (pending (db_outbox (w_db w)))"
  let ?w1 = "(tick w)\<lparr>w_tx := Some (w_db w), w_abort := False\<rparr>"
  have c1: "calm ?w1" using assms(1) by (simp add: calm_def)
  obtain w2 where l: "outboxStore_ListPending (pb_batch p) ?w1 = (Inr ?evs, w2)" and c2: "calm w2"
    using c1 assms(2) by (auto simp: calm_def outboxStore_ListPending_def wrapE_def mapE_def bindE_def tx_exec_def sql_page_def liftE_def)
  let ?k = "\<lambda>events. if events = [] then mapE db_gerr Commit
        else bindE (mapM_E (publish_event p) events) (\<lambda>_. mapE db_gerr Commit)"
  have "\<exists>w3. ?k ?evs w2 = (Inr (), w3) \<and> no_faults w3"
  proof (cases "?evs = []")
    case True
    then show ?thesis using calm_Commit [OF c2] by simp
  next
    case False
    obtain w3 where "mapM_E (publish_event p) ?evs w2 = (Inr (), w3)" "calm w3"
      using calm_publish_all [OF c2 assms(3)] by blast
    then show ?thesis using calm_Commit False by (simp add: bindE_run)
  qed
  then obtain w3 where w3: "?k ?evs w2 = (Inr (), w3)" "no_faults w3" by blast
  have "bindE (outboxStore_ListPending (pb_batch p)) ?k ?w1 = (Inr (), w3)" using w3(1) l by (simp only: bindE_run)
  then have "processBatch p w = (Inr (), Rollback w3)"
    using assms(1) unfolding processBatch_def by (simp only: with_tx_Inr) (intro exI [of _ w3], simp)
  then show ?thesis using w3(2) by simp
qed

subsection \<open>What is pending afterwards\<close>

definition batch_rows :: "publisher \<Rightarrow> outbox_event list \<Rightarrow> outbox_event list \<Rightarrow> bool" where
  "batch_rows p rows rows' \<longleftrightarrow>
     list_all2 (\<lambda>r r'. if r \<in> set (take (nat (pb_batch p)) (pending rows)) then marked p r r' else r' = r) rows rows'"

lemma processBatch_batch_rows:
  assumes "processBatch p w = (Inr u, w')" and "distinct_ids (db_outbox (w_db w))"
  shows "batch_rows p (db_outbox (w_db w)) (db_outbox (w_db w'))"
proof -
  obtain rows where rows: "w_db w' = (w_db w)\<lparr>db_outbox := rows\<rparr>" "length rows = length (db_outbox (w_db w))"
     "\<forall>i < length rows.
        if db_outbox (w_db w) ! i \<in> set (take (nat (pb_batch p)) (pending (db_outbox (w_db w))))
        then marked p (db_outbox (w_db w) ! i) (rows ! i)
        else rows ! i = db_outbox (w_db w) ! i"
    using processBatch_rows [OF assms] by blast
  then show ?thesis by (simp add: batch_rows_def list_all2_conv_all_nth)
qed

lemma marked_id: "marked p r r' \<Longrightarrow> ev_ID r' = ev_ID r"
  by (auto simp: marked_def split: option.splits)

lemma batch_rows_ids: "batch_rows p rows rows' \<Longrightarrow> distinct_ids rows \<Longrightarrow> distinct_ids rows'"
proof -
  assume "batch_rows p rows rows'" "distinct_ids rows"
  moreover have "map ev_ID rows' = map ev_ID rows"
    using calculation(1) marked_id
    by (auto simp: batch_rows_def list_all2_conv_all_nth list_eq_iff_nth_eq) metis
  ultimately show ?thesis by (simp add: distinct_ids_def)
qed

lemma take_filter_drop: "distinct xs \<Longrightarrow> filter (\<lambda>x. x \<notin> set (take k xs)) xs = drop k xs"
proof -
  assume d: "distinct xs"
  have "set (take k xs) \<inter> set (drop k xs) = {}" using d by (metis append_take_drop_id distinct_append)
  then have f: "filter (\<lambda>x. x \<notin> set (take k xs)) (take k xs) = []" "filter (\<lambda>x. x \<notin> set (take k xs)) (drop k xs) = drop k xs"
    by (auto simp: filter_empty_conv filter_id_conv simp del: set_take_subset)
  have "filter (\<lambda>x. x \<notin> set (take k xs)) xs = filter (\<lambda>x. x \<notin> set (take k xs)) (take k xs @ drop k xs)"
    by (simp only: append_take_drop_id)
  then show ?thesis by (simp only: filter_append f append_Nil)
qed

lemma filter_processed:
  "list_all2 (\<lambda>r r'. if r \<in> T then ev_Status r' = StatusProcessed else r' = r) rows rows' \<Longrightarrow>
   filter (\<lambda>e. ev_Status e = StatusPending) rows' = filter (\<lambda>e. e \<notin> T) (filter (\<lambda>e. ev_Status e = StatusPending) rows)"
  by (induction rule: list_all2_induct) (auto simp: StatusProcessed_def StatusPending_def split: if_splits)

lemma batch_pending:
  assumes b: "batch_rows p rows rows'" and d: "distinct_ids rows"
    and h: "\<forall>e \<in> set (take (nat (pb_batch p)) (pending rows)). pb_handler p e = None"
  shows "pending rows' = drop (nat (pb_batch p)) (pending rows)"
proof -
  let ?T = "set (take (nat (pb_batch p)) (pending rows))"
  have "list_all2 (\<lambda>r r'. if r \<in> ?T then ev_Status r' = StatusProcessed else r' = r) rows rows'"
    using b unfolding batch_rows_def by (rule list_all2_mono) (use h in \<open>auto simp: marked_def\<close>)
  then have "filter (\<lambda>e. ev_Status e = StatusPending) rows' = filter (\<lambda>e. e \<notin> ?T) (filter (\<lambda>e. ev_Status e = StatusPending) rows)"
    by (rule filter_processed)
  then have "pending rows' = filter (\<lambda>e. e \<notin> ?T) (pending rows)" by (simp add: pending_def filter_sort)
  also have "\<dots> = drop (nat (pb_batch p)) (pending rows)" by (rule take_filter_drop [OF distinct_pending [OF d]])
  finally show ?thesis .
qed

lemma outbox_Start_drains:
  assumes "no_faults w" and "0 \<le> pb_batch p" and "distinct_ids (db_outbox (w_db w))"
    and "\<forall>e. pb_handler p e = None"
  shows "pending (db_outbox (w_db (outbox_Start p ticks w))) = drop (ticks * nat (pb_batch p)) (pending (db_outbox (w_db w)))"
  using assms
proof (induction ticks arbitrary: w)
  case (Suc ticks)
  obtain w' where run: "processBatch p w = (Inr (), w')" and n: "no_faults w'"
    using processBatch_runs [OF Suc.prems(1,2)] Suc.prems(4) by blast
  have b: "batch_rows p (db_outbox (w_db w)) (db_outbox (w_db w'))" by (rule processBatch_batch_rows [OF run Suc.prems(3)])
  have "pending (db_outbox (w_db w')) = drop (nat (pb_batch p)) (pending (db_outbox (w_db w)))"
    by (rule batch_pending [OF b Suc.prems(3)]) (use Suc.prems(4) in blast)
  then show ?case
    using Suc.IH [OF n Suc.prems(2) batch_rows_ids [OF b Suc.prems(3)] Suc.prems(4)] run by (simp add: add.commute)
qed simp

text \<open>
  C40. The publisher drains the outbox: when the database stays up, after \<open>n\<close> ticks the publisher of the server
  has published the oldest \<open>50 * n\<close> pending events and exactly the younger ones are left, in order;
  so enough ticks leave none.
\<close>
theorem outbox_drains:
  assumes "no_faults w" and "distinct_ids (db_outbox (w_db w))"
  shows "pending (db_outbox (w_db (outbox_Start (NewPublisher None 1000000000) n w))) = drop (n * 50) (pending (db_outbox (w_db w)))"
  using outbox_Start_drains [of w "NewPublisher None 1000000000", OF assms(1) _ assms(2)] by (simp add: NewPublisher_def noopHandler_def)

definition ex_outbox :: world where
  "ex_outbox = ex_world (empty_db\<lparr>db_outbox := [ex_event 1 5, ex_event 2 4]\<rparr>)"

lemma outbox_drains_witness: "pending (db_outbox (w_db (outbox_Start (NewPublisher None 1000000000) 1 ex_outbox))) = []"
proof -
  have "no_faults ex_outbox" by (simp add: no_faults_def ex_outbox_def)
  moreover have "distinct_ids (db_outbox (w_db ex_outbox))" by (simp add: distinct_ids_def ex_outbox_def ex_event_def)
  moreover have "length (pending (db_outbox (w_db ex_outbox))) \<le> 50" by (simp add: pending_def ex_outbox_def)
  ultimately show ?thesis using outbox_drains [of ex_outbox 1] by simp
qed

subsection \<open>Events that are refused\<close>

lemma insort_key_map: "(\<And>x. f (g x) = f x) \<Longrightarrow> insort_key f (g x) (map g xs) = map g (insort_key f x xs)"
  by (induction xs) auto

lemma sort_key_map: "(\<And>x. f (g x) = f x) \<Longrightarrow> sort_key f (map g xs) = map g (sort_key f xs)"
  by (induction xs) (simp_all add: insort_key_map)

definition refuse :: "outbox_event set \<Rightarrow> outbox_event \<Rightarrow> outbox_event" where
  "refuse T r = (if r \<in> T then r\<lparr>ev_Retries := ev_Retries r + 1\<rparr> else r)"

lemma refuse_simps [simp]: "ev_ID (refuse T r) = ev_ID r" "ev_CreatedAt (refuse T r) = ev_CreatedAt r" "ev_Status (refuse T r) = ev_Status r"
  by (simp_all add: refuse_def)

lemma pending_refuse: "pending (map (refuse T) rows) = map (refuse T) (pending rows)"
  by (simp add: pending_def filter_map comp_def sort_key_map)

lemma map_refused:
  "list_all2 (\<lambda>r r'. r' = refuse T r) rows rows' \<Longrightarrow> rows' = map (refuse T) rows"
  by (induction rule: list_all2_induct) simp_all

lemma marked_refused: "marked p r r' \<Longrightarrow> pb_handler p r \<noteq> None \<Longrightarrow> r \<in> T \<Longrightarrow> r' = refuse T r"
  by (auto simp: marked_def refuse_def)

lemma refused_batch:
  assumes "batch_rows p rows rows'" and "\<forall>e \<in> set (take (nat (pb_batch p)) (pending rows)). pb_handler p e \<noteq> None"
  shows "rows' = map (refuse (set (take (nat (pb_batch p)) (pending rows)))) rows"
proof (rule map_refused)
  show "list_all2 (\<lambda>r r'. r' = refuse (set (take (nat (pb_batch p)) (pending rows))) r) rows rows'"
    using assms(1) unfolding batch_rows_def
  proof (rule list_all2_mono)
    fix r r'
    assume "if r \<in> set (take (nat (pb_batch p)) (pending rows)) then marked p r r' else r' = r"
    then show "r' = refuse (set (take (nat (pb_batch p)) (pending rows))) r"
      using marked_refused assms(2) by (cases "r \<in> set (take (nat (pb_batch p)) (pending rows))") (auto simp: refuse_def)
  qed
qed

text \<open>
  A batch of events the handler refuses for ever blocks the outbox: whatever the number of ticks and
  whatever fails, no younger event is ever published, as there is no limit to the retries.
\<close>
theorem outbox_head_blocks:
  assumes "distinct_ids (db_outbox (w_db w))"
    and "\<forall>e. ev_ID e \<in> ev_ID ` set (take (nat (pb_batch p)) (pending (db_outbox (w_db w)))) \<longrightarrow> pb_handler p e \<noteq> None"
  shows "drop (nat (pb_batch p)) (pending (db_outbox (w_db (outbox_Start p n w)))) = drop (nat (pb_batch p)) (pending (db_outbox (w_db w)))"
  using assms
proof (induction n arbitrary: w)
  case (Suc n)
  let ?rows = "db_outbox (w_db w)" and ?k = "nat (pb_batch p)"
  obtain r w' where run: "processBatch p w = (r, w')" by fastforce
  have "distinct_ids (db_outbox (w_db w')) \<and> map ev_ID (take ?k (pending (db_outbox (w_db w')))) = map ev_ID (take ?k (pending ?rows)) \<and>
      drop ?k (pending (db_outbox (w_db w'))) = drop ?k (pending ?rows)"
  proof (cases r)
    case (Inl e)
    then have "w_db w' = w_db w" using processBatch_atomic run by blast
    then show ?thesis using Suc.prems(1) by simp
  next
    case (Inr u)
    let ?T = "set (take ?k (pending ?rows))"
    have b: "batch_rows p ?rows (db_outbox (w_db w'))" using processBatch_batch_rows Suc.prems(1) run Inr by blast
    have "db_outbox (w_db w') = map (refuse ?T) ?rows" by (rule refused_batch [OF b]) (use Suc.prems(2) in blast)
    then have pend: "pending (db_outbox (w_db w')) = map (refuse ?T) (pending ?rows)" by (simp add: pending_refuse)
    have "?T \<inter> set (drop ?k (pending ?rows)) = {}"
      using distinct_pending [OF Suc.prems(1)] by (metis append_take_drop_id distinct_append)
    then have "map (refuse ?T) (drop ?k (pending ?rows)) = drop ?k (pending ?rows)"
      by (intro map_idI) (auto simp: refuse_def)
    then show ?thesis using batch_rows_ids [OF b Suc.prems(1)] by (simp add: pend take_map drop_map comp_def)
  qed
  moreover from this have "ev_ID ` set (take ?k (pending (db_outbox (w_db w')))) = ev_ID ` set (take ?k (pending ?rows))"
    by (metis list.set_map)
  ultimately show ?case using Suc.IH [of w'] Suc.prems(2) run by simp
qed simp

lemma outbox_head_blocks_witness:
  "drop 50 (pending (db_outbox (w_db (outbox_Start (NewPublisher (Some (\<lambda>_. Some (Opaque ''refused''))) 1) 7 ex_outbox)))) =
   drop 50 (pending (db_outbox (w_db ex_outbox)))"
  using outbox_head_blocks [of ex_outbox "NewPublisher (Some (\<lambda>_. Some (Opaque ''refused''))) 1" 7]
  by (simp add: NewPublisher_def distinct_ids_def ex_outbox_def ex_event_def)

end
