(* ===== verification/Evolution.thy ===== *)
theory Evolution
  imports Web_Properties Settlement Outbox_Loop
begin

text \<open>
  How the database evolves. An action is judged by a relation \<open>R\<close>, reflexive and transitive, between the
  database before and after it. \<open>store_contract\<close> is the interface between the statements of the stores
  and the services above them: each kind of statement the stores send stays within \<open>R\<close>. Inside it, once
  for every such relation: every service call stays within \<open>R\<close>, whatever fails. \<open>side_contract\<close> is the
  part of it that sign-ups, addresses and the outbox publisher need.
\<close>

subsection \<open>Actions that stay within a relation\<close>

text \<open>
  An action started in a world that satisfies \<open>K\<close> ends in one that does, and takes the committed
  database to one it is \<open>R\<close>-related to.
\<close>

definition evolves :: "(db \<Rightarrow> db option \<Rightarrow> bool) \<Rightarrow> (db \<Rightarrow> db \<Rightarrow> bool) \<Rightarrow> ('e, 'a) act \<Rightarrow> bool" where
  "evolves K R m \<longleftrightarrow>
     (\<forall>w. K (w_db w) (w_tx w) \<longrightarrow>
        K (w_db (snd (m w))) (w_tx (snd (m w))) \<and> R (w_db w) (w_db (snd (m w))))"

text \<open>
  Two such conditions: no transaction is open, as between the calls of the services; and an open one
  has a working copy within the relation, which a commit makes the database.
\<close>

definition no_tx :: "db \<Rightarrow> db option \<Rightarrow> bool" where
  "no_tx d t \<longleftrightarrow> t = None"

definition working :: "(db \<Rightarrow> db \<Rightarrow> bool) \<Rightarrow> db \<Rightarrow> db option \<Rightarrow> bool" where
  "working R d t \<longleftrightarrow> (\<forall>d'. t = Some d' \<longrightarrow> R d d')"

definition any_db :: "db \<Rightarrow> db \<Rightarrow> bool" where
  "any_db d d' \<longleftrightarrow> True"

named_theorems evo \<open>actions that stay within a relation, by the structure of the code\<close>

lemma evolvesD:
  "evolves K R m \<Longrightarrow> m w = (r, w') \<Longrightarrow> K (w_db w) (w_tx w) \<Longrightarrow> K (w_db w') (w_tx w') \<and> R (w_db w) (w_db w')"
  unfolding evolves_def by (metis snd_conv)

lemma evolvesI:
  "(\<And>w r w'. m w = (r, w') \<Longrightarrow> K (w_db w) (w_tx w) \<Longrightarrow> K (w_db w') (w_tx w') \<and> R (w_db w) (w_db w')) \<Longrightarrow> evolves K R m"
  unfolding evolves_def by (metis prod.collapse)

lemma evolves_imp: "evolves K R m \<Longrightarrow> (\<And>d d'. R d d' \<Longrightarrow> R' d d') \<Longrightarrow> evolves K R' m"
  unfolding evolves_def by blast

lemma evolves_conj: "evolves K R m \<Longrightarrow> evolves K R' m \<Longrightarrow> evolves K (\<lambda>d d'. R d d' \<and> R' d d') m"
  unfolding evolves_def by blast

lemma evolves_closed: "evolves (working R) R m \<Longrightarrow> evolves no_tx any_db m \<Longrightarrow> evolves no_tx R m"
  unfolding evolves_def working_def no_tx_def by auto

text \<open>A call that leaves the store alone when it fails is judged by what it commits.\<close>

lemma evolves_by_effect:
  assumes "evolves no_tx any_db m" and "atomic m" and "\<And>d. R d d"
    and "\<And>w a w'. m w = (Inr a, w') \<Longrightarrow> R (w_db w) (w_db w')"
  shows "evolves no_tx R m"
proof (rule evolvesI)
  fix w r w'
  assume run: "m w = (r, w')" and t: "no_tx (w_db w) (w_tx w)"
  have "R (w_db w) (w_db w')" using run atomic_failed [OF assms(2)] assms(3,4) by (cases r) auto
  then show "no_tx (w_db w') (w_tx w') \<and> R (w_db w) (w_db w')" using evolvesD [OF assms(1) run t] by blast
qed

lemma evolves_mapE [evo]: "evolves K R m \<Longrightarrow> evolves K R (mapE g m)"
  unfolding evolves_def mapE_def by (auto split: prod.splits sum.splits)

lemma evolves_wrapE [evo]: "evolves K R m \<Longrightarrow> evolves K R (wrapE pre m)"
  by (simp add: wrapE_def evolves_mapE)

lemma evolves_tryE [evo]: "evolves K R m \<Longrightarrow> evolves K R (tryE m)"
  unfolding evolves_def tryE_def by (auto split: prod.splits)

lemma evolves_svc [evo]: "evolves K R m \<Longrightarrow> evolves K R (svc m)" "evolves K R m \<Longrightarrow> evolves K R (svc_once m)"
  by (simp_all add: svc_def svc_once_def evolves_mapE)

lemma evolves_cases [evo]:
  "evolves K R m \<Longrightarrow> evolves K R m' \<Longrightarrow> evolves K R (if c then m else m')"
  "evolves K R m \<Longrightarrow> (\<And>a. evolves K R (g a)) \<Longrightarrow> evolves K R (case x of None \<Rightarrow> m | Some a \<Rightarrow> g a)"
  "(\<And>a b. evolves K R (k a b)) \<Longrightarrow> evolves K R (case p of (a, b) \<Rightarrow> k a b)"
  "(\<And>e. evolves K R (h e)) \<Longrightarrow> (\<And>a. evolves K R (h' a)) \<Longrightarrow> evolves K R (case s of Inl e \<Rightarrow> h e | Inr a \<Rightarrow> h' a)"
  by (auto split: option.splits prod.splits sum.splits)

definition evolving :: "(db \<Rightarrow> db option \<Rightarrow> bool) \<Rightarrow> (db \<Rightarrow> db \<Rightarrow> bool) \<Rightarrow> route list \<Rightarrow> bool" where
  "evolving K R rs \<longleftrightarrow> (\<forall>x \<in> set rs. \<forall>r. evolves K R (snd (snd x) r))"

lemma evolving_simps [simp]:
  "evolving K R []" "evolving K R ((m, p, h) # rs) \<longleftrightarrow> (\<forall>r. evolves K R (h r)) \<and> evolving K R rs"
  "evolving K R (rs @ rs') \<longleftrightarrow> evolving K R rs \<and> evolving K R rs'" "evolving K R (mount q rs) \<longleftrightarrow> evolving K R rs"
  unfolding evolving_def mount_def by (force split: prod.splits)+

lemmas read_defs =
  tx_query_row_def pool_query_row_def pool_list_def
  accountStore_GetByID_def accountStore_GetByUserAndAsset_def accountStore_List_def accountStore_ListByUser_def GetAccount_def
  ListAccounts_def AccountID_def GetBalance_def
  ledgerStore_SumByUserAsset_def ledgerStore_ListByUser_def ledgerStore_CountByUser_def ledgerService_SumByUserAsset_def
  ledgerService_ListByUser_def ledgerService_CountByUser_def
  orderStore_GetByID_def orderStore_GetByIDTx_def orderStore_ListByUser_def GetOrder_def ListOrders_def
  tradeStore_ListByUser_def trade_ListByUser_def
  assetStore_ListAssets_def assetStore_GetAsset_def assetStore_ListNetworks_def assetStore_GetNetwork_def
  assetStore_GetNetworkByID_def asset_ListAssets_def EnabledSymbols_def asset_GetAsset_def asset_ListNetworks_def
  asset_GetNetwork_def asset_GetNetworkByID_def ValidateAddress_def catalog_NetworkID_def
  walletStore_GetByUserAssetNetwork_def walletStore_GetByAddress_def walletStore_ListByUser_def ListMyAddresses_def GetByAddress_def
  depositStore_GetByID_def depositStore_GetByIDTx_def depositStore_ListByUser_def deposit_ListMine_def
  withdrawalStore_ListByUser_def withdrawal_ListMine_def
  userStore_GetByID_def userStore_GetByEmail_def userStore_List_def GetUser_def ListUsers_def Login_def
  outboxStore_ListPending_def

lemmas web_defs =
  orHTTP_def decode_valid_def need_user_def uuid_param_def parse_num_def balance_or_empty_def respondList_def Sign_def Verify_def

subsection \<open>The contracts\<close>

locale within =
  fixes K :: "db \<Rightarrow> db option \<Rightarrow> bool" and R :: "db \<Rightarrow> db \<Rightarrow> bool"
  assumes within_refl: "R d d"
    and within_trans: "R a b \<Longrightarrow> R b c \<Longrightarrow> R a c"
begin

lemma still: "(\<And>w. w_db (snd (m w)) = w_db w \<and> w_tx (snd (m w)) = w_tx w) \<Longrightarrow> evolves K R m"
  by (simp add: evolves_def within_refl)

lemma evolves_basic [evo]:
  "evolves K R (returnE a)" "evolves K R (throwE e)" "evolves K R (liftE r)" "evolves K R (guardE c e)" "evolves K R NewV7" "evolves K R Now"
  "evolves K R (pool_query q)" "evolves K R (first_row rows)" "evolves K R (HashPassword bc p)" "evolves K R (rand_read rnd n)"
  by (rule still; auto simp: returnE_def throwE_def liftE_def guardE_def NewV7_def Now_def pool_query_def HashPassword_def
      rand_read_def first_row_def wrapE_def mapE_def split: option.splits sum.splits list.splits)+

lemma evolves_submit [evo]: "evolves K R (SubmitPlace a b c d p q)" "evolves K R (SubmitCancel a c)"
  by (rule still; auto simp: SubmitPlace_def SubmitCancel_def Let_def split: option.splits prod.splits)+

lemma evolves_bindE [evo]:
  assumes m: "evolves K R m" and f: "\<And>a. evolves K R (f a)"
  shows "evolves K R (bindE m f)"
proof (rule evolvesI)
  fix w r w'
  assume run: "bindE m f w = (r, w')" and t: "K (w_db w) (w_tx w)"
  obtain x w1 where m1: "m w = (x, w1)" by fastforce
  note 1 = evolvesD [OF m m1 t]
  show "K (w_db w') (w_tx w') \<and> R (w_db w) (w_db w')"
  proof (cases x)
    case (Inl e)
    then show ?thesis using run m1 1 by (simp add: bindE_def)
  next
    case (Inr a)
    then have "f a w1 = (r, w')" using run m1 by (simp add: bindE_def)
    from evolvesD [OF f this] 1 show ?thesis using within_trans by blast
  qed
qed

lemma evolves_mapM_E [evo]: "(\<And>x. evolves K R (f x)) \<Longrightarrow> evolves K R (mapM_E f xs)"
  by (induction xs) (auto intro!: evo)

lemma evolves_requests [evo]:
  "evolves K R (orHTTP n msg x)" "evolves K R (decode_valid v spec r)" "evolves K R (need_user r)" "evolves K R (uuid_param wb name msg r)"
  "evolves K R (parse_num wb msg s)" "evolves K R (Sign j dp sg u role)" "evolves K R (Verify j dp sg t)"
  "evolves K R (balance_or_empty wb u asset)" "evolves K R (respondList wb f)"
  unfolding web_defs read_defs Let_def by (intro evo)+

end

locale transactions = within "working R" R for R
begin

lemma evolves_begin [evo]: "evolves (working R) R Begin"
  by (auto simp: evolves_def Begin_def working_def within_refl)

lemma evolves_commit [evo]: "evolves (working R) R Commit"
  by (auto simp: evolves_def Commit_def working_def within_refl split: option.splits)

lemma evolves_commit_tx [evo]: "evolves (working R) R (commit_tx pre)"
  unfolding commit_tx_def by (intro evo)

lemma evolves_with_tx [evo]:
  assumes "evolves (working R) R b" and "evolves (working R) R body"
  shows "evolves (working R) R (with_tx b body)"
proof -
  have "evolves (working R) R (\<lambda>w. case body w of (r, w') \<Rightarrow> (r, Rollback w'))"
    using assms(2) by (auto simp: evolves_def working_def split: prod.splits)
  then show ?thesis unfolding with_tx_def by (intro evo assms(1))
qed

lemma evolves_in_tx [evo]: "evolves (working R) R body \<Longrightarrow> evolves (working R) R (in_tx pre body)"
  unfolding in_tx_def by (intro evo)

lemma evolves_tx_exec:
  assumes "\<And>d t a d'. f d t = Inr (a, d') \<Longrightarrow> R d d'"
  shows "evolves (working R) R (tx_exec f)"
proof (rule evolvesI)
  fix w r w'
  assume run: "tx_exec f w = (r, w')" and t: "working R (w_db w) (w_tx w)"
  show "working R (w_db w') (w_tx w') \<and> R (w_db w) (w_db w')"
  proof (cases r)
    case (Inl e)
    then show ?thesis using run t by (auto simp: tx_exec_def working_def within_refl split: option.splits if_splits sum.splits prod.splits)
  next
    case (Inr a)
    then obtain d d' where d: "w_tx w = Some d" "f d (e_now (w_env w) (w_tick w)) = Inr (a, d')" "w' = (tick w)\<lparr>w_tx := Some d'\<rparr>"
      using run by (auto simp: tx_exec_Inr)
    have "R (w_db w) d'" using t d(1) assms [OF d(2)] within_trans by (auto simp: working_def)
    then show ?thesis using d(3) by (simp add: working_def within_refl)
  qed
qed

lemma evolves_tx_read [evo]: "evolves (working R) R (tx_exec (\<lambda>d t. Inr (f d, d)))"
  by (rule evolves_tx_exec) (auto simp: within_refl)

lemma evolves_must_affect:
  assumes "\<And>d t n d'. f d t = Inr (n, d') \<Longrightarrow> R d d'"
  shows "evolves (working R) R (must_affect pre f)"
  unfolding must_affect_def by (intro evo evolves_tx_exec) (rule assms)

end

locale side_contract = transactions +
  assumes account_insert: "insert_account a d = Inr (u, d') \<Longrightarrow> R d d'"
    and user_insert: "insert_user x d = Inr (u, d') \<Longrightarrow> R d d'"
    and user_delete: "R d (d\<lparr>db_users := map (\<lambda>r. if u_ID r = i \<and> u_DeletedAt r = None then r\<lparr>u_DeletedAt := Some t\<rparr> else r) (db_users d)\<rparr>)"
    and wallet_insert: "insert_wallet wa d = Inr (u, d') \<Longrightarrow> R d d'"
    and outbox_insert: "insert_outbox i ty payload t d = Inr (u, d') \<Longrightarrow> R d d'"
    and outbox_mark: "R d (d\<lparr>db_outbox := update_rows (\<lambda>r. ev_ID r = i) (\<lambda>r. r\<lparr>ev_Status := StatusProcessed, ev_ProcessedAt := Some t\<rparr>) (db_outbox d)\<rparr>)"
    and outbox_retry: "R d (d\<lparr>db_outbox := update_rows (\<lambda>r. ev_ID r = i) (\<lambda>r. r\<lparr>ev_Retries := ev_Retries r + 1\<rparr>) (db_outbox d)\<rparr>)"
begin

lemma evolves_side_inserts [evo]:
  "evolves (working R) R (accountStore_Create a)" "evolves (working R) R (userStore_Create us)"
  "evolves (working R) R (walletStore_Create wa)" "evolves (working R) R (outboxStore_Insert i ty payload t)"
  unfolding accountStore_Create_def userStore_Create_def walletStore_Create_def outboxStore_Insert_def Let_def
  by (intro evo evolves_tx_exec, erule account_insert user_insert wallet_insert outbox_insert)+

lemma evolves_side_updates [evo]:
  "evolves (working R) R (outboxStore_MarkProcessed i)" "evolves (working R) R (outboxStore_IncrementRetries i)"
  "evolves (working R) R (userStore_Delete i)"
proof -
  show "evolves (working R) R (outboxStore_MarkProcessed i)"
    unfolding outboxStore_MarkProcessed_def by (intro evo evolves_tx_exec) (auto simp: outbox_mark)
  show "evolves (working R) R (outboxStore_IncrementRetries i)"
    unfolding outboxStore_IncrementRetries_def by (intro evo evolves_tx_exec) (auto simp: outbox_retry split: if_splits)
  show "evolves (working R) R (userStore_Delete i)"
    unfolding userStore_Delete_def by (rule evolves_must_affect) (auto simp: user_delete)
qed

lemma evolves_address_loop [evo]: "evolves (working R) R (address_loop k rnd u asset net i)"
  by (induction k) (auto simp: address_attempt_def generateMockAddress_def Let_def intro!: evo)

lemma evolves_provision_loop [evo]: "evolves (working R) R (provision_loop u now symbols)"
  by (induction symbols) (auto intro!: evo)

lemma evolves_side:
  "evolves (working R) R (GetOrCreateAddress rnd u asset net)" "evolves (working R) R (CreateUser bc sv_provisioner uc)"
  "evolves (working R) R (DeleteUser i)" "evolves (working R) R (processBatch p)"
proof -
  show "evolves (working R) R (GetOrCreateAddress rnd u asset net)" unfolding GetOrCreateAddress_def read_defs by (intro evo)
  have "evolves (working R) R (sv_provisioner u)" for u unfolding sv_provisioner_def ProvisionAll_def read_defs by (intro evo)
  then show "evolves (working R) R (CreateUser bc sv_provisioner uc)" unfolding CreateUser_def NewUserID_def Let_def by (intro evo)
  show "evolves (working R) R (DeleteUser i)" unfolding DeleteUser_def by (intro evo)
  show "evolves (working R) R (processBatch p)" unfolding processBatch_def publish_event_def read_defs by (intro evo)
qed

end

locale store_contract = side_contract +
  assumes ledger_insert: "insert_ledger e d = Inr (u, d') \<Longrightarrow> R d d'"
    and idem_insert: "insert_idem i key scope t d = Inr (u, d') \<Longrightarrow> R d d'"
    and order_insert: "insert_order o1 d = Inr (u, d') \<Longrightarrow> R d d'"
    and order_status: "s \<noteq> StatusOpen \<Longrightarrow>
      R d (d\<lparr>db_orders := update_rows (\<lambda>r. o_ID r = i) (\<lambda>r. r\<lparr>o_Status := s, o_UpdatedAt := t\<rparr>) (db_orders d)\<rparr>)"
    and order_filled: "increment_rows i q t (db_orders d) = Inr rows \<Longrightarrow> R d (d\<lparr>db_orders := rows\<rparr>)"
    and trade_insert: "insert_trade tr d = Inr (u, d') \<Longrightarrow> R d d'"
    and deposit_insert: "insert_deposit x' d = Inr (u, d') \<Longrightarrow> R d d'"
    and deposit_status: "s \<noteq> DepositPending \<Longrightarrow>
      R d (d\<lparr>db_deposits := update_rows (\<lambda>r. d_ID r = i) (\<lambda>r. r\<lparr>d_Status := s, d_ConfirmedAt := c\<rparr>) (db_deposits d)\<rparr>)"
    and withdrawal_insert: "insert_withdrawal wd d = Inr (u, d') \<Longrightarrow> R d d'"
begin

lemma evolves_inserts [evo]:
  "evolves (working R) R (ledgerStore_Insert e)" "evolves (working R) R (idempotencyStore_Insert key scope)"
  "evolves (working R) R (orderStore_Create o1)" "evolves (working R) R (tradeStore_Create tr)"
  "evolves (working R) R (depositStore_Create x)" "evolves (working R) R (withdrawalStore_Insert wd)"
  unfolding ledgerStore_Insert_def idempotencyStore_Insert_def orderStore_Create_def tradeStore_Create_def depositStore_Create_def
    withdrawalStore_Insert_def Let_def
  by (intro evo evolves_tx_exec, erule ledger_insert idem_insert order_insert trade_insert deposit_insert withdrawal_insert)+

lemma evolves_updates [evo]:
  "s \<noteq> StatusOpen \<Longrightarrow> evolves (working R) R (orderStore_UpdateStatus i s)"
  "evolves (working R) R (orderStore_IncrementFilled i q)"
  "s' \<noteq> DepositPending \<Longrightarrow> evolves (working R) R (depositStore_UpdateStatus i s' c)"
proof -
  show "s \<noteq> StatusOpen \<Longrightarrow> evolves (working R) R (orderStore_UpdateStatus i s)"
    unfolding orderStore_UpdateStatus_def by (rule evolves_must_affect) (auto simp: order_status split: if_splits)
  show "evolves (working R) R (orderStore_IncrementFilled i q)"
    unfolding orderStore_IncrementFilled_def by (rule evolves_must_affect) (auto simp: order_filled split: sum.splits)
  show "s' \<noteq> DepositPending \<Longrightarrow> evolves (working R) R (depositStore_UpdateStatus i s' c)"
    unfolding depositStore_UpdateStatus_def by (rule evolves_must_affect) (auto simp: deposit_status split: if_splits)
qed

lemma evolves_small [evo]:
  "evolves (working R) R (claim_key pre key scope)" "evolves (working R) R (insertOutbox ty payload)"
  "evolves (working R) R (insert_entry en)" "evolves (working R) R (applyOrderFill dp o1 q)"
  "evolves (working R) R (release_tx dp o1 asset q)"
proof -
  show "evolves (working R) R (claim_key pre key scope)" unfolding claim_key_def by (intro evo)
  show "evolves (working R) R (insertOutbox ty payload)" unfolding insertOutbox_def by (intro evo)
  show "evolves (working R) R (insert_entry en)" unfolding insert_entry_def by (intro evo)
  show "evolves (working R) R (applyOrderFill dp o1 q)"
    unfolding applyOrderFill_def Let_def by (intro evo) (simp_all add: StatusFilled_def StatusPartial_def StatusOpen_def)
  show "evolves (working R) R (release_tx dp o1 asset q)" unfolding release_tx_def read_defs by (intro evo)
qed

lemma evolves_orders:
  "evolves (working R) R (in_tx pre (place_tx dp cmd acct asset amt))" "evolves (working R) R (CancelOrder dp i)"
  "evolves (working R) R (ExecuteTrade dp tc)" "evolves (working R) R (persistMarketOrder dp u side sy p q)"
proof -
  show "evolves (working R) R (in_tx pre (place_tx dp cmd acct asset amt))" unfolding place_tx_def Let_def by (intro evo)
  show "evolves (working R) R (CancelOrder dp i)"
    unfolding CancelOrder_def Let_def read_defs by (intro evo) (simp add: StatusCancelled_def StatusOpen_def)
  show "evolves (working R) R (ExecuteTrade dp tc)" unfolding ExecuteTrade_def settle_tx_def Let_def read_defs by (intro evo)
  show "evolves (working R) R (persistMarketOrder dp u side sy p q)" unfolding persistMarketOrder_def by (intro evo)
qed

lemma evolves_funding:
  "evolves (working R) R (Intake ic)" "evolves (working R) R (Confirm dp i)" "evolves (working R) R (Reject dp i)"
  "evolves (working R) R (in_tx pre (withdraw_tx dp wc n acct))"
proof -
  show "evolves (working R) R (Intake ic)" unfolding Intake_def Let_def read_defs by (intro evo)
  show "evolves (working R) R (Confirm dp i)"
    unfolding Confirm_def Let_def read_defs by (intro evo) (simp add: DepositConfirmed_def DepositPending_def)
  show "evolves (working R) R (Reject dp i)"
    unfolding Reject_def Let_def read_defs by (intro evo) (simp add: DepositRejected_def DepositPending_def)
  show "evolves (working R) R (in_tx pre (withdraw_tx dp wc n acct))" unfolding withdraw_tx_def Let_def by (intro evo)
qed

end

end
