(* ===== verification/Services.thy ===== *)
theory Services
  imports Evolution
begin

text \<open>
  \<open>service_contract\<close> is the interface between the services and what calls them: for a relation between
  databases, every service call made without an open transaction stays within it and leaves none open.
  Inside it: every handler and every route of the server, the settlement and the batches of the outbox
  publisher stay within the relation. A \<open>store_contract\<close> is a \<open>service_contract\<close>.
\<close>

subsection \<open>No call leaves a transaction open\<close>

interpretation idle: within no_tx any_db
  by unfold_locales (simp_all add: any_db_def)

lemma closed_with_tx: "evolves no_tx any_db (with_tx (mapE g Begin) body)"
  by (auto simp: evolves_def no_tx_def any_db_def with_tx_def bindE_def mapE_def Begin_def split: prod.splits sum.splits)

lemma closed_in_tx [evo]: "evolves no_tx any_db (in_tx pre body)"
  unfolding in_tx_def wrapE_def mapE_mapE by (rule closed_with_tx)

lemma closed_address_loop [evo]: "evolves no_tx any_db (address_loop k rnd u asset net i)"
  by (induction k) (auto simp: address_attempt_def generateMockAddress_def Let_def intro!: evo)

lemma closed_calls:
  "evolves no_tx any_db (in_tx pre (place_tx dp cmd acct asset amt))" "evolves no_tx any_db (CancelOrder dp i)"
  "evolves no_tx any_db (ExecuteTrade dp tc)" "evolves no_tx any_db (persistMarketOrder dp u side sy p q)"
  "evolves no_tx any_db (Intake ic)" "evolves no_tx any_db (Confirm dp i)" "evolves no_tx any_db (Reject dp i)"
  "evolves no_tx any_db (in_tx pre (withdraw_tx dp wc n acct))" "evolves no_tx any_db (GetOrCreateAddress rnd u asset net)"
  "evolves no_tx any_db (CreateUser bc provision uc)" "evolves no_tx any_db (DeleteUser i)"
  unfolding CancelOrder_def ExecuteTrade_def persistMarketOrder_def Intake_def Confirm_def Reject_def
    GetOrCreateAddress_def CreateUser_def NewUserID_def DeleteUser_def read_defs Let_def
  by (intro evo)+

lemma closed_batch: "evolves no_tx any_db (processBatch p)"
  unfolding processBatch_def by (rule closed_with_tx)

subsection \<open>The contract\<close>

locale service_contract = within no_tx R for R +
  fixes D :: "deps \<Rightarrow> bool"
  assumes place_commit: "D dp \<Longrightarrow> evolves no_tx R (in_tx pre (place_tx dp cmd acct asset amt))"
    and cancel_order: "D dp \<Longrightarrow> evolves no_tx R (CancelOrder dp i)"
    and execute_trade: "D dp \<Longrightarrow> evolves no_tx R (ExecuteTrade dp tc)"
    and market_order: "D dp \<Longrightarrow> evolves no_tx R (persistMarketOrder dp u side sy p q)"
    and intake: "evolves no_tx R (Intake ic)"
    and confirm: "D dp \<Longrightarrow> evolves no_tx R (Confirm dp i)"
    and reject: "D dp \<Longrightarrow> evolves no_tx R (Reject dp i)"
    and withdraw_commit: "D dp \<Longrightarrow> evolves no_tx R (in_tx pre (withdraw_tx dp wc n acct))"
    and address: "evolves no_tx R (GetOrCreateAddress rnd u asset net)"
    and sign_up: "evolves no_tx R (CreateUser bc sv_provisioner uc)"
    and delete_user: "evolves no_tx R (DeleteUser i)"
    and batch: "evolves no_tx R (processBatch pb)"
begin

lemmas service_laws [evo] =
  place_commit cancel_order execute_trade market_order intake confirm reject withdraw_commit address sign_up delete_user

text \<open>The checks of these two are made before their transactions, which keep the relation whatever the checks saw.\<close>

lemma evolves_checked [evo]:
  "D dp \<Longrightarrow> evolves no_tx R (PlaceOrder dp markets cmd)" "D dp \<Longrightarrow> evolves no_tx R (Withdraw dp re wc)"
  unfolding PlaceOrder_def Withdraw_def read_defs Let_def by (intro evo; assumption)+

lemma evolves_processors [evo]:
  "D dp \<Longrightarrow> evolves no_tx R (newDepositProcessor sandbox dp u ic)"
  "D dp \<Longrightarrow> evolves no_tx R (newWithdrawalProcessor sandbox dp re wc)"
  unfolding newDepositProcessor_def deposit_sandboxProcessor_def deposit_Simulate_def deposit_realProcessor_def
    newWithdrawalProcessor_def withdrawal_sandboxProcessor_def withdrawal_Simulate_def withdrawal_realProcessor_def read_defs
  by (cases sandbox; simp only: if_True if_False; intro evo)+

subsection \<open>Handlers\<close>

lemma evolves_account_responses [evo]: "evolves no_tx R (account_responses wb as)"
  by (induction as) (auto intro!: evo)

lemma evolves_handlers:
  "evolves no_tx R (userHandler_Login wb sg r)" "evolves no_tx R (userHandler_Me wb r)" "evolves no_tx R (userHandler_GetUser wb r)"
  "evolves no_tx R (userHandler_ListUsers wb r)" "evolves no_tx R (userHandler_CreateUser wb sv_provisioner r)" "evolves no_tx R (userHandler_DeleteUser wb r)"
  "evolves no_tx R (accountHandler_ListMyAssets wb r)" "evolves no_tx R (accountHandler_GetMyAsset wb r)"
  "evolves no_tx R (accountHandler_GetMyBalance wb r)" "evolves no_tx R (accountHandler_adminListAccounts wb r)"
  "evolves no_tx R (assetHandler_ListAssets r)" "evolves no_tx R (assetHandler_GetAsset r)" "evolves no_tx R (assetHandler_ListNetworks wb r)"
  "evolves no_tx R (ledgerHandler_ListMine wb r)" "evolves no_tx R (ledgerHandler_AdminList wb r)"
  unfolding userHandler_Login_def userHandler_Me_def userHandler_GetUser_def userHandler_ListUsers_def userHandler_CreateUser_def
    userHandler_DeleteUser_def accountHandler_ListMyAssets_def accountHandler_GetMyAsset_def accountHandler_GetMyBalance_def
    accountHandler_adminListAccounts_def assetHandler_ListAssets_def assetHandler_GetAsset_def assetHandler_ListNetworks_def
    ledgerHandler_ListMine_def ledgerHandler_AdminList_def read_defs Let_def
  by (intro evo)+

lemma evolves_more_handlers:
  assumes D: "D (wb_dp wb)"
  shows "evolves no_tx R (orderHandler_PlaceOrder wb markets r)" "evolves no_tx R (orderHandler_GetOrder wb r)" "evolves no_tx R (orderHandler_CancelOrder wb r)"
  "evolves no_tx R (orderHandler_ListByUser wb r)" "evolves no_tx R (tradeHandler_ListByUser wb r)" "evolves no_tx R (tradeHandler_ExecuteTrade wb r)"
  "evolves no_tx R (walletHandler_Create wb r)" "evolves no_tx R (walletHandler_List wb r)"
  "evolves no_tx R (depositHandler_Intake wb r)" "evolves no_tx R (depositHandler_Confirm wb r)" "evolves no_tx R (depositHandler_Reject wb r)"
  "evolves no_tx R (depositHandler_ListMine wb r)" "evolves no_tx R (depositHandler_Deposit wb (newDepositProcessor sandbox) r)"
  "evolves no_tx R (withdrawalHandler_Withdraw wb (newWithdrawalProcessor sandbox) r)" "evolves no_tx R (withdrawalHandler_ListMine wb r)"
  unfolding orderHandler_PlaceOrder_def orderHandler_GetOrder_def orderHandler_CancelOrder_def orderHandler_ListByUser_def
    tradeHandler_ListByUser_def tradeHandler_ExecuteTrade_def walletHandler_Create_def walletHandler_List_def depositHandler_Intake_def
    depositHandler_Confirm_def depositHandler_Reject_def depositHandler_ListMine_def depositHandler_Deposit_def
    withdrawalHandler_Withdraw_def withdrawalHandler_ListMine_def read_defs
  by (intro evo D)+

lemma evolves_Middleware: "(\<And>r. evolves no_tx R (h r)) \<Longrightarrow> evolves no_tx R (Middleware j dp sg h r)"
  unfolding Middleware_def Let_def by (intro evo)

lemma evolves_RequireAdmin: "(\<And>r. evolves no_tx R (h r)) \<Longrightarrow> evolves no_tx R (RequireAdmin h r)"
  unfolding RequireAdmin_def by (intro evo)

lemma evolving_use: "(\<And>h r. (\<And>r. evolves no_tx R (h r)) \<Longrightarrow> evolves no_tx R (mw h r)) \<Longrightarrow> evolving no_tx R rs \<Longrightarrow> evolving no_tx R (use mw rs)"
  by (auto simp: evolving_def use_def)

lemma evolving_routes:
  assumes D: "D (wb_dp (sv_web s))"
  shows "evolving no_tx R (routes s)"
proof -
  note h = evolves_handlers evolves_more_handlers [OF D]
  have "evolving no_tx R (public_routes s)" by (simp add: public_routes_def asset_Routes_def h)
  moreover have "evolving no_tx R (user_routes s)"
    by (simp add: user_routes_def account_Routes_def ledger_Routes_def account_AdminRoutes_def ledger_AdminRoutes_def
        withdrawal_Routes_def order_Routes_def trade_Routes_def wallet_Routes_def deposit_UserRoutes_def sv_deposit_def sv_withdrawal_def h)
  moreover have "evolving no_tx R (admin_routes s)" by (simp add: admin_routes_def deposit_AdminRoutes_def h)
  ultimately show ?thesis
    by (simp add: routes_def sv_auth_def evolving_use evolves_Middleware evolves_RequireAdmin)
qed

lemma evolves_serve:
  assumes "(m, p, h) \<in> set (routes s)" and "serve h r w = (rs, w')" and "w_tx w = None" and D: "D (wb_dp (sv_web s))"
  shows "w_tx w' = None \<and> R (w_db w) (w_db w')"
proof -
  have h: "evolves no_tx R (h r)" using evolving_routes [OF D] assms(1) unfolding evolving_def by force
  obtain x where "h r w = (x, w')" using assms(2) by (auto simp: serve_def split: prod.splits sum.splits)
  from evolvesD [OF h this] show ?thesis using assms(3) by (simp add: no_tx_def)
qed

lemma batch_within:
  assumes "w_tx w = None"
  shows "w_tx (snd (processBatch p w)) = None \<and> R (w_db w) (w_db (snd (processBatch p w)))"
  using batch [of p] assms by (simp add: evolves_def no_tx_def)

subsection \<open>The settlement\<close>

lemma settle_within:
  assumes "w_tx w = None" and "D dp"
  shows "w_tx (settle dp evt w) = None \<and> R (w_db w) (w_db (settle dp evt w))"
  using assms execute_trade unfolding evolves_def no_tx_def by (cases rule: settle_cases [of dp evt w]) (auto simp: within_refl)

lemma OnTradeMatched_within:
  assumes t: "w_tx w = None" and D: "D dp"
  shows "w_tx (OnTradeMatched dp proc e w) = None \<and> R (w_db w) (w_db (OnTradeMatched dp proc e w))"
proof -
  have partner: "w_tx (case persistMarketOrder dp u side sy p q w of (Inl _, w') \<Rightarrow> w' | (Inr i, w') \<Rightarrow> settle dp (f i) w') = None \<and>
      R (w_db w) (w_db (case persistMarketOrder dp u side sy p q w of (Inl _, w') \<Rightarrow> w' | (Inr i, w') \<Rightarrow> settle dp (f i) w'))"
    for u side sy p q f
  proof -
    obtain x w1 where run: "persistMarketOrder dp u side sy p q w = (x, w1)" by fastforce
    from evolvesD [OF market_order [OF D] run] have 1: "w_tx w1 = None" "R (w_db w) (w_db w1)" using t by (simp_all add: no_tx_def)
    show ?thesis using 1 settle_within [OF 1(1) D] within_trans [OF 1(2)] by (cases x) (auto simp: run)
  qed
  show ?thesis
    by (cases proc; cases e)
      (simp_all add: OnTradeMatched_def real_OnTradeMatched_def sandbox_OnTradeMatched_def settle_within [OF t D] t within_refl partner Let_def)
qed

end

subsection \<open>One contract from the other\<close>

sublocale store_contract \<subseteq> calls: service_contract R "\<lambda>_. True"
proof unfold_locales
qed (rule evolves_closed; rule evolves_orders evolves_funding evolves_side closed_calls closed_batch)+

end
