(* ===== verification/Feeds.thy ===== *)
theory Feeds
  imports Server Settlement Marketdata_Theorems Klines Partnerfeed Wsfeed_Properties "HOL-Library.Multiset"
begin

text \<open>
  cmd/server/main.go, the part around the services: who subscribes to the bus of the engine, the public
  routes of the market data and the feeds, and when the partner bot runs. A subscriber is a name; the
  state its handler works on is the database, the market data or the hub.
\<close>

subsection \<open>The bus\<close>

datatype sys_handler = SysMarketdata md_handler | SysSettlement | SysWs ws_handler

definition main_bus :: "sys_handler bus" where
  "main_bus =
     (let b1 = Subscribe EventTypeOrderCancelled (SysMarketdata MdCancelled) (Subscribe EventTypeTradeMatched (SysMarketdata MdTrade)
                 (Subscribe EventTypeOrderRested (SysMarketdata MdRested) Bus_New));
          b2 = Subscribe EventTypeTradeMatched SysSettlement b1 in
      Subscribe EventTypeOrderCancelled (SysWs WsCancelled) (Subscribe EventTypeOrderRested (SysWs WsRested)
        (Subscribe EventTypeTradeMatched (SysWs WsTrade) b2)))"

record sys =
  sys_world :: world
  sys_md :: market_data
  sys_hub :: hub

text \<open>The messages of one handler go to the hub one after the other, the clients in the order \<open>order\<close> finds them.\<close>

fun publish_envelopes :: "(hub \<Rightarrow> cid list) \<Rightarrow> ws_envelope list \<Rightarrow> hub \<Rightarrow> hub" where
  "publish_envelopes order [] h = h"
| "publish_envelopes order (env # envs) h =
     (case hub_Publish env (order h) h of None \<Rightarrow> h | Some (_, h') \<Rightarrow> publish_envelopes order envs h')"

text \<open>A handler of the settlement or of the market data cannot panic; one of the hub would, sending on a closed channel.\<close>

definition sys_run :: "deps \<Rightarrow> settlement_processor \<Rightarrow> (hub \<Rightarrow> cid list) \<Rightarrow> sys_handler \<Rightarrow> event \<Rightarrow> sys \<Rightarrow> bool \<times> sys" where
  "sys_run dp proc order h e s =
     (case h of
        SysMarketdata m \<Rightarrow> (fst (md_run m e (sys_md s)), s\<lparr>sys_md := snd (md_run m e (sys_md s))\<rparr>)
      | SysSettlement \<Rightarrow> (False, s\<lparr>sys_world := OnTradeMatched dp proc e (sys_world s)\<rparr>)
      | SysWs v \<Rightarrow> (False, s\<lparr>sys_hub := publish_envelopes order (ws_handle v e) (sys_hub s)\<rparr>))"

subsection \<open>Public routes\<close>

text \<open>A handler of the feeds reads its own state and answers; the world of the services is not touched.\<close>

definition pure_handler :: "(request \<Rightarrow> http_response) \<Rightarrow> handler" where
  "pure_handler f r = returnE (f r)"

definition mdHandler_OrderBookRoutes :: "market_data \<Rightarrow> route list" where
  "mdHandler_OrderBookRoutes md = [(''GET'', [Param ''symbol''], pure_handler (mdHandler_GetOrderBook md))]"

definition mdHandler_TradesRoutes :: "market_data \<Rightarrow> route list" where
  "mdHandler_TradesRoutes md = [(''GET'', [Param ''symbol''], pure_handler (mdHandler_GetRecentTrades md))]"

definition mfHandler_Routes :: "gotime \<Rightarrow> 'h mf_client \<Rightarrow> route list" where
  "mfHandler_Routes now c =
     [(''GET'', [], pure_handler (\<lambda>_. mfHandler_Markets c)),
      (''GET'', [Param ''symbol'', Lit ''orderbook''], pure_handler (mfHandler_OrderBook now c)),
      (''GET'', [Param ''symbol'', Lit ''trades''], pure_handler (mfHandler_Trades c)),
      (''GET'', [Param ''symbol'', Lit ''ticker''], pure_handler (mfHandler_Ticker now c))]"

definition klinesHandler_Routes :: "klines_service \<Rightarrow> route list" where
  "klinesHandler_Routes k = [(''GET'', [], pure_handler (klinesHandler_Fetch k))]"

definition health :: handler where
  "health = pure_handler (\<lambda>_. \<lparr>rs_status = 200, rs_body = Some (JStr ''ok'')\<rparr>)"

definition feed_routes :: "market_data \<Rightarrow> gotime \<Rightarrow> 'h mf_client \<Rightarrow> klines_service \<Rightarrow> route list" where
  "feed_routes md now c k =
     [(''GET'', [Lit ''health''], health)] @
     mount [Lit ''orderbook''] (mdHandler_OrderBookRoutes md) @
     mount [Lit ''marketdata'', Lit ''trades''] (mdHandler_TradesRoutes md) @
     mount [Lit ''markets''] (mfHandler_Routes now c) @
     mount [Lit ''klines''] (klinesHandler_Routes k)"

subsection \<open>The partner bot\<close>

text \<open>Started only in the sandbox, and only when the configuration asks for it.\<close>

definition main_bot :: "config \<Rightarrow> bot_config option" where
  "main_bot cfg = (if IsSandbox cfg \<and> cfg_SimbotEnabled cfg then Some (DefaultConfig (cfg_BinanceSymbols cfg)) else None)"

definition main_settlement :: "config \<Rightarrow> settlement_processor" where
  "main_settlement cfg = newSettlementProcessor (IsSandbox cfg)"

definition main_engine :: "config \<Rightarrow> engine" where
  "main_engine cfg = Engine_New (cfg_BinanceSymbols cfg) 1024"

subsection \<open>What the bus starts\<close>

lemma main_tasks:
  "Publish main_bus (OrderRestedEvent r) = [(SysMarketdata MdRested, OrderRestedEvent r), (SysWs WsRested, OrderRestedEvent r)]"
  "Publish main_bus (TradeMatchedEvent t) =
     [(SysMarketdata MdTrade, TradeMatchedEvent t), (SysSettlement, TradeMatchedEvent t), (SysWs WsTrade, TradeMatchedEvent t)]"
  "Publish main_bus (OrderCancelledEvent c) = [(SysMarketdata MdCancelled, OrderCancelledEvent c), (SysWs WsCancelled, OrderCancelledEvent c)]"
  by (simp_all add: main_bus_def Publish_Subscribe Let_def) (simp_all add: Publish_def)

lemma sys_run_commute:
  assumes "x \<in> set (Publish main_bus e)" and "y \<in> set (Publish main_bus e)"
  shows "run_task (sys_run dp proc order) x \<circ> run_task (sys_run dp proc order) y = run_task (sys_run dp proc order) y \<circ> run_task (sys_run dp proc order) x"
  using assms by (cases e) (auto simp: main_tasks run_task_def sys_run_def fun_eq_iff)

text \<open>
  The goroutines the bus starts for one event can run in any order: the market data, the settlement and
  the websocket clients end up the same.
\<close>
theorem event_handlers_commute:
  assumes "mset ts = mset (Publish main_bus e)"
  shows "run_tasks (sys_run dp proc order) ts s = run_tasks (sys_run dp proc order) (Publish main_bus e) s"
proof -
  have "fold (run_task (sys_run dp proc order)) (Publish main_bus e) = fold (run_task (sys_run dp proc order)) ts"
    by (rule fold_multiset_equiv) (simp_all add: sys_run_commute assms)
  then show ?thesis by (simp add: run_tasks_def)
qed

lemma event_handlers_commute_witness:
  "run_tasks (sys_run ref_deps RealSettlement (\<lambda>_. [])) (rev (Publish main_bus e)) s = run_tasks (sys_run ref_deps RealSettlement (\<lambda>_. [])) (Publish main_bus e) s"
  by (rule event_handlers_commute) simp

text \<open>Of a run of the whole system the market data sees its own part.\<close>

lemma sys_event:
  "sys_md (run_tasks (sys_run dp proc order) (Publish main_bus e) s) = md_event e (sys_md s)"
  "sys_world (run_tasks (sys_run dp proc order) (Publish main_bus e) s) =
     (case e of TradeMatchedEvent _ \<Rightarrow> OnTradeMatched dp proc e (sys_world s) | _ \<Rightarrow> sys_world s)"
  by (cases e; simp add: main_tasks run_tasks_def run_task_def sys_run_def md_run_def md_event_def)+

lemma run_tasks_publish:
  "run_tasks run (publish_all b (e # es)) s = run_tasks run (publish_all b es) (run_tasks run (Publish b e) s)"
  by (simp add: run_tasks_def publish_all_def)

lemma sys_events: "sys_md (run_tasks (sys_run dp proc order) (publish_all main_bus es) s) = fold md_event es (sys_md s)"
proof (induction es arbitrary: s)
  case (Cons e es)
  then show ?case unfolding run_tasks_publish by (simp add: sys_event)
qed (simp add: publish_all_def run_tasks_def)

text \<open>
  C26. In production, whatever the engine publishes, a match that involves an order of the partner exchange
  changes nothing in the database, and the bot that would place such orders is never started.
\<close>
theorem production_without_partner:
  assumes "\<not> IsSandbox cfg"
    and "\<forall>e \<in> set es. case e of TradeMatchedEvent t \<Rightarrow> isPartner (tm_BuyUserID t) \<or> isPartner (tm_SellUserID t) | _ \<Rightarrow> True"
  shows "main_bot cfg = None \<and> sys_world (run_tasks (sys_run dp (main_settlement cfg) order) (publish_all main_bus es) s) = sys_world s"
proof -
  have "sys_world (run_tasks (sys_run dp RealSettlement order) (publish_all main_bus es) s) = sys_world s" using assms(2)
  proof (induction es arbitrary: s)
    case (Cons e es)
    have "sys_world (run_tasks (sys_run dp RealSettlement order) (Publish main_bus e) s) = sys_world s"
      using Cons.prems by (auto simp: sys_event OnTradeMatched_def real_OnTradeMatched_def split: event.splits)
    then show ?case using Cons unfolding run_tasks_publish by simp
  qed (simp add: publish_all_def run_tasks_def)
  then show ?thesis using assms(1) by (simp add: main_bot_def main_settlement_def newSettlementProcessor_def)
qed

text \<open>The market data of the running server, too, mirrors the books as long as the events are handled in order.\<close>

corollary main_market_data:
  assumes "ticks_ok g sy cs" and "above_dust g" and "run_units cs \<le> 9007199254740992 * 2 ^ g" and "run_units cs < f64_overflow"
    and "shard_run (NewOrderBook sy) n cs = (ob, n', es)" and "sys_md s = md_NewService"
  shows "md_mirrors (sys_md (run_tasks (sys_run dp proc order) (publish_all main_bus es) s)) ob"
proof -
  have cs: "ticks_ok g (ob_Symbol (NewOrderBook sy)) cs" using assms(1) by (simp add: NewOrderBook_def)
  have "0 \<le> run_units cs" by (rule run_units_nonneg [of cs g]) (use assms(1) in \<open>auto simp: ticks_ok_def\<close>)
  then show ?thesis unfolding sys_events assms(6)
    by (intro shard_run_mirrors [OF assms(5,2) book_ok_new cs] new_room new_mirrors assms)
qed


definition ex_config :: config where
  "ex_config = \<lparr>cfg_DatabaseURL = [], cfg_ServerPort = [], cfg_LogLevel = [], cfg_DBMaxConns = 0, cfg_OutboxPollInterval = 0, cfg_JWTSecret = [],
     cfg_BinanceSymbols = [], cfg_MarketfeedEnabled = True, cfg_CORSAllowedOrigins = [], cfg_SimbotEnabled = True, cfg_Environment = EnvProduction\<rparr>"

lemma production_without_partner_witness:
  "main_bot ex_config = None \<and>
   sys_world (run_tasks (sys_run ref_deps (main_settlement ex_config) (\<lambda>_. [])) (publish_all main_bus
     [TradeMatchedEvent \<lparr>tm_Seq = 1, tm_Symbol = ''BTC-USDT'', tm_BuyOrderID = ''a'', tm_SellOrderID = ''b'', tm_BuyUserID = [], tm_SellUserID = ''u'',
        tm_Price = FFin 1, tm_Quantity = FFin 1, tm_Timestamp = 0\<rparr>])
     \<lparr>sys_world = ex_world empty_db, sys_md = md_NewService, sys_hub = NewHub\<rparr>) = ex_world empty_db"
proof -
  have c: "\<not> IsSandbox ex_config" by (simp add: IsSandbox_def ex_config_def EnvProduction_def EnvSandbox_def)
  let ?t = "\<lparr>tm_Seq = 1, tm_Symbol = ''BTC-USDT'', tm_BuyOrderID = ''a'', tm_SellOrderID = ''b'', tm_BuyUserID = [], tm_SellUserID = ''u'',
        tm_Price = FFin 1, tm_Quantity = FFin 1, tm_Timestamp = 0\<rparr>"
  have h: "\<forall>e \<in> set [TradeMatchedEvent ?t]. case e of TradeMatchedEvent t \<Rightarrow> isPartner (tm_BuyUserID t) \<or> isPartner (tm_SellUserID t) | _ \<Rightarrow> True"
    by (simp add: isPartner_def)
  show ?thesis
    using production_without_partner [OF c h, of ref_deps "\<lambda>_. []" "\<lparr>sys_world = ex_world empty_db, sys_md = md_NewService, sys_hub = NewHub\<rparr>"]
    by simp
qed

end
