(* ===== verification/Startup.thy ===== *)
theory Startup
  imports Feeds Outbox_Loop Rehydration Config
begin

text \<open>
  \<open>run\<close> of cmd/server/main.go from the configuration to the shutdown: what is built and in which order,
  when the start fails, and the life of the goroutines. The pool of pgx is a parameter, and so are the
  HTTP client of the klines and the third-party functions of \<open>web\<close>.
\<close>

subsection \<open>Building the server\<close>

record pool_config =
  pc_ConnString :: string
  pc_MaxConns :: int

record pgxpool =
  pg_ParseConfig :: "string \<Rightarrow> gerr + pool_config"
  pg_NewWithConfig :: "pool_config \<Rightarrow> gerr + unit"

text \<open>\<open>int32(cfg.DBMaxConns)\<close> keeps the low 32 bits.\<close>

definition set_max_conns :: "config \<Rightarrow> pool_config \<Rightarrow> pool_config" where
  "set_max_conns cfg pc = (if 0 < cfg_DBMaxConns cfg then pc\<lparr>pc_MaxConns := signed_take_bit 31 (cfg_DBMaxConns cfg)\<rparr> else pc)"

text \<open>The two closures that hand the klines and tickers of the feed to the hub; \<open>ws_bridge\<close> is what they do.\<close>

datatype feed_bridge = WsBridge

record app =
  app_server :: server
  app_pool :: pool_config
  app_bus :: "sys_handler bus"
  app_md :: market_data
  app_feed :: "feed_bridge mf_client"
  app_klines :: klines_service
  app_hub :: hub
  app_settlement :: settlement_processor
  app_bot :: "bot_config option"
  app_publisher :: publisher
  app_port :: string

definition main_feed :: "config \<Rightarrow> feed_bridge mf_client" where
  "main_feed cfg = SubscribeTicker WsBridge (SubscribeKline WsBridge (mf_NewClient (cfg_BinanceSymbols cfg) (cfg_MarketfeedEnabled cfg)))"

definition main_port :: "config \<Rightarrow> string" where
  "main_port cfg = (if cfg_ServerPort cfg = [] then ''8080'' else cfg_ServerPort cfg)"

definition main_app :: "web \<Rightarrow> (string \<Rightarrow> upstream) \<Rightarrow> config \<Rightarrow> pool_config \<Rightarrow> app" where
  "main_app wb get cfg pc =
     \<lparr>app_server = \<lparr>sv_web = wb, sv_cfg = cfg\<rparr>, app_pool = pc, app_bus = main_bus, app_md = md_NewService,
      app_feed = main_feed cfg, app_klines = klines_NewService get, app_hub = NewHub, app_settlement = main_settlement cfg,
      app_bot = main_bot cfg, app_publisher = NewPublisher None 1000000000, app_port = main_port cfg\<rparr>"

definition install :: "engine \<Rightarrow> app \<Rightarrow> (gerr, app) act" where
  "install e a w = (Inr a, w\<lparr>w_engine := Some e\<rparr>)"

definition boot :: "web \<Rightarrow> pgxpool \<Rightarrow> (string \<Rightarrow> upstream) \<Rightarrow> viper \<Rightarrow> (gerr, app) act" where
  "boot wb pg get v =
     bindE (wrapE ''load config: '' (liftE (Load v))) (\<lambda>cfg.
     bindE (wrapE ''parse database url: '' (liftE (pg_ParseConfig pg (cfg_DatabaseURL cfg)))) (\<lambda>parsed.
     let pc = set_max_conns cfg parsed in
     bindE (wrapE ''create connection pool: '' (liftE (pg_NewWithConfig pg pc))) (\<lambda>_.
     bindE (wrapE ''ping database: '' (mapE db_gerr (pool_query (\<lambda>_. ())))) (\<lambda>_.
     bindE (wrapE ''rehydrate engine: '' (mapE db_gerr (rehydrateEngine (wb_dp wb) (cfg_BinanceSymbols cfg) (main_engine cfg)))) (\<lambda>e.
     install e (main_app wb get cfg pc))))))"

text \<open>The router: the public routes of the feeds and the routes of the services; chi finds a path, not an order.\<close>

definition app_routes :: "gotime \<Rightarrow> app \<Rightarrow> route list" where
  "app_routes now a = feed_routes (app_md a) now (app_feed a) (app_klines a) @ routes (app_server a)"

subsection \<open>What a started server has\<close>

lemma main_engine_shards: "eng_shards (main_engine cfg) sy \<noteq> None \<longleftrightarrow> sy \<in> set (cfg_BinanceSymbols cfg)"
  by (simp add: main_engine_def Engine_New_def Let_def)

lemma main_engine_ok: "engine_ok (main_engine cfg)" "\<not> eng_started (main_engine cfg)"
  by (simp_all add: main_engine_def Engine_New_ok) (simp add: Engine_New_def Let_def)

lemma main_engine_empty: "sy \<in> set (cfg_BinanceSymbols cfg) \<Longrightarrow> bids_of (main_engine cfg) sy = [] \<and> asks_of (main_engine cfg) sy = []"
  by (simp add: main_engine_def Engine_New_def Let_def bids_of_def asks_of_def NewOrderBook_def flatten_def)

text \<open>The start only reads the database, and a start that fails leaves no engine behind either.\<close>

lemma boot_failed:
  assumes "boot wb pg get v w = (Inl e, w')"
  shows "w_db w' = w_db w \<and> w_engine w' = w_engine w"
proof -
  have r: "quiet (rehydrateEngine dp sy x)" for dp sy x unfolding rehydrateEngine_def by (intro frame)
  have i: "atomic (install e a)" for e a by (simp add: atomic_def install_def)
  have "atomic (boot wb pg get v)"
    unfolding boot_def Let_def by (intro atomic_bind frame r i)
  then show ?thesis using assms by (simp add: atomic_def same_store_def)
qed

theorem boot_ready:
  assumes "boot wb pg get v w = (Inr a, w')"
    and "\<forall>x \<in> set (loaded (wb_dp wb) (rehydrate_query (cfg_BinanceSymbols (sv_cfg (app_server a))) (w_db w))). resting_ok x \<and> finite_f64 (eo_Price x)"
    and "sy \<in> set (cfg_BinanceSymbols (sv_cfg (app_server a)))"
  shows "\<exists>e. w_engine w' = Some e \<and> w_db w' = w_db w \<and> engine_ok e \<and>
    bids_of e sy = fold (queue_insert better_bid) (filter (\<lambda>x. eo_Symbol x = sy \<and> eo_Side x = SideBuy)
      (loaded (wb_dp wb) (rehydrate_query (cfg_BinanceSymbols (sv_cfg (app_server a))) (w_db w)))) [] \<and>
    asks_of e sy = fold (queue_insert better_ask) (filter (\<lambda>x. eo_Symbol x = sy \<and> eo_Side x \<noteq> SideBuy)
      (loaded (wb_dp wb) (rehydrate_query (cfg_BinanceSymbols (sv_cfg (app_server a))) (w_db w)))) [] \<and>
    32 \<le> length (cfg_JWTSecret (sv_cfg (app_server a))) \<and>
    (IsSandbox (sv_cfg (app_server a)) \<or> app_bot a = None \<and> app_settlement a = RealSettlement)"
proof -
  obtain cfg parsed where c: "Load v = Inr cfg" and a: "a = main_app wb get cfg (set_max_conns cfg parsed)"
    and w': "w_engine w' = Some (rehydrate_rows (wb_dp wb) (rehydrate_query (cfg_BinanceSymbols cfg) (w_db w)) (main_engine cfg))" "w_db w' = w_db w"
    using assms(1) unfolding boot_def Let_def
    by (auto simp: bindE_Inr wrapE_Inr mapE_Inr liftE_Inr returnE_Inr pool_query_Inr rehydrateEngine_def install_def)
  have cfg: "sv_cfg (app_server a) = cfg" by (simp add: a main_app_def)
  have sy: "sy \<in> set (cfg_BinanceSymbols cfg)" using assms(3) by (simp add: cfg)
  note q = rehydrate_rows_queues [OF main_engine_ok(1) main_engine_ok(2) assms(2) [unfolded cfg], where sy = sy]
  have "app_bot a = main_bot cfg" "app_settlement a = main_settlement cfg" by (simp_all add: a main_app_def)
  then have "IsSandbox cfg \<or> app_bot a = None \<and> app_settlement a = RealSettlement"
    by (simp add: main_bot_def main_settlement_def newSettlementProcessor_def)
  moreover have "32 \<le> length (cfg_JWTSecret cfg)" using c by (auto simp: Load_def Let_def split: if_splits)
  ultimately show ?thesis
    unfolding cfg using q main_engine_shards [of cfg sy] main_engine_empty [OF sy] sy w' by auto
qed

definition ex_pool :: pgxpool where
  "ex_pool = \<lparr>pg_ParseConfig = (\<lambda>s. Inr \<lparr>pc_ConnString = s, pc_MaxConns = 4\<rparr>), pg_NewWithConfig = (\<lambda>_. Inr ())\<rparr>"

text \<open>The configuration of an empty environment, except for the three keys that are required.\<close>

lemma ex_Load: "\<exists>cfg. Load ex_viper = Inr cfg \<and> ''BTC-USDT'' \<in> set (cfg_BinanceSymbols cfg)"
proof -
  have "comma_list ''a, b'' \<noteq> []" by (simp add: comma_list_def TrimSpace_def is_space_def)
  moreover have "''BTC-USDT'' \<in> set (comma_list ''BTC-USDT,ETH-USDT,SOL-USDT'')"
  proof -
    have s: "''BTC-USDT,ETH-USDT,SOL-USDT'' = ''BTC-USDT'' @ CHR '','' # ''ETH-USDT,SOL-USDT''" by simp
    have "split_on CHR '','' ''BTC-USDT,ETH-USDT,SOL-USDT'' = ''BTC-USDT'' # split_on CHR '','' ''ETH-USDT,SOL-USDT''"
      unfolding s by (rule split_on_at) simp
    moreover have "TrimSpace ''BTC-USDT'' = ''BTC-USDT''" by (simp add: TrimSpace_def is_space_def)
    ultimately show ?thesis by (simp add: comma_list_def del: split_on.simps)
  qed
  ultimately show ?thesis by (simp add: Load_def Let_def ex_viper_def env_or_file_def)
qed

lemma boot_ready_witness:
  "\<exists>a w' e. boot ex_web ex_pool (\<lambda>_. CallFails []) ex_viper (ex_world empty_db) = (Inr a, w') \<and> w_engine w' = Some e \<and> engine_ok e \<and>
     bids_of e ''BTC-USDT'' = []"
proof -
  obtain cfg where cfg: "Load ex_viper = Inr cfg" "''BTC-USDT'' \<in> set (cfg_BinanceSymbols cfg)" using ex_Load by blast
  obtain a w' where run: "boot ex_web ex_pool (\<lambda>_. CallFails []) ex_viper (ex_world empty_db) = (Inr a, w')"
    and a: "sv_cfg (app_server a) = cfg"
    by (simp add: boot_def cfg(1) bindE_def wrapE_def mapE_def liftE_def ex_pool_def pool_query_def faulty_def rehydrateEngine_def
        returnE_def install_def main_app_def Let_def)
  have q: "rehydrate_query symbols empty_db = []" for symbols by (simp add: rehydrate_query_def empty_db_def)
  have l: "loaded dp [] = []" for dp by (simp add: loaded_def List.map_filter_simps)
  from boot_ready [OF run, of "''BTC-USDT''"] show ?thesis
    using run cfg(2) by (auto simp: a q l)
qed

subsection \<open>The life of the goroutines\<close>

datatype worker = WOutbox | WEngine | WMarketfeed | WPartner

lemma UNIV_worker: "(UNIV :: worker set) = {WOutbox, WEngine, WMarketfeed, WPartner}"
  using worker.exhaust by auto

text \<open>
  \<open>Serving\<close>: waiting for a signal. \<open>Draining\<close>: in \<open>srv.Shutdown\<close>. \<open>Waiting\<close>: the worker context is cancelled,
  \<open>run\<close> receives from the four channels. \<open>Exited\<close>: the process has ended, with its exit status.
\<close>

datatype phase = Serving | Draining | Waiting | Exited nat

record life =
  lf_phase :: phase
  lf_done :: "worker set"

definition started :: "app \<Rightarrow> life" where
  "started a = \<lparr>lf_phase = Serving, lf_done = (if app_bot a = None then {WPartner} else {})\<rparr>"

text \<open>Two of the workers return by themselves when they have nothing to do.\<close>

definition idle :: "app \<Rightarrow> worker \<Rightarrow> bool" where
  "idle a wk \<longleftrightarrow> wk = WMarketfeed \<and> \<not> cfg_MarketfeedEnabled (sv_cfg (app_server a)) \<or>
     wk = WEngine \<and> cfg_BinanceSymbols (sv_cfg (app_server a)) = []"

definition alive :: "life \<Rightarrow> bool" where
  "alive l \<longleftrightarrow> (\<forall>n. lf_phase l \<noteq> Exited n)"

inductive life_step :: "app \<Rightarrow> life \<Rightarrow> life \<Rightarrow> bool" for a where
  signalled: "lf_phase l = Serving \<Longrightarrow> life_step a l (l\<lparr>lf_phase := Draining\<rparr>)"
| listen_failed: "lf_phase l = Serving \<Longrightarrow> life_step a l (l\<lparr>lf_phase := Exited 1\<rparr>)"
| drained: "lf_phase l = Draining \<Longrightarrow> life_step a l (l\<lparr>lf_phase := Waiting\<rparr>)"
| drain_failed: "lf_phase l = Draining \<Longrightarrow> life_step a l (l\<lparr>lf_phase := Exited 1\<rparr>)"
| worker_done: "alive l \<Longrightarrow> wk \<notin> lf_done l \<Longrightarrow> lf_phase l = Waiting \<or> idle a wk \<Longrightarrow> life_step a l (l\<lparr>lf_done := insert wk (lf_done l)\<rparr>)"
| stopped: "lf_phase l = Waiting \<Longrightarrow> lf_done l = UNIV \<Longrightarrow> life_step a l (l\<lparr>lf_phase := Exited 0\<rparr>)"

inductive life_reachable :: "app \<Rightarrow> life \<Rightarrow> bool" for a where
  start: "life_reachable a (started a)"
| step: "life_reachable a l \<Longrightarrow> life_step a l l' \<Longrightarrow> life_reachable a l'"

inductive_cases life_stepE: "life_step a l l'"

text \<open>
  A shutdown is orderly: as long as requests are served or drained, no worker has stopped that has work
  to do, and a server that exits with status 0 has seen all of them stop.
\<close>
theorem shutdown_orderly:
  assumes "life_reachable a l"
  shows "(lf_phase l \<in> {Serving, Draining} \<longrightarrow> (\<forall>wk \<in> lf_done l. idle a wk \<or> wk = WPartner \<and> app_bot a = None)) \<and>
    (lf_phase l = Exited 0 \<longrightarrow> lf_done l = UNIV)"
  using assms
proof induction
  case start
  then show ?case by (auto simp: started_def)
next
  case (step l l')
  from step.hyps(2) step.IH show ?case by (cases rule: life_step.cases) (auto simp: alive_def)
qed

text \<open>Once the workers are told to stop, the server always has a step and exits with status 0 after at most five.\<close>

definition remaining :: "life \<Rightarrow> nat" where
  "remaining l = (if lf_phase l = Waiting then Suc (card (UNIV - lf_done l)) else 0)"

lemma finite_workers [simp]: "finite (X :: worker set)"
proof -
  have "finite (UNIV :: worker set)" by (simp add: UNIV_worker)
  then show ?thesis by (rule finite_subset [OF subset_UNIV])
qed

lemma waiting_step:
  assumes "lf_phase l = Waiting"
  shows "\<exists>l'. life_step a l l'" and "remaining l \<le> 5"
    and "life_step a l l' \<Longrightarrow> remaining l' < remaining l \<and> (lf_phase l' = Waiting \<or> lf_phase l' = Exited 0)"
proof -
  show "\<exists>l'. life_step a l l'"
  proof (cases "lf_done l = UNIV")
    case True
    then show ?thesis using life_step.stopped assms by blast
  next
    case False
    then obtain wk where "wk \<notin> lf_done l" by auto
    then show ?thesis using life_step.worker_done assms by (force simp: alive_def)
  qed
  have "card (UNIV - lf_done l) \<le> card (UNIV :: worker set)" by (rule card_mono) simp_all
  then show "remaining l \<le> 5" by (simp add: remaining_def UNIV_worker)
  assume "life_step a l l'"
  then show "remaining l' < remaining l \<and> (lf_phase l' = Waiting \<or> lf_phase l' = Exited 0)"
  proof (cases rule: life_step.cases)
    case (worker_done wk)
    then have "UNIV - lf_done l' \<subset> UNIV - lf_done l" by auto
    then have "card (UNIV - lf_done l') < card (UNIV - lf_done l)" by (simp add: psubset_card_mono)
    then show ?thesis using worker_done assms by (simp add: remaining_def)
  qed (use assms in \<open>simp_all add: remaining_def\<close>)
qed

text \<open>One life of a server without the partner bot: a signal, the drain, the three workers, the end.\<close>

lemma shutdown_orderly_witness:
  "lf_done \<lparr>lf_phase = Draining, lf_done = lf_done (started (main_app ex_web (\<lambda>_. CallFails []) ex_config \<lparr>pc_ConnString = [], pc_MaxConns = 4\<rparr>))\<rparr> = {WPartner}"
proof -
  let ?a = "main_app ex_web (\<lambda>_. CallFails []) ex_config \<lparr>pc_ConnString = [], pc_MaxConns = 4\<rparr>"
  have bot: "app_bot ?a = None"
    by (simp add: main_app_def main_bot_def IsSandbox_def ex_config_def EnvProduction_def EnvSandbox_def)
  have "life_step ?a (started ?a) ((started ?a)\<lparr>lf_phase := Draining\<rparr>)" by (rule life_step.signalled) (simp add: started_def)
  then have r: "life_reachable ?a ((started ?a)\<lparr>lf_phase := Draining\<rparr>)" by (rule life_reachable.step [OF life_reachable.start])
  have "wk \<in> lf_done ((started ?a)\<lparr>lf_phase := Draining\<rparr>) \<Longrightarrow> idle ?a wk \<or> wk = WPartner \<and> app_bot ?a = None" for wk
    using shutdown_orderly [OF r] by simp
  then show ?thesis by (simp add: started_def bot)
qed

end
