(* ===== verification/Exchange.thy ===== *)
theory Exchange
  imports Services Startup Wallet_Properties Partnerfeed_Properties
begin

text \<open>
  The running exchange as a whole: the steps of its database, which are the requests on any route, the
  settlement of matches, the batches of the outbox publisher, the rounds of the partner bot and the
  steps of the engine, in any order. Two relations that every statement keeps give two invariants of
  every run: nothing recorded is ever lost or rewritten, and the keys stay unique.
\<close>

subsection \<open>Steps\<close>

text \<open>
  Each step is one service call that runs to its end, or one step of the engine; between them the
  environment, with the faults and the clock to come, is arbitrary. \<open>PlaceOrder\<close> and \<open>Withdraw\<close> check the
  balance before they begin their transaction: when calls overlap, others commit in between. So their
  transactions are steps of their own, on whatever account, network and amount the checks passed.
\<close>

inductive exchange_step :: "server \<Rightarrow> world \<Rightarrow> world \<Rightarrow> bool" for s where
  request: "(m, p, h) \<in> set (routes s) \<Longrightarrow> serve h r w = (rs, w') \<Longrightarrow> exchange_step s w w'"
| place_commit: "in_tx pre (place_tx (wb_dp (sv_web s)) cmd acct asset amt) w = (po, w') \<Longrightarrow> exchange_step s w w'"
| withdraw_commit: "in_tx pre (withdraw_tx (wb_dp (sv_web s)) wc n acct) w = (wd, w') \<Longrightarrow> exchange_step s w w'"
| settlement: "exchange_step s w (OnTradeMatched (wb_dp (sv_web s)) (main_settlement (sv_cfg s)) e w)"
| publisher: "exchange_step s w (snd (processBatch (NewPublisher None 1000000000) w))"
| partner: "main_bot (sv_cfg s) = Some bc \<Longrightarrow> bot_round (wb_dp (sv_web s)) bc runs now (c :: feed_bridge mf_client) symbols bs w = (bs', w') \<Longrightarrow>
    exchange_step s w w'"
| matching: "w_engine w = Some e \<Longrightarrow> engine_step any_command (e, lg) (e', lg') \<Longrightarrow> exchange_step s w (w\<lparr>w_engine := Some e'\<rparr>)"
| environment: "exchange_step s w (w\<lparr>w_env := env', w_tick := n\<rparr>)"

inductive exchange_run :: "server \<Rightarrow> world \<Rightarrow> world \<Rightarrow> bool" for s where
  idle_run: "exchange_run s w w"
| step_run: "exchange_run s w w1 \<Longrightarrow> exchange_step s w1 w2 \<Longrightarrow> exchange_run s w w2"

text \<open>The bot talks to the engine only.\<close>

lemma submit_db: "w_db (snd (SubmitPlace a b c d p q w)) = w_db w" "w_tx (snd (SubmitPlace a b c d p q w)) = w_tx w"
  "w_db (snd (SubmitCancel a c w)) = w_db w" "w_tx (snd (SubmitCancel a c w)) = w_tx w"
  by (auto simp: SubmitPlace_def SubmitCancel_def Let_def split: option.splits prod.splits)

lemma NewV7_db: "w_db (snd (NewV7 w)) = w_db w" "w_tx (snd (NewV7 w)) = w_tx w"
  by (auto simp: NewV7_def split: option.splits)

lemma cancel_loop_db: "cancel_loop want sy keys cur w = (cur', w') \<Longrightarrow> w_db w' = w_db w \<and> w_tx w' = w_tx w"
proof (induction keys arbitrary: cur w)
  case (Cons key keys)
  have c: "SubmitCancel a b v = (x, v') \<Longrightarrow> w_db v' = w_db v \<and> w_tx v' = w_tx v" for a b v x v' using submit_db(3,4) [of a b v] by simp
  show ?case using Cons.prems by (auto dest!: Cons.IH c split: option.splits if_splits prod.splits)
qed simp

lemma place_loop_db: "place_loop dp want sy side keys cur w = (cur', w') \<Longrightarrow> w_db w' = w_db w \<and> w_tx w' = w_tx w"
proof (induction keys arbitrary: cur w)
  case (Cons key keys)
  have n: "NewV7 w = (x, w1) \<Longrightarrow> w_db w1 = w_db w \<and> w_tx w1 = w_tx w" for x w1 using NewV7_db [of w] by simp
  have p: "SubmitPlace a b c d p q v = (x, v') \<Longrightarrow> w_db v' = w_db v \<and> w_tx v' = w_tx v" for a b c d p q v x v'
    using submit_db(1,2) [of a b c d p q v] by simp
  show ?case using Cons.prems by (auto dest!: Cons.IH n p split: option.splits if_splits prod.splits sum.splits)
qed simp

lemma sync_db: "sync dp cfg run sy side levels bs w = (bs', w') \<Longrightarrow> w_db w' = w_db w \<and> w_tx w' = w_tx w"
  by (auto simp: sync_def Let_def dest!: cancel_loop_db place_loop_db split: prod.splits)

lemma bot_tick_db: "bot_tick dp cfg buy sell feed sy bs w = (bs', w') \<Longrightarrow> w_db w' = w_db w \<and> w_tx w' = w_tx w"
  by (auto simp: bot_tick_def dest!: sync_db split: option.splits prod.splits)

lemma bot_round_db: "bot_round dp cfg runs now c symbols bs w = (bs', w') \<Longrightarrow> w_db w' = w_db w \<and> w_tx w' = w_tx w"
  by (induction symbols arbitrary: bs w) (auto dest!: bot_tick_db split: prod.splits)

text \<open>What every service call keeps, every run keeps.\<close>

context service_contract
begin

lemma step_within:
  assumes "exchange_step s w w'" and t: "w_tx w = None" and D: "D (wb_dp (sv_web s))"
  shows "w_tx w' = None \<and> R (w_db w) (w_db w')"
  using assms(1)
proof cases
  case (request m p h r rs)
  from evolves_serve [OF this t D] show ?thesis .
next
  case (place_commit pre cmd acct asset amt po)
  from evolvesD [OF service_laws(1) [OF D] this] show ?thesis using t by (simp add: no_tx_def)
next
  case (withdraw_commit pre wc n acct wd)
  from evolvesD [OF service_laws(8) [OF D] this] show ?thesis using t by (simp add: no_tx_def)
next
  case (settlement e)
  then show ?thesis using OnTradeMatched_within [OF t D] by simp
next
  case publisher
  then show ?thesis using batch_within [OF t] by simp
next
  case (partner bc runs now c symbols bs bs')
  from bot_round_db [OF partner(2)] show ?thesis using t by (simp add: within_refl)
qed (simp_all add: t within_refl)

lemma run_within:
  "exchange_run s w w' \<Longrightarrow> w_tx w = None \<Longrightarrow> D (wb_dp (sv_web s)) \<Longrightarrow> w_tx w' = None \<and> R (w_db w) (w_db w')"
proof (induction rule: exchange_run.induct)
  case idle_run
  then show ?case by (simp add: within_refl)
next
  case (step_run w w1 w2)
  then show ?case using step_within within_trans by blast
qed

end

subsection \<open>What is recorded stays\<close>

text \<open>Rows that keep their place and a relation to what they were, and new rows after them.\<close>

definition grown :: "('r \<Rightarrow> 'r \<Rightarrow> bool) \<Rightarrow> 'r list \<Rightarrow> 'r list \<Rightarrow> bool" where
  "grown K rows rows' \<longleftrightarrow> (\<exists>kept new. rows' = kept @ new \<and> list_all2 K rows kept)"

text \<open>An order changes its fill, its status, which is never OPEN again, and the time of the update.\<close>

definition order_kept :: "sqlnum order_rec \<Rightarrow> sqlnum order_rec \<Rightarrow> bool" where
  "order_kept r r' \<longleftrightarrow>
     r' = r\<lparr>o_FilledQuantity := o_FilledQuantity r', o_Status := o_Status r', o_UpdatedAt := o_UpdatedAt r'\<rparr> \<and>
     (o_Status r' = StatusOpen \<longrightarrow> o_Status r = StatusOpen)"

definition deposit_kept :: "sqlnum deposit_rec \<Rightarrow> sqlnum deposit_rec \<Rightarrow> bool" where
  "deposit_kept r r' \<longleftrightarrow>
     r' = r\<lparr>d_Status := d_Status r', d_ConfirmedAt := d_ConfirmedAt r'\<rparr> \<and> (d_Status r' = DepositPending \<longrightarrow> d_Status r = DepositPending)"

text \<open>A deletion is final.\<close>

definition user_kept :: "user_rec \<Rightarrow> user_rec \<Rightarrow> bool" where
  "user_kept r r' \<longleftrightarrow> r' = r\<lparr>u_DeletedAt := u_DeletedAt r'\<rparr> \<and> (u_DeletedAt r \<noteq> None \<longrightarrow> r' = r)"

definition event_kept :: "outbox_event \<Rightarrow> outbox_event \<Rightarrow> bool" where
  "event_kept r r' \<longleftrightarrow>
     r' = r\<lparr>ev_Status := ev_Status r', ev_Retries := ev_Retries r', ev_ProcessedAt := ev_ProcessedAt r'\<rparr> \<and>
     (ev_Status r = StatusProcessed \<longrightarrow> ev_Status r' = StatusProcessed)"

definition db_history :: "db \<Rightarrow> db \<Rightarrow> bool" where
  "db_history d d' \<longleftrightarrow>
     grown (=) (db_ledger d) (db_ledger d') \<and> grown (=) (db_trades d) (db_trades d') \<and>
     grown (=) (db_withdrawals d) (db_withdrawals d') \<and> grown (=) (db_idem d) (db_idem d') \<and>
     grown (=) (db_accounts d) (db_accounts d') \<and> grown (=) (db_wallets d) (db_wallets d') \<and>
     grown order_kept (db_orders d) (db_orders d') \<and> grown deposit_kept (db_deposits d) (db_deposits d') \<and>
     grown user_kept (db_users d) (db_users d') \<and> grown event_kept (db_outbox d) (db_outbox d') \<and>
     db_assets d' = db_assets d \<and> db_networks d' = db_networks d"

lemma grown_append: "(\<And>r. K r r) \<Longrightarrow> grown K rows (rows @ new)"
  unfolding grown_def by (intro exI [of _ rows] exI [of _ new]) (simp add: list_all2_refl)

lemma grown_map: "(\<And>r. K r (f r)) \<Longrightarrow> grown K rows (map f rows)"
  unfolding grown_def by (intro exI [of _ "map f rows"] exI [of _ "[]"]) (simp add: list_all2_map2 list_all2_refl)

lemma grown_refl: "(\<And>r. K r r) \<Longrightarrow> grown K rows rows"
  using grown_append [of K rows "[]"] by simp

lemma grown_trans:
  assumes "transp K" and "grown K xs ys" and "grown K ys zs"
  shows "grown K xs zs"
proof -
  obtain k1 n1 where 1: "ys = k1 @ n1" "list_all2 K xs k1" using assms(2) by (auto simp: grown_def)
  obtain k2 n2 where 2: "zs = k2 @ n2" "list_all2 K ys k2" using assms(3) by (auto simp: grown_def)
  obtain ka kb where 3: "k2 = ka @ kb" "list_all2 K k1 ka" using 1(1) 2(2) by (auto simp: list_all2_append1)
  have "list_all2 K xs ka" by (rule list_all2_trans [OF _ 1(2) 3(2)]) (rule transpD [OF assms(1)])
  then show ?thesis using 2(1) 3(1) by (auto simp: grown_def)
qed

lemma kept_refl [simp]: "order_kept r r" "deposit_kept r' r'" "user_kept u u" "event_kept e e"
  by (simp_all add: order_kept_def deposit_kept_def user_kept_def event_kept_def)

lemma kept_trans:
  "order_kept a b \<Longrightarrow> order_kept b c \<Longrightarrow> order_kept a c" "deposit_kept a' b' \<Longrightarrow> deposit_kept b' c' \<Longrightarrow> deposit_kept a' c'"
  "user_kept u v \<Longrightarrow> user_kept v x \<Longrightarrow> user_kept u x" "event_kept e f \<Longrightarrow> event_kept f g \<Longrightarrow> event_kept e g"
proof -
  show "order_kept a b \<Longrightarrow> order_kept b c \<Longrightarrow> order_kept a c" by (cases a; cases b; cases c) (auto simp: order_kept_def)
  show "deposit_kept a' b' \<Longrightarrow> deposit_kept b' c' \<Longrightarrow> deposit_kept a' c'" by (cases a'; cases b'; cases c') (auto simp: deposit_kept_def)
  show "user_kept u v \<Longrightarrow> user_kept v x \<Longrightarrow> user_kept u x" by (cases u; cases v; cases x) (auto simp: user_kept_def)
  show "event_kept e f \<Longrightarrow> event_kept f g \<Longrightarrow> event_kept e g" by (cases e; cases f; cases g) (auto simp: event_kept_def)
qed

lemma db_history_refl: "db_history d d"
  by (simp add: db_history_def grown_refl)

lemma kept_transp: "transp (=)" "transp order_kept" "transp deposit_kept" "transp user_kept" "transp event_kept"
  by (blast intro: transpI kept_trans)+

lemma db_history_trans: "db_history a b \<Longrightarrow> db_history b c \<Longrightarrow> db_history a c"
  unfolding db_history_def
  by (elim conjE, intro conjI) ((erule (1) kept_transp [THEN grown_trans])+, simp_all)

lemma increment_rows_grown: "increment_rows i p t rows = Inr rows' \<Longrightarrow> grown order_kept rows rows'"
proof -
  assume "increment_rows i p t rows = Inr rows'"
  then have "list_all2 order_kept rows rows'"
    by (rule list_all2_mono [OF increment_rows_Inr]) (auto simp: order_kept_def)
  then show ?thesis unfolding grown_def by (intro exI [of _ rows'] exI [of _ "[]"]) simp
qed

text \<open>The rows a statement touches are kept.\<close>

lemma update_rows_grown: "(\<And>r. K r r) \<Longrightarrow> (\<And>r. K r (f r)) \<Longrightarrow> grown K rows (update_rows P f rows)"
  unfolding update_rows_def by (rule grown_map) simp

lemmas history_simps = db_history_def grown_refl grown_append update_rows_grown grown_map

interpretation hist: store_contract db_history
proof unfold_locales
  show "db_history d d" for d by (rule db_history_refl)
  show "db_history a b \<Longrightarrow> db_history b c \<Longrightarrow> db_history a c" for a b c by (rule db_history_trans)
  show "insert_ledger e d = Inr (u, d') \<Longrightarrow> db_history d d'" for e d u d' by (auto simp: insert_ledger_Inr history_simps)
  show "insert_idem i key scope t d = Inr (u, d') \<Longrightarrow> db_history d d'" for i key scope t d u d'
    by (auto simp: insert_idem_Inr history_simps)
  show "insert_outbox i ty payload t d = Inr (u, d') \<Longrightarrow> db_history d d'" for i ty payload t d u d'
    by (auto simp: insert_outbox_Inr history_simps)
  show "db_history d (d\<lparr>db_outbox := update_rows (\<lambda>r. ev_ID r = i)
      (\<lambda>r. r\<lparr>ev_Status := StatusProcessed, ev_ProcessedAt := Some t\<rparr>) (db_outbox d)\<rparr>)" for d i t
    by (simp add: history_simps event_kept_def)
  show "db_history d (d\<lparr>db_outbox := update_rows (\<lambda>r. ev_ID r = i) (\<lambda>r. r\<lparr>ev_Retries := ev_Retries r + 1\<rparr>) (db_outbox d)\<rparr>)" for d i
    by (simp add: history_simps event_kept_def)
  show "insert_account a d = Inr (u, d') \<Longrightarrow> db_history d d'" for a d u d' by (auto simp: insert_account_Inr history_simps)
  show "insert_user x d = Inr (u, d') \<Longrightarrow> db_history d d'" for x d u d' by (auto simp: insert_user_Inr history_simps)
  show "db_history d (d\<lparr>db_users := map (\<lambda>r. if u_ID r = i \<and> u_DeletedAt r = None then r\<lparr>u_DeletedAt := Some t\<rparr> else r) (db_users d)\<rparr>)"
    for d i t by (simp add: history_simps user_kept_def)
  show "insert_order o1 d = Inr (u, d') \<Longrightarrow> db_history d d'" for o1 d u d' by (auto simp: insert_order_Inr history_simps)
  show "s \<noteq> StatusOpen \<Longrightarrow>
      db_history d (d\<lparr>db_orders := update_rows (\<lambda>r. o_ID r = i) (\<lambda>r. r\<lparr>o_Status := s, o_UpdatedAt := t\<rparr>) (db_orders d)\<rparr>)" for s d i t
    by (simp add: history_simps order_kept_def)
  show "increment_rows i q t (db_orders d) = Inr rows \<Longrightarrow> db_history d (d\<lparr>db_orders := rows\<rparr>)" for i q t d rows
    by (simp add: history_simps increment_rows_grown)
  show "insert_trade tr d = Inr (u, d') \<Longrightarrow> db_history d d'" for tr d u d' by (auto simp: insert_trade_Inr history_simps)
  show "insert_wallet wa d = Inr (u, d') \<Longrightarrow> db_history d d'" for wa d u d' by (auto simp: insert_wallet_Inr history_simps)
  show "insert_deposit x' d = Inr (u, d') \<Longrightarrow> db_history d d'" for x' d u d' by (auto simp: insert_deposit_Inr history_simps)
  show "s \<noteq> DepositPending \<Longrightarrow>
      db_history d (d\<lparr>db_deposits := update_rows (\<lambda>r. d_ID r = i) (\<lambda>r. r\<lparr>d_Status := s, d_ConfirmedAt := c\<rparr>) (db_deposits d)\<rparr>)"
    for s d i c by (simp add: history_simps deposit_kept_def)
  show "insert_withdrawal wd d = Inr (u, d') \<Longrightarrow> db_history d d'" for wd d u d' by (auto simp: insert_withdrawal_Inr history_simps)
qed

subsection \<open>The keys stay unique\<close>

definition db_keys :: "db \<Rightarrow> bool" where
  "db_keys d \<longleftrightarrow>
     users_unique d \<and> accounts_unique d \<and> wallets_unique d \<and> distinct_ids (db_outbox d) \<and>
     distinct (map le_ID (db_ledger d)) \<and>
     distinct (map ik_ID (db_idem d)) \<and> distinct (map (\<lambda>r. (ik_Key r, ik_Scope r)) (db_idem d)) \<and>
     distinct (map o_ID (db_orders d)) \<and> distinct (map t_ID (db_trades d)) \<and>
     distinct (map d_ID (db_deposits d)) \<and> distinct (map d_TxHash (db_deposits d)) \<and>
     distinct (map wd_ID (db_withdrawals d))"

lemma update_rows_keys: "(\<And>r. k (f r) = k r) \<Longrightarrow> map k (update_rows P f rows) = map k rows"
  by (simp add: update_rows_def)

lemma increment_rows_keys: "increment_rows i p t rows = Inr rows' \<Longrightarrow> map o_ID rows' = map o_ID rows"
proof -
  assume "increment_rows i p t rows = Inr rows'"
  from increment_rows_Inr [OF this] show ?thesis by (induction rule: list_all2_induct) auto
qed

lemmas key_simps = db_keys_def users_unique_def accounts_unique_def wallets_unique_def distinct_ids_def

lemma fresh_key: "k x \<notin> k ` S \<longleftrightarrow> (\<forall>r \<in> S. k x \<noteq> k r)"
  by blast

lemma keys_add:
  "distinct (map k (rows @ [x])) \<longleftrightarrow> distinct (map k rows) \<and> (\<forall>r \<in> set rows. k x \<noteq> k r)"
  by (auto simp: fresh_key)

interpretation keys: store_contract "\<lambda>d d'. db_keys d \<longrightarrow> db_keys d'"
proof unfold_locales
  show "insert_ledger e d = Inr (u, d') \<Longrightarrow> db_keys d \<longrightarrow> db_keys d'" for e d u d'
    by (simp only: insert_ledger_Inr, elim exE conjE, simp add: ledger_row_def key_simps keys_add del: map_append distinct_append)
  show "insert_idem i key scope t d = Inr (u, d') \<Longrightarrow> db_keys d \<longrightarrow> db_keys d'" for i key scope t d u d'
    by (simp only: insert_idem_Inr, elim exE conjE, simp add: key_claimed_def key_simps keys_add eq_commute [of key] eq_commute [of scope] del: map_append distinct_append)
  show "insert_outbox i ty payload t d = Inr (u, d') \<Longrightarrow> db_keys d \<longrightarrow> db_keys d'" for i ty payload t d u d'
    by (simp only: insert_outbox_Inr, elim exE conjE, simp add: key_simps keys_add del: map_append distinct_append)
  show "db_keys d \<longrightarrow> db_keys (d\<lparr>db_outbox := update_rows (\<lambda>r. ev_ID r = i)
      (\<lambda>r. r\<lparr>ev_Status := StatusProcessed, ev_ProcessedAt := Some t\<rparr>) (db_outbox d)\<rparr>)" for d i t
    by (simp add: key_simps update_rows_keys)
  show "db_keys d \<longrightarrow> db_keys (d\<lparr>db_outbox := update_rows (\<lambda>r. ev_ID r = i) (\<lambda>r. r\<lparr>ev_Retries := ev_Retries r + 1\<rparr>) (db_outbox d)\<rparr>)"
    for d i by (simp add: key_simps update_rows_keys)
  show "insert_account a d = Inr (u, d') \<Longrightarrow> db_keys d \<longrightarrow> db_keys d'" for a d u d'
    by (simp only: insert_account_Inr, elim exE conjE, simp add: key_simps keys_add del: map_append distinct_append)
  show "insert_user x d = Inr (u, d') \<Longrightarrow> db_keys d \<longrightarrow> db_keys d'" for x d u d'
    by (simp only: insert_user_Inr, elim exE conjE, simp add: user_clash_def key_simps keys_add del: map_append distinct_append)
  show "db_keys d \<longrightarrow>
      db_keys (d\<lparr>db_users := map (\<lambda>r. if u_ID r = i \<and> u_DeletedAt r = None then r\<lparr>u_DeletedAt := Some t\<rparr> else r) (db_users d)\<rparr>)"
    for d i t by (simp add: key_simps update_rows_keys flip: update_rows_def)
  show "insert_order o1 d = Inr (u, d') \<Longrightarrow> db_keys d \<longrightarrow> db_keys d'" for o1 d u d'
    by (simp only: insert_order_Inr, elim exE conjE, simp add: order_row_def key_simps keys_add del: map_append distinct_append)
  show "s \<noteq> StatusOpen \<Longrightarrow> db_keys d \<longrightarrow>
      db_keys (d\<lparr>db_orders := update_rows (\<lambda>r. o_ID r = i) (\<lambda>r. r\<lparr>o_Status := s, o_UpdatedAt := t\<rparr>) (db_orders d)\<rparr>)" for s d i t
    by (simp add: key_simps update_rows_keys)
  show "increment_rows i q t (db_orders d) = Inr rows \<Longrightarrow> db_keys d \<longrightarrow> db_keys (d\<lparr>db_orders := rows\<rparr>)" for i q t d rows
    by (simp add: key_simps increment_rows_keys)
  show "insert_trade tr d = Inr (u, d') \<Longrightarrow> db_keys d \<longrightarrow> db_keys d'" for tr d u d'
    by (simp only: insert_trade_Inr, elim exE conjE, simp add: trade_row_def key_simps keys_add del: map_append distinct_append)
  show "insert_wallet wa d = Inr (u, d') \<Longrightarrow> db_keys d \<longrightarrow> db_keys d'" for wa d u d'
    by (simp only: insert_wallet_Inr, elim exE conjE, simp add: key_simps keys_add del: map_append distinct_append)
  show "insert_deposit x' d = Inr (u, d') \<Longrightarrow> db_keys d \<longrightarrow> db_keys d'" for x' d u d'
    by (simp only: insert_deposit_Inr, elim exE conjE, simp add: deposit_row_def key_simps keys_add del: map_append distinct_append)
  show "s \<noteq> DepositPending \<Longrightarrow> db_keys d \<longrightarrow>
      db_keys (d\<lparr>db_deposits := update_rows (\<lambda>r. d_ID r = i) (\<lambda>r. r\<lparr>d_Status := s, d_ConfirmedAt := c\<rparr>) (db_deposits d)\<rparr>)"
    for s d i c by (simp add: key_simps update_rows_keys)
  show "insert_withdrawal wd d = Inr (u, d') \<Longrightarrow> db_keys d \<longrightarrow> db_keys d'" for wd d u d'
    by (simp only: insert_withdrawal_Inr, elim exE conjE, simp add: withdrawal_row_def key_simps keys_add del: map_append distinct_append)
qed auto

subsection \<open>The invariants of every run\<close>

text \<open>
  C11. Whatever requests arrive, matches are settled, batches are published and rounds the bot plays, in any order and with
  any fault of the database: nothing recorded is lost or rewritten. Ledger entries, trades, withdrawals, idempotency keys,
  accounts and wallets only ever gain rows; of an order only the fill, the status and the time change, and it is never OPEN again;
  a deposit is never PENDING again; a user's deletion is final; a published event stays published; assets and networks stand.\<close>
theorem history_kept:
  assumes "exchange_run s w w'" and "w_tx w = None"
  shows "db_history (w_db w) (w_db w')"
  using hist.calls.run_within [OF assms] by simp

lemma history_kept_witness:
  "db_history (w_db ex_outbox) (w_db (snd (processBatch (NewPublisher None 1000000000) ex_outbox)))"
proof -
  have "exchange_run ex_server ex_outbox (snd (processBatch (NewPublisher None 1000000000) ex_outbox))"
    by (rule step_run [OF idle_run publisher])
  then show ?thesis by (rule history_kept) (simp add: ex_outbox_def ex_world_def)
qed

text \<open>
  C12. In every such run the keys of the tables stay unique: no two users share an e-mail or a name, no user has two accounts of
  an asset or two wallets of an asset and network, no two wallets share an address, no two deposits a transaction hash, no
  idempotency key is claimed twice in a scope, and the identifiers of every table are distinct.\<close>
theorem keys_kept:
  assumes "exchange_run s w w'" and "w_tx w = None" and "db_keys (w_db w)"
  shows "db_keys (w_db w')"
  using keys.calls.run_within [OF assms(1,2)] assms(3) by simp

lemma ex_sign_up: "(''POST'', [Lit ''users''], userHandler_CreateUser (sv_web s) sv_provisioner) \<in> set (routes s)"
  by (simp add: routes_def public_routes_def)

lemma keys_kept_witness:
  "db_keys (w_db (snd (serve (userHandler_CreateUser (sv_web ex_server) sv_provisioner) (ex_request None) (ex_world ex_catalog))))"
proof -
  obtain rs w' where run: "serve (userHandler_CreateUser (sv_web ex_server) sv_provisioner) (ex_request None) (ex_world ex_catalog) = (rs, w')"
    using surj_pair by metis
  have keys: "db_keys (w_db (ex_world ex_catalog))" by (simp add: key_simps ex_catalog_def empty_db_def)
  have "exchange_run ex_server (ex_world ex_catalog) w'" by (rule step_run [OF idle_run request [OF ex_sign_up run]])
  from keys_kept [OF this _ keys] have "db_keys (w_db w')" by (simp add: ex_world_def)
  then show ?thesis by (simp only: run snd_conv)
qed

end
