(* ===== verification/Books.thy ===== *)
theory Books
  imports Exchange Settlement_Properties Order_Cancel Trade_Properties
begin

text \<open>
  The ledger and the tables it accounts for. \<open>db_books\<close> says that they agree: the entries of withdrawals
  and trades are those of the withdrawals and trades there are, the deposits credited are the confirmed
  ones, reservations belong to orders and releases to cancelled orders, at most one to each. What every
  service call commits keeps it, and so does every run of the exchange: the services are interpreted as
  a \<open>service_contract\<close> for it.
\<close>

subsection \<open>The books\<close>

definition entries :: "string \<Rightarrow> db \<Rightarrow> sqlnum ledger_entry list" where
  "entries ty d = filter (\<lambda>e. le_EntryType e = ty) (db_ledger d)"

text \<open>The debit of a withdrawal.\<close>

definition withdrawal_booked :: "sqlnum ledger_entry \<Rightarrow> sqlnum withdrawal_rec \<Rightarrow> bool" where
  "withdrawal_booked e x \<longleftrightarrow>
     le_RefID e = wd_ID x \<and> le_UserID e = wd_UserID x \<and> le_AccountID e = wd_AccountID x \<and> le_Asset e = wd_Asset x \<and>
     (\<forall>k. wd_Amount x = QNum k \<longrightarrow> le_Amount e = QNum (- k))"

text \<open>The four entries of a trade: the base against the quote, the buyer against the seller.\<close>

definition trade_booked :: "sqlnum ledger_entry list \<Rightarrow> sqlnum trade_rec \<Rightarrow> bool" where
  "trade_booked es t \<longleftrightarrow>
     (\<exists>base quote x. SplitSymbol (t_Symbol t) = Inr (base, quote) \<and>
        map le_RefID es = replicate 4 (t_ID t) \<and>
        map le_UserID es = [t_BuyUserID t, t_BuyUserID t, t_SellUserID t, t_SellUserID t] \<and>
        map le_Asset es = [base, quote, base, quote] \<and>
        le_Amount (es ! 1) = QNum (- x) \<and> le_Amount (es ! 3) = QNum x \<and>
        (\<forall>k. t_Quantity t = QNum k \<longrightarrow> le_Amount (es ! 0) = QNum k \<and> le_Amount (es ! 2) = QNum (- k)) \<and>
        (t_Quantity t = QNaN \<longrightarrow> le_Amount (es ! 0) = QNaN))"

definition entry_key :: "sqlnum ledger_entry \<Rightarrow> uuid \<times> uuid" where
  "entry_key e = (le_RefID e, le_UserID e)"

definition order_key :: "sqlnum order_rec \<Rightarrow> uuid \<times> uuid" where
  "order_key r = (o_ID r, o_UserID r)"

definition deposit_key :: "sqlnum deposit_rec \<Rightarrow> uuid \<times> uuid \<times> string \<times> sqlnum" where
  "deposit_key x = (d_ID x, d_UserID x, d_Asset x, d_Amount x)"

definition credit_key :: "sqlnum ledger_entry \<Rightarrow> uuid \<times> uuid \<times> string \<times> sqlnum" where
  "credit_key e = (le_RefID e, le_UserID e, le_Asset e, le_Amount e)"

definition withdrawals_booked :: "db \<Rightarrow> bool" where
  "withdrawals_booked d \<longleftrightarrow> list_all2 withdrawal_booked (entries EntryTypeWithdraw d) (db_withdrawals d)"

definition trades_booked :: "db \<Rightarrow> bool" where
  "trades_booked d \<longleftrightarrow> (\<exists>ess. entries EntryTypeTrade d = concat ess \<and> list_all2 trade_booked ess (db_trades d))"

definition deposits_booked :: "db \<Rightarrow> bool" where
  "deposits_booked d \<longleftrightarrow>
     mset (map credit_key (entries EntryTypeDeposit d)) =
     mset (map deposit_key (filter (\<lambda>x. d_Status x = DepositConfirmed) (db_deposits d)))"

definition reserves_booked :: "db \<Rightarrow> bool" where
  "reserves_booked d \<longleftrightarrow> mset (map entry_key (entries EntryTypeReserve d)) \<subseteq># mset (map order_key (db_orders d))"

definition releases_booked :: "db \<Rightarrow> bool" where
  "releases_booked d \<longleftrightarrow>
     mset (map entry_key (entries EntryTypeRelease d)) \<subseteq>#
     mset (map order_key (filter (\<lambda>r. o_Status r = StatusCancelled) (db_orders d)))"

definition db_books :: "db \<Rightarrow> bool" where
  "db_books d \<longleftrightarrow> withdrawals_booked d \<and> trades_booked d \<and> deposits_booked d \<and> reserves_booked d \<and> releases_booked d"

lemmas booked_defs =
  db_books_def withdrawals_booked_def trades_booked_def deposits_booked_def reserves_booked_def releases_booked_def

lemma entries_append [simp]:
  "db_ledger d' = db_ledger d @ es \<Longrightarrow> entries ty d' = entries ty d @ filter (\<lambda>e. le_EntryType e = ty) es"
  by (simp add: entries_def)

lemma entry_types [simp]:
  "EntryTypeReserve \<noteq> EntryTypeRelease" "EntryTypeReserve \<noteq> EntryTypeTrade" "EntryTypeReserve \<noteq> EntryTypeDeposit"
  "EntryTypeReserve \<noteq> EntryTypeWithdraw" "EntryTypeRelease \<noteq> EntryTypeTrade" "EntryTypeRelease \<noteq> EntryTypeDeposit"
  "EntryTypeRelease \<noteq> EntryTypeWithdraw" "EntryTypeTrade \<noteq> EntryTypeDeposit" "EntryTypeTrade \<noteq> EntryTypeWithdraw"
  "EntryTypeDeposit \<noteq> EntryTypeWithdraw"
  by (simp_all add: EntryTypeReserve_def EntryTypeRelease_def EntryTypeTrade_def EntryTypeDeposit_def EntryTypeWithdraw_def)

lemmas entry_types' [simp] = entry_types [symmetric]

text \<open>Calls that touch neither the ledger nor the tables it accounts for.\<close>

definition same_books :: "db \<Rightarrow> db \<Rightarrow> bool" where
  "same_books d d' \<longleftrightarrow>
     db_ledger d' = db_ledger d \<and> db_orders d' = db_orders d \<and> db_trades d' = db_trades d \<and>
     db_deposits d' = db_deposits d \<and> db_withdrawals d' = db_withdrawals d"

interpretation same: side_contract same_books
  by unfold_locales (auto simp: same_books_def insert_account_Inr insert_user_Inr insert_wallet_Inr insert_outbox_Inr)

lemma same_books_kept: "same_books d d' \<Longrightarrow> db_books d \<Longrightarrow> db_books d'"
  by (simp add: same_books_def booked_defs entries_def)

subsection \<open>Rows that change\<close>

text \<open>One row, the only one with its key, joins those with the property.\<close>

lemma mset_filter_update:
  assumes "distinct (map key rows)" and "r \<in> set rows" and "\<not> P r" and "P (g r)" and "f (g r) = f r"
  shows "mset (map f (filter P (update_rows (\<lambda>x. key x = key r) g rows))) = add_mset (f r) (mset (map f (filter P rows)))"
proof -
  obtain xs ys where rows: "rows = xs @ r # ys" using split_list [OF assms(2)] by blast
  have "key x \<noteq> key r" if "x \<in> set xs \<union> set ys" for x
    using that assms(1) imageI [of x _ key] unfolding rows by force
  then have "update_rows (\<lambda>x. key x = key r) g xs = xs" "update_rows (\<lambda>x. key x = key r) g ys = ys"
    by (auto intro!: update_rows_other)
  then show ?thesis using assms(3-5) by (simp add: rows update_rows_def)
qed

lemma map_update_rows: "(\<And>r. f (g r) = f r) \<Longrightarrow> map f (update_rows P g rows) = map f rows"
  by (simp add: update_rows_def)

text \<open>Fills leave the cancelled orders alone, when the order filled is not one of them.\<close>

definition same_cancel :: "sqlnum order_rec \<Rightarrow> sqlnum order_rec \<Rightarrow> bool" where
  "same_cancel r r' \<longleftrightarrow> order_key r' = order_key r \<and> (o_Status r' = StatusCancelled \<longleftrightarrow> o_Status r = StatusCancelled)"

lemma same_cancel_rows:
  "list_all2 same_cancel rows rows' \<Longrightarrow>
   map order_key rows' = map order_key rows \<and>
   map order_key (filter (\<lambda>r. o_Status r = StatusCancelled) rows') = map order_key (filter (\<lambda>r. o_Status r = StatusCancelled) rows)"
  by (induction rule: list_all2_induct) (auto simp: same_cancel_def)

lemma filled_same_cancel:
  assumes "list_all2 (filled_row dp o1 q) rows rows'" and "\<And>r. r \<in> set rows \<Longrightarrow> o_ID r = o_ID o1 \<Longrightarrow> o_Status r \<noteq> StatusCancelled"
  shows "list_all2 same_cancel rows rows'"
proof (rule list.rel_mono_strong [OF assms(1)])
  fix r r' assume "r \<in> set rows" and f: "filled_row dp o1 q r r'"
  then have "o_ID r = o_ID o1 \<Longrightarrow> o_Status r \<noteq> StatusCancelled" using assms(2) by blast
  then show "same_cancel r r'" using f
    by (auto simp: same_cancel_def order_key_def filled_row_def fill_status_def StatusFilled_def StatusPartial_def StatusCancelled_def split: if_splits)
qed

subsection \<open>What each call commits keeps the books\<close>

text \<open>New entries, and in the tables what accounts for them.\<close>

lemma db_books_step:
  assumes b: "db_books d" and l: "db_ledger d' = db_ledger d @ es"
    and w: "db_withdrawals d' = db_withdrawals d @ ws" "list_all2 withdrawal_booked (filter (\<lambda>e. le_EntryType e = EntryTypeWithdraw) es) ws"
    and t: "db_trades d' = db_trades d @ ts" "filter (\<lambda>e. le_EntryType e = EntryTypeTrade) es = concat ess" "list_all2 trade_booked ess ts"
    and c: "mset (map deposit_key (filter (\<lambda>x. d_Status x = DepositConfirmed) (db_deposits d'))) =
      mset (map deposit_key (filter (\<lambda>x. d_Status x = DepositConfirmed) (db_deposits d))) +
      mset (map credit_key (filter (\<lambda>e. le_EntryType e = EntryTypeDeposit) es))"
    and o: "mset (map order_key (db_orders d)) + mset (map entry_key (filter (\<lambda>e. le_EntryType e = EntryTypeReserve) es)) \<subseteq>#
      mset (map order_key (db_orders d'))"
    and x: "mset (map order_key (filter (\<lambda>r. o_Status r = StatusCancelled) (db_orders d))) +
      mset (map entry_key (filter (\<lambda>e. le_EntryType e = EntryTypeRelease) es)) \<subseteq>#
      mset (map order_key (filter (\<lambda>r. o_Status r = StatusCancelled) (db_orders d')))"
  shows "db_books d'"
proof -
  note e = entries_append [OF l]
  have grow: "A \<subseteq># B \<Longrightarrow> B + X \<subseteq># C \<Longrightarrow> A + X \<subseteq># C" for A B C X :: "(uuid \<times> uuid) multiset"
    by (meson subset_mset.add_right_mono subset_mset.order_trans)
  have "withdrawals_booked d'"
    using b w by (simp add: db_books_def withdrawals_booked_def e list_all2_appendI)
  moreover have "trades_booked d'"
  proof -
    obtain ess0 where 0: "entries EntryTypeTrade d = concat ess0" "list_all2 trade_booked ess0 (db_trades d)"
      using b by (auto simp: db_books_def trades_booked_def)
    then have "entries EntryTypeTrade d' = concat (ess0 @ ess)" "list_all2 trade_booked (ess0 @ ess) (db_trades d')"
      using t by (simp_all add: e list_all2_appendI)
    then show ?thesis unfolding trades_booked_def by blast
  qed
  moreover have "deposits_booked d'" using b c unfolding db_books_def deposits_booked_def by (simp add: e)
  moreover have "reserves_booked d'"
    using b grow [OF _ o] unfolding db_books_def reserves_booked_def by (simp add: e)
  moreover have "releases_booked d'"
    using b grow [OF _ x] unfolding db_books_def releases_booked_def by (simp add: e)
  ultimately show ?thesis by (simp add: db_books_def)
qed

lemma row_keys [simp]:
  "credit_key (ledger_row e x) = (le_RefID e, le_UserID e, le_Asset e, x)" "entry_key (ledger_row e x) = (le_RefID e, le_UserID e)"
  "order_key (order_row o1 p q fq) = (o_ID o1, o_UserID o1)"
  by (simp_all add: credit_key_def entry_key_def order_key_def)

lemma place_books:
  assumes "d' = d\<lparr>db_idem := db_idem d @ [ik], db_orders := db_orders d @ [order_row o1 p q fq],
      db_ledger := db_ledger d @ [ledger_row (reserve_entry dp o1 i acct asset amt) x], db_outbox := db_outbox d @ [ev]\<rparr>"
    and "o_Status o1 = StatusOpen" and b: "db_books d"
  shows "db_books d'"
  by (rule db_books_step [OF b, where es = "[ledger_row (reserve_entry dp o1 i acct asset amt) x]" and ws = "[]" and ts = "[]" and ess = "[]"])
    (auto simp: assms(1,2) reserve_entry_def StatusOpen_def StatusCancelled_def)

lemma neg_row:
  assumes "scans_decimals scan" and "num_row a = Inr (QNum k)" and "num_row (num_Neg scan a) = Inr x"
  shows "x = QNum (- k)"
proof -
  have "k = dec_units (toRat a)"
    using assms(2) by (auto simp: num_row_def num_param_def Let_def split: if_splits)
  then show ?thesis using num_row_plainD [OF num_op_plain(4) [OF assms(1)] assms(3)] by (simp add: num_Neg_value [OF assms(1)])
qed

lemma withdraw_books:
  assumes dp: "deps_ok dp" and c: "withdraw_change dp cmd x d d'" and b: "db_books d"
  shows "db_books d'"
proof -
  obtain ik e t ev q n where n: "num_row (num_Neg (dp_scan dp) (wc_Amount cmd)) = Inr n" "num_row (wc_Amount cmd) = Inr q" and
    d': "d' = d\<lparr>db_idem := db_idem d @ [ik], db_ledger := db_ledger d @ [ledger_row (withdraw_entry dp x e t) n],
               db_withdrawals := db_withdrawals d @ [withdrawal_row x q], db_outbox := db_outbox d @ [ev]\<rparr>"
    using c unfolding withdraw_change_def by blast
  have "withdrawal_booked (ledger_row (withdraw_entry dp x e t) n) (withdrawal_row x q)"
    using neg_row [OF deps_okD(1) [OF dp] _ n(1)] n(2) by (auto simp: withdrawal_booked_def withdraw_entry_def withdrawal_row_def)
  then show ?thesis
    by (intro db_books_step [OF b, where ws = "[withdrawal_row x q]" and ts = "[]" and ess = "[]"]) (auto simp: d')
qed

lemma cancel_books:
  assumes keys: "distinct (map o_ID (db_orders d))" and r: "r \<in> set (db_orders d)" and live: "o_Status r \<noteq> StatusCancelled"
    and c: "cancel_change dp r d d'" and b: "db_books d"
  shows "db_books d'"
proof -
  obtain asset amt es t ev where es: "if 0 < num_Cmp amt (num_Zero (dp_scan dp))
         then \<exists>i acct now x. account_of (o_UserID r) asset d = Some acct \<and> num_row amt = Inr x \<and>
                es = [ledger_row (release_entry (scanOrder dp r) i acct asset amt now) x]
         else es = []" and
    d': "d' = d\<lparr>db_orders := cancelled t (o_ID r) (db_orders d), db_ledger := db_ledger d @ es, db_outbox := db_outbox d @ [ev]\<rparr>"
    using c unfolding cancel_change_def by blast
  have m: "mset (map order_key (filter (\<lambda>r. o_Status r = StatusCancelled) (cancelled t (o_ID r) (db_orders d)))) =
      add_mset (order_key r) (mset (map order_key (filter (\<lambda>r. o_Status r = StatusCancelled) (db_orders d))))"
    unfolding cancelled_def by (rule mset_filter_update [OF keys r]) (simp_all add: live order_key_def)
  have k: "map order_key (cancelled t (o_ID r) (db_orders d)) = map order_key (db_orders d)"
    unfolding cancelled_def by (rule map_update_rows) (simp add: order_key_def)
  have "filter (\<lambda>e. le_EntryType e = EntryTypeRelease) es = es" "\<And>ty. ty \<noteq> EntryTypeRelease \<Longrightarrow> filter (\<lambda>e. le_EntryType e = ty) es = []"
    "mset (map entry_key es) \<subseteq># {#order_key r#}"
    using es by (auto simp: release_entry_def order_key_def split: if_splits)
  then show ?thesis
    by (intro db_books_step [OF b, where es = es and ws = "[]" and ts = "[]" and ess = "[]"])
      (simp_all add: d' m k del: mset_map mset_filter)
qed

lemma filter_map_same:
  "(\<And>x. x \<in> set rows \<Longrightarrow> g x = x \<or> \<not> P x \<and> \<not> P (g x)) \<Longrightarrow> filter P (map g rows) = filter P rows"
proof (induction rows)
  case (Cons a rows)
  have "filter P (map g rows) = filter P rows" using Cons by simp
  moreover have "g a = a \<or> \<not> P a \<and> \<not> P (g a)" using Cons.prems [of a] by simp
  ultimately show ?case by (elim disjE) simp_all
qed simp

lemma settled_keys:
  assumes "distinct (map d_ID rows)" and "r \<in> set rows" and "d_Status r = DepositPending"
  shows "mset (map deposit_key (filter (\<lambda>x. d_Status x = DepositConfirmed) (settled DepositConfirmed t (d_ID r) rows))) =
      add_mset (deposit_key r) (mset (map deposit_key (filter (\<lambda>x. d_Status x = DepositConfirmed) rows)))"
    and "map deposit_key (filter (\<lambda>x. d_Status x = DepositConfirmed) (settled DepositRejected t (d_ID r) rows)) =
      map deposit_key (filter (\<lambda>x. d_Status x = DepositConfirmed) rows)"
proof -
  show "mset (map deposit_key (filter (\<lambda>x. d_Status x = DepositConfirmed) (settled DepositConfirmed t (d_ID r) rows))) =
      add_mset (deposit_key r) (mset (map deposit_key (filter (\<lambda>x. d_Status x = DepositConfirmed) rows)))"
    unfolding settled_def using assms
    by (intro mset_filter_update) (simp_all add: deposit_key_def DepositPending_def DepositConfirmed_def)
  have "x = r" if "x \<in> set rows" "d_ID x = d_ID r" for x using assms(1,2) that by (simp add: distinct_map inj_on_def)
  then have "d_Status x = DepositPending" if "x \<in> set rows" "d_ID x = d_ID r" for x using assms(3) that by metis
  then have "filter (\<lambda>x. d_Status x = DepositConfirmed) (settled DepositRejected t (d_ID r) rows) =
      filter (\<lambda>x. d_Status x = DepositConfirmed) rows"
    unfolding settled_def update_rows_def
    by (intro filter_map_same) (auto simp: DepositPending_def DepositConfirmed_def DepositRejected_def)
  then show "map deposit_key (filter (\<lambda>x. d_Status x = DepositConfirmed) (settled DepositRejected t (d_ID r) rows)) =
      map deposit_key (filter (\<lambda>x. d_Status x = DepositConfirmed) rows)" by simp
qed

lemma confirm_books:
  assumes dp: "deps_ok dp" and keys: "distinct (map d_ID (db_deposits d))" and r: "r \<in> set (db_deposits d)" "d_Status r = DepositPending"
    and c: "confirm_change dp r now d d'" and b: "db_books d"
  shows "db_books d'"
proof -
  obtain i acct ev q where q: "num_row (dp_num dp (d_Amount r)) = Inr q" and
    d': "d' = d\<lparr>db_ledger := db_ledger d @ [ledger_row (deposit_entry (scanDeposit dp r) i acct now) q],
               db_deposits := settled DepositConfirmed (Some now) (d_ID r) (db_deposits d), db_outbox := db_outbox d @ [ev]\<rparr>"
    using c unfolding confirm_change_def by blast
  show ?thesis
    by (rule db_books_step [OF b, where es = "[ledger_row (deposit_entry (scanDeposit dp r) i acct now) q]" and ws = "[]" and ts = "[]" and ess = "[]"])
      (simp_all add: d' settled_keys(1) [OF keys r] num_row_scan [OF dp q] deposit_key_def del: mset_map mset_filter)
qed

lemma reject_books:
  assumes "distinct (map d_ID (db_deposits d))" and "r \<in> set (db_deposits d)" "d_Status r = DepositPending"
    and "d' = d\<lparr>db_deposits := settled DepositRejected t (d_ID r) (db_deposits d)\<rparr>" and b: "db_books d"
  shows "db_books d'"
  by (rule db_books_step [OF b, where es = "[]" and ws = "[]" and ts = "[]" and ess = "[]"])
    (simp_all add: assms(4) settled_keys(2) [OF assms(1-3)] del: mset_map mset_filter)

lemma intake_books:
  assumes "d' = d\<lparr>db_deposits := db_deposits d @ [x]\<rparr>" and "d_Status x = DepositPending" and b: "db_books d"
  shows "db_books d'"
  by (rule db_books_step [OF b, where es = "[]" and ws = "[]" and ts = "[]" and ess = "[]"])
    (simp_all add: assms(1,2) DepositPending_def DepositConfirmed_def)

lemma market_books:
  assumes "d' = d\<lparr>db_orders := db_orders d @ [x]\<rparr>" and b: "db_books d"
  shows "db_books d'"
  by (rule db_books_step [OF b, where es = "[]" and ws = "[]" and ts = "[]" and ess = "[]"]) (simp_all add: assms(1))

lemma list_all2_origin: "list_all2 P xs ys \<Longrightarrow> y \<in> set ys \<Longrightarrow> \<exists>x \<in> set xs. P x y"
  by (induction rule: list_all2_induct) auto

lemma trade_entries_booked:
  assumes sc: "scans_decimals (dp_scan dp)" and s: "SplitSymbol (t_Symbol tr) = Inr (base, quote)" and q: "num_row (tc_Quantity cmd) = Inr q"
    and es: "list_all2 posted (trade_entries dp cmd (t_BuyUserID tr) (t_SellUserID tr) base quote bb bq sb sq (t_ID tr) now) es"
  shows "trade_booked es (trade_row tr p q)" and "\<forall>e \<in> set es. le_EntryType e = EntryTypeTrade"
proof -
  let ?m = "num_Mul (dp_scan dp) (tc_Price cmd) (tc_Quantity cmd)"
  obtain i1 i2 i3 i4 x2 x3 x4 where e: "es =
    [ledger_row ((newEntry (t_BuyUserID tr) bb base (tc_Quantity cmd) (t_ID tr) now)\<lparr>le_ID := i1\<rparr>) q,
     ledger_row ((newEntry (t_BuyUserID tr) bq quote (num_Neg (dp_scan dp) ?m) (t_ID tr) now)\<lparr>le_ID := i2\<rparr>) x2,
     ledger_row ((newEntry (t_SellUserID tr) sb base (num_Neg (dp_scan dp) (tc_Quantity cmd)) (t_ID tr) now)\<lparr>le_ID := i3\<rparr>) x3,
     ledger_row ((newEntry (t_SellUserID tr) sq quote ?m (t_ID tr) now)\<lparr>le_ID := i4\<rparr>) x4]"
    and x: "num_row (num_Neg (dp_scan dp) ?m) = Inr x2" "num_row (num_Neg (dp_scan dp) (tc_Quantity cmd)) = Inr x3" "num_row ?m = Inr x4"
    using es q by (auto simp: trade_entries_def posted_def list_all2_Cons1)
  have x4: "x4 = QNum (dec_units (toRat ?m))" using num_row_plainD [OF num_op_plain(1) [OF sc] x(3)] .
  have x2: "x2 = QNum (- dec_units (toRat ?m))" using neg_row [OF sc _ x(1)] x(3) x4 by simp
  have x3: "x3 = QNum (- k)" if "q = QNum k" for k using neg_row [OF sc _ x(2)] q that by simp
  show "trade_booked es (trade_row tr p q)"
    unfolding trade_booked_def using s x2 x3 x4
    by (intro exI [of _ base] exI [of _ quote] exI [of _ "dec_units (toRat ?m)"])
      (simp add: e trade_row_def newEntry_def numeral_Bit0)
  show "\<forall>e \<in> set es. le_EntryType e = EntryTypeTrade" by (simp add: e)
qed

lemma trade_books:
  assumes dp: "deps_ok dp" and keys: "distinct (map o_ID (db_orders d))"
    and buy: "buy \<in> set (db_orders d)" "\<not> IsTerminal (o_Status buy)" and sell: "sell \<in> set (db_orders d)" "\<not> IsTerminal (o_Status sell)"
    and m: "made_trade cmd (o_UserID buy) (o_UserID sell) tr" and c: "trade_change dp cmd buy sell tr d d'" and b: "db_books d"
  shows "db_books d'"
proof -
  obtain base quote bb bq sb sq es p q rows1 rows2 ik ev where
    s: "SplitSymbol (tc_Symbol cmd) = Inr (base, quote)" and
    es: "list_all2 posted (trade_entries dp cmd (o_UserID buy) (o_UserID sell) base quote bb bq sb sq (t_ID tr) (t_CreatedAt tr)) es" and
    q: "num_row (tc_Quantity cmd) = Inr q" and
    r1: "list_all2 (filled_row dp (scanOrder dp buy) (tc_Quantity cmd)) (db_orders d) rows1" and
    r2: "list_all2 (filled_row dp (scanOrder dp sell) (tc_Quantity cmd)) rows1 rows2" and
    d': "d' = d\<lparr>db_idem := db_idem d @ [ik], db_trades := db_trades d @ [trade_row tr p q], db_ledger := db_ledger d @ es,
               db_orders := rows2, db_outbox := db_outbox d @ [ev]\<rparr>"
    using c unfolding trade_change_def by blast
  have only: "x = y" if "x \<in> set (db_orders d)" "y \<in> set (db_orders d)" "o_ID x = o_ID y" for x y
    using keys that by (simp add: distinct_map inj_on_def)
  have live: "o_Status buy \<noteq> StatusCancelled" "o_Status sell \<noteq> StatusCancelled" using buy(2) sell(2) by (auto simp: IsTerminal_def)
  have c1: "list_all2 same_cancel (db_orders d) rows1"
  proof (rule filled_same_cancel [OF r1])
    fix r assume "r \<in> set (db_orders d)" "o_ID r = o_ID (scanOrder dp buy)"
    then have "r = buy" by (intro only [OF _ buy(1)]) simp_all
    then show "o_Status r \<noteq> StatusCancelled" using live(1) by simp
  qed
  have "o_Status r \<noteq> StatusCancelled" if r: "r \<in> set rows1" "o_ID r = o_ID sell" for r
  proof -
    obtain x where x: "x \<in> set (db_orders d)" "same_cancel x r"
      using list_all2_origin [OF c1 r(1)] by blast
    then have "o_ID x = o_ID sell" using r(2) by (simp add: same_cancel_def order_key_def)
    then have "x = sell" by (rule only [OF x(1) sell(1)])
    then show ?thesis using x(2) live(2) by (simp add: same_cancel_def)
  qed
  then have c2: "list_all2 same_cancel rows1 rows2" by (intro filled_same_cancel [OF r2]) simp
  note o = same_cancel_rows [OF c1] same_cancel_rows [OF c2]
  have f: "t_Symbol tr = tc_Symbol cmd" "t_BuyUserID tr = o_UserID buy" "t_SellUserID tr = o_UserID sell" using m by (simp_all add: made_trade_def)
  note e = trade_entries_booked [OF deps_okD(1) [OF dp], of tr, unfolded f, OF s q es]
  have "filter (\<lambda>e. le_EntryType e = EntryTypeTrade) es = concat [es]" "\<And>ty. ty \<noteq> EntryTypeTrade \<Longrightarrow> filter (\<lambda>e. le_EntryType e = ty) es = []"
    using e(2) by (auto simp: filter_empty_conv filter_id_conv)
  note fs = this
  show ?thesis
  proof (rule db_books_step [OF b, where es = es and ws = "[]" and ts = "[trade_row tr p q]" and ess = "[es]"])
    show "filter (\<lambda>e. le_EntryType e = EntryTypeTrade) es = concat [es]" by (rule fs(1))
    show "list_all2 trade_booked [es] [trade_row tr p q]" using e(1) by simp
  qed (simp_all add: d' o fs(2) del: mset_map mset_filter)
qed

subsection \<open>The services keep the books\<close>

definition books_kept :: "db \<Rightarrow> db \<Rightarrow> bool" where
  "books_kept d d' \<longleftrightarrow> (db_keys d \<and> db_books d \<longrightarrow> db_keys d' \<and> db_books d')"

text \<open>What a call that commits does to a database whose keys are unique, and that those stay so.\<close>

lemma evolves_keyed:
  assumes "evolves no_tx (\<lambda>d d'. db_keys d \<longrightarrow> db_keys d') m" and "evolves no_tx any_db m" and "atomic m" and "\<And>d. Q d d"
    and "\<And>w a w'. m w = (Inr a, w') \<Longrightarrow> db_keys (w_db w) \<Longrightarrow> Q (w_db w) (w_db w')"
  shows "evolves no_tx (\<lambda>d d'. db_keys d \<longrightarrow> db_keys d' \<and> Q d d') m"
proof -
  have "evolves no_tx (\<lambda>d d'. db_keys d \<longrightarrow> Q d d') m"
    by (rule evolves_by_effect [OF assms(2,3)]) (use assms(4,5) in blast)+
  from evolves_conj [OF assms(1) this] show ?thesis by (rule evolves_imp) simp
qed

lemma evolves_books_kept:
  assumes "evolves no_tx (\<lambda>d d'. db_keys d \<longrightarrow> db_keys d') m" and "evolves no_tx any_db m" and "atomic m"
    and "\<And>w a w'. m w = (Inr a, w') \<Longrightarrow> db_keys (w_db w) \<Longrightarrow> db_books (w_db w) \<Longrightarrow> db_books (w_db w')"
  shows "evolves no_tx books_kept m"
  by (rule evolves_imp [OF evolves_keyed [OF assms(1-3), of "\<lambda>d d'. db_books d \<longrightarrow> db_books d'"]])
    (use assms(4) in \<open>auto simp: books_kept_def\<close>)

lemmas keyed_calls =
  evolves_keyed [OF keys.calls.place_commit [OF TrueI] closed_calls(1)]
  evolves_keyed [OF keys.calls.cancel_order [OF TrueI] closed_calls(2)]
  evolves_keyed [OF keys.calls.execute_trade [OF TrueI] closed_calls(3)]
  evolves_keyed [OF keys.calls.market_order [OF TrueI] closed_calls(4)]
  evolves_keyed [OF keys.calls.intake closed_calls(5)]
  evolves_keyed [OF keys.calls.confirm [OF TrueI] closed_calls(6)]
  evolves_keyed [OF keys.calls.reject [OF TrueI] closed_calls(7)]
  evolves_keyed [OF keys.calls.withdraw_commit [OF TrueI] closed_calls(8)]

lemma evolves_same_books:
  assumes "evolves no_tx (\<lambda>d d'. db_keys d \<longrightarrow> db_keys d') m" and "evolves no_tx any_db m" and "evolves (working same_books) same_books m"
  shows "evolves no_tx books_kept m"
  using evolves_conj [OF assms(1) evolves_closed [OF assms(3,2)]]
  by (rule evolves_imp) (auto simp: books_kept_def intro: same_books_kept)

lemma key_parts: "db_keys d \<Longrightarrow> distinct (map o_ID (db_orders d)) \<and> distinct (map d_ID (db_deposits d))"
  by (simp add: db_keys_def)

lemma deposits_by_id_hd: "deposits_by_id i d = r # rs \<Longrightarrow> r \<in> set (db_deposits d)"
proof -
  assume "deposits_by_id i d = r # rs"
  then have "r \<in> set (deposits_by_id i d)" by simp
  then show ?thesis by (simp add: deposits_by_id_def)
qed

lemma atomic_place_tx: "atomic (in_tx pre (place_tx dp cmd acct asset amt))"
  unfolding place_tx_def Let_def by (intro atomic_cases atomic_bind atomic_in_tx atomic_commit_bind quiet_atomic frame after_commit)

lemma atomic_withdraw_tx: "atomic (in_tx pre (withdraw_tx dp wc n acct))"
  unfolding withdraw_tx_def Let_def by (intro atomic_in_tx atomic_bind atomic_commit_bind frame after_commit)

lemma place_commit_books:
  assumes "in_tx pre (place_tx dp cmd acct asset amt) w = (Inr o1, w')" and b: "db_books (w_db w)"
  shows "db_books (w_db w')"
proof -
  obtain w1 where run: "place_tx dp cmd acct asset amt ((tick w)\<lparr>w_tx := Some (w_db w), w_abort := False\<rparr>) = (Inr o1, w1)" and w': "w' = Rollback w1"
    using assms(1) unfolding in_tx_Inr by blast
  note eff = place_tx_effect [OF run, of "w_db w"]
  obtain ik i p q fq x ev where "w_db w1 = (w_db w)\<lparr>db_idem := db_idem (w_db w) @ [ik], db_orders := db_orders (w_db w) @ [order_row o1 p q fq],
      db_ledger := db_ledger (w_db w) @ [ledger_row (reserve_entry dp o1 i acct asset amt) x], db_outbox := db_outbox (w_db w) @ [ev]\<rparr>"
    using eff by auto
  moreover have "o_Status o1 = StatusOpen" using eff by (simp add: placed_order_def)
  ultimately have "db_books (w_db w1)" using b by (rule place_books)
  then show ?thesis by (simp add: w')
qed

lemma order_effects:
  "in_tx pre (place_tx dp cmd acct asset amt) w = (Inr o1, w') \<Longrightarrow> db_books (w_db w) \<Longrightarrow> db_books (w_db w')"
  "CancelOrder dp i w = (Inr o1, w') \<Longrightarrow> db_keys (w_db w) \<Longrightarrow> db_books (w_db w) \<Longrightarrow> db_books (w_db w')"
proof -
  show "in_tx pre (place_tx dp cmd acct asset amt) w = (Inr o1, w') \<Longrightarrow> db_books (w_db w) \<Longrightarrow> db_books (w_db w')"
    by (rule place_commit_books)
  assume run: "CancelOrder dp i w = (Inr o1, w')" and b: "db_keys (w_db w)" "db_books (w_db w)"
  obtain r rs where r: "orders_by_id i (w_db w) = r # rs" "IsCancellable (o_Status r)" "cancel_change dp r (w_db w) (w_db w')"
    using run by (rule CancelOrder_change)
  have "o_Status r \<noteq> StatusCancelled" using r(2) by (auto simp: IsCancellable_def StatusOpen_def StatusPartial_def StatusCancelled_def)
  then show "db_books (w_db w')" using cancel_books r(3) b orders_by_id_hd [OF r(1)] key_parts by blast
qed

lemma trade_effect:
  assumes "deps_ok dp" and run: "ExecuteTrade dp cmd w = (Inr tr, w')" and k: "db_keys (w_db w)" and b: "db_books (w_db w)"
  shows "db_books (w_db w')"
  using run
proof (rule ExecuteTrade_change)
  fix buy sell rs1 rs2
  assume a: "orders_by_id (tc_BuyOrderID cmd) (w_db w) = buy # rs1" "orders_by_id (tc_SellOrderID cmd) (w_db w) = sell # rs2"
    "\<not> IsTerminal (o_Status buy)" "\<not> IsTerminal (o_Status sell)" and c: "trade_change dp cmd buy sell tr (w_db w) (w_db w')"
    and m: "made_trade cmd (o_UserID buy) (o_UserID sell) tr"
  have keys: "distinct (map o_ID (db_orders (w_db w)))" using key_parts [OF k] by blast
  have "buy \<in> set (db_orders (w_db w))" "sell \<in> set (db_orders (w_db w))" using orders_by_id_hd a(1,2) by blast+
  from trade_books [OF assms(1) keys this(1) a(3) this(2) a(4) m c b] show ?thesis .
qed

lemma market_effect:
  assumes "deps_ok dp" and run: "persistMarketOrder dp u side sy p q w = (Inr i, w')" and b: "db_books (w_db w)"
  shows "db_books (w_db w')"
proof -
  let ?evt = "undefined\<lparr>tm_Symbol := sy, tm_Price := p, tm_Quantity := q\<rparr> :: trade_matched"
  have "persistMarketOrder dp u side (tm_Symbol ?evt) (tm_Price ?evt) (tm_Quantity ?evt) w = (Inr i, w')" using run by simp
  then show ?thesis by (rule persist_run [OF assms(1)]) (rule market_books [OF _ b])
qed

lemma funding_effects:
  "Intake cmd w = (Inr x, w') \<Longrightarrow> db_books (w_db w) \<Longrightarrow> db_books (w_db w')"
  "deps_ok dp \<Longrightarrow> Confirm dp i w = (Inr x, w') \<Longrightarrow> db_keys (w_db w) \<Longrightarrow> db_books (w_db w) \<Longrightarrow> db_books (w_db w')"
  "Reject dp i w = (Inr x, w') \<Longrightarrow> db_keys (w_db w) \<Longrightarrow> db_books (w_db w) \<Longrightarrow> db_books (w_db w')"
proof -
  assume b: "db_books (w_db w)"
  show "Intake cmd w = (Inr x, w') \<Longrightarrow> db_books (w_db w')"
    by (erule Intake_change, erule intake_books) (simp_all add: taken_deposit_def deposit_row_def b)
  assume k: "db_keys (w_db w)"
  then have keys: "distinct (map d_ID (db_deposits (w_db w)))" using key_parts by blast
  show "deps_ok dp \<Longrightarrow> Confirm dp i w = (Inr x, w') \<Longrightarrow> db_books (w_db w')"
    by (erule Confirm_change) (blast intro: confirm_books [OF _ keys] b deposits_by_id_hd)
  show "Reject dp i w = (Inr x, w') \<Longrightarrow> db_books (w_db w')"
    by (erule Reject_change) (blast intro: reject_books [OF keys] b deposits_by_id_hd)
qed

lemma withdraw_effect:
  assumes "deps_ok dp" and "in_tx pre (withdraw_tx dp cmd n acct) w = (Inr x, w')" and "db_books (w_db w)"
  shows "db_books (w_db w')"
proof -
  obtain w1 where run: "withdraw_tx dp cmd n acct ((tick w)\<lparr>w_tx := Some (w_db w), w_abort := False\<rparr>) = (Inr x, w1)" and w': "w' = Rollback w1"
    using assms(2) unfolding in_tx_Inr by blast
  then have "withdraw_change dp cmd x (w_db w) (w_db w1)" using withdraw_tx_effect [OF run, of "w_db w"] by auto
  from withdraw_books [OF assms(1) this assms(3)] show ?thesis by (simp add: w')
qed

interpretation books: service_contract books_kept deps_ok
proof unfold_locales
  show "books_kept d d" for d by (simp add: books_kept_def)
  show "books_kept a b \<Longrightarrow> books_kept b c \<Longrightarrow> books_kept a c" for a b c by (auto simp: books_kept_def)
  note k = keys.calls.place_commit [OF TrueI] keys.calls.cancel_order [OF TrueI] keys.calls.execute_trade [OF TrueI]
    keys.calls.market_order [OF TrueI] keys.calls.intake keys.calls.confirm [OF TrueI] keys.calls.reject [OF TrueI]
    keys.calls.withdraw_commit [OF TrueI] keys.calls.address keys.calls.sign_up keys.calls.delete_user keys.calls.batch
  show "evolves no_tx books_kept (in_tx pre (place_tx dp cmd acct asset amt))" for pre dp cmd acct asset amt
    by (rule evolves_books_kept [OF k(1) closed_calls(1) atomic_place_tx]) (rule order_effects(1))
  show "evolves no_tx books_kept (CancelOrder dp i)" for dp i
    by (rule evolves_books_kept [OF k(2) closed_calls(2) atomic_CancelOrder]) (rule order_effects(2))
  show "evolves no_tx books_kept (ExecuteTrade dp tc)" if "deps_ok dp" for dp tc
    by (rule evolves_books_kept [OF k(3) closed_calls(3) atomic_ExecuteTrade]) (rule trade_effect [OF that])
  show "evolves no_tx books_kept (persistMarketOrder dp u side sy p q)" if "deps_ok dp" for dp u side sy p q
    by (rule evolves_books_kept [OF k(4) closed_calls(4) atomic_persist]) (rule market_effect [OF that])
  show "evolves no_tx books_kept (Intake ic)" for ic
    by (rule evolves_books_kept [OF k(5) closed_calls(5) atomic_Intake]) (rule funding_effects(1))
  show "evolves no_tx books_kept (Confirm dp i)" if "deps_ok dp" for dp i
    by (rule evolves_books_kept [OF k(6) closed_calls(6) atomic_Confirm]) (rule funding_effects(2) [OF that])
  show "evolves no_tx books_kept (Reject dp i)" for dp i
    by (rule evolves_books_kept [OF k(7) closed_calls(7) atomic_Reject]) (rule funding_effects(3))
  show "evolves no_tx books_kept (in_tx pre (withdraw_tx dp wc n acct))" if "deps_ok dp" for pre dp wc n acct
    by (rule evolves_books_kept [OF k(8) closed_calls(8) atomic_withdraw_tx]) (rule withdraw_effect [OF that])
  show "evolves no_tx books_kept (GetOrCreateAddress rnd u asset net)" for rnd u asset net
    by (rule evolves_same_books [OF k(9) closed_calls(9) same.evolves_side(1)])
  show "evolves no_tx books_kept (CreateUser bc sv_provisioner uc)" for bc uc
    by (rule evolves_same_books [OF k(10) closed_calls(10) same.evolves_side(2)])
  show "evolves no_tx books_kept (DeleteUser i)" for i
    by (rule evolves_same_books [OF k(11) closed_calls(11) same.evolves_side(3)])
  show "evolves no_tx books_kept (processBatch pb)" for pb
    by (rule evolves_same_books [OF k(12) closed_batch same.evolves_side(4)])
qed

text \<open>The entries of the trades in an asset add up to zero, unless a NaN was traded.\<close>

lemma trade_booked_sum:
  assumes "trade_booked es t"
  shows "sql_sum (map le_Amount (filter (\<lambda>e. le_Asset e = a) es)) \<in> {QNum 0, QNaN}"
proof -
  obtain base quote x where t: "map le_Asset es = [base, quote, base, quote]" "le_Amount (es ! 1) = QNum (- x)" "le_Amount (es ! 3) = QNum x"
    "\<forall>k. t_Quantity t = QNum k \<longrightarrow> le_Amount (es ! 0) = QNum k \<and> le_Amount (es ! 2) = QNum (- k)"
    "t_Quantity t = QNaN \<longrightarrow> le_Amount (es ! 0) = QNaN"
    using assms unfolding trade_booked_def by (elim exE conjE) (rule that)
  obtain e0 e1 e2 e3 where es: "es = [e0, e1, e2, e3]" using t(1) by (auto simp: map_eq_Cons_conv)
  show ?thesis using t unfolding es by (cases "t_Quantity t") (auto simp: numeral_2_eq_2 numeral_3_eq_3)
qed

lemma trades_booked_sum:
  assumes "trades_booked d"
  shows "sql_sum (map le_Amount (filter (\<lambda>e. le_Asset e = a) (entries EntryTypeTrade d))) \<in> {QNum 0, QNaN}"
proof -
  obtain ess where e: "entries EntryTypeTrade d = concat ess" and b: "list_all2 trade_booked ess (db_trades d)"
    using assms by (auto simp: trades_booked_def)
  from b have "sql_sum (map le_Amount (filter (\<lambda>e. le_Asset e = a) (concat ess))) \<in> {QNum 0, QNaN}"
  proof (induction rule: list_all2_induct)
    case (Cons es ess t ts)
    then show ?case using trade_booked_sum [of es t a] by auto
  qed simp
  then show ?thesis by (simp add: e)
qed

subsection \<open>The books of every run\<close>

text \<open>
  C3. In every run of the exchange that starts with books that agree, an empty database for one, they agree: the WITHDRAW entries of
  the ledger are the debits of the withdrawals there are, one each and in order; the TRADE entries are four for each trade, the base
  against the quote and the buyer against the seller; the DEPOSIT entries are exactly the amounts of the confirmed deposits; each
  order has at most one RESERVE entry, each cancelled order at most one RELEASE entry, and no other order has one.
\<close>
theorem books_agree:
  assumes "exchange_run s w w'" and "w_tx w = None" and "deps_ok (wb_dp (sv_web s))" and "db_keys (w_db w)" and "db_books (w_db w)"
  shows "db_books (w_db w')"
  using books.run_within [OF assms(1-3)] assms(4,5) by (simp add: books_kept_def)

text \<open>A deposit of 1000 USD that was credited, and two orders that meet.\<close>

definition ex_ledgered :: db where
  "ex_ledgered = (ex_books StatusOpen)\<lparr>db_deposits := [\<lparr>d_ID = 9, d_UserID = 5, d_Asset = ''USD'', d_NetworkID = 1, d_Address = ''a'',
     d_Amount = QNum (1000 * 10 ^ 10), d_TxHash = ''t'', d_Status = DepositConfirmed, d_CreatedAt = 0, d_ConfirmedAt = Some 0\<rparr>]\<rparr>"

lemmas ex_ledgered_defs =
  ex_ledgered_def ex_books_def ex_market_def ex_funded_def ex_entry_def ex_account_def ex_order_def ex_sell_def empty_db_def

lemma ex_ledgered_ok: "db_keys ex_ledgered" "db_books ex_ledgered"
  by (simp_all add: key_simps ex_ledgered_defs booked_defs entries_def credit_key_def deposit_key_def EntryTypeWithdraw_def EntryTypeTrade_def
      EntryTypeDeposit_def EntryTypeReserve_def EntryTypeRelease_def StatusOpen_def StatusCancelled_def)

lemma ex_ledgered_smooth: "smooth (ex_world ex_ledgered)"
  using ex_books_smooth [of StatusOpen] by (simp add: smooth_def soon_def used_ids_def ex_ledgered_def ex_world_def)

lemma ex_ledgered_trade:
  assumes "plain_num price" and "toRat price = of_units (1 * 10 ^ 12)" and "plain_num qty" and "toRat qty = of_units (3 * 10 ^ 10)"
  shows "\<exists>tr w'. ExecuteTrade ref_deps (settle_cmd (ex_match seller) 7 12 price qty) (ex_world ex_ledgered) = (Inr tr, w')"
proof -
  have v: "toRat price = 100" "toRat qty = 3" using assms by (simp_all add: of_units_def)
  have n: "num_param qty = Some (PRat 3)" using num_param_plain [OF assms(3)] v by simp
  have u: "dec_units (3 :: rat) = 3 * 10 ^ 10" "dec_units (100 :: rat) = 100 * 10 ^ 10" "dec_units (300 :: rat) = 300 * 10 ^ 10"
    using dec_units_int [of 3] dec_units_int [of 100] dec_units_int [of 300] by simp_all
  have fl: "fillable i (num_param qty) (db_orders ex_ledgered)" for i
    by (simp add: ex_ledgered_defs fillable_def n Let_def u)
  have len: "length (match_key (ex_match seller)) \<le> 255"
    by (simp add: match_key_def ex_match_def ref_deps_def utoa.simps)
  show ?thesis
    by (rule ExecuteTrade_runs [OF deps_ok_ref_deps ex_ledgered_smooth, where buy = "ex_order StatusOpen" and sell = ex_sell
        and base = "''BTC''" and quote = "''USD''" and bb = 2 and bq = 1 and sb = 5 and sq = 4])
      (use fl len assms v u in \<open>simp_all add: ex_symbol IsTerminal_def ex_ledgered_defs account_of_def ex_match_def orders_distinct_def
        fits_def quote_units_def key_claimed_def StatusOpen_def StatusFilled_def StatusCancelled_def\<close>)
qed

lemma ex_server_parts: "wb_dp (sv_web ex_server) = ref_deps" "main_settlement (sv_cfg ex_server) = RealSettlement"
  by (simp_all add: ex_server_def ex_web_def main_settlement_def newSettlementProcessor_def IsSandbox_def EnvProduction_def EnvSandbox_def)

lemma ex_settlement_run:
  "\<exists>w'. exchange_run ex_server (ex_world ex_ledgered) w' \<and> length (db_trades (w_db w')) = 1"
proof -
  let ?e = "ex_match (dp_uuid_str ref_deps 6)" and ?w = "ex_world ex_ledgered"
  have bounds: "(0 :: int) < 1" "(1 :: int) < 10 ^ 15" "(12 :: nat) \<le> 100" "(0 :: int) < 3" "(3 :: int) < 10 ^ 15" "(10 :: nat) \<le> 100" by simp_all
  obtain price where p: "parse_f64 ref_deps (engine_amount (1 * 10 ^ 12)) = Inr price" "plain_num price" "toRat price = of_units (1 * 10 ^ 12)"
    by (rule parse_engine_amount [OF deps_ok_ref_deps bounds(1-3)])
  obtain qty where q: "parse_f64 ref_deps (engine_amount (3 * 10 ^ 10)) = Inr qty" "plain_num qty" "toRat qty = of_units (3 * 10 ^ 10)"
    by (rule parse_engine_amount [OF deps_ok_ref_deps bounds(4-6)])
  obtain tr w' where run: "ExecuteTrade ref_deps (settle_cmd ?e 7 12 price qty) ?w = (Inr tr, w')" using ex_ledgered_trade [OF p(2,3) q(2,3)] by blast
  have "settle ref_deps ?e ?w = snd (ExecuteTrade ref_deps (settle_cmd ?e 7 12 price qty) ?w)"
    by (rule settle_run) (simp_all only: ex_match_def trade_matched.simps p(1) q(1) deps_okD(4) [OF deps_ok_ref_deps])
  then have on: "OnTradeMatched ref_deps RealSettlement (TradeMatchedEvent ?e) ?w = w'"
    using run by (simp add: OnTradeMatched_def real_OnTradeMatched_def ex_not_partner) (simp add: ex_match_def ex_not_partner)
  have steps: "exchange_run ex_server ?w w'"
    using step_run [OF idle_run settlement [of ex_server ?w "TradeMatchedEvent ?e"]] by (simp only: ex_server_parts on)
  have "length (db_trades (w_db w')) = 1"
    using run by (rule ExecuteTrade_change) (auto simp: trade_change_def ex_ledgered_defs)
  then show ?thesis using steps by blast
qed

lemma books_agree_witness:
  "\<exists>w'. exchange_run ex_server (ex_world ex_ledgered) w' \<and> length (db_trades (w_db w')) = 1 \<and> db_books (w_db w')"
proof -
  obtain w' where run: "exchange_run ex_server (ex_world ex_ledgered) w'" "length (db_trades (w_db w')) = 1" using ex_settlement_run by blast
  have "db_books (w_db w')" by (rule books_agree [OF run(1)]) (simp_all add: ex_server_parts deps_ok_ref_deps ex_ledgered_ok)
  then show ?thesis using run by blast
qed

end
