(* ===== verification/Finality.thy ===== *)
theory Finality
  imports Books
begin

text \<open>
  What is settled stays settled: over any run of the exchange a FILLED or CANCELLED order and a CONFIRMED
  or REJECTED deposit keep their rows as they are. A second interpretation of \<open>service_contract\<close>.
\<close>

subsection \<open>Rows that are final\<close>

definition finals_kept :: "db \<Rightarrow> db \<Rightarrow> bool" where
  "finals_kept d d' \<longleftrightarrow>
     (\<forall>r \<in> set (db_orders d). IsTerminal (o_Status r) \<longrightarrow> r \<in> set (db_orders d')) \<and>
     (\<forall>x \<in> set (db_deposits d). d_Status x \<noteq> DepositPending \<longrightarrow> x \<in> set (db_deposits d'))"

definition final_kept :: "db \<Rightarrow> db \<Rightarrow> bool" where
  "final_kept d d' \<longleftrightarrow> (db_keys d \<longrightarrow> db_keys d' \<and> finals_kept d d')"

lemma finals_kept_refl: "finals_kept d d"
  by (simp add: finals_kept_def)

lemma finals_kept_trans: "finals_kept a b \<Longrightarrow> finals_kept b c \<Longrightarrow> finals_kept a c"
  by (auto simp: finals_kept_def)

text \<open>An update by the key leaves the other rows.\<close>

lemma update_rows_keeps:
  assumes "distinct (map key rows)" and "r \<in> set rows" and "x \<in> set rows" and "x \<noteq> r"
  shows "x \<in> set (update_rows (\<lambda>y. key y = key r) g rows)"
proof -
  have "key x \<noteq> key r" using assms by (auto simp: distinct_map inj_on_def)
  then show ?thesis using assms(3) unfolding update_rows_def by force
qed

lemma filled_keeps:
  assumes "list_all2 (filled_row dp o1 q) rows rows'" and "x \<in> set rows" and "o_ID x \<noteq> o_ID o1"
  shows "x \<in> set rows'"
  using assms by (induction rule: list_all2_induct) (auto simp: filled_row_def)

subsection \<open>The services keep them\<close>

lemma place_finals:
  assumes "in_tx pre (place_tx dp cmd acct asset amt) w = (Inr o1, w')"
  shows "finals_kept (w_db w) (w_db w')"
proof -
  obtain w1 where run: "place_tx dp cmd acct asset amt ((tick w)\<lparr>w_tx := Some (w_db w), w_abort := False\<rparr>) = (Inr o1, w1)" and w': "w' = Rollback w1"
    using assms(1) unfolding in_tx_Inr by blast
  show ?thesis using place_tx_effect [OF run, of "w_db w"] w' by (auto simp: finals_kept_def)
qed

lemma cancel_finals:
  assumes run: "CancelOrder dp i w = (Inr o1, w')" and k: "db_keys (w_db w)"
  shows "finals_kept (w_db w) (w_db w')"
proof -
  obtain r rs where r: "orders_by_id i (w_db w) = r # rs" "IsCancellable (o_Status r)" "cancel_change dp r (w_db w) (w_db w')"
    using run by (rule CancelOrder_change)
  obtain t where d': "db_orders (w_db w') = cancelled t (o_ID r) (db_orders (w_db w))" "db_deposits (w_db w') = db_deposits (w_db w)"
    using r(3) by (auto simp: cancel_change_def)
  have "\<not> IsTerminal (o_Status r)" using r(2) by (auto simp: IsCancellable_def IsTerminal_def StatusOpen_def StatusPartial_def StatusCancelled_def StatusFilled_def)
  then show ?thesis
    using update_rows_keeps [of o_ID, OF conjunct1 [OF key_parts [OF k]] conjunct1 [OF orders_by_id_hd [OF r(1)]]]
    by (auto simp: finals_kept_def d' cancelled_def)
qed

lemma trade_finals:
  assumes run: "ExecuteTrade dp cmd w = (Inr tr, w')" and k: "db_keys (w_db w)"
  shows "finals_kept (w_db w) (w_db w')"
  using run
proof (rule ExecuteTrade_change)
  fix buy sell rs1 rs2
  assume a: "orders_by_id (tc_BuyOrderID cmd) (w_db w) = buy # rs1" "orders_by_id (tc_SellOrderID cmd) (w_db w) = sell # rs2"
    "\<not> IsTerminal (o_Status buy)" "\<not> IsTerminal (o_Status sell)" and c: "trade_change dp cmd buy sell tr (w_db w) (w_db w')"
  obtain rows1 where r: "list_all2 (filled_row dp (scanOrder dp buy) (tc_Quantity cmd)) (db_orders (w_db w)) rows1"
    "list_all2 (filled_row dp (scanOrder dp sell) (tc_Quantity cmd)) rows1 (db_orders (w_db w'))" "db_deposits (w_db w') = db_deposits (w_db w)"
    using c by (auto simp: trade_change_def)
  have "x \<in> set (db_orders (w_db w'))" if x: "x \<in> set (db_orders (w_db w))" "IsTerminal (o_Status x)" for x
  proof -
    have "o_ID x \<noteq> o_ID y" if "y \<in> set (db_orders (w_db w))" "\<not> IsTerminal (o_Status y)" for y
    proof
      assume "o_ID x = o_ID y"
      then have "x = y" using conjunct1 [OF key_parts [OF k]] x(1) that(1) by (auto simp: distinct_map inj_on_def)
      then show False using x(2) that(2) by blast
    qed
    from this [OF conjunct1 [OF orders_by_id_hd [OF a(1)]] a(3)] this [OF conjunct1 [OF orders_by_id_hd [OF a(2)]] a(4)]
    show ?thesis using filled_keeps [OF r(2) filled_keeps [OF r(1) x(1)]] by simp
  qed
  then show ?thesis by (simp add: finals_kept_def r(3))
qed

lemma market_finals:
  assumes "deps_ok dp" and run: "persistMarketOrder dp u side sy p q w = (Inr i, w')"
  shows "finals_kept (w_db w) (w_db w')"
proof -
  let ?evt = "undefined\<lparr>tm_Symbol := sy, tm_Price := p, tm_Quantity := q\<rparr> :: trade_matched"
  have "persistMarketOrder dp u side (tm_Symbol ?evt) (tm_Price ?evt) (tm_Quantity ?evt) w = (Inr i, w')" using run by simp
  then show ?thesis by (rule persist_run [OF assms(1)]) (simp add: finals_kept_def)
qed

lemma settled_finals:
  assumes "distinct (map d_ID (db_deposits d))" and "r \<in> set (db_deposits d)" and "d_Status r = DepositPending"
    and "db_deposits d' = settled st t (d_ID r) (db_deposits d)" and "db_orders d' = db_orders d"
  shows "finals_kept d d'"
  using update_rows_keeps [of d_ID, OF assms(1,2)] assms(3-5) by (auto simp: finals_kept_def settled_def)

lemma funding_finals:
  "Intake cmd w = (Inr x, w') \<Longrightarrow> finals_kept (w_db w) (w_db w')"
  "Confirm dp i w = (Inr x, w') \<Longrightarrow> db_keys (w_db w) \<Longrightarrow> finals_kept (w_db w) (w_db w')"
  "Reject dp i w = (Inr x, w') \<Longrightarrow> db_keys (w_db w) \<Longrightarrow> finals_kept (w_db w) (w_db w')"
proof -
  show "Intake cmd w = (Inr x, w') \<Longrightarrow> finals_kept (w_db w) (w_db w')" by (erule Intake_change) (simp add: finals_kept_def)
  assume k: "db_keys (w_db w)"
  note s = settled_finals [OF conjunct2 [OF key_parts [OF k]] deposits_by_id_hd]
  show "Confirm dp i w = (Inr x, w') \<Longrightarrow> finals_kept (w_db w) (w_db w')"
    by (erule Confirm_change, rule s) (auto simp: confirm_change_def)
  show "Reject dp i w = (Inr x, w') \<Longrightarrow> finals_kept (w_db w) (w_db w')"
    by (erule Reject_change, rule s) auto
qed

lemma withdraw_finals:
  assumes "in_tx pre (withdraw_tx dp cmd n acct) w = (Inr x, w')"
  shows "finals_kept (w_db w) (w_db w')"
proof -
  obtain w1 where run: "withdraw_tx dp cmd n acct ((tick w)\<lparr>w_tx := Some (w_db w), w_abort := False\<rparr>) = (Inr x, w1)" and w': "w' = Rollback w1"
    using assms unfolding in_tx_Inr by blast
  show ?thesis using withdraw_tx_effect [OF run, of "w_db w"] w' by (auto simp: finals_kept_def withdraw_change_def)
qed

lemma side_final_kept:
  assumes "evolves no_tx (\<lambda>d d'. db_keys d \<longrightarrow> db_keys d') m" and "evolves no_tx any_db m" and "evolves (working same_books) same_books m"
  shows "evolves no_tx final_kept m"
  using evolves_conj [OF assms(1) evolves_closed [OF assms(3,2)]]
  by (rule evolves_imp) (auto simp: final_kept_def finals_kept_def same_books_def)

lemma final_kept_eq: "(\<lambda>d d'. db_keys d \<longrightarrow> db_keys d' \<and> finals_kept d d') = final_kept"
  by (simp add: fun_eq_iff final_kept_def)

lemmas final_calls = keyed_calls [where Q = finals_kept, unfolded final_kept_eq, OF _ finals_kept_refl]

interpretation final: service_contract final_kept deps_ok
proof unfold_locales
  show "final_kept d d" for d by (simp add: final_kept_def finals_kept_refl)
  show "final_kept a b \<Longrightarrow> final_kept b c \<Longrightarrow> final_kept a c" for a b c by (auto simp: final_kept_def intro: finals_kept_trans)
  show "evolves no_tx final_kept (in_tx pre (place_tx dp cmd acct asset amt))" for pre dp cmd acct asset amt
    by (rule final_calls(1) [OF atomic_place_tx place_finals])
  show "evolves no_tx final_kept (CancelOrder dp i)" for dp i by (rule final_calls(2) [OF atomic_CancelOrder cancel_finals])
  show "evolves no_tx final_kept (ExecuteTrade dp tc)" for dp tc by (rule final_calls(3) [OF atomic_ExecuteTrade trade_finals])
  show "evolves no_tx final_kept (persistMarketOrder dp u side sy p q)" if "deps_ok dp" for dp u side sy p q
    by (rule final_calls(4) [OF atomic_persist market_finals [OF that]])
  show "evolves no_tx final_kept (Intake ic)" for ic by (rule final_calls(5) [OF atomic_Intake funding_finals(1)])
  show "evolves no_tx final_kept (Confirm dp i)" for dp i by (rule final_calls(6) [OF atomic_Confirm funding_finals(2)])
  show "evolves no_tx final_kept (Reject dp i)" for dp i by (rule final_calls(7) [OF atomic_Reject funding_finals(3)])
  show "evolves no_tx final_kept (in_tx pre (withdraw_tx dp wc n acct))" for pre dp wc n acct
    by (rule final_calls(8) [OF atomic_withdraw_tx withdraw_finals])
  show "evolves no_tx final_kept (GetOrCreateAddress rnd u asset net)" for rnd u asset net
    by (rule side_final_kept [OF keys.calls.address closed_calls(9) same.evolves_side(1)])
  show "evolves no_tx final_kept (CreateUser bc sv_provisioner uc)" for bc uc
    by (rule side_final_kept [OF keys.calls.sign_up closed_calls(10) same.evolves_side(2)])
  show "evolves no_tx final_kept (DeleteUser i)" for i
    by (rule side_final_kept [OF keys.calls.delete_user closed_calls(11) same.evolves_side(3)])
  show "evolves no_tx final_kept (processBatch pb)" for pb
    by (rule side_final_kept [OF keys.calls.batch closed_batch same.evolves_side(4)])
qed

subsection \<open>The invariant of every run\<close>

text \<open>
  C10. Over any run of the exchange from a database whose keys are unique, an order that is FILLED or CANCELLED and a deposit that is
  CONFIRMED or REJECTED is never touched again: its row is there at the end as it was, whatever requests, matches and faults came.
\<close>
theorem settled_stays:
  assumes "exchange_run s w w'" and "w_tx w = None" and "deps_ok (wb_dp (sv_web s))" and "db_keys (w_db w)"
  shows "(\<forall>r \<in> set (db_orders (w_db w)). IsTerminal (o_Status r) \<longrightarrow> r \<in> set (db_orders (w_db w'))) \<and>
    (\<forall>x \<in> set (db_deposits (w_db w)). d_Status x \<noteq> DepositPending \<longrightarrow> x \<in> set (db_deposits (w_db w')))"
  using final.run_within [OF assms(1-3)] assms(4) by (simp add: final_kept_def finals_kept_def)

lemma settled_stays_witness:
  "\<exists>w'. exchange_run ex_server (ex_world ex_ledgered) w' \<and> length (db_trades (w_db w')) = 1 \<and>
     hd (db_deposits ex_ledgered) \<in> set (db_deposits (w_db w'))"
proof -
  obtain w' where run: "exchange_run ex_server (ex_world ex_ledgered) w'" "length (db_trades (w_db w')) = 1" using ex_settlement_run by blast
  have "\<forall>x \<in> set (db_deposits (w_db (ex_world ex_ledgered))). d_Status x \<noteq> DepositPending \<longrightarrow> x \<in> set (db_deposits (w_db w'))"
    using settled_stays [OF run(1)] by (simp add: ex_server_parts deps_ok_ref_deps ex_ledgered_ok)
  then have "hd (db_deposits ex_ledgered) \<in> set (db_deposits (w_db w'))"
    by (simp add: ex_ledgered_def DepositConfirmed_def DepositPending_def)
  then show ?thesis using run by blast
qed

end
