(* ===== verification/Races.thy ===== *)
theory Races
  imports Funding
begin

text \<open>
  Overlapping calls. \<open>Withdraw\<close> reads the balance before it begins its transaction, and nothing in the
  transaction looks at the balance again or locks what it was read from. So two withdrawals whose checks
  see the same balance both commit.
\<close>

subsection \<open>The two stages of a withdrawal\<close>











subsection \<open>An example: two withdrawals of 700 from a balance of 1000\<close>





end
