(* ===== verification/Submissions.thy ===== *)
theory Submissions
  imports Order_Cancel Format
begin

text \<open>
  What the order service submits to the engine: for a placement an order whose price and quantity, the
  numbers of the request as float64, are finite, whatever their sign; for a cancellation an order's ID.
  So its calls are steps of the engine with \<open>finite_command\<close> (Engine) and keep its books well-formed.
\<close>

subsection \<open>Actions that only submit\<close>

definition submitted :: "(command \<Rightarrow> bool) \<Rightarrow> engine option \<Rightarrow> engine option \<Rightarrow> bool" where
  "submitted P x y \<longleftrightarrow> (\<exists>cs. (\<forall>c \<in> set cs. P c) \<and> y = map_option (fold (\<lambda>c e. snd (Submit e c)) cs) x)"

definition submits :: "(command \<Rightarrow> bool) \<Rightarrow> ('e, 'a) act \<Rightarrow> world \<Rightarrow> bool" where
  "submits P m w \<longleftrightarrow> submitted P (w_engine w) (w_engine (snd (m w)))"

lemma submitted_refl [simp]: "submitted P x x"
  unfolding submitted_def by (rule exI [of _ "[]"]) (simp add: option.map_id)

lemma submitted_trans: "submitted P x y \<Longrightarrow> submitted P y z \<Longrightarrow> submitted P x z"
proof -
  assume "submitted P x y" and "submitted P y z"
  then obtain cs cs' where "\<forall>c \<in> set (cs @ cs'). P c" "y = map_option (fold (\<lambda>c e. snd (Submit e c)) cs) x"
    "z = map_option (fold (\<lambda>c e. snd (Submit e c)) cs') y"
    unfolding submitted_def by auto
  then show ?thesis unfolding submitted_def by (intro exI [of _ "cs @ cs'"]) (cases x; simp)
qed

lemma submits_quiet: "quiet m \<Longrightarrow> submits P m w"
  by (simp add: submits_def quiet_def same_store_def)

lemma submits_bindE:
  assumes "submits P m w" and "\<And>a w1. m w = (Inr a, w1) \<Longrightarrow> submits P (f a) w1"
  shows "submits P (bindE m f) w"
proof (cases "m w")
  case (Pair r w1)
  show ?thesis
  proof (cases r)
    case (Inl e)
    then show ?thesis using assms(1) Pair by (simp add: submits_def bindE_def)
  next
    case (Inr a)
    then have "submits P (f a) w1" using assms(2) Pair by blast
    then show ?thesis using assms(1) Pair Inr submitted_trans by (force simp: submits_def bindE_def)
  qed
qed

lemma submits_mapE: "submits P m w \<Longrightarrow> submits P (mapE g m) w"
  by (cases "m w") (auto simp: submits_def mapE_def split: sum.splits)

lemma submits_wrapE: "submits P m w \<Longrightarrow> submits P (wrapE pre m) w"
  by (simp add: wrapE_def submits_mapE)

lemma submits_tryE: "submits P m w \<Longrightarrow> submits P (tryE m) w"
  by (cases "m w") (simp add: submits_def tryE_def)

lemmas submits_same = submits_mapE submits_wrapE submits_tryE

lemma submits_cases:
  "(c \<Longrightarrow> submits P m w) \<Longrightarrow> (\<not> c \<Longrightarrow> submits P m' w) \<Longrightarrow> submits P (if c then m else m') w"
  "(\<And>a b. p = (a, b) \<Longrightarrow> submits P (k a b) w) \<Longrightarrow> submits P (case p of (a, b) \<Rightarrow> k a b) w"
  by (auto split: prod.splits)

lemma submits_commit: "submits P (commit_tx pre) w"
proof -
  have "submits P Commit w" by (simp add: submits_def Commit_def split: option.splits)
  then show ?thesis unfolding commit_tx_def by (intro submits_same)
qed

lemma submits_in_tx: "(\<And>w1. submits P body w1) \<Longrightarrow> submits P (in_tx pre body) w"
proof -
  assume b: "\<And>w1. submits P body w1"
  have c: "submits P (\<lambda>w. case body w of (r, w') \<Rightarrow> (r, Rollback w')) w1" for w1
    using b [of w1] by (cases "body w1") (simp add: submits_def)
  show ?thesis unfolding in_tx_def with_tx_def by (rule submits_bindE [OF submits_quiet c]) (intro frame)
qed

lemma submits_SubmitPlace:
  assumes "\<And>t. P \<lparr>cmd_Kind = CommandPlaceOrder,
       cmd_Order = Some \<lparr>eo_ID = oid, eo_UserID = uid, eo_Symbol = sy, eo_Side = side, eo_Price = price, eo_Quantity = qty,
         eo_Remaining = qty, eo_Timestamp = t\<rparr>, cmd_Cancel = None\<rparr>"
  shows "submits P (SubmitPlace oid uid sy side price qty) w"
proof (cases "w_engine w")
  case (Some e)
  let ?c = "\<lparr>cmd_Kind = CommandPlaceOrder,
       cmd_Order = Some \<lparr>eo_ID = oid, eo_UserID = uid, eo_Symbol = sy, eo_Side = side, eo_Price = price, eo_Quantity = qty,
         eo_Remaining = qty, eo_Timestamp = e_now (w_env w) (w_tick w)\<rparr>, cmd_Cancel = None\<rparr>"
  have "w_engine (snd (SubmitPlace oid uid sy side price qty w)) = Some (snd (Submit e ?c))"
    using Some by (simp add: SubmitPlace_def Let_def split: prod.splits option.splits)
  then show ?thesis using assms Some unfolding submits_def submitted_def by (intro exI [of _ "[?c]"]) simp
qed (simp add: submits_def SubmitPlace_def)

lemma submits_SubmitCancel:
  assumes "P \<lparr>cmd_Kind = CommandCancelOrder, cmd_Order = None, cmd_Cancel = Some \<lparr>ci_OrderID = oid, ci_Symbol = sy\<rparr>\<rparr>"
  shows "submits P (SubmitCancel oid sy) w"
proof (cases "w_engine w")
  case (Some e)
  let ?c = "\<lparr>cmd_Kind = CommandCancelOrder, cmd_Order = None, cmd_Cancel = Some \<lparr>ci_OrderID = oid, ci_Symbol = sy\<rparr>\<rparr>"
  have "w_engine (snd (SubmitCancel oid sy w)) = Some (snd (Submit e ?c))"
    using Some by (simp add: SubmitCancel_def split: prod.splits option.splits)
  then show ?thesis using assms Some unfolding submits_def submitted_def by (intro exI [of _ "[?c]"]) simp
qed (simp add: submits_def SubmitCancel_def)

lemmas submits_rules = submits_bindE submits_same submits_cases submits_commit submits_in_tx

subsection \<open>The numbers of an order as float64\<close>

lemma decimal_finite:
  assumes "\<bar>m\<bar> < 10 ^ 30"
  shows "finite_f64 (f64_of_decimal m (- 10))" and "is_f64 (f64_of_decimal m (- 10))"
proof -
  have pos: "\<exists>j. f64_of_decimal n (- 10) = FFin j" if "0 \<le> n" "n < 10 ^ 30" for n
  proof (cases "n = 0")
    case True
    then show ?thesis by (simp add: f64_of_decimal_def mk_f64_def round53_def div_half_even_def sig_shift_small Let_def)
  next
    case False
    have "n < 10 ^ 115" using that(2) by simp
    moreover have "(10 :: int) ^ 10 = 10000000000" by simp
    ultimately show ?thesis using units_finite [of n] that(1) False by (simp add: f64_of_decimal_def del: power_numeral)
  qed
  have "\<exists>j. f64_of_decimal m (- 10) = FFin j"
  proof (cases "0 \<le> m")
    case True
    then show ?thesis using pos assms by simp
  next
    case False
    then obtain j where "f64_of_decimal (- m) (- 10) = FFin j" using pos [of "- m"] assms by auto
    then show ?thesis using f64_of_decimal_minus [of "- m" "- 10" j] by auto
  qed
  then show "finite_f64 (f64_of_decimal m (- 10))" by auto
  show "is_f64 (f64_of_decimal m (- 10))" by (simp add: f64_of_decimal_def is_f64_mk_gen del: power_numeral)
qed

lemma ParseFloat_text_finite:
  assumes "\<bar>dec_units r\<bar> < 10 ^ 30"
  shows "finite_f64 (fst (ParseFloat (float_string r 10)))" and "is_f64 (fst (ParseFloat (float_string r 10)))"
proof -
  let ?u = "nat \<bar>dec_units r\<bar>"
  let ?ip = "utoa (?u div 10 ^ 10)" and ?fp = "pad_digits 10 (?u mod 10 ^ 10)"
  have d: "list_all is_digit ?ip" "?ip \<noteq> []" "list_all is_digit ?fp"
    using utoa_digits pad_digits_digits by (auto simp: list_all_iff)
  have m: "\<bar>int (atou (?ip @ ?fp))\<bar> < 10 ^ 30" using assms by (simp add: atou_append atou_pad_digits)
  have "fst (ParseFloat (float_string r 10)) =
      f64_of_decimal (if r < 0 then - int (atou (?ip @ ?fp)) else int (atou (?ip @ ?fp))) (- 10)"
    unfolding float_string_text ParseFloat_decimal [OF d] by (simp add: Let_def)
  then show "finite_f64 (fst (ParseFloat (float_string r 10)))" "is_f64 (fst (ParseFloat (float_string r 10)))"
    using decimal_finite [of "if r < 0 then - int (atou (?ip @ ?fp)) else int (atou (?ip @ ?fp))"] m by auto
qed

text \<open>A number the column takes; a NaN has no coefficient, as pgx reads it.\<close>

lemma stored_finite:
  assumes "num_row n = Inr q" and "num_NaN n \<longrightarrow> num_Int n = None"
  shows "finite_f64 (fst (ParseFloat (num_String n)))" and "is_f64 (fst (ParseFloat (num_String n)))"
proof -
  have v: "num_Valid n" using assms(1) by (auto simp: num_row_def num_param_def split: if_splits)
  have "\<bar>dec_units (toRat n)\<bar> < 10 ^ 30"
    using assms by (auto simp: num_row_def num_param_def toRat_def Let_def split: if_splits)
  then show "finite_f64 (fst (ParseFloat (num_String n)))" "is_f64 (fst (ParseFloat (num_String n)))"
    using ParseFloat_text_finite v by (simp_all add: num_String_def Scale_def)
qed

subsection \<open>The calls of the service\<close>

text \<open>
  Whatever becomes of a placement, the engine afterwards is the engine before with commands
  submitted whose orders have a finite price and quantity; the sign is not checked.
\<close>
theorem PlaceOrder_submits:
  assumes "num_NaN (po_Price cmd) \<longrightarrow> num_Int (po_Price cmd) = None" and "num_NaN (po_Quantity cmd) \<longrightarrow> num_Int (po_Quantity cmd) = None"
  shows "submitted finite_command (w_engine w) (w_engine (snd (PlaceOrder dp markets cmd w)))"
proof -
  let ?price = "fst (ParseFloat (num_String (po_Price cmd)))" and ?qty = "fst (ParseFloat (num_String (po_Quantity cmd)))"
  have sp: "submits finite_command (SubmitPlace oid uid sy side ?price ?qty) v"
    if row: "wrapE pre (orderStore_Create o1) w1 = (Inr u, w2)" "o_Price o1 = po_Price cmd" "o_Quantity o1 = po_Quantity cmd"
    for oid uid sy side v pre o1 w1 u w2
  proof -
    obtain p q where "num_row (po_Price cmd) = Inr p" "num_row (po_Quantity cmd) = Inr q"
      using row by (auto simp: wrapE_Inr orderStore_Create_def mapE_Inr tx_exec_Inr insert_order_Inr)
    then have "finite_f64 ?price" "finite_f64 ?qty" "is_f64 ?qty"
      using stored_finite [OF _ assms(1)] stored_finite [OF _ assms(2)] by blast+
    then show ?thesis by (intro submits_SubmitPlace) (simp add: finite_order_def)
  qed
  have tx: "submits finite_command (place_tx dp cmd acct asset amt) v" for acct asset amt v
    unfolding place_tx_def Let_def
    by (intro submits_rules; (rule submits_quiet, intro frame)?) (erule sp, simp, simp)
  have "submits finite_command (PlaceOrder dp markets cmd) w"
    unfolding PlaceOrder_def by (intro submits_rules tx; (rule submits_quiet, intro frame)?)
  then show ?thesis by (simp add: submits_def)
qed

theorem CancelOrder_submits:
  "submitted finite_command (w_engine w) (w_engine (snd (CancelOrder dp i w)))"
proof -
  have "submits finite_command (CancelOrder dp i) w"
    unfolding CancelOrder_def release_tx_def Let_def
    by (intro submits_rules submits_SubmitCancel; (rule submits_quiet, intro frame)?) simp
  then show ?thesis by (simp add: submits_def)
qed

text \<open>So both calls are runs of the engine in the sense of \<open>engine_invariant\<close>.\<close>

lemma submitted_reachable:
  assumes "submitted P (Some e) (Some e')"
  shows "engine_reachable P (e, lg) (e', lg)"
proof -
  obtain cs where cs: "\<forall>c \<in> set cs. P c" "e' = fold (\<lambda>c e. snd (Submit e c)) cs e"
    using assms unfolding submitted_def by auto
  have "engine_reachable P x (e1, lg) \<Longrightarrow> \<forall>c \<in> set cs. P c \<Longrightarrow>
      engine_reachable P x (fold (\<lambda>c e. snd (Submit e c)) cs e1, lg)" for x e1
    by (induction cs arbitrary: e1) (auto intro: engine_reachable.step engine_step.submit)
  then show ?thesis using cs engine_reachable.refl by blast
qed

lemma submitted_ok:
  assumes "submitted finite_command (Some e) y" and "engine_ok e"
  shows "\<exists>e'. y = Some e' \<and> engine_ok e'"
proof -
  obtain cs where "\<forall>c \<in> set cs. finite_command c" "y = Some (fold (\<lambda>c e. snd (Submit e c)) cs e)"
    using assms(1) unfolding submitted_def by auto
  moreover have "\<forall>c \<in> set cs. finite_command c \<Longrightarrow> engine_ok e1 \<Longrightarrow> engine_ok (fold (\<lambda>c e. snd (Submit e c)) cs e1)" for e1
    by (induction cs arbitrary: e1) (auto intro: Submit_ok simp del: finite_command.simps)
  ultimately show ?thesis using assms(2) by blast
qed

end
