(* ===== verification/Spec2Isabelle.thy ===== *)
theory Spec2Isabelle
  imports Deps Book_Properties Engine Outbox Order_Cancel Trade_Theorems Rehydration Settlement_Properties Marketdata_Theorems
    Marketfeed_Properties Partnerfeed_Properties Klines Wsfeed_Properties Legacy_Properties Finality Races Submissions
begin

text \<open>
  mynance, a simulated exchange in Go: users hold asset accounts whose balances are sums of ledger
  entries, place and cancel orders, an in-memory engine matches them, and trades, deposits and
  withdrawals post further entries.

  Foundations.
  \<^item> \<open>Prelude\<close>, \<open>Float64\<close>, \<open>Strconv\<close>: time, UUIDs, rounding and decimal text; IEEE double arithmetic as
    integers of units in the last place; \<open>strconv.ParseFloat\<close>. \<open>Format\<close>: \<open>strconv.FormatFloat\<close>, that \<open>ParseFloat\<close>
    reads back what it prints, and which decimal amounts survive the way through a float64.
  \<^item> \<open>Shared\<close>, \<open>Numeric\<close>: internal/shared (errors, responses, pagination) and pkg/numeric over a
    parameter for the scanner of pgx.
  \<^item> \<open>Domain\<close>, \<open>Database\<close>, \<open>Deps\<close>, \<open>Frames\<close>: the structs and table rows, the world a service call runs in
    (committed database, open transaction, engine, environment), the actions on it, the third-party
    functions as one parameter, and the calculus of the proofs: inversion of a successful call,
    \<open>quiet\<close> and \<open>atomic\<close> actions.

  Components, each a group of definitions named after the Go functions.
  \<^item> \<open>Book\<close>, \<open>Book_Spec\<close>, \<open>Book_Invariant\<close>, \<open>Book_Properties\<close>: internal/engine/book.go. The matcher refines a
    reference matcher on the flattened queue (price, then time), keeps the book's invariant, conserves
    quantity.
  \<^item> \<open>Eventbus\<close>, \<open>Engine\<close>: internal/eventbus and internal/engine/engine.go, the shards and their
    workers as a step relation. Over all reachable states, whatever is submitted: commands are routed to
    their symbol's shard, channels keep within their capacity, trades are numbered without gap; and the
    books stay well-formed as long as the submitted prices and quantities are finite, of either sign.
    \<open>Submissions\<close>: those of the order service are.
  \<^item> \<open>Ledger\<close>, \<open>Idempotency\<close>, \<open>Outbox\<close>, \<open>Outbox_Loop\<close>, \<open>Asset\<close>, \<open>Account\<close>: the stores and services of the
    same names; the loop of the publisher drains the outbox unless its oldest events are refused.
    \<open>Ledger\<close> holds the interface \<open>ledger_contract\<close> the clients of a balance rely on, interpreted on the
    model's own functions.
  \<^item> \<open>Order\<close>, \<open>Order_Properties\<close>, \<open>Order_Lifecycle\<close>, \<open>Order_Cancel\<close>: internal/order with the engine adapter
    of cmd/server/main.go.
  \<^item> \<open>Trade\<close>, \<open>Trade_Properties\<close>, \<open>Forward\<close>, \<open>Trade_Runs\<close>, \<open>Trade_Theorems\<close>: internal/trade.
  \<^item> \<open>Settlement\<close>, \<open>Settlement_Properties\<close>: internal/engine/settlement.go and settlement_sandbox.go, the
    subscribers that execute a trade for a match. A match of two users is executed exactly when nothing
    prevents it and has no second effect; what a match with the partner leaves behind in the sandbox.
  \<^item> \<open>Marketdata\<close>, \<open>Marketdata_Properties\<close>, \<open>Marketdata_Theorems\<close>: internal/marketdata. Built from the events in
    order, the public book mirrors the engine's; out of order it need not.
  \<^item> \<open>Extjson\<close>, \<open>Marketfeed\<close>, \<open>Marketfeed_Properties\<close>: internal/marketfeed, the messages of Binance as JSON
    trees, the snapshots they leave, when a snapshot counts as stale, the back-off between connections.
  \<^item> \<open>Klines\<close>: internal/klines, a proxy for candles with a cache, over the HTTP client as a parameter.
  \<^item> \<open>Partnerfeed\<close>, \<open>Partnerfeed_Properties\<close>: internal/partnerfeed, the bot of the sandbox that quotes the
    external prices; the random numbers and the iteration order of a map are parameters.
  \<^item> \<open>Wsfeed\<close>, \<open>Wsfeed_Properties\<close>: internal/wsfeed, the hub of websocket clients. Its goroutines are the
    steps of a relation, the lock of the hub is a guard of its steps; no publisher sends on a closed channel.
  \<^item> \<open>Wallet\<close>, \<open>Wallet_Properties\<close>, \<open>Deposit\<close>, \<open>Deposit_Properties\<close>, \<open>Withdrawal\<close>, \<open>Withdrawal_Properties\<close>,
    \<open>Funding\<close>: internal/wallet, internal/deposit, internal/withdrawal: addresses, what a confirmation
    credits, that a withdrawal stays within the balance.
  \<^item> \<open>User\<close>, \<open>User_Properties\<close>: internal/user and pkg/crypto over bcrypt as a parameter.

  The web layer.
  \<^item> \<open>Timefmt\<close>, \<open>Config\<close>: RFC 3339 times and package strings; config/config.go over viper as a parameter.
  \<^item> \<open>Http\<close>: requests, handlers, decoding and validation, internal/auth over golang-jwt as a parameter.
  \<^item> \<open>User_Handler\<close>, \<open>Ledger_Handler\<close>, \<open>Order_Handler\<close>, \<open>Funding_Handler\<close>: every handler.go of the services.
  \<^item> \<open>Server\<close>, \<open>Web_Frames\<close>, \<open>Web_Properties\<close>, \<open>Access\<close>, \<open>Rehydration\<close>: cmd/server/main.go, its wiring,
    route tables and rehydration of the engine; that an error response has changed nothing, who gets
    past the middleware, and what the engine holds after a restart. \<open>Feeds\<close> is the part of main.go that
    connects the feeds: the subscribers of the bus, the public routes, when the bot runs. \<open>Startup\<close> is \<open>run\<close>
    itself: the start from the configuration to the rehydrated engine, and the life of the goroutines up
    to the shutdown, as a step relation.
  \<^item> \<open>Evolution\<close>, \<open>Services\<close>, \<open>Exchange\<close>, \<open>Books\<close>, \<open>Finality\<close>: the program as a whole. Two interfaces, both for a
    relation between the database before and after: \<open>store_contract\<close> between the statements of the stores
    and the services, \<open>service_contract\<close> between the service calls and the handlers, routes, settlement and
    publisher above them; the first gives the second. What keeps a contract is kept by every run of the
    exchange. The interpretations: what is recorded stays, keys stay unique (both of \<open>store_contract\<close>),
    the ledger agrees with the trades, deposits, withdrawals and orders, and what is settled is never
    touched again (both of \<open>service_contract\<close>).
  \<^item> \<open>Legacy\<close>, \<open>Legacy_Properties\<close>: internal/domain, internal/repository, internal/service and
    internal/handler, the earlier layers of users and accounts, which the server no longer wires; call for
    call they do what the packages that replaced them do.

  How a service call is modelled. It is a function from a world to an error or a result and the world
  after. Every database call may fail, as the environment of the world decides; statements run in the
  open transaction on a working copy that only a commit makes the database; a statement that fails
  aborts the transaction, as Postgres does. Service calls run one after the other: a state between two
  calls may have been changed arbitrarily, which the theorems about sequences of calls allow for, but
  two transactions do not interleave. Where a service checks before its transaction, calls may overlap
  between the two: the runs of \<open>Exchange\<close> have those transactions as steps of their own, whatever was
  checked, and \<open>Races\<close> shows what two withdrawals that overlap do to a balance.

  Third-party code is a parameter, a field of \<open>deps\<close>, \<open>bcrypt\<close>, \<open>jwt\<close>, \<open>viper\<close> or \<open>web\<close>; what the theorems
  assume of it is a named predicate (\<open>deps_ok\<close>, \<open>bcrypt_ok\<close>, \<open>jwt_ok\<close>) with an instance that has it. What
  \<open>jwt_ok\<close> says of golang-jwt is about the claims \<open>Sign\<close> makes only: sub, role, iat and exp.

  Not modelled. The sockets themselves with their pings and deadlines; logging, the CORS headers and the
  timeouts of the HTTP server. The loops of the publisher, the bot and
  the market feed are modelled by their rounds, the tickers by how many rounds there are.

  Fuel. The only bounded loop is the one of the code itself, the three attempts of
  \<open>GetOrCreateAddress\<close>; the matching loops are functions with a termination measure, and a publication
  of the hub is a loop over the clients that were registered when it began.
\<close>

end
